(* ===== verification/Prelude.thy ===== *)
theory Prelude
  imports Main "HOL-Library.Sublist"
begin

text \<open>
  Shared vocabulary of the development: the exceptions the Python code raises, results of
  fallible code as \<open>exn + 'a\<close>, state-passing computations that may raise, and the generic
  facts on lists that more than one component needs.

  \<^item> \<open>exn\<close> mirrors \<open>bai_agent/domain/errors.py\<close>: a \<open>BaiError\<close> keeps its class (the
    subclasses matter, because \<open>except TurnRejected\<close> and \<open>except BaiError\<close> are different
    handlers), its stable code and its \<open>retryable\<close> flag; the human-readable message is not
    modelled. The remaining constructors are the built-in exceptions the code lets escape, and
    \<open>Crash\<close> is the death of the process, which no handler sees.
  \<^item> named collections: \<open>result_simps\<close> (laws of the result type) and \<open>dict_simps\<close>
    (insertion-ordered dictionaries).
\<close>

named_theorems result_simps "laws of fallible results"
named_theorems dict_simps "laws of insertion-ordered dictionaries"

subsection \<open>Exceptions\<close>

datatype bai_class =
    PlainBaiError
  | TurnRejectedClass
  | TurnInterruptedClass
  | TraceIntegrityClass
  | CredentialExposureClass
  | DebugPresentationClass
  | TemporalEntryClass

datatype exn =
    Bai (bai_class_of: bai_class) (bai_code: string) (bai_retryable: bool)
  | ValidationExn
  | ValueExn
  | TypeExn
  | KeyExn
  | IndexExn
  | AssertionExn
  | OSExn
  | TimeoutExn
  | CancelledExn
  | OtherExn string
  | Crash

type_synonym 'a result = "exn + 'a"

abbreviation is_ok :: "'a result \<Rightarrow> bool" where
  "is_ok r \<equiv> \<not> isl r"

definition BaiError :: "string \<Rightarrow> exn" where
  "BaiError c = Bai PlainBaiError c False"

definition BaiErrorRetryable :: "string \<Rightarrow> exn" where
  "BaiErrorRetryable c = Bai PlainBaiError c True"

definition TurnRejected :: exn where
  "TurnRejected = Bai TurnRejectedClass ''TURN_REJECTED'' False"

definition TurnInterrupted :: exn where
  "TurnInterrupted = Bai TurnInterruptedClass ''TURN_INTERRUPTED'' False"

definition TraceIntegrityError :: exn where
  "TraceIntegrityError = Bai TraceIntegrityClass ''TRACE_INTEGRITY_FAILED'' False"

definition CredentialExposureError :: exn where
  "CredentialExposureError = Bai CredentialExposureClass ''CREDENTIAL_EXPOSURE'' False"

definition DebugPresentationError :: exn where
  "DebugPresentationError = Bai DebugPresentationClass ''DEBUG_PRESENTATION_FAILED'' False"

definition TemporalEntryError :: exn where
  "TemporalEntryError = Bai TemporalEntryClass ''TEMPORAL_ENTRY_INVALID'' False"

lemmas exn_defs = BaiError_def BaiErrorRetryable_def TurnRejected_def TurnInterrupted_def
  TraceIntegrityError_def CredentialExposureError_def DebugPresentationError_def
  TemporalEntryError_def

fun is_bai :: "exn \<Rightarrow> bool" where
  "is_bai (Bai _ _ _) = True"
| "is_bai _ = False"

text \<open>\<open>except TurnRejected\<close> also catches its subclass \<open>TurnInterrupted\<close>.\<close>

fun is_turn_rejected :: "exn \<Rightarrow> bool" where
  "is_turn_rejected (Bai c _ _) = (c = TurnRejectedClass \<or> c = TurnInterruptedClass)"
| "is_turn_rejected _ = False"

text \<open>What \<open>except Exception\<close> catches: not a cancellation and not the death of the process.\<close>

definition is_exception :: "exn \<Rightarrow> bool" where
  "is_exception e \<longleftrightarrow> e \<noteq> CancelledExn \<and> e \<noteq> Crash"

subsection \<open>Fallible results\<close>

definition rbind :: "'a result \<Rightarrow> ('a \<Rightarrow> 'b result) \<Rightarrow> 'b result" where
  "rbind m f = (case m of Inl e \<Rightarrow> Inl e | Inr x \<Rightarrow> f x)"

lemma rbind_simps [simp, result_simps]:
  "rbind (Inl e) f = Inl e"
  "rbind (Inr x) f = f x"
  by (simp_all add: rbind_def)

lemma rbind_Inr_iff [result_simps]:
  "rbind m f = Inr y \<longleftrightarrow> (\<exists>x. m = Inr x \<and> f x = Inr y)"
  by (cases m) auto

lemma rbind_Inl_iff [result_simps]:
  "rbind m f = Inl e \<longleftrightarrow> m = Inl e \<or> (\<exists>x. m = Inr x \<and> f x = Inl e)"
  by (cases m) auto

lemma if_Inl_iff [result_simps]:
  "(if b then Inl e else m) = Inr y \<longleftrightarrow> \<not> b \<and> m = Inr y"
  by auto

definition require :: "bool \<Rightarrow> exn \<Rightarrow> unit result" where
  "require b e = (if b then Inr () else Inl e)"

lemma require_iff [simp, result_simps]:
  "require b e = Inr u \<longleftrightarrow> b"
  "require b e = Inl e' \<longleftrightarrow> \<not> b \<and> e' = e"
  by (auto simp: require_def)

lemma require_True [simp]: "require True e = Inr ()"
  by (simp add: require_def)

text \<open>A loop over a sequence that stops at the first raised exception.\<close>

fun rmap :: "('a \<Rightarrow> 'b result) \<Rightarrow> 'a list \<Rightarrow> 'b list result" where
  "rmap f [] = Inr []"
| "rmap f (x # xs) = rbind (f x) (\<lambda>y. rbind (rmap f xs) (\<lambda>ys. Inr (y # ys)))"

lemma rmap_cong [fundef_cong]:
  "xs = ys \<Longrightarrow> (\<And>x. x \<in> set ys \<Longrightarrow> f x = g x) \<Longrightarrow> rmap f xs = rmap g ys"
  by (induction ys arbitrary: xs) auto

lemma rbind_cong [fundef_cong]:
  "m = n \<Longrightarrow> (\<And>x. n = Inr x \<Longrightarrow> f x = g x) \<Longrightarrow> rbind m f = rbind n g"
  by (cases n) auto

lemma rmap_Inr_length: "rmap f xs = Inr ys \<Longrightarrow> length ys = length xs"
  by (induction xs arbitrary: ys) (auto simp: rbind_Inr_iff)

lemma rmap_total: "(\<And>x. x \<in> set xs \<Longrightarrow> f x = Inr (g x)) \<Longrightarrow> rmap f xs = Inr (map g xs)"
  by (induction xs) auto

lemma rmap_Inr_nth:
  "rmap f xs = Inr ys \<Longrightarrow> i < length xs \<Longrightarrow> f (xs ! i) = Inr (ys ! i)"
  by (induction xs arbitrary: ys i) (auto simp: rbind_Inr_iff nth_Cons split: nat.splits)

lemma rmap_Inr_conv: "rmap f xs = Inr ys \<longleftrightarrow> list_all2 (\<lambda>x y. f x = Inr y) xs ys"
proof (induction xs arbitrary: ys)
  case Nil
  then show ?case by auto
next
  case (Cons x xs)
  then show ?case by (auto simp: rbind_Inr_iff list_all2_Cons1)
qed

lemma rmap_Inr_set:
  "rmap f xs = Inr ys \<Longrightarrow> y \<in> set ys \<Longrightarrow> \<exists>x\<in>set xs. f x = Inr y"
  by (induction xs arbitrary: ys) (auto simp: rbind_Inr_iff)

lemma rmap_Inr_arg:
  "rmap f xs = Inr ys \<Longrightarrow> x \<in> set xs \<Longrightarrow> \<exists>y. f x = Inr y"
  by (induction xs arbitrary: ys) (auto simp: rbind_Inr_iff)

subsection \<open>State-passing computations that may raise\<close>

text \<open>
  A stateful operation returns its result and the state it leaves behind, also when it raises:
  what was written before the exception stays written.
\<close>

type_synonym ('s, 'a) op = "'s \<Rightarrow> 'a result \<times> 's"

definition sbind :: "('s, 'a) op \<Rightarrow> ('a \<Rightarrow> ('s, 'b) op) \<Rightarrow> ('s, 'b) op" where
  "sbind m f s = (case m s of (Inl e, s') \<Rightarrow> (Inl e, s') | (Inr x, s') \<Rightarrow> f x s')"

definition sret :: "'a \<Rightarrow> ('s, 'a) op" where
  "sret x s = (Inr x, s)"

definition sfail :: "exn \<Rightarrow> ('s, 'a) op" where
  "sfail e s = (Inl e, s)"

definition slift :: "'a result \<Rightarrow> ('s, 'a) op" where
  "slift r s = (r, s)"

lemma sret_apply [simp]: "sret x s = (Inr x, s)"
  by (simp add: sret_def)

lemma sfail_apply [simp]: "sfail e s = (Inl e, s)"
  by (simp add: sfail_def)

lemma slift_apply [simp]: "slift r s = (r, s)"
  by (simp add: slift_def)

lemma sbind_Inr [simp]: "m s = (Inr x, s') \<Longrightarrow> sbind m f s = f x s'"
  by (simp add: sbind_def)

lemma sbind_Inl [simp]: "m s = (Inl e, s') \<Longrightarrow> sbind m f s = (Inl e, s')"
  by (simp add: sbind_def)

lemma sbind_Inr_iff:
  "sbind m f s = (Inr y, t) \<longleftrightarrow> (\<exists>x s'. m s = (Inr x, s') \<and> f x s' = (Inr y, t))"
  by (auto simp: sbind_def split: prod.splits sum.splits)

lemma sbind_Inl_iff:
  "sbind m f s = (Inl e, t) \<longleftrightarrow>
     m s = (Inl e, t) \<or> (\<exists>x s'. m s = (Inr x, s') \<and> f x s' = (Inl e, t))"
  by (auto simp: sbind_def split: prod.splits sum.splits)

subsection \<open>Lists\<close>

text \<open>\<open>sep.join(parts)\<close>.\<close>

fun join :: "'a list \<Rightarrow> 'a list list \<Rightarrow> 'a list" where
  "join sep [] = []"
| "join sep [x] = x"
| "join sep (x # y # zs) = x @ sep @ join sep (y # zs)"

lemma join_Nil_sep [simp]: "join [] xs = concat xs"
  by (induction "[] :: 'a list" xs rule: join.induct) auto

lemma set_join_subset: "set (join sep xs) \<subseteq> set sep \<union> (\<Union>x\<in>set xs. set x)"
  by (induction sep xs rule: join.induct) auto

lemma distinct_map_filter_inj:
  "inj_on f (set xs) \<Longrightarrow> distinct xs \<Longrightarrow> distinct (map f xs)"
  by (simp add: distinct_map)

lemma sum_list_map_length_concat: "length (concat xs) = sum_list (map length xs)"
  by (simp add: length_concat)

lemma butlast_snoc_id: "xs \<noteq> [] \<Longrightarrow> butlast xs @ [last xs] = xs"
  by simp

text \<open>First occurrences in order: the \<open>if x not in seen\<close> loop.\<close>

fun dedup_from :: "'a set \<Rightarrow> 'a list \<Rightarrow> 'a list" where
  "dedup_from seen [] = []"
| "dedup_from seen (x # xs) =
     (if x \<in> seen then dedup_from seen xs else x # dedup_from (insert x seen) xs)"

definition dedup :: "'a list \<Rightarrow> 'a list" where
  "dedup = dedup_from {}"

lemma set_dedup_from: "set (dedup_from s xs) = set xs - s"
  by (induction xs arbitrary: s) auto

lemma distinct_dedup_from: "distinct (dedup_from s xs)"
  by (induction xs arbitrary: s) (auto simp: set_dedup_from)

lemma set_dedup [simp]: "set (dedup xs) = set xs"
  by (simp add: dedup_def set_dedup_from)

lemma distinct_dedup [simp]: "distinct (dedup xs)"
  by (simp add: dedup_def distinct_dedup_from)

lemma dedup_eq_Nil [simp]: "dedup xs = [] \<longleftrightarrow> xs = []"
  by (cases xs) (auto simp: dedup_def)

lemma dedup_from_distinct: "distinct xs \<Longrightarrow> set xs \<inter> s = {} \<Longrightarrow> dedup_from s xs = xs"
  by (induction xs arbitrary: s) auto

lemma dedup_distinct: "distinct xs \<Longrightarrow> dedup xs = xs"
  by (simp add: dedup_def dedup_from_distinct)

subsection \<open>Insertion-ordered dictionaries\<close>

text \<open>
  A Python dict whose iteration order matters is an association list with distinct keys in
  insertion order: assignment replaces in place or appends.
\<close>

fun dict_set :: "'k \<Rightarrow> 'v \<Rightarrow> ('k \<times> 'v) list \<Rightarrow> ('k \<times> 'v) list" where
  "dict_set k v [] = [(k, v)]"
| "dict_set k v ((k', v') # kvs) =
     (if k = k' then (k, v) # kvs else (k', v') # dict_set k v kvs)"

abbreviation dict_get :: "('k \<times> 'v) list \<Rightarrow> 'k \<Rightarrow> 'v option" where
  "dict_get d k \<equiv> map_of d k"

lemma dict_get_set [simp, dict_simps]:
  "dict_get (dict_set k v d) = (dict_get d)(k \<mapsto> v)"
  by (induction d) auto

lemma dict_keys_set [dict_simps]:
  "map fst (dict_set k v d) = (if k \<in> fst ` set d then map fst d else map fst d @ [k])"
proof (induction d)
  case Nil
  then show ?case by simp
next
  case (Cons kv d)
  then show ?case by (cases kv) auto
qed

lemma distinct_dict_set [simp, dict_simps]:
  "distinct (map fst d) \<Longrightarrow> distinct (map fst (dict_set k v d))"
  by (auto simp: dict_keys_set)

lemma dict_get_None_iff: "dict_get d k = None \<longleftrightarrow> k \<notin> fst ` set d"
  by (simp add: map_of_eq_None_iff)

lemma set_dict_set:
  "distinct (map fst d) \<Longrightarrow>
   set (dict_set k v d) = insert (k, v) {kv \<in> set d. fst kv \<noteq> k}"
proof (induction d)
  case Nil
  then show ?case by simp
next
  case (Cons kv d)
  obtain k' v' where kv: "kv = (k', v')" by (cases kv)
  with Cons.prems have "k' \<notin> fst ` set d" and d: "distinct (map fst d)" by auto
  then have "{kv \<in> set d. fst kv \<noteq> k'} = set d" by force
  with Cons.IH [OF d] show ?case by (auto simp: kv)
qed


subsection \<open>An append-only log\<close>

text \<open>
  The contract the transaction relies on when it publishes records: pushing an admissible element
  extends the contents by that element. \<open>contents\<close> may fail, for a store that cannot be read.
\<close>

locale append_log =
  fixes contents :: "'s \<Rightarrow> 'a list result"
    and push :: "'a \<Rightarrow> 's \<Rightarrow> 's"
    and admissible :: "'a list \<Rightarrow> 'a \<Rightarrow> bool"
  assumes contents_push:
    "contents s = Inr xs \<Longrightarrow> admissible xs x \<Longrightarrow> contents (push x s) = Inr (xs @ [x])"
begin

lemma contents_push_two:
  assumes "contents s = Inr xs" and "admissible xs x" and "admissible (xs @ [x]) y"
  shows "contents (push y (push x s)) = Inr (xs @ [x, y])"
  using contents_push [OF contents_push [OF assms(1,2)] assms(3)] by simp

lemma contents_fold:
  assumes "contents s = Inr xs"
    and "\<And>i. i < length ys \<Longrightarrow> admissible (xs @ take i ys) (ys ! i)"
  shows "contents (fold push ys s) = Inr (xs @ ys)"
  using assms
proof (induction ys arbitrary: s xs)
  case Nil
  then show ?case by simp
next
  case (Cons y ys)
  have "contents (push y s) = Inr (xs @ [y])"
    using Cons.prems(1) Cons.prems(2) [of 0] by (simp add: contents_push)
  moreover have "admissible ((xs @ [y]) @ take i ys) (ys ! i)" if "i < length ys" for i
    using Cons.prems(2) [of "Suc i"] that by simp
  ultimately show ?case
    using Cons.IH [of "push y s" "xs @ [y]"] by simp
qed

end

end
