(* ===== verification/PyText.thy ===== *)
theory PyText
  imports Prelude "HOL-Library.List_Lexorder"
begin

text \<open>
  The Python \<open>str\<close> operations the code uses. A \<open>str\<close> is the list of its Unicode code
  points (\<open>pystr\<close>), so \<open>length\<close> counts what \<open>len\<close> counts; lone surrogates do not
  occur. \<open>u ''abc''\<close> is an ASCII literal. Bytes are lists of naturals below 256.

  The Unicode data is the part of the standard library's tables the code depends on: the white
  space of \<open>str.strip/split/isspace\<close>, the decimal digits \<open>int()\<close> accepts and the digits
  \<open>str.isdigit\<close> accepts (Unicode 15.0, the database of Python 3.12).
\<close>

type_synonym pystr = "nat list"
type_synonym bytes = "nat list"

definition char_code :: "char \<Rightarrow> nat" where
  "char_code c = nat (of_char c)"

definition u :: "string \<Rightarrow> pystr" where
  "u s = map char_code s"

lemma char_code_inj [simp]: "char_code c = char_code d \<longleftrightarrow> c = d"
  by (simp add: char_code_def eq_nat_nat_iff)

lemma u_Nil [simp]: "u [] = []"
  by (simp add: u_def)

lemma u_eq_Nil [simp]: "u s = [] \<longleftrightarrow> s = []" "[] = u s \<longleftrightarrow> s = []"
  by (auto simp: u_def)

lemma u_Cons: "u (c # s) = nat (of_char c) # u s"
  by (simp add: u_def char_code_def)

lemma u_append: "u (s @ t) = u s @ u t"
  by (simp add: u_def)

lemma length_u [simp]: "length (u s) = length s"
  by (simp add: u_def)

lemma u_inj [simp]: "u s = u t \<longleftrightarrow> s = t"
  by (simp add: u_def inj_map_eq_map inj_def)

subsection \<open>Character classes\<close>

definition is_space :: "nat \<Rightarrow> bool" where
  "is_space c \<longleftrightarrow> (9 \<le> c \<and> c \<le> 13) \<or> (28 \<le> c \<and> c \<le> 32) \<or> c = 133 \<or> c = 160 \<or> c = 5760 \<or>
     (8192 \<le> c \<and> c \<le> 8202) \<or> c = 8232 \<or> c = 8233 \<or> c = 8239 \<or> c = 8287 \<or> c = 12288"

text \<open>Every block of decimal digits is ten consecutive code points; these are the zeros.\<close>

definition decimal_zeros :: "nat list" where
  "decimal_zeros =
    [48, 1632, 1776, 1984, 2406, 2534, 2662, 2790, 2918, 3046, 3174, 3302, 3430, 3558, 3664,
     3792, 3872, 4160, 4240, 6112, 6160, 6470, 6608, 6784, 6800, 6992, 7088, 7232, 7248, 42528,
     43216, 43264, 43472, 43504, 43600, 44016, 65296, 66720, 68912, 69734, 69872, 69942, 70096,
     70384, 70736, 70864, 71248, 71360, 71472, 71904, 72016, 72784, 73040, 73120, 73552, 92768,
     92864, 93008, 120782, 120792, 120802, 120812, 120822, 123200, 123632, 124144, 125264,
     130032]"

definition decimal_value :: "nat \<Rightarrow> nat option" where
  "decimal_value c =
     (case List.find (\<lambda>z. z \<le> c \<and> c < z + 10) decimal_zeros of
        None \<Rightarrow> None | Some z \<Rightarrow> Some (c - z))"

definition other_digits :: "(nat \<times> nat) list" where
  "other_digits =
    [(178, 179), (185, 185), (4969, 4977), (6618, 6618), (8304, 8304), (8308, 8313),
     (8320, 8329), (9312, 9320), (9332, 9340), (9352, 9360), (9450, 9450), (9461, 9469),
     (9471, 9471), (10102, 10110), (10112, 10120), (10122, 10130), (68160, 68163),
     (69216, 69224), (69714, 69722), (127232, 127242)]"

definition char_isdigit :: "nat \<Rightarrow> bool" where
  "char_isdigit c \<longleftrightarrow> decimal_value c \<noteq> None \<or> (\<exists>(a, b) \<in> set other_digits. a \<le> c \<and> c \<le> b)"

text \<open>\<open>str.isdigit\<close> is false on the empty string.\<close>

definition str_isdigit :: "pystr \<Rightarrow> bool" where
  "str_isdigit s \<longleftrightarrow> s \<noteq> [] \<and> list_all char_isdigit s"

definition is_hex :: "nat \<Rightarrow> bool" where
  "is_hex c \<longleftrightarrow> (48 \<le> c \<and> c \<le> 57) \<or> (65 \<le> c \<and> c \<le> 70) \<or> (97 \<le> c \<and> c \<le> 102)"

definition is_ascii_alnum :: "nat \<Rightarrow> bool" where
  "is_ascii_alnum c \<longleftrightarrow> (48 \<le> c \<and> c \<le> 57) \<or> (65 \<le> c \<and> c \<le> 90) \<or> (97 \<le> c \<and> c \<le> 122)"

subsection \<open>Stripping, splitting, searching\<close>

definition lstrip :: "pystr \<Rightarrow> pystr" where
  "lstrip s = dropWhile is_space s"

definition rstrip :: "pystr \<Rightarrow> pystr" where
  "rstrip s = rev (dropWhile is_space (rev s))"

definition strip :: "pystr \<Rightarrow> pystr" where
  "strip s = rstrip (lstrip s)"

definition strip_chars :: "nat list \<Rightarrow> pystr \<Rightarrow> pystr" where
  "strip_chars cs s = rev (dropWhile (\<lambda>c. c \<in> set cs) (rev (dropWhile (\<lambda>c. c \<in> set cs) s)))"

definition rstrip_chars :: "nat list \<Rightarrow> pystr \<Rightarrow> pystr" where
  "rstrip_chars cs s = rev (dropWhile (\<lambda>c. c \<in> set cs) (rev s))"

lemma strip_eq_Nil: "strip s = [] \<longleftrightarrow> list_all is_space s"
proof -
  have "rstrip t = [] \<longleftrightarrow> list_all is_space t" for t
    by (simp add: rstrip_def dropWhile_eq_Nil_conv list_all_iff)
  moreover have "list_all is_space (dropWhile is_space s) \<longleftrightarrow> list_all is_space s"
    by (induction s) auto
  ultimately show ?thesis
    by (simp add: strip_def lstrip_def)
qed

definition startswith :: "'a list \<Rightarrow> 'a list \<Rightarrow> bool" where
  "startswith s p \<longleftrightarrow> take (length p) s = p"

lemma startswith_iff: "startswith s p \<longleftrightarrow> (\<exists>t. s = p @ t)"
  unfolding startswith_def
  by (metis append_eq_conv_conj append_take_drop_id)

lemma startswith_append [simp]: "startswith (p @ t) p"
  by (simp add: startswith_def)

definition endswith :: "'a list \<Rightarrow> 'a list \<Rightarrow> bool" where
  "endswith s p \<longleftrightarrow> startswith (rev s) (rev p)"

lemma endswith_iff: "endswith s p \<longleftrightarrow> (\<exists>t. s = t @ p)"
  by (auto simp: endswith_def startswith_iff) (metis rev_append rev_rev_ident)

lemma endswith_append [simp]: "endswith (t @ p) p"
  by (auto simp: endswith_iff)

text \<open>\<open>s.replace(pat, '')\<close> for a non-empty pattern: leftmost, non-overlapping.\<close>

function remove_sub :: "pystr \<Rightarrow> pystr \<Rightarrow> pystr" where
  "remove_sub pat s =
     (if s = [] then []
      else if pat \<noteq> [] \<and> startswith s pat then remove_sub pat (drop (length pat) s)
      else hd s # remove_sub pat (tl s))"
  by pat_completeness auto
termination
  by (relation "measure (\<lambda>(pat, s). length s)") (auto simp: startswith_def)

declare remove_sub.simps [simp del]

text \<open>\<open>s.split(sep)\<close> for a one-character separator.\<close>

fun split_on :: "nat \<Rightarrow> pystr \<Rightarrow> pystr list" where
  "split_on sep [] = [[]]"
| "split_on sep (c # s) =
     (if c = sep then [] # split_on sep s
      else (case split_on sep s of [] \<Rightarrow> [[c]] | p # ps \<Rightarrow> (c # p) # ps))"

lemma split_on_neq_Nil [simp]: "split_on sep s \<noteq> []"
  by (cases s) (auto split: list.splits)

lemma join_split_on: "join [sep] (split_on sep s) = s"
proof (induction s)
  case Nil
  then show ?case by simp
next
  case (Cons c s)
  obtain p ps where "split_on sep s = p # ps"
    by (cases "split_on sep s") auto
  with Cons.IH show ?case
    by (cases ps) auto
qed

text \<open>\<open>s.split()\<close>: maximal runs of characters that are not white space.\<close>

function split_ws :: "pystr \<Rightarrow> pystr list" where
  "split_ws s =
     (case dropWhile is_space s of
        [] \<Rightarrow> []
      | c # t \<Rightarrow> takeWhile (\<lambda>x. \<not> is_space x) (c # t)
                 # split_ws (dropWhile (\<lambda>x. \<not> is_space x) (c # t)))"
  by pat_completeness auto
termination
proof (relation "measure length", goal_cases)
  case 1
  then show ?case by simp
next
  case (2 s c t)
  from 2 have "\<not> is_space c"
    by (metis hd_dropWhile list.distinct(1) list.sel(1))
  moreover have "length (c # t) \<le> length s"
    by (metis 2 length_dropWhile_le)
  moreover have "length (dropWhile (\<lambda>x. \<not> is_space x) t) \<le> length t"
    by (rule length_dropWhile_le)
  ultimately show ?case by simp
qed

declare split_ws.simps [simp del]

subsection \<open>Decimal text\<close>

fun nat_str :: "nat \<Rightarrow> pystr" where
  "nat_str n = (if n < 10 then [48 + n] else nat_str (n div 10) @ [48 + n mod 10])"

declare nat_str.simps [simp del]

definition int_str :: "int \<Rightarrow> pystr" where
  "int_str i = (if i < 0 then 45 # nat_str (nat (- i)) else nat_str (nat i))"

text \<open>\<open>f"{n:0wd}"\<close> for a non-negative number.\<close>

definition zero_pad :: "nat \<Rightarrow> nat \<Rightarrow> pystr" where
  "zero_pad w n = replicate (w - length (nat_str n)) 48 @ nat_str n"

lemma nat_str_neq_Nil [simp]: "nat_str n \<noteq> []"
  by (subst nat_str.simps) simp

lemma nat_str_digits: "c \<in> set (nat_str n) \<Longrightarrow> 48 \<le> c \<and> c \<le> 57"
proof (induction n rule: nat_str.induct)
  case (1 n)
  show ?case
  proof (cases "n < 10")
    case True
    with "1.prems" show ?thesis by (simp add: nat_str.simps [of n])
  next
    case False
    with "1.prems" consider "c \<in> set (nat_str (n div 10))" | "c = 48 + n mod 10"
      by (auto simp: nat_str.simps [of n])
    then show ?thesis
    proof cases
      case 1
      with False "1.IH" show ?thesis by simp
    next
      case 2
      moreover have "n mod 10 < 10" by simp
      ultimately show ?thesis by simp
    qed
  qed
qed

definition nat_of_digits :: "pystr \<Rightarrow> nat" where
  "nat_of_digits s = foldl (\<lambda>a c. 10 * a + (c - 48)) 0 s"

lemma nat_of_digits_nat_str [simp]: "nat_of_digits (nat_str n) = n"
proof (induction n rule: nat_str.induct)
  case (1 n)
  show ?case
  proof (cases "n < 10")
    case True
    then show ?thesis by (simp add: nat_str.simps [of n] nat_of_digits_def)
  next
    case False
    with 1 have "nat_of_digits (nat_str (n div 10)) = n div 10" by simp
    with False show ?thesis
      by (simp add: nat_str.simps [of n] nat_of_digits_def)
  qed
qed

lemma nat_str_inj [simp]: "nat_str m = nat_str n \<longleftrightarrow> m = n"
  by (metis nat_of_digits_nat_str)

lemma int_str_neq_Nil [simp]: "int_str i \<noteq> []"
  by (simp add: int_str_def)

lemma int_str_inj [simp]: "int_str i = int_str j \<longleftrightarrow> i = j"
proof
  assume eq: "int_str i = int_str j"
  have no_minus: "nat_str n \<noteq> 45 # t" for n t
    using nat_str_digits [of 45 n] by auto
  have no_minus': "45 # t \<noteq> nat_str n" for n t
    using no_minus [of n t] by simp
  show "i = j"
    using eq no_minus no_minus' by (auto simp: int_str_def split: if_splits)
qed simp

lemma int_str_chars: "c \<in> set (int_str i) \<Longrightarrow> c = 45 \<or> 48 \<le> c \<and> c \<le> 57"
  by (auto simp: int_str_def split: if_splits dest: nat_str_digits)

subsection \<open>Integers in base sixteen, as \<open>int(s, 16)\<close> accepts them\<close>

text \<open>
  \<open>int\<close> maps Unicode decimal digits and white space to ASCII, skips surrounding white space,
  accepts one sign and a \<open>0x\<close> prefix (with one underscore after it), and single underscores
  between digits. \<open>py_int16\<close> says whether the call succeeds.
\<close>

definition int_ascii :: "nat \<Rightarrow> nat" where
  "int_ascii c =
     (if c < 127 then c
      else if is_space c then 32
      else (case decimal_value c of Some d \<Rightarrow> 48 + d | None \<Rightarrow> 63))"

definition c_space :: "nat \<Rightarrow> bool" where
  "c_space c \<longleftrightarrow> c = 32 \<or> (9 \<le> c \<and> c \<le> 13)"

definition hex_body_ok :: "pystr \<Rightarrow> bool" where
  "hex_body_ok s =
     (let body = takeWhile (\<lambda>c. is_hex c \<or> c = 95) s;
          rest = dropWhile (\<lambda>c. is_hex c \<or> c = 95) s
      in body \<noteq> [] \<and> hd body \<noteq> 95 \<and> last body \<noteq> 95
         \<and> list_all (\<lambda>(a, b). \<not> (a = 95 \<and> b = 95)) (zip body (tl body))
         \<and> list_all c_space rest)"

definition py_int16 :: "pystr \<Rightarrow> bool" where
  "py_int16 s =
     (let t = dropWhile c_space (map int_ascii s);
          t1 = (if t \<noteq> [] \<and> (hd t = 43 \<or> hd t = 45) then tl t else t);
          t2 = (if take 2 t1 = u ''0x'' \<or> take 2 t1 = u ''0X''
                then (if take 1 (drop 2 t1) = [95] then drop 3 t1 else drop 2 t1)
                else t1)
      in hex_body_ok t2)"

lemma hex_body_ok_hex:
  assumes "s \<noteq> []" and "list_all is_hex s"
  shows "hex_body_ok s"
proof -
  have tw: "takeWhile (\<lambda>c. is_hex c \<or> c = 95) s = s"
    using assms(2) by (auto simp: takeWhile_eq_all_conv list_all_iff)
  have dw: "dropWhile (\<lambda>c. is_hex c \<or> c = 95) s = []"
    using assms(2) by (auto simp: dropWhile_eq_Nil_conv list_all_iff)
  have no95: "c \<in> set s \<Longrightarrow> c \<noteq> 95" for c
    using assms(2) by (auto simp: list_all_iff is_hex_def)
  have "list_all (\<lambda>(a, b). \<not> (a = 95 \<and> b = 95)) (zip s (tl s))"
    using no95 by (auto simp: list_all_iff dest: set_zip_leftD)
  with assms(1) no95 show ?thesis
    by (simp add: hex_body_ok_def tw dw)
qed

lemma py_int16_hex:
  assumes "s \<noteq> []" and "list_all is_hex s"
  shows "py_int16 s"
proof -
  have asc: "map int_ascii s = s"
    using assms(2) by (intro map_idI) (auto simp: list_all_iff is_hex_def int_ascii_def)
  obtain c t where s: "s = c # t" using assms(1) by (cases s) auto
  have c: "is_hex c" using assms(2) s by simp
  then have dw: "dropWhile c_space s = s"
    by (auto simp: s is_hex_def c_space_def)
  have sgn: "\<not> (hd s = 43 \<or> hd s = 45)"
    using c by (auto simp: s is_hex_def)
  have no_x: "d \<in> set s \<Longrightarrow> d \<noteq> 120 \<and> d \<noteq> 88" for d
    using assms(2) by (auto simp: list_all_iff is_hex_def)
  have "take 2 s \<noteq> u ''0x'' \<and> take 2 s \<noteq> u ''0X''"
    using no_x by (cases t) (auto simp: s u_Cons)
  with assms asc dw sgn show ?thesis
    by (simp add: py_int16_def hex_body_ok_hex)
qed

subsection \<open>UTF-8\<close>

fun utf8_char :: "nat \<Rightarrow> bytes" where
  "utf8_char c =
     (if c < 128 then [c]
      else if c < 2048 then [192 + c div 64, 128 + c mod 64]
      else if c < 65536 then [224 + c div 4096, 128 + c div 64 mod 64, 128 + c mod 64]
      else [240 + c div 262144, 128 + c div 4096 mod 64, 128 + c div 64 mod 64, 128 + c mod 64])"

definition utf8 :: "pystr \<Rightarrow> bytes" where
  "utf8 s = concat (map utf8_char s)"

lemma utf8_Nil [simp]: "utf8 [] = []"
  by (simp add: utf8_def)

lemma utf8_append [simp]: "utf8 (s @ t) = utf8 s @ utf8 t"
  by (simp add: utf8_def)

lemma utf8_ascii: "list_all (\<lambda>c. c < 128) s \<Longrightarrow> utf8 s = s"
  by (induction s) (auto simp: utf8_def)

lemma utf8_low_byte: "b \<in> set (utf8 s) \<Longrightarrow> b < 128 \<Longrightarrow> b \<in> set s"
  by (auto simp: utf8_def split: if_splits)

lemma div_mod_inj:
  "(c::nat) div n = d div n \<Longrightarrow> c mod n = d mod n \<Longrightarrow> c = d"
  by (metis div_mult_mod_eq)

lemma utf8_char_prefix:
  assumes "utf8_char c @ r = utf8_char d @ s"
  shows "c = d \<and> r = s"
proof -
  have lt: "n mod 64 < 64" for n :: nat by simp
  consider "c < 128" | "128 \<le> c" "c < 2048" | "2048 \<le> c" "c < 65536" | "65536 \<le> c" by linarith
  then show ?thesis
  proof cases
    case 1
    then show ?thesis using assms by (auto split: if_splits)
  next
    case 2
    then have c: "c div 64 < 32" by auto
    have d: "128 \<le> d \<and> d < 2048"
    proof -
      have "d div 4096 < 16" if "d < 65536" using that by auto
      then show ?thesis using assms 2 c by (auto split: if_splits)
    qed
    with assms 2 show ?thesis by (auto intro: div_mod_inj [of _ 64])
  next
    case 3
    then have c: "c div 4096 < 16" by auto
    have d: "2048 \<le> d \<and> d < 65536"
    proof -
      have "d div 64 < 32" if "d < 2048" using that by auto
      then show ?thesis using assms 3 c by (auto split: if_splits)
    qed
    have "c div 64 div 64 = c div 4096" "d div 64 div 64 = d div 4096" by (simp_all add: div_mult2_eq [symmetric])
    with assms 3 d show ?thesis by (auto intro!: div_mod_inj [of c 64 d] div_mod_inj [of "c div 64" 64 "d div 64"])
  next
    case 4
    have d: "65536 \<le> d"
    proof -
      have "d div 64 < 32" if "d < 2048" using that by auto
      moreover have "d div 4096 < 16" if "d < 65536" using that by auto
      ultimately show ?thesis using assms 4 by (auto split: if_splits)
    qed
    have "c div 64 div 64 = c div 4096" "d div 64 div 64 = d div 4096"
      "c div 4096 div 64 = c div 262144" "d div 4096 div 64 = d div 262144"
      by (simp_all add: div_mult2_eq [symmetric])
    with assms 4 d show ?thesis by (auto intro!: div_mod_inj [of c 64 d] div_mod_inj [of "c div 64" 64 "d div 64"]
       div_mod_inj [of "c div 4096" 64 "d div 4096"])
  qed
qed

lemma utf8_inj [simp]: "utf8 s = utf8 t \<longleftrightarrow> s = t"
proof
  show "utf8 s = utf8 t \<Longrightarrow> s = t"
  proof (induction s arbitrary: t)
    case Nil
    then show ?case by (cases t) (auto simp: utf8_def split: if_splits)
  next
    case (Cons c s)
    show ?case
    proof (cases t)
      case Nil
      with Cons.prems show ?thesis by (auto simp: utf8_def split: if_splits)
    next
      case (Cons d t')
      from \<open>utf8 (c # s) = utf8 t\<close> have "utf8_char c @ utf8 s = utf8_char d @ utf8 t'"
        unfolding utf8_def Cons by simp
      from utf8_char_prefix [OF this] Cons.IH [of t'] show ?thesis by (simp add: Cons)
    qed
  qed
qed simp

end
