(* ===== verification/PyJson.thy ===== *)
theory PyJson
  imports Sha256
begin

text \<open>
  JSON values and the helpers of \<open>domain/models.py\<close> on them: \<open>canonical_json\<close> (sorted keys, no
  blanks, no ASCII escaping), \<open>freeze_json\<close>/\<open>thaw_json\<close>, and the byte and character facts the
  stores rely on: a canonical text contains no control character, so it is one line of a JSONL
  segment.

  A dict is an association list in insertion order. A float is represented by its \<open>repr\<close>, the
  text \<open>json.dumps\<close> prints.
\<close>

datatype json =
    JNull
  | JBool bool
  | JInt int
  | JFloat pystr
  | JStr pystr
  | JArr "json list"
  | JObj "(pystr \<times> json) list"

text \<open>The text an ASCII-transparent encoder writes for one character of a string.\<close>

definition esc_char :: "nat \<Rightarrow> pystr" where
  "esc_char c =
     (if c = 34 then [92, 34]
      else if c = 92 then [92, 92]
      else if c = 10 then [92, 110]
      else if c = 13 then [92, 114]
      else if c = 9 then [92, 116]
      else if c = 12 then [92, 102]
      else if c = 8 then [92, 98]
      else if c < 32 then [92, 117, 48, 48, hex_digit (c div 16), hex_digit (c mod 16)]
      else [c])"

definition quote_json :: "pystr \<Rightarrow> pystr" where
  "quote_json s = [34] @ concat (map esc_char s) @ [34]"

text \<open>\<open>json.dumps(value, ensure_ascii=False, allow_nan=False, sort_keys=True, separators=(",", ":"))\<close>.\<close>

fun canonical_json :: "json \<Rightarrow> pystr" where
  "canonical_json JNull = u ''null''"
| "canonical_json (JBool b) = (if b then u ''true'' else u ''false'')"
| "canonical_json (JInt i) = int_str i"
| "canonical_json (JFloat r) = r"
| "canonical_json (JStr s) = quote_json s"
| "canonical_json (JArr xs) = [91] @ join [44] (map canonical_json xs) @ [93]"
| "canonical_json (JObj kvs) =
     [123] @ join [44] (map (\<lambda>(k, t). quote_json k @ [58] @ t)
                         (sort_key fst (map (\<lambda>(k, v). (k, canonical_json v)) kvs))) @ [125]"

text \<open>
  The same value with the keys of every object sorted: what a canonical text determines.
\<close>

fun json_norm :: "json \<Rightarrow> json" where
  "json_norm (JArr xs) = JArr (map json_norm xs)"
| "json_norm (JObj kvs) = JObj (sort_key fst (map (\<lambda>(k, v). (k, json_norm v)) kvs))"
| "json_norm j = j"

fun json_no_float :: "json \<Rightarrow> bool" where
  "json_no_float (JFloat r) = False"
| "json_no_float (JArr xs) = list_all json_no_float xs"
| "json_no_float (JObj kvs) = list_all (\<lambda>(k, v). json_no_float v) kvs"
| "json_no_float j = True"

subsection \<open>Frozen payloads\<close>

text \<open>
  \<open>freeze_json\<close> maps lists to tuples and dicts to read-only mappings; \<open>thaw_json\<close> maps them
  back. The Python values in play: both mutable and immutable containers, and objects that are not
  JSON values at all, which \<open>freeze_json\<close> rejects.
\<close>

datatype pyval =
    PNone
  | PBool bool
  | PInt int
  | PFloat pystr
  | PStr pystr
  | PList "pyval list"
  | PTuple "pyval list"
  | PDict "(pystr \<times> pyval) list"
  | PProxy "(pystr \<times> pyval) list"
  | POther nat

fun freeze_json :: "pyval \<Rightarrow> pyval result" where
  "freeze_json (PDict kvs) =
     rbind (rmap (\<lambda>(k, v). rbind (freeze_json v) (\<lambda>w. Inr (k, w))) kvs) (\<lambda>ws. Inr (PProxy ws))"
| "freeze_json (PProxy kvs) =
     rbind (rmap (\<lambda>(k, v). rbind (freeze_json v) (\<lambda>w. Inr (k, w))) kvs) (\<lambda>ws. Inr (PProxy ws))"
| "freeze_json (PList xs) = rbind (rmap freeze_json xs) (\<lambda>ws. Inr (PTuple ws))"
| "freeze_json (PTuple xs) = rbind (rmap freeze_json xs) (\<lambda>ws. Inr (PTuple ws))"
| "freeze_json (POther n) = Inl ValueExn"
| "freeze_json v = Inr v"

fun thaw_json :: "pyval \<Rightarrow> pyval" where
  "thaw_json (PDict kvs) = PDict (map (\<lambda>(k, v). (k, thaw_json v)) kvs)"
| "thaw_json (PProxy kvs) = PDict (map (\<lambda>(k, v). (k, thaw_json v)) kvs)"
| "thaw_json (PTuple xs) = PList (map thaw_json xs)"
| "thaw_json v = v"


lemma sort_key_map_snd:
  "sort_key fst (map (\<lambda>(k, v). (k, f v)) kvs) = map (\<lambda>(k, v). (k, f v)) (sort_key fst kvs)"
proof -
  have ins: "insort_key fst (k, f v) (map (\<lambda>(k, v). (k, f v)) ys) =
      map (\<lambda>(k, v). (k, f v)) (insort_key fst (k, v) ys)" for k v ys
    by (induction ys) auto
  show ?thesis
    by (induction kvs) (auto simp: ins)
qed

lemma canonical_json_obj:
  "canonical_json (JObj kvs) =
     123 # join [44] (map (\<lambda>(k, v). quote_json k @ 58 # canonical_json v) (sort_key fst kvs)) @ [125]"
  by (simp only: canonical_json.simps sort_key_map_snd map_map)
    (simp add: comp_def case_prod_unfold)

lemma json_norm_obj:
  "json_norm (JObj kvs) = JObj (map (\<lambda>(k, v). (k, json_norm v)) (sort_key fst kvs))"
  by (simp add: sort_key_map_snd)

declare canonical_json.simps(7) [simp del] json_norm.simps(2) [simp del]

subsection \<open>A canonical text is one line\<close>

lemma esc_char_printable: "x \<in> set (esc_char c) \<Longrightarrow> 32 \<le> x"
proof -
  assume "x \<in> set (esc_char c)"
  moreover have "32 \<le> hex_digit n" for n
    by (auto simp: hex_digit_def)
  ultimately show "32 \<le> x"
    by (auto simp: esc_char_def split: if_splits)
qed

lemma quote_json_printable: "x \<in> set (quote_json s) \<Longrightarrow> 32 \<le> x"
  by (auto simp: quote_json_def dest: esc_char_printable)

lemma canonical_json_printable:
  "json_no_float j \<Longrightarrow> x \<in> set (canonical_json j) \<Longrightarrow> 32 \<le> x"
proof (induction j arbitrary: x rule: canonical_json.induct)
  case (3 i)
  then show ?case by (auto dest: int_str_chars)
next
  case (5 s)
  then show ?case by (auto dest: quote_json_printable)
next
  case (6 xs)
  have "set (join [44] (map canonical_json xs)) \<subseteq> {44} \<union> (\<Union>j\<in>set xs. set (canonical_json j))"
    using set_join_subset [of "[44]" "map canonical_json xs"] by simp
  with 6 show ?case by (auto simp: list_all_iff)
next
  case (7 kvs)
  let ?ts = "map (\<lambda>(k, v). quote_json k @ 58 # canonical_json v) (sort_key fst kvs)"
  have el: "32 \<le> y" if y: "y \<in> set t" "t \<in> set ?ts" for y t
  proof -
    from y(2) obtain k v where kv: "(k, v) \<in> set kvs" "t = quote_json k @ 58 # canonical_json v"
      by auto
    from kv(1) "7.prems"(1) have "json_no_float v" by (auto simp: list_all_iff)
    with kv y(1) show ?thesis
      using "7.IH" [OF kv(1) refl] by (auto dest: quote_json_printable)
  qed
  have "set (join [44] ?ts) \<subseteq> {44} \<union> (\<Union>t\<in>set ?ts. set t)"
    using set_join_subset [of "[44]" ?ts] by simp
  then have "\<forall>y\<in>set (join [44] ?ts). y = 44 \<or> (\<exists>t\<in>set ?ts. y \<in> set t)" by blast
  with el have "\<forall>y\<in>set (join [44] ?ts). 32 \<le> y" by fastforce
  with "7.prems"(2) show ?case by (auto simp: canonical_json_obj)
qed (auto simp: u_Cons split: if_splits)

lemma canonical_json_neq_Nil: "json_no_float j \<Longrightarrow> canonical_json j \<noteq> []"
  by (cases j) (simp_all add: quote_json_def u_Cons canonical_json_obj)

subsection \<open>A canonical text determines the value\<close>

text \<open>What may follow a value inside a larger text: nothing, a comma or a closing bracket.\<close>

definition json_delim :: "pystr \<Rightarrow> bool" where
  "json_delim r \<longleftrightarrow> (case r of [] \<Rightarrow> True | c # _ \<Rightarrow> c = 44 \<or> c = 93 \<or> c = 125)"

lemma json_delim_simps [simp]:
  "json_delim []" "json_delim (c # r) \<longleftrightarrow> c = 44 \<or> c = 93 \<or> c = 125"
  by (simp_all add: json_delim_def)

lemma hex_digit_inj: "m < 16 \<Longrightarrow> n < 16 \<Longrightarrow> hex_digit m = hex_digit n \<Longrightarrow> m = n"
  by (auto simp: hex_digit_def split: if_splits)

definition short_escapes :: "(nat \<times> nat) list" where
  "short_escapes = [(34, 34), (92, 92), (10, 110), (13, 114), (9, 116), (12, 102), (8, 98)]"

lemma short_escapes_inj:
  "(c, x) \<in> set short_escapes \<Longrightarrow> (d, x) \<in> set short_escapes \<Longrightarrow> c = d"
  by (auto simp: short_escapes_def)

lemma esc_char_short:
  assumes "c \<in> fst ` set short_escapes"
  shows "(c, esc_char c ! 1) \<in> set short_escapes \<and> esc_char c ! 1 \<noteq> 117 \<and>
    esc_char c = [92, esc_char c ! 1]"
proof -
  have "c = 34 \<or> c = 92 \<or> c = 10 \<or> c = 13 \<or> c = 9 \<or> c = 12 \<or> c = 8"
    using assms by (auto simp: short_escapes_def)
  then show ?thesis
    by (elim disjE) (simp_all add: esc_char_def short_escapes_def)
qed

lemma esc_char_cases:
  obtains (plain) "32 \<le> c" "c \<noteq> 92" "esc_char c = [c]"
    | (short) x where "(c, x) \<in> set short_escapes" "x \<noteq> 117" "esc_char c = [92, x]"
    | (long) "c < 32" "esc_char c = [92, 117, 48, 48, hex_digit (c div 16), hex_digit (c mod 16)]"
proof (cases "c \<in> fst ` set short_escapes")
  case True
  show ?thesis
    by (rule short) (use esc_char_short [OF True] in blast)+
next
  case False
  then have "c \<noteq> 34 \<and> c \<noteq> 92 \<and> c \<noteq> 10 \<and> c \<noteq> 13 \<and> c \<noteq> 9 \<and> c \<noteq> 12 \<and> c \<noteq> 8"
    by (auto simp: short_escapes_def)
  then show ?thesis
    using plain long by (cases "c < 32") (simp_all add: esc_char_def)
qed

lemma hex_pair_inj:
  assumes "c < 32" "d < 32" "hex_digit (c div 16) = hex_digit (d div 16)"
    "hex_digit (c mod 16) = hex_digit (d mod 16)"
  shows "c = (d :: nat)"
proof -
  have "c div 16 = d div 16" "c mod 16 = d mod 16"
    using assms by (auto intro: hex_digit_inj)
  then show ?thesis by (metis div_mult_mod_eq)
qed

lemma esc_char_prefix:
  assumes "esc_char c @ r = esc_char d @ s"
  shows "c = d \<and> r = s"
  using assms
  by (cases c rule: esc_char_cases; cases d rule: esc_char_cases)
    (simp_all, auto dest: hex_pair_inj short_escapes_inj)

lemma esc_char_hd: "\<exists>x t. esc_char c = x # t \<and> x \<noteq> 34"
  by (auto simp: esc_char_def)

lemma quote_body_prefix:
  "concat (map esc_char s) @ 34 # r = concat (map esc_char t) @ 34 # r' \<Longrightarrow> s = t \<and> r = r'"
proof (induction s arbitrary: t)
  case Nil
  then show ?case
  proof (cases t)
    case (Cons d t')
    obtain x y where "esc_char d = x # y" "x \<noteq> 34" using esc_char_hd by blast
    with Nil Cons show ?thesis by auto
  qed auto
next
  case (Cons c s)
  note IH = Cons.IH and prems = Cons.prems
  obtain x y where x: "esc_char c = x # y" "x \<noteq> 34" using esc_char_hd by blast
  show ?case
  proof (cases t)
    case Nil
    with prems x show ?thesis by simp
  next
    case t: (Cons d t')
    with prems have "esc_char c @ (concat (map esc_char s) @ 34 # r) =
        esc_char d @ (concat (map esc_char t') @ 34 # r')" by simp
    note esc = esc_char_prefix [OF this]
    with IH [of t'] have "s = t'" "r = r'" by simp_all
    with esc show ?thesis by (simp add: t)
  qed
qed

lemma quote_json_prefix: "quote_json s @ r = quote_json t @ r' \<Longrightarrow> s = t \<and> r = r'"
  using quote_body_prefix [of s r t r'] by (simp add: quote_json_def)

lemma quote_json_inj [simp]: "quote_json s = quote_json t \<longleftrightarrow> s = t"
  using quote_json_prefix [of s "[]" t "[]"] by auto

lemma int_str_prefix:
  assumes "int_str i @ r = int_str j @ s" and "json_delim r" and "json_delim s"
  shows "i = j \<and> r = s"
proof -
  let ?P = "\<lambda>c. c = (45::nat) \<or> 48 \<le> c \<and> c \<le> 57"
  have tw: "takeWhile ?P (int_str k @ t) = int_str k \<and> dropWhile ?P (int_str k @ t) = t"
    if "json_delim t" for k t
  proof -
    have all: "\<forall>c\<in>set (int_str k). ?P c" using int_str_chars by blast
    moreover have "takeWhile ?P t = []" "dropWhile ?P t = t"
      using that by (cases t; auto)+
    ultimately show ?thesis by (simp add: takeWhile_append2 dropWhile_append2)
  qed
  from tw [OF assms(2), of i] tw [OF assms(3), of j] assms(1) show ?thesis
    by (metis int_str_inj)
qed

text \<open>A comma-separated list of self-delimiting texts can be read back.\<close>

lemma join_prefix:
  assumes "\<And>x y r s. x \<in> set xs \<Longrightarrow> y \<in> set ys \<Longrightarrow> json_delim r \<Longrightarrow> json_delim s \<Longrightarrow>
      f x @ r = h y @ s \<Longrightarrow> P x y \<and> r = s"
    and "\<And>x. x \<in> set xs \<Longrightarrow> f x \<noteq> [] \<and> hd (f x) \<noteq> c"
    and "\<And>y. y \<in> set ys \<Longrightarrow> h y \<noteq> [] \<and> hd (h y) \<noteq> c"
    and "c = 93 \<or> c = 125"
    and "join [44] (map f xs) @ c # r = join [44] (map h ys) @ c # s"
  shows "list_all2 P xs ys \<and> r = s"
  using assms
proof (induction xs arbitrary: ys)
  case Nil
  show ?case
  proof (cases ys)
    case (Cons y ys')
    with Nil.prems(3) obtain a t where "h y = a # t" "a \<noteq> c"
      by (metis list.collapse list.set_intros(1))
    with Nil.prems(5) Cons show ?thesis by (cases ys') auto
  qed (use Nil.prems in auto)
next
  case (Cons x xs)
  obtain a t where fx: "f x = a # t" "a \<noteq> c"
    using Cons.prems(2) by (metis list.collapse list.set_intros(1))
  show ?case
  proof (cases ys)
    case Nil
    with Cons.prems(5) fx show ?thesis by (cases xs) auto
  next
    case (Cons y ys')
    define R where "R = (if xs = [] then c # r else 44 # join [44] (map f xs) @ c # r)"
    define S where "S = (if ys' = [] then c # s else 44 # join [44] (map h ys') @ c # s)"
    have "f x @ R = h y @ S"
      using Cons.prems(5) Cons by (cases xs; cases ys') (auto simp: R_def S_def)
    moreover have "json_delim R" "json_delim S"
      using Cons.prems(4) by (auto simp: R_def S_def)
    ultimately have P: "P x y" and RS: "R = S"
      using Cons.prems(1) [of x y R S] Cons by auto
    show ?thesis
    proof (cases "xs = []")
      case True
      with RS Cons.prems(4) P Cons show ?thesis by (auto simp: R_def S_def split: if_splits)
    next
      case False
      with RS Cons.prems(4) have "ys' \<noteq> []"
        and "join [44] (map f xs) @ c # r = join [44] (map h ys') @ c # s"
        by (auto simp: R_def S_def split: if_splits)
      with Cons.IH [of ys'] Cons.prems(1-4) Cons P show ?thesis by auto
    qed
  qed
qed

text \<open>The first character of a canonical text gives the constructor away.\<close>

fun json_first :: "json \<Rightarrow> nat \<Rightarrow> bool" where
  "json_first JNull c = (c = 110)"
| "json_first (JBool b) c = (c = (if b then 116 else 102))"
| "json_first (JInt i) c = (c = 45 \<or> 48 \<le> c \<and> c \<le> 57)"
| "json_first (JFloat r) c = False"
| "json_first (JStr s) c = (c = 34)"
| "json_first (JArr xs) c = (c = 91)"
| "json_first (JObj kvs) c = (c = 123)"

lemma canonical_json_first:
  assumes "json_no_float j"
  shows "\<exists>c t. canonical_json j = c # t \<and> json_first j c"
proof (cases j)
  case (JInt i)
  obtain c t where "int_str i = c # t" by (cases "int_str i") auto
  with int_str_chars [of c i] JInt show ?thesis by auto
qed (use assms in \<open>auto simp: u_Cons quote_json_def canonical_json_obj\<close>)

lemma canonical_json_same_first:
  assumes "json_no_float x" "json_no_float y" "canonical_json x @ r = canonical_json y @ s"
  shows "\<exists>c. json_first x c \<and> json_first y c"
  using canonical_json_first [OF assms(1)] canonical_json_first [OF assms(2)] assms(3) by auto

lemma canonical_json_prefix:
  "json_no_float x \<Longrightarrow> json_no_float y \<Longrightarrow> json_delim r \<Longrightarrow> json_delim s \<Longrightarrow>
     canonical_json x @ r = canonical_json y @ s \<Longrightarrow> json_norm x = json_norm y \<and> r = s"
proof (induction x arbitrary: y r s)
  case JNull
  then show ?case
    using canonical_json_same_first [of JNull y r s] by (cases y) (auto split: if_splits)
next
  case (JBool b)
  then show ?case
    using canonical_json_same_first [of "JBool b" y r s] by (cases y) (auto split: if_splits)
next
  case (JInt i)
  then show ?case
    using canonical_json_same_first [of "JInt i" y r s] int_str_prefix [of i r _ s]
    by (cases y) (auto split: if_splits)
next
  case (JFloat t)
  then show ?case by simp
next
  case (JStr t)
  then show ?case
    using canonical_json_same_first [of "JStr t" y r s] quote_json_prefix [of t r _ s]
    by (cases y) (auto split: if_splits)
next
  case (JArr xs)
  obtain ys where y: "y = JArr ys"
    using JArr.prems canonical_json_same_first [of "JArr xs" y r s]
    by (cases y) (auto split: if_splits)
  have hd: "canonical_json j \<noteq> [] \<and> hd (canonical_json j) \<noteq> 93" if "json_no_float j" for j
    using canonical_json_first [OF that] by (cases j) (auto split: if_splits)
  have "list_all2 (\<lambda>x y. json_norm x = json_norm y) xs ys \<and> r = s"
  proof (rule join_prefix [where c = 93 and f = canonical_json and h = canonical_json])
    show "join [44] (map canonical_json xs) @ 93 # r = join [44] (map canonical_json ys) @ 93 # s"
      using JArr.prems(5) y by simp
  qed (use JArr hd y in \<open>auto simp: list_all_iff\<close>)
  then show ?case
    by (auto simp: y list_all2_conv_all_nth intro: nth_equalityI)
next
  case (JObj kvs)
  obtain kws where y: "y = JObj kws"
    using JObj.prems canonical_json_same_first [of "JObj kvs" y r s]
    by (cases y) (auto split: if_splits)
  let ?f = "\<lambda>(k, v). quote_json k @ 58 # canonical_json v"
  let ?P = "\<lambda>(k, v) (k', v'). k = k' \<and> json_norm v = json_norm v'"
  have "list_all2 ?P (sort_key fst kvs) (sort_key fst kws) \<and> r = s"
  proof (rule join_prefix [where c = 125 and f = ?f and h = ?f])
    show "join [44] (map ?f (sort_key fst kvs)) @ 125 # r =
        join [44] (map ?f (sort_key fst kws)) @ 125 # s"
      using JObj.prems(5) by (simp add: canonical_json_obj y)
    fix kv kv' a b
    assume mem: "kv \<in> set (sort_key fst kvs)" "kv' \<in> set (sort_key fst kws)"
      and d: "json_delim a" "json_delim b" and eq: "?f kv @ a = ?f kv' @ b"
    obtain k v k' v' where kv: "kv = (k, v)" "kv' = (k', v')" by (cases kv; cases kv')
    from eq kv have "quote_json k @ (58 # canonical_json v @ a) =
        quote_json k' @ (58 # canonical_json v' @ b)" by simp
    from quote_json_prefix [OF this] have k: "k = k'"
      and v: "canonical_json v @ a = canonical_json v' @ b" by auto
    have "json_no_float v" "json_no_float v'" "(k, v) \<in> set kvs"
      using mem kv y JObj.prems(1,2) by (auto simp: list_all_iff)
    then have "json_norm v = json_norm v' \<and> a = b"
      using JObj.IH [of "(k, v)" v v' a b] d v by (simp add: snds.simps)
    with k kv show "?P kv kv' \<and> a = b" by simp
  qed (auto simp: quote_json_def)
  then show ?case
    by (auto simp: y json_norm_obj list_all2_conv_all_nth case_prod_unfold intro: nth_equalityI)
qed

lemma canonical_json_inj:
  assumes "json_no_float x" and "json_no_float y" and "canonical_json x = canonical_json y"
  shows "json_norm x = json_norm y"
  using canonical_json_prefix [of x y "[]" "[]"] assms by simp


lemma json_norm_obj_get:
  assumes "json_norm (JObj kvs) = json_norm (JObj kws)"
    and "distinct (map fst kvs)" "distinct (map fst kws)"
  shows "map_option json_norm (dict_get kvs k) = map_option json_norm (dict_get kws k)"
proof -
  let ?f = "map (\<lambda>(k, v). (k, json_norm v))"
  have "set (?f (sort_key fst kvs)) = set (?f (sort_key fst kws))"
    using assms(1) by (simp add: json_norm_obj)
  then have "map_of (?f kvs) = map_of (?f kws)"
    using assms(2,3) by (subst map_of_inject_set) (simp_all add: comp_def case_prod_unfold)
  then have "map_of (?f kvs) k = map_of (?f kws) k" by simp
  then show ?thesis by (simp add: map_of_map)
qed

subsection \<open>Freezing is a round trip\<close>

text \<open>Frozen values hold only immutable containers, plain values only mutable ones.\<close>

fun is_frozen :: "pyval \<Rightarrow> bool" where
  "is_frozen (PProxy kvs) = list_all (\<lambda>(k, v). is_frozen v) kvs"
| "is_frozen (PTuple xs) = list_all is_frozen xs"
| "is_frozen (PList xs) = False"
| "is_frozen (PDict kvs) = False"
| "is_frozen (POther n) = False"
| "is_frozen v = True"

fun is_plain :: "pyval \<Rightarrow> bool" where
  "is_plain (PDict kvs) = list_all (\<lambda>(k, v). is_plain v) kvs"
| "is_plain (PList xs) = list_all is_plain xs"
| "is_plain (PTuple xs) = False"
| "is_plain (PProxy kvs) = False"
| "is_plain (POther n) = False"
| "is_plain v = True"

text \<open>The JSON value \<open>json.dumps\<close> sees; a read-only mapping or a foreign object is a \<open>TypeError\<close>.\<close>

fun json_of_pyval :: "pyval \<Rightarrow> json result" where
  "json_of_pyval PNone = Inr JNull"
| "json_of_pyval (PBool b) = Inr (JBool b)"
| "json_of_pyval (PInt i) = Inr (JInt i)"
| "json_of_pyval (PFloat r) = Inr (JFloat r)"
| "json_of_pyval (PStr s) = Inr (JStr s)"
| "json_of_pyval (PList xs) = rbind (rmap json_of_pyval xs) (\<lambda>js. Inr (JArr js))"
| "json_of_pyval (PTuple xs) = rbind (rmap json_of_pyval xs) (\<lambda>js. Inr (JArr js))"
| "json_of_pyval (PDict kvs) =
     rbind (rmap (\<lambda>(k, v). rbind (json_of_pyval v) (\<lambda>j. Inr (k, j))) kvs) (\<lambda>js. Inr (JObj js))"
| "json_of_pyval (PProxy kvs) = Inl TypeExn"
| "json_of_pyval (POther n) = Inl TypeExn"

lemma freeze_is_frozen: "freeze_json v = Inr w \<Longrightarrow> is_frozen w"
proof (induction v arbitrary: w rule: freeze_json.induct)
  case (1 kvs)
  then obtain ws where ws: "rmap (\<lambda>(k, v). rbind (freeze_json v) (\<lambda>w. Inr (k, w))) kvs = Inr ws"
    "w = PProxy ws" by (auto simp: rbind_Inr_iff)
  have "is_frozen v" if "(k, v) \<in> set ws" for k v
    using rmap_Inr_set [OF ws(1) that] 1 by (auto simp: rbind_Inr_iff)
  with ws(2) show ?case by (auto simp: list_all_iff)
next
  case (2 kvs)
  then obtain ws where ws: "rmap (\<lambda>(k, v). rbind (freeze_json v) (\<lambda>w. Inr (k, w))) kvs = Inr ws"
    "w = PProxy ws" by (auto simp: rbind_Inr_iff)
  have "is_frozen v" if "(k, v) \<in> set ws" for k v
    using rmap_Inr_set [OF ws(1) that] 2 by (auto simp: rbind_Inr_iff)
  with ws(2) show ?case by (auto simp: list_all_iff)
next
  case (3 xs)
  then obtain ws where ws: "rmap freeze_json xs = Inr ws" "w = PTuple ws"
    by (auto simp: rbind_Inr_iff)
  have "is_frozen v" if "v \<in> set ws" for v
    using rmap_Inr_set [OF ws(1) that] 3 by auto
  with ws(2) show ?case by (auto simp: list_all_iff)
next
  case (4 xs)
  then obtain ws where ws: "rmap freeze_json xs = Inr ws" "w = PTuple ws"
    by (auto simp: rbind_Inr_iff)
  have "is_frozen v" if "v \<in> set ws" for v
    using rmap_Inr_set [OF ws(1) that] 4 by auto
  with ws(2) show ?case by (auto simp: list_all_iff)
qed auto

lemma rmap_ident:
  assumes "\<And>x. x \<in> set xs \<Longrightarrow> f x = Inr x"
  shows "rmap f xs = Inr xs"
  using rmap_total [of xs f id] assms by simp

lemma freeze_thaw: "is_frozen w \<Longrightarrow> freeze_json (thaw_json w) = Inr w"
proof (induction w rule: is_frozen.induct)
  case (1 kvs)
  have "rmap (\<lambda>(k, v). rbind (freeze_json v) (\<lambda>w. Inr (k, w)))
      (map (\<lambda>(k, v). (k, thaw_json v)) kvs) = Inr kvs"
  proof -
    have "rmap (\<lambda>(k, v). rbind (freeze_json v) (\<lambda>w. Inr (k, w)))
        (map (\<lambda>(k, v). (k, thaw_json v)) kvs) =
      rmap (\<lambda>(k, v). rbind (freeze_json (thaw_json v)) (\<lambda>w. Inr (k, w))) kvs"
      by (induction kvs) (auto simp: case_prod_unfold)
    also have "\<dots> = Inr kvs"
      by (rule rmap_ident) (use 1 in \<open>auto simp: list_all_iff\<close>)
    finally show ?thesis .
  qed
  then show ?case by simp
next
  case (2 xs)
  have "rmap freeze_json (map thaw_json xs) = rmap (\<lambda>x. freeze_json (thaw_json x)) xs"
    by (induction xs) auto
  also have "\<dots> = Inr xs"
    by (rule rmap_ident) (use 2 in \<open>auto simp: list_all_iff\<close>)
  finally show ?case by simp
qed auto

lemma freeze_frozen: "is_frozen w \<Longrightarrow> freeze_json w = Inr w"
proof (induction w rule: is_frozen.induct)
  case (1 kvs)
  then have "rmap (\<lambda>(k, v). rbind (freeze_json v) (\<lambda>w. Inr (k, w))) kvs = Inr kvs"
    by (intro rmap_ident) (auto simp: list_all_iff)
  then show ?case by simp
next
  case (2 xs)
  then have "rmap freeze_json xs = Inr xs"
    by (intro rmap_ident) (auto simp: list_all_iff)
  then show ?case by simp
qed auto

lemma thaw_plain: "is_frozen w \<Longrightarrow> is_plain (thaw_json w)"
  by (induction w rule: is_frozen.induct) (auto simp: list_all_iff)

lemma thaw_freeze: "is_plain v \<Longrightarrow> \<exists>w. freeze_json v = Inr w \<and> thaw_json w = v"
proof (induction v rule: is_plain.induct)
  case (1 kvs)
  then have "\<forall>(k, v)\<in>set kvs. \<exists>w. freeze_json v = Inr w \<and> thaw_json w = v"
    by (auto simp: list_all_iff)
  then have "\<exists>ws. rmap (\<lambda>(k, v). rbind (freeze_json v) (\<lambda>w. Inr (k, w))) kvs = Inr ws \<and>
      map (\<lambda>(k, v). (k, thaw_json v)) ws = kvs"
  proof (induction kvs)
    case (Cons kv kvs)
    then obtain w ws where "freeze_json (snd kv) = Inr w" "thaw_json w = snd kv"
      and "rmap (\<lambda>(k, v). rbind (freeze_json v) (\<lambda>w. Inr (k, w))) kvs = Inr ws"
      and "map (\<lambda>(k, v). (k, thaw_json v)) ws = kvs" by (auto simp: case_prod_unfold)
    then show ?case
      by (intro exI [of _ "(fst kv, w) # ws"]) (simp add: case_prod_unfold)
  qed simp
  then show ?case by fastforce
next
  case (2 xs)
  then have "\<forall>v\<in>set xs. \<exists>w. freeze_json v = Inr w \<and> thaw_json w = v"
    by (auto simp: list_all_iff)
  then have "\<exists>ws. rmap freeze_json xs = Inr ws \<and> map thaw_json ws = xs"
  proof (induction xs)
    case (Cons x xs)
    then obtain w ws where "freeze_json x = Inr w" "thaw_json w = x"
      and "rmap freeze_json xs = Inr ws" "map thaw_json ws = xs" by auto
    then show ?case
      by (intro exI [of _ "w # ws"]) simp
  qed simp
  then show ?case by fastforce
qed auto

lemma json_of_plain: "is_plain v \<Longrightarrow> is_ok (json_of_pyval v)"
proof (induction v rule: is_plain.induct)
  case (1 kvs)
  then have "\<forall>(k, v)\<in>set kvs. is_ok (json_of_pyval v)"
    by (auto simp: list_all_iff)
  then have "is_ok (rmap (\<lambda>(k, v). rbind (json_of_pyval v) (\<lambda>j. Inr (k, j))) kvs)"
  proof (induction kvs)
    case (Cons kv kvs)
    then show ?case
      by (cases kv; cases "json_of_pyval (snd kv)";
          cases "rmap (\<lambda>(k, v). rbind (json_of_pyval v) (\<lambda>j. Inr (k, j))) kvs") auto
  qed simp
  then show ?case
    by (cases "rmap (\<lambda>(k, v). rbind (json_of_pyval v) (\<lambda>j. Inr (k, j))) kvs") auto
next
  case (2 xs)
  then have "\<forall>v\<in>set xs. is_ok (json_of_pyval v)"
    by (auto simp: list_all_iff)
  then have "is_ok (rmap json_of_pyval xs)"
  proof (induction xs)
    case (Cons x xs)
    then show ?case
      by (cases "json_of_pyval x"; cases "rmap json_of_pyval xs") auto
  qed simp
  then show ?case
    by (cases "rmap json_of_pyval xs") auto
qed auto

end
