(* ===== verification/Credentials.thy ===== *)
theory Credentials
  imports PyJson
begin

text \<open>
  \<open>security/credentials.py\<close>: the credential patterns every persistence entry point runs over its
  text, and the prompt guard built on them.

  The three regular expressions are matchers that return the length of the match at the start of a
  text; \<open>finditer\<close> is the scan that skips a match and otherwise moves one character. No pattern
  needs backtracking: the character run after each literal is maximal.
\<close>

subsection \<open>The patterns\<close>

definition token_char :: "nat \<Rightarrow> bool" where
  "token_char c \<longleftrightarrow> is_ascii_alnum c \<or> c = 46 \<or> c = 95 \<or> c = 45"

text \<open>Under \<open>(?i)\<close> the letters also match dotted I, dotless i, long s and the Kelvin sign.\<close>

definition token_char_i :: "nat \<Rightarrow> bool" where
  "token_char_i c \<longleftrightarrow> token_char c \<or> c = 304 \<or> c = 305 \<or> c = 383 \<or> c = 8490"

definition upper_alnum :: "nat \<Rightarrow> bool" where
  "upper_alnum c \<longleftrightarrow> (65 \<le> c \<and> c \<le> 90) \<or> (48 \<le> c \<and> c \<le> 57)"

definition ascii_lower :: "nat \<Rightarrow> nat" where
  "ascii_lower c = (if 65 \<le> c \<and> c \<le> 90 then c + 32 else c)"

definition match_sk :: "pystr \<Rightarrow> nat option" where
  "match_sk s =
     (if take 3 s = u ''sk-''
      then (let n = length (takeWhile token_char (drop 3 s))
            in if n \<ge> 20 then Some (3 + n) else None)
      else None)"

definition match_akia :: "pystr \<Rightarrow> nat option" where
  "match_akia s =
     (if take 4 s = u ''AKIA'' \<and> length (take 16 (drop 4 s)) = 16
         \<and> list_all upper_alnum (take 16 (drop 4 s))
      then Some 20 else None)"

definition match_bearer :: "pystr \<Rightarrow> nat option" where
  "match_bearer s =
     (if map ascii_lower (take 6 s) = u ''bearer''
      then (let w = length (takeWhile is_space (drop 6 s));
                n = length (takeWhile token_char_i (drop (6 + w) s))
            in if w \<ge> 1 \<and> n \<ge> 16 then Some (6 + w + n) else None)
      else None)"

text \<open>\<open>pattern.finditer\<close>: the matched texts, leftmost first, not overlapping.\<close>

function find_iter :: "(pystr \<Rightarrow> nat option) \<Rightarrow> pystr \<Rightarrow> pystr list" where
  "find_iter m [] = []"
| "find_iter m (c # s) =
     (case m (c # s) of
        Some n \<Rightarrow> take n (c # s) # find_iter m (drop (max 1 n) (c # s))
      | None \<Rightarrow> find_iter m s)"
  by pat_completeness auto
termination
  by (relation "measure (\<lambda>(m, s). length s)") auto

definition secret_fingerprint :: "pystr \<Rightarrow> pystr" where
  "secret_fingerprint value = u ''sha256:'' @ take 16 (hexdigest (utf8 value))"

definition find_fingerprints :: "pystr \<Rightarrow> pystr list" where
  "find_fingerprints content =
     map secret_fingerprint (find_iter match_sk content @ find_iter match_akia content @
       find_iter match_bearer content)"

definition ensure_safe :: "pystr \<Rightarrow> pystr result" where
  "ensure_safe content =
     (if find_fingerprints content \<noteq> [] then Inl (BaiError ''CREDENTIAL_REJECTED'')
      else Inr content)"

definition read_secret :: "pystr option \<Rightarrow> pystr result" where
  "read_secret v = (case v of
     Some s \<Rightarrow> if s = [] then Inl (BaiError ''CREDENTIAL_MISSING'') else Inr s
   | None \<Rightarrow> Inl (BaiError ''CREDENTIAL_MISSING''))"

subsection \<open>What the guard accepts\<close>

text \<open>Safe: no suffix of the text starts with a credential.\<close>

definition no_match :: "(pystr \<Rightarrow> nat option) \<Rightarrow> pystr \<Rightarrow> bool" where
  "no_match m s \<longleftrightarrow> (\<forall>t \<in> set (suffixes s). m t = None)"

definition safe_text :: "pystr \<Rightarrow> bool" where
  "safe_text s \<longleftrightarrow> no_match match_sk s \<and> no_match match_akia s \<and> no_match match_bearer s"

lemma no_match_iff: "no_match m s \<longleftrightarrow> (\<forall>p t. s = p @ t \<longrightarrow> m t = None)"
  by (auto simp: no_match_def suffix_def)

lemma no_match_Cons: "no_match m (c # s) \<longleftrightarrow> m (c # s) = None \<and> no_match m s"
  by (auto simp: no_match_def)

lemma find_iter_Nil_iff:
  assumes "m [] = None"
  shows "find_iter m s = [] \<longleftrightarrow> no_match m s"
proof (induction s)
  case Nil
  with assms show ?case by (simp add: no_match_def)
next
  case (Cons c s)
  then show ?case by (auto simp: no_match_Cons split: option.splits)
qed

lemma match_Nil [simp]:
  "match_sk [] = None" "match_akia [] = None" "match_bearer [] = None"
  by (simp_all add: match_sk_def match_akia_def match_bearer_def u_Cons)

lemma ensure_safe_iff [simp, result_simps]:
  "ensure_safe s = Inr t \<longleftrightarrow> safe_text s \<and> t = s"
  "ensure_safe s = Inl e \<longleftrightarrow> \<not> safe_text s \<and> e = BaiError ''CREDENTIAL_REJECTED''"
  by (auto simp: ensure_safe_def find_fingerprints_def find_iter_Nil_iff safe_text_def)

lemma ensure_safe_safe [simp]: "safe_text s \<Longrightarrow> ensure_safe s = Inr s"
  by simp

lemma isl_ensure_safe [simp]: "isl (ensure_safe s) \<longleftrightarrow> \<not> safe_text s"
  by (auto simp: isl_def)

text \<open>A match stays a match when the text goes on.\<close>

lemma takeWhile_append_ge: "length (takeWhile P s) \<le> length (takeWhile P (s @ r))"
  by (induction s) auto

lemma takeWhile_append_lt:
  "length (takeWhile P s) < length s \<Longrightarrow> takeWhile P (s @ r) = takeWhile P s"
  by (induction s) auto

lemma take_eq_split: "take n s = p \<Longrightarrow> \<exists>t. s = p @ t"
  by (metis append_take_drop_id)

lemma match_sk_iff:
  "match_sk s = Some n \<longleftrightarrow>
     (\<exists>t. s = u ''sk-'' @ t \<and> n = 3 + length (takeWhile token_char t) \<and>
       length (takeWhile token_char t) \<ge> 20)"
  using take_eq_split [of 3 s "u ''sk-''"]
  by (auto simp: match_sk_def Let_def u_Cons split: if_splits)

lemma match_akia_iff:
  "match_akia s = Some n \<longleftrightarrow>
     (\<exists>x t. s = u ''AKIA'' @ x @ t \<and> n = 20 \<and> length x = 16 \<and> list_all upper_alnum x)"
proof
  assume m: "match_akia s = Some n"
  then obtain t where t: "s = u ''AKIA'' @ t"
    using take_eq_split [of 4 s "u ''AKIA''"] by (auto simp: match_akia_def split: if_splits)
  with m have "s = u ''AKIA'' @ take 16 t @ drop 16 t \<and> n = 20 \<and> length (take 16 t) = 16 \<and>
      list_all upper_alnum (take 16 t)"
    by (auto simp: match_akia_def split: if_splits)
  then show "\<exists>x t. s = u ''AKIA'' @ x @ t \<and> n = 20 \<and> length x = 16 \<and> list_all upper_alnum x"
    by blast
qed (auto simp: match_akia_def u_Cons)

lemma match_bearer_iff:
  "match_bearer s = Some n \<longleftrightarrow>
     (\<exists>b w x t. s = b @ w @ x @ t \<and> n = length (b @ w @ x) \<and> length b = 6 \<and>
        map ascii_lower b = u ''bearer'' \<and> w \<noteq> [] \<and> list_all is_space w \<and>
        length x \<ge> 16 \<and> list_all token_char_i x \<and> takeWhile is_space (x @ t) = [] \<and>
        takeWhile token_char_i t = [])"
proof
  assume m: "match_bearer s = Some n"
  define w where "w = takeWhile is_space (drop 6 s)"
  define r where "r = dropWhile is_space (drop 6 s)"
  define x where "x = takeWhile token_char_i r"
  have s: "s = take 6 s @ w @ x @ dropWhile token_char_i r"
    by (simp add: w_def x_def r_def)
  have r: "drop (6 + length w) s = r"
    by (simp add: w_def r_def dropWhile_eq_drop add.commute)
  from m have low: "map ascii_lower (take 6 s) = u ''bearer''"
    by (auto simp: match_bearer_def split: if_splits)
  then have "length (take 6 s) = 6" by (metis length_map length_u length_Cons list.size(3)
        eval_nat_numeral(2) eval_nat_numeral(3) numeral_2_eq_2 semiring_norm(26,27,28))
  moreover have "n = 6 + length w + length x" "w \<noteq> []" "length x \<ge> 16"
    using m low r by (auto simp: match_bearer_def Let_def x_def w_def [symmetric] split: if_splits)
  moreover have "list_all is_space w" "list_all token_char_i x"
    by (auto simp: w_def x_def list_all_iff dest: set_takeWhileD)
  moreover have "takeWhile is_space r = []" "takeWhile token_char_i (dropWhile token_char_i r) = []"
    unfolding r_def by (metis hd_dropWhile list.exhaust_sel takeWhile.simps takeWhile_eq_Nil_iff)+
  moreover have "r = x @ dropWhile token_char_i r" by (simp add: x_def)
  ultimately show "\<exists>b w x t. s = b @ w @ x @ t \<and> n = length (b @ w @ x) \<and> length b = 6 \<and>
      map ascii_lower b = u ''bearer'' \<and> w \<noteq> [] \<and> list_all is_space w \<and>
      length x \<ge> 16 \<and> list_all token_char_i x \<and> takeWhile is_space (x @ t) = [] \<and>
      takeWhile token_char_i t = []"
    using s low by (intro exI [of _ "take 6 s"] exI [of _ w] exI [of _ x]
        exI [of _ "dropWhile token_char_i r"]) simp
next
  assume "\<exists>b w x t. s = b @ w @ x @ t \<and> n = length (b @ w @ x) \<and> length b = 6 \<and>
      map ascii_lower b = u ''bearer'' \<and> w \<noteq> [] \<and> list_all is_space w \<and>
      length x \<ge> 16 \<and> list_all token_char_i x \<and> takeWhile is_space (x @ t) = [] \<and>
      takeWhile token_char_i t = []"
  then obtain b w x t where s: "s = b @ w @ x @ t" and n: "n = length (b @ w @ x)"
    and b: "length b = 6" "map ascii_lower b = u ''bearer''" and w: "w \<noteq> []" "list_all is_space w"
    and x: "length x \<ge> 16" "list_all token_char_i x" "takeWhile is_space (x @ t) = []"
    "takeWhile token_char_i t = []" by blast
  have "takeWhile is_space (w @ x @ t) = w"
    using w(2) x(3) by (simp add: takeWhile_append2 list_all_iff)
  moreover have "takeWhile token_char_i (x @ t) = x"
    using x(2,4) by (simp add: takeWhile_append2 list_all_iff)
  ultimately show "match_bearer s = Some n"
    using b n x(1) w(1) by (cases w) (auto simp: s match_bearer_def Let_def)
qed

text \<open>A matched text is made of token characters and white space, and matches on its own.\<close>

definition credential_char :: "nat \<Rightarrow> bool" where
  "credential_char c \<longleftrightarrow> token_char_i c \<or> is_space c"

lemma token_not_space: "token_char_i c \<Longrightarrow> \<not> is_space c"
  by (auto simp: token_char_i_def token_char_def is_ascii_alnum_def is_space_def)

definition local_match :: "(pystr \<Rightarrow> nat option) \<Rightarrow> bool" where
  "local_match m \<longleftrightarrow>
     (\<forall>s n. m s = Some n \<longrightarrow> 0 < n \<and> n \<le> length s \<and> list_all credential_char (take n s) \<and>
        (\<forall>r. m (take n s @ r) \<noteq> None))"

lemma local_match_sk: "local_match match_sk"
  unfolding local_match_def
proof (intro allI impI)
  fix s n
  assume "match_sk s = Some n"
  then obtain t where t: "s = u ''sk-'' @ t" "n = 3 + length (takeWhile token_char t)"
    "length (takeWhile token_char t) \<ge> 20" by (auto simp: match_sk_iff)
  let ?x = "takeWhile token_char t"
  have take: "take n s = u ''sk-'' @ ?x"
    using t takeWhile_eq_take [of token_char t] by simp
  have "match_sk (take n s @ r) \<noteq> None" for r
  proof -
    have "takeWhile token_char (?x @ r) = ?x @ takeWhile token_char r"
      by (rule takeWhile_append2) (auto dest: set_takeWhileD)
    then show ?thesis using t(3) by (simp add: take match_sk_def Let_def u_Cons)
  qed
  moreover have "list_all credential_char (take n s)"
    by (auto simp: take list_all_iff credential_char_def token_char_i_def u_Cons token_char_def
        is_ascii_alnum_def dest: set_takeWhileD)
  moreover have "n \<le> length s" using t by (simp add: length_takeWhile_le)
  ultimately show "0 < n \<and> n \<le> length s \<and> list_all credential_char (take n s) \<and>
      (\<forall>r. match_sk (take n s @ r) \<noteq> None)" using t(2) by simp
qed

lemma local_match_akia: "local_match match_akia"
  unfolding local_match_def
proof (intro allI impI)
  fix s n
  assume "match_akia s = Some n"
  then obtain x t where x: "s = u ''AKIA'' @ x @ t" "n = 20" "length x = 16" "list_all upper_alnum x"
    by (auto simp: match_akia_iff)
  then have take: "take n s = u ''AKIA'' @ x" by simp
  have "match_akia (take n s @ r) = Some 20" for r
    using x by (auto simp: take match_akia_iff)
  moreover have "list_all credential_char (take n s)"
    using x(4) by (auto simp: take list_all_iff credential_char_def token_char_i_def u_Cons
        token_char_def is_ascii_alnum_def upper_alnum_def)
  ultimately show "0 < n \<and> n \<le> length s \<and> list_all credential_char (take n s) \<and>
      (\<forall>r. match_akia (take n s @ r) \<noteq> None)" using x by simp
qed

lemma local_match_bearer: "local_match match_bearer"
  unfolding local_match_def
proof (intro allI impI)
  fix s n
  assume "match_bearer s = Some n"
  then obtain b w x t where s: "s = b @ w @ x @ t" and n: "n = length (b @ w @ x)"
    and b: "length b = 6" "map ascii_lower b = u ''bearer''" and w: "w \<noteq> []" "list_all is_space w"
    and x: "length x \<ge> 16" "list_all token_char_i x" "takeWhile is_space (x @ t) = []"
    by (auto simp: match_bearer_iff)
  have take: "take n s = b @ w @ x" by (simp add: s n)
  have xr: "takeWhile is_space (x @ r) = []" for r
    using x by (cases x) (auto split: if_splits)
  have "match_bearer (take n s @ r) \<noteq> None" for r
  proof -
    let ?y = "takeWhile token_char_i r" and ?t = "dropWhile token_char_i r"
    have "takeWhile token_char_i ?t = []"
      by (metis hd_dropWhile list.exhaust_sel takeWhile.simps)
    then have "match_bearer (b @ w @ (x @ ?y) @ ?t) = Some (length (b @ w @ x @ ?y))"
      unfolding match_bearer_iff using b w x xr
      by (intro exI [of _ b] exI [of _ w] exI [of _ "x @ ?y"] exI [of _ ?t])
        (auto simp: list_all_iff dest: set_takeWhileD)
    then show ?thesis by (simp add: take)
  qed
  moreover have "credential_char c" if "c \<in> set b" for c
  proof -
    from that b(2) have "ascii_lower c \<in> set (u ''bearer'')" by (metis image_eqI set_map)
    then show ?thesis
      by (auto simp: u_Cons ascii_lower_def credential_char_def token_char_i_def token_char_def
          is_ascii_alnum_def split: if_splits)
  qed
  ultimately show "0 < n \<and> n \<le> length s \<and> list_all credential_char (take n s) \<and>
      (\<forall>r. match_bearer (take n s @ r) \<noteq> None)"
    using w x b by (auto simp: take list_all_iff credential_char_def s n)
qed

lemma no_match_append_left:
  assumes "local_match m" and "no_match m (x @ y)"
  shows "no_match m x"
  unfolding no_match_iff
proof (intro allI impI)
  fix p t
  assume x: "x = p @ t"
  show "m t = None"
  proof (cases "m t")
    case (Some n)
    with assms(1) have "m (take n t @ (drop n t @ y)) \<noteq> None"
      by (simp add: local_match_def)
    then have "m (t @ y) \<noteq> None" by (metis append_assoc append_take_drop_id)
    with assms(2) x show ?thesis by (auto simp: no_match_iff)
  qed
qed

lemma no_match_append_right: "no_match m (x @ y) \<Longrightarrow> no_match m y"
  by (auto simp: no_match_iff)

text \<open>A character that occurs in no credential separates the text for the guard.\<close>

lemma no_match_separator:
  assumes m: "local_match m" and c: "\<not> credential_char c"
  shows "no_match m (x @ c # y) \<longleftrightarrow> no_match m x \<and> no_match m y"
proof
  assume "no_match m (x @ c # y)"
  then show "no_match m x \<and> no_match m y"
    using no_match_append_left [OF m] no_match_append_right [of m "x @ [c]" y] by auto
next
  assume xy: "no_match m x \<and> no_match m y"
  show "no_match m (x @ c # y)"
    unfolding no_match_iff
  proof (intro allI impI)
    fix p t
    assume eq: "x @ c # y = p @ t"
    show "m t = None"
    proof (rule ccontr)
      assume "m t \<noteq> None"
      then obtain n where "m t = Some n" by auto
      with m have n: "0 < n" "n \<le> length t" "list_all credential_char (take n t)"
        "\<And>r. m (take n t @ r) \<noteq> None" by (auto simp: local_match_def)
      from eq consider t' where "x = p @ t'" "t = t' @ c # y" | q where "y = q @ t"
        | "p = x" "t = c # y"
        by (auto simp: append_eq_append_conv2 Cons_eq_append_conv)
      then show False
      proof cases
        case 1
        have "n \<le> length t'"
        proof (rule ccontr)
          assume "\<not> n \<le> length t'"
          then have "c \<in> set (take n t)" using 1 by (simp add: take_Cons' )
          with n(3) c show False by (auto simp: list_all_iff)
        qed
        then have "take n t = take n t'" using 1 by simp
        with n(4) [of "drop n t'"] have "m t' \<noteq> None" by simp
        with xy 1(1) show False by (auto simp: no_match_iff)
      next
        case 2
        with xy \<open>m t \<noteq> None\<close> show False by (auto simp: no_match_iff)
      next
        case 3
        with n(1,3) c show False by (cases n) auto
      qed
    qed
  qed
qed

lemmas local_matches = local_match_sk local_match_akia local_match_bearer

lemma safe_text_separator:
  "\<not> credential_char c \<Longrightarrow> safe_text (x @ c # y) \<longleftrightarrow> safe_text x \<and> safe_text y"
  by (auto simp: safe_text_def no_match_separator local_matches)

lemma safe_short: "length s < 10 \<Longrightarrow> safe_text s"
proof -
  assume s: "length s < 10"
  have "m t = None" if "s = p @ t" "m \<in> {match_sk, match_akia, match_bearer}" for m p t
  proof -
    have "n \<ge> 10" if "m t = Some n" for n
      using that \<open>m \<in> _\<close> by (auto simp: match_sk_iff match_akia_iff match_bearer_iff)
    moreover have "n \<le> length t" if "m t = Some n" for n
      using that \<open>m \<in> _\<close> local_matches by (auto simp: local_match_def)
    moreover have "length t < 10" using s that(1) by simp
    ultimately show ?thesis by (cases "m t") force+
  qed
  then show ?thesis by (auto simp: safe_text_def no_match_iff)
qed

lemma safe_text_substring:
  assumes "safe_text (x @ y @ z)"
  shows "safe_text y"
  using assms no_match_append_left no_match_append_right local_matches
  unfolding safe_text_def by metis

lemma safe_text_Nil [simp]: "safe_text []"
  by (simp add: safe_text_def no_match_def)

lemma json_separators:
  "\<not> credential_char 34" "\<not> credential_char 44" "\<not> credential_char 58" "\<not> credential_char 91"
  "\<not> credential_char 93" "\<not> credential_char 123" "\<not> credential_char 125" "\<not> credential_char 92"
  by (simp_all add: credential_char_def token_char_i_def token_char_def is_ascii_alnum_def is_space_def)

text \<open>Hexadecimal digits hold no credential.\<close>

lemma safe_text_no_marker:
  assumes "107 \<notin> set s" and "75 \<notin> set s" and "114 \<notin> set s" and "82 \<notin> set s"
  shows "safe_text s"
proof -
  have "match_sk t = None" "match_akia t = None" "match_bearer t = None" if "s = p @ t" for p t
  proof -
    have t: "107 \<notin> set t" "75 \<notin> set t" "114 \<notin> set t" "82 \<notin> set t"
      using assms that by auto
    show "match_sk t = None"
      using t by (cases "match_sk t") (auto simp: match_sk_iff u_Cons)
    show "match_akia t = None"
      using t by (cases "match_akia t") (auto simp: match_akia_iff u_Cons)
    show "match_bearer t = None"
    proof (cases "match_bearer t")
      case (Some n)
      then obtain b r where b: "t = b @ r" "map ascii_lower b = u ''bearer''"
        by (auto simp: match_bearer_iff)
      then have "114 \<in> ascii_lower ` set b" by (simp flip: set_map add: u_Cons)
      then have "114 \<in> set b \<or> 82 \<in> set b" by (auto simp: ascii_lower_def split: if_splits)
      with b t show ?thesis by auto
    qed
  qed
  then show ?thesis by (auto simp: safe_text_def no_match_iff)
qed

subsection \<open>The guard on a JSON text\<close>

text \<open>The texts between quotes: every key and every string value, as they are escaped.\<close>

fun json_strings :: "json \<Rightarrow> pystr list" where
  "json_strings (JStr s) = [s]"
| "json_strings (JArr xs) = concat (map json_strings xs)"
| "json_strings (JObj kvs) = concat (map (\<lambda>(k, v). k # json_strings v) kvs)"
| "json_strings j = []"

definition escaped :: "pystr \<Rightarrow> pystr" where
  "escaped s = concat (map esc_char s)"

lemma safe_quote_json: "safe_text (quote_json s) \<longleftrightarrow> safe_text (escaped s)"
proof -
  have "quote_json s = [] @ 34 # (escaped s @ 34 # [])"
    by (simp add: quote_json_def escaped_def)
  then show ?thesis
    by (simp only: safe_text_separator json_separators not_False_eq_True) simp
qed

lemma safe_join: "safe_text (join [44] xs) \<longleftrightarrow> (\<forall>x\<in>set xs. safe_text x)"
  by (induction "[44::nat]" xs rule: join.induct) (auto simp: safe_text_separator json_separators)

lemma safe_bracket:
  "safe_text (91 # s @ [93]) \<longleftrightarrow> safe_text s" "safe_text (123 # s @ [125]) \<longleftrightarrow> safe_text s"
  using safe_text_separator [of 91 "[]" "s @ [93]"] safe_text_separator [of 93 s "[]"]
    safe_text_separator [of 123 "[]" "s @ [125]"] safe_text_separator [of 125 s "[]"]
  by (simp_all add: json_separators)

lemma safe_int_str [simp]: "safe_text (int_str i)"
  by (rule safe_text_no_marker) (auto dest: int_str_chars)

lemma safe_json_literals:
  "safe_text (u ''null'')" "safe_text (u ''true'')" "safe_text (u ''false'')"
  by (simp_all add: u_Cons safe_text_def no_match_def match_sk_def match_akia_def match_bearer_def
      ascii_lower_def)

lemma safe_canonical_json:
  "json_no_float j \<Longrightarrow>
     safe_text (canonical_json j) \<longleftrightarrow> (\<forall>s\<in>set (json_strings j). safe_text (escaped s))"
proof (induction j rule: json_strings.induct)
  case (1 s)
  then show ?case by (simp add: safe_quote_json)
next
  case (2 xs)
  then show ?case by (auto simp: safe_bracket safe_join list_all_iff)
next
  case (3 kvs)
  have "safe_text (canonical_json (JObj kvs)) \<longleftrightarrow>
      (\<forall>(k, v)\<in>set kvs. safe_text (quote_json k @ 58 # canonical_json v))"
    by (auto simp: canonical_json_obj safe_bracket safe_join)
  also have "\<dots> \<longleftrightarrow> (\<forall>(k, v)\<in>set kvs. safe_text (escaped k) \<and> safe_text (canonical_json v))"
    by (simp add: safe_text_separator json_separators safe_quote_json)
  also have "\<dots> \<longleftrightarrow> (\<forall>s\<in>set (json_strings (JObj kvs)). safe_text (escaped s))"
    using 3 by (fastforce simp: list_all_iff)
  finally show ?case .
qed (simp_all add: safe_json_literals)

text \<open>A text without a character JSON escapes is judged as it stands.\<close>

definition needs_escape :: "nat \<Rightarrow> bool" where
  "needs_escape c \<longleftrightarrow> c < 32 \<or> c = 34 \<or> c = 92"

lemma escaped_plain: "list_all (\<lambda>c. \<not> needs_escape c) s \<Longrightarrow> escaped s = s"
  by (induction s) (auto simp: escaped_def needs_escape_def esc_char_def)


subsection \<open>Properties\<close>

text \<open>
  The guard on a written JSON text is the guard on its parts: when no string of the value holds a
  character JSON escapes, \<open>ensure_safe\<close> accepts the canonical text if and only if it accepts every key
  and every string value on its own. Nothing is hidden by, and nothing is invented across, the quotes.
\<close>

theorem guard_on_canonical_json:
  assumes "json_no_float j"
    and "\<forall>s\<in>set (json_strings j). list_all (\<lambda>c. \<not> needs_escape c) s"
  shows "ensure_safe (canonical_json j) = Inr (canonical_json j) \<longleftrightarrow>
    (\<forall>s\<in>set (json_strings j). ensure_safe s = Inr s)"
  using assms by (simp add: safe_canonical_json escaped_plain)

definition sample_token :: pystr where
  "sample_token = u ''sk-'' @ replicate 20 97"

lemma sample_token_unsafe: "\<not> safe_text sample_token"
proof -
  have "match_sk sample_token \<noteq> None"
    by (simp add: match_sk_def sample_token_def u_Cons Let_def token_char_def is_ascii_alnum_def
        numeral_3_eq_3 eval_nat_numeral)
  then show ?thesis by (force simp: safe_text_def no_match_iff)
qed

theorem guard_on_canonical_json_witness:
  "ensure_safe (canonical_json (JObj [(u ''k'', JArr [JInt 1, JStr sample_token])])) =
     Inl (BaiError ''CREDENTIAL_REJECTED'')"
proof -
  let ?j = "JObj [(u ''k'', JArr [JInt 1, JStr sample_token])]"
  have "\<forall>s\<in>set (json_strings ?j). list_all (\<lambda>c. \<not> needs_escape c) s"
    by (simp add: needs_escape_def sample_token_def u_Cons list_all_iff)
  from guard_on_canonical_json [OF _ this] sample_token_unsafe
  have "ensure_safe (canonical_json ?j) \<noteq> Inr (canonical_json ?j)" by auto
  then show ?thesis by simp
qed

text \<open>
  The guard misses a credential that JSON escapes apart. A bearer token whose white space is a
  line feed is rejected as a text, but the canonical JSON text holding it passes: the line feed is
  written as a backslash and an \<open>n\<close>. So a journal or prompt payload may be accepted with a content that
  \<open>append\<close> later rejects.
\<close>

definition bearer_with_newline :: pystr where
  "bearer_with_newline = u ''Bearer'' @ [10] @ replicate 16 97"

theorem guard_misses_escaped_credential:
  "ensure_safe bearer_with_newline = Inl (BaiError ''CREDENTIAL_REJECTED'') \<and>
   ensure_safe (canonical_json (JStr bearer_with_newline)) = Inr (canonical_json (JStr bearer_with_newline))"
proof -
  have "match_bearer bearer_with_newline \<noteq> None"
    by (simp add: match_bearer_def bearer_with_newline_def u_Cons ascii_lower_def is_space_def
        token_char_i_def token_char_def is_ascii_alnum_def Let_def eval_nat_numeral)
  then have "\<not> safe_text bearer_with_newline" by (force simp: safe_text_def no_match_iff)
  moreover have "escaped bearer_with_newline = u ''Bearer'' @ 92 # (110 # replicate 16 97)"
    by (simp add: escaped_def bearer_with_newline_def u_Cons esc_char_def eval_nat_numeral)
  moreover have "safe_text (u ''Bearer'')"
    by (simp add: u_Cons safe_text_def no_match_def match_sk_def match_akia_def match_bearer_def
        ascii_lower_def is_space_def Let_def)
  moreover have "safe_text (110 # replicate 16 97)"
    by (rule safe_text_no_marker) simp_all
  ultimately show ?thesis
    by (simp add: safe_quote_json safe_text_separator json_separators)
qed

end
