(* ===== verification/Records.thy ===== *)
theory Records
  imports PyJson
begin

text \<open>
  The validated data of \<open>domain/models.py\<close>, first half: identifiers and digests, messages, raw
  records, the long-term memory document and the turn journal.

  A Pydantic model is a \<open>record\<close> with one field per field of the class and a predicate
  \<open><name>_ok\<close> that holds exactly when every \<open>Field\<close> bound, field validator and model validator of
  the class accepts the values; a constructor call of the class is \<open>validated <name>_ok\<close>, which
  raises \<open>ValidationExn\<close> otherwise. Type checking and coercion by Pydantic happen before the
  values reach a record. Field names carry a prefix per class.

  A time is an instant, an integer number of microseconds; where the code must decide whether a
  \<open>datetime\<close> is aware, the input is a \<open>py_datetime\<close>.
\<close>

definition validated :: "('a \<Rightarrow> bool) \<Rightarrow> 'a \<Rightarrow> 'a result" where
  "validated ok x = (if ok x then Inr x else Inl ValidationExn)"

lemma validated_iff [simp, result_simps]:
  "validated ok x = Inr y \<longleftrightarrow> ok x \<and> y = x"
  "validated ok x = Inl e \<longleftrightarrow> \<not> ok x \<and> e = ValidationExn"
  by (auto simp: validated_def)

text \<open>Python truth of an optional text: \<open>not value\<close>.\<close>

definition falsy :: "'a list option \<Rightarrow> bool" where
  "falsy x \<longleftrightarrow> x = None \<or> x = Some []"

subsection \<open>Times\<close>

text \<open>A naive local reading, or an instant with the offset it was written with.\<close>

datatype py_datetime = Naive int | Aware (instant: int) (utc_offset: int)

fun is_aware :: "py_datetime \<Rightarrow> bool" where
  "is_aware (Naive _) = False"
| "is_aware (Aware _ _) = True"

text \<open>The validator of every aware field: reject a naive value, convert to UTC.\<close>

fun aware_to_utc :: "py_datetime \<Rightarrow> int result" where
  "aware_to_utc (Naive _) = Inl ValueExn"
| "aware_to_utc (Aware t _) = Inr t"

subsection \<open>Identifiers and digests\<close>

text \<open>\<open>UUID(s)\<close>: which texts the constructor of the standard library accepts.\<close>

definition py_uuid :: "pystr \<Rightarrow> bool" where
  "py_uuid s =
     (let h = remove_sub (u ''-'')
                (strip_chars (u ''{}'') (remove_sub (u ''uuid:'') (remove_sub (u ''urn:'') s)))
      in length h = 32 \<and> py_int16 h)"

definition validate_prefixed_uuid :: "pystr \<Rightarrow> pystr \<Rightarrow> bool" where
  "validate_prefixed_uuid value pre =
     (let marker = pre @ u ''-''
      in startswith value marker \<and> py_uuid (drop (length marker) value))"

text \<open>The sha256 validators: the prefix, the length, and \<open>int(value[7:], 16)\<close>.\<close>

definition validate_sha256 :: "pystr \<Rightarrow> bool" where
  "validate_sha256 value \<longleftrightarrow>
     startswith value (u ''sha256:'') \<and> length value = 71 \<and> py_int16 (drop 7 value)"

text \<open>\<open>new_id(prefix)\<close>: the random part of \<open>uuid4\<close> is an argument.\<close>

definition new_id :: "(nat \<Rightarrow> bool) \<Rightarrow> pystr \<Rightarrow> pystr \<Rightarrow> pystr result" where
  "new_id isalnum pre uuid =
     (let p = remove_sub (u ''_'') pre
      in if pre = [] \<or> p = [] \<or> \<not> list_all isalnum p then Inl ValueExn
         else Inr (pre @ u ''-'' @ uuid))"

lemma remove_sub_absent:
  assumes "c \<in> set pat" and "c \<notin> set s"
  shows "remove_sub pat s = s"
  using assms(2)
proof (induction s)
  case Nil
  then show ?case by (simp add: remove_sub.simps)
next
  case (Cons x s)
  have "\<not> startswith (x # s) pat"
  proof
    assume "startswith (x # s) pat"
    then obtain t where "x # s = pat @ t" by (auto simp: startswith_iff)
    with assms(1) have "c \<in> set (x # s)" by simp
    with Cons.prems show False by simp
  qed
  with Cons show ?case by (simp add: remove_sub.simps [of pat "x # s"])
qed

lemma remove_sub_single: "remove_sub [c] s = filter (\<lambda>x. x \<noteq> c) s"
  by (induction s) (auto simp: remove_sub.simps [of "[c]"] startswith_def)

lemma strip_chars_absent:
  assumes "set cs \<inter> set s = {}"
  shows "strip_chars cs s = s"
proof -
  have "dropWhile (\<lambda>c. c \<in> set cs) t = t" if "set cs \<inter> set t = {}" for t
    using that by (cases t) auto
  from this [of s] this [of "rev s"] assms show ?thesis
    by (simp add: strip_chars_def)
qed

text \<open>The texts \<open>str(uuid4())\<close> produces, hexadecimal digits and hyphens, are accepted.\<close>

lemma py_uuid_hex:
  assumes "list_all (\<lambda>c. is_hex c \<or> c = 45) s"
    and "length (filter (\<lambda>c. c \<noteq> 45) s) = 32"
  shows "py_uuid s"
proof -
  have no: "c \<notin> set s" if "\<not> is_hex c" "c \<noteq> 45" for c
    using assms(1) that by (auto simp: list_all_iff)
  have "58 \<notin> set s" "123 \<notin> set s" "125 \<notin> set s"
    by (rule no; simp add: is_hex_def)+
  then have "remove_sub (u ''urn:'') s = s" "remove_sub (u ''uuid:'') s = s"
    and "strip_chars (u ''{}'') s = s"
    by (auto intro!: remove_sub_absent [where c = 58] strip_chars_absent simp: u_Cons)
  moreover have "remove_sub (u ''-'') s = filter (\<lambda>c. c \<noteq> 45) s"
    by (simp add: u_Cons remove_sub_single)
  moreover have "py_int16 (filter (\<lambda>c. c \<noteq> 45) s)"
    using assms by (intro py_int16_hex) (auto simp: list_all_iff)
  ultimately show ?thesis
    using assms(2) by (simp add: py_uuid_def)
qed

lemma validate_prefixed_uuid_hex:
  assumes "list_all (\<lambda>c. is_hex c \<or> c = 45) s"
    and "length (filter (\<lambda>c. c \<noteq> 45) s) = 32"
  shows "validate_prefixed_uuid (p @ 45 # s) p"
  using py_uuid_hex [OF assms]
  by (simp add: validate_prefixed_uuid_def u_Cons startswith_def)

lemma content_hash_prefix: "content_hash s = u ''sha256:'' @ hexdigest (utf8 s)"
  by (simp add: content_hash_def content_hash_bytes_def)

lemma validate_sha256_content_hash [simp]: "validate_sha256 (content_hash s)"
proof -
  have "py_int16 (hexdigest (utf8 s))"
    using length_hexdigest [of "utf8 s"] hexdigest_hex [of "utf8 s"]
    by (intro py_int16_hex) (auto simp del: length_hexdigest)
  moreover have "drop 7 (content_hash s) = hexdigest (utf8 s)"
    by (simp add: content_hash_prefix)
  ultimately show ?thesis
    by (simp add: validate_sha256_def) (simp add: content_hash_prefix startswith_def)
qed

end
