(* ===== verification/Memory_Models.thy ===== *)
theory Memory_Models
  imports Records
begin

text \<open>
  The persistent data of \<open>domain/models.py\<close>: the raw conversation record, the long-term memory
  document (items, coverage spans, checkpoint) and the turn transaction journal, each with the
  predicate its validators decide. The depth-first search that rejects cyclic \<open>supersedes\<close>
  relations is written out and proved correct: it accepts exactly the acyclic relations.
\<close>

subsection \<open>Raw records\<close>

datatype role = RoleUser | RoleAssistant

fun role_value :: "role \<Rightarrow> pystr" where
  "role_value RoleUser = u ''user''"
| "role_value RoleAssistant = u ''assistant''"

record raw_record =
  rr_schema_version :: int
  rr_record_id :: pystr
  rr_global_sequence :: int
  rr_turn_id :: pystr
  rr_role :: role
  rr_content :: pystr
  rr_created_at :: int
  rr_state_id :: pystr
  rr_config_revision :: pystr
  rr_content_sha256 :: pystr

definition raw_record_ok :: "raw_record \<Rightarrow> bool" where
  "raw_record_ok r \<longleftrightarrow>
     rr_global_sequence r \<ge> 1 \<and> rr_content r \<noteq> [] \<and> rr_state_id r \<noteq> [] \<and>
     validate_prefixed_uuid (rr_record_id r) (u ''rec'') \<and>
     validate_prefixed_uuid (rr_turn_id r) (u ''turn'') \<and>
     validate_sha256 (rr_config_revision r) \<and>
     validate_sha256 (rr_content_sha256 r) \<and>
     rr_content_sha256 r = content_hash (rr_content r)"

text \<open>\<open>RawRecord.create\<close>: the digest is computed, every validator still runs.\<close>

definition create_raw_record ::
  "pystr \<Rightarrow> int \<Rightarrow> pystr \<Rightarrow> role \<Rightarrow> pystr \<Rightarrow> py_datetime \<Rightarrow> pystr \<Rightarrow> pystr \<Rightarrow> raw_record result"
where
  "create_raw_record record_id sequence turn_id role content created_at state_id revision =
     (case aware_to_utc created_at of
        Inl _ \<Rightarrow> Inl ValidationExn
      | Inr t \<Rightarrow> validated raw_record_ok
          \<lparr>rr_schema_version = 1, rr_record_id = record_id, rr_global_sequence = sequence,
           rr_turn_id = turn_id, rr_role = role, rr_content = content, rr_created_at = t,
           rr_state_id = state_id, rr_config_revision = revision,
           rr_content_sha256 = content_hash content\<rparr>)"

lemma create_raw_record_cases:
  "create_raw_record rid n tid role c d sid cfg = Inr r \<longleftrightarrow>
     (\<exists>t off. d = Aware t off \<and> n \<ge> 1 \<and> c \<noteq> [] \<and> sid \<noteq> [] \<and>
        validate_prefixed_uuid rid (u ''rec'') \<and> validate_prefixed_uuid tid (u ''turn'') \<and>
        validate_sha256 cfg \<and>
        r = \<lparr>rr_schema_version = 1, rr_record_id = rid, rr_global_sequence = n, rr_turn_id = tid,
             rr_role = role, rr_content = c, rr_created_at = t, rr_state_id = sid,
             rr_config_revision = cfg, rr_content_sha256 = content_hash c\<rparr>)"
  by (cases d) (auto simp: create_raw_record_def raw_record_ok_def)

lemma create_raw_record_ok:
  "create_raw_record rid n tid role c d sid cfg = Inr r \<Longrightarrow> raw_record_ok r"
  by (auto simp: create_raw_record_cases raw_record_ok_def)

subsection \<open>Long-term memory\<close>

datatype memory_kind = KindUser | KindRule | KindSelf | KindEvent | KindElse

fun memory_kind_value :: "memory_kind \<Rightarrow> pystr" where
  "memory_kind_value KindUser = u ''user''"
| "memory_kind_value KindRule = u ''rule''"
| "memory_kind_value KindSelf = u ''self''"
| "memory_kind_value KindEvent = u ''event''"
| "memory_kind_value KindElse = u ''else''"

definition memory_kinds :: "memory_kind list" where
  "memory_kinds = [KindUser, KindRule, KindSelf, KindEvent, KindElse]"

text \<open>\<open>MemoryKind(text)\<close>: the current values, then the legacy values of \<open>_missing_\<close>.\<close>

definition memory_kind_of :: "pystr \<Rightarrow> memory_kind result" where
  "memory_kind_of s =
     (case List.find (\<lambda>k. memory_kind_value k = s) memory_kinds of
        Some k \<Rightarrow> Inr k
      | None \<Rightarrow>
          if s = u ''fact'' \<or> s = u ''preference'' then Inr KindUser
          else if s = u ''constraint'' then Inr KindRule
          else if s = u ''task'' then Inr KindElse
          else Inl ValueExn)"

datatype memory_status = MemActive | MemSuperseded | MemRetracted

datatype source_relation = RelSupports | RelCorrects | RelSupersedes | RelManualBasis

datatype created_by = ByMemoryCurator | ByManual

record source_reference =
  sr_record_id :: pystr
  sr_relation :: source_relation
  sr_record_sha256 :: pystr

definition source_reference_ok :: "source_reference \<Rightarrow> bool" where
  "source_reference_ok s \<longleftrightarrow>
     validate_prefixed_uuid (sr_record_id s) (u ''rec'') \<and> validate_sha256 (sr_record_sha256 s)"

record coverage_span =
  cs_start_sequence :: int
  cs_end_sequence :: int
  cs_batch_id :: pystr
  cs_record_ids :: "pystr list"
  cs_record_hashes :: "pystr list"

definition coverage_span_ok :: "coverage_span \<Rightarrow> bool" where
  "coverage_span_ok s \<longleftrightarrow>
     cs_start_sequence s \<ge> 1 \<and> cs_end_sequence s \<ge> 1 \<and>
     validate_prefixed_uuid (cs_batch_id s) (u ''batch'') \<and>
     (let expected = cs_end_sequence s - cs_start_sequence s + 1
      in \<not> (expected \<le> 0 \<or> int (length (cs_record_ids s)) \<noteq> expected
             \<or> int (length (cs_record_hashes s)) \<noteq> expected)) \<and>
     distinct (cs_record_ids s) \<and>
     list_all (\<lambda>i. validate_prefixed_uuid i (u ''rec'')) (cs_record_ids s) \<and>
     list_all validate_sha256 (cs_record_hashes s)"

record coverage_overview =
  co_revision :: int
  co_text :: pystr
  co_spans :: "coverage_span list"

text \<open>The continuity loop: every span starts where the previous one ended.\<close>

fun spans_continuous :: "int \<Rightarrow> coverage_span list \<Rightarrow> bool" where
  "spans_continuous expected [] = True"
| "spans_continuous expected (s # ss) =
     (cs_start_sequence s = expected \<and> spans_continuous (cs_end_sequence s + 1) ss)"

definition coverage_overview_ok :: "coverage_overview \<Rightarrow> bool" where
  "coverage_overview_ok c \<longleftrightarrow>
     co_revision c \<ge> 0 \<and> co_text c \<noteq> [] \<and> list_all coverage_span_ok (co_spans c) \<and>
     spans_continuous 1 (co_spans c)"

text \<open>The default text, the eight characters written by \<open>MemoryCoverageOverview.empty\<close>.\<close>

definition empty_overview_text :: pystr where
  "empty_overview_text = [23578, 26080, 24050, 25972, 29702, 35760, 24405, 12290]"

definition empty_overview :: coverage_overview where
  "empty_overview = \<lparr>co_revision = 0, co_text = empty_overview_text, co_spans = []\<rparr>"

record curation_checkpoint =
  ck_curated_through_sequence :: int
  ck_last_batch_id :: "pystr option"
  ck_updated_at :: "py_datetime option"
  ck_covered_record_ids :: "pystr list"

definition curation_checkpoint_ok :: "curation_checkpoint \<Rightarrow> bool" where
  "curation_checkpoint_ok c \<longleftrightarrow> ck_curated_through_sequence c \<ge> 0"

definition empty_checkpoint :: curation_checkpoint where
  "empty_checkpoint =
     \<lparr>ck_curated_through_sequence = 0, ck_last_batch_id = None, ck_updated_at = None,
      ck_covered_record_ids = []\<rparr>"

text \<open>The two times of an item stay as written; only their being aware and ordered is checked.\<close>

record memory_item =
  mi_memory_id :: pystr
  mi_kind :: memory_kind
  mi_text :: pystr
  mi_status :: memory_status
  mi_source_refs :: "source_reference list"
  mi_created_by :: created_by
  mi_created_at :: py_datetime
  mi_updated_at :: py_datetime
  mi_supersedes :: "pystr list"
  mi_tags :: "pystr list"

definition memory_item_ok :: "memory_item \<Rightarrow> bool" where
  "memory_item_ok m \<longleftrightarrow>
     mi_text m \<noteq> [] \<and> length (mi_text m) \<le> 8192 \<and> mi_source_refs m \<noteq> [] \<and>
     list_all source_reference_ok (mi_source_refs m) \<and>
     validate_prefixed_uuid (mi_memory_id m) (u ''mem'') \<and>
     is_aware (mi_created_at m) \<and> is_aware (mi_updated_at m) \<and>
     \<not> instant (mi_updated_at m) < instant (mi_created_at m) \<and>
     mi_memory_id m \<notin> set (mi_supersedes m) \<and> distinct (mi_supersedes m) \<and>
     distinct (mi_tags m)"

definition is_current :: "memory_item \<Rightarrow> bool" where
  "is_current m \<longleftrightarrow> mi_status m = MemActive"

subsection \<open>The search for cycles\<close>

text \<open>
  The nested function \<open>visit\<close> with its two sets: \<open>visiting\<close> is restored when a call returns, so
  it is passed down; \<open>visited\<close> is threaded. A missing key is the \<open>KeyError\<close> of \<open>graph[memory_id]\<close>.
\<close>

type_synonym sup_graph = "(pystr \<times> pystr list) list"

function visit :: "sup_graph \<Rightarrow> pystr set \<Rightarrow> pystr set \<Rightarrow> pystr \<Rightarrow> pystr set result"
  and visit_all :: "sup_graph \<Rightarrow> pystr set \<Rightarrow> pystr set \<Rightarrow> pystr list \<Rightarrow> pystr set result"
where
  "visit g visiting visited m =
     (if m \<in> visiting then Inl ValueExn
      else if m \<in> visited then Inr visited
      else (case dict_get g m of
              None \<Rightarrow> Inl KeyExn
            | Some targets \<Rightarrow>
                rbind (visit_all g (insert m visiting) visited targets)
                  (\<lambda>visited'. Inr (insert m visited'))))"
| "visit_all g visiting visited [] = Inr visited"
| "visit_all g visiting visited (t # ts) =
     rbind (visit g visiting visited t) (\<lambda>visited'. visit_all g visiting visited' ts)"
  by pat_completeness auto
termination
proof (relation "measures
    [\<lambda>x. case x of Inl (g, vg, vd, m) \<Rightarrow> card (fst ` set g - vg)
                | Inr (g, vg, vd, ts) \<Rightarrow> card (fst ` set g - vg),
     \<lambda>x. case x of Inl (g, vg, vd, m) \<Rightarrow> 0 | Inr (g, vg, vd, ts) \<Rightarrow> Suc (length ts)]", goal_cases)
  case 1
  then show ?case by simp
next
  case (2 g visiting visited m targets)
  then have "m \<in> fst ` set g - visiting"
    by (auto dest!: map_of_SomeD intro: image_eqI [where x = "(m, targets)"])
  then have "card (fst ` set g - insert m visiting) < card (fst ` set g - visiting)"
    by (intro psubset_card_mono) auto
  then show ?case by simp
qed auto

declare visit.simps [simp del] visit_all.simps [simp del]

lemmas visit_simps = visit.simps visit_all.simps


definition sup_edges :: "sup_graph \<Rightarrow> (pystr \<times> pystr) set" where
  "sup_edges g = {(a, b). \<exists>ts. dict_get g a = Some ts \<and> b \<in> set ts}"

text \<open>What the search has established about a set of visited nodes: closed and free of cycles.\<close>

definition cycle_free_closed :: "sup_graph \<Rightarrow> pystr set \<Rightarrow> bool" where
  "cycle_free_closed g V \<longleftrightarrow>
     (\<forall>v\<in>V. \<forall>w. (v, w) \<in> sup_edges g \<longrightarrow> w \<in> V) \<and> (\<forall>v\<in>V. (v, v) \<notin> (sup_edges g)\<^sup>+)"

lemma cycle_free_closed_empty [simp]: "cycle_free_closed g {}"
  by (simp add: cycle_free_closed_def)

lemma cycle_free_closed_reach:
  assumes "cycle_free_closed g V" and "(v, w) \<in> (sup_edges g)\<^sup>+" and "v \<in> V"
  shows "w \<in> V"
  using assms(2,3)
  by (induction rule: trancl_induct) (use assms(1) in \<open>auto simp: cycle_free_closed_def\<close>)

lemma cycle_free_closed_insert:
  assumes inv: "cycle_free_closed g V" and m: "m \<notin> V"
    and targets: "dict_get g m = Some ts" "set ts \<subseteq> V"
  shows "cycle_free_closed g (insert m V)"
proof -
  have succ: "w \<in> V" if "(m, w) \<in> sup_edges g" for w
    using that targets by (auto simp: sup_edges_def)
  have "(m, m) \<notin> (sup_edges g)\<^sup>+"
  proof
    assume "(m, m) \<in> (sup_edges g)\<^sup>+"
    then obtain t where t: "(m, t) \<in> sup_edges g" "(t, m) \<in> (sup_edges g)\<^sup>*"
      by (meson tranclD)
    from t(2) m succ [OF t(1)] cycle_free_closed_reach [OF inv, of t m] show False
      by (auto dest: rtranclD)
  qed
  with inv succ show ?thesis
    by (auto simp: cycle_free_closed_def)
qed

lemma visit_sound:
  "visit g vg vd m = Inr vd' \<Longrightarrow> cycle_free_closed g vd \<Longrightarrow>
     cycle_free_closed g vd' \<and> vd \<subseteq> vd' \<and> m \<in> vd' \<and> vg \<inter> vd' \<subseteq> vd"
  "visit_all g vg vd ts = Inr vd' \<Longrightarrow> cycle_free_closed g vd \<Longrightarrow>
     cycle_free_closed g vd' \<and> vd \<subseteq> vd' \<and> set ts \<subseteq> vd' \<and> vg \<inter> vd' \<subseteq> vd"
proof (induction g vg vd m and g vg vd ts arbitrary: vd' and vd' rule: visit_visit_all.induct)
  case (1 g visiting visited m)
  show ?case
  proof (cases "m \<in> visited")
    case True
    with "1.prems" show ?thesis by (auto simp: visit_simps split: if_splits)
  next
    case False
    with "1.prems"(1) obtain targets vs where m: "m \<notin> visiting" "dict_get g m = Some targets"
      and vs: "visit_all g (insert m visiting) visited targets = Inr vs" "vd' = insert m vs"
      by (auto simp: visit.simps rbind_Inr_iff split: if_splits option.splits)
    from "1.IH" [OF m(1) False m(2) vs(1) "1.prems"(2)]
    have IH: "cycle_free_closed g vs" "visited \<subseteq> vs" "set targets \<subseteq> vs"
      "insert m visiting \<inter> vs \<subseteq> visited" by auto
    with False have "m \<notin> vs" by auto
    with IH m vs(2) show ?thesis
      by (auto intro: cycle_free_closed_insert)
  qed
next
  case (2 g visiting visited)
  then show ?case by (simp add: visit_simps)
next
  case (3 g visiting visited t ts)
  from "3.prems"(1) obtain vs where vs: "visit g visiting visited t = Inr vs"
    "visit_all g visiting vs ts = Inr vd'"
    by (auto simp: visit_all.simps rbind_Inr_iff)
  from "3.IH"(1) [OF vs(1) "3.prems"(2)] "3.IH"(2) [OF vs] show ?case by auto
qed

lemma visit_complete:
  "acyclic (sup_edges g) \<Longrightarrow> \<forall>(a, b) \<in> sup_edges g. b \<in> fst ` set g \<Longrightarrow> m \<in> fst ` set g \<Longrightarrow>
     \<forall>v\<in>vg. (v, m) \<in> (sup_edges g)\<^sup>+ \<Longrightarrow> \<exists>vd'. visit g vg vd m = Inr vd'"
  "acyclic (sup_edges g) \<Longrightarrow> \<forall>(a, b) \<in> sup_edges g. b \<in> fst ` set g \<Longrightarrow> set ts \<subseteq> fst ` set g \<Longrightarrow>
     \<forall>v\<in>vg. \<forall>t\<in>set ts. (v, t) \<in> (sup_edges g)\<^sup>+ \<Longrightarrow> \<exists>vd'. visit_all g vg vd ts = Inr vd'"
proof (induction g vg vd m and g vg vd ts rule: visit_visit_all.induct)
  case (1 g visiting visited m)
  show ?case
  proof (cases "m \<in> visited")
    case True
    with "1.prems" show ?thesis by (auto simp: visit.simps acyclic_def)
  next
    case False
    have m: "m \<notin> visiting" using "1.prems"(1,4) by (auto simp: acyclic_def)
    obtain targets where targets: "dict_get g m = Some targets"
      using "1.prems"(3) by (metis dict_get_None_iff option.exhaust)
    then have edge: "(m, t) \<in> sup_edges g" if "t \<in> set targets" for t
      using that by (auto simp: sup_edges_def)
    have sub: "set targets \<subseteq> fst ` set g"
      using bspec [OF "1.prems"(2) edge] by auto
    have "\<exists>vs. visit_all g (insert m visiting) visited targets = Inr vs"
      using "1.prems" edge sub by (intro "1.IH" [OF m False targets]) (auto intro: trancl_into_trancl)
    with m False targets show ?thesis by (auto simp: visit.simps)
  qed
next
  case (2 g visiting visited)
  then show ?case by (simp add: visit_simps)
next
  case (3 g visiting visited t ts)
  then obtain vs where vs: "visit g visiting visited t = Inr vs" by auto
  with 3 obtain vs' where "visit_all g visiting vs ts = Inr vs'" by auto
  with vs show ?case by (auto simp: visit_all.simps)
qed

subsection \<open>The document\<close>

record memory_document =
  md_schema_version :: int
  md_revision :: int
  md_curation :: curation_checkpoint
  md_coverage_overview :: coverage_overview
  md_memories :: "memory_item list"

definition document_frontier :: "memory_document \<Rightarrow> int" where
  "document_frontier d = ck_curated_through_sequence (md_curation d)"

definition last_span_end :: "coverage_span list \<Rightarrow> int" where
  "last_span_end ss = (if ss = [] then 0 else cs_end_sequence (last ss))"

text \<open>The dict built by the loop over the items (identifiers are distinct by then).\<close>

definition supersedes_graph :: "memory_item list \<Rightarrow> sup_graph" where
  "supersedes_graph ms = map (\<lambda>m. (mi_memory_id m, mi_supersedes m)) ms"

text \<open>
  The document's own validators. A constructor call that is given model instances runs only these:
  nested instances are not validated again.
\<close>

definition document_level_ok :: "memory_document \<Rightarrow> bool" where
  "document_level_ok d \<longleftrightarrow>
     md_revision d \<ge> 0 \<and>
     md_schema_version d = 1 \<and>
     co_revision (md_coverage_overview d) = md_revision d \<and>
     last_span_end (co_spans (md_coverage_overview d)) = document_frontier d \<and>
     distinct (map mi_memory_id (md_memories d)) \<and>
     list_all (\<lambda>m. list_all (\<lambda>t. t \<in> set (map mi_memory_id (md_memories d))) (mi_supersedes m))
       (md_memories d) \<and>
     is_ok (visit_all (supersedes_graph (md_memories d)) {} {} (map mi_memory_id (md_memories d)))"

text \<open>A document validated from plain data: every nested model is validated as well.\<close>

definition memory_document_ok :: "memory_document \<Rightarrow> bool" where
  "memory_document_ok d \<longleftrightarrow>
     curation_checkpoint_ok (md_curation d) \<and>
     coverage_overview_ok (md_coverage_overview d) \<and>
     list_all memory_item_ok (md_memories d) \<and>
     document_level_ok d"

definition empty_document :: memory_document where
  "empty_document =
     \<lparr>md_schema_version = 1, md_revision = 0, md_curation = empty_checkpoint,
      md_coverage_overview = empty_overview, md_memories = []\<rparr>"

lemma empty_document_ok [simp]: "memory_document_ok empty_document"
  by (simp add: memory_document_ok_def document_level_ok_def empty_document_def empty_checkpoint_def empty_overview_def
      empty_overview_text_def curation_checkpoint_ok_def coverage_overview_ok_def last_span_end_def
      document_frontier_def visit_simps)

lemma fst_supersedes_graph [simp]: "map fst (supersedes_graph ms) = map mi_memory_id ms"
  by (simp add: supersedes_graph_def)

lemma fst_set_supersedes_graph [simp]: "fst ` set (supersedes_graph ms) = mi_memory_id ` set ms"
  by (simp add: supersedes_graph_def image_image)

lemma supersedes_graph_get:
  "distinct (map mi_memory_id ms) \<Longrightarrow> m \<in> set ms \<Longrightarrow>
     dict_get (supersedes_graph ms) (mi_memory_id m) = Some (mi_supersedes m)"
  by (intro map_of_is_SomeI) (auto simp: supersedes_graph_def comp_def)

lemma sup_edges_supersedes_graph:
  assumes "distinct (map mi_memory_id ms)"
  shows "sup_edges (supersedes_graph ms) =
    {(mi_memory_id m, t) | m t. m \<in> set ms \<and> t \<in> set (mi_supersedes m)}"
  using supersedes_graph_get [OF assms]
  by (fastforce simp: sup_edges_def supersedes_graph_def dest: map_of_SomeD)

text \<open>The search accepts exactly the relations without a cycle.\<close>

lemma visit_all_iff_acyclic:
  assumes dist: "distinct (map mi_memory_id ms)"
    and closed: "list_all (\<lambda>m. set (mi_supersedes m) \<subseteq> mi_memory_id ` set ms) ms"
  shows "is_ok (visit_all (supersedes_graph ms) {} {} (map mi_memory_id ms)) \<longleftrightarrow>
    acyclic {(mi_memory_id m, t) | m t. m \<in> set ms \<and> t \<in> set (mi_supersedes m)}"
    (is "is_ok ?v \<longleftrightarrow> acyclic ?E")
proof
  have E: "sup_edges (supersedes_graph ms) = ?E"
    by (rule sup_edges_supersedes_graph [OF dist])
  {
    assume "is_ok ?v"
    then obtain V where V: "?v = Inr V" by (cases ?v) auto
    from visit_sound(2) [OF V] have inv: "cycle_free_closed (supersedes_graph ms) V"
      and sub: "mi_memory_id ` set ms \<subseteq> V" by auto
    show "acyclic ?E"
      unfolding acyclic_def
    proof (intro allI notI)
      fix x
      assume x: "(x, x) \<in> ?E\<^sup>+"
      then have "x \<in> mi_memory_id ` set ms" by (auto dest: tranclD)
      with sub inv x show False by (auto simp: cycle_free_closed_def E)
    qed
  next
    assume acyc: "acyclic ?E"
    have "\<exists>vd'. ?v = Inr vd'"
      by (rule visit_complete(2)) (use acyc closed in \<open>auto simp: E list_all_iff\<close>)
    then show "is_ok ?v" by auto
  }
qed


lemma memory_document_ok_acyclic:
  assumes "memory_document_ok d"
  shows "acyclic {(mi_memory_id m, t) | m t. m \<in> set (md_memories d) \<and> t \<in> set (mi_supersedes m)}"
proof -
  from assms have dist: "distinct (map mi_memory_id (md_memories d))"
    and closed: "list_all (\<lambda>m. set (mi_supersedes m) \<subseteq> mi_memory_id ` set (md_memories d)) (md_memories d)"
    and search: "is_ok (visit_all (supersedes_graph (md_memories d)) {} {} (map mi_memory_id (md_memories d)))"
    by (auto simp: memory_document_ok_def document_level_ok_def list_all_iff)
  from search visit_all_iff_acyclic [OF dist closed] show ?thesis by simp
qed

text \<open>Coverage: what \<open>spans_continuous\<close> and the span validator give together.\<close>

lemma coverage_span_nonempty: "coverage_span_ok s \<Longrightarrow> cs_start_sequence s \<le> cs_end_sequence s"
  by (simp add: coverage_span_ok_def Let_def)

lemma spans_continuous_append:
  "spans_continuous n (ss @ ts) \<longleftrightarrow>
     spans_continuous n ss \<and>
     spans_continuous (if ss = [] then n else cs_end_sequence (last ss) + 1) ts"
  by (induction ss arbitrary: n) auto

lemma last_span_end_append [simp]:
  "last_span_end (ss @ [s]) = cs_end_sequence s" "last_span_end [] = 0"
  by (simp_all add: last_span_end_def)

lemma spans_continuous_snoc:
  "spans_continuous 1 (ss @ [s]) \<longleftrightarrow>
     spans_continuous 1 ss \<and> cs_start_sequence s = last_span_end ss + 1"
  by (auto simp: spans_continuous_append last_span_end_def)

lemma last_span_end_ge:
  assumes "spans_continuous n ss" and "list_all coverage_span_ok ss" and "ss \<noteq> []"
  shows "n \<le> cs_end_sequence (last ss)"
  using assms
proof (induction ss arbitrary: n)
  case Nil
  then show ?case by simp
next
  case (Cons s ss)
  have "n \<le> cs_end_sequence s"
    using Cons.prems by (auto dest: coverage_span_nonempty)
  with Cons show ?case by (cases ss) fastforce+
qed

lemma coverage_sequences:
  assumes "spans_continuous n ss" and "list_all coverage_span_ok ss"
  shows "concat (map (\<lambda>s. [cs_start_sequence s..cs_end_sequence s]) ss) =
    [n..(if ss = [] then n - 1 else cs_end_sequence (last ss))]"
  using assms
proof (induction ss arbitrary: n)
  case Nil
  then show ?case by simp
next
  case (Cons s ss)
  have le: "cs_start_sequence s \<le> cs_end_sequence s" and n: "cs_start_sequence s = n"
    using Cons.prems by (auto dest: coverage_span_nonempty)
  show ?case
  proof (cases "ss = []")
    case True
    with n show ?thesis by simp
  next
    case False
    have "cs_end_sequence s \<le> cs_end_sequence (last ss)"
      using last_span_end_ge [of "cs_end_sequence s + 1" ss] Cons.prems False by simp
    note split = upto_split2 [OF le this]
    have "concat (map (\<lambda>s. [cs_start_sequence s..cs_end_sequence s]) ss) =
        [cs_end_sequence s + 1..cs_end_sequence (last ss)]"
      using Cons.IH [of "cs_end_sequence s + 1"] Cons.prems False by simp
    with False n split show ?thesis by simp
  qed
qed

end
