(* ===== verification/Journal_Models.thy ===== *)
theory Journal_Models
  imports Memory_Models
begin

text \<open>
  How the persistent models are written out, and the turn transaction journal of
  \<open>domain/models.py\<close>.

  \<open>dump_raw_record\<close>, \<open>dump_document\<close> and \<open>dump_journal\<close> are \<open>model_dump(mode="json")\<close>; the only
  piece they leave open is the text Pydantic writes for a time, the argument \<open>ser\<close>.
\<close>

type_synonym time_ser = "py_datetime \<Rightarrow> pystr"

fun opt_json :: "('a \<Rightarrow> json) \<Rightarrow> 'a option \<Rightarrow> json" where
  "opt_json f None = JNull"
| "opt_json f (Some x) = f x"

definition strs_json :: "pystr list \<Rightarrow> json" where
  "strs_json xs = JArr (map JStr xs)"

definition dump_raw_record :: "time_ser \<Rightarrow> raw_record \<Rightarrow> json" where
  "dump_raw_record ser r = JObj
     [(u ''schema_version'', JInt (rr_schema_version r)),
      (u ''record_id'', JStr (rr_record_id r)),
      (u ''global_sequence'', JInt (rr_global_sequence r)),
      (u ''turn_id'', JStr (rr_turn_id r)),
      (u ''role'', JStr (role_value (rr_role r))),
      (u ''content'', JStr (rr_content r)),
      (u ''created_at'', JStr (ser (Aware (rr_created_at r) 0))),
      (u ''state_id'', JStr (rr_state_id r)),
      (u ''config_revision'', JStr (rr_config_revision r)),
      (u ''content_sha256'', JStr (rr_content_sha256 r))]"

fun memory_status_value :: "memory_status \<Rightarrow> pystr" where
  "memory_status_value MemActive = u ''active''"
| "memory_status_value MemSuperseded = u ''superseded''"
| "memory_status_value MemRetracted = u ''retracted''"

fun source_relation_value :: "source_relation \<Rightarrow> pystr" where
  "source_relation_value RelSupports = u ''supports''"
| "source_relation_value RelCorrects = u ''corrects''"
| "source_relation_value RelSupersedes = u ''supersedes''"
| "source_relation_value RelManualBasis = u ''manual_basis''"

fun created_by_value :: "created_by \<Rightarrow> pystr" where
  "created_by_value ByMemoryCurator = u ''memory_curator''"
| "created_by_value ByManual = u ''manual''"

definition dump_source_reference :: "source_reference \<Rightarrow> json" where
  "dump_source_reference s = JObj
     [(u ''record_id'', JStr (sr_record_id s)),
      (u ''relation'', JStr (source_relation_value (sr_relation s))),
      (u ''record_sha256'', JStr (sr_record_sha256 s))]"

definition dump_memory_item :: "time_ser \<Rightarrow> memory_item \<Rightarrow> json" where
  "dump_memory_item ser m = JObj
     [(u ''memory_id'', JStr (mi_memory_id m)),
      (u ''kind'', JStr (memory_kind_value (mi_kind m))),
      (u ''text'', JStr (mi_text m)),
      (u ''status'', JStr (memory_status_value (mi_status m))),
      (u ''source_refs'', JArr (map dump_source_reference (mi_source_refs m))),
      (u ''created_by'', JStr (created_by_value (mi_created_by m))),
      (u ''created_at'', JStr (ser (mi_created_at m))),
      (u ''updated_at'', JStr (ser (mi_updated_at m))),
      (u ''supersedes'', strs_json (mi_supersedes m)),
      (u ''tags'', strs_json (mi_tags m))]"

definition dump_coverage_span :: "coverage_span \<Rightarrow> json" where
  "dump_coverage_span s = JObj
     [(u ''start_sequence'', JInt (cs_start_sequence s)),
      (u ''end_sequence'', JInt (cs_end_sequence s)),
      (u ''batch_id'', JStr (cs_batch_id s)),
      (u ''record_ids'', strs_json (cs_record_ids s)),
      (u ''record_hashes'', strs_json (cs_record_hashes s))]"

definition dump_coverage_overview :: "coverage_overview \<Rightarrow> json" where
  "dump_coverage_overview c = JObj
     [(u ''revision'', JInt (co_revision c)),
      (u ''text'', JStr (co_text c)),
      (u ''coverage_spans'', JArr (map dump_coverage_span (co_spans c)))]"

definition dump_checkpoint :: "time_ser \<Rightarrow> curation_checkpoint \<Rightarrow> json" where
  "dump_checkpoint ser c = JObj
     [(u ''curated_through_sequence'', JInt (ck_curated_through_sequence c)),
      (u ''last_batch_id'', opt_json JStr (ck_last_batch_id c)),
      (u ''updated_at'', opt_json (\<lambda>t. JStr (ser t)) (ck_updated_at c)),
      (u ''covered_record_ids'', strs_json (ck_covered_record_ids c))]"

definition dump_document :: "time_ser \<Rightarrow> memory_document \<Rightarrow> json" where
  "dump_document ser d = JObj
     [(u ''schema_version'', JInt (md_schema_version d)),
      (u ''revision'', JInt (md_revision d)),
      (u ''curation'', dump_checkpoint ser (md_curation d)),
      (u ''coverage_overview'', dump_coverage_overview (md_coverage_overview d)),
      (u ''memories'', JArr (map (dump_memory_item ser) (md_memories d)))]"

text \<open>The identity of a document that the journal and the publication compare.\<close>

definition document_identity :: "time_ser \<Rightarrow> memory_document \<Rightarrow> pystr" where
  "document_identity ser d = content_hash (canonical_json (dump_document ser d))"

subsection \<open>Comparing documents\<close>

text \<open>Two aware times are equal when their instants are; a naive time never equals an aware one.\<close>

fun time_key :: "py_datetime \<Rightarrow> py_datetime" where
  "time_key (Naive t) = Naive t"
| "time_key (Aware t _) = Aware t 0"

definition item_key :: "memory_item \<Rightarrow> memory_item" where
  "item_key m = m\<lparr>mi_created_at := time_key (mi_created_at m),
                  mi_updated_at := time_key (mi_updated_at m)\<rparr>"

definition checkpoint_key :: "curation_checkpoint \<Rightarrow> curation_checkpoint" where
  "checkpoint_key c = c\<lparr>ck_updated_at := map_option time_key (ck_updated_at c)\<rparr>"

subsection \<open>The identity of the archive\<close>

definition record_identity :: "raw_record \<Rightarrow> json" where
  "record_identity r = JObj
     [(u ''record_id'', JStr (rr_record_id r)),
      (u ''content_sha256'', JStr (rr_content_sha256 r))]"

definition records_identity_text :: "raw_record list \<Rightarrow> pystr" where
  "records_identity_text rs = canonical_json (JArr (map record_identity rs))"

definition identity_hash :: "raw_record list \<Rightarrow> pystr" where
  "identity_hash rs = content_hash (records_identity_text rs)"

subsection \<open>Checkpoint and journal\<close>

record pre_turn_checkpoint =
  pc_raw_count :: int
  pc_raw_tail_id :: "pystr option"
  pc_raw_sha256 :: pystr
  pc_long_term_revision :: "int option"
  pc_long_term_sha256 :: "pystr option"
  pc_agent_state :: pystr

definition pre_turn_checkpoint_ok :: "pre_turn_checkpoint \<Rightarrow> bool" where
  "pre_turn_checkpoint_ok c \<longleftrightarrow>
     pc_raw_count c \<ge> 0 \<and> (case pc_long_term_revision c of None \<Rightarrow> True | Some r \<Rightarrow> r \<ge> 0)"

text \<open>\<open>PreTurnCheckpoint.capture\<close> from what \<open>read_all\<close> and \<open>load\<close> returned.\<close>

definition capture_checkpoint ::
  "time_ser \<Rightarrow> raw_record list \<Rightarrow> memory_document option \<Rightarrow> pystr \<Rightarrow> pre_turn_checkpoint result"
where
  "capture_checkpoint ser records document agent_state =
     validated pre_turn_checkpoint_ok
       \<lparr>pc_raw_count = int (length records),
        pc_raw_tail_id = (if records = [] then None else Some (rr_record_id (last records))),
        pc_raw_sha256 = identity_hash records,
        pc_long_term_revision = map_option md_revision document,
        pc_long_term_sha256 = map_option (document_identity ser) document,
        pc_agent_state = agent_state\<rparr>"

datatype tx_state = Prepared | ReadyPending | ReadyToCommit

fun tx_state_value :: "tx_state \<Rightarrow> pystr" where
  "tx_state_value Prepared = u ''PREPARED''"
| "tx_state_value ReadyPending = u ''READY_PENDING''"
| "tx_state_value ReadyToCommit = u ''READY_TO_COMMIT''"

record turn_journal =
  tj_schema_version :: int
  tj_state :: tx_state
  tj_transaction_id :: pystr
  tj_turn_id :: pystr
  tj_checkpoint :: pre_turn_checkpoint
  tj_user :: raw_record
  tj_failure_code :: "pystr option"
  tj_assistant :: "raw_record option"
  tj_target :: "json option"
  tj_target_sha256 :: "pystr option"

definition turn_journal_ok :: "turn_journal \<Rightarrow> bool" where
  "turn_journal_ok j \<longleftrightarrow>
     pre_turn_checkpoint_ok (tj_checkpoint j) \<and> raw_record_ok (tj_user j) \<and>
     pred_option raw_record_ok (tj_assistant j) \<and>
     tj_schema_version j = 1 \<and>
     rr_role (tj_user j) = RoleUser \<and>
     rr_turn_id (tj_user j) = tj_turn_id j \<and>
     (tj_target j = None) = (tj_target_sha256 j = None) \<and>
     (tj_state j = Prepared \<longrightarrow>
        tj_failure_code j = None \<and> tj_assistant j = None \<and> tj_target j = None \<and>
        tj_target_sha256 j = None) \<and>
     (tj_state j = ReadyPending \<longrightarrow>
        \<not> falsy (tj_failure_code j) \<and> tj_assistant j = None \<and> tj_target j = None \<and>
        tj_target_sha256 j = None) \<and>
     (tj_state j = ReadyToCommit \<longrightarrow>
        (case tj_assistant j of
           None \<Rightarrow> False
         | Some a \<Rightarrow> rr_role a = RoleAssistant \<and> rr_turn_id a = tj_turn_id j \<and>
             rr_global_sequence a = rr_global_sequence (tj_user j) + 1))"

text \<open>\<open>model_dump(mode="json", exclude_none=True)\<close>: fields that are \<open>None\<close> are left out.\<close>

fun opt_field :: "string \<Rightarrow> json option \<Rightarrow> (pystr \<times> json) list" where
  "opt_field k None = []"
| "opt_field k (Some v) = [(u k, v)]"

definition dump_pre_turn_checkpoint :: "pre_turn_checkpoint \<Rightarrow> json" where
  "dump_pre_turn_checkpoint c = JObj
     ([(u ''raw_count'', JInt (pc_raw_count c))]
      @ opt_field ''raw_tail_id'' (map_option JStr (pc_raw_tail_id c))
      @ [(u ''raw_sha256'', JStr (pc_raw_sha256 c))]
      @ opt_field ''long_term_revision'' (map_option JInt (pc_long_term_revision c))
      @ opt_field ''long_term_sha256'' (map_option JStr (pc_long_term_sha256 c))
      @ [(u ''agent_state'', JStr (pc_agent_state c))])"

definition dump_journal :: "time_ser \<Rightarrow> turn_journal \<Rightarrow> json" where
  "dump_journal ser j = JObj
     ([(u ''schema_version'', JInt (tj_schema_version j)),
       (u ''state'', JStr (tx_state_value (tj_state j))),
       (u ''transaction_id'', JStr (tj_transaction_id j)),
       (u ''turn_id'', JStr (tj_turn_id j)),
       (u ''checkpoint'', dump_pre_turn_checkpoint (tj_checkpoint j)),
       (u ''provisional_user_record'', dump_raw_record ser (tj_user j))]
      @ opt_field ''pending_failure_code'' (map_option JStr (tj_failure_code j))
      @ opt_field ''assistant_record'' (map_option (dump_raw_record ser) (tj_assistant j))
      @ opt_field ''target_long_term_document'' (tj_target j)
      @ opt_field ''target_long_term_sha256'' (map_option JStr (tj_target_sha256 j)))"

end
