(* ===== verification/Archive.thy ===== *)
theory Archive
  imports Credentials Journal_Models
begin

text \<open>
  \<open>memory/archive.py\<close>: the raw record archive, a directory of numbered JSONL segments.

  The directory is the list of its segment files in name order, each with its number and its bytes;
  other files are not looked at. The operations are modelled at byte level: \<open>splitlines\<close>, the
  trailing newline check, the segment limits. They return the segment to write, and the callers in
  \<open>Transaction\<close> perform the atomic write. The specification is a list of records: \<open>append\<close>
  refines appending to the list and \<open>discard_pending_tail\<close> removing its last element.

  \<open>codec\<close> collects the library functions the stores call: Pydantic's JSON reading and writing and
  the YAML round-trip. What is assumed of them is named (\<open>codec_record\<close>) and only for the record at
  hand.
\<close>

subsection \<open>Lines of a byte string\<close>

text \<open>\<open>bytes.splitlines(keepends=True)\<close>: a line ends after LF, CR or CR LF.\<close>

fun cons_head :: "'a \<Rightarrow> 'a list list \<Rightarrow> 'a list list" where
  "cons_head c [] = [[c]]"
| "cons_head c (l # ls) = (c # l) # ls"

fun splitlines_keep :: "bytes \<Rightarrow> bytes list" where
  "splitlines_keep [] = []"
| "splitlines_keep (c # s) =
     (if c = 10 then [10] # splitlines_keep s
      else if c = 13 then
        (if take 1 s = [10] then [13, 10] # splitlines_keep (tl s) else [13] # splitlines_keep s)
      else cons_head c (splitlines_keep s))"

declare splitlines_keep.simps(2) [simp del]

lemma splitlines_keep_simps [simp]:
  "splitlines_keep (10 # s) = [10] # splitlines_keep s"
  "c \<noteq> 10 \<Longrightarrow> c \<noteq> 13 \<Longrightarrow> splitlines_keep (c # s) = cons_head c (splitlines_keep s)"
  by (simp_all add: splitlines_keep.simps)

lemma cons_head_append [simp]: "ls \<noteq> [] \<Longrightarrow> cons_head c (ls @ ms) = cons_head c ls @ ms"
  by (cases ls) auto

lemma concat_cons_head [simp]: "concat (cons_head c ls) = c # concat ls"
  by (cases ls) auto

lemma cons_head_neq_Nil [simp]: "cons_head c ls \<noteq> []"
  by (cases ls) auto

lemma splitlines_keep_eq_Nil [simp]: "splitlines_keep s = [] \<longleftrightarrow> s = []"
  by (cases s) (simp_all add: splitlines_keep.simps)

definition strip_eol :: "bytes \<Rightarrow> bytes" where
  "strip_eol l = rstrip_chars [10, 13] l"

definition splitlines :: "bytes \<Rightarrow> bytes list" where
  "splitlines s = map strip_eol (splitlines_keep s)"

lemma splitlines_Nil [simp]: "splitlines [] = []"
  by (simp add: splitlines_def)

lemma concat_splitlines_keep [simp]: "concat (splitlines_keep s) = s"
proof (induction s rule: splitlines_keep.induct)
  case (2 c s)
  then show ?case
    by (cases s) (simp_all add: splitlines_keep.simps)
qed simp

lemma splitlines_keep_append_nl:
  "splitlines_keep (p @ 10 # q) = splitlines_keep (p @ [10]) @ splitlines_keep q"
proof (induction p rule: splitlines_keep.induct)
  case (2 c s)
  show ?case
  proof (cases "c = 10 \<or> c = 13")
    case True
    with 2 show ?thesis by (cases s) (auto simp: splitlines_keep.simps(2) [of 13])
  next
    case False
    with 2 show ?thesis by simp
  qed
qed simp

lemma splitlines_keep_line:
  "10 \<notin> set l \<Longrightarrow> 13 \<notin> set l \<Longrightarrow> splitlines_keep (l @ [10]) = [l @ [10]]"
  by (induction l) auto

lemma strip_eol_line: "10 \<notin> set l \<Longrightarrow> 13 \<notin> set l \<Longrightarrow> strip_eol (l @ [10]) = l"
proof -
  assume "10 \<notin> set l" "13 \<notin> set l"
  then have "dropWhile (\<lambda>c. c \<in> set [10, 13]) (rev l) = rev l"
    by (cases "rev l") (auto simp flip: set_rev [of l])
  then show ?thesis by (simp add: strip_eol_def rstrip_chars_def)
qed

text \<open>Complete payloads: empty or ending in a newline.\<close>

definition complete_payload :: "bytes \<Rightarrow> bool" where
  "complete_payload p \<longleftrightarrow> p = [] \<or> endswith p [10]"

lemma splitlines_append_line:
  assumes "complete_payload p" "10 \<notin> set l" "13 \<notin> set l"
  shows "splitlines (p @ l @ [10]) = splitlines p @ [l]"
    and "splitlines_keep (p @ l @ [10]) = splitlines_keep p @ [l @ [10]]"
proof -
  show *: "splitlines_keep (p @ l @ [10]) = splitlines_keep p @ [l @ [10]]"
  proof (cases "p = []")
    case True
    with assms show ?thesis by (simp add: splitlines_keep_line)
  next
    case False
    with assms(1) obtain q where "p = q @ [10]" by (auto simp: complete_payload_def endswith_iff)
    with assms show ?thesis
      using splitlines_keep_append_nl [of q "l @ [10]"] by (simp add: splitlines_keep_line)
  qed
  show "splitlines (p @ l @ [10]) = splitlines p @ [l]"
    using assms by (simp add: splitlines_def * strip_eol_line)
qed

lemma complete_payload_tl: "complete_payload (c # s) \<Longrightarrow> complete_payload s"
  by (auto simp: complete_payload_def endswith_iff Cons_eq_append_conv)

lemma splitlines_keep_complete:
  "complete_payload p \<Longrightarrow> 13 \<notin> set p \<Longrightarrow>
     \<forall>l\<in>set (splitlines_keep p). \<exists>x. l = x @ [10] \<and> 10 \<notin> set x"
proof (induction p)
  case (Cons c s)
  then have IH: "\<forall>l\<in>set (splitlines_keep s). \<exists>x. l = x @ [10] \<and> 10 \<notin> set x"
    by (auto dest: complete_payload_tl)
  show ?case
  proof (cases "c = 10")
    case False
    then have "s \<noteq> []" using Cons.prems(1) by (auto simp: complete_payload_def endswith_def startswith_def)
    then obtain m ms where m: "splitlines_keep s = m # ms"
      by (cases "splitlines_keep s") auto
    with IH obtain x where "m = x @ [10]" "10 \<notin> set x" by auto
    with False Cons.prems m IH show ?thesis
      by (auto intro: exI [of _ "c # x"])
  qed (use IH in auto)
qed simp


subsection \<open>Reading\<close>

record codec =
  cd_ser :: time_ser
  cd_record :: "bytes \<Rightarrow> raw_record option"
  cd_document :: "json \<Rightarrow> memory_document option"
  cd_yaml_load :: "bytes \<Rightarrow> json option"
  cd_yaml_dump :: "json option \<Rightarrow> json \<Rightarrow> bytes"
  cd_journal :: "bytes \<Rightarrow> turn_journal option"

text \<open>\<open>RawRecord.model_validate_json(line)\<close>: decoding, then the validators.\<close>

definition validate_record_json :: "codec \<Rightarrow> bytes \<Rightarrow> raw_record option" where
  "validate_record_json cd line =
     (case cd_record cd line of None \<Rightarrow> None | Some r \<Rightarrow> if raw_record_ok r then Some r else None)"

type_synonym segments = "(nat \<times> bytes) list"

text \<open>
  The inner loop of \<open>read_all\<close>. The list read so far determines the loop's other variables: the
  expected sequence number, the identifiers seen and the turn and role pairs.
\<close>

fun read_lines :: "codec \<Rightarrow> bytes list \<Rightarrow> raw_record list \<Rightarrow> raw_record list result" where
  "read_lines cd [] records = Inr records"
| "read_lines cd (line # lines) records =
     (case validate_record_json cd line of
        None \<Rightarrow> Inl (BaiError ''RAW_SEGMENT_INVALID'')
      | Some r \<Rightarrow>
          if rr_global_sequence r \<noteq> int (length records) + 1 then Inl (BaiError ''RAW_SEQUENCE_GAP'')
          else if rr_record_id r \<in> rr_record_id ` set records
              \<or> (rr_turn_id r, rr_role r) \<in> (\<lambda>x. (rr_turn_id x, rr_role x)) ` set records
          then Inl (BaiError ''RAW_SEGMENT_INVALID'')
          else read_lines cd lines (records @ [r]))"

fun read_segments :: "codec \<Rightarrow> nat \<Rightarrow> segments \<Rightarrow> raw_record list \<Rightarrow> raw_record list result" where
  "read_segments cd expected [] records = Inr records"
| "read_segments cd expected ((number, payload) # segs) records =
     (if number \<noteq> expected then Inl (BaiError ''RAW_SEGMENT_INVALID'')
      else if payload \<noteq> [] \<and> \<not> endswith payload [10] then Inl (BaiError ''RAW_SEGMENT_INVALID'')
      else rbind (read_lines cd (splitlines payload) records) (read_segments cd (expected + 1) segs))"

definition read_all :: "codec \<Rightarrow> segments \<Rightarrow> raw_record list result" where
  "read_all cd segs = read_segments cd 1 segs []"

subsection \<open>Appending\<close>

record archive_config =
  ac_segment_max_records :: nat
  ac_segment_max_bytes :: nat
  ac_max_record_bytes :: nat

text \<open>The line \<open>append\<close> writes for a record, without and with its newline.\<close>

definition record_text :: "codec \<Rightarrow> raw_record \<Rightarrow> bytes" where
  "record_text cd r = utf8 (canonical_json (dump_raw_record (cd_ser cd) r))"

definition record_line :: "codec \<Rightarrow> raw_record \<Rightarrow> bytes" where
  "record_line cd r = utf8 (canonical_json (dump_raw_record (cd_ser cd) r) @ [10])"

text \<open>The segment \<open>append\<close> extends and what it already holds.\<close>

definition append_target :: "archive_config \<Rightarrow> segments \<Rightarrow> bytes \<Rightarrow> nat \<times> bytes" where
  "append_target cfg segs line =
     (if segs = [] then (1, [])
      else (let (number, existing) = last segs; count = length (splitlines existing)
            in if count \<ge> ac_segment_max_records cfg
                  \<or> length existing + length line > ac_segment_max_bytes cfg
               then (length segs + 1, []) else (number, existing)))"

text \<open>
  \<open>append\<close> up to the atomic write: the record and the segment file to replace. The identifier is
  given or fresh (\<open>new_id("rec")\<close> of the random text \<open>uuid\<close>), the time given or the clock's.
\<close>

definition append_record ::
  "codec \<Rightarrow> archive_config \<Rightarrow> role \<Rightarrow> pystr \<Rightarrow> pystr \<Rightarrow> pystr \<Rightarrow> pystr \<Rightarrow> pystr option \<Rightarrow>
   py_datetime option \<Rightarrow> pystr \<Rightarrow> int \<Rightarrow> segments \<Rightarrow> (raw_record \<times> nat \<times> bytes) result"
where
  "append_record cd cfg role content turn_id state_id revision record_id created_at uuid now segs =
     rbind (ensure_safe content) (\<lambda>safe_content.
     rbind (read_all cd segs) (\<lambda>records.
     if \<exists>x\<in>set records. rr_turn_id x = turn_id \<and> rr_role x = role
     then Inl (BaiError ''TURN_ROLE_DUPLICATE'')
     else
       rbind (create_raw_record
                (if falsy record_id then u ''rec-'' @ uuid else the record_id)
                (int (length records) + 1) turn_id role safe_content
                (case created_at of Some d \<Rightarrow> d | None \<Rightarrow> Aware now 0) state_id revision)
         (\<lambda>record.
            let line = record_line cd record
            in if length line > ac_max_record_bytes cfg then Inl (BaiError ''RAW_RECORD_TOO_LARGE'')
               else (let (number, existing) = append_target cfg segs line
                     in Inr (record, number, existing @ line)))))"

text \<open>Replacing one file of the directory; files stay in name order.\<close>

fun write_segment :: "nat \<Rightarrow> bytes \<Rightarrow> segments \<Rightarrow> segments" where
  "write_segment n p [] = [(n, p)]"
| "write_segment n p ((k, q) # segs) =
     (if n < k then (n, p) # (k, q) # segs
      else if n = k then (n, p) # segs
      else (k, q) # write_segment n p segs)"

definition pending_turn :: "codec \<Rightarrow> segments \<Rightarrow> raw_record option result" where
  "pending_turn cd segs =
     rbind (read_all cd segs) (\<lambda>records.
       Inr (if records \<noteq> [] \<and> rr_role (last records) = RoleUser then Some (last records) else None))"

subsection \<open>Discarding a pending tail\<close>

text \<open>The loop over the prefix: complete turns, USER before ASSISTANT.\<close>

fun complete_turns :: "raw_record list \<Rightarrow> bool" where
  "complete_turns [] = True"
| "complete_turns [x] = False"
| "complete_turns (user # assistant # rs) =
     (rr_role user = RoleUser \<and> rr_role assistant = RoleAssistant \<and>
      rr_turn_id user = rr_turn_id assistant \<and> complete_turns rs)"

definition discard_pending_tail ::
  "codec \<Rightarrow> pystr option \<Rightarrow> segments \<Rightarrow> (pystr \<times> nat \<times> bytes) option result"
where
  "discard_pending_tail cd expected_turn_id segs =
     rbind (read_all cd segs) (\<lambda>records.
     if records = [] \<or> rr_role (last records) \<noteq> RoleUser
     then (if expected_turn_id \<noteq> None then Inl (BaiError ''RAW_PENDING_CONFLICT'') else Inr None)
     else (let pending = last records; pre = butlast records
           in if expected_turn_id \<noteq> None \<and> expected_turn_id \<noteq> Some (rr_turn_id pending)
              then Inl (BaiError ''RAW_PENDING_CONFLICT'')
              else if \<not> complete_turns pre then Inl (BaiError ''RAW_PENDING_INVALID'')
              else if \<exists>x\<in>set pre. rr_turn_id x = rr_turn_id pending
              then Inl (BaiError ''RAW_PENDING_INVALID'')
              else if segs = [] then Inl (BaiError ''RAW_PENDING_INVALID'')
              else (let (number, payload) = last segs; ls = splitlines_keep payload
                    in if ls = [] then Inl (BaiError ''RAW_PENDING_INVALID'')
                       else (case validate_record_json cd (last ls) of
                               None \<Rightarrow> Inl (BaiError ''RAW_SEGMENT_INVALID'')
                             | Some tail \<Rightarrow>
                                 if tail \<noteq> pending then Inl (BaiError ''RAW_PENDING_CONFLICT'')
                                 else Inr (Some (rr_turn_id pending, number, concat (butlast ls)))))))"

definition stored_line_count :: "segments \<Rightarrow> nat" where
  "stored_line_count segs = sum_list (map (\<lambda>(_, p). length (splitlines p)) segs)"

subsection \<open>The log a readable archive holds\<close>

definition log_ok :: "raw_record list \<Rightarrow> bool" where
  "log_ok rs \<longleftrightarrow>
     (\<forall>i<length rs. rr_global_sequence (rs ! i) = int i + 1) \<and>
     list_all raw_record_ok rs \<and>
     distinct (map rr_record_id rs) \<and>
     distinct (map (\<lambda>r. (rr_turn_id r, rr_role r)) rs)"

text \<open>Which record may come next in a log.\<close>

definition next_record_ok :: "raw_record list \<Rightarrow> raw_record \<Rightarrow> bool" where
  "next_record_ok rs r \<longleftrightarrow>
     raw_record_ok r \<and> rr_global_sequence r = int (length rs) + 1 \<and>
     rr_record_id r \<notin> rr_record_id ` set rs \<and>
     (rr_turn_id r, rr_role r) \<notin> (\<lambda>x. (rr_turn_id x, rr_role x)) ` set rs"

lemma log_ok_snoc: "log_ok (rs @ [r]) \<longleftrightarrow> log_ok rs \<and> next_record_ok rs r"
  by (auto simp: log_ok_def next_record_ok_def nth_append less_Suc_eq)

lemma log_ok_Nil [simp]: "log_ok []"
  by (simp add: log_ok_def)

lemma read_lines_Cons_iff:
  "read_lines cd (line # lines) rs = Inr rs' \<longleftrightarrow>
     (\<exists>r. validate_record_json cd line = Some r \<and> next_record_ok rs r \<and>
        read_lines cd lines (rs @ [r]) = Inr rs')"
  by (auto simp: validate_record_json_def next_record_ok_def split: option.splits)

lemma read_lines_append:
  "read_lines cd (xs @ ys) rs = rbind (read_lines cd xs rs) (read_lines cd ys)"
  by (induction cd xs rs rule: read_lines.induct) (auto split: option.splits)

lemma read_lines_log_ok: "read_lines cd lines rs = Inr rs' \<Longrightarrow> log_ok rs \<Longrightarrow> log_ok rs'"
proof (induction lines arbitrary: rs)
  case Nil
  then show ?case by simp
next
  case (Cons line lines)
  then show ?case
    unfolding read_lines_Cons_iff by (auto simp: log_ok_snoc)
qed

lemma read_lines_length: "read_lines cd lines rs = Inr rs' \<Longrightarrow> length rs' = length rs + length lines"
proof (induction lines arbitrary: rs)
  case Nil
  then show ?case by simp
next
  case (Cons line lines)
  then show ?case unfolding read_lines_Cons_iff by fastforce
qed

lemma read_lines_map:
  "read_lines cd lines rs = Inr rs' \<Longrightarrow>
     \<exists>xs. rs' = rs @ xs \<and> map Some xs = map (validate_record_json cd) lines"
proof (induction lines arbitrary: rs)
  case Nil
  then show ?case by simp
next
  case (Cons line lines)
  then show ?case
    unfolding read_lines_Cons_iff by fastforce
qed

text \<open>The two loops as one: the numbering, the newlines, then the lines of all segments in order.\<close>

definition segments_shape :: "nat \<Rightarrow> segments \<Rightarrow> bool" where
  "segments_shape n segs \<longleftrightarrow>
     map fst segs = [n..<n + length segs] \<and> list_all complete_payload (map snd segs)"

definition all_lines :: "segments \<Rightarrow> bytes list" where
  "all_lines segs = concat (map (splitlines \<circ> snd) segs)"

lemma segments_shape_Cons:
  "segments_shape n ((k, p) # segs) \<longleftrightarrow> k = n \<and> complete_payload p \<and> segments_shape (n + 1) segs"
  by (auto simp: segments_shape_def upt_rec [of n])

lemma read_segments_iff:
  "read_segments cd n segs rs = Inr rs' \<longleftrightarrow>
     segments_shape n segs \<and> read_lines cd (all_lines segs) rs = Inr rs'"
proof (induction segs arbitrary: n rs)
  case Nil
  then show ?case by (simp add: segments_shape_def all_lines_def)
next
  case (Cons seg segs)
  obtain k p where seg: "seg = (k, p)" by (cases seg)
  show ?case
    by (auto simp: seg segments_shape_Cons Cons.IH all_lines_def read_lines_append rbind_Inr_iff
        complete_payload_def)
qed

lemma read_all_iff:
  "read_all cd segs = Inr rs \<longleftrightarrow>
     segments_shape 1 segs \<and> read_lines cd (all_lines segs) [] = Inr rs"
  by (simp add: read_all_def read_segments_iff)

lemma read_all_log_ok: "read_all cd segs = Inr rs \<Longrightarrow> log_ok rs"
  by (auto simp: read_all_iff intro: read_lines_log_ok)


subsection \<open>Appending refines list append\<close>

text \<open>
  The library law about one record: Pydantic reads back the line written for it, also with the
  newline at its end.
\<close>

definition codec_record :: "codec \<Rightarrow> raw_record \<Rightarrow> bool" where
  "codec_record cd r \<longleftrightarrow>
     cd_record cd (record_text cd r) = Some r \<and> cd_record cd (record_line cd r) = Some r"

lemma dump_raw_record_no_float [simp]: "json_no_float (dump_raw_record ser r)"
  by (simp add: dump_raw_record_def)

text \<open>The line of a record determines every field but the time, and the time up to its text.\<close>

lemma role_value_inj [simp]: "role_value a = role_value b \<longleftrightarrow> a = b"
  by (cases a; cases b) simp_all

lemma record_text_inj:
  assumes "record_text cd r = record_text cd r'"
  shows "rr_record_id r = rr_record_id r'" "rr_global_sequence r = rr_global_sequence r'"
    "rr_turn_id r = rr_turn_id r'" "rr_role r = rr_role r'" "rr_content r = rr_content r'"
    "rr_state_id r = rr_state_id r'" "rr_config_revision r = rr_config_revision r'"
    "rr_content_sha256 r = rr_content_sha256 r'" "rr_schema_version r = rr_schema_version r'"
    "cd_ser cd (Aware (rr_created_at r) 0) = cd_ser cd (Aware (rr_created_at r') 0)"
proof -
  have norm: "json_norm (dump_raw_record (cd_ser cd) r) = json_norm (dump_raw_record (cd_ser cd) r')"
    using assms by (intro canonical_json_inj) (simp_all add: record_text_def)
  note get = json_norm_obj_get [OF norm [unfolded dump_raw_record_def]]
  show "rr_record_id r = rr_record_id r'" using get [of "u ''record_id''"] by simp
  show "rr_global_sequence r = rr_global_sequence r'" using get [of "u ''global_sequence''"] by simp
  show "rr_turn_id r = rr_turn_id r'" using get [of "u ''turn_id''"] by simp
  show "rr_role r = rr_role r'" using get [of "u ''role''"] by simp
  show "rr_content r = rr_content r'" using get [of "u ''content''"] by simp
  show "rr_state_id r = rr_state_id r'" using get [of "u ''state_id''"] by simp
  show "rr_config_revision r = rr_config_revision r'" using get [of "u ''config_revision''"] by simp
  show "rr_content_sha256 r = rr_content_sha256 r'" using get [of "u ''content_sha256''"] by simp
  show "rr_schema_version r = rr_schema_version r'" using get [of "u ''schema_version''"] by simp
  show "cd_ser cd (Aware (rr_created_at r) 0) = cd_ser cd (Aware (rr_created_at r') 0)"
    using get [of "u ''created_at''"] by simp
qed
lemma record_line_text: "record_line cd r = record_text cd r @ [10]"
  by (simp add: record_line_def record_text_def utf8_ascii)

lemma record_text_one_line: "10 \<notin> set (record_text cd r)" "13 \<notin> set (record_text cd r)"
proof -
  let ?t = "canonical_json (dump_raw_record (cd_ser cd) r)"
  have "b \<notin> set (record_text cd r)" if "b < 32" for b
    using that utf8_low_byte [of b ?t] canonical_json_printable [of "dump_raw_record (cd_ser cd) r" b]
    by (auto simp: record_text_def)
  then show "10 \<notin> set (record_text cd r)" "13 \<notin> set (record_text cd r)" by simp_all
qed

lemma write_segment_new:
  "segments_shape m segs \<Longrightarrow> write_segment (m + length segs) p segs = segs @ [(m + length segs, p)]"
  by (induction segs arbitrary: m) (force simp: segments_shape_Cons)+

lemma write_segment_last:
  "segments_shape m segs \<Longrightarrow> segs \<noteq> [] \<Longrightarrow>
     write_segment (fst (last segs)) p segs = butlast segs @ [(fst (last segs), p)]"
proof (induction segs arbitrary: m)
  case Nil
  then show ?case by simp
next
  case (Cons seg segs)
  obtain k q where seg: "seg = (k, q)" by (cases seg)
  show ?case
  proof (cases "segs = []")
    case True
    then show ?thesis by (simp add: seg)
  next
    case False
    have shape: "segments_shape (Suc k) segs" "k = m" using Cons.prems by (auto simp: seg segments_shape_Cons)
    then have "map fst segs = [Suc k..<Suc k + length segs]" by (simp add: segments_shape_def)
    then have "fst (last segs) \<in> {Suc k..<Suc k + length segs}"
      using False by (metis last_in_set last_map map_is_Nil_conv set_upt)
    with False Cons.IH [OF shape(1) False] show ?thesis by (auto simp: seg)
  qed
qed

text \<open>The directory after writing a record: the effect of \<open>append\<close> on the files.\<close>

definition put_record :: "codec \<Rightarrow> archive_config \<Rightarrow> raw_record \<Rightarrow> segments \<Rightarrow> segments" where
  "put_record cd cfg r segs =
     (let line = record_line cd r; (number, existing) = append_target cfg segs line
      in write_segment number (existing @ line) segs)"

lemma put_record_cases [consumes 1, case_names fresh extend]:
  assumes "segments_shape 1 segs"
  obtains (fresh) "put_record cd cfg r segs = segs @ [(length segs + 1, record_line cd r)]"
    | (extend) number existing front where "segs = front @ [(number, existing)]"
      "put_record cd cfg r segs = front @ [(number, existing @ record_line cd r)]"
      "length (splitlines existing) < ac_segment_max_records cfg"
      "length existing + length (record_line cd r) \<le> ac_segment_max_bytes cfg"
proof (cases "append_target cfg segs (record_line cd r) = (length segs + 1, [])")
  case True
  then have "put_record cd cfg r segs = segs @ [(length segs + 1, record_line cd r)]"
    using write_segment_new [OF assms, of "record_line cd r"] by (simp add: put_record_def)
  then show ?thesis by (rule fresh)
next
  case False
  then have ne: "segs \<noteq> []" by (auto simp: append_target_def)
  obtain number existing where last: "last segs = (number, existing)" by (cases "last segs")
  with False ne have target: "append_target cfg segs (record_line cd r) = (number, existing)"
    and small: "length (splitlines existing) < ac_segment_max_records cfg"
      "length existing + length (record_line cd r) \<le> ac_segment_max_bytes cfg"
    by (auto simp: append_target_def split: if_splits)
  have "segs = butlast segs @ [(number, existing)]" using ne last by (metis append_butlast_last_id)
  moreover have "put_record cd cfg r segs = butlast segs @ [(number, existing @ record_line cd r)]"
    using write_segment_last [OF assms ne, of "existing @ record_line cd r"] last
    by (simp add: put_record_def target)
  ultimately show ?thesis using small by (rule extend)
qed

lemma segments_shape_snoc:
  "segments_shape n (segs @ [(k, p)]) \<longleftrightarrow> segments_shape n segs \<and> k = n + length segs \<and> complete_payload p"
  by (auto simp: segments_shape_def)

lemma complete_payload_line [simp]: "complete_payload (p @ record_line cd r)"
  by (simp add: complete_payload_def record_line_text flip: append_assoc)

lemma splitlines_put:
  "complete_payload p \<Longrightarrow> splitlines (p @ record_line cd r) = splitlines p @ [record_text cd r]"
  unfolding record_line_text
  by (rule splitlines_append_line(1)) (simp_all add: record_text_one_line)

lemma put_record_lines:
  assumes "segments_shape 1 segs"
  shows "segments_shape 1 (put_record cd cfg r segs)"
    and "all_lines (put_record cd cfg r segs) = all_lines segs @ [record_text cd r]"
proof -
  have line: "splitlines (record_line cd r) = [record_text cd r]" "complete_payload (record_line cd r)"
    using splitlines_put [of "[]" cd r] complete_payload_line [of "[]" cd r]
    by (simp_all add: complete_payload_def)
  from assms have "segments_shape 1 (put_record cd cfg r segs) \<and>
      all_lines (put_record cd cfg r segs) = all_lines segs @ [record_text cd r]"
  proof (cases rule: put_record_cases [where cd = cd and cfg = cfg and r = r])
    case fresh
    with assms line show ?thesis by (simp add: segments_shape_snoc all_lines_def)
  next
    case (extend number existing front)
    from assms have "segments_shape 1 front" "complete_payload existing" "number = 1 + length front"
      by (simp_all add: extend(1) segments_shape_snoc)
    with extend(2) show ?thesis
      by (simp add: extend(1) segments_shape_snoc all_lines_def splitlines_put)
  qed
  then show "segments_shape 1 (put_record cd cfg r segs)"
    and "all_lines (put_record cd cfg r segs) = all_lines segs @ [record_text cd r]" by simp_all
qed

lemma read_all_put_record:
  assumes "read_all cd segs = Inr rs" and "next_record_ok rs r" and "codec_record cd r"
  shows "read_all cd (put_record cd cfg r segs) = Inr (rs @ [r])"
proof -
  have "validate_record_json cd (record_text cd r) = Some r"
    using assms(2,3) by (simp add: validate_record_json_def codec_record_def next_record_ok_def)
  then have "read_lines cd [record_text cd r] rs = Inr (rs @ [r])"
    using assms(2) by (simp only: read_lines_Cons_iff) simp
  with assms(1) put_record_lines [of segs cd cfg r] show ?thesis
    by (simp add: read_all_iff read_lines_append)
qed

lemma append_record_Inr_iff:
  "append_record cd cfg role content tid sid rv rid ca uuid now segs = Inr (r, n, p) \<longleftrightarrow>
     safe_text content \<and>
     (\<exists>rs. read_all cd segs = Inr rs \<and>
        \<not> (\<exists>x\<in>set rs. rr_turn_id x = tid \<and> rr_role x = role) \<and>
        create_raw_record (if falsy rid then u ''rec-'' @ uuid else the rid) (int (length rs) + 1)
          tid role content (case ca of Some d \<Rightarrow> d | None \<Rightarrow> Aware now 0) sid rv = Inr r) \<and>
     length (record_line cd r) \<le> ac_max_record_bytes cfg \<and>
     n = fst (append_target cfg segs (record_line cd r)) \<and>
     p = snd (append_target cfg segs (record_line cd r)) @ record_line cd r"
  by (auto simp only: append_record_def rbind_Inr_iff Let_def case_prod_unfold if_Inl_iff
      ensure_safe_iff not_less sum.inject prod.inject)

lemma append_record_writes:
  assumes "append_record cd cfg role content tid sid rv rid ca uuid now segs = Inr (r, n, p)"
  shows "write_segment n p segs = put_record cd cfg r segs"
  using assms unfolding append_record_Inr_iff put_record_def
  by (simp add: Let_def case_prod_unfold)

lemma append_record_next:
  assumes "append_record cd cfg role content tid sid rv rid ca uuid now segs = Inr (r, n, p)"
    and "read_all cd segs = Inr rs" and "rr_record_id r \<notin> rr_record_id ` set rs"
  shows "next_record_ok rs r"
  using assms unfolding append_record_Inr_iff create_raw_record_cases
  by (auto simp: next_record_ok_def raw_record_ok_def)

subsection \<open>The limits of a segment\<close>

text \<open>A segment within its limits, or one holding a single record that alone exceeds them.\<close>

definition segment_bounded :: "archive_config \<Rightarrow> bytes \<Rightarrow> bool" where
  "segment_bounded cfg p \<longleftrightarrow>
     length (splitlines p) \<le> 1 \<or>
     length (splitlines p) \<le> ac_segment_max_records cfg \<and> length p \<le> ac_segment_max_bytes cfg"

lemma put_record_bounded:
  assumes "segments_shape 1 segs" and "\<forall>(k, p)\<in>set segs. segment_bounded cfg p"
  shows "\<forall>(k, p)\<in>set (put_record cd cfg r segs). segment_bounded cfg p"
proof -
  have "splitlines (record_line cd r) = [record_text cd r]"
    using splitlines_put [of "[]" cd r] by (simp add: complete_payload_def)
  then have one: "segment_bounded cfg (record_line cd r)"
    by (simp add: segment_bounded_def)
  from assms(1) show ?thesis
  proof (cases rule: put_record_cases [where cd = cd and cfg = cfg and r = r])
    case fresh
    with assms(2) one show ?thesis by auto
  next
    case (extend number existing front)
    then have "complete_payload existing"
      using assms(1) by (simp add: segments_shape_snoc)
    with extend have "segment_bounded cfg (existing @ record_line cd r)"
      by (simp add: segment_bounded_def splitlines_put)
    with extend assms(2) show ?thesis by auto
  qed
qed

subsection \<open>Discarding refines removing the last element\<close>

text \<open>No carriage return: what \<open>append\<close> guarantees of every byte it writes.\<close>

definition no_cr :: "segments \<Rightarrow> bool" where
  "no_cr segs \<longleftrightarrow> (\<forall>(k, p)\<in>set segs. 13 \<notin> set p)"

lemma put_record_no_cr:
  assumes "segments_shape 1 segs" "no_cr segs"
  shows "no_cr (put_record cd cfg r segs)"
proof -
  have "13 \<notin> set (record_line cd r)"
    by (simp add: record_line_text record_text_one_line)
  with assms show ?thesis
    by (cases rule: put_record_cases [where cd = cd and cfg = cfg and r = r]) (auto simp: no_cr_def)
qed

lemma splitlines_butlast:
  assumes "complete_payload p" "13 \<notin> set p" "p \<noteq> []"
  shows "complete_payload (concat (butlast (splitlines_keep p)))"
    and "splitlines (concat (butlast (splitlines_keep p))) = butlast (splitlines p)"
proof -
  have lines: "\<forall>l\<in>set (splitlines_keep p). \<exists>x. l = x @ [10] \<and> 10 \<notin> set x"
    by (rule splitlines_keep_complete [OF assms(1,2)])
  have set: "\<Union> (set ` set (splitlines_keep p)) = set p"
    by (metis concat_splitlines_keep set_concat)
  have cr: "13 \<notin> set l" if "l \<in> set (splitlines_keep p)" for l
    using that set assms(2) by auto
  have gen: "complete_payload (concat ls) \<and> splitlines_keep (concat ls) = ls"
    if "\<forall>l\<in>set ls. (\<exists>x. l = x @ [10] \<and> 10 \<notin> set x) \<and> 13 \<notin> set l" for ls
    using that
  proof (induction ls rule: rev_induct)
    case Nil
    then show ?case by (simp add: complete_payload_def)
  next
    case (snoc l ls)
    then obtain x where x: "l = x @ [10]" "10 \<notin> set x" "13 \<notin> set x" by auto
    have "complete_payload (concat ls)" "splitlines_keep (concat ls) = ls" using snoc by auto
    with splitlines_append_line(2) [of "concat ls" x] x show ?case
      by (simp add: complete_payload_def flip: append_assoc)
  qed
  have "\<forall>l\<in>set (butlast (splitlines_keep p)). (\<exists>x. l = x @ [10] \<and> 10 \<notin> set x) \<and> 13 \<notin> set l"
    using lines cr by (auto dest: in_set_butlastD)
  from gen [OF this] show "complete_payload (concat (butlast (splitlines_keep p)))"
    and "splitlines (concat (butlast (splitlines_keep p))) = butlast (splitlines p)"
    by (simp_all add: splitlines_def map_butlast)
qed

lemma discard_pending_tail_Some:
  assumes "discard_pending_tail cd expected segs = Inr (Some (tid, n, p))" and "no_cr segs"
  obtains rs r where "read_all cd segs = Inr (rs @ [r])" "rr_role r = RoleUser" "rr_turn_id r = tid"
    "complete_turns rs" "expected = None \<or> expected = Some tid"
    "read_all cd (write_segment n p segs) = Inr rs" "no_cr (write_segment n p segs)"
    "\<forall>x\<in>set rs. rr_turn_id x \<noteq> tid"
proof -
  from assms(1) obtain records where records: "read_all cd segs = Inr records" "records \<noteq> []"
    by (auto simp: discard_pending_tail_def rbind_Inr_iff split: if_splits)
  define pending where "pending = last records"
  define number payload where "number = fst (last segs)" and "payload = snd (last segs)"
  have conds: "rr_role pending = RoleUser" "expected = None \<or> expected = Some (rr_turn_id pending)"
    "complete_turns (butlast records)" "\<forall>x\<in>set (butlast records). rr_turn_id x \<noteq> rr_turn_id pending"
    "segs \<noteq> []" "payload \<noteq> []" "tid = rr_turn_id pending" "n = number"
    "p = concat (butlast (splitlines_keep payload))"
    using assms(1) records
    by (auto simp: discard_pending_tail_def Let_def case_prod_unfold pending_def number_def
        payload_def split: if_splits option.splits)
  have shape: "segments_shape 1 segs" and lines: "read_lines cd (all_lines segs) [] = Inr records"
    using records(1) by (auto simp: read_all_iff)
  have split: "segs = butlast segs @ [(number, payload)]"
    using conds(5) by (simp add: number_def payload_def)
  have shape': "segments_shape 1 (butlast segs)" "number = 1 + length (butlast segs)"
    "complete_payload payload"
    using shape by (subst (asm) split, simp add: segments_shape_snoc)+
  have cr: "13 \<notin> set payload" "no_cr (butlast segs)"
    using assms(2) by (subst (asm) split, auto simp: no_cr_def)+
  note tail = splitlines_butlast [OF shape'(3) cr(1) conds(6)]
  have written: "write_segment n p segs = butlast segs @ [(number, p)]"
    using write_segment_last [OF shape conds(5), of p] conds(8) by (simp add: number_def)
  have "splitlines payload \<noteq> []" using conds(6) by (simp add: splitlines_def)
  then have all: "all_lines segs = all_lines (write_segment n p segs) @ [last (splitlines payload)]"
    unfolding written by (subst split, simp add: all_lines_def tail conds(9))
  have "segments_shape 1 (write_segment n p segs)"
    unfolding written using shape' tail(1) conds(9) by (simp add: segments_shape_snoc)
  moreover from lines all obtain rs where rs: "read_lines cd (all_lines (write_segment n p segs)) [] = Inr rs"
    and "read_lines cd [last (splitlines payload)] rs = Inr records"
    by (auto simp: read_lines_append rbind_Inr_iff)
  then have "records = rs @ [pending]" "butlast records = rs"
    unfolding read_lines_Cons_iff by (auto simp: pending_def)
  moreover have "set p \<subseteq> set payload"
  proof -
    have "set payload = (\<Union>l\<in>set (splitlines_keep payload). set l)"
      by (metis concat_splitlines_keep set_concat)
    then show ?thesis unfolding conds(9) by (auto dest!: in_set_butlastD)
  qed
  then have "no_cr (write_segment n p segs)"
    unfolding written using cr by (auto simp: no_cr_def)
  ultimately show ?thesis
    using records(1) conds rs by (intro that [of rs pending]) (auto simp: read_all_iff)
qed


subsection \<open>The archive as an append-only log\<close>

interpretation archive_log: append_log "read_all cd" "put_record cd cfg"
    "\<lambda>rs r. next_record_ok rs r \<and> codec_record cd r" for cd cfg
  by unfold_locales (auto intro: read_all_put_record)

end
