(* ===== verification/LongTerm.thy ===== *)
theory LongTerm
  imports Archive
begin

text \<open>
  \<open>memory/long_term.py\<close>: the long-term memory document, kept in one YAML file with a recovery copy
  of its last valid content.

  \<open>world\<close> is what the two stores and the journal keep on disk, and the two in-memory fields of
  \<open>LongTermStore\<close>. Every atomic replacement or unlink of a file goes through \<open>durable\<close>, which
  counts down \<open>w_budget\<close>: when it is used up the write does not happen and \<open>w_fault\<close> is raised,
  \<open>Crash\<close> for the death of the process. So a crash at any point between two durable writes is one
  value of the budget.
\<close>

record world =
  w_segments :: segments
  w_yaml :: "bytes option"
  w_last_valid :: "bytes option"
  w_journal :: "pystr option"
  w_private :: bool
  w_budget :: nat
  w_fault :: exn
  ls_read_only :: bool
  ls_loaded_hash :: "pystr option"

definition durable :: "(world \<Rightarrow> world) \<Rightarrow> (world, unit) op" where
  "durable f w =
     (if w_budget w = 0 then (Inl (w_fault w), w)
      else (Inr (), (f w)\<lparr>w_budget := w_budget w - 1\<rparr>))"

text \<open>A new process: the files stay, the in-memory fields of the store start afresh.\<close>

definition restart :: "nat \<Rightarrow> world \<Rightarrow> world" where
  "restart budget w = w\<lparr>ls_read_only := False, ls_loaded_hash := None, w_budget := budget\<rparr>"

record store_config =
  sc_max_document_bytes :: nat
  sc_max_items :: nat
  sc_max_overview_chars :: nat

record memory_env =
  me_codec :: codec
  me_archive :: archive_config
  me_store :: store_config
  me_has_store :: bool

subsection \<open>Reading\<close>

text \<open>\<open>_validate_sources\<close> over the records by identifier.\<close>

definition record_by_id :: "raw_record list \<Rightarrow> pystr \<Rightarrow> raw_record option" where
  "record_by_id rs = map_of (rev (map (\<lambda>r. (rr_record_id r, r)) rs))"

fun validate_source_refs :: "raw_record list \<Rightarrow> source_reference list \<Rightarrow> unit result" where
  "validate_source_refs raw [] = Inr ()"
| "validate_source_refs raw (s # ss) =
     (case record_by_id raw (sr_record_id s) of
        None \<Rightarrow> Inl (BaiError ''SOURCE_RECORD_MISSING'')
      | Some r \<Rightarrow>
          if rr_content_sha256 r \<noteq> sr_record_sha256 s then Inl (BaiError ''SOURCE_HASH_MISMATCH'')
          else validate_source_refs raw ss)"

fun validate_spans :: "raw_record list \<Rightarrow> coverage_span list \<Rightarrow> unit result" where
  "validate_spans raw [] = Inr ()"
| "validate_spans raw (s # ss) =
     (let expected = [cs_start_sequence s..cs_end_sequence s];
          actual = map (record_by_id raw) (cs_record_ids s)
      in if None \<in> set actual then Inl (BaiError ''SOURCE_RECORD_MISSING'')
         else if map (rr_global_sequence \<circ> the) actual \<noteq> expected
         then Inl (BaiError ''MEMORY_COVERAGE_INVALID'')
         else if map (rr_content_sha256 \<circ> the) actual \<noteq> cs_record_hashes s
         then Inl (BaiError ''SOURCE_HASH_MISMATCH'')
         else validate_spans raw ss)"

text \<open>The archive is read only when the document refers to it.\<close>

definition validate_sources ::
  "memory_env \<Rightarrow> memory_document \<Rightarrow> raw_record list option \<Rightarrow> world \<Rightarrow> unit result"
where
  "validate_sources env d raw_records w =
     (if md_memories d = [] \<and> co_spans (md_coverage_overview d) = [] then Inr ()
      else rbind (case raw_records of Some rs \<Rightarrow> Inr rs
                  | None \<Rightarrow> read_all (me_codec env) (w_segments w)) (\<lambda>raw.
           rbind (validate_source_refs raw (concat (map mi_source_refs (md_memories d)))) (\<lambda>_.
           validate_spans raw (co_spans (md_coverage_overview d)))))"

definition parse_bytes ::
  "memory_env \<Rightarrow> bytes \<Rightarrow> raw_record list option \<Rightarrow> world \<Rightarrow> memory_document result"
where
  "parse_bytes env payload raw_records w =
     (if length payload > sc_max_document_bytes (me_store env)
      then Inl (BaiError ''MEMORY_DOCUMENT_TOO_LARGE'')
      else (case Option.bind (cd_yaml_load (me_codec env) payload) (cd_document (me_codec env)) of
              None \<Rightarrow> Inl (BaiError ''MEMORY_DOCUMENT_INVALID'')
            | Some d \<Rightarrow>
                if \<not> memory_document_ok d then Inl (BaiError ''MEMORY_DOCUMENT_INVALID'')
                else if length (md_memories d) > sc_max_items (me_store env)
                then Inl (BaiError ''MEMORY_DOCUMENT_TOO_LARGE'')
                else if length (co_text (md_coverage_overview d)) > sc_max_overview_chars (me_store env)
                then Inl (BaiError ''MEMORY_OVERVIEW_TOO_LARGE'')
                else rbind (validate_sources env d raw_records w) (\<lambda>_. Inr d)))"

lemma validate_sources_segments:
  assumes "w_segments w' = w_segments w"
  shows "validate_sources env d raw w' = validate_sources env d raw w"
  unfolding validate_sources_def assms ..

lemma parse_bytes_segments:
  assumes "w_segments w' = w_segments w"
  shows "parse_bytes env p raw w' = parse_bytes env p raw w"
  unfolding parse_bytes_def validate_sources_segments [OF assms] ..

subsection \<open>Writing\<close>

text \<open>\<open>text.replace("\\r\\n", "\\n")\<close> on the rendered text.\<close>

fun drop_crlf :: "nat list \<Rightarrow> nat list" where
  "drop_crlf [] = []"
| "drop_crlf (c # s) = (if c = 13 \<and> take 1 s = [10] then drop_crlf s else c # drop_crlf s)"

text \<open>
  \<open>_render\<close>: the five keys are written over the mapping read from the existing file, when its layout
  is kept and it is a mapping, and over an empty one otherwise.
\<close>

definition render_root :: "json option \<Rightarrow> (pystr \<times> json) list \<Rightarrow> (pystr \<times> json) list" where
  "render_root root values =
     fold (\<lambda>(k, v) d. dict_set k v d) values (case root of Some (JObj d) \<Rightarrow> d | _ \<Rightarrow> [])"

definition document_fields :: "time_ser \<Rightarrow> memory_document \<Rightarrow> (pystr \<times> json) list" where
  "document_fields ser d = (case dump_document ser d of JObj kvs \<Rightarrow> kvs | _ \<Rightarrow> [])"

definition render :: "memory_env \<Rightarrow> memory_document \<Rightarrow> bool \<Rightarrow> world \<Rightarrow> bytes result" where
  "render env d preserve w =
     (let root = (if preserve then Option.bind (w_yaml w) (cd_yaml_load (me_codec env)) else None);
          payload = drop_crlf (cd_yaml_dump (me_codec env)
                      (case root of Some (JObj kvs) \<Rightarrow> root | _ \<Rightarrow> None)
                      (JObj (render_root root (document_fields (cd_ser (me_codec env)) d))))
      in if length payload > sc_max_document_bytes (me_store env)
         then Inl (BaiError ''MEMORY_DOCUMENT_TOO_LARGE'') else Inr payload)"

definition refresh_last_valid :: "bytes \<Rightarrow> (world, unit) op" where
  "refresh_last_valid payload w =
     (if w_last_valid w = Some payload then (Inr (), w)
      else durable (\<lambda>w. w\<lparr>w_last_valid := Some payload\<rparr>) w)"

text \<open>The checks of \<open>commit\<close> in order, up to the atomic write.\<close>

definition commit_checks :: "memory_env \<Rightarrow> memory_document \<Rightarrow> bool \<Rightarrow> world \<Rightarrow> bytes result" where
  "commit_checks env d preserve w =
     (if ls_read_only w then Inl (BaiError ''MEMORY_READ_ONLY_FALLBACK'')
      else if \<not> memory_document_ok d then Inl (BaiError ''MEMORY_DOCUMENT_INVALID'')
      else rbind (validate_sources env d None w) (\<lambda>_.
           rbind (rmap (\<lambda>m. ensure_safe (mi_text m)) (md_memories d)) (\<lambda>_.
           rbind (ensure_safe (co_text (md_coverage_overview d))) (\<lambda>_.
           if length (co_text (md_coverage_overview d)) > sc_max_overview_chars (me_store env)
           then Inl (BaiError ''MEMORY_OVERVIEW_TOO_LARGE'')
           else if \<exists>current h. w_yaml w = Some current \<and> ls_loaded_hash w = Some h \<and>
                     content_hash_bytes current \<noteq> h
           then Inl (BaiErrorRetryable ''CONCURRENT_MANUAL_EDIT'')
           else render env d preserve w))))"

definition ls_commit :: "memory_env \<Rightarrow> memory_document \<Rightarrow> bool \<Rightarrow> (world, memory_document) op" where
  "ls_commit env d preserve w =
     sbind (slift (commit_checks env d preserve w)) (\<lambda>payload.
     sbind (durable (\<lambda>w. w\<lparr>w_yaml := Some payload\<rparr>)) (\<lambda>_ w.
     sbind (refresh_last_valid payload) (\<lambda>_. sret d)
       (w\<lparr>ls_loaded_hash := Some (content_hash_bytes payload)\<rparr>))) w"

subsection \<open>Loading\<close>

text \<open>Items that differ from the recovery copy become manual, with the current time.\<close>

definition mark_manual :: "int \<Rightarrow> memory_document \<Rightarrow> memory_item list \<Rightarrow> memory_item list" where
  "mark_manual now previous ms =
     map (\<lambda>m. if map_option item_key (map_of (rev (map (\<lambda>x. (mi_memory_id x, x)) (md_memories previous)))
                  (mi_memory_id m)) \<noteq> Some (item_key m)
              then m\<lparr>mi_created_by := ByManual, mi_updated_at := Aware now 0\<rparr> else m) ms"

text \<open>The revision \<open>load\<close> writes for an external edit of the memories.\<close>

definition manual_revision :: "int \<Rightarrow> memory_document \<Rightarrow> memory_document \<Rightarrow> memory_document" where
  "manual_revision now previous d =
     \<lparr>md_schema_version = 1, md_revision = md_revision previous + 1,
      md_curation = md_curation previous,
      md_coverage_overview = (md_coverage_overview d)\<lparr>co_revision := md_revision previous + 1\<rparr>,
      md_memories = mark_manual now previous (md_memories d)\<rparr>"

definition memories_differ :: "memory_document \<Rightarrow> memory_document \<Rightarrow> bool" where
  "memories_differ a b \<longleftrightarrow> map item_key (md_memories a) \<noteq> map item_key (md_memories b)"

definition coverage_differs :: "memory_document \<Rightarrow> memory_document \<Rightarrow> bool" where
  "coverage_differs a b \<longleftrightarrow>
     checkpoint_key (md_curation a) \<noteq> checkpoint_key (md_curation b) \<or>
     co_spans (md_coverage_overview a) \<noteq> co_spans (md_coverage_overview b)"

definition load_finish :: "bytes \<Rightarrow> memory_document \<Rightarrow> (world, memory_document) op" where
  "load_finish payload d w =
     sbind (refresh_last_valid payload) (\<lambda>_. sret d)
       (w\<lparr>ls_read_only := False, ls_loaded_hash := Some (content_hash_bytes payload)\<rparr>)"

text \<open>
  The comparison with the recovery copy: a \<open>BaiError\<close> is raised again, any other exception is
  swallowed and the load goes on with the document at hand.
\<close>

definition load_compare ::
  "memory_env \<Rightarrow> int \<Rightarrow> raw_record list option \<Rightarrow> bytes \<Rightarrow> memory_document \<Rightarrow> bytes \<Rightarrow>
   (world, memory_document) op"
where
  "load_compare env now raw payload d previous_payload w =
     (if previous_payload = payload then load_finish payload d w
      else (case parse_bytes env previous_payload raw w of
              Inl e \<Rightarrow> (Inl e, w)
            | Inr previous \<Rightarrow>
                if \<not> memories_differ d previous then load_finish payload d w
                else if coverage_differs d previous then (Inl (BaiError ''MEMORY_DOCUMENT_INVALID''), w)
                else if \<not> document_level_ok (manual_revision now previous d)
                then load_finish payload d w
                else (case ls_commit env (manual_revision now previous d) True
                             (w\<lparr>ls_loaded_hash := Some (content_hash_bytes payload),
                                ls_read_only := False\<rparr>) of
                        (Inl e, w') \<Rightarrow>
                          if is_exception e \<and> \<not> is_bai e
                          then load_finish payload (manual_revision now previous d) w'
                          else (Inl e, w')
                      | (Inr d', w') \<Rightarrow> (Inr d', w'))))"

definition ls_load :: "memory_env \<Rightarrow> int \<Rightarrow> raw_record list option \<Rightarrow> (world, memory_document) op" where
  "ls_load env now raw w =
     (case (case w_yaml w of
              None \<Rightarrow> Inl OSExn
            | Some payload \<Rightarrow> rbind (parse_bytes env payload raw w) (\<lambda>d. Inr (payload, d))) of
        Inl e \<Rightarrow>
          (case w_last_valid w of
             None \<Rightarrow> (Inl (if is_bai e then e else BaiError ''MEMORY_DOCUMENT_INVALID''), w)
           | Some lv \<Rightarrow>
               (case parse_bytes env lv raw w of
                  Inl e' \<Rightarrow> (Inl e', w)
                | Inr d \<Rightarrow> (Inr d, w\<lparr>ls_read_only := True, ls_loaded_hash := None\<rparr>)))
      | Inr (payload, d) \<Rightarrow>
          (case w_last_valid w of
             None \<Rightarrow> load_finish payload d w
           | Some previous_payload \<Rightarrow> load_compare env now raw payload d previous_payload w))"

definition ls_initialize :: "memory_env \<Rightarrow> int \<Rightarrow> (world, memory_document) op" where
  "ls_initialize env now w =
     (if w_yaml w = None
      then sbind (slift (render env empty_document True w)) (\<lambda>payload.
           sbind (durable (\<lambda>w. w\<lparr>w_yaml := Some payload\<rparr>)) (\<lambda>_. ls_load env now None)) w
      else ls_load env now None w)"

definition publish_target ::
  "memory_env \<Rightarrow> int \<Rightarrow> int option \<Rightarrow> pystr option \<Rightarrow> memory_document \<Rightarrow> pystr option \<Rightarrow>
   (world, memory_document) op"
where
  "publish_target env now baseline_revision baseline_sha256 target target_sha256 w =
     (let ser = cd_ser (me_codec env); expected = document_identity ser target
      in if target_sha256 \<noteq> Some expected then (Inl (BaiError ''TURN_TRANSACTION_INVALID''), w)
         else sbind (ls_load env now None) (\<lambda>current.
           if document_identity ser current = expected then sret current
           else if Some (md_revision current) \<noteq> baseline_revision
                   \<or> Some (document_identity ser current) \<noteq> baseline_sha256
           then sfail (BaiError ''TURN_TRANSACTION_CONFLICT'')
           else ls_commit env target True) w)"


subsection \<open>The errors of a refused commit\<close>

definition plain_bai :: "exn \<Rightarrow> bool" where
  "plain_bai e \<longleftrightarrow> (\<exists>code retryable. e = Bai PlainBaiError code retryable)"

lemma plain_bai_intros [simp]: "plain_bai (BaiError c)" "plain_bai (BaiErrorRetryable c)"
  by (auto simp: plain_bai_def exn_defs)

lemma read_lines_error: "read_lines cd ls rs = Inl e \<Longrightarrow> plain_bai e"
  by (induction cd ls rs rule: read_lines.induct) (auto split: option.splits if_splits)

lemma read_segments_error: "read_segments cd n segs rs = Inl e \<Longrightarrow> plain_bai e"
  by (induction cd n segs rs rule: read_segments.induct)
    (auto simp: rbind_Inl_iff dest: read_lines_error split: if_splits)

lemma validate_source_refs_error: "validate_source_refs rs ss = Inl e \<Longrightarrow> plain_bai e"
  by (induction ss) (auto split: option.splits if_splits)

lemma validate_spans_error: "validate_spans rs ss = Inl e \<Longrightarrow> plain_bai e"
  by (induction ss) (auto simp: Let_def split: if_splits)

lemma validate_sources_error: "validate_sources env d raw w = Inl e \<Longrightarrow> plain_bai e"
  by (auto simp: validate_sources_def rbind_Inl_iff read_all_def dest: read_segments_error
      validate_source_refs_error validate_spans_error split: if_splits option.splits)

lemma rmap_ensure_safe_error: "rmap (\<lambda>m. ensure_safe (f m)) ms = Inl e \<Longrightarrow> plain_bai e"
  by (induction ms) (auto simp: rbind_Inl_iff)

lemma commit_checks_error: "commit_checks env d preserve w = Inl e \<Longrightarrow> plain_bai e"
  by (auto simp: commit_checks_def rbind_Inl_iff render_def Let_def dest: validate_sources_error
      rmap_ensure_safe_error split: if_splits)

end
