(* ===== verification/Transaction.thy ===== *)
theory Transaction
  imports LongTerm
begin

text \<open>
  \<open>memory/transaction.py\<close>: the three-state journal of a turn, and the archive operations that
  publish it (\<open>append_pending_user\<close>, \<open>append_complete_turn\<close> of \<open>memory/archive.py\<close>).

  PREPARED is discarded on recovery; READY_PENDING and READY_TO_COMMIT are decided and only rolled
  forward. The main result is crash recovery: a process that dies at any durable write of \<open>commit\<close>
  and recovers leaves the same records, document and journal as an uninterrupted commit.
\<close>

subsection \<open>Publishing records\<close>

text \<open>\<open>RawRecordArchive.append\<close>: the atomic write of the segment ends the operation.\<close>

definition archive_append ::
  "memory_env \<Rightarrow> role \<Rightarrow> pystr \<Rightarrow> pystr \<Rightarrow> pystr \<Rightarrow> pystr \<Rightarrow> pystr option \<Rightarrow> py_datetime option \<Rightarrow>
   pystr \<Rightarrow> int \<Rightarrow> (world, raw_record) op"
where
  "archive_append env role content turn_id state_id revision record_id created_at uuid now w =
     sbind (slift (append_record (me_codec env) (me_archive env) role content turn_id state_id revision
               record_id created_at uuid now (w_segments w))) (\<lambda>(record, number, payload).
     sbind (durable (\<lambda>w. w\<lparr>w_segments := write_segment number payload (w_segments w)\<rparr>)) (\<lambda>_.
     sret record)) w"

text \<open>The arguments with which a journal record is appended.\<close>

definition append_journal_record :: "memory_env \<Rightarrow> role \<Rightarrow> raw_record \<Rightarrow> (world, raw_record) op" where
  "append_journal_record env role r =
     archive_append env role (rr_content r) (rr_turn_id r) (rr_state_id r) (rr_config_revision r)
       (Some (rr_record_id r)) (Some (Aware (rr_created_at r) 0)) [] 0"

text \<open>A Python dict by identifier keeps the last record, \<open>next(...)\<close> the first.\<close>

definition append_pending_user :: "memory_env \<Rightarrow> raw_record \<Rightarrow> pystr \<Rightarrow> (world, raw_record) op" where
  "append_pending_user env record checkpoint_hash w =
     sbind (slift (read_all (me_codec env) (w_segments w))) (\<lambda>records.
     case List.find (\<lambda>x. rr_record_id x = rr_record_id record) records of
       Some existing \<Rightarrow>
         if rr_role existing \<noteq> RoleUser \<or> rr_turn_id existing \<noteq> rr_turn_id record
            \<or> rr_content_sha256 existing \<noteq> rr_content_sha256 record
         then sfail (BaiError ''TURN_TRANSACTION_CONFLICT'') else sret existing
     | None \<Rightarrow>
         if identity_hash records \<noteq> checkpoint_hash
         then sfail (BaiError ''TURN_TRANSACTION_CONFLICT'')
         else append_journal_record env RoleUser record) w"

definition append_complete_turn ::
  "memory_env \<Rightarrow> raw_record \<Rightarrow> raw_record \<Rightarrow> pystr \<Rightarrow> (world, raw_record \<times> raw_record) op"
where
  "append_complete_turn env user assistant checkpoint_hash w =
     sbind (slift (read_all (me_codec env) (w_segments w))) (\<lambda>records.
     sbind (case record_by_id records (rr_record_id user) of
              None \<Rightarrow>
                if identity_hash records \<noteq> checkpoint_hash
                then sfail (BaiError ''TURN_TRANSACTION_CONFLICT'')
                else sbind (append_journal_record env RoleUser user) (\<lambda>published w.
                       sbind (slift (read_all (me_codec env) (w_segments w))) (\<lambda>records.
                         sret (published, records)) w)
            | Some published \<Rightarrow>
                if rr_role published \<noteq> RoleUser
                   \<or> rr_content_sha256 published \<noteq> rr_content_sha256 user
                then sfail (BaiError ''TURN_TRANSACTION_CONFLICT'') else sret (published, records))
       (\<lambda>(published_user, records).
     case record_by_id records (rr_record_id assistant) of
       None \<Rightarrow>
         if records = [] \<or> rr_record_id (last records) \<noteq> rr_record_id published_user
         then sfail (BaiError ''TURN_TRANSACTION_CONFLICT'')
         else sbind (append_journal_record env RoleAssistant assistant) (\<lambda>published.
                sret (published_user, published))
     | Some published \<Rightarrow>
         if rr_role published \<noteq> RoleAssistant
            \<or> rr_content_sha256 published \<noteq> rr_content_sha256 assistant
         then sfail (BaiError ''TURN_TRANSACTION_CONFLICT'')
         else sret (published_user, published))) w"

subsection \<open>The journal\<close>

text \<open>
  \<open>_load\<close>: every failure of the block, the two permission checks included, becomes
  \<open>TURN_TRANSACTION_INVALID\<close>. A file that does not decode is a text \<open>cd_journal\<close> rejects.
\<close>

definition tx_load :: "memory_env \<Rightarrow> bool \<Rightarrow> world \<Rightarrow> turn_journal option result" where
  "tx_load env required w =
     (case w_journal w of
        None \<Rightarrow> if required then Inl (BaiError ''TURN_TRANSACTION_MISSING'') else Inr None
      | Some payload \<Rightarrow>
          if \<not> w_private w \<or> \<not> is_ok (ensure_safe payload)
          then Inl (BaiError ''TURN_TRANSACTION_INVALID'')
          else (case cd_journal (me_codec env) (utf8 payload) of
                  Some j \<Rightarrow>
                    if turn_journal_ok j then Inr (Some j)
                    else Inl (BaiError ''TURN_TRANSACTION_INVALID'')
                | None \<Rightarrow> Inl (BaiError ''TURN_TRANSACTION_INVALID'')))"

definition journal_text :: "memory_env \<Rightarrow> turn_journal \<Rightarrow> pystr" where
  "journal_text env j = canonical_json (dump_journal (cd_ser (me_codec env)) j) @ [10]"

definition tx_write :: "memory_env \<Rightarrow> turn_journal \<Rightarrow> (world, unit) op" where
  "tx_write env j w =
     sbind (slift (ensure_safe (journal_text env j))) (\<lambda>payload.
     sbind (durable (\<lambda>w. w\<lparr>w_journal := Some payload\<rparr>)) (\<lambda>_ w.
       (if w_private w then Inr () else Inl (BaiError ''TURN_TRANSACTION_PERMISSION_INVALID''), w))) w"

definition tx_unlink :: "(world, unit) op" where
  "tx_unlink = durable (\<lambda>w. w\<lparr>w_journal := None\<rparr>)"

definition tx_begin ::
  "memory_env \<Rightarrow> pystr \<Rightarrow> pre_turn_checkpoint \<Rightarrow> raw_record \<Rightarrow> (world, unit) op"
where
  "tx_begin env uuid checkpoint user w =
     sbind (slift (tx_load env False w)) (\<lambda>journal.
     if journal \<noteq> None then sfail (BaiError ''TURN_TRANSACTION_ACTIVE'')
     else if rr_role user \<noteq> RoleUser then sfail (BaiError ''TURN_TRANSACTION_INVALID'')
     else sbind (slift (validated turn_journal_ok
            \<lparr>tj_schema_version = 1, tj_state = Prepared, tj_transaction_id = u ''tx-'' @ uuid,
             tj_turn_id = rr_turn_id user, tj_checkpoint = checkpoint, tj_user = user,
             tj_failure_code = None, tj_assistant = None, tj_target = None,
             tj_target_sha256 = None\<rparr>)) (tx_write env)) w"

definition tx_discard :: "memory_env \<Rightarrow> (world, unit) op" where
  "tx_discard env w =
     sbind (slift (tx_load env True w)) (\<lambda>journal.
     case journal of
       None \<Rightarrow> sfail (BaiError ''TURN_TRANSACTION_MISSING'')
     | Some j \<Rightarrow>
         if tj_state j \<noteq> Prepared then sfail (BaiError ''TURN_TRANSACTION_STATE'') else tx_unlink) w"

text \<open>\<open>model_copy(update=...)\<close> runs no validator.\<close>

definition tx_pending :: "memory_env \<Rightarrow> pystr \<Rightarrow> (world, unit) op" where
  "tx_pending env failure_code w =
     sbind (slift (tx_load env True w)) (\<lambda>journal.
     case journal of
       None \<Rightarrow> sfail (BaiError ''TURN_TRANSACTION_MISSING'')
     | Some j \<Rightarrow>
         if tj_state j \<noteq> Prepared then sfail (BaiError ''TURN_TRANSACTION_STATE'')
         else if failure_code = [] \<or> \<not> list_all (\<lambda>c. \<not> is_space c) failure_code
         then sfail (BaiError ''TURN_TRANSACTION_INVALID'')
         else tx_write env (j\<lparr>tj_state := ReadyPending, tj_failure_code := Some failure_code\<rparr>)) w"

definition tx_ready ::
  "memory_env \<Rightarrow> raw_record \<Rightarrow> memory_document option \<Rightarrow> (world, unit) op"
where
  "tx_ready env assistant target w =
     sbind (slift (tx_load env True w)) (\<lambda>journal.
     case journal of
       None \<Rightarrow> sfail (BaiError ''TURN_TRANSACTION_MISSING'')
     | Some j \<Rightarrow>
         if tj_state j \<noteq> Prepared \<or> rr_turn_id assistant \<noteq> tj_turn_id j
         then sfail (BaiError ''TURN_TRANSACTION_STATE'')
         else tx_write env
                (j\<lparr>tj_state := ReadyToCommit, tj_assistant := Some assistant,
                   tj_target := map_option (dump_document (cd_ser (me_codec env))) target,
                   tj_target_sha256 := map_option (document_identity (cd_ser (me_codec env))) target\<rparr>)) w"

text \<open>The publication of the long-term target: the dict is validated again.\<close>

definition publish_journal_target :: "memory_env \<Rightarrow> int \<Rightarrow> turn_journal \<Rightarrow> (world, unit) op" where
  "publish_journal_target env now j =
     (case tj_target j of
        None \<Rightarrow> sret ()
      | Some dict \<Rightarrow>
          if \<not> me_has_store env then sfail (BaiError ''TURN_TRANSACTION_INVALID'')
          else (case cd_document (me_codec env) dict of
             Some target \<Rightarrow>
               if memory_document_ok target
               then sbind (publish_target env now (pc_long_term_revision (tj_checkpoint j))
                      (pc_long_term_sha256 (tj_checkpoint j)) target (tj_target_sha256 j)) (\<lambda>_. sret ())
               else sfail ValidationExn
           | None \<Rightarrow> sfail ValidationExn))"

definition tx_commit :: "memory_env \<Rightarrow> int \<Rightarrow> (world, unit) op" where
  "tx_commit env now w =
     sbind (slift (tx_load env False w)) (\<lambda>journal.
     case journal of
       None \<Rightarrow> sret ()
     | Some j \<Rightarrow>
         sbind (case tj_state j of
                  Prepared \<Rightarrow> sfail (BaiError ''TURN_TRANSACTION_STATE'')
                | ReadyPending \<Rightarrow>
                    sbind (append_pending_user env (tj_user j) (pc_raw_sha256 (tj_checkpoint j))) (\<lambda>_. sret ())
                | ReadyToCommit \<Rightarrow>
                    (case tj_assistant j of
                       None \<Rightarrow> sfail AssertionExn
                     | Some a \<Rightarrow>
                         sbind (append_complete_turn env (tj_user j) a (pc_raw_sha256 (tj_checkpoint j)))
                           (\<lambda>_. publish_journal_target env now j)))
           (\<lambda>_. tx_unlink)) w"

definition tx_recover :: "memory_env \<Rightarrow> int \<Rightarrow> (world, unit) op" where
  "tx_recover env now w =
     sbind (slift (tx_load env False w)) (\<lambda>journal.
     case journal of
       None \<Rightarrow> sret ()
     | Some j \<Rightarrow> if tj_state j = Prepared then tx_unlink else tx_commit env now) w"


subsection \<open>Operations as series of durable writes\<close>

type_synonym files = "segments \<times> bytes option \<times> bytes option \<times> pystr option"

definition files :: "world \<Rightarrow> files" where
  "files w = (w_segments w, w_yaml w, w_last_valid w, w_journal w)"

text \<open>
  \<open>performs m w fs x\<close>: run from \<open>w\<close>, the operation drives the files through the states \<open>fs\<close>, one
  durable write each, and returns \<open>x\<close>; with a smaller budget it stops in the state the budget
  reaches, with the fault. The in-memory fields are left open.
\<close>

definition performs :: "(world, 'a) op \<Rightarrow> world \<Rightarrow> files list \<Rightarrow> 'a \<Rightarrow> bool" where
  "performs m w fs x \<longleftrightarrow>
     (\<exists>r w'. m w = (r, w') \<and> w_private w' = w_private w \<and> w_fault w' = w_fault w \<and>
        (if length fs \<le> w_budget w
         then r = Inr x \<and> files w' = last (files w # fs) \<and> w_budget w' = w_budget w - length fs
         else r = Inl (w_fault w) \<and> files w' = (files w # fs) ! w_budget w \<and> w_budget w' = 0))"

lemma performs_ret: "m w = (Inr x, w) \<Longrightarrow> performs m w [] x"
  by (simp add: performs_def)

lemma performs_sbind:
  assumes "performs m w fs x"
    and "\<And>w'. w_private w' = w_private w \<Longrightarrow> w_fault w' = w_fault w \<Longrightarrow>
           files w' = last (files w # fs) \<Longrightarrow> performs (f x) w' gs y"
  shows "performs (sbind m f) w (fs @ gs) y"
proof -
  from assms(1) obtain r w' where m: "m w = (r, w')" "w_private w' = w_private w" "w_fault w' = w_fault w"
    and r: "if length fs \<le> w_budget w
         then r = Inr x \<and> files w' = last (files w # fs) \<and> w_budget w' = w_budget w - length fs
         else r = Inl (w_fault w) \<and> files w' = (files w # fs) ! w_budget w \<and> w_budget w' = 0"
    by (auto simp: performs_def)
  show ?thesis
  proof (cases "length fs \<le> w_budget w")
    case False
    with m r show ?thesis
      by (auto simp: performs_def nth_append nth_Cons split: nat.splits)
  next
    case True
    with r have x: "r = Inr x" "files w' = last (files w # fs)" "w_budget w' = w_budget w - length fs"
      by auto
    from assms(2) [OF m(2,3) x(2)] obtain r2 w2 where m2: "f x w' = (r2, w2)" "w_private w2 = w_private w'"
      "w_fault w2 = w_fault w'"
      and r2: "if length gs \<le> w_budget w'
         then r2 = Inr y \<and> files w2 = last (files w' # gs) \<and> w_budget w2 = w_budget w' - length gs
         else r2 = Inl (w_fault w') \<and> files w2 = (files w' # gs) ! w_budget w' \<and> w_budget w2 = 0"
      by (auto simp: performs_def)
    have bind: "sbind m f w = (r2, w2)" using m(1) x(1) m2(1) by simp
    show ?thesis
    proof (cases "length gs \<le> w_budget w'")
      case True
      then have "files w2 = last (files w # fs @ gs)" using r2 x(2) by simp
      with True bind m m2 r2 x \<open>length fs \<le> w_budget w\<close> show ?thesis
        by (auto simp: performs_def)
    next
      case False
      have "(files w # fs @ gs) ! w_budget w = (files w' # gs) ! w_budget w'"
      proof (cases "w_budget w'")
        case 0
        with x(3) True have "w_budget w = length fs" by simp
        with 0 x(2) show ?thesis by (simp add: last_conv_nth nth_append nth_Cons' split: nat.splits)
      next
        case (Suc k)
        with x(3) True have "w_budget w = Suc (length fs + k)" by simp
        with Suc show ?thesis by (simp add: nth_append)
      qed
      with False bind m m2 r2 x \<open>length fs \<le> w_budget w\<close> show ?thesis
        by (auto simp: performs_def)
    qed
  qed
qed

lemma performs_cong: "m w = m' w \<Longrightarrow> performs m' w fs x \<Longrightarrow> performs m w fs x"
  by (simp add: performs_def)

text \<open>The in-memory fields do not matter.\<close>

lemma performs_memory:
  assumes "performs m w fs x" and "m' w' = m w" and "files w' = files w"
    and "w_budget w' = w_budget w" "w_fault w' = w_fault w" "w_private w' = w_private w"
  shows "performs m' w' fs x"
  using assms(1) unfolding performs_def assms(2-6) .

lemma performs_durable:
  assumes "w_private (f w) = w_private w" "w_fault (f w) = w_fault w" "files (f w) = F"
  shows "performs (durable f) w [F] ()"
  using assms by (auto simp: performs_def durable_def files_def)

lemma performs_sbind_slift:
  "r = Inr x \<Longrightarrow> performs (f x) w fs y \<Longrightarrow> performs (sbind (slift r) f) w fs y"
  by (simp add: performs_def)

lemma performs_unlink:
  "performs tx_unlink w [(w_segments w, w_yaml w, w_last_valid w, None)] ()"
  unfolding tx_unlink_def by (rule performs_durable) (simp_all add: files_def)

subsection \<open>Publishing a complete turn\<close>

text \<open>A record that \<open>append\<close> accepts as the next one and that it writes out unchanged.\<close>

definition publishable :: "memory_env \<Rightarrow> raw_record list \<Rightarrow> raw_record \<Rightarrow> bool" where
  "publishable env rs r \<longleftrightarrow>
     next_record_ok rs r \<and> rr_schema_version r = 1 \<and> safe_text (rr_content r) \<and>
     length (record_line (me_codec env) r) \<le> ac_max_record_bytes (me_archive env) \<and>
     codec_record (me_codec env) r"

abbreviation put :: "memory_env \<Rightarrow> raw_record \<Rightarrow> segments \<Rightarrow> segments" where
  "put env \<equiv> put_record (me_codec env) (me_archive env)"

lemma raw_record_id_neq_Nil: "raw_record_ok r \<Longrightarrow> rr_record_id r \<noteq> []"
  by (auto simp: raw_record_ok_def validate_prefixed_uuid_def startswith_def u_Cons)

lemma append_record_publishable:
  assumes "read_all (me_codec env) segs = Inr rs" and "publishable env rs r"
  shows "\<exists>n p. append_record (me_codec env) (me_archive env) (rr_role r) (rr_content r) (rr_turn_id r)
      (rr_state_id r) (rr_config_revision r) (Some (rr_record_id r)) (Some (Aware (rr_created_at r) 0))
      [] 0 segs = Inr (r, n, p) \<and> write_segment n p segs = put env r segs"
proof -
  have ok: "next_record_ok rs r" using assms(2) by (simp add: publishable_def)
  then have fresh: "\<not> (\<exists>x\<in>set rs. rr_turn_id x = rr_turn_id r \<and> rr_role x = rr_role r)"
    by (auto simp: next_record_ok_def image_iff)
  have create: "create_raw_record (rr_record_id r) (int (length rs) + 1) (rr_turn_id r) (rr_role r)
      (rr_content r) (Aware (rr_created_at r) 0) (rr_state_id r) (rr_config_revision r) = Inr r"
    using ok assms(2) by (auto simp: create_raw_record_cases next_record_ok_def raw_record_ok_def
        publishable_def)
  let ?t = "append_target (me_archive env) segs (record_line (me_codec env) r)"
  have "append_record (me_codec env) (me_archive env) (rr_role r) (rr_content r) (rr_turn_id r)
      (rr_state_id r) (rr_config_revision r) (Some (rr_record_id r)) (Some (Aware (rr_created_at r) 0))
      [] 0 segs = Inr (r, fst ?t, snd ?t @ record_line (me_codec env) r)"
    unfolding append_record_Inr_iff
    using assms fresh create raw_record_id_neq_Nil [of r] ok
    by (auto simp: publishable_def falsy_def next_record_ok_def)
  with append_record_writes show ?thesis by blast
qed

lemma performs_append:
  assumes "read_all (me_codec env) (w_segments w) = Inr rs" and "publishable env rs r" and "role = rr_role r"
  shows "performs (append_journal_record env role r) w
    [(put env r (w_segments w), w_yaml w, w_last_valid w, w_journal w)] r"
proof -
  obtain n p where app: "append_record (me_codec env) (me_archive env) (rr_role r) (rr_content r) (rr_turn_id r)
      (rr_state_id r) (rr_config_revision r) (Some (rr_record_id r)) (Some (Aware (rr_created_at r) 0))
      [] 0 (w_segments w) = Inr (r, n, p)" "write_segment n p (w_segments w) = put env r (w_segments w)"
    using append_record_publishable [OF assms(1,2)] by auto
  have eq: "append_journal_record env role r w =
      sbind (durable (\<lambda>w. w\<lparr>w_segments := write_segment n p (w_segments w)\<rparr>)) (\<lambda>_. sret r) w"
    by (simp add: append_journal_record_def archive_append_def assms(3) app(1) sbind_def)
  have "performs (sbind (durable (\<lambda>w. w\<lparr>w_segments := write_segment n p (w_segments w)\<rparr>)) (\<lambda>_. sret r)) w
      ([(put env r (w_segments w), w_yaml w, w_last_valid w, w_journal w)] @ []) r"
    by (rule performs_sbind [OF performs_durable]) (simp_all add: files_def app(2) performs_ret)
  then have "performs (sbind (durable (\<lambda>w. w\<lparr>w_segments := write_segment n p (w_segments w)\<rparr>)) (\<lambda>_. sret r)) w
      [(put env r (w_segments w), w_yaml w, w_last_valid w, w_journal w)] r" by simp
  then show ?thesis unfolding performs_def eq .
qed


lemma record_by_id_unique:
  assumes "distinct (map rr_record_id rs)" and "r \<in> set rs"
  shows "record_by_id rs (rr_record_id r) = Some r"
  unfolding record_by_id_def
proof (rule map_of_is_SomeI)
  show "distinct (map fst (rev (map (\<lambda>r. (rr_record_id r, r)) rs)))"
    using assms(1) by (simp add: rev_map [symmetric] comp_def)
  show "(rr_record_id r, r) \<in> set (rev (map (\<lambda>r. (rr_record_id r, r)) rs))"
    using assms(2) by auto
qed

lemma record_by_id_None_iff: "record_by_id rs i = None \<longleftrightarrow> i \<notin> rr_record_id ` set rs"
  by (auto simp: record_by_id_def map_of_eq_None_iff image_image)

text \<open>The archive of a turn in publication: no record, the USER, both.\<close>

definition turn_archive :: "memory_env \<Rightarrow> raw_record \<Rightarrow> raw_record \<Rightarrow> segments \<Rightarrow> segments list" where
  "turn_archive env user assistant segs =
     [segs, put env user segs, put env assistant (put env user segs)]"

lemma turn_archive_contents:
  assumes "read_all (me_codec env) segs = Inr rs"
    and "publishable env rs user" and "publishable env (rs @ [user]) assistant"
  shows "read_all (me_codec env) (put env user segs) = Inr (rs @ [user])"
    and "read_all (me_codec env) (put env assistant (put env user segs)) = Inr (rs @ [user, assistant])"
proof -
  show *: "read_all (me_codec env) (put env user segs) = Inr (rs @ [user])"
    using assms(1,2) by (intro archive_log.contents_push) (auto simp: publishable_def)
  show "read_all (me_codec env) (put env assistant (put env user segs)) = Inr (rs @ [user, assistant])"
    using assms by (intro archive_log.contents_push_two) (auto simp: publishable_def)
qed

lemma performs_complete_turn:
  assumes segs: "read_all (me_codec env) segs = Inr rs"
    and pub: "publishable env rs user" "publishable env (rs @ [user]) assistant"
    and roles: "rr_role user = RoleUser" "rr_role assistant = RoleAssistant"
    and hash: "h = identity_hash rs"
    and phase: "p \<le> 2" "w_segments w = turn_archive env user assistant segs ! p"
  shows "performs (append_complete_turn env user assistant h) w
    (map (\<lambda>S. (S, w_yaml w, w_last_valid w, w_journal w)) (drop (p + 1) (turn_archive env user assistant segs)))
    (user, assistant)"
proof -
  let ?cd = "me_codec env"
  let ?S1 = "put env user segs" and ?S2 = "put env assistant (put env user segs)"
  note contents = turn_archive_contents [OF segs pub]
  have log: "log_ok rs" "log_ok (rs @ [user])" "log_ok (rs @ [user, assistant])"
    using read_all_log_ok segs contents by blast+
  then have dist: "distinct (map rr_record_id (rs @ [user, assistant]))" by (simp add: log_ok_def)
  then have ids: "record_by_id rs (rr_record_id user) = None"
    "record_by_id (rs @ [user]) (rr_record_id user) = Some user"
    "record_by_id (rs @ [user]) (rr_record_id assistant) = None"
    "record_by_id (rs @ [user, assistant]) (rr_record_id user) = Some user"
    "record_by_id (rs @ [user, assistant]) (rr_record_id assistant) = Some assistant"
    using log(2,3) by (auto simp: record_by_id_None_iff log_ok_def intro!: record_by_id_unique)
  define second where "second = (\<lambda>(published_user :: raw_record, records).
     case record_by_id records (rr_record_id assistant) of
       None \<Rightarrow>
         if records = [] \<or> rr_record_id (last records) \<noteq> rr_record_id published_user
         then sfail (BaiError ''TURN_TRANSACTION_CONFLICT'')
         else sbind (append_journal_record env RoleAssistant assistant) (\<lambda>published.
                sret (published_user, published))
     | Some published \<Rightarrow>
         if rr_role published \<noteq> RoleAssistant
            \<or> rr_content_sha256 published \<noteq> rr_content_sha256 assistant
         then sfail (BaiError ''TURN_TRANSACTION_CONFLICT'')
         else sret (published_user, published))"
  have second: "performs (second (user, rs @ [user])) w'
      [(?S2, w_yaml w', w_last_valid w', w_journal w')] (user, assistant)"
    if "w_segments w' = ?S1" for w'
  proof -
    have "performs (append_journal_record env RoleAssistant assistant) w'
        [(?S2, w_yaml w', w_last_valid w', w_journal w')] assistant"
      using performs_append [of env w' "rs @ [user]" assistant RoleAssistant] that contents(1) pub(2) roles
      by simp
    then have "performs (sbind (append_journal_record env RoleAssistant assistant)
        (\<lambda>published. sret (user, published))) w'
        ([(?S2, w_yaml w', w_last_valid w', w_journal w')] @ []) (user, assistant)"
      by (rule performs_sbind) (simp add: performs_ret)
    then show ?thesis using ids by (simp add: second_def)
  qed
  consider "p = 0" | "p = 1" | "p = 2" using phase(1) by linarith
  then show ?thesis
  proof cases
    case 1
    then have w: "w_segments w = segs" using phase(2) by (simp add: turn_archive_def)
    define first where "first = sbind (append_journal_record env RoleUser user) (\<lambda>published w.
        sbind (slift (read_all ?cd (w_segments w))) (\<lambda>records. sret (published, records)) w)"
    have "performs (append_journal_record env RoleUser user) w
        [(?S1, w_yaml w, w_last_valid w, w_journal w)] user"
      using performs_append [of env w rs user RoleUser] w segs pub(1) roles by simp
    then have "performs first w ([(?S1, w_yaml w, w_last_valid w, w_journal w)] @ []) (user, rs @ [user])"
      unfolding first_def
      by (rule performs_sbind) (auto simp: files_def contents(1) intro!: performs_ret)
    then have "performs (sbind first second) w (([(?S1, w_yaml w, w_last_valid w, w_journal w)] @ []) @
        [(?S2, w_yaml w, w_last_valid w, w_journal w)]) (user, assistant)"
    proof (rule performs_sbind)
      fix w'
      assume "files w' = last (files w # [(?S1, w_yaml w, w_last_valid w, w_journal w)] @ [])"
      then have "w_segments w' = ?S1" "w_yaml w' = w_yaml w" "w_last_valid w' = w_last_valid w"
        "w_journal w' = w_journal w" by (simp_all add: files_def)
      with second [of w'] show "performs (second (user, rs @ [user])) w'
          [(?S2, w_yaml w, w_last_valid w, w_journal w)] (user, assistant)" by simp
    qed
    moreover have "append_complete_turn env user assistant h w = sbind first second w"
      by (simp add: append_complete_turn_def w segs ids hash first_def second_def)
    ultimately show ?thesis
      using 1 by (simp add: performs_def turn_archive_def)
  next
    case 2
    then have w: "w_segments w = ?S1" using phase(2) by (simp add: turn_archive_def)
    have "append_complete_turn env user assistant h w = second (user, rs @ [user]) w"
      by (simp add: append_complete_turn_def w contents(1) ids roles second_def)
    with second [OF w] 2 show ?thesis
      by (simp add: performs_def turn_archive_def)
  next
    case 3
    then have w: "w_segments w = ?S2" using phase(2) by (simp add: turn_archive_def)
    have "append_complete_turn env user assistant h w = (Inr (user, assistant), w)"
      by (simp add: append_complete_turn_def w contents(2) ids roles)
    with 3 show ?thesis
      by (simp add: performs_ret turn_archive_def)
  qed
qed


subsection \<open>Publishing the long-term target\<close>

text \<open>More records never invalidate the sources of a document.\<close>

lemma record_by_id_append:
  assumes "distinct (map rr_record_id (rs @ xs))" and "record_by_id rs i = Some r"
  shows "record_by_id (rs @ xs) i = Some r"
proof -
  from assms(2) have "r \<in> set rs" "rr_record_id r = i"
    by (auto simp: record_by_id_def dest!: map_of_SomeD)
  with record_by_id_unique [OF assms(1), of r] show ?thesis by auto
qed

lemma validate_source_refs_mono:
  assumes "distinct (map rr_record_id (rs @ xs))"
  shows "validate_source_refs rs ss = Inr () \<Longrightarrow> validate_source_refs (rs @ xs) ss = Inr ()"
  by (induction ss)
    (use record_by_id_append [OF assms] in \<open>auto split: option.splits if_splits\<close>)

lemma validate_spans_mono:
  assumes "distinct (map rr_record_id (rs @ xs))"
  shows "validate_spans rs ss = Inr () \<Longrightarrow> validate_spans (rs @ xs) ss = Inr ()"
proof (induction ss)
  case Nil
  then show ?case by simp
next
  case (Cons s ss)
  then have "None \<notin> set (map (record_by_id rs) (cs_record_ids s))"
    and rest: "validate_spans rs ss = Inr ()"
    by (auto simp: Let_def split: if_splits)
  then have "\<forall>i\<in>set (cs_record_ids s). \<exists>r. record_by_id rs i = Some r" by force
  then have eq: "map (record_by_id (rs @ xs)) (cs_record_ids s) = map (record_by_id rs) (cs_record_ids s)"
    using record_by_id_append [OF assms] by fastforce
  show ?case
    unfolding validate_spans.simps eq Let_def
    using Cons.prems Cons.IH [OF rest] by (auto simp: Let_def simp del: map_map split: if_splits)
qed

definition extends_archive :: "memory_env \<Rightarrow> world \<Rightarrow> world \<Rightarrow> bool" where
  "extends_archive env w w' \<longleftrightarrow>
     (\<exists>rs xs. read_all (me_codec env) (w_segments w) = Inr rs \<and>
        read_all (me_codec env) (w_segments w') = Inr (rs @ xs))"

lemma validate_sources_mono:
  assumes "extends_archive env w w'" and "validate_sources env d None w = Inr ()"
  shows "validate_sources env d None w' = Inr ()"
proof -
  from assms(1) obtain rs xs where rs: "read_all (me_codec env) (w_segments w) = Inr rs"
    "read_all (me_codec env) (w_segments w') = Inr (rs @ xs)" by (auto simp: extends_archive_def)
  have dist: "distinct (map rr_record_id (rs @ xs))"
    using read_all_log_ok [OF rs(2)] by (simp add: log_ok_def)
  from assms(2) rs show ?thesis
    using validate_source_refs_mono [OF dist] validate_spans_mono [OF dist]
    by (auto simp: validate_sources_def rbind_Inr_iff)
qed

lemma parse_bytes_mono:
  assumes "extends_archive env w w'" and "parse_bytes env p None w = Inr d"
  shows "parse_bytes env p None w' = Inr d"
  using assms validate_sources_mono [OF assms(1)]
  by (auto simp: parse_bytes_def rbind_Inr_iff if_Inl_iff split: option.splits)

lemma commit_checks_mono:
  assumes "extends_archive env w w'" and "commit_checks env d b w = Inr p"
    and "w_yaml w' = w_yaml w" "ls_read_only w' = ls_read_only w" "ls_loaded_hash w' = ls_loaded_hash w"
  shows "commit_checks env d b w' = Inr p"
proof -
  have "render env d b w' = render env d b w"
    unfolding render_def assms(3) ..
  with assms validate_sources_mono [OF assms(1)] show ?thesis
    by (auto simp: commit_checks_def rbind_Inr_iff if_Inl_iff)
qed

text \<open>
  The journal carries a revised document \<open>t\<close>, to be written as \<open>y1\<close>; the main file and its recovery
  copy hold the baseline \<open>d0\<close> as \<open>y0\<close>.
\<close>

definition target_ready ::
  "memory_env \<Rightarrow> world \<Rightarrow> turn_journal \<Rightarrow> memory_document \<Rightarrow> bytes \<Rightarrow> memory_document \<Rightarrow> bytes \<Rightarrow> bool"
where
  "target_ready env w j d0 y0 t y1 \<longleftrightarrow>
     (let ser = cd_ser (me_codec env) in
      me_has_store env \<and>
      tj_target j = Some (dump_document ser t) \<and>
      tj_target_sha256 j = Some (document_identity ser t) \<and>
      cd_document (me_codec env) (dump_document ser t) = Some t \<and>
      memory_document_ok t \<and>
      pc_long_term_revision (tj_checkpoint j) = Some (md_revision d0) \<and>
      pc_long_term_sha256 (tj_checkpoint j) = Some (document_identity ser d0) \<and>
      document_identity ser d0 \<noteq> document_identity ser t \<and>
      w_yaml w = Some y0 \<and> w_last_valid w = Some y0 \<and>
      parse_bytes env y0 None w = Inr d0 \<and> parse_bytes env y1 None w = Inr t \<and>
      commit_checks env t True (w\<lparr>ls_read_only := False, ls_loaded_hash := Some (content_hash_bytes y0)\<rparr>)
        = Inr y1)"

lemma ls_load_unchanged:
  assumes "w_yaml w = Some y" "w_last_valid w = Some y" "parse_bytes env y raw w = Inr d"
  shows "ls_load env now raw w =
    (Inr d, w\<lparr>ls_read_only := False, ls_loaded_hash := Some (content_hash_bytes y)\<rparr>)"
  using assms by (simp add: ls_load_def load_compare_def load_finish_def refresh_last_valid_def sbind_def)

lemma ls_load_same_memories:
  assumes "w_yaml w = Some y" "w_last_valid w = Some y'" "y' \<noteq> y" "parse_bytes env y raw w = Inr d"
    "parse_bytes env y' raw w = Inr d'" "\<not> memories_differ d d'"
  shows "ls_load env now raw w = load_finish y d w"
  using assms by (simp add: ls_load_def load_compare_def)

definition document_phases :: "bytes \<Rightarrow> bytes \<Rightarrow> (bytes \<times> bytes) list" where
  "document_phases y0 y1 = [(y0, y0), (y1, y0), (y1, y1)]"

lemma performs_refresh:
  assumes "w_last_valid w = Some l" "l \<noteq> p"
  shows "performs (refresh_last_valid p) w [(w_segments w, w_yaml w, Some p, w_journal w)] ()"
proof -
  have "performs (durable (\<lambda>w. w\<lparr>w_last_valid := Some p\<rparr>)) w
      [(w_segments w, w_yaml w, Some p, w_journal w)] ()"
    by (rule performs_durable) (simp_all add: files_def)
  moreover have "refresh_last_valid p w = durable (\<lambda>w. w\<lparr>w_last_valid := Some p\<rparr>) w"
    using assms by (simp add: refresh_last_valid_def)
  ultimately show ?thesis by (simp add: performs_def)
qed

lemma performs_publish:
  assumes ready: "target_ready env w0 j d0 y0 t y1"
    and same: "\<not> memories_differ t d0"
    and ext: "extends_archive env w0 w"
    and phase: "q \<le> 2" "w_yaml w = Some (fst (document_phases y0 y1 ! q))"
      "w_last_valid w = Some (snd (document_phases y0 y1 ! q))"
  shows "performs (publish_journal_target env now j) w
    (map (\<lambda>(y, l). (w_segments w, Some y, Some l, w_journal w)) (drop (q + 1) (document_phases y0 y1))) ()"
proof -
  let ?ser = "cd_ser (me_codec env)"
  let ?pub = "publish_target env now (Some (md_revision d0)) (Some (document_identity ?ser d0)) t
    (Some (document_identity ?ser t))"
  have pj: "publish_journal_target env now j = sbind ?pub (\<lambda>_. sret ())"
    using ready by (simp add: publish_journal_target_def target_ready_def Let_def)
  have parse: "parse_bytes env y0 None w = Inr d0" "parse_bytes env y1 None w = Inr t"
    using ready parse_bytes_mono [OF ext] by (auto simp: target_ready_def Let_def)
  have ids: "document_identity ?ser d0 \<noteq> document_identity ?ser t"
    using ready by (simp add: target_ready_def Let_def)
  then have ne: "y0 \<noteq> y1" using parse by auto
  have "\<exists>x. performs ?pub w
    (map (\<lambda>(y, l). (w_segments w, Some y, Some l, w_journal w)) (drop (q + 1) (document_phases y0 y1))) x"
  proof -
    consider "q = 0" | "q = 1" | "q = 2" using phase(1) by linarith
    then show ?thesis
    proof cases
      case 1
      then have w: "w_yaml w = Some y0" "w_last_valid w = Some y0"
        using phase by (simp_all add: document_phases_def)
      let ?w1 = "w\<lparr>ls_read_only := False, ls_loaded_hash := Some (content_hash_bytes y0)\<rparr>"
      let ?w0 = "w0\<lparr>ls_read_only := False, ls_loaded_hash := Some (content_hash_bytes y0)\<rparr>"
      have load: "ls_load env now None w = (Inr d0, ?w1)"
        by (rule ls_load_unchanged [OF w parse(1)])
      have "commit_checks env t True ?w1 = Inr y1"
      proof (rule commit_checks_mono [of env ?w0])
        show "extends_archive env ?w0 ?w1" using ext by (simp add: extends_archive_def)
        show "commit_checks env t True ?w0 = Inr y1" using ready by (simp add: target_ready_def Let_def)
        show "w_yaml ?w1 = w_yaml ?w0" using ready w by (simp add: target_ready_def Let_def)
      qed simp_all
      then have commit: "?pub w = sbind (durable (\<lambda>w. w\<lparr>w_yaml := Some y1\<rparr>)) (\<lambda>_ w.
          sbind (refresh_last_valid y1) (\<lambda>_. sret t)
            (w\<lparr>ls_loaded_hash := Some (content_hash_bytes y1)\<rparr>)) ?w1"
        using ids by (simp add: publish_target_def Let_def sbind_def load ls_commit_def)
      have "performs (sbind (durable (\<lambda>w. w\<lparr>w_yaml := Some y1\<rparr>)) (\<lambda>_ w.
          sbind (refresh_last_valid y1) (\<lambda>_. sret t)
            (w\<lparr>ls_loaded_hash := Some (content_hash_bytes y1)\<rparr>))) ?w1
          ([(w_segments w, Some y1, w_last_valid w, w_journal w)] @
           [(w_segments w, Some y1, Some y1, w_journal w)]) t"
      proof (rule performs_sbind [OF performs_durable])
        fix w'
        assume f: "files w' = last (files ?w1 # [(w_segments w, Some y1, w_last_valid w, w_journal w)])"
        let ?w' = "w'\<lparr>ls_loaded_hash := Some (content_hash_bytes y1)\<rparr>"
        from f have f': "w_segments w' = w_segments w" "w_yaml w' = Some y1" "w_last_valid w' = Some y0"
          "w_journal w' = w_journal w" using w by (simp_all add: files_def)
        have "performs (sbind (refresh_last_valid y1) (\<lambda>_. sret t)) ?w'
            ([(w_segments w, Some y1, Some y1, w_journal w)] @ []) t"
          by (rule performs_sbind)
            (use performs_refresh [of ?w' y0 y1] f' ne in \<open>auto intro: performs_ret\<close>)
        then have "performs (sbind (refresh_last_valid y1) (\<lambda>_. sret t)) ?w'
            [(w_segments w, Some y1, Some y1, w_journal w)] t" by simp
        then show "performs (\<lambda>w. sbind (refresh_last_valid y1) (\<lambda>_. sret t)
            (w\<lparr>ls_loaded_hash := Some (content_hash_bytes y1)\<rparr>)) w'
            [(w_segments w, Some y1, Some y1, w_journal w)] t"
          by (rule performs_memory) (simp_all add: files_def)
      qed (simp_all add: files_def)
      then have "performs ?pub w ([(w_segments w, Some y1, w_last_valid w, w_journal w)] @
           [(w_segments w, Some y1, Some y1, w_journal w)]) t"
        by (rule performs_memory) (simp_all add: files_def commit)
      then show ?thesis
        using 1 w by (intro exI [of _ t]) (simp add: document_phases_def)
    next
      case 2
      then have w: "w_yaml w = Some y1" "w_last_valid w = Some y0"
        using phase by (simp_all add: document_phases_def)
      have "ls_load env now None w = load_finish y1 t w"
        by (rule ls_load_same_memories [OF w ne parse(2,1) same])
      then have pub: "?pub w = sbind (load_finish y1 t) (\<lambda>current.
           if document_identity ?ser current = document_identity ?ser t then sret current
           else if Some (md_revision current) \<noteq> Some (md_revision d0)
                   \<or> Some (document_identity ?ser current) \<noteq> Some (document_identity ?ser d0)
           then sfail (BaiError ''TURN_TRANSACTION_CONFLICT'')
           else ls_commit env t True) w"
        by (simp add: publish_target_def Let_def sbind_def)
      let ?w' = "w\<lparr>ls_read_only := False, ls_loaded_hash := Some (content_hash_bytes y1)\<rparr>"
      have "performs (sbind (refresh_last_valid y1) (\<lambda>_. sret t)) ?w'
          ([(w_segments w, Some y1, Some y1, w_journal w)] @ []) t"
        by (rule performs_sbind)
          (use performs_refresh [of ?w' y0 y1] w ne in \<open>auto intro: performs_ret\<close>)
      then have "performs (load_finish y1 t) w ([(w_segments w, Some y1, Some y1, w_journal w)] @ []) t"
        by (rule performs_memory) (simp_all add: files_def load_finish_def)
      then have "performs (load_finish y1 t) w [(w_segments w, Some y1, Some y1, w_journal w)] t"
        by simp
      then have "performs (sbind (load_finish y1 t) (\<lambda>current.
           if document_identity ?ser current = document_identity ?ser t then sret current
           else if Some (md_revision current) \<noteq> Some (md_revision d0)
                   \<or> Some (document_identity ?ser current) \<noteq> Some (document_identity ?ser d0)
           then sfail (BaiError ''TURN_TRANSACTION_CONFLICT'')
           else ls_commit env t True)) w ([(w_segments w, Some y1, Some y1, w_journal w)] @ []) t"
        by (rule performs_sbind) (simp add: performs_ret)
      then have "performs ?pub w ([(w_segments w, Some y1, Some y1, w_journal w)] @ []) t"
        by (rule performs_memory) (simp_all add: pub)
      with 2 show ?thesis
        by (intro exI [of _ t]) (simp add: document_phases_def)
    next
      case 3
      then have w: "w_yaml w = Some y1" "w_last_valid w = Some y1"
        using phase by (simp_all add: document_phases_def)
      have "?pub w = (Inr t, w\<lparr>ls_read_only := False, ls_loaded_hash := Some (content_hash_bytes y1)\<rparr>)"
        using ls_load_unchanged [OF w parse(2)] by (simp add: publish_target_def Let_def sbind_def)
      with 3 show ?thesis
        by (intro exI [of _ t]) (simp add: performs_def document_phases_def files_def)
    qed
  qed
  then obtain x where "performs ?pub w
    (map (\<lambda>(y, l). (w_segments w, Some y, Some l, w_journal w)) (drop (q + 1) (document_phases y0 y1))) x" ..
  then have "performs (sbind ?pub (\<lambda>_. sret ())) w
    ((map (\<lambda>(y, l). (w_segments w, Some y, Some l, w_journal w)) (drop (q + 1) (document_phases y0 y1))) @ []) ()"
    by (rule performs_sbind) (simp add: performs_ret)
  then show ?thesis by (simp add: pj)
qed


subsection \<open>Recovering a decided turn\<close>

text \<open>
  A world in which the journal decides a complete turn over the records \<open>rs\<close>; \<open>pub\<close> are the states
  of the two document files, from the baseline to the target (a single state when the turn revises
  nothing).
\<close>

definition turn_ready ::
  "memory_env \<Rightarrow> world \<Rightarrow> turn_journal \<Rightarrow> raw_record list \<Rightarrow> raw_record \<Rightarrow> raw_record \<Rightarrow> bool"
where
  "turn_ready env w j rs user assistant \<longleftrightarrow>
     tx_load env True w = Inr (Some j) \<and> tj_state j = ReadyToCommit \<and>
     tj_user j = user \<and> tj_assistant j = Some assistant \<and>
     read_all (me_codec env) (w_segments w) = Inr rs \<and>
     pc_raw_sha256 (tj_checkpoint j) = identity_hash rs \<and>
     publishable env rs user \<and> publishable env (rs @ [user]) assistant"

text \<open>The states the files go through: the two records, the two document files, the journal.\<close>

definition turn_phases ::
  "memory_env \<Rightarrow> world \<Rightarrow> raw_record \<Rightarrow> raw_record \<Rightarrow> (bytes option \<times> bytes option) list \<Rightarrow> files list"
where
  "turn_phases env w user assistant docs =
     (let S = turn_archive env user assistant (w_segments w)
      in map (\<lambda>s. (s, fst (hd docs), snd (hd docs), w_journal w)) S
         @ map (\<lambda>(y, l). (last S, y, l, w_journal w)) (tl docs)
         @ [(last S, fst (last docs), snd (last docs), None)])"

lemma tx_load_iff:
  "tx_load env required w = Inr (Some j) \<longleftrightarrow>
     (\<exists>text. w_journal w = Some text \<and> w_private w \<and> safe_text text \<and>
        cd_journal (me_codec env) (utf8 text) = Some j \<and> turn_journal_ok j)"
  by (auto simp: tx_load_def split: option.splits if_splits)

lemma tx_load_journal_only:
  assumes "w_journal w' = w_journal w" "w_private w' = w_private w"
  shows "tx_load env b w' = tx_load env b w"
  unfolding tx_load_def assms ..

lemma extends_archive_phase:
  assumes "turn_ready env w0 j rs user assistant"
    and "w_segments w = put env assistant (put env user (w_segments w0))"
  shows "extends_archive env w0 w"
  using assms turn_archive_contents [of env "w_segments w0" rs user assistant]
  by (auto simp: extends_archive_def turn_ready_def)

lemma performs_tx_commit:
  assumes ready: "turn_ready env w0 j rs user assistant"
    and docs: "docs = [(w_yaml w0, w_last_valid w0)] \<and> tj_target j = None \<or>
      docs = map (map_prod Some Some) (document_phases y0 y1) \<and> target_ready env w0 j d0 y0 t y1 \<and>
        \<not> memories_differ t d0"
    and same: "w_private w = w_private w0"
    and k: "k < length (turn_phases env w0 user assistant docs) - 1"
      "files w = turn_phases env w0 user assistant docs ! k"
  shows "performs (tx_commit env now) w (drop (k + 1) (turn_phases env w0 user assistant docs)) ()"
proof -
  let ?S0 = "w_segments w0"
  let ?S2 = "put env assistant (put env user ?S0)"
  let ?ph = "turn_phases env w0 user assistant docs"
  have r: "tj_state j = ReadyToCommit" "tj_user j = user" "tj_assistant j = Some assistant"
    "read_all (me_codec env) ?S0 = Inr rs" "pc_raw_sha256 (tj_checkpoint j) = identity_hash rs"
    "publishable env rs user" "publishable env (rs @ [user]) assistant" "turn_journal_ok j"
    using ready by (auto simp: turn_ready_def tx_load_iff)
  have roles: "rr_role user = RoleUser" "rr_role assistant = RoleAssistant"
    using r by (auto simp: turn_journal_ok_def)
  have ne: "docs \<noteq> []" using docs by (auto simp: document_phases_def)
  have hd: "hd docs = (w_yaml w0, w_last_valid w0)"
    using docs by (auto simp: document_phases_def target_ready_def Let_def)
  have jw: "w_journal w = w_journal w0"
  proof -
    have "k < length (butlast ?ph)" using k(1) by simp
    then have "?ph ! k \<in> set (butlast ?ph)" by (metis nth_butlast nth_mem)
    then have "snd (snd (snd (?ph ! k))) = w_journal w0"
      by (auto simp: turn_phases_def Let_def butlast_append)
    with arg_cong [OF k(2), of "\<lambda>f. snd (snd (snd f))"] show ?thesis by (simp add: files_def)
  qed
  have load: "tx_load env False w = Inr (Some j)"
    using ready jw same by (simp add: turn_ready_def tx_load_iff)
  define publish where "publish = (\<lambda>_ :: raw_record \<times> raw_record. publish_journal_target env now j)"
  have commit: "tx_commit env now w = sbind (sbind (append_complete_turn env user assistant (identity_hash rs))
      publish) (\<lambda>_. tx_unlink) w"
    by (simp add: tx_commit_def load r publish_def)
  have publish: "performs (publish x) w' (map (\<lambda>(y, l). (?S2, y, l, w_journal w0)) (drop (q + 1) docs)) ()"
    if "w_segments w' = ?S2" "q < length docs" "(w_yaml w', w_last_valid w') = docs ! q"
      "w_journal w' = w_journal w0" for x w' q
    using docs
  proof
    assume "docs = [(w_yaml w0, w_last_valid w0)] \<and> tj_target j = None"
    with that show ?thesis by (simp add: publish_def publish_journal_target_def performs_ret)
  next
    assume d: "docs = map (map_prod Some Some) (document_phases y0 y1) \<and>
        target_ready env w0 j d0 y0 t y1 \<and> \<not> memories_differ t d0"
    have q: "q \<le> 2" using that(2) d by (simp add: document_phases_def)
    have nth: "docs ! q = map_prod Some Some (document_phases y0 y1 ! q)"
      using that(2) d by simp
    have "performs (publish_journal_target env now j) w'
        (map (\<lambda>(y, l). (w_segments w', Some y, Some l, w_journal w')) (drop (q + 1) (document_phases y0 y1))) ()"
      using d q nth that extends_archive_phase [OF ready that(1)]
      by (intro performs_publish) (auto simp: map_prod_def split: prod.splits)
    moreover have "map (\<lambda>(y, l). (w_segments w', Some y, Some l, w_journal w')) (drop (q + 1) (document_phases y0 y1))
        = map (\<lambda>(y, l). (?S2, y, l, w_journal w0)) (drop (q + 1) docs)"
      using d that by (simp add: drop_map case_prod_unfold)
    ultimately show ?thesis by (simp add: publish_def)
  qed
  define p q where "p = min k 2" and "q = k - 2"
  have len: "length ?ph = 3 + length docs"
    using ne by (simp add: turn_phases_def Let_def turn_archive_def)
  then have kq: "q < length docs" using k(1) ne by (cases docs) (auto simp: q_def)
  have fw: "w_segments w = turn_archive env user assistant ?S0 ! p" "(w_yaml w, w_last_valid w) = docs ! q"
  proof -
    consider "k < 3" | i where "k = 3 + i" "i < length (tl docs)"
      using k(1) len ne by (cases "k < 3") (auto simp: le_iff_add not_less)
    then have "files w = (turn_archive env user assistant ?S0 ! p, fst (docs ! q), snd (docs ! q), w_journal w0)"
    proof cases
      case 1
      then have "k = p" "q = 0" by (auto simp: p_def q_def)
      with 1 k(2) hd ne show ?thesis
        by (auto simp: turn_phases_def Let_def turn_archive_def nth_append hd_conv_nth nth_Cons'
            split: if_splits)
    next
      case 2
      then have "p = 2" "q = Suc i" by (auto simp: p_def q_def)
      with 2 k(2) ne show ?thesis
        by (auto simp: turn_phases_def Let_def turn_archive_def nth_append nth_tl case_prod_unfold)
    qed
    then show "w_segments w = turn_archive env user assistant ?S0 ! p" "(w_yaml w, w_last_valid w) = docs ! q"
      by (simp_all add: files_def)
  qed
  let ?A = "map (\<lambda>S. (S, w_yaml w, w_last_valid w, w_journal w)) (drop (p + 1) (turn_archive env user assistant ?S0))"
  let ?B = "map (\<lambda>(y, l). (?S2, y, l, w_journal w0)) (drop (q + 1) docs)"
  let ?C = "[(?S2, fst (last docs), snd (last docs), None)]"
  have A: "performs (append_complete_turn env user assistant (identity_hash rs)) w ?A (user, assistant)"
    by (rule performs_complete_turn [OF r(4,6,7) roles refl _ fw(1)]) (simp add: p_def)
  have lastA: "last (files w # ?A) = (?S2, w_yaml w, w_last_valid w, w_journal w0)"
  proof (cases "p = 2")
    case True
    then show ?thesis using fw(1) jw by (simp add: turn_archive_def files_def)
  next
    case False
    then have "p = 0 \<or> p = 1" by (auto simp: p_def)
    then show ?thesis using jw by (auto simp: turn_archive_def)
  qed
  have AB: "performs (sbind (append_complete_turn env user assistant (identity_hash rs)) publish) w (?A @ ?B) ()"
  proof (rule performs_sbind [OF A])
    fix w'
    assume "files w' = last (files w # ?A)"
    then have "files w' = (?S2, w_yaml w, w_last_valid w, w_journal w0)" by (simp only: lastA)
    then have "w_segments w' = ?S2" "(w_yaml w', w_last_valid w') = docs ! q" "w_journal w' = w_journal w0"
      using fw(2) by (simp_all add: files_def)
    with publish kq show "performs (publish (user, assistant)) w' ?B ()" by blast
  qed
  have lastB: "last (files w # ?A @ ?B) = (?S2, fst (last docs), snd (last docs), w_journal w0)"
  proof (cases "drop (q + 1) docs = []")
    case True
    then have "q = length docs - 1" using kq by simp
    then have "last docs = (w_yaml w, w_last_valid w)" using fw(2) ne by (simp add: last_conv_nth)
    moreover have "?B = []" using True by simp
    ultimately show ?thesis using lastA by simp
  next
    case False
    then show ?thesis by (simp add: last_map case_prod_unfold last_drop)
  qed
  have "performs (sbind (sbind (append_complete_turn env user assistant (identity_hash rs)) publish)
      (\<lambda>_. tx_unlink)) w ((?A @ ?B) @ ?C) ()"
  proof (rule performs_sbind [OF AB])
    fix w'
    assume "files w' = last (files w # ?A @ ?B)"
    then have "files w' = (?S2, fst (last docs), snd (last docs), w_journal w0)" by (simp only: lastB)
    with performs_unlink [of w'] show "performs tx_unlink w' ?C ()"
      by (simp add: files_def)
  qed
  moreover have "(?A @ ?B) @ ?C = drop (k + 1) ?ph"
  proof (cases "k < 2")
    case True
    then have "q = 0" "p = k" by (auto simp: p_def q_def)
    moreover have "docs ! 0 = (w_yaml w, w_last_valid w)" using fw(2) \<open>q = 0\<close> by simp
    ultimately show ?thesis using True ne jw
      by (simp add: turn_phases_def Let_def turn_archive_def drop_Suc tl_drop hd_conv_nth drop_Cons' )
  next
    case False
    then have "p = 2" "k = 2 + q" by (auto simp: p_def q_def)
    then show ?thesis using kq ne
      by (simp add: turn_phases_def Let_def turn_archive_def drop_map drop_Suc)
  qed
  ultimately have "performs (sbind (sbind (append_complete_turn env user assistant (identity_hash rs)) publish)
      (\<lambda>_. tx_unlink)) w (drop (k + 1) ?ph) ()" by simp
  then show ?thesis
    by (rule performs_memory) (simp_all add: commit)
qed


text \<open>Any number of processes that recover and die, each with its own budget of durable writes.\<close>

fun recover_attempts :: "memory_env \<Rightarrow> int \<Rightarrow> nat list \<Rightarrow> world \<Rightarrow> world" where
  "recover_attempts env now [] w = w"
| "recover_attempts env now (n # ns) w =
     recover_attempts env now ns (snd (tx_recover env now (restart n w)))"

lemma performs_files:
  assumes "performs m w fs x"
  shows "files (snd (m w)) = (files w # fs) ! min (w_budget w) (length fs)"
    and "w_private (snd (m w)) = w_private w"
    and "length fs \<le> w_budget w \<Longrightarrow> fst (m w) = Inr x"
  using assms by (auto simp: performs_def last_conv_nth min_def split: if_splits)

lemma files_restart [simp]: "files (restart n w) = files w" "w_private (restart n w) = w_private w"
  "w_budget (restart n w) = n" "w_fault (restart n w) = w_fault w"
  by (simp_all add: files_def restart_def)

lemma turn_phases_neq_Nil [simp]: "turn_phases env w user assistant docs \<noteq> []"
  by (simp add: turn_phases_def Let_def)

lemma turn_phases_0:
  assumes "hd docs = (w_yaml w, w_last_valid w)"
  shows "turn_phases env w user assistant docs ! 0 = files w"
  using assms by (simp add: turn_phases_def Let_def turn_archive_def files_def)

lemma turn_phases_last:
  "last (turn_phases env w user assistant docs) =
     (put env assistant (put env user (w_segments w)), fst (last docs), snd (last docs), None)"
  by (simp add: turn_phases_def Let_def turn_archive_def)

lemma length_turn_phases: "docs \<noteq> [] \<Longrightarrow> length (turn_phases env w user assistant docs) = 3 + length docs"
  by (simp add: turn_phases_def Let_def turn_archive_def)

text \<open>The revision of a turn, if it has one, leaves the memory items as they are.\<close>

definition docs_ready ::
  "memory_env \<Rightarrow> world \<Rightarrow> turn_journal \<Rightarrow> (bytes option \<times> bytes option) list \<Rightarrow> bool"
where
  "docs_ready env w j docs \<longleftrightarrow>
     docs = [(w_yaml w, w_last_valid w)] \<and> tj_target j = None \<or>
     (\<exists>d0 y0 t y1. docs = map (map_prod Some Some) (document_phases y0 y1) \<and>
        target_ready env w j d0 y0 t y1 \<and> \<not> memories_differ t d0)"

lemma docs_ready_hd:
  "docs_ready env w j docs \<Longrightarrow> docs \<noteq> [] \<and> hd docs = (w_yaml w, w_last_valid w)"
  by (auto simp: docs_ready_def document_phases_def target_ready_def Let_def)

lemma recover_step:
  assumes ready: "turn_ready env w0 j rs user assistant" and docs: "docs_ready env w0 j docs"
    and same: "w_private w = w_private w0"
    and k: "k < length (turn_phases env w0 user assistant docs)"
      "files w = turn_phases env w0 user assistant docs ! k"
  shows "performs (tx_recover env now) w (drop (k + 1) (turn_phases env w0 user assistant docs)) ()"
proof (cases "k < length (turn_phases env w0 user assistant docs) - 1")
  case True
  have "performs (tx_commit env now) w (drop (k + 1) (turn_phases env w0 user assistant docs)) ()"
    using docs True k(2) same unfolding docs_ready_def
    by (elim disjE exE; intro performs_tx_commit [OF ready]) auto
  moreover have "\<exists>j'. tx_load env False w = Inr (Some j') \<and> tj_state j' \<noteq> Prepared"
  proof -
    let ?ph = "turn_phases env w0 user assistant docs"
    have "k < length (butlast ?ph)" using True by simp
    then have "?ph ! k \<in> set (butlast ?ph)" by (metis nth_butlast nth_mem)
    then have "snd (snd (snd (?ph ! k))) = w_journal w0"
      by (auto simp: turn_phases_def Let_def butlast_append)
    with arg_cong [OF k(2), of "\<lambda>f. snd (snd (snd f))"] have "w_journal w = w_journal w0"
      by (simp add: files_def)
    with same have "tx_load env False w = tx_load env False w0" by (rule tx_load_journal_only [rotated])
    moreover have "tx_load env False w0 = Inr (Some j)"
      using ready by (simp add: turn_ready_def tx_load_iff)
    ultimately show ?thesis using ready by (simp add: turn_ready_def)
  qed
  then obtain j' where "tx_load env False w = Inr (Some j')" "tj_state j' \<noteq> Prepared" by auto
  ultimately show ?thesis
    by (elim performs_memory) (simp_all add: tx_recover_def)
next
  case False
  then have "k = length (turn_phases env w0 user assistant docs) - 1" using k(1) by simp
  with k(2) have "files w = last (turn_phases env w0 user assistant docs)"
    by (simp add: last_conv_nth)
  then have "w_journal w = None" by (simp add: turn_phases_last files_def)
  then have "tx_recover env now w = (Inr (), w)" by (simp add: tx_recover_def tx_load_def)
  with False k(1) show ?thesis by (simp add: performs_ret)
qed

lemma recover_attempts_phase:
  assumes ready: "turn_ready env w0 j rs user assistant" and docs: "docs_ready env w0 j docs"
  shows "w_private w = w_private w0 \<Longrightarrow> k < length (turn_phases env w0 user assistant docs) \<Longrightarrow>
    files w = turn_phases env w0 user assistant docs ! k \<Longrightarrow>
    files (recover_attempts env now ns w) = turn_phases env w0 user assistant docs !
      min (k + sum_list ns) (length (turn_phases env w0 user assistant docs) - 1)"
proof (induction ns arbitrary: w k)
  case Nil
  then have "min k (length (turn_phases env w0 user assistant docs) - 1) = k" by auto
  with Nil show ?case by simp
next
  case (Cons n ns)
  let ?ph = "turn_phases env w0 user assistant docs"
  let ?w = "snd (tx_recover env now (restart n w))"
  have perf: "performs (tx_recover env now) (restart n w) (drop (k + 1) ?ph) ()"
    by (rule recover_step [OF ready docs]) (use Cons.prems in auto)
  let ?k = "min (k + n) (length ?ph - 1)"
  have "files ?w = (files w # drop (k + 1) ?ph) ! min n (length ?ph - (k + 1))"
    using performs_files(1) [OF perf] by simp
  also have "\<dots> = drop k ?ph ! min n (length ?ph - (k + 1))"
    using Cons.prems(2,3) by (simp add: Cons_nth_drop_Suc)
  also have "k + min n (length ?ph - (k + 1)) = ?k"
    using Cons.prems(2) by auto
  then have "drop k ?ph ! min n (length ?ph - (k + 1)) = ?ph ! ?k"
    using Cons.prems(2) by (simp only: nth_drop less_imp_le)
  finally have files: "files ?w = ?ph ! ?k" .
  have "files (recover_attempts env now ns ?w) = ?ph ! min (?k + sum_list ns) (length ?ph - 1)"
    by (rule Cons.IH) (use performs_files(2) [OF perf] Cons.prems files in auto)
  also have "min (?k + sum_list ns) (length ?ph - 1) = min (k + sum_list (n # ns)) (length ?ph - 1)"
    by (simp add: min_def)
  finally show ?case by simp
qed


subsection \<open>The journal as a state machine\<close>

text \<open>What happens to the stores of one memory directory, one operation of the unit of work at a time.\<close>

inductive tx_step :: "memory_env \<Rightarrow> world \<Rightarrow> world \<Rightarrow> bool" for env where
  step_begin: "tx_step env w (snd (tx_begin env uuid checkpoint user w))"
| step_discard: "tx_step env w (snd (tx_discard env w))"
| step_pending: "tx_step env w (snd (tx_pending env code w))"
| step_ready: "tx_step env w (snd (tx_ready env assistant target w))"
| step_commit: "tx_step env w (snd (tx_commit env now w))"
| step_recover: "tx_step env w (snd (tx_recover env now w))"
| step_restart: "tx_step env w (restart budget w)"

inductive_cases tx_stepE: "tx_step env w w'"

text \<open>Operations that leave the journal alone.\<close>

lemma journal_sbind:
  assumes "w_journal (snd (m w)) = w_journal w"
    and "\<And>x w'. m w = (Inr x, w') \<Longrightarrow> w_journal (snd (f x w')) = w_journal w'"
  shows "w_journal (snd (sbind m f w)) = w_journal w"
proof (cases "m w")
  case (Pair r w')
  with assms show ?thesis by (cases r) (auto simp: sbind_def)
qed

lemma journal_durable [simp]:
  "w_journal (f w) = w_journal w \<Longrightarrow> w_journal (snd (durable f w)) = w_journal w"
  by (simp add: durable_def)

lemma journal_refresh [simp]: "w_journal (snd (refresh_last_valid p w)) = w_journal w"
  by (simp add: refresh_last_valid_def)

lemma journal_ls_commit [simp]: "w_journal (snd (ls_commit env d b w)) = w_journal w"
  unfolding ls_commit_def
proof (intro journal_sbind, simp_all add: slift_def)
  fix payload w'
  show "w_journal (snd (sbind (refresh_last_valid payload) (\<lambda>_. sret d)
      (w'\<lparr>ls_loaded_hash := Some (content_hash_bytes payload)\<rparr>))) = w_journal w'"
    by (subst journal_sbind) simp_all
qed

lemma journal_load_finish [simp]: "w_journal (snd (load_finish p d w)) = w_journal w"
  unfolding load_finish_def by (subst journal_sbind) simp_all

lemma journal_ls_load [simp]: "w_journal (snd (ls_load env now raw w)) = w_journal w"
proof -
  have "w_journal (snd (load_compare env now raw p d q w)) = w_journal w" for p d q
  proof -
    have "w_journal w' = w_journal w"
      if "ls_commit env (manual_revision now previous d) True
             (w\<lparr>ls_loaded_hash := h, ls_read_only := False\<rparr>) = (r, w')" for previous h r w'
      using journal_ls_commit [of env "manual_revision now previous d" True
          "w\<lparr>ls_loaded_hash := h, ls_read_only := False\<rparr>"] that by simp
    then show ?thesis
      by (auto simp: load_compare_def split: sum.splits prod.splits)
  qed
  then show ?thesis
    by (auto simp: ls_load_def split: sum.splits option.splits prod.splits)
qed

lemma journal_publish [simp]: "w_journal (snd (publish_journal_target env now j w)) = w_journal w"
proof -
  have "w_journal (snd (publish_target env now r h t h' w)) = w_journal w" for r h t h'
    by (auto simp: publish_target_def Let_def intro!: journal_sbind)
  then show ?thesis
    by (auto simp: publish_journal_target_def split: option.splits intro!: journal_sbind)
qed

lemma journal_append [simp]: "w_journal (snd (append_journal_record env role r w)) = w_journal w"
  unfolding append_journal_record_def archive_append_def
  by (auto simp: case_prod_unfold intro!: journal_sbind)

lemma journal_pending [simp]: "w_journal (snd (append_pending_user env r h w)) = w_journal w"
  unfolding append_pending_user_def
  by (auto split: option.splits intro!: journal_sbind)

lemma journal_complete [simp]: "w_journal (snd (append_complete_turn env user assistant h w)) = w_journal w"
  unfolding append_complete_turn_def
  by (auto split: option.splits prod.splits intro!: journal_sbind)

lemma journal_decided_commit:
  assumes "tx_load env False w = Inr (Some j)" and "tx_commit env now w = (r, w')"
  shows "w_journal w' = w_journal w \<or> w_journal w' = None \<and> r = Inr ()"
proof -
  define body where "body = (case tj_state j of
                  Prepared \<Rightarrow> sfail (BaiError ''TURN_TRANSACTION_STATE'')
                | ReadyPending \<Rightarrow>
                    sbind (append_pending_user env (tj_user j) (pc_raw_sha256 (tj_checkpoint j))) (\<lambda>_. sret ())
                | ReadyToCommit \<Rightarrow>
                    (case tj_assistant j of
                       None \<Rightarrow> sfail AssertionExn
                     | Some a \<Rightarrow>
                         sbind (append_complete_turn env (tj_user j) a (pc_raw_sha256 (tj_checkpoint j)))
                           (\<lambda>_. publish_journal_target env now j)))"
  have keep: "w_journal (snd (body w)) = w_journal w"
    unfolding body_def by (auto split: tx_state.splits option.splits intro!: journal_sbind)
  have "tx_commit env now w = sbind body (\<lambda>_. tx_unlink) w"
    by (simp add: tx_commit_def assms(1) body_def)
  with assms(2) keep show ?thesis
    by (cases "body w"; cases "fst (body w)")
      (auto simp: sbind_def tx_unlink_def durable_def split: if_splits)
qed


lemma decided_step:
  assumes "tx_step env w w'" and "tx_load env True w = Inr (Some j)" and "tj_state j \<noteq> Prepared"
  shows "w_journal w' = w_journal w \<or>
    w_journal w' = None \<and> (\<exists>now. tx_commit env now w = (Inr (), w'))"
proof -
  have load: "tx_load env False w = Inr (Some j)" using assms(2) by (simp add: tx_load_iff)
  from assms(1) show ?thesis
  proof (cases rule: tx_step.cases)
    case (step_commit now)
    then show ?thesis using journal_decided_commit [OF load, of now] by (cases "tx_commit env now w") auto
  next
    case (step_recover now)
    then have "w' = snd (tx_commit env now w)" using assms(3) by (simp add: tx_recover_def load)
    then show ?thesis using journal_decided_commit [OF load, of now] by (cases "tx_commit env now w") auto
  qed (use assms(2,3) load in \<open>simp_all add: tx_begin_def tx_discard_def tx_pending_def tx_ready_def restart_def\<close>)
qed

end
