(* ===== verification/Memory_Properties.thy ===== *)
theory Memory_Properties
  imports Transaction
begin

text \<open>
  The properties of the persistent memory: archive, long-term document and turn transaction, with
  the concrete records, documents and library functions at which they are instantiated.
\<close>

subsection \<open>Sample records and a sample codec\<close>

definition sample_uuid :: "nat \<Rightarrow> pystr" where
  "sample_uuid n = replicate 31 48 @ [48 + n]"

definition sample_record :: "nat \<Rightarrow> nat \<Rightarrow> role \<Rightarrow> pystr \<Rightarrow> raw_record" where
  "sample_record n turn role content =
     \<lparr>rr_schema_version = 1, rr_record_id = u ''rec'' @ 45 # sample_uuid n,
      rr_global_sequence = int n, rr_turn_id = u ''turn'' @ 45 # sample_uuid turn, rr_role = role,
      rr_content = content, rr_created_at = 0, rr_state_id = u ''s'',
      rr_config_revision = content_hash [], rr_content_sha256 = content_hash content\<rparr>"

definition sample_user :: raw_record where
  "sample_user = sample_record 1 1 RoleUser (u ''hi'')"

definition sample_assistant :: raw_record where
  "sample_assistant = sample_record 2 1 RoleAssistant (u ''yo'')"

definition sample_ser :: time_ser where
  "sample_ser d = u ''t''"

definition sample_codec ::
  "raw_record list \<Rightarrow> (json \<Rightarrow> memory_document option) \<Rightarrow> (bytes \<Rightarrow> json option) \<Rightarrow>
   (json option \<Rightarrow> json \<Rightarrow> bytes) \<Rightarrow> (bytes \<Rightarrow> turn_journal option) \<Rightarrow> codec"
where
  "sample_codec rs document load dump journal =
     \<lparr>cd_ser = sample_ser,
      cd_record = (\<lambda>t. List.find (\<lambda>r. utf8 (canonical_json (dump_raw_record sample_ser r)) = t \<or>
                                  utf8 (canonical_json (dump_raw_record sample_ser r) @ [10]) = t) rs),
      cd_document = document, cd_yaml_load = load, cd_yaml_dump = dump, cd_journal = journal\<rparr>"

lemma sample_codec_record:
  assumes "r \<in> set rs" and "\<forall>x\<in>set rs. rr_created_at x = 0"
  shows "codec_record (sample_codec rs document load dump journal) r"
proof -
  let ?cd = "sample_codec rs document load dump journal"
  have same: "x = y" if "record_text ?cd x = record_text ?cd y" "x \<in> set rs" "y \<in> set rs" for x y
    using record_text_inj [OF that(1)] that(2,3) assms(2) by (intro raw_record.equality) auto
  have neq: "record_line ?cd x \<noteq> record_text ?cd y" "record_text ?cd y \<noteq> record_line ?cd x" for x y
    using record_text_one_line(1) [of ?cd y] by (metis in_set_conv_decomp record_line_text)+
  have find: "cd_record ?cd t = List.find (\<lambda>x. record_text ?cd x = t \<or> record_line ?cd x = t) rs" for t
    by (simp add: sample_codec_def record_text_def record_line_def)
  have one: "List.find P xs = Some z" if "z \<in> set xs" "P z" "\<And>x. x \<in> set xs \<Longrightarrow> P x \<Longrightarrow> x = z"
    for P and xs :: "raw_record list" and z
    using that
  proof (induction xs)
    case (Cons a xs)
    show ?case
    proof (cases "P a")
      case True
      then have "a = z" by (rule Cons.prems(3) [rotated]) simp
      with True show ?thesis by simp
    next
      case False
      with Cons.prems(1,2) have "z \<in> set xs" by auto
      then have "List.find P xs = Some z"
        using Cons.prems(2) by (rule Cons.IH) (rule Cons.prems(3); simp)
      with False show ?thesis by simp
    qed
  qed simp
  have "cd_record ?cd (record_text ?cd r) = Some r"
    unfolding find
  proof (rule one)
    fix x
    assume "x \<in> set rs" "record_text ?cd x = record_text ?cd r \<or> record_line ?cd x = record_text ?cd r"
    with neq same [of x r] assms(1) show "x = r" by blast
  qed (use assms(1) in simp_all)
  moreover have "cd_record ?cd (record_line ?cd r) = Some r"
    unfolding find
  proof (rule one)
    fix x
    assume "x \<in> set rs" "record_text ?cd x = record_line ?cd r \<or> record_line ?cd x = record_line ?cd r"
    with neq have "record_text ?cd x = record_text ?cd r" by (auto simp: record_line_text)
    with same [of x r] assms(1) \<open>x \<in> set rs\<close> show "x = r" by blast
  qed (use assms(1) in simp_all)
  ultimately show ?thesis by (simp add: codec_record_def)
qed

lemma sample_uuid_hex:
  assumes "n < 10"
  shows "list_all (\<lambda>c. is_hex c \<or> c = 45) (sample_uuid n)"
    "length (filter (\<lambda>c. c \<noteq> 45) (sample_uuid n)) = 32"
  using assms by (auto simp: sample_uuid_def is_hex_def list_all_iff)

lemma sample_record_ok:
  assumes "1 \<le> n" "n < 10" "turn < 10" "content \<noteq> []"
  shows "raw_record_ok (sample_record n turn role content)"
  using assms sample_uuid_hex [of n] sample_uuid_hex [of turn]
  by (simp add: raw_record_ok_def sample_record_def validate_prefixed_uuid_hex)

lemma sample_uuid_inj [simp]: "sample_uuid m = sample_uuid n \<longleftrightarrow> m = n"
  by (simp add: sample_uuid_def)

lemma sample_records_ok [simp]: "raw_record_ok sample_user" "raw_record_ok sample_assistant"
  by (simp_all add: sample_user_def sample_assistant_def sample_record_ok)

lemma sample_turn [simp]:
  "next_record_ok [] sample_user" "next_record_ok [sample_user] sample_assistant"
  by (simp_all add: next_record_ok_def) (simp_all add: sample_user_def sample_assistant_def sample_record_def)

definition sample_limit :: nat where
  "sample_limit = length (utf8 (canonical_json (dump_raw_record sample_ser sample_user) @ [10]))
     + length (utf8 (canonical_json (dump_raw_record sample_ser sample_assistant) @ [10]))"

definition sample_archive_config :: archive_config where
  "sample_archive_config =
     \<lparr>ac_segment_max_records = 1, ac_segment_max_bytes = 100, ac_max_record_bytes = sample_limit\<rparr>"

definition sample_env :: "turn_journal option \<Rightarrow> memory_env" where
  "sample_env j =
     \<lparr>me_codec = sample_codec [sample_user, sample_assistant] (\<lambda>_. None) (\<lambda>_. None) (\<lambda>_ _. []) (\<lambda>_. j),
      me_archive = sample_archive_config,
      me_store = \<lparr>sc_max_document_bytes = 10, sc_max_items = 10, sc_max_overview_chars = 100\<rparr>,
      me_has_store = True\<rparr>"

lemma sample_created_at [simp]: "rr_created_at sample_user = 0" "rr_created_at sample_assistant = 0"
  by (simp_all add: sample_user_def sample_assistant_def sample_record_def)

lemma length_utf8_ascii: "list_all (\<lambda>c. c < 128) s \<Longrightarrow> length (utf8 s) = length s"
  by (simp add: utf8_ascii)

lemma sample_codec_records [simp]:
  "codec_record (me_codec (sample_env j)) sample_user"
  "codec_record (me_codec (sample_env j)) sample_assistant"
  by (simp_all add: sample_env_def sample_codec_record)

lemma sample_content [simp]:
  "rr_content sample_user = u ''hi''" "rr_content sample_assistant = u ''yo''"
  "rr_schema_version sample_user = 1" "rr_schema_version sample_assistant = 1"
  "rr_role sample_user = RoleUser" "rr_role sample_assistant = RoleAssistant"
  "rr_turn_id sample_user = u ''turn'' @ 45 # sample_uuid 1"
  "rr_turn_id sample_assistant = u ''turn'' @ 45 # sample_uuid 1"
  "rr_global_sequence sample_user = 1" "rr_global_sequence sample_assistant = 2"
  "rr_state_id sample_user = u ''s''" "rr_state_id sample_assistant = u ''s''"
  "rr_config_revision sample_user = content_hash []"
  "rr_config_revision sample_assistant = content_hash []"
  by (simp_all add: sample_user_def sample_assistant_def sample_record_def)

lemma sample_env_archive [simp]: "me_archive (sample_env j) = sample_archive_config"
  by (simp add: sample_env_def)

lemma sample_publishable [simp]:
  "publishable (sample_env j) [] sample_user"
  "publishable (sample_env j) [sample_user] sample_assistant"
proof -
  have "length (record_line (me_codec (sample_env j)) r) \<le> ac_max_record_bytes (me_archive (sample_env j))"
    if "r = sample_user \<or> r = sample_assistant" for r
    using that by (auto simp: sample_env_def sample_codec_def record_line_def sample_archive_config_def
        sample_limit_def)
  then show "publishable (sample_env j) [] sample_user"
    "publishable (sample_env j) [sample_user] sample_assistant"
    by (simp_all add: publishable_def safe_short)
qed

subsection \<open>The archive refines a list of records\<close>

text \<open>
  C2. A successful \<open>append\<close> extends the archive by exactly the record it returns: reading every
  segment back yields the old records followed by the new one, and the result is again a gapless
  log with unique identifiers and one record per turn and role. The new identifier must be fresh,
  and Pydantic must read back the line written for this record.
\<close>

theorem archive_append_refines:
  assumes "append_record cd cfg role content tid sid revision rid created uuid now segs = Inr (r, n, p)"
    and "read_all cd segs = Inr rs"
    and "rr_record_id r \<notin> rr_record_id ` set rs"
    and "codec_record cd r"
  shows "read_all cd (write_segment n p segs) = Inr (rs @ [r]) \<and> log_ok (rs @ [r]) \<and>
    rr_role r = role \<and> rr_content r = content \<and> rr_turn_id r = tid"
proof -
  have "read_all cd (write_segment n p segs) = Inr (rs @ [r])"
    unfolding append_record_writes [OF assms(1)]
    using append_record_next [OF assms(1-3)] assms(2,4) by (intro archive_log.contents_push) auto
  moreover from this have "log_ok (rs @ [r])" by (rule read_all_log_ok)
  moreover have "rr_role r = role \<and> rr_content r = content \<and> rr_turn_id r = tid"
    using assms(1) by (auto simp: append_record_Inr_iff create_raw_record_cases)
  ultimately show ?thesis by simp
qed

lemma sample_read_all [simp]: "read_all cd [] = Inr []"
  by (simp add: read_all_def)

abbreviation sample_segments :: "turn_journal option \<Rightarrow> segments" where
  "sample_segments j \<equiv> put_record (me_codec (sample_env j)) sample_archive_config sample_user []"

lemma sample_segments_read [simp]:
  "read_all (me_codec (sample_env j)) (sample_segments j) = Inr [sample_user]"
  using turn_archive_contents(1) [of "sample_env j" "[]" "[]" sample_user sample_assistant] by simp

theorem archive_append_refines_witness:
  "\<exists>n p. append_record (me_codec (sample_env None)) sample_archive_config RoleAssistant (u ''yo'')
      (rr_turn_id sample_assistant) (u ''s'') (content_hash []) (Some (rr_record_id sample_assistant))
      (Some (Aware 0 0)) [] 0 (sample_segments None) = Inr (sample_assistant, n, p) \<and>
    read_all (me_codec (sample_env None)) (write_segment n p (sample_segments None))
      = Inr [sample_user, sample_assistant]"
proof -
  obtain n p where app: "append_record (me_codec (sample_env None)) sample_archive_config RoleAssistant
      (u ''yo'') (rr_turn_id sample_assistant) (u ''s'') (content_hash [])
      (Some (rr_record_id sample_assistant)) (Some (Aware 0 0)) [] 0 (sample_segments None)
      = Inr (sample_assistant, n, p)"
    using append_record_publishable [of "sample_env None" "sample_segments None" "[sample_user]" sample_assistant]
    by auto
  have "rr_record_id sample_assistant \<notin> rr_record_id ` set [sample_user]"
    using sample_turn(2) by (simp add: next_record_ok_def)
  from archive_append_refines [OF app sample_segments_read this sample_codec_records(2)] app
  show ?thesis by auto
qed


text \<open>
  \<open>discard_pending_tail\<close> removes exactly the last record: it is a USER record of the returned
  turn, everything before it consists of complete turns and none of another record of that turn, and
  reading the directory after the write yields the log without it. Carriage returns never occur in
  what the archive writes.
\<close>

theorem discard_pending_tail_exact:
  assumes "discard_pending_tail cd expected segs = Inr (Some (tid, n, p))" and "no_cr segs"
  shows "\<exists>rs r. read_all cd segs = Inr (rs @ [r]) \<and> rr_role r = RoleUser \<and> rr_turn_id r = tid \<and>
    complete_turns rs \<and> (\<forall>x\<in>set rs. rr_turn_id x \<noteq> tid) \<and> (expected = None \<or> expected = Some tid) \<and>
    read_all cd (write_segment n p segs) = Inr rs \<and> no_cr (write_segment n p segs)"
  using discard_pending_tail_Some [OF assms] by metis

lemma sample_no_cr: "no_cr (sample_segments j)"
  by (rule put_record_no_cr) (simp_all add: segments_shape_def no_cr_def)

lemma sample_segments_eq: "sample_segments j = [(1, record_line (me_codec (sample_env j)) sample_user)]"
  by (simp add: put_record_def append_target_def)

theorem discard_pending_tail_exact_witness:
  "\<exists>n p. discard_pending_tail (me_codec (sample_env None)) None (sample_segments None) =
      Inr (Some (rr_turn_id sample_user, n, p)) \<and>
    read_all (me_codec (sample_env None)) (write_segment n p (sample_segments None)) = Inr []"
proof -
  let ?cd = "me_codec (sample_env None)"
  have line: "validate_record_json ?cd (record_line ?cd sample_user) = Some sample_user"
    using sample_codec_records(1) [of None] by (simp add: validate_record_json_def codec_record_def)
  have "splitlines_keep (record_line ?cd sample_user) = [record_line ?cd sample_user]"
    by (simp add: record_line_text splitlines_keep_line record_text_one_line)
  moreover have "record_line ?cd sample_user \<noteq> []" by (simp add: record_line_text)
  ultimately have d: "discard_pending_tail ?cd None (sample_segments None) =
      Inr (Some (rr_turn_id sample_user, 1, []))"
    using sample_segments_read [of None] line
    by (simp add: discard_pending_tail_def sample_segments_eq)
  from discard_pending_tail_exact [OF d sample_no_cr] sample_segments_read [of None] d
  show ?thesis by auto
qed

text \<open>
  Every segment stays within its limits: after an \<open>append\<close> each segment file holds at most the
  configured number of lines and bytes, unless it holds a single record that alone exceeds them;
  the archive stays readable line by line (numbering, final newlines) and free of carriage returns.
\<close>

theorem archive_segments_bounded:
  assumes "append_record cd cfg role content tid sid revision rid created uuid now segs = Inr (r, n, p)"
    and "\<forall>(k, q)\<in>set segs. segment_bounded cfg q" and "no_cr segs"
  shows "(\<forall>(k, q)\<in>set (write_segment n p segs). segment_bounded cfg q) \<and>
    segments_shape 1 (write_segment n p segs) \<and> no_cr (write_segment n p segs) \<and>
    length (record_line cd r) \<le> ac_max_record_bytes cfg"
proof -
  from assms(1) have shape: "segments_shape 1 segs" and len: "length (record_line cd r) \<le> ac_max_record_bytes cfg"
    by (auto simp: append_record_Inr_iff read_all_iff)
  show ?thesis
    unfolding append_record_writes [OF assms(1)]
    using put_record_bounded [OF shape assms(2)] put_record_lines(1) [OF shape]
      put_record_no_cr [OF shape assms(3)] len by blast
qed

theorem archive_segments_bounded_witness:
  "\<exists>n p. append_record (me_codec (sample_env None)) sample_archive_config RoleUser (u ''hi'')
      (rr_turn_id sample_user) (u ''s'') (content_hash []) (Some (rr_record_id sample_user))
      (Some (Aware 0 0)) [] 0 [] = Inr (sample_user, n, p) \<and>
    segment_bounded sample_archive_config p"
proof -
  obtain n p where app: "append_record (me_codec (sample_env None)) sample_archive_config RoleUser (u ''hi'')
      (rr_turn_id sample_user) (u ''s'') (content_hash []) (Some (rr_record_id sample_user))
      (Some (Aware 0 0)) [] 0 [] = Inr (sample_user, n, p)"
    using append_record_publishable [of "sample_env None" "[]" "[]" sample_user]
    by auto
  from archive_segments_bounded [OF app] app show ?thesis by (auto simp: no_cr_def)
qed


subsection \<open>Crash recovery\<close>

definition sample_checkpoint :: pre_turn_checkpoint where
  "sample_checkpoint =
     \<lparr>pc_raw_count = 0, pc_raw_tail_id = None, pc_raw_sha256 = identity_hash [],
      pc_long_term_revision = None, pc_long_term_sha256 = None, pc_agent_state = u ''s''\<rparr>"

definition sample_journal :: turn_journal where
  "sample_journal =
     \<lparr>tj_schema_version = 1, tj_state = ReadyToCommit, tj_transaction_id = u ''tx'',
      tj_turn_id = rr_turn_id sample_user, tj_checkpoint = sample_checkpoint, tj_user = sample_user,
      tj_failure_code = None, tj_assistant = Some sample_assistant, tj_target = None,
      tj_target_sha256 = None\<rparr>"

definition sample_world :: world where
  "sample_world =
     \<lparr>w_segments = [], w_yaml = None, w_last_valid = None, w_journal = Some [], w_private = True,
      w_budget = 0, w_fault = Crash, ls_read_only = False, ls_loaded_hash = None\<rparr>"

lemma sample_journal_ok: "turn_journal_ok sample_journal"
  by (simp add: turn_journal_ok_def sample_journal_def sample_checkpoint_def pre_turn_checkpoint_ok_def)

lemma sample_codec_journal: "cd_journal (me_codec (sample_env j)) = (\<lambda>_. j)"
  by (simp add: sample_env_def sample_codec_def)

lemma sample_restart [simp]: "w_journal (restart n w) = w_journal w"
  by (simp add: restart_def)

lemma sample_turn_ready:
  "turn_ready (sample_env (Some sample_journal)) sample_world sample_journal [] sample_user sample_assistant"
proof -
  have "tx_load (sample_env (Some sample_journal)) True sample_world = Inr (Some sample_journal)"
    unfolding tx_load_iff by (simp add: sample_world_def sample_codec_journal sample_journal_ok)
  then show ?thesis
    by (simp add: turn_ready_def) (simp add: sample_journal_def sample_world_def sample_checkpoint_def)
qed



text \<open>
  Recovery of an undecided turn changes nothing but the journal: archive, long-term document and
  recovery copy stay byte for byte what they were, with one durable write; a crash before it leaves
  everything as it was.
\<close>

theorem prepared_recovery_discards:
  assumes "tx_load env True w = Inr (Some j)" and "tj_state j = Prepared"
  shows "tx_recover env now w =
    (if w_budget w = 0 then (Inl (w_fault w), w)
     else (Inr (), w\<lparr>w_journal := None, w_budget := w_budget w - 1\<rparr>))"
proof -
  have "tx_load env False w = Inr (Some j)" using assms(1) by (simp add: tx_load_iff)
  with assms(2) show ?thesis by (simp add: tx_recover_def tx_unlink_def durable_def)
qed

definition sample_prepared :: turn_journal where
  "sample_prepared = sample_journal\<lparr>tj_state := Prepared, tj_assistant := None\<rparr>"

lemma sample_prepared_load:
  "tx_load (sample_env (Some sample_prepared)) True sample_world = Inr (Some sample_prepared)"
  unfolding tx_load_iff
  by (simp add: sample_world_def sample_codec_journal turn_journal_ok_def sample_prepared_def
      sample_journal_def sample_checkpoint_def pre_turn_checkpoint_ok_def)

theorem prepared_recovery_discards_witness:
  "tx_recover (sample_env (Some sample_prepared)) 0 (restart 1 sample_world) =
     (Inr (), sample_world\<lparr>w_journal := None\<rparr>)"
proof -
  have "tx_load (sample_env (Some sample_prepared)) True (restart 1 sample_world) = Inr (Some sample_prepared)"
    using sample_prepared_load tx_load_journal_only [of "restart 1 sample_world" sample_world]
    by (simp add: restart_def)
  from prepared_recovery_discards [OF this] show ?thesis
    by (simp add: sample_prepared_def restart_def sample_world_def)
qed

text \<open>
  C6. A decision is irrevocable. Once the journal is READY_PENDING or READY_TO_COMMIT, no operation of
  the unit of work changes it: it is there byte for byte until a commit returns successfully and
  removes it.
\<close>

theorem decided_journal_irrevocable:
  assumes "tx_step env w w'" and "tx_load env True w = Inr (Some j)" and "tj_state j \<noteq> Prepared"
  shows "w_journal w' = w_journal w \<or>
    w_journal w' = None \<and> (\<exists>now. tx_commit env now w = (Inr (), w'))"
  using assms by (rule decided_step)

theorem decided_journal_irrevocable_witness:
  "let w' = snd (tx_pending (sample_env (Some sample_journal)) (u ''x'') sample_world) in
   tj_state sample_journal \<noteq> Prepared \<and>
   (w_journal w' = w_journal sample_world \<or>
    w_journal w' = None \<and> (\<exists>now. tx_commit (sample_env (Some sample_journal)) now sample_world = (Inr (), w')))"
proof -
  have load: "tx_load (sample_env (Some sample_journal)) True sample_world = Inr (Some sample_journal)"
    using sample_turn_ready by (simp add: turn_ready_def)
  have state: "tj_state sample_journal \<noteq> Prepared" by (simp add: sample_journal_def)
  from decided_journal_irrevocable [OF step_pending load state, of "u ''x''"] state show ?thesis
    by (simp only: Let_def simp_thms)
qed



definition sample_item :: memory_item where
  "sample_item =
     \<lparr>mi_memory_id = u ''mem'' @ 45 # sample_uuid 1, mi_kind = KindUser, mi_text = u ''m'',
      mi_status = MemActive,
      mi_source_refs = [\<lparr>sr_record_id = rr_record_id sample_user, sr_relation = RelSupports,
                        sr_record_sha256 = rr_content_sha256 sample_user\<rparr>],
      mi_created_by = ByMemoryCurator, mi_created_at = Aware 0 0, mi_updated_at = Aware 0 0,
      mi_supersedes = [], mi_tags = []\<rparr>"

definition sample_span :: coverage_span where
  "sample_span =
     \<lparr>cs_start_sequence = 1, cs_end_sequence = 2, cs_batch_id = u ''batch'' @ 45 # sample_uuid 1,
      cs_record_ids = [rr_record_id sample_user, rr_record_id sample_assistant],
      cs_record_hashes = [rr_content_sha256 sample_user, rr_content_sha256 sample_assistant]\<rparr>"

definition sample_target :: memory_document where
  "sample_target =
     \<lparr>md_schema_version = 1, md_revision = 1,
      md_curation = \<lparr>ck_curated_through_sequence = 2, ck_last_batch_id = None, ck_updated_at = None,
                     ck_covered_record_ids = []\<rparr>,
      md_coverage_overview = \<lparr>co_revision = 1, co_text = u ''o'', co_spans = [sample_span]\<rparr>,
      md_memories = [sample_item]\<rparr>"

definition sample_doc_env :: memory_env where
  "sample_doc_env =
     \<lparr>me_codec = sample_codec [sample_user, sample_assistant]
        (\<lambda>j. if j = JNull then Some empty_document else Some sample_target)
        (\<lambda>b. if b = [0] then Some JNull else Some (JBool True)) (\<lambda>_ _. [1]) (\<lambda>_. None),
      me_archive = sample_archive_config,
      me_store = \<lparr>sc_max_document_bytes = 10, sc_max_items = 10, sc_max_overview_chars = 100\<rparr>,
      me_has_store = True\<rparr>"

definition sample_doc_world :: world where
  "sample_doc_world =
     \<lparr>w_segments = put sample_doc_env sample_assistant (put sample_doc_env sample_user []),
      w_yaml = Some [0], w_last_valid = Some [0], w_journal = None, w_private = True, w_budget = 1,
      w_fault = Crash, ls_read_only = False, ls_loaded_hash = None\<rparr>"

lemma sample_ids:
  "rr_record_id sample_user = u ''rec'' @ 45 # sample_uuid 1"
  "rr_record_id sample_assistant = u ''rec'' @ 45 # sample_uuid 2"
  "rr_content_sha256 sample_user = content_hash (u ''hi'')"
  "rr_content_sha256 sample_assistant = content_hash (u ''yo'')"
  by (simp_all add: sample_user_def sample_assistant_def sample_record_def)

lemma sample_prefixed [simp]:
  "validate_prefixed_uuid (p @ 45 # sample_uuid 1) p" "validate_prefixed_uuid (p @ 45 # sample_uuid 2) p"
  "validate_prefixed_uuid (p @ 45 # sample_uuid (Suc 0)) p"
  using sample_uuid_hex [of 1] sample_uuid_hex [of 2] by (simp_all add: validate_prefixed_uuid_hex)

lemma sample_item_ok: "memory_item_ok sample_item"
  by (simp add: memory_item_ok_def sample_item_def source_reference_ok_def sample_ids)

lemma sample_span_ok: "coverage_span_ok sample_span"
  by (simp add: coverage_span_ok_def sample_span_def sample_ids)

lemma sample_target_ok: "memory_document_ok sample_target"
  using sample_item_ok sample_span_ok
  by (simp add: memory_document_ok_def document_level_ok_def sample_target_def curation_checkpoint_ok_def
      coverage_overview_ok_def last_span_end_def document_frontier_def visit_simps)
    (simp add: sample_span_def sample_item_def supersedes_graph_def visit_simps)

lemma sample_doc_read: "read_all (me_codec sample_doc_env) (w_segments sample_doc_world) = Inr [sample_user, sample_assistant]"
proof -
  have "codec_record (me_codec sample_doc_env) sample_user" "codec_record (me_codec sample_doc_env) sample_assistant"
    by (simp_all add: sample_doc_env_def sample_codec_record)
  then show ?thesis
    unfolding sample_doc_world_def by (simp add: archive_log.contents_push_two [of _ "[]" "[]", simplified])
qed

lemma sample_doc_sources: "validate_sources sample_doc_env sample_target None sample_doc_world = Inr ()"
  by (simp add: validate_sources_def sample_doc_read)
    (simp add: sample_target_def sample_item_def sample_span_def record_by_id_def sample_ids upto.simps)

lemma sample_doc_fields:
  "md_memories sample_target = [sample_item]"
  "co_text (md_coverage_overview sample_target) = u ''o''"
  "sc_max_overview_chars (me_store sample_doc_env) = 100" "sc_max_items (me_store sample_doc_env) = 10"
  "sc_max_document_bytes (me_store sample_doc_env) = 10"
  "ls_read_only sample_doc_world = False" "ls_loaded_hash sample_doc_world = None"
  "w_yaml sample_doc_world = Some [0]" "w_fault sample_doc_world = Crash"
  "cd_yaml_load (me_codec sample_doc_env) [0] = Some JNull"
  "cd_yaml_load (me_codec sample_doc_env) [Suc 0] = Some (JBool True)"
  "cd_document (me_codec sample_doc_env) JNull = Some empty_document"
  "cd_document (me_codec sample_doc_env) (JBool True) = Some sample_target"
  by (simp_all add: sample_target_def sample_doc_env_def sample_doc_world_def sample_codec_def)

lemma sample_texts: "safe_text (mi_text sample_item)" "safe_text (u ''o'')"
  by (simp_all add: sample_item_def safe_short)

lemma sample_doc_checks: "commit_checks sample_doc_env sample_target True sample_doc_world = Inr [1]"
proof -
  have "render sample_doc_env sample_target True sample_doc_world = Inr [1]"
    by (simp add: render_def sample_doc_env_def sample_codec_def)
  then show ?thesis
    using sample_texts sample_target_ok sample_doc_sources
    by (simp add: commit_checks_def sample_doc_fields)
qed



definition sample_small_env :: memory_env where
  "sample_small_env = (sample_env (Some sample_journal))
     \<lparr>me_archive := sample_archive_config\<lparr>ac_max_record_bytes := 0\<rparr>\<rparr>"


subsection \<open>The long-term document\<close>

text \<open>
  C9. What \<open>LongTermStore.commit\<close> promises. On success the document was valid with all its sources in
  the archive, no item text and no overview text looks like a credential, the main file had not been
  edited since it was loaded, the new bytes are in the main file and in the recovery copy, and the
  archive is as before.
\<close>

theorem long_term_commit_contract:
  assumes "ls_commit env d preserve w = (Inr d', w')"
  shows "d' = d \<and> memory_document_ok d \<and> validate_sources env d None w = Inr () \<and>
    (\<forall>m\<in>set (md_memories d). safe_text (mi_text m)) \<and> safe_text (co_text (md_coverage_overview d)) \<and>
    \<not> (\<exists>current h. w_yaml w = Some current \<and> ls_loaded_hash w = Some h \<and> content_hash_bytes current \<noteq> h) \<and>
    (\<exists>y. render env d preserve w = Inr y \<and> w_yaml w' = Some y \<and> w_last_valid w' = Some y \<and>
       ls_loaded_hash w' = Some (content_hash_bytes y)) \<and> w_segments w' = w_segments w"
proof -
  from assms obtain y where y: "commit_checks env d preserve w = Inr y"
    by (auto simp: ls_commit_def sbind_Inr_iff)
  then have checks: "memory_document_ok d" "validate_sources env d None w = Inr ()"
    "safe_text (co_text (md_coverage_overview d))" "render env d preserve w = Inr y"
    "\<not> (\<exists>current h. w_yaml w = Some current \<and> ls_loaded_hash w = Some h \<and> content_hash_bytes current \<noteq> h)"
    by (auto simp: commit_checks_def rbind_Inr_iff if_Inl_iff)
  from y obtain ys where "rmap (\<lambda>m. ensure_safe (mi_text m)) (md_memories d) = Inr ys"
    by (auto simp: commit_checks_def rbind_Inr_iff if_Inl_iff)
  then have "\<forall>m\<in>set (md_memories d). safe_text (mi_text m)"
    by (auto dest: rmap_Inr_arg)
  moreover have "d' = d \<and> w_yaml w' = Some y \<and> w_last_valid w' = Some y \<and>
       ls_loaded_hash w' = Some (content_hash_bytes y) \<and> w_segments w' = w_segments w"
    using assms by (auto simp: ls_commit_def y sbind_def durable_def refresh_last_valid_def split: if_splits)
  ultimately show ?thesis using checks by blast
qed

theorem long_term_commit_contract_witness:
  "\<exists>w'. ls_commit sample_doc_env sample_target True (sample_doc_world\<lparr>w_budget := 2\<rparr>) =
      (Inr sample_target, w') \<and> w_yaml w' = Some [1] \<and> w_last_valid w' = Some [1]"
proof -
  let ?w = "sample_doc_world\<lparr>w_budget := 2\<rparr>"
  have "commit_checks sample_doc_env sample_target True ?w = Inr [1]"
    by (rule commit_checks_mono [OF _ sample_doc_checks])
      (simp_all add: extends_archive_def sample_doc_read)
  then obtain w' where c: "ls_commit sample_doc_env sample_target True ?w = (Inr sample_target, w')"
    by (auto simp: ls_commit_def sbind_def durable_def refresh_last_valid_def sample_doc_world_def)
  moreover have "render sample_doc_env sample_target True ?w = Inr [1]"
    by (simp add: render_def sample_doc_env_def sample_codec_def)
  ultimately show ?thesis using long_term_commit_contract [OF c] by auto
qed

text \<open>
  A refused commit writes nothing: an invalid document, a missing or altered source, a suspected
  credential, an oversized document and an edit of the main file since it was loaded all leave every
  file and the store's state as they were.
\<close>

theorem long_term_commit_refused:
  assumes "ls_commit env d preserve w = (Inl e, w')" and "e \<noteq> w_fault w"
  shows "w' = w \<and> (\<exists>code retryable. e = Bai PlainBaiError code retryable)"
proof (cases "commit_checks env d preserve w")
  case (Inr y)
  with assms show ?thesis
    by (auto simp: ls_commit_def sbind_def durable_def refresh_last_valid_def split: if_splits)
next
  case (Inl e')
  with assms(1) have "e = e'" "w' = w" by (simp_all add: ls_commit_def)
  moreover have "\<exists>code retryable. e' = Bai PlainBaiError code retryable"
    using commit_checks_error [OF Inl] by (simp add: plain_bai_def)
  ultimately show ?thesis by simp
qed

theorem long_term_commit_refused_witness:
  "ls_commit sample_doc_env sample_target True (sample_doc_world\<lparr>ls_loaded_hash := Some []\<rparr>) =
     (Inl (BaiErrorRetryable ''CONCURRENT_MANUAL_EDIT''), sample_doc_world\<lparr>ls_loaded_hash := Some []\<rparr>)"
proof -
  let ?w = "sample_doc_world\<lparr>ls_loaded_hash := Some []\<rparr>"
  have "validate_sources sample_doc_env sample_target None ?w = Inr ()"
    using sample_doc_sources validate_sources_segments [of ?w sample_doc_world] by simp
  then have "commit_checks sample_doc_env sample_target True ?w = Inl (BaiErrorRetryable ''CONCURRENT_MANUAL_EDIT'')"
    using sample_texts sample_target_ok
    by (simp add: commit_checks_def sample_doc_fields content_hash_bytes_def u_Cons)
  then obtain w' where c: "ls_commit sample_doc_env sample_target True ?w =
      (Inl (BaiErrorRetryable ''CONCURRENT_MANUAL_EDIT''), w')"
    by (simp add: ls_commit_def)
  have "BaiErrorRetryable ''CONCURRENT_MANUAL_EDIT'' \<noteq> w_fault ?w"
    by (simp add: sample_doc_fields BaiErrorRetryable_def)
  from long_term_commit_refused [OF c this] c show ?thesis by simp
qed




text \<open>
  The depth-first search of the document validator is exact: over items with distinct
  identifiers and no dangling reference it accepts if and only if \<open>supersedes\<close> is acyclic.
\<close>

theorem supersedes_search_exact:
  assumes "distinct (map mi_memory_id ms)"
    and "list_all (\<lambda>m. set (mi_supersedes m) \<subseteq> mi_memory_id ` set ms) ms"
  shows "is_ok (visit_all (supersedes_graph ms) {} {} (map mi_memory_id ms)) \<longleftrightarrow>
    acyclic {(mi_memory_id m, t) | m t. m \<in> set ms \<and> t \<in> set (mi_supersedes m)}"
  using assms by (rule visit_all_iff_acyclic)

definition sample_cycle :: "memory_item list" where
  "sample_cycle =
     [sample_item\<lparr>mi_memory_id := [1], mi_supersedes := [[2]]\<rparr>,
      sample_item\<lparr>mi_memory_id := [2], mi_supersedes := [[1]]\<rparr>]"

theorem supersedes_search_exact_witness:
  "\<not> acyclic {(mi_memory_id m, t) | m t. m \<in> set sample_cycle \<and> t \<in> set (mi_supersedes m)}"
proof -
  have ok: "distinct (map mi_memory_id sample_cycle)"
    "list_all (\<lambda>m. set (mi_supersedes m) \<subseteq> mi_memory_id ` set sample_cycle) sample_cycle"
    by (simp_all add: sample_cycle_def)
  have "\<not> is_ok (visit_all (supersedes_graph sample_cycle) {} {} (map mi_memory_id sample_cycle))"
    by (simp add: sample_cycle_def supersedes_graph_def visit_simps)
  with supersedes_search_exact [OF ok] show ?thesis by simp
qed

end
