(* ===== verification/Incidents.thy ===== *)
theory Incidents
  imports Credentials
begin

text \<open>
  \<open>security/permissions.py\<close> and \<open>security/incidents.py\<close>.

  The file system appears as the facts \<open>ensure_private_path\<close> observes about one path. The
  incident file holds a JSON value (the standard library reads back what it wrote); anything that
  cannot be read or parsed is \<open>UnreadableFile\<close>. The order of the keys of a dict plays no role here.
\<close>

subsection \<open>Private paths\<close>

datatype permission_status = PermPrivate | PermTooBroad | PermUnverifiable

record permission_result =
  pr_status :: permission_status
  pr_error_code :: "string option"

text \<open>
  What the operating system answers: whether the path resolves, whether it or its resolution is a
  symbolic link, and the mode bits after \<open>chmod\<close> (\<open>None\<close> when a call fails).
\<close>

record path_facts =
  pf_resolves :: bool
  pf_symlink :: bool
  pf_mode_after :: "nat \<Rightarrow> nat option"

definition ensure_private_path :: "path_facts \<Rightarrow> bool \<Rightarrow> permission_result" where
  "ensure_private_path p is_directory =
     (if \<not> pf_resolves p then \<lparr>pr_status = PermUnverifiable, pr_error_code = Some ''MEMORY_PERMISSION_UNVERIFIABLE''\<rparr>
      else if pf_symlink p then \<lparr>pr_status = PermUnverifiable, pr_error_code = Some ''MEMORY_PATH_LINK_REJECTED''\<rparr>
      else (let expected = (if is_directory then 448 else 384)
            in case pf_mode_after p expected of
                 None \<Rightarrow> \<lparr>pr_status = PermUnverifiable, pr_error_code = Some ''MEMORY_PERMISSION_UNVERIFIABLE''\<rparr>
               | Some actual \<Rightarrow>
                   if actual mod 512 \<noteq> expected
                   then \<lparr>pr_status = PermTooBroad, pr_error_code = Some ''MEMORY_PERMISSION_TOO_BROAD''\<rparr>
                   else \<lparr>pr_status = PermPrivate, pr_error_code = None\<rparr>))"

text \<open>A private verdict means: no link, and exactly the owner bits of the kind of path.\<close>

lemma ensure_private_path_private_iff:
  "pr_status (ensure_private_path p is_directory) = PermPrivate \<longleftrightarrow>
     pf_resolves p \<and> \<not> pf_symlink p \<and>
     (\<exists>mode. pf_mode_after p (if is_directory then 448 else 384) = Some mode \<and>
        mode mod 512 = (if is_directory then 448 else 384))"
  by (auto simp: ensure_private_path_def Let_def split: option.splits)

lemma ensure_private_path_code:
  "pr_error_code (ensure_private_path p d) = None \<longleftrightarrow>
     pr_status (ensure_private_path p d) = PermPrivate"
  by (auto simp: ensure_private_path_def Let_def split: option.splits)

subsection \<open>The incident file\<close>

definition metadata_char :: "nat \<Rightarrow> bool" where
  "metadata_char c \<longleftrightarrow> is_ascii_alnum c \<or> c = 95 \<or> c = 46 \<or> c = 58 \<or> c = 47 \<or> c = 45"

definition safe_metadata :: "pystr \<Rightarrow> bool" where
  "safe_metadata s \<longleftrightarrow> 1 \<le> length s \<and> length s \<le> 200 \<and> list_all metadata_char s"

definition require_safe_metadata :: "pystr \<Rightarrow> pystr result" where
  "require_safe_metadata s =
     (if safe_metadata s then Inr s else Inl (BaiError ''SECURITY_METADATA_INVALID''))"

definition evidence_fields :: "pystr list" where
  "evidence_fields = [u ''rotation_reference'', u ''repository_scan_revision'',
     u ''runtime_scan_revision'', u ''disposition_record'']"

definition persisted_fields :: "pystr list" where
  "persisted_fields = [u ''open'', u ''fingerprint'', u ''artifacts''] @ evidence_fields"

type_synonym incident_dict = "(pystr \<times> json) list"

datatype incident_file = NoIncidentFile | UnreadableFile | IncidentJson json

definition unreadable_incident :: incident_dict where
  "unreadable_incident =
     [(u ''open'', JBool True), (u ''fingerprint'', JStr (u ''sha256:unreadable'')),
      (u ''artifacts'', JArr [JStr (u ''incident-state'')])]"

text \<open>The checks of \<open>_load\<close> on one entry: \<open>fullmatch\<close> of a value that is no text raises.\<close>

fun incident_entry_ok :: "pystr \<times> json \<Rightarrow> bool" where
  "incident_entry_ok (name, value) =
     (if name = u ''open'' \<or> name = u ''artifacts'' \<or> value = JNull then True
      else (case value of JStr s \<Rightarrow> safe_metadata s | _ \<Rightarrow> False))"

definition incident_artifacts :: "incident_dict \<Rightarrow> json list option" where
  "incident_artifacts d =
     (case dict_get d (u ''artifacts'') of
        None \<Rightarrow> Some []
      | Some (JArr xs) \<Rightarrow>
          if list_all (\<lambda>x. case x of JStr s \<Rightarrow> safe_metadata s | _ \<Rightarrow> False) xs then Some xs else None
      | Some _ \<Rightarrow> None)"

definition incident_dict_ok :: "incident_dict \<Rightarrow> bool" where
  "incident_dict_ok d \<longleftrightarrow>
     list_all (\<lambda>(k, _). k \<in> set persisted_fields) d \<and>
     (case dict_get d (u ''open'') of Some (JBool _) \<Rightarrow> True | _ \<Rightarrow> False) \<and>
     list_all incident_entry_ok d"

definition load_incident :: "incident_file \<Rightarrow> incident_dict" where
  "load_incident f =
     (case f of
        NoIncidentFile \<Rightarrow> [(u ''open'', JBool False)]
      | UnreadableFile \<Rightarrow> unreadable_incident
      | IncidentJson (JObj d) \<Rightarrow>
          (if incident_dict_ok d
           then (case incident_artifacts d of
                   Some xs \<Rightarrow> dict_set (u ''artifacts'') (JArr xs) d
                 | None \<Rightarrow> unreadable_incident)
           else unreadable_incident)
      | IncidentJson _ \<Rightarrow> unreadable_incident)"

text \<open>
  \<open>_write\<close> replaces the file and then verifies the permissions of the directory and the file
  (\<open>private\<close>), so its error leaves the new content behind.
\<close>

definition write_incident :: "bool \<Rightarrow> incident_dict \<Rightarrow> (incident_file, unit) op" where
  "write_incident private d f =
     (if private then Inr () else Inl (BaiError ''SECURITY_STATE_PERMISSION_INVALID''),
      IncidentJson (JObj d))"

text \<open>\<open>sorted({...})\<close> on texts: code point order.\<close>

definition sorted_set :: "pystr list \<Rightarrow> pystr list" where
  "sorted_set xs = sort (remdups xs)"

definition open_incident :: "bool \<Rightarrow> pystr \<Rightarrow> pystr list \<Rightarrow> (incident_file, unit) op" where
  "open_incident private fingerprint artifacts =
     sbind (slift (require_safe_metadata fingerprint)) (\<lambda>fp.
     sbind (slift (rmap require_safe_metadata artifacts)) (\<lambda>xs.
     write_incident private
       [(u ''open'', JBool True), (u ''fingerprint'', JStr fp),
        (u ''artifacts'', JArr (map JStr (sorted_set xs)))]))"

text \<open>The loop of \<open>acknowledge\<close>: empty or missing evidence is skipped.\<close>

fun merge_evidence :: "(pystr \<times> pystr option) list \<Rightarrow> incident_dict \<Rightarrow> incident_dict result" where
  "merge_evidence [] d = Inr d"
| "merge_evidence ((name, value) # evidence) d =
     (case value of
        None \<Rightarrow> merge_evidence evidence d
      | Some v \<Rightarrow>
          if v = [] then merge_evidence evidence d
          else rbind (require_safe_metadata v)
                 (\<lambda>w. merge_evidence evidence (dict_set name (JStr w) d)))"

definition acknowledge_incident ::
  "bool \<Rightarrow> (pystr \<times> pystr option) list \<Rightarrow> (incident_file, unit) op"
where
  "acknowledge_incident private evidence f =
     sbind (slift (merge_evidence evidence (load_incident f))) (write_incident private) f"

record incident_report =
  ir_open :: bool
  ir_cleared :: bool
  ir_missing :: "pystr list"

fun json_truthy :: "json option \<Rightarrow> bool" where
  "json_truthy None = False"
| "json_truthy (Some JNull) = False"
| "json_truthy (Some (JBool b)) = b"
| "json_truthy (Some (JInt i)) = (i \<noteq> 0)"
| "json_truthy (Some (JStr s)) = (s \<noteq> [])"
| "json_truthy (Some (JArr xs)) = (xs \<noteq> [])"
| "json_truthy (Some (JObj kvs)) = (kvs \<noteq> [])"
| "json_truthy (Some (JFloat r)) = (r \<noteq> u ''0.0'' \<and> r \<noteq> u ''-0.0'')"

definition check_incident :: "incident_file \<Rightarrow> incident_report" where
  "check_incident f =
     (let payload = load_incident f
      in if \<not> json_truthy (dict_get payload (u ''open''))
         then \<lparr>ir_open = False, ir_cleared = True, ir_missing = []\<rparr>
         else (let missing = filter (\<lambda>name. \<not> json_truthy (dict_get payload name)) evidence_fields
               in \<lparr>ir_open = True, ir_cleared = (missing = []), ir_missing = missing\<rparr>))"

definition require_clear :: "incident_file \<Rightarrow> unit result" where
  "require_clear f = require (ir_cleared (check_incident f)) (BaiError ''SECURITY_INCIDENT_OPEN'')"

subsection \<open>Fail closed\<close>

lemma dict_get_unreadable [simp]:
  "dict_get unreadable_incident (u ''open'') = Some (JBool True)"
  "name \<in> set evidence_fields \<Longrightarrow> dict_get unreadable_incident name = None"
  by (auto simp: unreadable_incident_def evidence_fields_def)

lemma check_incident_unreadable:
  assumes "load_incident f = unreadable_incident"
  shows "ir_open (check_incident f)" "\<not> ir_cleared (check_incident f)"
    "ir_missing (check_incident f) = evidence_fields"
proof -
  have all: "filter (\<lambda>name. \<not> json_truthy (dict_get unreadable_incident name)) evidence_fields =
      evidence_fields"
    by (rule filter_True) simp
  show "ir_open (check_incident f)" "\<not> ir_cleared (check_incident f)"
    "ir_missing (check_incident f) = evidence_fields"
    using all by (simp_all add: check_incident_def assms Let_def, simp add: evidence_fields_def)
qed

lemma load_incident_ok_cases:
  obtains "load_incident f = unreadable_incident"
    | "f = NoIncidentFile"
    | d xs where "f = IncidentJson (JObj d)" "incident_dict_ok d" "incident_artifacts d = Some xs"
      "load_incident f = dict_set (u ''artifacts'') (JArr xs) d"
proof (cases f)
  case NoIncidentFile
  then show ?thesis by (rule that(2))
next
  case UnreadableFile
  then show ?thesis by (intro that(1)) (simp add: load_incident_def)
next
  case (IncidentJson j)
  show ?thesis
  proof (cases "\<exists>d xs. j = JObj d \<and> incident_dict_ok d \<and> incident_artifacts d = Some xs")
    case True
    then obtain d xs where "j = JObj d" "incident_dict_ok d" "incident_artifacts d = Some xs" by auto
    with IncidentJson show ?thesis by (intro that(3) [of d xs]) (simp_all add: load_incident_def)
  next
    case False
    with IncidentJson show ?thesis
      by (intro that(1)) (auto simp: load_incident_def split: json.splits option.splits)
  qed
qed

lemma evidence_fields_distinct:
  "name \<in> set evidence_fields \<Longrightarrow>
     name \<noteq> u ''open'' \<and> name \<noteq> u ''artifacts'' \<and> name \<noteq> u ''fingerprint'' \<and>
     name \<in> set persisted_fields"
  by (auto simp: evidence_fields_def persisted_fields_def)

text \<open>A readable open incident, and the evidence it holds.\<close>

definition open_dict :: "incident_dict \<Rightarrow> bool" where
  "open_dict d \<longleftrightarrow> incident_dict_ok d \<and> incident_artifacts d \<noteq> None \<and>
     dict_get d (u ''open'') = Some (JBool True) \<and> distinct (map fst d)"

definition held_evidence :: "incident_dict \<Rightarrow> pystr set" where
  "held_evidence d = {name \<in> set evidence_fields. json_truthy (dict_get d name)}"

definition supplied_evidence :: "(pystr \<times> pystr option) list \<Rightarrow> pystr set" where
  "supplied_evidence evidence = {name. \<exists>v. (name, Some v) \<in> set evidence \<and> v \<noteq> []}"

lemma incident_artifacts_set_other [simp]:
  "k \<noteq> u ''artifacts'' \<Longrightarrow> incident_artifacts (dict_set k v d) = incident_artifacts d"
  by (simp add: incident_artifacts_def)

lemma open_dict_set_evidence:
  assumes "open_dict d" and "name \<in> set evidence_fields" and "safe_metadata v"
  shows "open_dict (dict_set name (JStr v) d)"
    and "held_evidence (dict_set name (JStr v) d) = insert name (held_evidence d)"
proof -
  from assms(2) have n: "name \<noteq> u ''open''" "name \<noteq> u ''artifacts''" "name \<in> set persisted_fields"
    by (auto dest: evidence_fields_distinct)
  have set: "set (dict_set name (JStr v) d) = insert (name, JStr v) {kv \<in> set d. fst kv \<noteq> name}"
    using assms(1) by (intro set_dict_set) (simp add: open_dict_def)
  show "open_dict (dict_set name (JStr v) d)"
    using assms n by (auto simp: open_dict_def incident_dict_ok_def list_all_iff set)
  show "held_evidence (dict_set name (JStr v) d) = insert name (held_evidence d)"
    using assms(2,3) by (auto simp: held_evidence_def safe_metadata_def split: if_splits)
qed

lemma merge_evidence_open:
  "merge_evidence evidence d = Inr d' \<Longrightarrow> open_dict d \<Longrightarrow> fst ` set evidence \<subseteq> set evidence_fields \<Longrightarrow>
     open_dict d' \<and> held_evidence d' = held_evidence d \<union> supplied_evidence evidence"
proof (induction evidence d arbitrary: d' rule: merge_evidence.induct)
  case (1 d)
  then show ?case by (simp add: supplied_evidence_def)
next
  case (2 name v evidence d)
  show ?case
  proof (cases "v = None \<or> v = Some []")
    case True
    with 2 have "open_dict d' \<and> held_evidence d' = held_evidence d \<union> supplied_evidence evidence"
      by auto
    with True show ?thesis by (auto simp: supplied_evidence_def)
  next
    case False
    then obtain w where w: "v = Some w" "w \<noteq> []" by auto
    with "2.prems"(1) have safe: "safe_metadata w"
      and rec: "merge_evidence evidence (dict_set name (JStr w) d) = Inr d'"
      by (auto simp: require_safe_metadata_def rbind_Inr_iff split: if_splits)
    have name: "name \<in> set evidence_fields" using "2.prems"(3) by simp
    note step = open_dict_set_evidence [OF "2.prems"(2) name safe]
    have "open_dict d' \<and> held_evidence d' =
        held_evidence (dict_set name (JStr w) d) \<union> supplied_evidence evidence"
      using "2.IH" w rec step(1) "2.prems"(3) safe
      by (simp add: require_safe_metadata_def)
    with step(2) w show ?thesis by (auto simp: supplied_evidence_def)
  qed
qed

lemma load_open_dict:
  assumes "open_dict d"
  shows "open_dict (load_incident (IncidentJson (JObj d)))"
    and "held_evidence (load_incident (IncidentJson (JObj d))) = held_evidence d"
proof -
  from assms obtain xs where xs: "incident_artifacts d = Some xs" and ok: "incident_dict_ok d"
    by (auto simp: open_dict_def)
  then have load: "load_incident (IncidentJson (JObj d)) = dict_set (u ''artifacts'') (JArr xs) d"
    by (simp add: load_incident_def)
  have dist: "distinct (map fst d)" using assms by (simp add: open_dict_def)
  have set: "set (dict_set (u ''artifacts'') (JArr xs) d) =
      insert (u ''artifacts'', JArr xs) {kv \<in> set d. fst kv \<noteq> u ''artifacts''}"
    by (rule set_dict_set [OF dist])
  have "list_all (\<lambda>x. case x of JStr s \<Rightarrow> safe_metadata s | _ \<Rightarrow> False) xs"
    using xs by (auto simp: incident_artifacts_def split: option.splits json.splits if_splits)
  moreover have "u ''artifacts'' \<in> set persisted_fields"
    by (simp add: persisted_fields_def)
  ultimately show "open_dict (load_incident (IncidentJson (JObj d)))"
    using assms by (auto simp: load open_dict_def incident_dict_ok_def list_all_iff set
        incident_artifacts_def)
  show "held_evidence (load_incident (IncidentJson (JObj d))) = held_evidence d"
    by (auto simp: load held_evidence_def dest: evidence_fields_distinct)
qed

lemma check_open_dict:
  assumes "open_dict d"
  shows "ir_cleared (check_incident (IncidentJson (JObj d))) \<longleftrightarrow>
    held_evidence d = set evidence_fields"
    and "ir_open (check_incident (IncidentJson (JObj d)))"
proof -
  note load = load_open_dict [OF assms]
  from load(1) have is_open: "json_truthy (dict_get (load_incident (IncidentJson (JObj d))) (u ''open''))"
    by (simp add: open_dict_def)
  then show "ir_cleared (check_incident (IncidentJson (JObj d))) \<longleftrightarrow>
      held_evidence d = set evidence_fields"
    using load(2) by (auto simp: check_incident_def Let_def filter_empty_conv held_evidence_def)
  from is_open show "ir_open (check_incident (IncidentJson (JObj d)))"
    by (simp add: check_incident_def Let_def)
qed

lemma open_incident_open_dict:
  assumes "open_incident private fp xs f = (r, f')" and "f' \<noteq> f \<or> is_ok r"
  shows "\<exists>d. f' = IncidentJson (JObj d) \<and> open_dict d \<and> held_evidence d = {}"
proof -
  from assms obtain ys where ok: "safe_metadata fp" "rmap require_safe_metadata xs = Inr ys"
    by (auto simp: open_incident_def sbind_def slift_def require_safe_metadata_def
        split: if_splits sum.splits)
  have ys: "\<forall>y\<in>set ys. safe_metadata y"
    using rmap_Inr_set [OF ok(2)] by (fastforce simp: require_safe_metadata_def split: if_splits)
  let ?d = "[(u ''open'', JBool True), (u ''fingerprint'', JStr fp),
    (u ''artifacts'', JArr (map JStr (sorted_set ys)))]"
  have "open_dict ?d"
    using ok(1) ys by (auto simp: open_dict_def incident_dict_ok_def persisted_fields_def
        incident_artifacts_def list_all_iff sorted_set_def)
  moreover have "held_evidence ?d = {}"
    by (auto simp: held_evidence_def dest: evidence_fields_distinct)
  moreover have "f' = IncidentJson (JObj ?d)"
    using assms(1) ok by (auto simp: open_incident_def sbind_def slift_def require_safe_metadata_def
        write_incident_def)
  ultimately show ?thesis by blast
qed

text \<open>A series of acknowledgements; a rejected one leaves the file as it is.\<close>

fun acknowledge_all :: "bool \<Rightarrow> (pystr \<times> pystr option) list list \<Rightarrow> incident_file \<Rightarrow> incident_file" where
  "acknowledge_all private [] f = f"
| "acknowledge_all private (ev # evs) f =
     acknowledge_all private evs (snd (acknowledge_incident private ev f))"

definition accepted_evidence :: "(pystr \<times> pystr option) list \<Rightarrow> bool" where
  "accepted_evidence ev \<longleftrightarrow> (\<forall>(name, v) \<in> set ev. case v of Some w \<Rightarrow> w = [] \<or> safe_metadata w | None \<Rightarrow> True)"

lemma merge_evidence_ok_iff: "is_ok (merge_evidence ev d) \<longleftrightarrow> accepted_evidence ev"
  by (induction ev d rule: merge_evidence.induct)
    (auto simp: accepted_evidence_def require_safe_metadata_def split: option.splits)

lemma acknowledge_all_held:
  "open_dict d \<Longrightarrow> \<forall>ev\<in>set evs. fst ` set ev \<subseteq> set evidence_fields \<Longrightarrow>
     \<exists>d'. acknowledge_all private evs (IncidentJson (JObj d)) = IncidentJson (JObj d') \<and> open_dict d' \<and>
       held_evidence d' =
         held_evidence d \<union> (\<Union>ev \<in> {ev \<in> set evs. accepted_evidence ev}. supplied_evidence ev)"
proof (induction evs arbitrary: d)
  case Nil
  then show ?case by simp
next
  case (Cons ev evs)
  let ?l = "load_incident (IncidentJson (JObj d))"
  show ?case
  proof (cases "accepted_evidence ev")
    case True
    then obtain d1 where d1: "merge_evidence ev ?l = Inr d1"
      using merge_evidence_ok_iff [of ev ?l] by (cases "merge_evidence ev ?l") auto
    from merge_evidence_open [OF d1 load_open_dict(1) [OF Cons.prems(1)]] Cons.prems
    have "open_dict d1" "held_evidence d1 = held_evidence d \<union> supplied_evidence ev"
      by (simp_all add: load_open_dict(2))
    with Cons.IH [of d1] Cons.prems(2) d1 True show ?thesis
      by (auto simp: acknowledge_incident_def write_incident_def sbind_def)
  next
    case False
    then obtain e where "merge_evidence ev ?l = Inl e"
      using merge_evidence_ok_iff [of ev ?l] by (cases "merge_evidence ev ?l") auto
    with Cons.IH [of d] Cons.prems False show ?thesis
      by (auto simp: acknowledge_incident_def sbind_def)
  qed
qed


subsection \<open>Properties\<close>

text \<open>
  A security incident closes only with evidence. After an incident is opened, a series of
  acknowledgements (with any of the four evidence fields, rejected ones included) clears it if and
  only if each of the four fields was supplied, non-empty, by an acknowledgement all of whose values
  are safe identifiers.
\<close>

theorem incident_cleared_iff_evidence:
  assumes "open_incident private fingerprint artifacts f = (Inr (), f0)"
    and "\<forall>ev\<in>set evs. fst ` set ev \<subseteq> set evidence_fields"
  shows "require_clear (acknowledge_all private evs f0) = Inr () \<longleftrightarrow>
    (\<forall>name\<in>set evidence_fields. \<exists>ev\<in>set evs. accepted_evidence ev \<and> name \<in> supplied_evidence ev)"
proof -
  from open_incident_open_dict [OF assms(1)] obtain d where d: "f0 = IncidentJson (JObj d)"
    "open_dict d" "held_evidence d = {}" by auto
  from acknowledge_all_held [OF d(2) assms(2), of "private"] obtain d' where d':
    "acknowledge_all private evs f0 = IncidentJson (JObj d')" "open_dict d'"
    "held_evidence d' = (\<Union>ev \<in> {ev \<in> set evs. accepted_evidence ev}. supplied_evidence ev)"
    using d by auto
  have "held_evidence d' \<subseteq> set evidence_fields" by (auto simp: held_evidence_def)
  with d' check_open_dict(1) [OF d'(2)] show ?thesis
    by (auto simp: require_clear_def)
qed

definition sample_evidence :: "(pystr \<times> pystr option) list" where
  "sample_evidence = map (\<lambda>name. (name, Some (u ''ok''))) evidence_fields"

theorem incident_cleared_iff_evidence_witness:
  "\<exists>f0. open_incident True (u ''sha256:1'') [u ''prompt''] NoIncidentFile = (Inr (), f0) \<and>
     require_clear (acknowledge_all True [[], sample_evidence] f0) = Inr () \<and>
     require_clear (acknowledge_all True [tl sample_evidence] f0) \<noteq> Inr ()"
proof -
  obtain f0 where f0: "open_incident True (u ''sha256:1'') [u ''prompt''] NoIncidentFile = (Inr (), f0)"
    by (simp add: open_incident_def sbind_def require_safe_metadata_def safe_metadata_def metadata_char_def
        u_Cons is_ascii_alnum_def write_incident_def)
  have ok: "safe_metadata (u ''ok'')"
    by (simp add: safe_metadata_def metadata_char_def u_Cons is_ascii_alnum_def)
  have names: "\<forall>ev\<in>set [[], sample_evidence]. fst ` set ev \<subseteq> set evidence_fields"
    "\<forall>ev\<in>set [tl sample_evidence]. fst ` set ev \<subseteq> set evidence_fields"
    by (auto simp: sample_evidence_def evidence_fields_def)
  have "accepted_evidence sample_evidence" "supplied_evidence sample_evidence = set evidence_fields"
    "u ''rotation_reference'' \<notin> supplied_evidence (tl sample_evidence)"
    using ok by (auto simp: accepted_evidence_def supplied_evidence_def sample_evidence_def evidence_fields_def)
  then show ?thesis
    using f0 incident_cleared_iff_evidence [OF f0 names(1)] incident_cleared_iff_evidence [OF f0 names(2)]
    by (auto simp: evidence_fields_def)
qed

text \<open>
  The incident gate fails closed. If it lets a model call through, then there is no incident
  file, or the file is a readable dict with only known fields that is either closed or holds a safe,
  non-empty text for each of the four evidence fields. Any unreadable, malformed or extended file blocks.
\<close>

theorem incident_gate_fails_closed:
  assumes "require_clear f = Inr ()"
  shows "f = NoIncidentFile \<or>
    (\<exists>d. f = IncidentJson (JObj d) \<and> incident_dict_ok d \<and> incident_artifacts d \<noteq> None \<and>
       (dict_get d (u ''open'') = Some (JBool False) \<or>
        (\<forall>name\<in>set evidence_fields. \<exists>s. dict_get d name = Some (JStr s) \<and> safe_metadata s)))"
proof (cases f rule: load_incident_ok_cases)
  case 1
  then show ?thesis
    using assms check_incident_unreadable(2) [OF 1] by (simp add: require_clear_def)
next
  case 2
  then show ?thesis by simp
next
  case (3 d xs)
  have get: "dict_get (load_incident f) name = dict_get d name" if "name \<noteq> u ''artifacts''" for name
    using that 3 by simp
  obtain b where b: "dict_get d (u ''open'') = Some (JBool b)"
    using 3(2) by (auto simp: incident_dict_ok_def split: option.splits json.splits)
  have "\<exists>s. dict_get d name = Some (JStr s) \<and> safe_metadata s"
    if "b" "name \<in> set evidence_fields" for name
  proof -
    have n: "name \<noteq> u ''open''" "name \<noteq> u ''artifacts''" using that(2) evidence_fields_distinct by auto
    have "json_truthy (dict_get d name)"
      using assms that get b n by (auto simp: require_clear_def check_incident_def Let_def filter_empty_conv
          split: if_splits)
    then obtain v where v: "dict_get d name = Some v" "v \<noteq> JNull" by (cases "dict_get d name"; cases "the (dict_get d name)") auto
    then have "(name, v) \<in> set d" by (auto dest: map_of_SomeD)
    with 3(2) have "incident_entry_ok (name, v)" by (auto simp: incident_dict_ok_def list_all_iff)
    with v n show ?thesis by (auto split: json.splits)
  qed
  with 3 b show ?thesis by (cases b) auto
qed

theorem incident_gate_fails_closed_witness:
  "require_clear (IncidentJson (JObj [(u ''open'', JBool False)])) = Inr () \<and>
   incident_dict_ok [(u ''open'', JBool False)]"
proof -
  have "require_clear (IncidentJson (JObj [(u ''open'', JBool False)])) = Inr ()"
    by (simp add: require_clear_def check_incident_def load_incident_def incident_dict_ok_def
        persisted_fields_def incident_artifacts_def)
  from incident_gate_fails_closed [OF this] this show ?thesis by auto
qed

end
