(* ===== verification/Call_Models.thy ===== *)
theory Call_Models
  imports Records
begin

text \<open>
  The validated data of \<open>domain/models.py\<close>, second half: messages and model calls, state resolution,
  tools and tool history, source references and configuration assets, the temporal history models,
  request parts and drafts, usage estimates, send payloads and approvals.

  Values of the type \<open>float\<close> that the code only stores are an argument \<open>'f\<close> of the record.
\<close>

type_synonym jdict = "(pystr \<times> json) list"

subsection \<open>Messages and completions\<close>

datatype trust_level = TrustedInstruction | TrustedMetadata | UserInstruction | UntrustedData

record message =
  ms_role :: pystr
  ms_content :: pystr
  ms_trust :: trust_level
  ms_tool_call_id :: "pystr option"
  ms_tool_calls :: "jdict list"

definition message_ok :: "message \<Rightarrow> bool" where
  "message_ok m \<longleftrightarrow>
     \<not> (ms_tool_calls m \<noteq> [] \<and> ms_role m \<noteq> u ''assistant'') \<and>
     \<not> (ms_tool_call_id m \<noteq> None \<and> ms_role m \<noteq> u ''tool'')"

record completion_request =
  cq_flow_id :: pystr
  cq_turn_id :: pystr
  cq_messages :: "message list"
  cq_tool_definitions :: "jdict list"
  cq_model_profile_id :: pystr
  cq_deadline_seconds :: "pystr option"
  cq_metadata :: jdict

record completion_result =
  cr_text :: pystr
  cr_finish_reason :: pystr
  cr_tool_calls :: "jdict list"
  cr_usage :: "(pystr \<times> int) list"
  cr_usage_unavailable_reason :: "pystr option"
  cr_accepted_at :: "py_datetime option"
  cr_origin_call_id :: "pystr option"

text \<open>A missing time is accepted; a present one must be aware.\<close>

definition optional_aware :: "py_datetime option \<Rightarrow> bool" where
  "optional_aware t = (case t of None \<Rightarrow> True | Some d \<Rightarrow> is_aware d)"

definition completion_result_ok :: "completion_result \<Rightarrow> bool" where
  "completion_result_ok r \<longleftrightarrow>
     optional_aware (cr_accepted_at r) \<and>
     (cr_accepted_at r = None) = (cr_origin_call_id r = None) \<and>
     \<not> (cr_accepted_at r \<noteq> None \<and> cr_tool_calls r = [])"

subsection \<open>State resolution\<close>

record state_resolution_context =
  sx_turn_id :: pystr
  sx_untrusted_text :: pystr

record state_resolution_result =
  sn_state_id :: pystr
  sn_ordered_persona_ids :: "pystr list"
  sn_resolver_id :: pystr
  sn_resolver_version :: pystr
  sn_reason_code :: pystr

definition state_resolution_result_ok :: "state_resolution_result \<Rightarrow> bool" where
  "state_resolution_result_ok r \<longleftrightarrow> distinct (sn_ordered_persona_ids r)"

record agent_state_definition =
  as_state_id :: pystr
  as_ordered_persona_ids :: "pystr list"
  as_enabled :: bool

definition agent_state_definition_ok :: "agent_state_definition \<Rightarrow> bool" where
  "agent_state_definition_ok s \<longleftrightarrow>
     as_state_id s \<noteq> [] \<and> distinct (as_ordered_persona_ids s) \<and>
     list_all (\<lambda>i. i \<noteq> []) (as_ordered_persona_ids s)"

subsection \<open>Sources\<close>

datatype source_kind = SrcConfigFile | SrcDataFile | SrcRuntime | SrcGenerated

text \<open>\<open>PurePosixPath(p.replace("\\", "/"))\<close>: absolute paths and the parts of a path.\<close>

definition posix_path :: "pystr \<Rightarrow> pystr" where
  "posix_path p = map (\<lambda>c. if c = 92 then 47 else c) p"

definition path_is_absolute :: "pystr \<Rightarrow> bool" where
  "path_is_absolute p \<longleftrightarrow> take 1 p = [47]"

definition path_parts :: "pystr \<Rightarrow> pystr list" where
  "path_parts p = filter (\<lambda>x. x \<noteq> [] \<and> x \<noteq> [46]) (split_on 47 p)"

definition project_relative :: "pystr \<Rightarrow> bool" where
  "project_relative p \<longleftrightarrow>
     \<not> path_is_absolute (posix_path p) \<and> u ''..'' \<notin> set (path_parts (posix_path p))"

record config_asset =
  ca_asset_id :: pystr
  ca_kind :: pystr
  ca_path :: pystr
  ca_content :: pystr
  ca_content_sha256 :: pystr
  ca_revision :: pystr

definition config_asset_ok :: "config_asset \<Rightarrow> bool" where
  "config_asset_ok a \<longleftrightarrow>
     ca_asset_id a \<noteq> [] \<and> ca_kind a \<noteq> [] \<and> ca_path a \<noteq> [] \<and>
     project_relative (ca_path a) \<and> take 1 (ca_path a) \<noteq> [47] \<and> take 1 (ca_path a) \<noteq> [92] \<and>
     ca_content_sha256 a = content_hash (ca_content a) \<and>
     startswith (ca_revision a) (u ''sha256:'') \<and> length (ca_revision a) = 71"

record source_ref =
  sf_source_kind :: source_kind
  sf_source_id :: pystr
  sf_path :: "pystr option"
  sf_content_sha256 :: "pystr option"
  sf_revision :: "pystr option"
  sf_entity_ids :: "pystr list"
  sf_producer :: pystr

definition source_ref_ok :: "source_ref \<Rightarrow> bool" where
  "source_ref_ok s \<longleftrightarrow>
     sf_source_id s \<noteq> [] \<and> sf_producer s \<noteq> [] \<and>
     (if sf_source_kind s = SrcConfigFile \<or> sf_source_kind s = SrcDataFile
      then (case sf_path s of
              None \<Rightarrow> False
            | Some p \<Rightarrow> p \<noteq> [] \<and> sf_content_sha256 s \<noteq> None \<and> sf_content_sha256 s \<noteq> Some [] \<and>
                project_relative p)
      else sf_path s = None) \<and>
     (sf_source_kind s = SrcRuntime \<longrightarrow> sf_entity_ids s \<noteq> [])"

text \<open>A file the code never reads as one: no path outside the project is ever attributed.\<close>

lemma source_ref_file_relative:
  "source_ref_ok s \<Longrightarrow> sf_path s = Some p \<Longrightarrow> project_relative p"
  by (auto simp: source_ref_ok_def split: if_splits)

subsection \<open>Tools\<close>

datatype tool_outcome =
    ToolSuccess | ToolInvalidArguments | ToolNotFound | ToolDenied | ToolTimeout | ToolExecutionFailure

datatype tool_history_kind = ToolCallBatch | ToolResultEvent

definition tool_name_char :: "nat \<Rightarrow> bool" where
  "tool_name_char c \<longleftrightarrow> is_ascii_alnum c \<or> c = 95 \<or> c = 45"

record tool_definition =
  td_tool_id :: pystr
  td_name :: pystr
  td_description :: pystr
  td_input_schema :: jdict
  td_output_schema :: jdict
  td_safety :: jdict

definition tool_definition_ok :: "tool_definition \<Rightarrow> bool" where
  "tool_definition_ok t \<longleftrightarrow>
     1 \<le> length (td_name t) \<and> length (td_name t) \<le> 64 \<and> list_all tool_name_char (td_name t)"

record tool_execution_context =
  tx_flow_id :: pystr
  tx_turn_id :: pystr
  tx_persona_id :: pystr
  tx_state_id :: pystr
  tx_config_revision :: pystr
  tx_trigger_record_id :: "pystr option"

record tool_call =
  tc_call_id :: pystr
  tc_name :: pystr
  tc_arguments :: jdict

record tool_result =
  tr_call_id :: pystr
  tr_outcome :: tool_outcome
  tr_data :: jdict
  tr_error_code :: "pystr option"
  tr_completed_at :: "py_datetime option"
  tr_origin_id :: "pystr option"

definition tool_result_ok :: "tool_result \<Rightarrow> bool" where
  "tool_result_ok r \<longleftrightarrow>
     optional_aware (tr_completed_at r) \<and> (tr_completed_at r = None) = (tr_origin_id r = None)"

record tool_history_event =
  th_event_id :: pystr
  th_kind :: tool_history_kind
  th_occurred_at :: py_datetime
  th_original_body :: pystr
  th_role :: pystr
  th_tool_calls :: "tool_call list"
  th_tool_call_id :: "pystr option"
  th_sources :: "source_ref list"

definition tool_history_event_ok :: "tool_history_event \<Rightarrow> bool" where
  "tool_history_event_ok e \<longleftrightarrow>
     th_event_id e \<noteq> [] \<and> th_sources e \<noteq> [] \<and> list_all source_ref_ok (th_sources e) \<and>
     is_aware (th_occurred_at e) \<and>
     (if th_kind e = ToolCallBatch
      then th_role e = u ''assistant'' \<and> th_tool_calls e \<noteq> [] \<and> th_tool_call_id e = None
      else th_role e = u ''tool'' \<and> th_tool_calls e = [] \<and> th_tool_call_id e \<noteq> None \<and>
           th_tool_call_id e \<noteq> Some [])"

subsection \<open>Temporal history\<close>

datatype temporal_kind = TimeEvent | TimeSourceRange | TimeRecorded

datatype marker_reason = ReasonFirst | ReasonLongGap | ReasonDateChange | ReasonRefresh | ReasonReversal

datatype fragment_kind = FragMarker | FragTimeMetadata | FragBody | FragSeparator

text \<open>The bounds are kept as instants; the offset they were written with plays no role after validation.\<close>

record temporal_span =
  ts_start :: int
  ts_end :: int
  ts_kind :: temporal_kind

definition make_temporal_span :: "py_datetime \<Rightarrow> py_datetime \<Rightarrow> temporal_kind \<Rightarrow> temporal_span result" where
  "make_temporal_span start end kind =
     (if \<not> is_aware start \<or> \<not> is_aware end then Inl ValidationExn
      else if instant end < instant start then Inl ValidationExn
      else if (kind = TimeEvent \<or> kind = TimeRecorded) \<and> instant start \<noteq> instant end then Inl ValidationExn
      else Inr \<lparr>ts_start = instant start, ts_end = instant end, ts_kind = kind\<rparr>)"

definition temporal_span_ok :: "temporal_span \<Rightarrow> bool" where
  "temporal_span_ok s \<longleftrightarrow>
     ts_start s \<le> ts_end s \<and>
     ((ts_kind s = TimeEvent \<or> ts_kind s = TimeRecorded) \<longrightarrow> ts_start s = ts_end s)"

lemma make_temporal_span_ok: "make_temporal_span a b k = Inr s \<Longrightarrow> temporal_span_ok s"
  by (auto simp: make_temporal_span_def temporal_span_ok_def split: if_splits)

record temporal_entry =
  te_entry_id :: pystr
  te_body :: pystr
  te_span :: temporal_span
  te_sources :: "source_ref list"
  te_trust :: trust_level
  te_metadata :: jdict

definition temporal_entry_ok :: "temporal_entry \<Rightarrow> bool" where
  "temporal_entry_ok e \<longleftrightarrow>
     te_entry_id e \<noteq> [] \<and> temporal_span_ok (te_span e) \<and> te_sources e \<noteq> [] \<and>
     list_all source_ref_ok (te_sources e)"

text \<open>
  The display zone is the offset in seconds at an instant, a parameter (the IANA data of the
  system); durations are in microseconds.
\<close>

record temporal_policy =
  tp_zone :: "int \<Rightarrow> int"
  tp_zone_key :: pystr
  tp_zone_name :: pystr
  tp_long_gap :: int
  tp_refresh :: int
  tp_split_on_date :: bool
  tp_source :: source_ref

definition temporal_policy_ok :: "temporal_policy \<Rightarrow> bool" where
  "temporal_policy_ok p \<longleftrightarrow>
     tp_zone_name p \<noteq> [] \<and> source_ref_ok (tp_source p) \<and> tp_zone_key p = tp_zone_name p \<and>
     \<not> tp_long_gap p \<le> 0 \<and> \<not> tp_refresh p < tp_long_gap p"

record temporal_marker =
  tm_before_entry_id :: pystr
  tm_text :: pystr
  tm_reasons :: "marker_reason set"
  tm_span :: temporal_span
  tm_sources :: "source_ref list"
  tm_trust :: trust_level

definition temporal_marker_ok :: "temporal_marker \<Rightarrow> bool" where
  "temporal_marker_ok m \<longleftrightarrow>
     tm_before_entry_id m \<noteq> [] \<and> tm_text m \<noteq> [] \<and> tm_reasons m \<noteq> {} \<and>
     temporal_span_ok (tm_span m) \<and> tm_sources m \<noteq> [] \<and> list_all source_ref_ok (tm_sources m) \<and>
     tm_trust m = UntrustedData"

record fragment =
  af_fragment_id :: pystr
  af_kind :: fragment_kind
  af_entry_id :: pystr
  af_start :: int
  af_end :: int
  af_content :: pystr
  af_sources :: "source_ref list"
  af_trust :: trust_level

definition fragment_ok :: "fragment \<Rightarrow> bool" where
  "fragment_ok f \<longleftrightarrow>
     af_fragment_id f \<noteq> [] \<and> af_entry_id f \<noteq> [] \<and> af_start f \<ge> 0 \<and> af_end f \<ge> 0 \<and>
     af_sources f \<noteq> [] \<and> list_all source_ref_ok (af_sources f) \<and>
     \<not> (af_end f < af_start f \<or> af_end f - af_start f \<noteq> int (length (af_content f))) \<and>
     \<not> (af_kind f = FragMarker \<and> af_trust f \<noteq> UntrustedData) \<and>
     \<not> (af_kind f = FragTimeMetadata \<and> af_trust f \<noteq> TrustedMetadata)"

record annotated_history =
  ah_text :: pystr
  ah_entries :: "temporal_entry list"
  ah_fragments :: "fragment list"
  ah_markers :: "temporal_marker list"

text \<open>\<open>text[a:b]\<close> for bounds within the text.\<close>

definition slice :: "'a list \<Rightarrow> int \<Rightarrow> int \<Rightarrow> 'a list" where
  "slice xs a b = take (nat (b - a)) (drop (nat a) xs)"

text \<open>The loop of \<open>validate_history\<close> over the fragments, with its cursor.\<close>

fun fragments_cover :: "pystr \<Rightarrow> int \<Rightarrow> fragment list \<Rightarrow> bool" where
  "fragments_cover text cursor [] = (cursor = int (length text))"
| "fragments_cover text cursor (f # fs) =
     (\<not> (af_start f \<noteq> cursor \<or> af_end f > int (length text)) \<and>
      slice text (af_start f) (af_end f) = af_content f \<and>
      fragments_cover text (af_end f) fs)"

definition annotated_history_ok :: "annotated_history \<Rightarrow> bool" where
  "annotated_history_ok h \<longleftrightarrow>
     distinct (map te_entry_id (ah_entries h)) \<and>
     distinct (map tm_before_entry_id (ah_markers h)) \<and>
     list_all (\<lambda>m. tm_before_entry_id m \<in> te_entry_id ` set (ah_entries h)) (ah_markers h) \<and>
     distinct (map af_fragment_id (ah_fragments h)) \<and>
     fragments_cover (ah_text h) 0 (ah_fragments h) \<and>
     \<not> (ah_entries h = [] \<and> (ah_text h \<noteq> [] \<or> ah_fragments h \<noteq> [] \<or> ah_markers h \<noteq> []))"

subsection \<open>Request parts, drafts and prepared requests\<close>

datatype participation = PartIncluded | PartExcluded | PartEmpty | PartUnknownSource

record request_part =
  rp_part_id :: pystr
  rp_order :: int
  rp_participation :: participation
  rp_trust :: trust_level
  rp_pointer :: "pystr option"
  rp_text_span :: "(int \<times> int) option"
  rp_content :: pystr
  rp_sources :: "source_ref list"
  rp_exclusion_reason :: "pystr option"

definition request_part_ok :: "request_part \<Rightarrow> bool" where
  "request_part_ok p \<longleftrightarrow>
     rp_part_id p \<noteq> [] \<and> rp_order p \<ge> 0 \<and> list_all source_ref_ok (rp_sources p) \<and>
     (if rp_participation p = PartIncluded
      then rp_pointer p \<noteq> None \<and> rp_pointer p \<noteq> Some [] \<and> rp_sources p \<noteq> [] \<and>
           (case rp_text_span p of None \<Rightarrow> True | Some (a, b) \<Rightarrow> 0 \<le> a \<and> a \<le> b)
      else if rp_participation p = PartUnknownSource \<and> rp_sources p \<noteq> [] then False
      else \<not> ((rp_exclusion_reason p = None \<or> rp_exclusion_reason p = Some []) \<and>
              rp_participation p \<noteq> PartEmpty))"

record model_call_draft =
  dr_call_id :: pystr
  dr_turn_id :: pystr
  dr_flow_id :: pystr
  dr_call_sequence :: int
  dr_purpose :: pystr
  dr_persona_id :: "pystr option"
  dr_state_id :: "pystr option"
  dr_config_revision :: pystr
  dr_model_profile_id :: pystr
  dr_request :: completion_request
  dr_parts :: "request_part list"

definition model_call_draft_ok :: "model_call_draft \<Rightarrow> bool" where
  "model_call_draft_ok d \<longleftrightarrow>
     dr_call_id d \<noteq> [] \<and> dr_turn_id d \<noteq> [] \<and> dr_flow_id d \<noteq> [] \<and> dr_call_sequence d \<ge> 0 \<and>
     dr_purpose d \<noteq> [] \<and> list_all request_part_ok (dr_parts d) \<and>
     sorted (map rp_order (dr_parts d)) \<and> distinct (map rp_order (dr_parts d)) \<and>
     distinct (map rp_part_id (dr_parts d))"

record prepared_request =
  pq_call_id :: pystr
  pq_attempt :: int
  pq_provider_id :: pystr
  pq_model :: pystr
  pq_provider_request :: pyval
  pq_max_output_tokens :: int
  pq_parts :: "request_part list"
  pq_call_sequence :: int
  pq_purpose :: pystr
  pq_turn_id :: pystr
  pq_flow_id :: pystr
  pq_persona_id :: "pystr option"
  pq_state_id :: "pystr option"
  pq_config_revision :: pystr

text \<open>The provider request is frozen before the fields are validated.\<close>

definition make_prepared_request :: "prepared_request \<Rightarrow> prepared_request result" where
  "make_prepared_request p =
     (case freeze_json (pq_provider_request p) of
        Inl _ \<Rightarrow> Inl ValidationExn
      | Inr frozen \<Rightarrow>
          validated (\<lambda>p. pq_attempt p \<ge> 1 \<and> pq_max_output_tokens p > 0 \<and> pq_call_sequence p \<ge> 1 \<and>
              list_all request_part_ok (pq_parts p))
            (p\<lparr>pq_provider_request := frozen\<rparr>))"

subsection \<open>Materialised payloads and approvals\<close>

record send_payload =
  sp_call_id :: pystr
  sp_attempt :: int
  sp_provider_id :: pystr
  sp_model :: pystr
  sp_sdk_kwargs :: pyval
  sp_sha256 :: pystr

text \<open>\<open>content_hash(canonical_json(thaw_json(kwargs)))\<close>.\<close>

definition payload_digest :: "pyval \<Rightarrow> pystr result" where
  "payload_digest v = rbind (json_of_pyval (thaw_json v)) (\<lambda>j. Inr (content_hash (canonical_json j)))"

fun is_mapping :: "pyval \<Rightarrow> bool" where
  "is_mapping (PDict _) = True"
| "is_mapping (PProxy _) = True"
| "is_mapping _ = False"

definition create_payload :: "pystr \<Rightarrow> int \<Rightarrow> pystr \<Rightarrow> pystr \<Rightarrow> pyval \<Rightarrow> send_payload result" where
  "create_payload call_id attempt provider_id model sdk_kwargs =
     rbind (freeze_json sdk_kwargs) (\<lambda>frozen.
     if \<not> is_mapping frozen then Inl ValueExn
     else rbind (payload_digest frozen) (\<lambda>digest.
       Inr \<lparr>sp_call_id = call_id, sp_attempt = attempt, sp_provider_id = provider_id,
            sp_model = model, sp_sdk_kwargs = frozen, sp_sha256 = digest\<rparr>))"

definition verify_digest :: "send_payload \<Rightarrow> unit result" where
  "verify_digest p =
     rbind (payload_digest (sp_sdk_kwargs p)) (\<lambda>digest. require (digest = sp_sha256 p) ValueExn)"

datatype approval_value = Approve | Reject

record approval_decision =
  ad_decision :: approval_value
  ad_call_id :: pystr
  ad_attempt :: int
  ad_payload_sha256 :: pystr

definition make_decision :: "approval_value \<Rightarrow> send_payload \<Rightarrow> approval_decision result" where
  "make_decision v p =
     validated (\<lambda>d. ad_attempt d \<ge> 1)
       \<lparr>ad_decision = v, ad_call_id = sp_call_id p, ad_attempt = sp_attempt p,
        ad_payload_sha256 = sp_sha256 p\<rparr>"

definition validate_payload :: "approval_decision \<Rightarrow> send_payload \<Rightarrow> unit result" where
  "validate_payload d p =
     rbind (verify_digest p) (\<lambda>_.
     require (\<not> (ad_call_id d \<noteq> sp_call_id p \<or> ad_attempt d \<noteq> sp_attempt p
                 \<or> ad_payload_sha256 d \<noteq> sp_sha256 p)) ValueExn)"

subsection \<open>Usage\<close>

record 'f usage_estimate =
  ue_status :: pystr
  ue_input_tokens :: "int option"
  ue_part_tokens :: "(pystr \<times> int) list"
  ue_protocol_overhead :: "int option"
  ue_max_output_tokens :: int
  ue_projected_peak :: "int option"
  ue_context_capacity :: "int option"
  ue_projected_percent :: "'f option"
  ue_projected_remaining :: "int option"
  ue_risk :: "pystr option"
  ue_method :: "pystr option"
  ue_confidence :: "pystr option"
  ue_reason :: "pystr option"

definition opt_ge :: "int \<Rightarrow> int option \<Rightarrow> bool" where
  "opt_ge n x = (case x of None \<Rightarrow> True | Some v \<Rightarrow> v \<ge> n)"

definition usage_estimate_ok :: "'f usage_estimate \<Rightarrow> bool" where
  "usage_estimate_ok e \<longleftrightarrow>
     opt_ge 0 (ue_input_tokens e) \<and> opt_ge 0 (ue_protocol_overhead e) \<and> ue_max_output_tokens e \<ge> 0 \<and>
     opt_ge 0 (ue_projected_peak e) \<and> opt_ge 1 (ue_context_capacity e) \<and>
     (if ue_status e = u ''estimated''
      then (case (ue_input_tokens e, ue_protocol_overhead e) of
              (Some i, Some ov) \<Rightarrow>
                i = sum_list (map snd (ue_part_tokens e)) + ov \<and>
                ue_projected_peak e = Some (i + ue_max_output_tokens e)
            | _ \<Rightarrow> False)
      else ue_reason e \<noteq> None \<and> ue_reason e \<noteq> Some [])"

record 'f actual_usage =
  au_status :: pystr
  au_input :: "int option"
  au_output :: "int option"
  au_total :: "int option"
  au_percent :: "'f option"
  au_estimated_input :: "int option"
  au_estimation_error :: "int option"
  au_reason :: "pystr option"

definition actual_usage_ok :: "'f actual_usage \<Rightarrow> bool" where
  "actual_usage_ok s \<longleftrightarrow>
     opt_ge 0 (au_input s) \<and> opt_ge 0 (au_output s) \<and> opt_ge 0 (au_total s) \<and>
     opt_ge 0 (au_estimated_input s)"

text \<open>\<open>ActualUsageSummary.actual\<close>; the percentage is \<open>percent total capacity\<close>, float arithmetic.\<close>

definition make_actual_usage ::
  "(int \<Rightarrow> int \<Rightarrow> 'f) \<Rightarrow> int \<Rightarrow> int \<Rightarrow> int option \<Rightarrow> int option \<Rightarrow> 'f actual_usage result"
where
  "make_actual_usage percent input output capacity estimated =
     validated actual_usage_ok
       \<lparr>au_status = u ''actual'', au_input = Some input, au_output = Some output,
        au_total = Some (input + output),
        au_percent = (case capacity of None \<Rightarrow> None
                      | Some c \<Rightarrow> if c = 0 then None else Some (percent (input + output) c)),
        au_estimated_input = estimated,
        au_estimation_error = map_option (\<lambda>e. input - e) estimated, au_reason = None\<rparr>"

definition unavailable_usage :: "pystr \<Rightarrow> 'f actual_usage" where
  "unavailable_usage reason =
     \<lparr>au_status = u ''unavailable'', au_input = None, au_output = None, au_total = None,
      au_percent = None, au_estimated_input = None, au_estimation_error = None,
      au_reason = Some reason\<rparr>"

subsection \<open>Binding an approval to a payload\<close>

text \<open>A created payload holds only frozen values and carries the digest of what will be sent.\<close>

lemma create_payload_Inr:
  assumes "create_payload c n prov m kw = Inr p"
  shows "is_frozen (sp_sdk_kwargs p)" "sp_call_id p = c" "sp_attempt p = n"
    "payload_digest (sp_sdk_kwargs p) = Inr (sp_sha256 p)" "freeze_json kw = Inr (sp_sdk_kwargs p)"
  using assms by (auto simp: create_payload_def rbind_Inr_iff if_Inl_iff dest: freeze_is_frozen)

lemma create_payload_verifies: "create_payload c n prov m kw = Inr p \<Longrightarrow> verify_digest p = Inr ()"
  by (simp add: verify_digest_def create_payload_Inr(4))

lemma validate_payload_iff:
  "validate_payload d p = Inr () \<longleftrightarrow>
     payload_digest (sp_sdk_kwargs p) = Inr (sp_sha256 p) \<and> ad_call_id d = sp_call_id p \<and>
     ad_attempt d = sp_attempt p \<and> ad_payload_sha256 d = sp_sha256 p"
  by (auto simp: validate_payload_def verify_digest_def rbind_Inr_iff)

end
