(* ===== verification/Annotate.thy ===== *)
theory Annotate
  imports Call_Models
begin

text \<open>
  \<open>prompting/boundaries.py\<close> and \<open>prompting/temporal.py\<close>: building prompt text out of located
  fragments. \<open>position_pieces\<close> locates pieces by appending; \<open>annotate_history\<close> scans the log entries
  once, deciding where a time marker goes, and appends the same way; the boundary renderer frames a
  block of untrusted text. Lemmas show that the fragments tile the text they came with, that the
  validators of the fragment and history models accept them, and when an entry has no marker.
\<close>

subsection \<open>Locating fragments by appending\<close>

text \<open>The three variables of the loops: the text parts, the fragments and the cursor.\<close>

record text_builder =
  tb_text :: pystr
  tb_fragments :: "fragment list"
  tb_cursor :: int

definition empty_builder :: text_builder where
  "empty_builder = \<lparr>tb_text = [], tb_fragments = [], tb_cursor = 0\<rparr>"

text \<open>\<open>append_fragment\<close>, also the loop body of \<open>position_pieces\<close>: empty content is skipped.\<close>

definition append_fragment ::
  "pystr \<Rightarrow> fragment_kind \<Rightarrow> pystr \<Rightarrow> pystr \<Rightarrow> source_ref list \<Rightarrow> trust_level \<Rightarrow> text_builder \<Rightarrow>
   text_builder result"
where
  "append_fragment fragment_id kind entry_id content sources trust b =
     (if content = [] then Inr b
      else (let cursor = tb_cursor b + int (length content)
            in rbind (validated fragment_ok
                 \<lparr>af_fragment_id = fragment_id, af_kind = kind, af_entry_id = entry_id,
                  af_start = tb_cursor b, af_end = cursor, af_content = content,
                  af_sources = sources, af_trust = trust\<rparr>)
               (\<lambda>f. Inr \<lparr>tb_text = tb_text b @ content, tb_fragments = tb_fragments b @ [f],
                         tb_cursor = cursor\<rparr>)))"

text \<open>Fragments that follow one another from a position on, each as long as its content.\<close>

fun tiled :: "int \<Rightarrow> fragment list \<Rightarrow> bool" where
  "tiled c [] = True"
| "tiled c (f # fs) =
     (af_start f = c \<and> af_end f = c + int (length (af_content f)) \<and> tiled (af_end f) fs)"

definition fragments_text :: "fragment list \<Rightarrow> pystr" where
  "fragments_text fs = concat (map af_content fs)"

definition builder_ok :: "text_builder \<Rightarrow> bool" where
  "builder_ok b \<longleftrightarrow>
     tb_text b = fragments_text (tb_fragments b) \<and> tb_cursor b = int (length (tb_text b)) \<and>
     tiled 0 (tb_fragments b) \<and> list_all fragment_ok (tb_fragments b) \<and>
     list_all (\<lambda>f. af_content f \<noteq> []) (tb_fragments b)"

lemma tiled_append:
  "tiled c (fs @ gs) \<longleftrightarrow> tiled c fs \<and> tiled (c + int (length (fragments_text fs))) gs"
proof (induction fs arbitrary: c)
  case Nil
  then show ?case by (simp add: fragments_text_def)
next
  case (Cons f fs)
  show ?case
    unfolding append_Cons tiled.simps Cons.IH
    by (auto simp: fragments_text_def add.assoc)
qed

lemma fragments_text_simps [simp]:
  "fragments_text [] = []" "fragments_text (f # fs) = af_content f @ fragments_text fs"
  "fragments_text (fs @ gs) = fragments_text fs @ fragments_text gs"
  by (simp_all add: fragments_text_def)

lemma builder_ok_empty [simp]: "builder_ok empty_builder"
  by (simp add: builder_ok_def empty_builder_def)

text \<open>When appending succeeds, and what it adds.\<close>

definition piece_ok :: "pystr \<Rightarrow> fragment_kind \<Rightarrow> pystr \<Rightarrow> source_ref list \<Rightarrow> trust_level \<Rightarrow> bool" where
  "piece_ok fragment_id kind entry_id sources trust \<longleftrightarrow>
     fragment_id \<noteq> [] \<and> entry_id \<noteq> [] \<and> sources \<noteq> [] \<and> list_all source_ref_ok sources \<and>
     (kind = FragMarker \<longrightarrow> trust = UntrustedData) \<and>
     (kind = FragTimeMetadata \<longrightarrow> trust = TrustedMetadata)"

lemma append_fragment_ok:
  assumes "builder_ok b" and "piece_ok i k e s t"
  shows "\<exists>b'. append_fragment i k e c s t b = Inr b' \<and> builder_ok b' \<and> tb_text b' = tb_text b @ c \<and>
    map af_fragment_id (tb_fragments b') = map af_fragment_id (tb_fragments b) @ (if c = [] then [] else [i])"
  using assms
  by (auto simp: append_fragment_def Let_def validated_def fragment_ok_def piece_ok_def builder_ok_def
      tiled_append)

lemma append_fragment_sound:
  assumes "append_fragment i k e c s t b = Inr b'" and "builder_ok b"
  shows "builder_ok b'" and "tb_text b' = tb_text b @ c"
  using assms
  by (auto simp: append_fragment_def Let_def rbind_Inr_iff fragment_ok_def builder_ok_def tiled_append
      split: if_splits)

text \<open>Tiled fragments pass the loop of the history validator.\<close>

lemma tiled_fragments_cover:
  "tiled (int (length pre)) fs \<Longrightarrow> fragments_cover (pre @ fragments_text fs) (int (length pre)) fs"
proof (induction fs arbitrary: pre)
  case Nil
  then show ?case by simp
next
  case (Cons f fs)
  have "fragments_cover ((pre @ af_content f) @ fragments_text fs) (int (length (pre @ af_content f))) fs"
    using Cons.prems by (intro Cons.IH) auto
  with Cons.prems show ?case
    by (auto simp: slice_def nat_add_distrib)
qed

lemma builder_ok_cover: "builder_ok b \<Longrightarrow> fragments_cover (tb_text b) 0 (tb_fragments b)"
  using tiled_fragments_cover [of "[]" "tb_fragments b"] by (simp add: builder_ok_def)

text \<open>Each fragment reads back from the final text at its own position.\<close>

lemma fragments_cover_slice:
  "fragments_cover t c fs \<Longrightarrow> f \<in> set fs \<Longrightarrow> slice t (af_start f) (af_end f) = af_content f"
  by (induction t c fs rule: fragments_cover.induct) auto

subsection \<open>Positioning pieces\<close>

record text_piece =
  px_piece_id :: pystr
  px_content :: pystr
  px_sources :: "source_ref list"
  px_trust :: trust_level
  px_entry_id :: "pystr option"
  px_kind :: fragment_kind

definition pieces_from_fragments :: "fragment list \<Rightarrow> text_piece list" where
  "pieces_from_fragments fs =
     map (\<lambda>f. \<lparr>px_piece_id = af_fragment_id f, px_content = af_content f, px_sources = af_sources f,
              px_trust = af_trust f, px_entry_id = Some (af_entry_id f), px_kind = af_kind f\<rparr>) fs"

definition piece_entry :: "text_piece \<Rightarrow> pystr" where
  "piece_entry p = (if falsy (px_entry_id p) then px_piece_id p else the (px_entry_id p))"

fun position_loop :: "text_piece list \<Rightarrow> text_builder \<Rightarrow> text_builder result" where
  "position_loop [] b = Inr b"
| "position_loop (p # ps) b =
     rbind (append_fragment (px_piece_id p) (px_kind p) (piece_entry p) (px_content p)
              (px_sources p) (px_trust p) b) (position_loop ps)"

definition position_pieces :: "text_piece list \<Rightarrow> (pystr \<times> fragment list) result" where
  "position_pieces pieces =
     rbind (position_loop pieces empty_builder) (\<lambda>b. Inr (tb_text b, tb_fragments b))"

definition text_piece_ok :: "text_piece \<Rightarrow> bool" where
  "text_piece_ok p \<longleftrightarrow> piece_ok (px_piece_id p) (px_kind p) (piece_entry p) (px_sources p) (px_trust p)"

lemma position_loop_ok:
  "builder_ok b \<Longrightarrow> list_all (\<lambda>p. px_content p \<noteq> [] \<longrightarrow> text_piece_ok p) ps \<Longrightarrow>
     \<exists>b'. position_loop ps b = Inr b' \<and> builder_ok b' \<and>
       tb_text b' = tb_text b @ concat (map px_content ps) \<and>
       map af_fragment_id (tb_fragments b') = map af_fragment_id (tb_fragments b) @
         map px_piece_id (filter (\<lambda>p. px_content p \<noteq> []) ps)"
proof (induction ps arbitrary: b)
  case Nil
  then show ?case by simp
next
  case (Cons p ps)
  show ?case
  proof (cases "px_content p = []")
    case True
    with Cons show ?thesis by (simp add: append_fragment_def)
  next
    case False
    then have "text_piece_ok p" using Cons.prems(2) by simp
    then obtain b1 where b1: "append_fragment (px_piece_id p) (px_kind p) (piece_entry p) (px_content p)
        (px_sources p) (px_trust p) b = Inr b1" "builder_ok b1" "tb_text b1 = tb_text b @ px_content p"
      "map af_fragment_id (tb_fragments b1) = map af_fragment_id (tb_fragments b) @ [px_piece_id p]"
      using append_fragment_ok [OF Cons.prems(1)] False unfolding text_piece_ok_def by fastforce
    with Cons.IH [OF b1(2)] Cons.prems(2) False show ?thesis by auto
  qed
qed

lemma position_loop_sound:
  "position_loop ps b = Inr b' \<Longrightarrow> builder_ok b \<Longrightarrow>
     builder_ok b' \<and> tb_text b' = tb_text b @ concat (map px_content ps)"
proof (induction ps arbitrary: b)
  case Nil
  then show ?case by simp
next
  case (Cons p ps)
  then obtain b1 where b1: "append_fragment (px_piece_id p) (px_kind p) (piece_entry p) (px_content p)
      (px_sources p) (px_trust p) b = Inr b1" "position_loop ps b1 = Inr b'"
    by (auto simp: rbind_Inr_iff)
  from append_fragment_sound [OF b1(1) Cons.prems(2)] Cons.IH [OF b1(2)] show ?case by simp
qed

lemma position_pieces_sound:
  assumes "position_pieces ps = Inr (t, fs)"
  shows "t = concat (map px_content ps)" "fragments_text fs = t" "tiled 0 fs"
    "fragments_cover t 0 fs" "list_all fragment_ok fs"
proof -
  from assms obtain b where b: "position_loop ps empty_builder = Inr b" "t = tb_text b" "fs = tb_fragments b"
    by (auto simp: position_pieces_def rbind_Inr_iff)
  from position_loop_sound [OF b(1) builder_ok_empty]
  have "builder_ok b" "tb_text b = concat (map px_content ps)"
    by (simp_all add: empty_builder_def)
  with b(2,3) builder_ok_cover [of b] show "t = concat (map px_content ps)" "fragments_text fs = t" "tiled 0 fs"
    "fragments_cover t 0 fs" "list_all fragment_ok fs"
    by (simp_all add: builder_ok_def)
qed

lemma position_pieces_ok:
  assumes "list_all (\<lambda>p. px_content p \<noteq> [] \<longrightarrow> text_piece_ok p) ps"
  shows "\<exists>fs. position_pieces ps = Inr (concat (map px_content ps), fs) \<and>
    map af_fragment_id fs = map px_piece_id (filter (\<lambda>p. px_content p \<noteq> []) ps)"
  using position_loop_ok [OF builder_ok_empty assms]
  by (auto simp: position_pieces_def rbind_Inr_iff empty_builder_def)

subsection \<open>Formatting a time marker\<close>

text \<open>
  \<open>datetime.strftime("%Y-%m-%d %H:%M %z")\<close> of an instant shown at an offset: the proleptic Gregorian
  date of a day number (days since 1970-01-01, in eras of 146097 days that start in March), the
  hour and minute, and the offset with a colon before its last two digits. The seconds of an
  offset appear only when there are any.
\<close>

definition day_micros :: int where
  "day_micros = 86400000000"

definition local_micros :: "temporal_policy \<Rightarrow> int \<Rightarrow> int" where
  "local_micros policy t = t + 1000000 * tp_zone policy t"

definition local_date :: "temporal_policy \<Rightarrow> int \<Rightarrow> int" where
  "local_date policy t = local_micros policy t div day_micros"

definition civil_date :: "int \<Rightarrow> int \<times> int \<times> int" where
  "civil_date days =
     (let z = days + 719468;
          era = z div 146097;
          doe = z mod 146097;
          yoe = (doe - doe div 1460 + doe div 36524 - doe div 146096) div 365;
          doy = doe - (365 * yoe + yoe div 4 - yoe div 100);
          mp = (5 * doy + 2) div 153;
          d = doy - (153 * mp + 2) div 5 + 1;
          m = (if mp < 10 then mp + 3 else mp - 9)
      in (yoe + era * 400 + (if m \<le> 2 then 1 else 0), m, d))"

definition two_digits :: "int \<Rightarrow> pystr" where
  "two_digits n = zero_pad 2 (nat n)"

definition format_offset :: "int \<Rightarrow> pystr" where
  "format_offset s =
     (let sign = (if s < 0 then 45 else 43); a = \<bar>s\<bar>;
          hm = two_digits (a div 3600) @ two_digits (a div 60 mod 60);
          compact = (if a mod 60 = 0 then hm else hm @ two_digits (a mod 60))
      in sign # take (length compact - 2) compact @ [58] @ drop (length compact - 2) compact)"

definition format_instant :: "temporal_policy \<Rightarrow> int \<Rightarrow> pystr" where
  "format_instant policy t =
     (let loc = local_micros policy t;
          (y, m, d) = civil_date (loc div day_micros);
          minutes = loc mod day_micros div 60000000
      in int_str y @ [45] @ two_digits m @ [45] @ two_digits d @ [32] @
         two_digits (minutes div 60) @ [58] @ two_digits (minutes mod 60) @ [32] @
         format_offset (tp_zone policy t))"

definition format_temporal_marker :: "temporal_span \<Rightarrow> temporal_policy \<Rightarrow> pystr" where
  "format_temporal_marker span policy =
     (let start = format_instant policy (ts_start span)
      in case ts_kind span of
           TimeEvent \<Rightarrow> [91, 26102, 38388, 65306] @ start @ [93]
         | TimeRecorded \<Rightarrow> [91, 35760, 24405, 26102, 38388, 65306] @ start @ [93]
         | TimeSourceRange \<Rightarrow>
             [91, 26102, 38388, 33539, 22260, 65306] @ start @ [32, 33267, 32] @
             format_instant policy (ts_end span) @ [93])"

lemma format_temporal_marker_neq_Nil [simp]: "format_temporal_marker s p \<noteq> []"
  by (simp add: format_temporal_marker_def Let_def split: temporal_kind.splits)

subsection \<open>Annotating a history\<close>

definition marker_sources :: "temporal_policy \<Rightarrow> temporal_entry \<Rightarrow> source_ref list" where
  "marker_sources policy entry = dedup (tp_source policy # te_sources entry)"

text \<open>The reasons collected for an entry, from the entry before it and the entry of the last marker.\<close>

definition marker_reasons ::
  "temporal_policy \<Rightarrow> temporal_entry option \<Rightarrow> temporal_entry option \<Rightarrow> temporal_entry \<Rightarrow> marker_reason set"
where
  "marker_reasons policy previous last_marker entry =
     (case previous of
        None \<Rightarrow> {ReasonFirst}
      | Some prev \<Rightarrow>
          (let current_start = ts_start (te_span entry);
               effective_gap = max (current_start - ts_end (te_span prev)) 0
           in (if tp_long_gap policy \<le> effective_gap then {ReasonLongGap} else {}) \<union>
              (if tp_split_on_date policy \<and>
                  local_date policy (ts_end (te_span prev)) \<noteq> local_date policy current_start
               then {ReasonDateChange} else {}) \<union>
              (if current_start < ts_start (te_span prev) then {ReasonReversal} else {}) \<union>
              (case last_marker of
                 None \<Rightarrow> {}
               | Some lm \<Rightarrow>
                   if tp_refresh policy \<le> current_start - ts_start (te_span lm)
                   then {ReasonRefresh} else {})))"

record annotate_scan =
  an_builder :: text_builder
  an_markers :: "temporal_marker list"
  an_previous :: "temporal_entry option"
  an_last_marker :: "temporal_entry option"

definition make_marker :: "temporal_policy \<Rightarrow> temporal_entry \<Rightarrow> marker_reason set \<Rightarrow> temporal_marker" where
  "make_marker policy entry reasons =
     \<lparr>tm_before_entry_id = te_entry_id entry,
      tm_text = format_temporal_marker (te_span entry) policy, tm_reasons = reasons,
      tm_span = te_span entry, tm_sources = marker_sources policy entry, tm_trust = UntrustedData\<rparr>"

definition annotate_step ::
  "temporal_policy \<Rightarrow> pystr \<Rightarrow> nat \<Rightarrow> temporal_entry \<Rightarrow> annotate_scan \<Rightarrow> annotate_scan result"
where
  "annotate_step policy separator index entry st =
     (let entry_id = te_entry_id entry
      in rbind (if index = 0 then Inr (an_builder st)
                else append_fragment (entry_id @ u '':entry-separator'') FragSeparator entry_id separator
                       (te_sources entry) (te_trust entry) (an_builder st)) (\<lambda>b.
         let reasons = marker_reasons policy (an_previous st) (an_last_marker st) entry
         in rbind
           (if reasons = {} then Inr (b, an_markers st, an_last_marker st)
            else rbind (validated temporal_marker_ok (make_marker policy entry reasons)) (\<lambda>marker.
              rbind (append_fragment (entry_id @ u '':marker'') FragMarker entry_id (tm_text marker)
                       (tm_sources marker) (tm_trust marker) b) (\<lambda>b.
              rbind (if te_body entry = [] then Inr b
                     else append_fragment (entry_id @ u '':marker-separator'') FragSeparator entry_id [10]
                            (tm_sources marker) UntrustedData b) (\<lambda>b.
              Inr (b, an_markers st @ [marker], Some entry)))))
           (\<lambda>(b, markers, last_marker).
             rbind (append_fragment (entry_id @ u '':body'') FragBody entry_id (te_body entry)
                      (te_sources entry) (te_trust entry) b) (\<lambda>b.
             Inr \<lparr>an_builder = b, an_markers = markers, an_previous = Some entry,
                  an_last_marker = last_marker\<rparr>))))"

fun annotate_loop ::
  "temporal_policy \<Rightarrow> pystr \<Rightarrow> nat \<Rightarrow> temporal_entry list \<Rightarrow> annotate_scan \<Rightarrow> annotate_scan result"
where
  "annotate_loop policy separator index [] st = Inr st"
| "annotate_loop policy separator index (e # es) st =
     rbind (annotate_step policy separator index e st) (annotate_loop policy separator (Suc index) es)"

definition annotate_start :: annotate_scan where
  "annotate_start = \<lparr>an_builder = empty_builder, an_markers = [], an_previous = None, an_last_marker = None\<rparr>"

definition annotate_history ::
  "temporal_entry list \<Rightarrow> temporal_policy \<Rightarrow> pystr \<Rightarrow> annotated_history result"
where
  "annotate_history entries policy separator =
     (if entries = [] then
        validated annotated_history_ok \<lparr>ah_text = [], ah_entries = [], ah_fragments = [], ah_markers = []\<rparr>
      else if \<not> distinct (map te_entry_id entries) then
        validated annotated_history_ok \<lparr>ah_text = [], ah_entries = entries, ah_fragments = [], ah_markers = []\<rparr>
      else rbind (annotate_loop policy separator 0 entries annotate_start) (\<lambda>st.
        validated annotated_history_ok
          \<lparr>ah_text = tb_text (an_builder st), ah_entries = entries,
           ah_fragments = tb_fragments (an_builder st), ah_markers = an_markers st\<rparr>))"

subsection \<open>What one entry adds\<close>

definition entry_text :: "temporal_policy \<Rightarrow> pystr \<Rightarrow> nat \<Rightarrow> marker_reason set \<Rightarrow> temporal_entry \<Rightarrow> pystr" where
  "entry_text policy separator index reasons e =
     (if index = 0 then [] else separator) @
     (if reasons = {} then []
      else format_temporal_marker (te_span e) policy @ (if te_body e = [] then [] else [10])) @
     te_body e"

definition entry_fragment_ids :: "pystr \<Rightarrow> nat \<Rightarrow> marker_reason set \<Rightarrow> temporal_entry \<Rightarrow> pystr list" where
  "entry_fragment_ids separator index reasons e =
     (if index = 0 \<or> separator = [] then [] else [te_entry_id e @ u '':entry-separator'']) @
     (if reasons = {} then []
      else (te_entry_id e @ u '':marker'') #
           (if te_body e = [] then [] else [te_entry_id e @ u '':marker-separator''])) @
     (if te_body e = [] then [] else [te_entry_id e @ u '':body''])"

definition body_fragments :: "fragment list \<Rightarrow> (pystr \<times> pystr) list" where
  "body_fragments fs = map (\<lambda>f. (af_entry_id f, af_content f)) (filter (\<lambda>f. af_kind f = FragBody) fs)"

lemma body_fragments_append [simp]: "body_fragments (fs @ gs) = body_fragments fs @ body_fragments gs"
  by (simp add: body_fragments_def)

text \<open>The builder after a successful append, as a value.\<close>

definition appended :: "pystr \<Rightarrow> fragment_kind \<Rightarrow> pystr \<Rightarrow> pystr \<Rightarrow> source_ref list \<Rightarrow> trust_level \<Rightarrow>
   text_builder \<Rightarrow> text_builder" where
  "appended i k e c s t b =
     (if c = [] then b
      else \<lparr>tb_text = tb_text b @ c,
            tb_fragments = tb_fragments b @
              [\<lparr>af_fragment_id = i, af_kind = k, af_entry_id = e, af_start = tb_cursor b,
                af_end = tb_cursor b + int (length c), af_content = c, af_sources = s, af_trust = t\<rparr>],
            tb_cursor = tb_cursor b + int (length c)\<rparr>)"

lemma append_fragment_value:
  assumes "piece_ok i k e s t" and "builder_ok b"
  shows "append_fragment i k e c s t b = Inr (appended i k e c s t b)"
  using assms
  by (auto simp: append_fragment_def appended_def Let_def validated_def fragment_ok_def piece_ok_def builder_ok_def)

lemma appended_ok: "piece_ok i k e s t \<Longrightarrow> builder_ok b \<Longrightarrow> builder_ok (appended i k e c s t b)"
  using append_fragment_value append_fragment_sound(1) by blast

lemma appended_sel:
  "tb_text (appended i k e c s t b) = tb_text b @ c"
  "map af_fragment_id (tb_fragments (appended i k e c s t b)) =
     map af_fragment_id (tb_fragments b) @ (if c = [] then [] else [i])"
  "body_fragments (tb_fragments (appended i k e c s t b)) =
     body_fragments (tb_fragments b) @ (if c = [] \<or> k \<noteq> FragBody then [] else [(e, c)])"
  by (simp_all add: appended_def body_fragments_def)

lemma marker_sources_ok:
  "temporal_entry_ok e \<Longrightarrow> temporal_policy_ok p \<Longrightarrow>
     marker_sources p e \<noteq> [] \<and> list_all source_ref_ok (marker_sources p e)"
  by (auto simp: marker_sources_def temporal_entry_ok_def temporal_policy_ok_def list_all_iff)

lemma make_marker_ok:
  "temporal_entry_ok e \<Longrightarrow> temporal_policy_ok p \<Longrightarrow> rs \<noteq> {} \<Longrightarrow> temporal_marker_ok (make_marker p e rs)"
  using marker_sources_ok [of e p]
  by (auto simp: temporal_marker_ok_def make_marker_def temporal_entry_ok_def)

definition scan_ok :: "annotate_scan \<Rightarrow> bool" where
  "scan_ok st \<longleftrightarrow> builder_ok (an_builder st)"

lemma annotate_step_value:
  assumes "scan_ok st" and e: "temporal_entry_ok e" and p: "temporal_policy_ok policy"
  defines "rs \<equiv> marker_reasons policy (an_previous st) (an_last_marker st) e"
  shows "\<exists>b. annotate_step policy sep index e st =
      Inr \<lparr>an_builder = b,
           an_markers = an_markers st @ (if rs = {} then [] else [make_marker policy e rs]),
           an_previous = Some e, an_last_marker = (if rs = {} then an_last_marker st else Some e)\<rparr> \<and>
    builder_ok b \<and> tb_text b = tb_text (an_builder st) @ entry_text policy sep index rs e \<and>
    map af_fragment_id (tb_fragments b) =
      map af_fragment_id (tb_fragments (an_builder st)) @ entry_fragment_ids sep index rs e \<and>
    body_fragments (tb_fragments b) = body_fragments (tb_fragments (an_builder st)) @
      (if te_body e = [] then [] else [(te_entry_id e, te_body e)])"
proof -
  let ?i = "te_entry_id e"
  have src: "marker_sources policy e \<noteq> []" "list_all source_ref_ok (marker_sources policy e)"
    using marker_sources_ok [OF e p] by auto
  have plain: "piece_ok (?i @ u (s # ss)) FragSeparator ?i (te_sources e) (te_trust e)"
    "piece_ok (?i @ u (s # ss)) FragBody ?i (te_sources e) (te_trust e)"
    "piece_ok (?i @ u (s # ss)) FragMarker ?i (marker_sources policy e) UntrustedData"
    "piece_ok (?i @ u (s # ss)) FragSeparator ?i (marker_sources policy e) UntrustedData" for s ss
    using e src by (auto simp: piece_ok_def temporal_entry_ok_def)
  define b0 where "b0 = (if index = 0 then an_builder st
    else appended (?i @ u '':entry-separator'') FragSeparator ?i sep (te_sources e) (te_trust e) (an_builder st))"
  define b1 where "b1 = (if rs = {} then b0
    else appended (?i @ u '':marker'') FragMarker ?i (format_temporal_marker (te_span e) policy)
      (marker_sources policy e) UntrustedData b0)"
  define b2 where "b2 = (if rs = {} \<or> te_body e = [] then b1
    else appended (?i @ u '':marker-separator'') FragSeparator ?i [10] (marker_sources policy e) UntrustedData b1)"
  define b3 where "b3 = appended (?i @ u '':body'') FragBody ?i (te_body e) (te_sources e) (te_trust e) b2"
  have ok: "builder_ok (an_builder st)" "builder_ok b0" "builder_ok b1" "builder_ok b2" "builder_ok b3"
    using assms(1) appended_ok plain
    by (simp_all add: scan_ok_def b0_def b1_def b2_def b3_def)
  have m: "rs \<noteq> {} \<Longrightarrow> temporal_marker_ok (make_marker policy e rs)"
    using make_marker_ok [OF e p] by simp
  have sel: "tm_text (make_marker policy e rs) = format_temporal_marker (te_span e) policy"
    "tm_sources (make_marker policy e rs) = marker_sources policy e"
    "tm_trust (make_marker policy e rs) = UntrustedData"
    by (simp_all add: make_marker_def)
  have step: "annotate_step policy sep index e st =
      Inr \<lparr>an_builder = b3,
           an_markers = an_markers st @ (if rs = {} then [] else [make_marker policy e rs]),
           an_previous = Some e, an_last_marker = (if rs = {} then an_last_marker st else Some e)\<rparr>"
    unfolding annotate_step_def Let_def rs_def [symmetric] b0_def b1_def b2_def b3_def
    using m ok plain
    by (auto simp: append_fragment_value plain appended_ok sel validated_def)
  show ?thesis
    using step ok(5)
    by (intro exI [of _ b3])
       (auto simp: b3_def b2_def b1_def b0_def appended_sel entry_text_def entry_fragment_ids_def)
qed

text \<open>The identifiers of fragments are unique because no suffix is the end of another one.\<close>

definition fragment_suffixes :: "string set" where
  "fragment_suffixes = {'':entry-separator'', '':marker'', '':marker-separator'', '':body''}"

lemma fragment_id_inj:
  assumes "i @ u s = j @ u t" and "s \<in> fragment_suffixes" and "t \<in> fragment_suffixes"
  shows "i = j \<and> s = t"
proof -
  from assms(1) have "rev (u s) @ rev i = rev (u t) @ rev j"
    by (metis rev_append)
  with assms(2,3) show ?thesis
    by (auto simp: fragment_suffixes_def u_Cons)
qed

lemma entry_fragment_ids_props:
  "distinct (entry_fragment_ids sep index rs e)"
  "x \<in> set (entry_fragment_ids sep index rs e) \<Longrightarrow> \<exists>s\<in>fragment_suffixes. x = te_entry_id e @ u s"
  by (auto simp: entry_fragment_ids_def fragment_suffixes_def split: if_splits)

text \<open>The whole scan: the entries without a marker are the ones with no reason.\<close>

fun scan_marks ::
  "temporal_policy \<Rightarrow> temporal_entry option \<Rightarrow> temporal_entry option \<Rightarrow> temporal_entry list \<Rightarrow>
   marker_reason set list"
where
  "scan_marks policy previous last_marker [] = []"
| "scan_marks policy previous last_marker (e # es) =
     (let rs = marker_reasons policy previous last_marker e
      in rs # scan_marks policy (Some e) (if rs = {} then last_marker else Some e) es)"

lemma length_scan_marks [simp]: "length (scan_marks p a b es) = length es"
  by (induction p a b es rule: scan_marks.induct) (auto simp: Let_def)

definition marks_of :: "temporal_policy \<Rightarrow> (temporal_entry \<times> marker_reason set) list \<Rightarrow> temporal_marker list" where
  "marks_of policy xs = map (\<lambda>(e, rs). make_marker policy e rs) (filter (\<lambda>(e, rs). rs \<noteq> {}) xs)"

definition bodies_of :: "temporal_entry list \<Rightarrow> (pystr \<times> pystr) list" where
  "bodies_of es = map (\<lambda>e. (te_entry_id e, te_body e)) (filter (\<lambda>e. te_body e \<noteq> []) es)"

lemma annotate_loop_value:
  assumes "scan_ok st" and "list_all temporal_entry_ok es" and "temporal_policy_ok policy"
  defines "marks \<equiv> scan_marks policy (an_previous st) (an_last_marker st) es"
  shows "\<exists>st'. annotate_loop policy sep n es st = Inr st' \<and> scan_ok st' \<and>
    an_markers st' = an_markers st @ marks_of policy (zip es marks) \<and>
    tb_text (an_builder st') = tb_text (an_builder st) @
      concat (map (\<lambda>(k, e, rs). entry_text policy sep k rs e) (zip [n..<n + length es] (zip es marks))) \<and>
    map af_fragment_id (tb_fragments (an_builder st')) =
      map af_fragment_id (tb_fragments (an_builder st)) @
      concat (map (\<lambda>(k, e, rs). entry_fragment_ids sep k rs e) (zip [n..<n + length es] (zip es marks))) \<and>
    body_fragments (tb_fragments (an_builder st')) =
      body_fragments (tb_fragments (an_builder st)) @ bodies_of es"
  using assms(1,2) unfolding marks_def
proof (induction es arbitrary: st n)
  case Nil
  then show ?case by (simp add: marks_of_def bodies_of_def)
next
  case (Cons e es)
  define rs where "rs = marker_reasons policy (an_previous st) (an_last_marker st) e"
  obtain b where step: "annotate_step policy sep n e st =
      Inr \<lparr>an_builder = b,
           an_markers = an_markers st @ (if rs = {} then [] else [make_marker policy e rs]),
           an_previous = Some e, an_last_marker = (if rs = {} then an_last_marker st else Some e)\<rparr>"
    (is "_ = Inr ?st1") and b: "builder_ok b"
      "tb_text b = tb_text (an_builder st) @ entry_text policy sep n rs e"
      "map af_fragment_id (tb_fragments b) =
         map af_fragment_id (tb_fragments (an_builder st)) @ entry_fragment_ids sep n rs e"
      "body_fragments (tb_fragments b) = body_fragments (tb_fragments (an_builder st)) @
         (if te_body e = [] then [] else [(te_entry_id e, te_body e)])"
    using annotate_step_value [OF Cons.prems(1) _ assms(3), of e sep n] Cons.prems(2)
    unfolding rs_def by auto
  from Cons.IH [of ?st1 "Suc n"] b(1) Cons.prems(2) obtain st' where
    st': "annotate_loop policy sep (Suc n) es ?st1 = Inr st'" "scan_ok st'"
    and rest: "an_markers st' = an_markers ?st1 @ marks_of policy (zip es
        (scan_marks policy (an_previous ?st1) (an_last_marker ?st1) es))"
      "tb_text (an_builder st') = tb_text (an_builder ?st1) @
        concat (map (\<lambda>(k, e, rs). entry_text policy sep k rs e) (zip [Suc n..<Suc n + length es]
          (zip es (scan_marks policy (an_previous ?st1) (an_last_marker ?st1) es))))"
      "map af_fragment_id (tb_fragments (an_builder st')) =
        map af_fragment_id (tb_fragments (an_builder ?st1)) @
        concat (map (\<lambda>(k, e, rs). entry_fragment_ids sep k rs e) (zip [Suc n..<Suc n + length es]
          (zip es (scan_marks policy (an_previous ?st1) (an_last_marker ?st1) es))))"
      "body_fragments (tb_fragments (an_builder st')) =
        body_fragments (tb_fragments (an_builder ?st1)) @ bodies_of es"
    by (auto simp: scan_ok_def)
  have upt: "[n..<n + length (e # es)] = n # [Suc n..<Suc n + length es]"
    by (simp add: upt_rec)
  show ?case
    using st' rest b unfolding upt
    by (intro exI [of _ st']) (auto simp: step Let_def rs_def [symmetric] marks_of_def bodies_of_def)
qed

lemma distinct_concat_keyed:
  assumes "distinct (map key xs)"
    and "\<And>x. x \<in> set xs \<Longrightarrow> distinct (f x) \<and> (\<forall>y\<in>set (f x). \<exists>s\<in>fragment_suffixes. y = key x @ u s)"
  shows "distinct (concat (map f xs))"
  using assms
proof (induction xs)
  case Nil
  then show ?case by simp
next
  case (Cons x xs)
  have "set (f x) \<inter> set (f z) = {}" if "z \<in> set xs" for z
  proof -
    from that Cons.prems(1) have ne: "key x \<noteq> key z" by auto
    have "y \<notin> set (f z)" if y: "y \<in> set (f x)" for y
    proof
      assume "y \<in> set (f z)"
      with y \<open>z \<in> set xs\<close> obtain s t where "s \<in> fragment_suffixes" "t \<in> fragment_suffixes"
        "y = key x @ u s" "y = key z @ u t"
        using Cons.prems(2) by (meson list.set_intros)
      with ne fragment_id_inj show False by metis
    qed
    then show ?thesis by auto
  qed
  with Cons show ?case by auto
qed

lemma map_fst_snd_zip3:
  "length ms = length es \<Longrightarrow> map (\<lambda>(k, e, rs). g e) (zip [n..<n + length es] (zip es ms)) = map g es"
proof (induction es arbitrary: n ms)
  case Nil
  then show ?case by simp
next
  case (Cons e es)
  then obtain m ms' where ms: "ms = m # ms'" "length ms' = length es" by (cases ms) auto
  have upt: "[n..<n + length (e # es)] = n # [Suc n..<Suc n + length es]"
    by (simp add: upt_rec)
  show ?case using Cons.IH [OF ms(2), of "Suc n"] unfolding upt ms(1) by simp
qed

lemma marks_of_before:
  "map tm_before_entry_id (marks_of p (zip es ms)) =
     map (\<lambda>(e, rs). te_entry_id e) (filter (\<lambda>(e, rs). rs \<noteq> {}) (zip es ms))"
  by (auto simp: marks_of_def make_marker_def)

lemma distinct_marks_of:
  "distinct (map te_entry_id es) \<Longrightarrow> distinct (map tm_before_entry_id (marks_of p (zip es ms)))"
  unfolding marks_of_before
proof (induction es arbitrary: ms)
  case Nil
  then show ?case by simp
next
  case (Cons e es)
  then show ?case by (cases ms) (auto dest: set_zip_leftD)
qed

lemma marks_of_mem:
  "list_all (\<lambda>m. tm_before_entry_id m \<in> te_entry_id ` set es) (marks_of p (zip es ms))"
  by (auto simp: list_all_iff marks_of_def make_marker_def dest: set_zip_leftD)

lemma marked_iff:
  assumes "distinct (map te_entry_id es)" and "length ms = length es" and "i < length es"
  shows "te_entry_id (es ! i) \<in> tm_before_entry_id ` set (marks_of p (zip es ms)) \<longleftrightarrow> ms ! i \<noteq> {}"
proof -
  have "te_entry_id (es ! i) \<in> tm_before_entry_id ` set (marks_of p (zip es ms)) \<longleftrightarrow>
    (\<exists>j<length es. te_entry_id (es ! i) = te_entry_id (es ! j) \<and> ms ! j \<noteq> {})"
    using assms(2) by (force simp: marks_of_def make_marker_def set_zip image_iff)
  also have "\<dots> \<longleftrightarrow> ms ! i \<noteq> {}"
    using assms by (metis length_map nth_eq_iff_index_eq nth_map)
  finally show ?thesis .
qed

lemma annotate_history_value:
  assumes "list_all temporal_entry_ok entries" and "temporal_policy_ok policy"
    and "distinct (map te_entry_id entries)"
  shows "\<exists>h. annotate_history entries policy sep = Inr h \<and> annotated_history_ok h \<and> ah_entries h = entries \<and>
    tiled 0 (ah_fragments h) \<and> fragments_text (ah_fragments h) = ah_text h \<and>
    body_fragments (ah_fragments h) = bodies_of entries \<and>
    ah_markers h = marks_of policy (zip entries (scan_marks policy None None entries))"
proof (cases "entries = []")
  case True
  then show ?thesis
    by (auto simp: annotate_history_def annotated_history_ok_def body_fragments_def bodies_of_def marks_of_def)
next
  case False
  define marks where "marks = scan_marks policy None None entries"
  have "scan_ok annotate_start" by (simp add: scan_ok_def annotate_start_def)
  from annotate_loop_value [OF this assms(1,2), of sep 0] obtain st where
    st: "annotate_loop policy sep 0 entries annotate_start = Inr st" "scan_ok st"
    and markers: "an_markers st = marks_of policy (zip entries marks)"
    and ids: "map af_fragment_id (tb_fragments (an_builder st)) =
      concat (map (\<lambda>(k, e, rs). entry_fragment_ids sep k rs e) (zip [0..<0 + length entries] (zip entries marks)))"
    and bodies: "body_fragments (tb_fragments (an_builder st)) = bodies_of entries"
    by (auto simp: annotate_start_def empty_builder_def marks_def body_fragments_def)
  have len: "length marks = length entries" by (simp add: marks_def)
  have "distinct (map af_fragment_id (tb_fragments (an_builder st)))"
    unfolding ids
    by (rule distinct_concat_keyed [where key = "\<lambda>(k, e, rs). te_entry_id e"])
       (use assms(3) map_fst_snd_zip3 [OF len, of te_entry_id 0] in
         \<open>auto simp: entry_fragment_ids_props(1) dest: entry_fragment_ids_props(2)\<close>)
  moreover have "builder_ok (an_builder st)" using st(2) by (simp add: scan_ok_def)
  ultimately have "annotated_history_ok \<lparr>ah_text = tb_text (an_builder st), ah_entries = entries,
      ah_fragments = tb_fragments (an_builder st), ah_markers = an_markers st\<rparr>"
    using False assms(3) marks_of_mem [of entries policy marks] distinct_marks_of [OF assms(3), of policy marks]
    by (simp add: annotated_history_ok_def markers builder_ok_cover)
  then show ?thesis
    using False assms(3) st(1) markers bodies \<open>builder_ok (an_builder st)\<close>
    by (auto simp: annotate_history_def validated_def builder_ok_def marks_def)
qed

lemma annotate_history_duplicates:
  assumes "\<not> distinct (map te_entry_id entries)"
  shows "annotate_history entries policy sep = Inl ValidationExn"
  using assms by (cases "entries = []") (auto simp: annotate_history_def annotated_history_ok_def)

text \<open>Where the scan stands when it reaches entry \<open>i\<close>.\<close>

fun last_marked ::
  "temporal_entry list \<Rightarrow> marker_reason set list \<Rightarrow> temporal_entry option \<Rightarrow> nat \<Rightarrow> temporal_entry option"
where
  "last_marked es ms b 0 = b"
| "last_marked es ms b (Suc i) = (if ms ! i \<noteq> {} then Some (es ! i) else last_marked es ms b i)"

lemma last_marked_Cons:
  "last_marked (e # es) (m # ms) b (Suc i) = last_marked es ms (if m \<noteq> {} then Some e else b) i"
  by (induction i) auto

lemma scan_marks_nth:
  "i < length es \<Longrightarrow>
   scan_marks p prev b es ! i =
     marker_reasons p (if i = 0 then prev else Some (es ! (i - 1)))
       (last_marked es (scan_marks p prev b es) b i) (es ! i)"
proof (induction es arbitrary: prev b i)
  case Nil
  then show ?case by simp
next
  case (Cons e es)
  show ?case
  proof (cases i)
    case 0
    then show ?thesis by (simp add: Let_def)
  next
    case (Suc j)
    with Cons.prems have j: "j < length es" by simp
    define rs where "rs = marker_reasons p prev b e"
    define rest where "rest = scan_marks p (Some e) (if rs = {} then b else Some e) es"
    have tail: "scan_marks p prev b (e # es) = rs # rest"
      by (simp add: Let_def rs_def rest_def)
    have prev: "(if j = 0 then Some e else Some (es ! (j - 1))) = Some ((e # es) ! j)"
      by (cases j) simp_all
    have b: "(if rs \<noteq> {} then Some e else b) = (if rs = {} then b else Some e)"
      by simp
    show ?thesis
      using Cons.IH [OF j, of "Some e" "if rs = {} then b else Some e"]
      unfolding Suc tail rest_def [symmetric] last_marked_Cons prev b by simp
  qed
qed

lemma last_marked_Some:
  "last_marked es ms None i = Some x \<Longrightarrow> \<exists>j<i. x = es ! j \<and> ms ! j \<noteq> {}"
  by (induction i) (auto split: if_splits intro: less_SucI)

lemma last_marked_found: "ms ! 0 \<noteq> {} \<Longrightarrow> \<exists>x. last_marked es ms b (Suc i) = Some x"
  by (induction i) auto

lemma no_marker_bounds:
  assumes "Suc i < length es" and "scan_marks p None None es ! Suc i = {}"
  shows "ts_start (te_span (es ! i)) \<le> ts_start (te_span (es ! Suc i))"
    and "max (ts_start (te_span (es ! Suc i)) - ts_end (te_span (es ! i))) 0 < tp_long_gap p"
    and "tp_split_on_date p \<Longrightarrow> local_date p (ts_end (te_span (es ! i))) = local_date p (ts_start (te_span (es ! Suc i)))"
    and "\<exists>j\<le>i. scan_marks p None None es ! j \<noteq> {} \<and>
      ts_start (te_span (es ! Suc i)) - ts_start (te_span (es ! j)) < tp_refresh p"
proof -
  let ?ms = "scan_marks p None None es"
  have r: "marker_reasons p (Some (es ! i)) (last_marked es ?ms None (Suc i)) (es ! Suc i) = {}"
    using scan_marks_nth [OF assms(1), of p None None] assms(2) by simp
  then show "ts_start (te_span (es ! i)) \<le> ts_start (te_span (es ! Suc i))"
    and "max (ts_start (te_span (es ! Suc i)) - ts_end (te_span (es ! i))) 0 < tp_long_gap p"
    and "tp_split_on_date p \<Longrightarrow> local_date p (ts_end (te_span (es ! i))) = local_date p (ts_start (te_span (es ! Suc i)))"
    by (auto simp: marker_reasons_def Let_def split: if_splits)
  have "?ms ! 0 \<noteq> {}"
    using scan_marks_nth [of 0 es p None None] assms(1) by (cases es) (auto simp: marker_reasons_def)
  then obtain x where x: "last_marked es ?ms None (Suc i) = Some x"
    using last_marked_found by blast
  with r have "ts_start (te_span (es ! Suc i)) - ts_start (te_span x) < tp_refresh p"
    by (auto simp: marker_reasons_def Let_def split: if_splits)
  with last_marked_Some [OF x] show "\<exists>j\<le>i. ?ms ! j \<noteq> {} \<and>
      ts_start (te_span (es ! Suc i)) - ts_start (te_span (es ! j)) < tp_refresh p"
    by (auto simp: less_Suc_eq_le)
qed

end
