(* ===== verification/Provenance.thy ===== *)
theory Provenance
  imports Call_Models "HOL-Library.Product_Lexorder"
begin

text \<open>
  \<open>model_calls/provenance.py\<close>: JSON pointers are read back from the final payload and every attributed
  text must be found where the draft says it is. The lemmas state what an accepted payload satisfies.
\<close>

subsection \<open>\<open>int(token)\<close> and JSON pointers\<close>

definition py_int10 :: "pystr \<Rightarrow> int option" where
  "py_int10 s =
     (let t = dropWhile c_space (map int_ascii s);
          negative = (take 1 t = [45]);
          t1 = (if take 1 t = [43] \<or> negative then tl t else t);
          is_body = (\<lambda>c. (48 \<le> c \<and> c \<le> 57) \<or> c = 95);
          body = takeWhile is_body t1;
          digits = filter (\<lambda>c. c \<noteq> 95) body
      in if body = [] \<or> hd body = 95 \<or> last body = 95
            \<or> \<not> list_all (\<lambda>(a, b). \<not> (a = 95 \<and> b = 95)) (zip body (tl body))
            \<or> \<not> list_all c_space (dropWhile is_body t1) \<or> length digits > 4300
         then None
         else Some (if negative then - int (nat_of_digits digits) else int (nat_of_digits digits)))"

text \<open>\<open>s.replace(pat, rep)\<close> for a non-empty pattern.\<close>

function replace_sub :: "pystr \<Rightarrow> pystr \<Rightarrow> pystr \<Rightarrow> pystr" where
  "replace_sub pat rep s =
     (if s = [] then []
      else if pat \<noteq> [] \<and> startswith s pat then rep @ replace_sub pat rep (drop (length pat) s)
      else hd s # replace_sub pat rep (tl s))"
  by pat_completeness auto
termination
  by (relation "measure (\<lambda>(pat, rep, s). length s)") (auto simp: startswith_def)

declare replace_sub.simps [simp del]

text \<open>\<open>xs[i]\<close> with Python's negative indices.\<close>

definition py_index :: "'a list \<Rightarrow> int \<Rightarrow> 'a option" where
  "py_index xs i =
     (let j = (if i < 0 then i + int (length xs) else i)
      in if 0 \<le> j \<and> j < int (length xs) then Some (xs ! nat j) else None)"

fun pointer_step :: "pyval \<Rightarrow> pystr \<Rightarrow> pyval option" where
  "pointer_step (PDict kvs) token = dict_get kvs token"
| "pointer_step (PProxy kvs) token = dict_get kvs token"
| "pointer_step (PList xs) token = Option.bind (py_int10 token) (py_index xs)"
| "pointer_step (PTuple xs) token = Option.bind (py_int10 token) (py_index xs)"
| "pointer_step v token = None"

fun pointer_walk :: "pyval \<Rightarrow> pystr list \<Rightarrow> pyval result" where
  "pointer_walk current [] = Inr current"
| "pointer_walk current (raw # tokens) =
     (let token = replace_sub (u ''~0'') (u ''~'') (replace_sub (u ''~1'') (u ''/'') raw)
      in case pointer_step current token of
           None \<Rightarrow> Inl TraceIntegrityError
         | Some v \<Rightarrow> pointer_walk v tokens)"

definition resolve_json_pointer :: "pyval \<Rightarrow> pystr \<Rightarrow> pyval result" where
  "resolve_json_pointer payload pointer =
     (if pointer = [] then Inr payload
      else if \<not> startswith pointer [47] then Inl TraceIntegrityError
      else pointer_walk payload (split_on 47 (tl pointer)))"

definition canonical_payload_text :: "pyval \<Rightarrow> pystr result" where
  "canonical_payload_text v = rbind (json_of_pyval (thaw_json v)) (\<lambda>j. Inr (canonical_json j))"

subsection \<open>The check\<close>

text \<open>One iteration of the first loop: \<open>None\<close> for a whole-content part, the part for a span.\<close>

definition check_part :: "pyval \<Rightarrow> request_part \<Rightarrow> unit result" where
  "check_part payload p =
     (case rp_pointer p of
        None \<Rightarrow> Inl TraceIntegrityError
      | Some pointer \<Rightarrow>
          if rp_sources p = [] then Inl TraceIntegrityError
          else rbind (resolve_json_pointer payload pointer) (\<lambda>target.
            case rp_text_span p of
              None \<Rightarrow>
                rbind (case target of PStr t \<Rightarrow> Inr t | _ \<Rightarrow> canonical_payload_text target) (\<lambda>expected.
                require (expected = rp_content p) TraceIntegrityError)
            | Some (start, end) \<Rightarrow>
                (case target of
                   PStr t \<Rightarrow>
                     require (\<not> (start < 0 \<or> end < start \<or> end > int (length t)
                                 \<or> slice t start end \<noteq> rp_content p)) TraceIntegrityError
                 | _ \<Rightarrow> Inl TraceIntegrityError)))"

fun attribute_parts ::
  "pyval \<Rightarrow> request_part list \<Rightarrow> (pystr \<times> request_part list) list \<Rightarrow> (pystr \<times> request_part list) list result"
where
  "attribute_parts payload [] by_pointer = Inr by_pointer"
| "attribute_parts payload (p # ps) by_pointer =
     rbind (check_part payload p) (\<lambda>_.
       attribute_parts payload ps
         (if rp_text_span p = None then by_pointer
          else (let pointer = the (rp_pointer p);
                    old = (case dict_get by_pointer pointer of None \<Rightarrow> [] | Some xs \<Rightarrow> xs)
                in dict_set pointer (old @ [p]) by_pointer)))"

fun check_cursor :: "int \<Rightarrow> request_part list \<Rightarrow> int result" where
  "check_cursor cursor [] = Inr cursor"
| "check_cursor cursor (p # ps) =
     (case rp_text_span p of
        None \<Rightarrow> Inl AssertionExn
      | Some (start, end) \<Rightarrow>
          if start \<noteq> cursor then Inl TraceIntegrityError else check_cursor end ps)"

definition check_pointer :: "pyval \<Rightarrow> request_part list \<Rightarrow> pystr \<times> request_part list \<Rightarrow> unit result" where
  "check_pointer payload included = (\<lambda>(pointer, parts).
     rbind (resolve_json_pointer payload pointer) (\<lambda>target.
     case target of
       PStr t \<Rightarrow>
         (let here = filter (\<lambda>p. rp_pointer p = Some pointer) included
          in if \<exists>p\<in>set here. rp_text_span p = None
             then require (length here = 1) TraceIntegrityError
             else rbind (check_cursor 0 (sort_key (the \<circ> rp_text_span) parts)) (\<lambda>cursor.
                  require (cursor = int (length t)) TraceIntegrityError))
     | _ \<Rightarrow> Inr ()))"

definition validate_provenance :: "pyval \<Rightarrow> request_part list \<Rightarrow> unit result" where
  "validate_provenance payload parts =
     (let included = filter (\<lambda>p. rp_participation p = PartIncluded) parts;
          orders = map rp_order included
      in if included = [] then Inl TraceIntegrityError
         else if orders \<noteq> sort orders \<or> \<not> distinct orders then Inl TraceIntegrityError
         else rbind (attribute_parts payload included []) (\<lambda>by_pointer.
              rbind (rmap (check_pointer payload included) by_pointer) (\<lambda>_.
              require (\<not> (\<exists>p\<in>set parts. rp_participation p = PartUnknownSource)) TraceIntegrityError)))"

subsection \<open>What acceptance means\<close>

lemma check_part_span:
  assumes "check_part payload p = Inr ()" and "rp_text_span p = Some (a, b)" and "rp_pointer p = Some pointer"
  shows "\<exists>t. resolve_json_pointer payload pointer = Inr (PStr t) \<and> 0 \<le> a \<and> a \<le> b \<and> b \<le> int (length t) \<and>
    slice t a b = rp_content p"
proof -
  from assms obtain v where v: "resolve_json_pointer payload pointer = Inr v"
    by (auto simp: check_part_def rbind_Inr_iff split: if_splits)
  with assms show ?thesis
    by (cases v) (auto simp: check_part_def split: if_splits)
qed

lemma check_part_whole:
  assumes "check_part payload p = Inr ()" and "rp_text_span p = None" and "rp_pointer p = Some pointer"
  shows "\<exists>v. resolve_json_pointer payload pointer = Inr v \<and>
    (case v of PStr t \<Rightarrow> rp_content p = t | _ \<Rightarrow> canonical_payload_text v = Inr (rp_content p))"
proof -
  from assms obtain v where v: "resolve_json_pointer payload pointer = Inr v"
    by (auto simp: check_part_def rbind_Inr_iff split: if_splits)
  with assms show ?thesis
    by (cases v) (auto simp: check_part_def rbind_Inr_iff split: if_splits)
qed

lemma check_part_pointer:
  "check_part payload p = Inr () \<Longrightarrow> rp_sources p \<noteq> [] \<and> (\<exists>pointer. rp_pointer p = Some pointer)"
  by (auto simp: check_part_def split: option.splits if_splits)

lemma attribute_parts_checked:
  "attribute_parts payload ps d = Inr d' \<Longrightarrow> p \<in> set ps \<Longrightarrow> check_part payload p = Inr ()"
  by (induction ps arbitrary: d) (auto simp: rbind_Inr_iff)

text \<open>The spans recorded for a pointer, in the order of the parts.\<close>

definition spans_at :: "request_part list \<Rightarrow> pystr \<Rightarrow> request_part list" where
  "spans_at ps pointer = filter (\<lambda>p. rp_text_span p \<noteq> None \<and> rp_pointer p = Some pointer) ps"

lemma attribute_parts_get:
  "attribute_parts payload ps d = Inr d' \<Longrightarrow>
   dict_get d' pointer =
     (if spans_at ps pointer = [] then dict_get d pointer
      else Some ((case dict_get d pointer of None \<Rightarrow> [] | Some xs \<Rightarrow> xs) @ spans_at ps pointer))"
proof (induction ps arbitrary: d)
  case Nil
  then show ?case by (simp add: spans_at_def)
next
  case (Cons p ps)
  from Cons.prems have chk: "check_part payload p = Inr ()"
    and rest: "attribute_parts payload ps
         (if rp_text_span p = None then d
          else (let pointer = the (rp_pointer p);
                    old = (case dict_get d pointer of None \<Rightarrow> [] | Some xs \<Rightarrow> xs)
                in dict_set pointer (old @ [p]) d)) = Inr d'"
    by (auto simp: rbind_Inr_iff)
  from chk have ptr: "rp_pointer p \<noteq> None" by (auto simp: check_part_def split: option.splits)
  show ?case
    using Cons.IH [OF rest] ptr
    by (cases "rp_text_span p = None")
       (auto simp: spans_at_def Let_def split: option.splits if_splits)
qed

lemma check_cursor_tiles:
  assumes "check_cursor c ps = Inr e" and "0 \<le> c" and "c \<le> int (length t)"
    and "\<forall>p\<in>set ps. \<exists>a b. rp_text_span p = Some (a, b) \<and> 0 \<le> a \<and> a \<le> b \<and> b \<le> int (length t) \<and>
           slice t a b = rp_content p"
  shows "concat (map rp_content ps) = slice t c e \<and> c \<le> e \<and> e \<le> int (length t)"
  using assms
proof (induction ps arbitrary: c)
  case Nil
  then show ?case by (simp add: slice_def)
next
  case (Cons p ps)
  then obtain b where span: "rp_text_span p = Some (c, b)" and b: "c \<le> b" "b \<le> int (length t)"
    and content: "slice t c b = rp_content p" and rest: "check_cursor b ps = Inr e"
    by (auto split: if_splits)
  have IH: "concat (map rp_content ps) = slice t b e \<and> b \<le> e \<and> e \<le> int (length t)"
    using Cons.prems b rest by (intro Cons.IH) auto
  have "slice t c b @ slice t b e = slice t c e"
  proof -
    have "nat (e - c) = nat (b - c) + nat (e - b)" "nat b = nat (b - c) + nat c"
      using b IH \<open>0 \<le> c\<close> by linarith+
    then show ?thesis
      by (simp add: slice_def take_add)
  qed
  with IH b content show ?case by auto
qed

definition attributed_text :: "request_part list \<Rightarrow> pystr \<Rightarrow> pystr" where
  "attributed_text parts pointer =
     concat (map rp_content (sort_key (the \<circ> rp_text_span)
       (spans_at (filter (\<lambda>p. rp_participation p = PartIncluded) parts) pointer)))"

lemma validate_provenance_parts:
  assumes "validate_provenance payload parts = Inr ()"
    and "p \<in> set parts" and "rp_participation p = PartIncluded"
  shows "check_part payload p = Inr ()"
  using assms by (auto simp: validate_provenance_def Let_def rbind_Inr_iff dest!: attribute_parts_checked [of payload _ "[]" _ p] split: if_splits)

lemma validate_provenance_covers:
  assumes acc: "validate_provenance payload parts = Inr ()"
    and p: "p \<in> set parts" "rp_participation p = PartIncluded" "rp_pointer p = Some pointer"
    and span: "rp_text_span p \<noteq> None"
  shows "resolve_json_pointer payload pointer = Inr (PStr (attributed_text parts pointer))"
proof -
  let ?inc = "filter (\<lambda>p. rp_participation p = PartIncluded) parts"
  from acc obtain d xs where d: "attribute_parts payload ?inc [] = Inr d"
    and chk: "rmap (check_pointer payload ?inc) d = Inr xs"
    by (auto simp: validate_provenance_def Let_def rbind_Inr_iff split: if_splits)
  have mem: "p \<in> set ?inc" using p by simp
  then have ne: "spans_at ?inc pointer \<noteq> []" using p span by (auto simp: spans_at_def filter_empty_conv)
  with attribute_parts_get [OF d, of pointer] have "dict_get d pointer = Some (spans_at ?inc pointer)"
    by simp
  then have "(pointer, spans_at ?inc pointer) \<in> set d" by (rule map_of_SomeD)
  with rmap_Inr_arg [OF chk] have ptr: "check_pointer payload ?inc (pointer, spans_at ?inc pointer) = Inr ()"
    by fastforce
  have cp: "check_part payload q = Inr ()" if "q \<in> set ?inc" for q
    using attribute_parts_checked [OF d that] .
  obtain t where t: "resolve_json_pointer payload pointer = Inr (PStr t)"
    using check_part_span [OF cp [OF mem] _ p(3)] span by fastforce
  let ?here = "filter (\<lambda>p. rp_pointer p = Some pointer) ?inc"
  let ?sorted = "sort_key (the \<circ> rp_text_span) (spans_at ?inc pointer)"
  have no_whole: "\<not> (\<exists>q\<in>set ?here. rp_text_span q = None)"
  proof
    assume ex: "\<exists>q\<in>set ?here. rp_text_span q = None"
    with ptr t have "length ?here = 1" by (auto simp: check_pointer_def Let_def)
    moreover have "p \<in> set ?here" using mem p by simp
    moreover have "length xs = 1 \<Longrightarrow> x \<in> set xs \<Longrightarrow> xs = [x]" for x and xs :: "request_part list"
      by (cases xs) auto
    ultimately have here: "?here = [p]" by blast
    from ex show False unfolding here using span by simp
  qed
  have "rbind (check_cursor 0 ?sorted) (\<lambda>cursor. require (cursor = int (length t)) TraceIntegrityError) = Inr ()"
    using ptr unfolding check_pointer_def split_conv t rbind_simps pyval.case Let_def if_not_P [OF no_whole] .
  then have cur: "check_cursor 0 ?sorted = Inr (int (length t))"
    by (auto simp: rbind_Inr_iff)
  have "\<forall>q\<in>set ?sorted. \<exists>a b. rp_text_span q = Some (a, b) \<and> 0 \<le> a \<and> a \<le> b \<and> b \<le> int (length t) \<and>
         slice t a b = rp_content q"
  proof
    fix q assume "q \<in> set ?sorted"
    then have q: "q \<in> set ?inc" "rp_pointer q = Some pointer" "rp_text_span q \<noteq> None"
      by (auto simp: spans_at_def)
    from q(3) obtain a b where ab: "rp_text_span q = Some (a, b)" by auto
    from check_part_span [OF cp [OF q(1)] ab q(2)] t ab
    show "\<exists>a b. rp_text_span q = Some (a, b) \<and> 0 \<le> a \<and> a \<le> b \<and> b \<le> int (length t) \<and>
         slice t a b = rp_content q" by auto
  qed
  from check_cursor_tiles [OF cur _ _ this] have "attributed_text parts pointer = t"
    by (simp add: attributed_text_def slice_def)
  with t show ?thesis by simp
qed

subsection \<open>Properties\<close>

text \<open>
  C13. An accepted payload is fully attributed. Some part is included, orders strictly increase and no
  part has an unknown source; every included part has sources and a pointer that resolves in the
  payload; a part without a span is the whole value there (its canonical JSON text when it is not a
  string); a part with a span is exactly that slice, and the spans of its pointer, in order, spell the
  string without gap or overlap.
\<close>

theorem accepted_provenance_exact:
  assumes "validate_provenance payload parts = Inr ()"
  shows "sorted_wrt (<) (map rp_order (filter (\<lambda>p. rp_participation p = PartIncluded) parts)) \<and>
    (\<forall>p\<in>set parts. rp_participation p \<noteq> PartUnknownSource) \<and>
    (\<forall>p\<in>set parts. rp_participation p \<noteq> PartIncluded \<or>
      (rp_sources p \<noteq> [] \<and>
       (\<exists>pointer v. rp_pointer p = Some pointer \<and> resolve_json_pointer payload pointer = Inr v \<and>
         (case rp_text_span p of
            None \<Rightarrow> (case v of PStr t \<Rightarrow> rp_content p = t | _ \<Rightarrow> canonical_payload_text v = Inr (rp_content p))
          | Some (a, b) \<Rightarrow>
              v = PStr (attributed_text parts pointer) \<and>
              0 \<le> a \<and> a \<le> b \<and> b \<le> int (length (attributed_text parts pointer)) \<and>
              slice (attributed_text parts pointer) a b = rp_content p))))"
proof (intro conjI ballI)
  let ?orders = "map rp_order (filter (\<lambda>p. rp_participation p = PartIncluded) parts)"
  have "?orders = sort ?orders" "distinct ?orders"
    using assms by (auto simp: validate_provenance_def Let_def split: if_splits)
  then have "sorted ?orders" "distinct ?orders"
    by (metis sorted_sort)+
  then show "sorted_wrt (<) ?orders" by (simp add: strict_sorted_iff)
next
  fix p assume "p \<in> set parts"
  with assms show "rp_participation p \<noteq> PartUnknownSource"
    by (auto simp: validate_provenance_def Let_def rbind_Inr_iff split: if_splits)
next
  fix p assume p: "p \<in> set parts"
  show "rp_participation p \<noteq> PartIncluded \<or>
      (rp_sources p \<noteq> [] \<and>
       (\<exists>pointer v. rp_pointer p = Some pointer \<and> resolve_json_pointer payload pointer = Inr v \<and>
         (case rp_text_span p of
            None \<Rightarrow> (case v of PStr t \<Rightarrow> rp_content p = t | _ \<Rightarrow> canonical_payload_text v = Inr (rp_content p))
          | Some (a, b) \<Rightarrow>
              v = PStr (attributed_text parts pointer) \<and>
              0 \<le> a \<and> a \<le> b \<and> b \<le> int (length (attributed_text parts pointer)) \<and>
              slice (attributed_text parts pointer) a b = rp_content p)))"
  proof (cases "rp_participation p = PartIncluded")
    case True
    note chk = validate_provenance_parts [OF assms p True]
    then obtain pointer where ptr: "rp_pointer p = Some pointer" "rp_sources p \<noteq> []"
      using check_part_pointer by blast
    show ?thesis
    proof (cases "rp_text_span p")
      case None
      with check_part_whole [OF chk None ptr(1)] ptr show ?thesis by auto
    next
      case (Some s)
      obtain a b where s: "s = (a, b)" by (cases s)
      from validate_provenance_covers [OF assms p True ptr(1)] check_part_span [OF chk _ ptr(1)] ptr Some s
      show ?thesis by fastforce
    qed
  qed simp
qed

definition sample_part :: "string \<Rightarrow> int \<Rightarrow> string \<Rightarrow> (int \<times> int) option \<Rightarrow> string \<Rightarrow> request_part" where
  "sample_part i order pointer span content =
     \<lparr>rp_part_id = u i, rp_order = order, rp_participation = PartIncluded, rp_trust = UntrustedData,
      rp_pointer = Some (u pointer), rp_text_span = span, rp_content = u content,
      rp_sources = [\<lparr>sf_source_kind = SrcGenerated, sf_source_id = u ''s'', sf_path = None,
        sf_content_sha256 = None, sf_revision = None, sf_entity_ids = [], sf_producer = u ''p''\<rparr>],
      rp_exclusion_reason = None\<rparr>"

definition sample_payload :: pyval where
  "sample_payload = PProxy [(u ''m'', PTuple [PStr (u ''hello'')])]"

definition sample_parts :: "request_part list" where
  "sample_parts = [sample_part ''a'' 0 ''/m/0'' (Some (3, 5)) ''lo'', sample_part ''b'' 1 ''/m/0'' (Some (0, 3)) ''hel'']"

lemma replace_sub_absent: "c \<in> set pat \<Longrightarrow> c \<notin> set s \<Longrightarrow> replace_sub pat rep s = s"
proof (induction s)
  case Nil
  then show ?case by (simp add: replace_sub.simps)
next
  case (Cons x s)
  have "\<not> startswith (x # s) pat"
    using Cons.prems by (metis Un_iff set_append startswith_iff)
  with Cons show ?case by (simp add: replace_sub.simps [of _ _ "x # s"])
qed

lemma replace_tilde [simp]: "126 \<notin> set s \<Longrightarrow> replace_sub (126 # pat) rep s = s"
  by (rule replace_sub_absent [of 126]) simp_all

lemma sample_pointer:
  "resolve_json_pointer sample_payload (u ''/m/0'') = Inr (PStr (u ''hello''))"
  "resolve_json_pointer sample_payload (u ''/m/-1'') = Inr (PStr (u ''hello''))"
  by (simp_all add: resolve_json_pointer_def sample_payload_def u_Cons startswith_def
      py_int10_def int_ascii_def c_space_def py_index_def nat_of_digits_def)

lemma sample_provenance: "validate_provenance sample_payload sample_parts = Inr ()"
  using sample_pointer(1)
  by (simp add: validate_provenance_def sample_parts_def sample_part_def check_part_def slice_def
      check_pointer_def u_Cons require_def Let_def less_eq_prod_def)

theorem accepted_provenance_exact_witness:
  "resolve_json_pointer sample_payload (u ''/m/0'') =
     Inr (PStr (attributed_text sample_parts (u ''/m/0''))) \<and>
   slice (attributed_text sample_parts (u ''/m/0'')) 3 5 = u ''lo''"
proof -
  have "sample_part ''a'' 0 ''/m/0'' (Some (3, 5)) ''lo'' \<in> set sample_parts"
    by (simp add: sample_parts_def)
  with accepted_provenance_exact [OF sample_provenance] show ?thesis
    by (fastforce simp: sample_part_def)
qed

text \<open>
  A field can be attributed twice. Two pointers that spell the same position differently (an index
  counted from the end) resolve to the same string, and the check, which compares pointers as texts,
  accepts both as a full attribution of it.
\<close>

theorem aliased_pointers_attribute_twice:
  "validate_provenance sample_payload
     [sample_part ''a'' 0 ''/m/0'' (Some (0, 5)) ''hello'', sample_part ''b'' 1 ''/m/-1'' (Some (0, 5)) ''hello''] =
     Inr ()"
  using sample_pointer
  by (simp add: validate_provenance_def sample_part_def check_part_def slice_def check_pointer_def
      u_Cons require_def Let_def)

end
