(* ===== verification/Gateway.thy ===== *)
theory Gateway
  imports Provenance Incidents
begin

text \<open>
  \<open>model_calls/gateway.py\<close> and the prompt guard of \<open>security/credentials.py\<close>: every physical model call
  is prepared, materialised, checked, approved and sent by one loop, and retried at most a fixed number
  of times.

  The adapter, the presenter, the estimator, the clock and the timer are arguments: the \<open>n\<close>th answer of
  the adapter's \<open>send_once\<close> and of the presenter's \<open>decide\<close> is any function of \<open>n\<close> and what they were
  given. The state keeps the gateway's fields and a log of what crossed the boundary of the process.
\<close>

subsection \<open>The prompt guard\<close>

text \<open>
  \<open>json.dumps(payload, ensure_ascii=False, sort_keys=True, default=str)\<close> of a frozen payload: a read-only
  mapping is no \<open>dict\<close>, so \<open>default=str\<close> turns all of it into the JSON string of its \<open>repr\<close>. Which
  characters \<open>repr\<close> escapes is \<open>str.isprintable\<close>, an argument.
\<close>

definition repr_hex :: "nat \<Rightarrow> nat \<Rightarrow> pystr" where
  "repr_hex digits c = map (\<lambda>i. hex_digit (c div 16 ^ (digits - 1 - i) mod 16)) [0..<digits]"

definition repr_char :: "(nat \<Rightarrow> bool) \<Rightarrow> nat \<Rightarrow> nat \<Rightarrow> pystr" where
  "repr_char isprintable quote c =
     (if c = quote \<or> c = 92 then [92, c]
      else if c = 9 then [92, 116] else if c = 10 then [92, 110] else if c = 13 then [92, 114]
      else if c < 32 \<or> c = 127 then [92, 120] @ repr_hex 2 c
      else if c < 127 \<or> isprintable c then [c]
      else if c < 256 then [92, 120] @ repr_hex 2 c
      else if c < 65536 then [92, 117] @ repr_hex 4 c
      else [92, 85] @ repr_hex 8 c)"

definition repr_str :: "(nat \<Rightarrow> bool) \<Rightarrow> pystr \<Rightarrow> pystr" where
  "repr_str isprintable s =
     (let quote = (if 39 \<in> set s \<and> 34 \<notin> set s then 34 else 39)
      in [quote] @ concat (map (repr_char isprintable quote) s) @ [quote])"

fun py_repr :: "(nat \<Rightarrow> bool) \<Rightarrow> pyval \<Rightarrow> pystr" where
  "py_repr isp PNone = u ''None''"
| "py_repr isp (PBool b) = (if b then u ''True'' else u ''False'')"
| "py_repr isp (PInt i) = int_str i"
| "py_repr isp (PFloat r) = r"
| "py_repr isp (PStr s) = repr_str isp s"
| "py_repr isp (PList xs) = [91] @ join [44, 32] (map (py_repr isp) xs) @ [93]"
| "py_repr isp (PTuple xs) =
     [40] @ join [44, 32] (map (py_repr isp) xs) @ (if length xs = 1 then [44] else []) @ [41]"
| "py_repr isp (PDict kvs) =
     [123] @ join [44, 32] (map (\<lambda>(k, v). repr_str isp k @ [58, 32] @ py_repr isp v) kvs) @ [125]"
| "py_repr isp (PProxy kvs) =
     u ''mappingproxy({'' @ join [44, 32] (map (\<lambda>(k, v). repr_str isp k @ [58, 32] @ py_repr isp v) kvs) @ u ''})''"
| "py_repr isp (POther n) = []"

text \<open>The payloads the gateway checks are frozen mappings (\<open>MaterializedSendPayload.create\<close>).\<close>

definition guard_text :: "(nat \<Rightarrow> bool) \<Rightarrow> pyval \<Rightarrow> pystr" where
  "guard_text isprintable payload = quote_json (py_repr isprintable payload)"

text \<open>\<open>_check\<close> with the incident file, when a store is attached.\<close>

definition prompt_guard_check ::
  "(nat \<Rightarrow> bool) \<Rightarrow> bool \<Rightarrow> pyval \<Rightarrow> (incident_file option, unit) op"
where
  "prompt_guard_check isprintable is_private payload store =
     (case find_fingerprints (guard_text isprintable payload) of
        [] \<Rightarrow> (Inr (), store)
      | fingerprint # _ \<Rightarrow>
          (case store of
             None \<Rightarrow> (Inl CredentialExposureError, store)
           | Some f \<Rightarrow>
               (case open_incident is_private fingerprint [u ''prompt-payload''] f of
                  (Inl e, f') \<Rightarrow> (Inl e, Some f')
                | (Inr _, f') \<Rightarrow> (Inl CredentialExposureError, Some f'))))"

subsection \<open>State\<close>

record call_attempt_state =
  ct_turn_id :: pystr
  ct_call_id :: pystr
  ct_call_sequence :: int
  ct_purpose :: pystr
  ct_attempt :: nat
  ct_status :: string

record call_allocator =
  al_next :: "pystr \<Rightarrow> int option"
  al_seen :: "pystr set"

definition empty_allocator :: call_allocator where
  "empty_allocator = \<lparr>al_next = (\<lambda>_. None), al_seen = {}\<rparr>"

definition assign_identity :: "model_call_draft \<Rightarrow> (call_allocator, model_call_draft) op" where
  "assign_identity draft a =
     (if dr_call_id draft \<in> al_seen a then (Inl (BaiError ''MODEL_CALL_IDENTITY_INVALID''), a)
      else (let sequence = (case al_next a (dr_turn_id draft) of None \<Rightarrow> 1 | Some n \<Rightarrow> n)
            in (Inr (draft\<lparr>dr_call_sequence := sequence\<rparr>),
                a\<lparr>al_next := (al_next a)(dr_turn_id draft \<mapsto> sequence + 1),
                  al_seen := insert (dr_call_id draft) (al_seen a)\<rparr>)))"

text \<open>What crosses the boundary: a payload shown for a decision, the screen cleared, a payload sent.\<close>

datatype boundary_event =
    Decided send_payload "approval_decision result"
  | Cleared
  | Sent send_payload "completion_result result"

record 'f gateway =
  gw_allocator :: call_allocator
  gw_sender :: "send_payload option"
  gw_last_estimate :: "'f usage_estimate option"
  gw_last_actual :: "'f actual_usage option"
  gw_states :: "call_attempt_state list"
  gw_incident :: "incident_file option"
  gw_events :: "boundary_event list"

record 'f gateway_env =
  ge_debug :: bool
  ge_max_attempts :: nat
  ge_backoff :: bool
  ge_prepare :: "model_call_draft \<Rightarrow> nat \<Rightarrow> prepared_request result"
  ge_materialize :: "prepared_request \<Rightarrow> send_payload result"
  ge_estimate :: "prepared_request \<Rightarrow> send_payload \<Rightarrow> 'f usage_estimate result"
  ge_decide :: "nat \<Rightarrow> prepared_request \<Rightarrow> send_payload \<Rightarrow> 'f usage_estimate \<Rightarrow> approval_decision result"
  ge_send :: "nat \<Rightarrow> send_payload \<Rightarrow> completion_result result"
  ge_sleep :: "nat \<Rightarrow> unit result"
  ge_now :: int
  ge_isprintable :: "nat \<Rightarrow> bool"
  ge_private :: bool
  ge_percent :: "int \<Rightarrow> int \<Rightarrow> 'f"

text \<open>\<open>__init__\<close>: debugging needs a presenter, and at least one attempt is made.\<close>

definition gateway_attempts :: "int \<Rightarrow> nat" where
  "gateway_attempts max_attempts = nat (max 1 max_attempts)"

definition gateway_init :: "bool \<Rightarrow> bool \<Rightarrow> incident_file option \<Rightarrow> 'f gateway result" where
  "gateway_init debug_enabled has_presenter incident =
     (if debug_enabled \<and> \<not> has_presenter then Inl DebugPresentationError
      else Inr \<lparr>gw_allocator = empty_allocator, gw_sender = None, gw_last_estimate = None,
                gw_last_actual = None, gw_states = [], gw_incident = incident, gw_events = []\<rparr>)"

definition record_status :: "model_call_draft \<Rightarrow> nat \<Rightarrow> string \<Rightarrow> ('f gateway, unit) op" where
  "record_status draft attempt status g =
     (Inr (), g\<lparr>gw_states := gw_states g @
        [\<lparr>ct_turn_id = dr_turn_id draft, ct_call_id = dr_call_id draft,
          ct_call_sequence = dr_call_sequence draft, ct_purpose = dr_purpose draft,
          ct_attempt = attempt, ct_status = status\<rparr>]\<rparr>)"

definition emit :: "boundary_event \<Rightarrow> ('f gateway, unit) op" where
  "emit ev g = (Inr (), g\<lparr>gw_events := gw_events g @ [ev]\<rparr>)"

definition gateway_guard :: "'f gateway_env \<Rightarrow> pyval \<Rightarrow> ('f gateway, unit) op" where
  "gateway_guard env payload g =
     (let (r, store) = prompt_guard_check (ge_isprintable env) (ge_private env) payload (gw_incident g)
      in (r, g\<lparr>gw_incident := store\<rparr>))"

subsection \<open>One attempt\<close>

text \<open>Lines 109 to 118: prepare, materialise, verify, check the sources, guard, estimate.\<close>

definition gateway_prepare ::
  "'f gateway_env \<Rightarrow> model_call_draft \<Rightarrow> nat \<Rightarrow> ('f gateway, prepared_request \<times> send_payload \<times> 'f usage_estimate) op"
where
  "gateway_prepare env draft attempt =
     sbind (slift (ge_prepare env draft attempt)) (\<lambda>prepared.
     sbind (record_status draft attempt ''prepared'') (\<lambda>_.
     sbind (slift (ge_materialize env prepared)) (\<lambda>payload.
     sbind (record_status draft attempt ''materialized'') (\<lambda>_.
     sbind (slift (verify_digest payload)) (\<lambda>_.
     sbind (slift (validate_provenance (sp_sdk_kwargs payload) (pq_parts prepared))) (\<lambda>_.
     sbind (gateway_guard env (sp_sdk_kwargs payload)) (\<lambda>_.
     sbind (slift (ge_estimate env prepared payload)) (\<lambda>estimate g.
     sbind (record_status draft attempt ''display_ready'') (\<lambda>_.
     sret (prepared, payload, estimate)) (g\<lparr>gw_last_estimate := Some estimate\<rparr>)))))))))"

text \<open>Lines 119 to 140: the decision on the displayed payload, when debugging is enabled.\<close>

definition gateway_approve ::
  "'f gateway_env \<Rightarrow> model_call_draft \<Rightarrow> nat \<Rightarrow> prepared_request \<Rightarrow> send_payload \<Rightarrow> 'f usage_estimate \<Rightarrow>
   ('f gateway, unit) op"
where
  "gateway_approve env draft attempt prepared payload estimate g =
     (if \<not> ge_debug env then (Inr (), g)
      else (let answer = ge_decide env (length (gw_events g)) prepared payload estimate
            in sbind (emit (Decided payload answer)) (\<lambda>_.
               case answer of
                 Inl e \<Rightarrow>
                   if is_turn_rejected e then sbind (emit Cleared) (\<lambda>_. sfail e)
                   else if is_exception e then sbind (emit Cleared) (\<lambda>_. sfail DebugPresentationError)
                   else sfail e
               | Inr decision \<Rightarrow>
                   if ad_decision decision \<noteq> Approve
                   then sbind (emit Cleared) (\<lambda>_. sbind (record_status draft attempt ''rejected'') (\<lambda>_.
                        sfail TurnRejected))
                   else sbind (slift (validate_payload decision payload)) (\<lambda>_.
                        sbind (record_status draft attempt ''approved'') (\<lambda>_. emit Cleared))) g))"

definition usage_value :: "completion_result \<Rightarrow> string \<Rightarrow> int option" where
  "usage_value r k = dict_get (cr_usage r) (u k)"

text \<open>\<open>_actual_usage\<close>; \<open>reason or "..."\<close> keeps a non-empty reason.\<close>

definition usage_missing_text :: pystr where
  "usage_missing_text = u ''provider '' @ [26410, 36820, 22238, 21512, 27861, 19988, 23432, 24658, 30340, 23454, 38469, 29992, 37327, 12290]"

definition gateway_actual_usage ::
  "(int \<Rightarrow> int \<Rightarrow> 'f) \<Rightarrow> completion_result \<Rightarrow> 'f usage_estimate \<Rightarrow> 'f actual_usage result"
where
  "gateway_actual_usage percent r estimate =
     (let unavailable = Inr (unavailable_usage
            (if falsy (cr_usage_unavailable_reason r) then usage_missing_text
             else the (cr_usage_unavailable_reason r)))
      in case (usage_value r ''input_tokens'', usage_value r ''output_tokens'', usage_value r ''total_tokens'') of
           (Some i, Some out, Some tokens) \<Rightarrow>
             if i < 0 \<or> out < 0 \<or> tokens < 0 \<or> tokens \<noteq> i + out then unavailable
             else make_actual_usage percent i out (ue_context_capacity estimate) (ue_input_tokens estimate)
         | _ \<Rightarrow> unavailable)"

text \<open>Lines 141 to 157: the second guard, the hand-over to the sender and the answer.\<close>

definition gateway_own :: "'f gateway_env \<Rightarrow> model_call_draft \<Rightarrow> nat \<Rightarrow> send_payload \<Rightarrow> ('f gateway, unit) op" where
  "gateway_own env draft attempt payload =
     sbind (gateway_guard env (sp_sdk_kwargs payload)) (\<lambda>_.
     sbind (slift (verify_digest payload)) (\<lambda>_ g.
     record_status draft attempt ''sender_owned'' (g\<lparr>gw_sender := Some payload\<rparr>)))"

definition gateway_send ::
  "'f gateway_env \<Rightarrow> model_call_draft \<Rightarrow> nat \<Rightarrow> send_payload \<Rightarrow> 'f usage_estimate \<Rightarrow>
   ('f gateway, completion_result) op"
where
  "gateway_send env draft attempt payload estimate g =
     (let answer = ge_send env (length (gw_events g)) payload
      in sbind (emit (Sent payload answer)) (\<lambda>_.
         sbind (slift answer) (\<lambda>r.
         sbind (slift (if cr_tool_calls r \<noteq> []
                then validated completion_result_ok
                       (r\<lparr>cr_accepted_at := Some (Aware (ge_now env) 0), cr_origin_call_id := Some (dr_call_id draft)\<rparr>)
                else Inr r)) (\<lambda>r.
         sbind (slift (gateway_actual_usage (ge_percent env) r estimate)) (\<lambda>usage g.
         sbind (record_status draft attempt ''completed'') (\<lambda>_. sret r)
           (g\<lparr>gw_last_actual := Some usage\<rparr>))))) g)"

text \<open>\<open>finally: self.sender_payload = None\<close>.\<close>

definition release_sender :: "'f gateway \<Rightarrow> 'f gateway" where
  "release_sender g = g\<lparr>gw_sender := None\<rparr>"

text \<open>
  The loop over the attempts. A retryable \<open>BaiError\<close> of the sender, with attempts left, waits and goes
  on; everything else leaves the loop.
\<close>

fun attempt_loop ::
  "'f gateway_env \<Rightarrow> model_call_draft \<Rightarrow> nat \<Rightarrow> nat \<Rightarrow> ('f gateway, completion_result) op"
where
  "attempt_loop env draft attempt 0 g = (Inl AssertionExn, g)"
| "attempt_loop env draft attempt (Suc remaining) g =
     (case gateway_prepare env draft attempt g of
        (Inl e, g1) \<Rightarrow> (Inl e, g1)
      | (Inr (prepared, payload, estimate), g1) \<Rightarrow>
          (case gateway_approve env draft attempt prepared payload estimate g1 of
             (Inl e, g2) \<Rightarrow> (Inl e, g2)
           | (Inr _, g2) \<Rightarrow>
               (case gateway_own env draft attempt payload g2 of
                  (Inl e, g3) \<Rightarrow> (Inl e, g3)
                | (Inr _, g3) \<Rightarrow>
                    (case gateway_send env draft attempt payload estimate g3 of
                       (Inr r, g4) \<Rightarrow> (Inr r, release_sender g4)
                     | (Inl e, g4) \<Rightarrow>
                         if \<not> is_bai e then (Inl e, release_sender g4)
                         else (case record_status draft attempt ''provider_failed'' g4 of (_, g5) \<Rightarrow>
                           if \<not> bai_retryable e \<or> remaining = 0 then (Inl e, release_sender g5)
                           else (case (if ge_backoff env then ge_sleep env attempt else Inr ()) of
                                   Inl e' \<Rightarrow> (Inl e', release_sender g5)
                                 | Inr _ \<Rightarrow> attempt_loop env draft (Suc attempt) remaining (release_sender g5)))))))"

definition gateway_complete :: "'f gateway_env \<Rightarrow> model_call_draft \<Rightarrow> ('f gateway, completion_result) op" where
  "gateway_complete env draft g =
     (case assign_identity draft (gw_allocator g) of
        (Inl e, a) \<Rightarrow> (Inl e, g\<lparr>gw_allocator := a\<rparr>)
      | (Inr assigned, a) \<Rightarrow>
          attempt_loop env assigned 1 (ge_max_attempts env) (g\<lparr>gw_allocator := a\<rparr>))"

subsection \<open>The allocator\<close>

text \<open>The drafts a series of calls gets through, with the numbers given to them.\<close>

fun assign_all :: "model_call_draft list \<Rightarrow> call_allocator \<Rightarrow> model_call_draft list" where
  "assign_all [] a = []"
| "assign_all (d # ds) a =
     (case assign_identity d a of
        (Inl e, a') \<Rightarrow> assign_all ds a'
      | (Inr d', a') \<Rightarrow> d' # assign_all ds a')"

definition next_number :: "call_allocator \<Rightarrow> pystr \<Rightarrow> int" where
  "next_number a t = (case al_next a t of None \<Rightarrow> 1 | Some n \<Rightarrow> n)"

lemma assign_identity_cases:
  obtains "dr_call_id d \<in> al_seen a" "assign_identity d a = (Inl (BaiError ''MODEL_CALL_IDENTITY_INVALID''), a)"
  | a' where "dr_call_id d \<notin> al_seen a"
      "assign_identity d a = (Inr (d\<lparr>dr_call_sequence := next_number a (dr_turn_id d)\<rparr>), a')"
      "al_seen a' = insert (dr_call_id d) (al_seen a)"
      "\<And>t. next_number a' t = (if t = dr_turn_id d then next_number a t + 1 else next_number a t)"
  by (cases "dr_call_id d \<in> al_seen a") (auto simp: assign_identity_def Let_def next_number_def)

lemma assign_all_numbers:
  "distinct (map dr_call_id (assign_all ds a)) \<and>
   dr_call_id ` set (assign_all ds a) \<inter> al_seen a = {} \<and>
   map dr_call_sequence (filter (\<lambda>d. dr_turn_id d = t) (assign_all ds a)) =
     map (\<lambda>i. next_number a t + int i) [0..<length (filter (\<lambda>d. dr_turn_id d = t) (assign_all ds a))]"
proof (induction ds arbitrary: a)
  case Nil
  then show ?case by simp
next
  case (Cons d ds)
  show ?case
  proof (cases rule: assign_identity_cases [of d a])
    case 1
    with Cons.IH [of a] show ?thesis by simp
  next
    case (2 a')
    have shift: "map (\<lambda>i. c + int i) [0..<Suc n] = c # map (\<lambda>i. (c + 1) + int i) [0..<n]" for c n
      by (simp add: upt_conv_Cons map_Suc_upt [symmetric] del: upt_Suc map_Suc_upt)
    show ?thesis
    proof (cases "dr_turn_id d = t")
      case True
      then show ?thesis
        using Cons.IH [of a'] 2 by (auto simp: shift simp del: upt_Suc)
    next
      case False
      then show ?thesis using Cons.IH [of a'] 2 by auto
    qed
  qed
qed

subsection \<open>What one attempt does to the boundary\<close>

lemma prompt_guard_ok:
  "prompt_guard_check isp prv p s = (Inr (), s') \<Longrightarrow> find_fingerprints (guard_text isp p) = [] \<and> s' = s"
  by (auto simp: prompt_guard_check_def split: list.splits option.splits prod.splits sum.splits)

lemma gateway_guard_frame:
  assumes "gateway_guard env p g = (r, g')"
  shows "gw_events g' = gw_events g" "gw_sender g' = gw_sender g"
    "r = Inr () \<Longrightarrow> find_fingerprints (guard_text (ge_isprintable env) p) = []"
  using assms by (auto simp: gateway_guard_def Let_def split: prod.splits dest: prompt_guard_ok)

lemma record_status_simps [simp]:
  "fst (record_status d n s g) = Inr ()"
  "gw_events (snd (record_status d n s g)) = gw_events g"
  "gw_sender (snd (record_status d n s g)) = gw_sender g"
  by (simp_all add: record_status_def)

lemma record_status_eq: "record_status d n s g = (Inr (), snd (record_status d n s g))"
  by (simp add: record_status_def)

lemma sbind_record [simp]: "sbind (record_status d n s) f g = f () (snd (record_status d n s g))"
  by (simp add: sbind_def record_status_def)

lemma sbind_emit [simp]: "sbind (emit ev) f g = f () (g\<lparr>gw_events := gw_events g @ [ev]\<rparr>)"
  by (simp add: sbind_def emit_def)

lemma sbind_slift: "sbind (slift m) f g = (case m of Inl e \<Rightarrow> (Inl e, g) | Inr x \<Rightarrow> f x g)"
  by (simp add: sbind_def split: sum.splits)

lemma gateway_prepare_frame:
  assumes "gateway_prepare env d n g = (r, g')"
  shows "gw_events g' = gw_events g" "gw_sender g' = gw_sender g"
    "\<And>pr p est. r = Inr (pr, p, est) \<Longrightarrow> verify_digest p = Inr () \<and>
       validate_provenance (sp_sdk_kwargs p) (pq_parts pr) = Inr () \<and>
       find_fingerprints (guard_text (ge_isprintable env) (sp_sdk_kwargs p)) = [] \<and>
       ge_prepare env d n = Inr pr \<and> ge_materialize env pr = Inr p"
proof -
  have *: "gw_events g' = gw_events g \<and> gw_sender g' = gw_sender g \<and>
    (\<forall>pr p est. r = Inr (pr, p, est) \<longrightarrow> verify_digest p = Inr () \<and>
       validate_provenance (sp_sdk_kwargs p) (pq_parts pr) = Inr () \<and>
       find_fingerprints (guard_text (ge_isprintable env) (sp_sdk_kwargs p)) = [] \<and>
       ge_prepare env d n = Inr pr \<and> ge_materialize env pr = Inr p)"
  proof (cases "ge_prepare env d n")
    case (Inl e)
    with assms show ?thesis by (auto simp: gateway_prepare_def sbind_slift)
  next
    case (Inr pr)
    note pr = this
    show ?thesis
    proof (cases "ge_materialize env pr")
      case (Inl e)
      with assms pr show ?thesis by (auto simp: gateway_prepare_def sbind_slift)
    next
      case (Inr p)
      define g2 where "g2 = snd (record_status d n ''materialized'' (snd (record_status d n ''prepared'' g)))"
      obtain rg g3 where guard: "gateway_guard env (sp_sdk_kwargs p) g2 = (rg, g3)"
        by (cases "gateway_guard env (sp_sdk_kwargs p) g2")
      have frame: "gw_events g3 = gw_events g" "gw_sender g3 = gw_sender g"
        "rg = Inr () \<Longrightarrow> find_fingerprints (guard_text (ge_isprintable env) (sp_sdk_kwargs p)) = []"
        using gateway_guard_frame [OF guard] by (simp_all add: g2_def)
      show ?thesis
        using assms pr Inr frame guard [unfolded g2_def]
        by (cases "verify_digest p"; cases "validate_provenance (sp_sdk_kwargs p) (pq_parts pr)"; cases rg;
            cases "ge_estimate env pr p")
           (auto simp: gateway_prepare_def sbind_slift sbind_def [of "gateway_guard env (sp_sdk_kwargs p)"]
             record_status_def)
    qed
  qed
  from * show "gw_events g' = gw_events g" "gw_sender g' = gw_sender g"
    "\<And>pr p est. r = Inr (pr, p, est) \<Longrightarrow> verify_digest p = Inr () \<and>
       validate_provenance (sp_sdk_kwargs p) (pq_parts pr) = Inr () \<and>
       find_fingerprints (guard_text (ge_isprintable env) (sp_sdk_kwargs p)) = [] \<and>
       ge_prepare env d n = Inr pr \<and> ge_materialize env pr = Inr p"
    by blast+
qed

definition approved :: "send_payload \<Rightarrow> approval_decision \<Rightarrow> bool" where
  "approved p d \<longleftrightarrow> ad_decision d = Approve \<and> validate_payload d p = Inr ()"

lemma gateway_approve_frame:
  assumes "gateway_approve env d n pr p est g = (r, g')"
  shows "gw_sender g' = gw_sender g"
    and "(\<exists>new. gw_events g' = gw_events g @ new \<and> (\<forall>ev\<in>set new. \<forall>q a. ev \<noteq> Sent q a)) \<and>
      (r = Inr () \<longrightarrow> (if ge_debug env
         then \<exists>dec. gw_events g' = gw_events g @ [Decided p (Inr dec), Cleared] \<and> approved p dec
         else gw_events g' = gw_events g))"
proof -
  let ?ans = "ge_decide env (length (gw_events g)) pr p est"
  consider "\<not> ge_debug env" | e where "ge_debug env" "?ans = Inl e"
    | dec where "ge_debug env" "?ans = Inr dec" by (cases ?ans) auto
  then have "gw_sender g' = gw_sender g \<and>
    (\<exists>new. gw_events g' = gw_events g @ new \<and> (\<forall>ev\<in>set new. \<forall>q a. ev \<noteq> Sent q a)) \<and>
      (r = Inr () \<longrightarrow> (if ge_debug env
         then \<exists>dec. gw_events g' = gw_events g @ [Decided p (Inr dec), Cleared] \<and> approved p dec
         else gw_events g' = gw_events g))"
  proof cases
    case 1
    with assms show ?thesis by (simp add: gateway_approve_def)
  next
    case (2 e)
    with assms show ?thesis
      by (auto simp: gateway_approve_def Let_def split: if_splits)
  next
    case (3 dec)
    with assms show ?thesis
      by (cases "validate_payload dec p")
         (auto simp: gateway_approve_def Let_def sbind_slift emit_def approved_def record_status_def split: if_splits)
  qed
  then show "gw_sender g' = gw_sender g"
    and "(\<exists>new. gw_events g' = gw_events g @ new \<and> (\<forall>ev\<in>set new. \<forall>q a. ev \<noteq> Sent q a)) \<and>
      (r = Inr () \<longrightarrow> (if ge_debug env
         then \<exists>dec. gw_events g' = gw_events g @ [Decided p (Inr dec), Cleared] \<and> approved p dec
         else gw_events g' = gw_events g))"
    by blast+
qed

lemma gateway_own_frame:
  assumes "gateway_own env d n p g = (r, g')"
  shows "gw_events g' = gw_events g"
    "r = Inr () \<Longrightarrow> verify_digest p = Inr () \<and> find_fingerprints (guard_text (ge_isprintable env) (sp_sdk_kwargs p)) = []"
    "\<And>e. r = Inl e \<Longrightarrow> gw_sender g' = gw_sender g"
proof -
  obtain rg g1 where guard: "gateway_guard env (sp_sdk_kwargs p) g = (rg, g1)"
    by (cases "gateway_guard env (sp_sdk_kwargs p) g")
  note f = gateway_guard_frame [OF guard]
  show "gw_events g' = gw_events g"
    "r = Inr () \<Longrightarrow> verify_digest p = Inr () \<and> find_fingerprints (guard_text (ge_isprintable env) (sp_sdk_kwargs p)) = []"
    "\<And>e. r = Inl e \<Longrightarrow> gw_sender g' = gw_sender g"
    using assms f guard
    by (cases rg; cases "verify_digest p";
        auto simp: gateway_own_def sbind_def [of "gateway_guard env (sp_sdk_kwargs p)"] sbind_slift record_status_def)+
qed

lemma gateway_send_events:
  assumes "gateway_send env d n p est g = (r, g')"
  shows "\<exists>ans. gw_events g' = gw_events g @ [Sent p ans] \<and> (\<forall>e. r = Inl e \<longrightarrow> is_bai e \<longrightarrow> ans = Inl e)"
proof -
  have no_bai: "\<not> is_bai e" if "gateway_actual_usage pc x y = Inl e" for pc x y e
    using that by (auto simp: gateway_actual_usage_def Let_def make_actual_usage_def split: option.splits if_splits)
  show ?thesis
    using assms
    by (auto simp: gateway_send_def Let_def sbind_slift record_status_def dest: no_bai split: sum.splits if_splits)
qed

subsection \<open>The log of one gateway\<close>

definition sends :: "boundary_event list \<Rightarrow> (send_payload \<times> completion_result result) list" where
  "sends evs = concat (map (\<lambda>ev. case ev of Sent p r \<Rightarrow> [(p, r)] | _ \<Rightarrow> []) evs)"

lemma sends_simps [simp]:
  "sends [] = []" "sends (evs @ evs') = sends evs @ sends evs'"
  "sends (Sent p r # evs) = (p, r) # sends evs"
  "sends (Cleared # evs) = sends evs" "sends (Decided p a # evs) = sends evs"
  by (simp_all add: sends_def)

lemma sends_none: "\<forall>ev\<in>set new. \<forall>q a. ev \<noteq> Sent q a \<Longrightarrow> sends new = []"
  by (auto simp: sends_def split: boundary_event.splits)

text \<open>Checked contents, for every send.\<close>

definition sendable :: "'f gateway_env \<Rightarrow> send_payload \<Rightarrow> bool" where
  "sendable env p \<longleftrightarrow>
     verify_digest p = Inr () \<and> (\<exists>parts. validate_provenance (sp_sdk_kwargs p) parts = Inr ()) \<and>
     find_fingerprints (guard_text (ge_isprintable env) (sp_sdk_kwargs p)) = []"

text \<open>When debugging, the two events before a send are the approval of its payload and the clearing.\<close>

fun approved_before :: "boundary_event list \<Rightarrow> send_payload \<Rightarrow> bool" where
  "approved_before (Cleared # Decided q a # evs) p = (q = p \<and> (\<exists>dec. a = Inr dec \<and> approved p dec))"
| "approved_before evs p = False"

lemma approved_before_rev:
  assumes "approved_before (rev pre) p"
  shows "\<exists>pre' dec. pre = pre' @ [Decided p (Inr dec), Cleared] \<and> approved p dec"
proof -
  have "\<exists>evs dec. rs = Cleared # Decided p (Inr dec) # evs \<and> approved p dec" if "approved_before rs p" for rs
    using that by (cases "(rs, p)" rule: approved_before.cases) auto
  from this [OF assms] obtain evs dec where "rev pre = Cleared # Decided p (Inr dec) # evs" "approved p dec"
    by blast
  then show ?thesis
    by (metis append.assoc append_Cons append_Nil rev.simps(2) rev_rev_ident)
qed

definition sends_ok :: "'f gateway_env \<Rightarrow> boundary_event list \<Rightarrow> bool" where
  "sends_ok env evs \<longleftrightarrow>
     (\<forall>pre p r post. evs = pre @ Sent p r # post \<longrightarrow>
        sendable env p \<and> (ge_debug env \<longrightarrow> approved_before (rev pre) p))"

lemma sends_ok_Nil [simp]: "sends_ok env []"
  by (simp add: sends_ok_def)

lemma append_eq_elem:
  "evs @ new = pre @ x # post \<Longrightarrow>
     (\<exists>zs. evs = pre @ x # zs \<and> post = zs @ new) \<or> (\<exists>zs. pre = evs @ zs \<and> new = zs @ x # post)"
proof (induction evs arbitrary: pre)
  case (Cons a evs)
  then show ?case by (cases pre) auto
qed simp

lemma sends_ok_append_other:
  assumes "sends_ok env evs" and "\<forall>ev\<in>set new. \<forall>q a. ev \<noteq> Sent q a"
  shows "sends_ok env (evs @ new)"
  unfolding sends_ok_def
proof (intro allI impI)
  fix pre p r post
  assume eq: "evs @ new = pre @ Sent p r # post"
  then consider zs where "evs = pre @ Sent p r # zs" "zs @ new = post"
    | zs where "pre = evs @ zs" "new = zs @ Sent p r # post"
    using append_eq_elem [OF eq] by blast
  then show "sendable env p \<and> (ge_debug env \<longrightarrow> approved_before (rev pre) p)"
  proof cases
    case 1
    with assms(1) show ?thesis by (auto simp: sends_ok_def)
  next
    case 2
    with assms(2) show ?thesis by auto
  qed
qed

lemma sends_ok_append_sent:
  assumes "sends_ok env evs" and "sendable env p" and "ge_debug env \<Longrightarrow> approved_before (rev evs) p"
  shows "sends_ok env (evs @ [Sent p r])"
  unfolding sends_ok_def
proof (intro allI impI)
  fix pre q s post
  assume eq: "evs @ [Sent p r] = pre @ Sent q s # post"
  then consider zs where "evs = pre @ Sent q s # zs" | "pre = evs" "q = p"
    using append_eq_elem [OF eq] by (auto simp: Cons_eq_append_conv)
  then show "sendable env q \<and> (ge_debug env \<longrightarrow> approved_before (rev pre) q)"
  proof cases
    case 1
    with assms(1) show ?thesis by (auto simp: sends_ok_def)
  next
    case 2
    with assms(2,3) show ?thesis by auto
  qed
qed

definition retryable_failure :: "send_payload \<times> completion_result result \<Rightarrow> bool" where
  "retryable_failure x \<longleftrightarrow> (\<exists>e. snd x = Inl e \<and> is_bai e \<and> bai_retryable e)"

text \<open>What a run of the loop adds to the log.\<close>

definition loop_effect :: "'f gateway_env \<Rightarrow> nat \<Rightarrow> 'f gateway \<Rightarrow> 'f gateway \<Rightarrow> bool" where
  "loop_effect env n g g' \<longleftrightarrow>
     (\<exists>new. gw_events g' = gw_events g @ new \<and> length (sends new) \<le> n \<and>
        list_all retryable_failure (butlast (sends new))) \<and>
     (sends_ok env (gw_events g) \<longrightarrow> sends_ok env (gw_events g')) \<and>
     (gw_sender g = None \<longrightarrow> gw_sender g' = None)"

lemma loop_effect_events:
  assumes "gw_events g' = gw_events g @ new" and "\<forall>ev\<in>set new. \<forall>q a. ev \<noteq> Sent q a"
    and "gw_sender g' = gw_sender g"
  shows "loop_effect env n g g'"
  using assms sends_ok_append_other [OF _ assms(2), of env] sends_none [OF assms(2)]
  by (auto simp: loop_effect_def)

lemma release_sender_simps [simp]:
  "gw_events (release_sender g) = gw_events g" "gw_sender (release_sender g) = None"
  by (simp_all add: release_sender_def)

lemma attempt_loop_effect:
  "attempt_loop env draft n k g = (r, g') \<Longrightarrow> loop_effect env k g g'"
proof (induction k arbitrary: n g)
  case 0
  then show ?case by (auto simp: loop_effect_def)
next
  case (Suc k)
  obtain r1 g1 where prep: "gateway_prepare env draft n g = (r1, g1)" by (cases "gateway_prepare env draft n g")
  note f1 = gateway_prepare_frame [OF prep]
  show ?case
  proof (cases r1)
    case (Inl e)
    with Suc.prems prep f1 show ?thesis by (auto intro: loop_effect_events [where new = "[]"])
  next
    case (Inr x)
    then obtain pr p est where r1: "r1 = Inr (pr, p, est)" by (cases x) auto
    note checks = f1(3) [OF r1]
    obtain r2 g2 where app: "gateway_approve env draft n pr p est g1 = (r2, g2)"
      by (cases "gateway_approve env draft n pr p est g1")
    note f2 = gateway_approve_frame [OF app]
    from f2(2) f1(1) obtain new2 where new2: "gw_events g2 = gw_events g @ new2"
      "\<forall>ev\<in>set new2. \<forall>q a. ev \<noteq> Sent q a" by auto
    show ?thesis
    proof (cases r2)
      case (Inl e)
      with Suc.prems prep r1 app have "g' = g2" by simp
      with f1(2) f2(1) show ?thesis by (auto intro: loop_effect_events [OF new2])
    next
      case (Inr x2)
      then have r2: "r2 = Inr ()" by simp
      have appr: "approved_before (rev (gw_events g2)) p" if "ge_debug env"
        using f2(2) r2 that f1(1) by auto
      obtain r3 g3 where own: "gateway_own env draft n p g2 = (r3, g3)"
        by (cases "gateway_own env draft n p g2")
      note f3 = gateway_own_frame [OF own]
      show ?thesis
      proof (cases r3)
        case (Inl e)
        with Suc.prems prep r1 app r2 own have "g' = g3" by simp
        moreover have "gw_sender g3 = gw_sender g" using f1(2) f2(1) f3(3) [OF Inl] by simp
        ultimately show ?thesis
          using new2 f3(1) by (auto intro: loop_effect_events [where new = new2])
      next
        case (Inr x3)
        then have r3: "r3 = Inr ()" by simp
        obtain r4 g4 where send: "gateway_send env draft n p est g3 = (r4, g4)"
          by (cases "gateway_send env draft n p est g3")
        from gateway_send_events [OF send] f3(1) new2(1) obtain ans where
          ev4: "gw_events g4 = gw_events g @ new2 @ [Sent p ans]"
          and bai: "\<And>e. r4 = Inl e \<Longrightarrow> is_bai e \<Longrightarrow> ans = Inl e" by auto
        have sendable: "sendable env p" using checks by (auto simp: sendable_def)
        have ok4: "sends_ok env (gw_events g) \<Longrightarrow> sends_ok env (gw_events g4)"
          using sends_ok_append_sent [OF sends_ok_append_other [OF _ new2(2)] sendable] appr new2(1) ev4 by simp
        have stop: "loop_effect env (Suc k) g g5" if "gw_events g5 = gw_events g4" "gw_sender g5 = None" for g5
          using that ev4 ok4 sends_none [OF new2(2)] by (auto simp: loop_effect_def intro: exI [of _ "new2 @ [Sent p ans]"])
        define g5 where "g5 = snd (record_status draft n ''provider_failed'' g4)"
        have g5: "gw_events (release_sender g5) = gw_events g4" "gw_sender (release_sender g5) = None"
          by (simp_all add: g5_def)
        have status: "record_status draft n ''provider_failed'' g4 = (Inr (), g5)"
          unfolding g5_def by (rule record_status_eq)
        consider x where "r4 = Inr x" "g' = release_sender g4"
          | e where "r4 = Inl e" "\<not> is_bai e" "g' = release_sender g4"
          | "g' = release_sender g5"
          | e where "r4 = Inl e" "is_bai e" "bai_retryable e"
              "attempt_loop env draft (Suc n) k (release_sender g5) = (r, g')"
          using Suc.prems prep r1 app r2 own r3 send
          by (auto simp: status split: sum.splits if_splits)
        then show ?thesis
        proof cases
          case (4 e)
          from Suc.IH [OF 4(4)] have eff: "loop_effect env k (release_sender g5) g'" .
          then obtain new where new: "gw_events g' = gw_events g4 @ new" "length (sends new) \<le> k"
            "list_all retryable_failure (butlast (sends new))" using g5 by (auto simp: loop_effect_def)
          have "retryable_failure (p, ans)" using bai [OF 4(1,2)] 4 by (simp add: retryable_failure_def)
          then have "list_all retryable_failure (butlast (sends (new2 @ [Sent p ans] @ new)))"
            using new(3) sends_none [OF new2(2)] by (cases "sends new = []") auto
          moreover have "length (sends (new2 @ [Sent p ans] @ new)) \<le> Suc k"
            using new(2) sends_none [OF new2(2)] by simp
          moreover have "gw_events g' = gw_events g @ (new2 @ [Sent p ans] @ new)"
            using new(1) ev4 by simp
          ultimately have "\<exists>new. gw_events g' = gw_events g @ new \<and> length (sends new) \<le> Suc k \<and>
              list_all retryable_failure (butlast (sends new))" by blast
          moreover have "sends_ok env (gw_events g) \<Longrightarrow> sends_ok env (gw_events g')" "gw_sender g' = None"
            using eff ok4 g5 by (auto simp: loop_effect_def)
          ultimately show ?thesis by (simp add: loop_effect_def)
        qed (use stop g5 in auto)
      qed
    qed
  qed
qed

lemma gateway_complete_effect:
  assumes "gateway_complete env draft g = (r, g')"
  shows "loop_effect env (ge_max_attempts env) g g'"
proof (cases "assign_identity draft (gw_allocator g)")
  case (Pair ra a)
  show ?thesis
  proof (cases ra)
    case (Inl e)
    with assms Pair show ?thesis
      by (auto simp: gateway_complete_def intro: loop_effect_events [where new = "[]"])
  next
    case (Inr d)
    with assms Pair have "attempt_loop env d 1 (ge_max_attempts env) (g\<lparr>gw_allocator := a\<rparr>) = (r, g')"
      by (simp add: gateway_complete_def)
    from attempt_loop_effect [OF this] show ?thesis by (simp add: loop_effect_def)
  qed
qed

text \<open>A series of calls on one gateway, whatever each returns.\<close>

fun gateway_run :: "'f gateway_env \<Rightarrow> model_call_draft list \<Rightarrow> 'f gateway \<Rightarrow> 'f gateway" where
  "gateway_run env [] g = g"
| "gateway_run env (d # ds) g = gateway_run env ds (snd (gateway_complete env d g))"

lemma gateway_run_ok: "sends_ok env (gw_events g) \<Longrightarrow> sends_ok env (gw_events (gateway_run env ds g))"
proof (induction ds arbitrary: g)
  case (Cons d ds)
  have "loop_effect env (ge_max_attempts env) g (snd (gateway_complete env d g))"
    by (rule gateway_complete_effect) (simp add: prod_eq_iff)
  with Cons show ?case by (auto simp: loop_effect_def)
qed simp

subsection \<open>Sample data\<close>

lemma find_fingerprints_Nil_iff: "find_fingerprints s = [] \<longleftrightarrow> safe_text s"
  using ensure_safe_iff(1) [of s s] by (auto simp: ensure_safe_def split: if_splits)

definition sample_draft :: model_call_draft where
  "sample_draft =
     \<lparr>dr_call_id = u ''c'', dr_turn_id = u ''t'', dr_flow_id = u ''f'', dr_call_sequence = 0,
      dr_purpose = u ''chat'', dr_persona_id = None, dr_state_id = None, dr_config_revision = u ''r'',
      dr_model_profile_id = u ''m'',
      dr_request = \<lparr>cq_flow_id = u ''f'', cq_turn_id = u ''t'', cq_messages = [], cq_tool_definitions = [],
        cq_model_profile_id = u ''m'', cq_deadline_seconds = None, cq_metadata = []\<rparr>,
      dr_parts = sample_parts\<rparr>"

definition sample_prepared_request :: prepared_request where
  "sample_prepared_request =
     \<lparr>pq_call_id = u ''c'', pq_attempt = 1, pq_provider_id = u ''p'', pq_model = u ''m'',
      pq_provider_request = sample_payload, pq_max_output_tokens = 8, pq_parts = sample_parts,
      pq_call_sequence = 1, pq_purpose = u ''chat'', pq_turn_id = u ''t'', pq_flow_id = u ''f'',
      pq_persona_id = None, pq_state_id = None, pq_config_revision = u ''r''\<rparr>"

definition sample_send :: send_payload where
  "sample_send =
     \<lparr>sp_call_id = u ''c'', sp_attempt = 1, sp_provider_id = u ''p'', sp_model = u ''m'',
      sp_sdk_kwargs = sample_payload,
      sp_sha256 = content_hash (canonical_json (JObj [(u ''m'', JArr [JStr (u ''hello'')])]))\<rparr>"

definition sample_completion :: completion_result where
  "sample_completion =
     \<lparr>cr_text = u ''ok'', cr_finish_reason = u ''stop'', cr_tool_calls = [], cr_usage = [],
      cr_usage_unavailable_reason = None, cr_accepted_at = None, cr_origin_call_id = None\<rparr>"

text \<open>The first send fails with a retryable error, later ones succeed; every payload is approved.\<close>

definition sample_gateway_env :: "int gateway_env" where
  "sample_gateway_env =
     \<lparr>ge_debug = True, ge_max_attempts = 3, ge_backoff = False,
      ge_prepare = (\<lambda>_ _. Inr sample_prepared_request), ge_materialize = (\<lambda>_. Inr sample_send),
      ge_estimate = (\<lambda>_ _. Inr \<lparr>ue_status = u ''unavailable'', ue_input_tokens = None, ue_part_tokens = [],
        ue_protocol_overhead = None, ue_max_output_tokens = 8, ue_projected_peak = None,
        ue_context_capacity = None, ue_projected_percent = None, ue_projected_remaining = None,
        ue_risk = None, ue_method = None, ue_confidence = None, ue_reason = Some (u ''x'')\<rparr>),
      ge_decide = (\<lambda>_ _ p _. make_decision Approve p),
      ge_send = (\<lambda>n _. if n < 3 then Inl (BaiErrorRetryable ''NETWORK_FAILED'') else Inr sample_completion),
      ge_sleep = (\<lambda>_. Inr ()), ge_now = 0, ge_isprintable = (\<lambda>_. True), ge_private = True,
      ge_percent = (\<lambda>a _. a)\<rparr>"

lemma sample_send_verified: "verify_digest sample_send = Inr ()"
  by (simp add: verify_digest_def sample_send_def payload_digest_def sample_payload_def)

lemma sample_guard_text: "find_fingerprints (guard_text (\<lambda>_. True) sample_payload) = []"
proof -
  let ?rest = "[123, 39, 109, 39, 58, 32, 40, 39, 104, 101, 108, 108, 111, 39, 44, 41, 125, 41] :: pystr"
  have "py_repr (\<lambda>_. True) sample_payload = u ''mappingproxy'' @ 40 # ?rest"
    by (simp add: sample_payload_def repr_str_def repr_char_def u_Cons)
  then have "escaped (py_repr (\<lambda>_. True) sample_payload) = u ''mappingproxy'' @ 40 # ?rest"
    by (simp add: escaped_def esc_char_def u_Cons)
  moreover have "safe_text (u ''mappingproxy'')"
    by (simp add: u_Cons safe_text_def no_match_Cons no_match_def match_sk_def match_akia_def match_bearer_def
        ascii_lower_def)
  moreover have "safe_text ?rest" by (rule safe_text_no_marker) simp_all
  moreover have "\<not> credential_char 40" 
    by (simp add: credential_char_def is_space_def is_ascii_alnum_def token_char_i_def token_char_def)
  ultimately have "safe_text (guard_text (\<lambda>_. True) sample_payload)"
    by (simp add: guard_text_def safe_quote_json safe_text_separator)
  then show ?thesis by (simp add: find_fingerprints_Nil_iff)
qed


definition sample_decision :: approval_decision where
  "sample_decision =
     \<lparr>ad_decision = Approve, ad_call_id = u ''c'', ad_attempt = 1, ad_payload_sha256 = sp_sha256 sample_send\<rparr>"

lemma sample_decision:
  "make_decision Approve sample_send = Inr sample_decision" "validate_payload sample_decision sample_send = Inr ()"
  using sample_send_verified
  by (simp_all add: make_decision_def validated_def sample_decision_def validate_payload_def sample_send_def)

lemma sample_fields:
  "sp_sdk_kwargs sample_send = sample_payload" "pq_parts sample_prepared_request = sample_parts"
  "ad_decision sample_decision = Approve" "cr_tool_calls sample_completion = []"
  by (simp_all add: sample_send_def sample_prepared_request_def sample_decision_def sample_completion_def)

lemma sample_guard: "sbind (gateway_guard sample_gateway_env sample_payload) f g = f () g"
  by (simp add: sbind_def gateway_guard_def prompt_guard_check_def sample_gateway_env_def sample_guard_text)

lemma sample_env_answers:
  "ge_prepare sample_gateway_env d n = Inr sample_prepared_request"
  "ge_materialize sample_gateway_env pr = Inr sample_send"
  "\<exists>est. ge_estimate sample_gateway_env pr p = Inr est"
  "ge_debug sample_gateway_env" "\<not> ge_backoff sample_gateway_env"
  "ge_decide sample_gateway_env n pr sample_send est = Inr sample_decision"
  "ge_send sample_gateway_env n p =
     (if n < 3 then Inl (BaiErrorRetryable ''NETWORK_FAILED'') else Inr sample_completion)"
  by (simp_all add: sample_gateway_env_def sample_decision)

lemma sample_prepare:
  "\<exists>est g'. gateway_prepare sample_gateway_env d n g = (Inr (sample_prepared_request, sample_send, est), g') \<and>
     gw_events g' = gw_events g"
proof -
  obtain est where "ge_estimate sample_gateway_env sample_prepared_request sample_send = Inr est"
    using sample_env_answers(3) by blast
  then show ?thesis
    by (simp add: gateway_prepare_def sbind_slift sample_env_answers(1,2) sample_fields sample_guard
        sample_send_verified sample_provenance record_status_def)
qed

lemma sample_approve:
  "\<exists>g'. gateway_approve sample_gateway_env d n pr sample_send est g = (Inr (), g') \<and>
     gw_events g' = gw_events g @ [Decided sample_send (Inr sample_decision), Cleared]"
  by (auto simp: gateway_approve_def sample_env_answers sample_fields sbind_slift sample_decision emit_def
      record_status_def)

lemma sample_own:
  "\<exists>g'. gateway_own sample_gateway_env d n sample_send g = (Inr (), g') \<and> gw_events g' = gw_events g"
  by (auto simp: gateway_own_def sample_fields sample_guard sbind_slift sample_send_verified record_status_def)

lemma sample_actual_usage: "\<exists>usage. gateway_actual_usage pc sample_completion est = Inr usage"
  by (simp add: gateway_actual_usage_def usage_value_def sample_completion_def)

lemma sample_sending:
  "\<exists>g'. gateway_send sample_gateway_env d n sample_send est g =
       (ge_send sample_gateway_env (length (gw_events g)) sample_send, g') \<and>
     gw_events g' = gw_events g @ [Sent sample_send (ge_send sample_gateway_env (length (gw_events g)) sample_send)]"
  using sample_actual_usage [of "ge_percent sample_gateway_env" est]
  by (auto simp: gateway_send_def Let_def sbind_slift sample_env_answers(7) sample_fields record_status_def)

lemma sample_loop_fail:
  assumes "gw_events g = []"
  shows "\<exists>g'. attempt_loop sample_gateway_env d n (Suc (Suc k)) g =
      attempt_loop sample_gateway_env d (Suc n) (Suc k) g' \<and>
    gw_events g' = [Decided sample_send (Inr sample_decision), Cleared,
      Sent sample_send (Inl (BaiErrorRetryable ''NETWORK_FAILED''))]"
proof -
  obtain est g1 where 1: "gateway_prepare sample_gateway_env d n g =
      (Inr (sample_prepared_request, sample_send, est), g1)" "gw_events g1 = gw_events g"
    using sample_prepare by blast
  obtain g2 where 2: "gateway_approve sample_gateway_env d n sample_prepared_request sample_send est g1 = (Inr (), g2)"
    "gw_events g2 = gw_events g1 @ [Decided sample_send (Inr sample_decision), Cleared]"
    using sample_approve by blast
  obtain g3 where 3: "gateway_own sample_gateway_env d n sample_send g2 = (Inr (), g3)" "gw_events g3 = gw_events g2"
    using sample_own by blast
  obtain g4 where 4: "gateway_send sample_gateway_env d n sample_send est g3 =
       (ge_send sample_gateway_env (length (gw_events g3)) sample_send, g4)"
    "gw_events g4 = gw_events g3 @ [Sent sample_send (ge_send sample_gateway_env (length (gw_events g3)) sample_send)]"
    using sample_sending by blast
  have "ge_send sample_gateway_env (length (gw_events g3)) sample_send = Inl (BaiErrorRetryable ''NETWORK_FAILED'')"
    using assms 1 2 3 by (simp add: sample_env_answers)
  with assms 1 2 3 4 show ?thesis
    by (auto simp: sample_env_answers BaiErrorRetryable_def record_status_def simp del: attempt_loop.simps
        simp: attempt_loop.simps(2) [of sample_gateway_env d n "Suc k"])
qed

lemma sample_loop_ok:
  assumes "length (gw_events g) = 3"
  shows "\<exists>g'. attempt_loop sample_gateway_env d n (Suc k) g = (Inr sample_completion, g') \<and>
    gw_events g' = gw_events g @ [Decided sample_send (Inr sample_decision), Cleared,
      Sent sample_send (Inr sample_completion)]"
proof -
  obtain est g1 where 1: "gateway_prepare sample_gateway_env d n g =
      (Inr (sample_prepared_request, sample_send, est), g1)" "gw_events g1 = gw_events g"
    using sample_prepare by blast
  obtain g2 where 2: "gateway_approve sample_gateway_env d n sample_prepared_request sample_send est g1 = (Inr (), g2)"
    "gw_events g2 = gw_events g1 @ [Decided sample_send (Inr sample_decision), Cleared]"
    using sample_approve by blast
  obtain g3 where 3: "gateway_own sample_gateway_env d n sample_send g2 = (Inr (), g3)" "gw_events g3 = gw_events g2"
    using sample_own by blast
  obtain g4 where 4: "gateway_send sample_gateway_env d n sample_send est g3 =
       (ge_send sample_gateway_env (length (gw_events g3)) sample_send, g4)"
    "gw_events g4 = gw_events g3 @ [Sent sample_send (ge_send sample_gateway_env (length (gw_events g3)) sample_send)]"
    using sample_sending by blast
  have "ge_send sample_gateway_env (length (gw_events g3)) sample_send = Inr sample_completion"
    using assms 1 2 3 by (simp add: sample_env_answers)
  with assms 1 2 3 4 show ?thesis by auto
qed

definition sample_gateway :: "int gateway" where
  "sample_gateway =
     \<lparr>gw_allocator = empty_allocator, gw_sender = None, gw_last_estimate = None, gw_last_actual = None,
      gw_states = [], gw_incident = None, gw_events = []\<rparr>"

lemma sample_complete:
  "\<exists>g'. gateway_complete sample_gateway_env sample_draft sample_gateway = (Inr sample_completion, g') \<and>
     gw_events g' =
       [Decided sample_send (Inr sample_decision), Cleared,
        Sent sample_send (Inl (BaiErrorRetryable ''NETWORK_FAILED'')),
        Decided sample_send (Inr sample_decision), Cleared, Sent sample_send (Inr sample_completion)]"
proof -
  obtain d a where a: "assign_identity sample_draft (gw_allocator sample_gateway) = (Inr d, a)"
    by (auto simp: assign_identity_def sample_gateway_def empty_allocator_def)
  let ?g = "sample_gateway\<lparr>gw_allocator := a\<rparr>"
  have max: "ge_max_attempts sample_gateway_env = Suc (Suc 1)"
    by (simp add: sample_gateway_env_def)
  have "gw_events ?g = []" by (simp add: sample_gateway_def)
  from sample_loop_fail [OF this, of d 1 1] obtain g1 where
    g1: "attempt_loop sample_gateway_env d 1 (Suc (Suc 1)) ?g = attempt_loop sample_gateway_env d (Suc 1) (Suc 1) g1"
    "gw_events g1 = [Decided sample_send (Inr sample_decision), Cleared,
      Sent sample_send (Inl (BaiErrorRetryable ''NETWORK_FAILED''))]" by blast
  from sample_loop_ok [of g1 d "Suc 1" 1] g1(2) obtain g2 where
    g2: "attempt_loop sample_gateway_env d (Suc 1) (Suc 1) g1 = (Inr sample_completion, g2)"
    "gw_events g2 = gw_events g1 @ [Decided sample_send (Inr sample_decision), Cleared,
      Sent sample_send (Inr sample_completion)]" by auto
  show ?thesis
    unfolding gateway_complete_def a prod.case sum.case max g1(1) g2(1) using g2(2) g1(2) by simp
qed



text \<open>
  C15. One logical call makes at most the configured number of sends; every send but the last failed
  with a retryable error, so a success or a final error is never followed by another send. The payload
  is not kept: after the call, whatever its outcome, the gateway owns none.
\<close>

theorem sends_bounded:
  assumes "gateway_complete env draft g = (r, g')" and "gw_sender g = None"
  shows "\<exists>new. gw_events g' = gw_events g @ new \<and> length (sends new) \<le> ge_max_attempts env \<and>
    list_all retryable_failure (butlast (sends new)) \<and> gw_sender g' = None"
  using gateway_complete_effect [OF assms(1)] assms(2) by (auto simp: loop_effect_def)

theorem sends_bounded_witness:
  "\<exists>g'. gateway_complete sample_gateway_env sample_draft sample_gateway = (Inr sample_completion, g') \<and>
     length (sends (gw_events g')) = 2 \<and> list_all retryable_failure (butlast (sends (gw_events g'))) \<and>
     gw_sender g' = None"
proof -
  obtain g' where g': "gateway_complete sample_gateway_env sample_draft sample_gateway = (Inr sample_completion, g')"
    "gw_events g' =
       [Decided sample_send (Inr sample_decision), Cleared,
        Sent sample_send (Inl (BaiErrorRetryable ''NETWORK_FAILED'')),
        Decided sample_send (Inr sample_decision), Cleared, Sent sample_send (Inr sample_completion)]"
    using sample_complete by auto
  have "gw_sender sample_gateway = None" "gw_events sample_gateway = []"
    by (simp_all add: sample_gateway_def)
  with sends_bounded [OF g'(1)] g' show ?thesis by auto
qed

text \<open>
  Call identities are unique and ordered: over any series of drafts, the ones let through have
  pairwise distinct identifiers, and those of one turn are numbered 1, 2, 3 and so on in the order of
  the calls, whatever number the caller had put in.
\<close>

theorem call_sequence_exact:
  "distinct (map dr_call_id (assign_all drafts empty_allocator)) \<and>
   map dr_call_sequence (filter (\<lambda>d. dr_turn_id d = turn) (assign_all drafts empty_allocator)) =
     map (\<lambda>i. int i + 1) [0..<length (filter (\<lambda>d. dr_turn_id d = turn) (assign_all drafts empty_allocator))]"
proof -
  have "next_number empty_allocator turn = 1" by (simp add: next_number_def empty_allocator_def)
  with assign_all_numbers [of drafts empty_allocator turn] show ?thesis by (simp add: add.commute)
qed

end
