(* ===== verification/Estimation.thy ===== *)
theory Estimation
  imports Call_Models "HOL-Library.Log_Nat"
begin

text \<open>
  \<open>model_calls/estimation.py\<close>: the offline estimate of the size of a request. A \<open>float\<close> is the rational it
  stands for; \<open>fl\<close> rounds to the nearest double, ties to even, as every operation of the language does
  (the magnitudes here are far from overflow and underflow).
\<close>

subsection \<open>Doubles\<close>

definition pow2 :: "int \<Rightarrow> rat" where
  "pow2 e = (if 0 \<le> e then 2 ^ nat e else 1 / 2 ^ nat (- e))"

definition round_half_even :: "rat \<Rightarrow> int" where
  "round_half_even x =
     (let n = \<lfloor>x\<rfloor>; d = x - of_int n
      in if d < 1 / 2 then n else if d > 1 / 2 then n + 1 else if even n then n else n + 1)"

text \<open>The exponent of the leading bit of a positive rational.\<close>

definition leading_exponent :: "rat \<Rightarrow> int" where
  "leading_exponent x =
     (let (a, b) = quotient_of x; e = bitlen a - bitlen b
      in if pow2 e \<le> x then e else e - 1)"

definition fl :: "rat \<Rightarrow> rat" where
  "fl x =
     (if x = 0 then 0
      else (let unit = pow2 (leading_exponent \<bar>x\<bar> - 52)
            in if 0 < x then of_int (round_half_even (x / unit)) * unit
               else - (of_int (round_half_even (\<bar>x\<bar> / unit)) * unit)))"

lemma pow2_pos [simp]: "0 < pow2 e"
  by (simp add: pow2_def)

lemma round_half_even_nonneg: "0 \<le> x \<Longrightarrow> 0 \<le> round_half_even x"
  by (auto simp: round_half_even_def Let_def)

lemma fl_nonneg: "0 \<le> x \<Longrightarrow> 0 \<le> fl x"
  by (auto simp: fl_def Let_def intro!: mult_nonneg_nonneg round_half_even_nonneg less_imp_le [OF pow2_pos]
      divide_nonneg_pos)

subsection \<open>Text units\<close>

text \<open>\<open>_character_units\<close> in quarters: the sums of the code are exact multiples of 0.25.\<close>

definition character_quarters :: "pystr \<Rightarrow> nat" where
  "character_quarters s =
     sum_list (map (\<lambda>c. if c < 128 then 1 else if 13312 \<le> c \<and> c \<le> 40959 then 4 else 3) s)"

definition estimate_text_payload :: "pystr \<Rightarrow> int \<Rightarrow> int" where
  "estimate_text_payload s margin =
     (if s = [] then 0
      else (let base = (int (character_quarters s) + 3) div 4
            in \<lceil>fl (fl (of_int base) * fl (1 + fl (of_int margin / 100)))\<rceil>))"

lemma estimate_text_nonneg: "0 \<le> margin \<Longrightarrow> 0 \<le> estimate_text_payload s margin"
proof -
  assume m: "0 \<le> margin"
  have "0 \<le> fl (fl (of_int ((int (character_quarters s) + 3) div 4)) * fl (1 + fl (of_int margin / 100)))"
    using m by (intro fl_nonneg mult_nonneg_nonneg add_nonneg_nonneg divide_nonneg_pos) simp_all
  then have "0 \<le> \<lceil>fl (fl (of_int ((int (character_quarters s) + 3) div 4)) * fl (1 + fl (of_int margin / 100)))\<rceil>"
    by linarith
  then show ?thesis by (simp add: estimate_text_payload_def Let_def)
qed

subsection \<open>The estimator\<close>

record estimator =
  es_capacity :: "int option"
  es_margin :: int
  es_high :: int
  es_critical :: int

definition est_messages_text :: pystr where
  "est_messages_text = u ''materialized messages '' @ [32467, 26500, 19981, 21463] @ u '' estimator '' @ [25903, 25345, 12290]"

definition est_json_text :: pystr where
  "est_json_text = u ''materialized payload '' @ [19981, 26159, 21487, 20272, 31639] @ u '' JSON'' @ [12290]"

definition est_none_text :: pystr where
  "est_none_text =
     [24403, 21069] @ u '' provider/model '' @ [23578, 26080, 21487, 20449] @ u '' estimator'' @ [12290]"

definition unavailable_estimate :: "int \<Rightarrow> int option \<Rightarrow> pystr \<Rightarrow> rat usage_estimate result" where
  "unavailable_estimate max_output capacity reason =
     validated usage_estimate_ok
       \<lparr>ue_status = u ''unavailable'', ue_input_tokens = None, ue_part_tokens = [],
        ue_protocol_overhead = None, ue_max_output_tokens = max_output, ue_projected_peak = None,
        ue_context_capacity = capacity, ue_projected_percent = None, ue_projected_remaining = None,
        ue_risk = None, ue_method = None, ue_confidence = None, ue_reason = Some reason\<rparr>"

text \<open>\<open>UnavailableTokenEstimator\<close> of the gateway.\<close>

definition unavailable_token_estimate :: "prepared_request \<Rightarrow> rat usage_estimate result" where
  "unavailable_token_estimate request = unavailable_estimate (pq_max_output_tokens request) None est_none_text"

fun messages_supported :: "pyval \<Rightarrow> bool" where
  "messages_supported (PDict kvs) =
     (case dict_get kvs (u ''messages'') of
        Some (PList ms) \<Rightarrow> list_all (\<lambda>m. case m of PDict _ \<Rightarrow> True | _ \<Rightarrow> False) ms
      | _ \<Rightarrow> False)"
| "messages_supported v = False"

definition part_token_table :: "int \<Rightarrow> request_part list \<Rightarrow> (pystr \<times> int) list" where
  "part_token_table margin parts =
     fold (\<lambda>p d. dict_set (rp_part_id p) (estimate_text_payload (rp_content p) margin) d)
       (filter (\<lambda>p. rp_participation p = PartIncluded) parts) []"

definition estimate_risk :: "estimator \<Rightarrow> int \<Rightarrow> (rat option \<times> int option \<times> pystr) result" where
  "estimate_risk es peak =
     (case es_capacity es of
        None \<Rightarrow> Inr (None, None, u ''normal'')
      | Some capacity \<Rightarrow>
          if capacity = 0 then Inl (OtherExn ''ZeroDivisionError'')
          else (let percent = fl (fl (of_int peak / of_int capacity) * 100)
                in Inr (Some percent, Some (capacity - peak),
                        if peak > capacity then u ''exceeded''
                        else if percent \<ge> of_int (es_critical es) then u ''critical''
                        else if percent \<ge> of_int (es_high es) then u ''high'' else u ''normal'')))"

definition estimate_usage ::
  "estimator \<Rightarrow> prepared_request \<Rightarrow> send_payload \<Rightarrow> rat usage_estimate result"
where
  "estimate_usage es request payload =
     (let kwargs = thaw_json (sp_sdk_kwargs payload)
      in if \<not> messages_supported kwargs
         then unavailable_estimate (pq_max_output_tokens request) (es_capacity es) est_messages_text
         else (case json_of_pyval kwargs of
           Inl e \<Rightarrow> unavailable_estimate (pq_max_output_tokens request) (es_capacity es) est_json_text
         | Inr j \<Rightarrow>
             (let part_tokens = part_token_table (es_margin es) (pq_parts request);
                  part_total = sum_list (map snd part_tokens);
                  whole = estimate_text_payload (canonical_json j) (es_margin es);
                  overhead = max 0 (whole - part_total);
                  tokens = part_total + overhead;
                  peak = tokens + pq_max_output_tokens request
              in rbind (estimate_risk es peak) (\<lambda>(percent, remaining, risk).
                 validated usage_estimate_ok
                   \<lparr>ue_status = u ''estimated'', ue_input_tokens = Some tokens, ue_part_tokens = part_tokens,
                    ue_protocol_overhead = Some overhead, ue_max_output_tokens = pq_max_output_tokens request,
                    ue_projected_peak = Some peak, ue_context_capacity = es_capacity es,
                    ue_projected_percent = percent, ue_projected_remaining = remaining,
                    ue_risk = Some risk, ue_method = Some (u ''deepseek_character_v1''),
                    ue_confidence = Some (u ''conservative''), ue_reason = None\<rparr>))))"

lemma unavailable_estimate_ok:
  "0 \<le> m \<Longrightarrow> opt_ge 1 cap \<Longrightarrow> reason \<noteq> [] \<Longrightarrow>
     \<exists>e. unavailable_estimate m cap reason = Inr e \<and> usage_estimate_ok e \<and> ue_status e = u ''unavailable''"
  by (auto simp: unavailable_estimate_def validated_def usage_estimate_ok_def opt_ge_def)

lemma texts_neq_Nil [simp]: "est_messages_text \<noteq> []" "est_json_text \<noteq> []" "est_none_text \<noteq> []"
  by (simp_all add: est_messages_text_def est_json_text_def est_none_text_def)

text \<open>
  The estimator always answers and conserves: for any request it returns an estimate its own
  validator accepts. When the payload can be read, the input estimate is the sum of the parts plus the
  protocol overhead, the larger of the parts and the whole text; the peak adds the output limit; and the
  risk is \<open>exceeded\<close> exactly when the peak is above the capacity.
\<close>

theorem estimate_conserved:
  assumes "0 < pq_max_output_tokens request" and "opt_ge 1 (es_capacity es)" and "0 \<le> es_margin es"
  shows "\<exists>e. estimate_usage es request payload = Inr e \<and> usage_estimate_ok e \<and>
    (if messages_supported (thaw_json (sp_sdk_kwargs payload)) \<and> is_ok (json_of_pyval (thaw_json (sp_sdk_kwargs payload)))
     then ue_status e = u ''estimated'' \<and>
       (\<exists>i. ue_input_tokens e = Some i \<and>
         i = max (sum_list (map snd (ue_part_tokens e)))
               (estimate_text_payload (canonical_json (projr (json_of_pyval (thaw_json (sp_sdk_kwargs payload)))))
                 (es_margin es)) \<and>
         ue_projected_peak e = Some (i + pq_max_output_tokens request) \<and>
         (ue_risk e = Some (u ''exceeded'') \<longleftrightarrow>
            (\<exists>c. es_capacity es = Some c \<and> c < i + pq_max_output_tokens request)))
     else ue_status e = u ''unavailable'')"
proof (cases "messages_supported (thaw_json (sp_sdk_kwargs payload)) \<and> is_ok (json_of_pyval (thaw_json (sp_sdk_kwargs payload)))")
  case False
  then have "estimate_usage es request payload = unavailable_estimate (pq_max_output_tokens request) (es_capacity es) est_messages_text \<or>
      estimate_usage es request payload = unavailable_estimate (pq_max_output_tokens request) (es_capacity es) est_json_text"
    by (auto simp: estimate_usage_def Let_def split: sum.splits)
  then show ?thesis
    unfolding if_not_P [OF False]
    using unavailable_estimate_ok [of "pq_max_output_tokens request" "es_capacity es"] assms by fastforce
next
  case True
  then obtain j where j: "json_of_pyval (thaw_json (sp_sdk_kwargs payload)) = Inr j"
    by (cases "json_of_pyval (thaw_json (sp_sdk_kwargs payload))") auto
  define parts where "parts = part_token_table (es_margin es) (pq_parts request)"
  define total where "total = sum_list (map snd parts)"
  define whole where "whole = estimate_text_payload (canonical_json j) (es_margin es)"
  define i where "i = total + max 0 (whole - total)"
  have i: "i = max total whole" "0 \<le> i"
    using estimate_text_nonneg [OF assms(3), of "canonical_json j"] by (auto simp: i_def whole_def max_def)
  obtain pc rem risk where r: "estimate_risk es (i + pq_max_output_tokens request) = Inr (pc, rem, risk)"
    "risk = u ''exceeded'' \<longleftrightarrow> (\<exists>c. es_capacity es = Some c \<and> c < i + pq_max_output_tokens request)"
    using assms(2) by (auto simp: estimate_risk_def opt_ge_def Let_def split: option.splits)
  show ?thesis
    unfolding if_P [OF True]
    using True j r i assms
    by (auto simp: estimate_usage_def Let_def validated_def usage_estimate_ok_def opt_ge_def
        parts_def [symmetric] total_def [symmetric] whole_def [symmetric] i_def [symmetric] rbind_def)
qed

definition sample_request :: prepared_request where
  "sample_request =
     \<lparr>pq_call_id = u ''c'', pq_attempt = 1, pq_provider_id = u ''p'', pq_model = u ''m'',
      pq_provider_request = PProxy [(u ''messages'', PTuple [])], pq_max_output_tokens = 8, pq_parts = [],
      pq_call_sequence = 1, pq_purpose = u ''chat'', pq_turn_id = u ''t'', pq_flow_id = u ''f'',
      pq_persona_id = None, pq_state_id = None, pq_config_revision = u ''r''\<rparr>"

definition sample_estimated :: send_payload where
  "sample_estimated =
     \<lparr>sp_call_id = u ''c'', sp_attempt = 1, sp_provider_id = u ''p'', sp_model = u ''m'',
      sp_sdk_kwargs = PProxy [(u ''messages'', PTuple [])], sp_sha256 = []\<rparr>"

definition sample_estimator :: estimator where
  "sample_estimator = \<lparr>es_capacity = Some 100, es_margin = 10, es_high = 80, es_critical = 95\<rparr>"

theorem estimate_conserved_witness:
  "\<exists>e i. estimate_usage sample_estimator sample_request sample_estimated = Inr e \<and>
     ue_status e = u ''estimated'' \<and> ue_input_tokens e = Some i \<and> ue_projected_peak e = Some (i + 8)"
proof -
  have "messages_supported (thaw_json (sp_sdk_kwargs sample_estimated)) \<and>
      is_ok (json_of_pyval (thaw_json (sp_sdk_kwargs sample_estimated)))"
    by (simp add: sample_estimated_def)
  with estimate_conserved [of sample_request sample_estimator sample_estimated] show ?thesis
    by (auto simp: sample_request_def sample_estimator_def opt_ge_def)
qed

end
