(* ===== verification/Provider.thy ===== *)
theory Provider
  imports Gateway
begin

text \<open>
  \<open>providers/deepseek.py\<close>: the adapter that turns a draft into the arguments of the SDK call, attributes what
  it adds to the request, and maps the SDK's answer to domain values and errors. The SDK itself is an
  argument: its answer is an \<open>sdk_outcome\<close>, with the arguments of a tool call as \<open>json.loads\<close> reads them.
\<close>

subsection \<open>The profile\<close>

record provider_profile =
  pf_model :: pystr
  pf_provider_id :: "pystr option"
  pf_max_output :: "int option"
  pf_thinking :: bool
  pf_temperature :: "pyval option"
  pf_json_output :: bool
  pf_stream :: bool
  pf_retryable :: "int list"

definition make_provider :: "provider_profile \<Rightarrow> provider_profile result" where
  "make_provider pf =
     (if pf_stream pf then Inl (BaiError ''PROVIDER_CAPABILITY_INVALID'')
      else if \<not> list_all (\<lambda>s. 100 \<le> s \<and> s \<le> 599) (pf_retryable pf)
      then Inl (BaiError ''PROVIDER_CAPABILITY_INVALID'')
      else Inr pf)"

subsection \<open>Preparing a request\<close>

fun pyval_of_json :: "json \<Rightarrow> pyval" where
  "pyval_of_json JNull = PNone"
| "pyval_of_json (JBool b) = PBool b"
| "pyval_of_json (JInt i) = PInt i"
| "pyval_of_json (JFloat r) = PFloat r"
| "pyval_of_json (JStr s) = PStr s"
| "pyval_of_json (JArr xs) = PList (map pyval_of_json xs)"
| "pyval_of_json (JObj kvs) = PDict (map (\<lambda>(k, v). (k, pyval_of_json v)) kvs)"

text \<open>\<open>str(value)\<close> of a JSON value; \<open>isprintable\<close> is the character test of \<open>repr\<close>.\<close>

definition py_str :: "(nat \<Rightarrow> bool) \<Rightarrow> json \<Rightarrow> pystr" where
  "py_str isprintable j = (case j of JStr s \<Rightarrow> s | _ \<Rightarrow> py_repr isprintable (pyval_of_json j))"

text \<open>One tool call of a message, as the wire form of the provider.\<close>

definition map_tool_call :: "(nat \<Rightarrow> bool) \<Rightarrow> jdict \<Rightarrow> (pystr \<times> json) result" where
  "map_tool_call isp call =
     (case (dict_get call (u ''call_id''), dict_get call (u ''name''), dict_get call (u ''arguments'')) of
        (Some i, Some n, Some (JObj args)) \<Rightarrow>
          if py_str isp i = [] \<or> py_str isp n = [] then Inl (BaiError ''PROVIDER_TOOL_CALL_INVALID'')
          else Inr (py_str isp i,
                 JObj [(u ''id'', JStr (py_str isp i)), (u ''type'', JStr (u ''function'')),
                   (u ''function'', JObj [(u ''name'', JStr (py_str isp n)),
                     (u ''arguments'', JStr (canonical_json (JObj args)))])])
      | _ \<Rightarrow> Inl (BaiError ''PROVIDER_TOOL_CALL_INVALID''))"

definition message_pointer :: "nat \<Rightarrow> string \<Rightarrow> pystr" where
  "message_pointer i field = u ''/messages/'' @ nat_str i @ u ''/'' @ u field"

definition content_parts_at :: "nat \<Rightarrow> request_part list \<Rightarrow> request_part list" where
  "content_parts_at i parts =
     filter (\<lambda>p. rp_participation p = PartIncluded \<and> rp_pointer p = Some (message_pointer i ''content'')) parts"

text \<open>The sources of the tool calls: those of the content, the gateway's own when there are any.\<close>

definition upstream_sources :: "request_part list \<Rightarrow> source_ref list" where
  "upstream_sources ps =
     (let every = concat (map rp_sources ps);
          own = filter (\<lambda>s. sf_producer s = u ''model_call_gateway'') every
      in dedup (if own = [] then every else own))"

text \<open>What a message with tool calls adds to the parts.\<close>

definition add_tool_call_parts ::
  "pystr \<Rightarrow> nat \<Rightarrow> message \<Rightarrow> (pystr \<times> json) list \<Rightarrow> request_part list \<Rightarrow> request_part list result"
where
  "add_tool_call_parts call_id i m calls parts =
     (let upstream = content_parts_at i parts
      in rbind
           (if upstream \<noteq> [] then Inr (upstream_sources upstream, parts)
            else rbind (validated source_ref_ok
                   \<lparr>sf_source_kind = SrcGenerated,
                    sf_source_id = call_id @ u '':assistant-tool-calls:'' @ nat_str i, sf_path = None,
                    sf_content_sha256 = None, sf_revision = None, sf_entity_ids = map fst calls,
                    sf_producer = u ''provider_response''\<rparr>) (\<lambda>source.
                 rbind (validated request_part_ok
                   \<lparr>rp_part_id = call_id @ u '':assistant-content:'' @ nat_str i, rp_order = int (length parts),
                    rp_participation = PartIncluded, rp_trust = UntrustedData,
                    rp_pointer = Some (message_pointer i ''content''),
                    rp_text_span = Some (0, int (length (ms_content m))), rp_content = ms_content m,
                    rp_sources = [source], rp_exclusion_reason = None\<rparr>) (\<lambda>part.
                 Inr ([source], parts @ [part]))))
           (\<lambda>(sources, parts).
              rbind (validated request_part_ok
                \<lparr>rp_part_id = call_id @ u '':assistant-tool-calls:'' @ nat_str i, rp_order = int (length parts),
                 rp_participation = PartIncluded, rp_trust = UntrustedData,
                 rp_pointer = Some (message_pointer i ''tool_calls''), rp_text_span = None,
                 rp_content = canonical_json (JArr (map snd calls)), rp_sources = sources,
                 rp_exclusion_reason = None\<rparr>) (\<lambda>part.
              Inr (parts @ [part]))))"

definition map_message :: "message \<Rightarrow> (pystr \<times> json) list \<Rightarrow> json" where
  "map_message m calls =
     JObj ([(u ''role'', JStr (ms_role m)), (u ''content'', JStr (ms_content m))] @
       (if falsy (ms_tool_call_id m) then [] else [(u ''tool_call_id'', JStr (the (ms_tool_call_id m)))]) @
       (if ms_tool_calls m = [] then [] else [(u ''tool_calls'', JArr (map snd calls))]))"

fun map_messages ::
  "(nat \<Rightarrow> bool) \<Rightarrow> pystr \<Rightarrow> nat \<Rightarrow> message list \<Rightarrow> request_part list \<Rightarrow> (json list \<times> request_part list) result"
where
  "map_messages isp call_id i [] parts = Inr ([], parts)"
| "map_messages isp call_id i (m # ms) parts =
     rbind (rmap (map_tool_call isp) (ms_tool_calls m)) (\<lambda>calls.
     rbind (if ms_tool_calls m = [] then Inr parts else add_tool_call_parts call_id i m calls parts) (\<lambda>parts.
     rbind (map_messages isp call_id (Suc i) ms parts) (\<lambda>(js, parts).
     Inr (map_message m calls # js, parts))))"

text \<open>Tool definitions are passed on in the provider's form.\<close>

definition map_tool :: "jdict \<Rightarrow> json result" where
  "map_tool d =
     (if dict_get d (u ''type'') = Some (JStr (u ''function'')) \<and> dict_get d (u ''function'') \<noteq> None
      then Inr (JObj d)
      else (case (dict_get d (u ''name''), dict_get d (u ''input_schema'')) of
              (Some n, Some schema) \<Rightarrow>
                Inr (JObj [(u ''type'', JStr (u ''function'')),
                  (u ''function'', JObj [(u ''name'', n),
                    (u ''description'', case dict_get d (u ''description'') of None \<Rightarrow> JStr [] | Some x \<Rightarrow> x),
                    (u ''parameters'', schema)])])
            | _ \<Rightarrow> Inl KeyExn))"

fun tool_wire_name :: "(nat \<Rightarrow> bool) \<Rightarrow> json \<Rightarrow> pystr result" where
  "tool_wire_name isp (JObj d) =
     (case dict_get d (u ''function'') of
        Some (JObj f) \<Rightarrow> (case dict_get f (u ''name'') of Some n \<Rightarrow> Inr (py_str isp n) | None \<Rightarrow> Inl KeyExn)
      | None \<Rightarrow> Inl KeyExn
      | Some _ \<Rightarrow> Inl TypeExn)"
| "tool_wire_name isp j = Inl TypeExn"

definition zero_digest :: pystr where
  "zero_digest = u ''sha256:'' @ replicate 64 48"

definition tools_part ::
  "(nat \<Rightarrow> bool) \<Rightarrow> model_call_draft \<Rightarrow> json list \<Rightarrow> request_part list \<Rightarrow> request_part list result"
where
  "tools_part isp draft tools parts =
     (if tools = [] then Inr parts
      else rbind (rmap (tool_wire_name isp) tools) (\<lambda>names.
           rbind (validated source_ref_ok
             \<lparr>sf_source_kind = SrcConfigFile, sf_source_id = u ''tool-definitions'',
              sf_path = Some (u ''config/tools.toml''), sf_content_sha256 = Some zero_digest,
              sf_revision = Some (dr_config_revision draft), sf_entity_ids = names,
              sf_producer = u ''tool_registry''\<rparr>) (\<lambda>source.
           rbind (validated request_part_ok
             \<lparr>rp_part_id = dr_call_id draft @ u '':tools'', rp_order = int (length parts),
              rp_participation = PartIncluded, rp_trust = TrustedInstruction,
              rp_pointer = Some (u ''/tools''), rp_text_span = None,
              rp_content = canonical_json (JArr tools), rp_sources = [source], rp_exclusion_reason = None\<rparr>)
           (\<lambda>part. Inr (parts @ [part])))))"

definition request_kwargs :: "provider_profile \<Rightarrow> json list \<Rightarrow> json list \<Rightarrow> pyval" where
  "request_kwargs pf messages tools =
     PDict ([(u ''model'', PStr (pf_model pf)), (u ''messages'', PList (map pyval_of_json messages)),
       (u ''stream'', PBool False),
       (u ''max_tokens'', case pf_max_output pf of None \<Rightarrow> PNone | Some n \<Rightarrow> PInt n),
       (u ''extra_body'', PDict [(u ''thinking'', PDict [(u ''type'',
          PStr (if pf_thinking pf then u ''enabled'' else u ''disabled''))])])] @
       (if tools = [] then [] else [(u ''tools'', PList (map pyval_of_json tools))]) @
       (case pf_temperature pf of None \<Rightarrow> [] | Some t \<Rightarrow> [(u ''temperature'', t)]) @
       (if pf_json_output pf then [(u ''response_format'', PDict [(u ''type'', PStr (u ''json_object''))])] else []))"

definition provider_prepare ::
  "(nat \<Rightarrow> bool) \<Rightarrow> provider_profile \<Rightarrow> model_call_draft \<Rightarrow> nat \<Rightarrow> prepared_request result"
where
  "provider_prepare isp pf draft attempt =
     rbind (map_messages isp (dr_call_id draft) 0 (cq_messages (dr_request draft)) (dr_parts draft)) (\<lambda>(messages, parts).
     rbind (rmap map_tool (cq_tool_definitions (dr_request draft))) (\<lambda>tools.
     rbind (tools_part isp draft tools parts) (\<lambda>parts.
     make_prepared_request
       \<lparr>pq_call_id = dr_call_id draft, pq_attempt = int attempt,
        pq_provider_id = (case pf_provider_id pf of None \<Rightarrow> u ''deepseek'' | Some i \<Rightarrow> i),
        pq_model = pf_model pf, pq_provider_request = request_kwargs pf messages tools,
        pq_max_output_tokens = (case pf_max_output pf of None \<Rightarrow> 8192 | Some n \<Rightarrow> n), pq_parts = parts,
        pq_call_sequence = dr_call_sequence draft, pq_purpose = dr_purpose draft,
        pq_turn_id = dr_turn_id draft, pq_flow_id = dr_flow_id draft,
        pq_persona_id = dr_persona_id draft, pq_state_id = dr_state_id draft,
        pq_config_revision = dr_config_revision draft\<rparr>)))"

definition provider_materialize :: "prepared_request \<Rightarrow> send_payload result" where
  "provider_materialize r =
     create_payload (pq_call_id r) (pq_attempt r) (pq_provider_id r) (pq_model r) (pq_provider_request r)"

subsection \<open>Sending once\<close>

text \<open>A raw tool call: identifier and name as \<open>str\<close> gives them, arguments as \<open>json.loads\<close> reads them.\<close>

record raw_tool_call =
  rt_id :: "pystr option"
  rt_name :: "pystr option"
  rt_arguments :: "json option"

record sdk_usage =
  su_prompt :: "int option"
  su_completion :: "int option"
  su_total :: "int option option"

record sdk_choice =
  sc_finish_reason :: "pystr option"
  sc_tool_calls :: "raw_tool_call list"
  sc_content :: "pystr option"

datatype sdk_outcome =
    SdkResponse "sdk_choice list" "sdk_usage option"
  | SdkStatus int
  | SdkConnection
  | SdkException
  | SdkCancelled

fun read_tool_calls :: "pystr set \<Rightarrow> raw_tool_call list \<Rightarrow> jdict list result" where
  "read_tool_calls seen [] = Inr []"
| "read_tool_calls seen (c # cs) =
     (case (rt_id c, rt_name c, rt_arguments c) of
        (Some i, Some n, Some (JObj args)) \<Rightarrow>
          if i = [] \<or> n = [] \<or> i \<in> seen then Inl (BaiError ''PROVIDER_TOOL_CALL_INVALID'')
          else rbind (read_tool_calls (insert i seen) cs) (\<lambda>ds.
            Inr ([(u ''call_id'', JStr i), (u ''name'', JStr n), (u ''arguments'', JObj args)] # ds))
      | _ \<Rightarrow> Inl (BaiError ''PROVIDER_TOOL_CALL_INVALID''))"

definition no_usage_text :: pystr where
  "no_usage_text = u ''provider '' @ [26410, 36820, 22238, 23454, 38469, 29992, 37327, 12290]"

definition bad_usage_text :: pystr where
  "bad_usage_text = u ''provider '' @
     [36820, 22238, 30340, 23454, 38469, 29992, 37327, 26080, 25928, 25110, 19981, 23432, 24658, 12290]"

definition read_usage :: "sdk_usage option \<Rightarrow> (pystr \<times> int) list \<times> pystr option" where
  "read_usage usage =
     (case usage of
        None \<Rightarrow> ([], Some no_usage_text)
      | Some us \<Rightarrow>
          (case (su_prompt us, su_completion us,
                 case su_total us of
                   None \<Rightarrow> (case (su_prompt us, su_completion us) of (Some a, Some b) \<Rightarrow> Some (a + b) | _ \<Rightarrow> None)
                 | Some t \<Rightarrow> t) of
             (Some a, Some b, Some t) \<Rightarrow>
               if min (min a b) t < 0 \<or> t \<noteq> a + b then ([], Some bad_usage_text)
               else ([(u ''input_tokens'', a), (u ''output_tokens'', b), (u ''total_tokens'', t)], None)
           | _ \<Rightarrow> ([], Some bad_usage_text)))"

definition status_error :: "int list \<Rightarrow> int \<Rightarrow> exn" where
  "status_error retryable_statuses s =
     (let retry = s \<in> set retryable_statuses
      in if s = 400 \<or> s = 422 then BaiError ''PROVIDER_REQUEST_INVALID''
         else if s = 401 \<or> s = 403 then BaiError ''PROVIDER_AUTH_FAILED''
         else if s = 402 then BaiError ''PROVIDER_BALANCE_INSUFFICIENT''
         else Bai PlainBaiError
           (if s = 429 then ''PROVIDER_RATE_LIMITED''
            else if s = 500 \<or> s = 503 then ''PROVIDER_UNAVAILABLE'' else ''PROVIDER_HTTP_FAILED'') retry)"

definition read_response :: "sdk_choice list \<Rightarrow> sdk_usage option \<Rightarrow> completion_result result" where
  "read_response choices usage =
     (case choices of
        [] \<Rightarrow> Inl (BaiError ''PROVIDER_PROTOCOL_INVALID'')
      | choice # _ \<Rightarrow>
          if sc_finish_reason choice = Some (u ''length'') then Inl (BaiError ''PROVIDER_TRUNCATED'')
          else rbind (read_tool_calls {} (sc_tool_calls choice)) (\<lambda>calls.
            if sc_content choice = None \<and> calls = [] then Inl (BaiError ''PROVIDER_PROTOCOL_INVALID'')
            else (let (vals, reason) = read_usage usage
                  in validated completion_result_ok
                    \<lparr>cr_text = (case sc_content choice of None \<Rightarrow> [] | Some t \<Rightarrow> t),
                     cr_finish_reason = (if falsy (sc_finish_reason choice) then u ''stop''
                                         else the (sc_finish_reason choice)),
                     cr_tool_calls = calls, cr_usage = vals, cr_usage_unavailable_reason = reason,
                     cr_accepted_at = None, cr_origin_call_id = None\<rparr>)))"

text \<open>\<open>send_once\<close> with the field \<open>active_payload\<close>.\<close>

definition send_once ::
  "provider_profile \<Rightarrow> sdk_outcome \<Rightarrow> send_payload \<Rightarrow> (send_payload option, completion_result) op"
where
  "send_once pf outcome payload active =
     ((case outcome of
         SdkResponse choices usage \<Rightarrow>
           (case read_response choices usage of
              Inr r \<Rightarrow> Inr r
            | Inl e \<Rightarrow> Inl (if is_bai e then e else BaiError ''PROVIDER_FAILED''))
       | SdkStatus s \<Rightarrow> Inl (status_error (pf_retryable pf) s)
       | SdkConnection \<Rightarrow> Inl (BaiErrorRetryable ''NETWORK_FAILED'')
       | SdkException \<Rightarrow> Inl (BaiError ''PROVIDER_FAILED'')
       | SdkCancelled \<Rightarrow> Inl CancelledExn), None)"

subsection \<open>Reading the prepared request back\<close>

lemma plain_pyval_of_json [simp]: "is_plain (pyval_of_json j)"
  by (induction j rule: pyval_of_json.induct) (auto simp: list_all_iff)

lemma json_of_pyval_of_json [simp]: "json_of_pyval (pyval_of_json j) = Inr j"
proof (induction j rule: pyval_of_json.induct)
  case (6 xs)
  then have "rmap json_of_pyval (map pyval_of_json xs) = Inr xs"
    by (induction xs) auto
  then show ?case by simp
next
  case (7 kvs)
  have "\<forall>kv\<in>set kvs. json_of_pyval (pyval_of_json (snd kv)) = Inr (snd kv)"
    using "7.IH" by (metis prod.collapse)
  then have "rmap (\<lambda>(k, v). rbind (json_of_pyval v) (\<lambda>j. Inr (k, j))) (map (\<lambda>(k, v). (k, pyval_of_json v)) kvs) = Inr kvs"
    by (induction kvs) (simp_all add: case_prod_unfold)
  then show ?case by simp
qed simp_all

lemma freeze_dict_get:
  assumes "freeze_json (PDict kvs) = Inr w" and "dict_get kvs k = Some v"
  shows "\<exists>ws x. w = PProxy ws \<and> dict_get ws k = Some x \<and> freeze_json v = Inr x"
proof -
  from assms(1) obtain ws where ws: "w = PProxy ws"
    "rmap (\<lambda>(k, v). rbind (freeze_json v) (\<lambda>w. Inr (k, w))) kvs = Inr ws"
    by (auto simp: rbind_Inr_iff)
  from ws(2) assms(2) have "\<exists>x. dict_get ws k = Some x \<and> freeze_json v = Inr x"
  proof (induction kvs arbitrary: ws)
    case (Cons kv kvs)
    then show ?case by (cases kv) (auto simp: rbind_Inr_iff split: if_splits)
  qed simp
  with ws(1) show ?thesis by blast
qed

lemma freeze_list_nth:
  assumes "freeze_json (PList xs) = Inr w" and "i < length xs"
  shows "\<exists>ws. w = PTuple ws \<and> length ws = length xs \<and> freeze_json (xs ! i) = Inr (ws ! i)"
  using assms by (auto simp: rbind_Inr_iff dest: rmap_Inr_length rmap_Inr_nth)

lemma frozen_canonical:
  assumes "freeze_json (pyval_of_json j) = Inr w"
  shows "canonical_payload_text w = Inr (canonical_json j)"
proof -
  from thaw_freeze [OF plain_pyval_of_json, of j] assms have "thaw_json w = pyval_of_json j" by auto
  then show ?thesis by (simp add: canonical_payload_text_def)
qed

lemma length_nat_str: "i < 10 ^ k \<Longrightarrow> 0 < k \<Longrightarrow> length (nat_str i) \<le> k"
proof (induction k arbitrary: i)
  case (Suc k)
  show ?case
  proof (cases "i < 10")
    case True
    then show ?thesis by (simp add: nat_str.simps [of i])
  next
    case False
    then have "k \<noteq> 0" using Suc.prems(1) by (cases k) auto
    moreover have "i div 10 < 10 ^ k" using Suc.prems(1) by (simp add: less_mult_imp_div_less mult.commute)
    ultimately have "length (nat_str (i div 10)) \<le> k" by (intro Suc.IH) simp_all
    with False show ?thesis by (simp add: nat_str.simps [of i])
  qed
qed simp

lemma py_int10_nat_str:
  assumes "i < 10 ^ 100"
  shows "py_int10 (nat_str i) = Some (int i)"
proof -
  let ?s = "nat_str i" and ?b = "\<lambda>c::nat. (48 \<le> c \<and> c \<le> 57) \<or> c = 95"
  have dig: "c \<in> set ?s \<Longrightarrow> 48 \<le> c \<and> c \<le> 57" for c by (rule nat_str_digits)
  have asc: "map int_ascii ?s = ?s"
    by (rule map_idI) (auto simp: int_ascii_def dest: dig)
  obtain c t where s: "?s = c # t" using nat_str_neq_Nil [of i] by (cases ?s) auto
  then have c: "48 \<le> c" "c \<le> 57" using dig [of c] by auto
  have tw: "takeWhile ?b ?s = ?s" "dropWhile ?b ?s = []"
    using dig by (auto simp: takeWhile_eq_all_conv dropWhile_eq_Nil_conv)
  have fl: "filter (\<lambda>c. c \<noteq> 95) ?s = ?s" by (rule filter_True) (auto dest: dig)
  have dw: "dropWhile c_space ?s = ?s" using c by (simp add: s c_space_def)
  have sgn: "take 1 ?s \<noteq> [45]" "take 1 ?s \<noteq> [43]" using c by (auto simp: s)
  have "list_all (\<lambda>(a, b). \<not> (a = 95 \<and> b = 95)) (zip ?s (tl ?s))"
    by (auto simp: list_all_iff dest!: set_zip_leftD dest: dig)
  moreover have "hd ?s \<noteq> 95" "last ?s \<noteq> 95"
    using dig [of "hd ?s"] dig [of "last ?s"] by auto
  moreover have "length ?s \<le> 4300" using length_nat_str [OF assms] by simp
  moreover have "(if take 1 ?s = [43] \<or> take 1 ?s = [45] then tl ?s else ?s) = ?s"
    using sgn by simp
  ultimately show ?thesis
    unfolding py_int10_def Let_def asc dw by (simp only: tw fl list.simps sgn) simp
qed

lemma split_on_append: "sep \<notin> set a \<Longrightarrow> split_on sep (a @ sep # b) = a # split_on sep b"
  by (induction a) auto

lemma split_on_none: "sep \<notin> set a \<Longrightarrow> split_on sep a = [a]"
  by (induction a) auto

lemma nat_str_no: "47 \<notin> set (nat_str i)" "126 \<notin> set (nat_str i)"
  using nat_str_digits [of 47 i] nat_str_digits [of 126 i] by auto

lemma replace_absent_tilde: "126 \<notin> set s \<Longrightarrow> replace_sub (u (CHR 0x7E # pat)) rep s = s"
  by (rule replace_sub_absent [of 126]) (simp_all add: u_Cons)

lemma resolve_message_field:
  assumes "dict_get root (u ''messages'') = Some (PTuple ms)" and "i < length ms" and "i < 10 ^ 100"
    and "ms ! i = PProxy kvs" and "dict_get kvs (u field) = Some v"
    and "47 \<notin> set (u field)" and "126 \<notin> set (u field)"
  shows "resolve_json_pointer (PProxy root) (message_pointer i field) = Inr v"
proof -
  have "split_on 47 (u ''messages/'' @ nat_str i @ u ''/'' @ u field) = [u ''messages'', nat_str i, u field]"
    using split_on_append [of 47 "u ''messages''" "nat_str i @ 47 # u field"]
      split_on_append [of 47 "nat_str i" "u field"] split_on_none [of 47 "u field"] assms(6)
    by (simp add: nat_str_no u_Cons)
  then have split: "split_on 47 (tl (message_pointer i field)) = [u ''messages'', nat_str i, u field]"
    by (simp add: message_pointer_def u_Cons)
  have "py_index ms (int i) = Some (ms ! i)" using assms(2) by (simp add: py_index_def)
  then show ?thesis
    unfolding resolve_json_pointer_def split
    using assms replace_absent_tilde [of "u ''messages''"] replace_absent_tilde [of "nat_str i"]
      replace_absent_tilde [of "u field"]
    by (simp add: message_pointer_def startswith_def py_int10_nat_str nat_str_no u_Cons)
qed

text \<open>What a part says about one mapped message.\<close>

definition content_part :: "nat \<Rightarrow> message \<Rightarrow> request_part \<Rightarrow> bool" where
  "content_part i m p \<longleftrightarrow> rp_sources p \<noteq> [] \<and> rp_pointer p = Some (message_pointer i ''content'') \<and>
     rp_text_span p = Some (0, int (length (ms_content m))) \<and> rp_content p = ms_content m"

definition calls_part :: "nat \<Rightarrow> (pystr \<times> json) list \<Rightarrow> request_part \<Rightarrow> bool" where
  "calls_part i calls p \<longleftrightarrow> rp_sources p \<noteq> [] \<and> rp_pointer p = Some (message_pointer i ''tool_calls'') \<and>
     rp_text_span p = None \<and> rp_content p = canonical_json (JArr (map snd calls))"

lemma included_sources:
  "request_part_ok p \<Longrightarrow> rp_participation p = PartIncluded \<Longrightarrow> rp_sources p \<noteq> []"
  by (simp add: request_part_ok_def)

definition ordered_parts :: "request_part list \<Rightarrow> bool" where
  "ordered_parts ps \<longleftrightarrow> map rp_order ps = map int [0..<length ps]"

lemma ordered_parts_snoc: "ordered_parts ps \<Longrightarrow> rp_order p = int (length ps) \<Longrightarrow> ordered_parts (ps @ [p])"
  by (simp add: ordered_parts_def)

lemma add_tool_call_parts_added:
  assumes "add_tool_call_parts cid i m calls parts = Inr parts'" and "p \<in> set parts'"
  shows "p \<in> set parts \<or> content_part i m p \<or> calls_part i calls p"
  using assms
  by (auto simp: add_tool_call_parts_def Let_def rbind_Inr_iff content_part_def calls_part_def
      dest: included_sources split: if_splits)

lemma add_tool_call_parts_ordered:
  "add_tool_call_parts cid i m calls parts = Inr parts' \<Longrightarrow> ordered_parts parts \<Longrightarrow> ordered_parts parts'"
  by (auto simp: add_tool_call_parts_def Let_def rbind_Inr_iff ordered_parts_def split: if_splits)

lemma map_messages_added:
  assumes "map_messages isp cid i ms parts = Inr (js, parts')"
  shows "\<exists>callss. length callss = length ms \<and> js = map2 map_message ms callss \<and>
    (ordered_parts parts \<longrightarrow> ordered_parts parts') \<and>
    (\<forall>p\<in>set parts'. p \<in> set parts \<or> (\<exists>k<length ms. ms_tool_calls (ms ! k) \<noteq> [] \<and>
       (content_part (i + k) (ms ! k) p \<or> calls_part (i + k) (callss ! k) p)))"
  using assms
proof (induction ms arbitrary: i parts js)
  case Nil
  then show ?case by simp
next
  case (Cons m ms)
  then obtain calls parts1 js1 where
    parts1: "(if ms_tool_calls m = [] then Inr parts else add_tool_call_parts cid i m calls parts) = Inr parts1"
    and rest: "map_messages isp cid (Suc i) ms parts1 = Inr (js1, parts')"
    and js: "js = map_message m calls # js1"
    by (auto simp: rbind_Inr_iff)
  from Cons.IH [OF rest] obtain callss where callss: "length callss = length ms" "js1 = map2 map_message ms callss"
    "ordered_parts parts1 \<longrightarrow> ordered_parts parts'"
    and added: "\<forall>p\<in>set parts'. p \<in> set parts1 \<or> (\<exists>k<length ms. ms_tool_calls (ms ! k) \<noteq> [] \<and>
       (content_part (Suc i + k) (ms ! k) p \<or> calls_part (Suc i + k) (callss ! k) p))"
    by blast
  have ordered: "ordered_parts parts \<longrightarrow> ordered_parts parts'"
    using parts1 callss(3) add_tool_call_parts_ordered by (auto split: if_splits)
  have "p \<in> set parts \<or> (\<exists>k<length (m # ms). ms_tool_calls ((m # ms) ! k) \<noteq> [] \<and>
       (content_part (i + k) ((m # ms) ! k) p \<or> calls_part (i + k) ((calls # callss) ! k) p))"
    if p: "p \<in> set parts'" for p
  proof -
    from added p consider "p \<in> set parts1" | k where "k < length ms" "ms_tool_calls (ms ! k) \<noteq> []"
      "content_part (Suc i + k) (ms ! k) p \<or> calls_part (Suc i + k) (callss ! k) p" by blast
    then show ?thesis
    proof cases
      case 1
      with parts1 add_tool_call_parts_added [of cid i m calls parts parts1 p]
      show ?thesis by (force split: if_splits)
    next
      case (2 k)
      then show ?thesis by (intro disjI2 exI [of _ "Suc k"]) simp
    qed
  qed
  with callss(1,2) js ordered show ?case by (intro exI [of _ "calls # callss"]) auto
qed

lemma tools_part_added:
  assumes "tools_part isp draft tools parts = Inr parts'"
  shows "ordered_parts parts \<longrightarrow> ordered_parts parts'"
    and "p \<in> set parts' \<Longrightarrow> p \<in> set parts \<or> (tools \<noteq> [] \<and> rp_sources p \<noteq> [] \<and> rp_pointer p = Some (u ''/tools'') \<and>
      rp_text_span p = None \<and> rp_content p = canonical_json (JArr tools))"
  using assms
  by (auto simp: tools_part_def rbind_Inr_iff intro!: ordered_parts_snoc split: if_splits)

lemma freeze_pyval_list:
  "freeze_json (PList (map pyval_of_json js)) = freeze_json (pyval_of_json (JArr js))"
  by simp

lemma check_whole:
  assumes "resolve_json_pointer payload ptr = Inr v" and "\<forall>t. v \<noteq> PStr t"
    and "canonical_payload_text v = Inr (rp_content p)"
    and "rp_pointer p = Some ptr" and "rp_text_span p = None" and "rp_sources p \<noteq> []"
  shows "check_part payload p = Inr ()"
  using assms by (cases v) (simp_all add: check_part_def)

lemma frozen_list_no_str: "freeze_json (PList xs) = Inr w \<Longrightarrow> w \<noteq> PStr t"
  by (auto simp: rbind_Inr_iff)

lemma make_prepared_request_Inr:
  "make_prepared_request p = Inr q \<Longrightarrow>
     \<exists>fr. freeze_json (pq_provider_request p) = Inr fr \<and> q = p\<lparr>pq_provider_request := fr\<rparr>"
  by (auto simp: make_prepared_request_def split: sum.splits)

lemma prepared_parts:
  assumes prep: "provider_prepare isp pf draft n = Inr pr"
    and len: "length (cq_messages (dr_request draft)) < 10 ^ 100"
  shows "(\<forall>p\<in>set (pq_parts pr). p \<in> set (dr_parts draft) \<or> check_part (pq_provider_request pr) p = Inr ()) \<and>
    (ordered_parts (dr_parts draft) \<longrightarrow> ordered_parts (pq_parts pr))"
proof -
  let ?ms = "cq_messages (dr_request draft)"
  from prep obtain messages parts1 tools parts2 frozen where
    m: "map_messages isp (dr_call_id draft) 0 ?ms (dr_parts draft) = Inr (messages, parts1)"
    and tl: "tools_part isp draft tools parts1 = Inr parts2"
    and fr: "freeze_json (request_kwargs pf messages tools) = Inr frozen"
    and pr: "pq_provider_request pr = frozen" "pq_parts pr = parts2"
    by (auto simp: provider_prepare_def rbind_Inr_iff dest!: make_prepared_request_Inr)
  from map_messages_added [OF m] obtain callss where callss: "length callss = length ?ms"
    "messages = map2 map_message ?ms callss" "ordered_parts (dr_parts draft) \<longrightarrow> ordered_parts parts1"
    and added: "\<forall>p\<in>set parts1. p \<in> set (dr_parts draft) \<or> (\<exists>k<length ?ms. ms_tool_calls (?ms ! k) \<noteq> [] \<and>
       (content_part k (?ms ! k) p \<or> calls_part k (callss ! k) p))"
    by auto
  obtain kvs where kvs: "request_kwargs pf messages tools = PDict kvs"
    and km: "dict_get kvs (u ''messages'') = Some (PList (map pyval_of_json messages))"
    and kt: "tools \<noteq> [] \<Longrightarrow> dict_get kvs (u ''tools'') = Some (PList (map pyval_of_json tools))"
    by (simp add: request_kwargs_def)
  from freeze_dict_get [OF fr [unfolded kvs] km] obtain root msv where
    root: "frozen = PProxy root" "dict_get root (u ''messages'') = Some msv"
    "freeze_json (PList (map pyval_of_json messages)) = Inr msv" by blast
  have tools_ok: "check_part frozen p = Inr ()"
    if "tools \<noteq> []" "rp_sources p \<noteq> []" "rp_pointer p = Some (u ''/tools'')" "rp_text_span p = None"
      "rp_content p = canonical_json (JArr tools)" for p
  proof -
    from freeze_dict_get [OF fr [unfolded kvs] kt [OF that(1)]] root(1) obtain tv where
      tv: "dict_get root (u ''tools'') = Some tv" "freeze_json (PList (map pyval_of_json tools)) = Inr tv" by auto
    have "resolve_json_pointer frozen (u ''/tools'') = Inr tv"
      using tv(1) replace_absent_tilde [of "u ''tools''"]
      by (simp add: resolve_json_pointer_def root(1) startswith_def u_Cons)
    moreover have "canonical_payload_text tv = Inr (canonical_json (JArr tools))"
      using tv(2) by (intro frozen_canonical) (simp add: freeze_pyval_list)
    ultimately show ?thesis
      using check_whole [of frozen "u ''/tools''" tv p] frozen_list_no_str [OF tv(2)] that by auto
  qed
  have msg_ok: "check_part frozen p = Inr ()"
    if k: "k < length ?ms" "ms_tool_calls (?ms ! k) \<noteq> []"
      and p: "content_part k (?ms ! k) p \<or> calls_part k (callss ! k) p" for k p
  proof -
    have lm: "length messages = length ?ms" using callss by simp
    have mk: "messages ! k = map_message (?ms ! k) (callss ! k)" using callss k by simp
    from freeze_list_nth [OF root(3), of k] k lm obtain ws where
      ws: "msv = PTuple ws" "length ws = length ?ms" "freeze_json (pyval_of_json (messages ! k)) = Inr (ws ! k)"
      by auto
    obtain d where d: "messages ! k = JObj d" "dict_get d (u ''content'') = Some (JStr (ms_content (?ms ! k)))"
      "dict_get d (u ''tool_calls'') = Some (JArr (map snd (callss ! k)))"
      using k(2) by (simp add: mk map_message_def)
    have get: "dict_get (map (\<lambda>(k, v). (k, pyval_of_json v)) d) f = map_option pyval_of_json (dict_get d f)" for f
      by (simp add: map_of_map)
    have field: "\<exists>fs x. ws ! k = PProxy fs \<and> dict_get fs f = Some x \<and> freeze_json (pyval_of_json v) = Inr x"
      if "dict_get d f = Some v" for f v
      using freeze_dict_get [of "map (\<lambda>(k, v). (k, pyval_of_json v)) d" "ws ! k" f "pyval_of_json v"]
        ws(3) get [of f] that by (simp add: d(1))
    have small: "k < 10 ^ 100" using k(1) len by simp
    from p show ?thesis
    proof
      assume cp: "content_part k (?ms ! k) p"
      from field [OF d(2)] obtain fs where "ws ! k = PProxy fs"
        "dict_get fs (u ''content'') = Some (PStr (ms_content (?ms ! k)))" by auto
      from resolve_message_field [of root ws k fs "''content''"] this root(2) ws k(1) small
      have "resolve_json_pointer frozen (message_pointer k ''content'') = Inr (PStr (ms_content (?ms ! k)))"
        by (simp add: root(1) u_Cons)
      with cp show ?thesis by (simp add: check_part_def content_part_def slice_def)
    next
      assume cp: "calls_part k (callss ! k) p"
      from field [OF d(3)] obtain fs x where x: "ws ! k = PProxy fs" "dict_get fs (u ''tool_calls'') = Some x"
        "freeze_json (pyval_of_json (JArr (map snd (callss ! k)))) = Inr x" by blast
      from resolve_message_field [of root ws k fs "''tool_calls''" x] x root(2) ws k(1) small
      have r: "resolve_json_pointer frozen (message_pointer k ''tool_calls'') = Inr x"
        by (simp add: root(1) u_Cons)
      have "\<forall>t. x \<noteq> PStr t" using x(3) frozen_list_no_str by (simp add: freeze_pyval_list [symmetric] del: freeze_json.simps)
      with check_whole [OF r] frozen_canonical [OF x(3)] cp show ?thesis by (simp add: calls_part_def)
    qed
  qed
  show ?thesis
  proof (intro conjI ballI impI)
    fix p assume "p \<in> set (pq_parts pr)"
    with pr(2) have p2: "p \<in> set parts2" by simp
    from tools_part_added(2) [OF tl p2]
    show "p \<in> set (dr_parts draft) \<or> check_part (pq_provider_request pr) p = Inr ()"
    proof (elim disjE conjE)
      assume "p \<in> set parts1"
      from bspec [OF added this] show ?thesis using msg_ok pr(1) by metis
    next
      assume "tools \<noteq> []" "rp_sources p \<noteq> []" "rp_pointer p = Some (u ''/tools'')" "rp_text_span p = None"
        "rp_content p = canonical_json (JArr tools)"
      from tools_ok [OF this] show ?thesis using pr(1) by simp
    qed
  next
    assume "ordered_parts (dr_parts draft)"
    then show "ordered_parts (pq_parts pr)"
      using callss(3) tools_part_added(1) [OF tl] pr(2) by simp
  qed
qed

subsection \<open>Properties\<close>

text \<open>
  The adapter only adds true attributions. Every part of a prepared request that the draft did not
  hold reads back from the prepared payload: its pointer resolves there and its content is what the
  pointer or span names. Parts numbered 0, 1, 2 and so on stay numbered that way.
\<close>

theorem prepared_parts_resolve:
  assumes "provider_prepare isp pf draft n = Inr pr" and "length (cq_messages (dr_request draft)) < 10 ^ 100"
  shows "(\<forall>p\<in>set (pq_parts pr). p \<in> set (dr_parts draft) \<or> check_part (pq_provider_request pr) p = Inr ()) \<and>
    (\<not> ordered_parts (dr_parts draft) \<or> ordered_parts (pq_parts pr))"
  using prepared_parts [OF assms] by blast

definition sample_profile :: provider_profile where
  "sample_profile =
     \<lparr>pf_model = u ''m'', pf_provider_id = None, pf_max_output = Some 8, pf_thinking = False,
      pf_temperature = None, pf_json_output = False, pf_stream = False, pf_retryable = [429, 500]\<rparr>"

definition sample_tool_message :: message where
  "sample_tool_message =
     \<lparr>ms_role = u ''assistant'', ms_content = u ''hi'', ms_trust = UntrustedData, ms_tool_call_id = None,
      ms_tool_calls = [[(u ''call_id'', JStr (u ''1'')), (u ''name'', JStr (u ''t'')), (u ''arguments'', JObj [])]]\<rparr>"

definition sample_tool_draft :: model_call_draft where
  "sample_tool_draft = sample_draft
     \<lparr>dr_parts := [], dr_call_sequence := 1,
      dr_request := (dr_request sample_draft)\<lparr>cq_messages := [sample_tool_message]\<rparr>\<rparr>"

lemma sample_tool_prepared:
  "\<exists>pr. provider_prepare (\<lambda>_. True) sample_profile sample_tool_draft 1 = Inr pr \<and> length (pq_parts pr) = 2"
  by (simp add: provider_prepare_def sample_tool_draft_def sample_draft_def sample_tool_message_def
      map_tool_call_def py_str_def add_tool_call_parts_def content_parts_at_def validated_def source_ref_ok_def
      request_part_ok_def message_pointer_def tools_part_def make_prepared_request_def sample_profile_def
      request_kwargs_def map_message_def falsy_def)

theorem prepared_parts_resolve_witness:
  "\<exists>pr. provider_prepare (\<lambda>_. True) sample_profile sample_tool_draft 1 = Inr pr \<and> length (pq_parts pr) = 2 \<and>
     (\<forall>p\<in>set (pq_parts pr). check_part (pq_provider_request pr) p = Inr ())"
proof -
  obtain pr where pr: "provider_prepare (\<lambda>_. True) sample_profile sample_tool_draft 1 = Inr pr"
    "length (pq_parts pr) = 2"
    using sample_tool_prepared by blast
  have d: "dr_parts sample_tool_draft = []" "length (cq_messages (dr_request sample_tool_draft)) < 10 ^ 100"
    by (simp_all add: sample_tool_draft_def)
  from prepared_parts_resolve [OF pr(1) d(2)] pr d(1) show ?thesis by auto
qed

text \<open>The identifiers of the tool calls read so far are new and pairwise different.\<close>

definition call_ids :: "jdict list \<Rightarrow> json option list" where
  "call_ids ds = map (\<lambda>d. dict_get d (u ''call_id'')) ds"

lemma read_tool_calls_ids:
  "read_tool_calls seen cs = Inr ds \<Longrightarrow>
     distinct (call_ids ds) \<and> (\<forall>i\<in>set (call_ids ds). \<exists>s. i = Some (JStr s) \<and> s \<noteq> [] \<and> s \<notin> seen)"
proof (induction cs arbitrary: seen ds)
  case Nil
  then show ?case by (simp add: call_ids_def)
next
  case (Cons c cs)
  then obtain i n args rest where c: "i \<noteq> []" "i \<notin> seen" "read_tool_calls (insert i seen) cs = Inr rest"
    and ds: "ds = [(u ''call_id'', JStr i), (u ''name'', JStr n), (u ''arguments'', JObj args)] # rest"
    by (auto simp: rbind_Inr_iff split: option.splits json.splits if_splits)
  from Cons.IH [OF c(3)] c ds show ?case by (auto simp: call_ids_def)
qed

lemma read_tool_calls_error: "read_tool_calls seen cs = Inl e \<Longrightarrow> e = BaiError ''PROVIDER_TOOL_CALL_INVALID''"
  by (induction seen cs arbitrary: e rule: read_tool_calls.induct)
     (auto simp: rbind_Inl_iff split: option.splits json.splits if_splits)

definition transient :: "provider_profile \<Rightarrow> sdk_outcome \<Rightarrow> bool" where
  "transient pf outcome \<longleftrightarrow> outcome = SdkConnection \<or>
     (\<exists>s. outcome = SdkStatus s \<and> s \<in> set (pf_retryable pf) \<and> s \<notin> {400, 401, 402, 403, 422})"

text \<open>
  What one send can end in. The payload is released; a cancellation passes through, and every other
  failure is a \<open>BaiError\<close>, retryable exactly for a connection failure or a configured status that is not
  an authentication, balance or request error. A result is a valid completion whose tool calls have
  distinct, non-empty identifiers and whose usage, when reported, is non-negative and conserved.
\<close>

theorem send_once_contract:
  "case send_once pf outcome payload active of (r, active') \<Rightarrow>
     active' = None \<and>
     (case r of
        Inl e \<Rightarrow> (outcome = SdkCancelled \<and> e = CancelledExn) \<or>
          (\<exists>code. e = Bai PlainBaiError code (transient pf outcome))
      | Inr x \<Rightarrow> completion_result_ok x \<and> distinct (call_ids (cr_tool_calls x)) \<and>
          (\<forall>i\<in>set (call_ids (cr_tool_calls x)). \<exists>s. i = Some (JStr s) \<and> s \<noteq> []) \<and>
          (cr_usage x = [] \<or> (\<exists>a b. 0 \<le> a \<and> 0 \<le> b \<and>
             cr_usage x = [(u ''input_tokens'', a), (u ''output_tokens'', b), (u ''total_tokens'', a + b)])))"
proof (cases outcome)
  case (SdkResponse choices usage)
  obtain vals reason where us: "read_usage usage = (vals, reason)" by (cases "read_usage usage")
  have conserved: "vals = [] \<or> (\<exists>a b. 0 \<le> a \<and> 0 \<le> b \<and>
      vals = [(u ''input_tokens'', a), (u ''output_tokens'', b), (u ''total_tokens'', a + b)])"
    using us by (auto simp: read_usage_def Let_def split: option.splits if_splits)
  have not_transient: "\<not> transient pf outcome" by (simp add: transient_def SdkResponse)
  show ?thesis
  proof (cases "read_response choices usage")
    case (Inl e)
    then have "\<exists>code. (if is_bai e then e else BaiError ''PROVIDER_FAILED'') = Bai PlainBaiError code False"
      by (auto simp: read_response_def rbind_Inl_iff us BaiError_def dest: read_tool_calls_error split: list.splits if_splits)
    with Inl not_transient show ?thesis by (simp add: send_once_def SdkResponse)
  next
    case (Inr x)
    then obtain choice cs calls where x: "choices = choice # cs" "read_tool_calls {} (sc_tool_calls choice) = Inr calls"
      "cr_tool_calls x = calls" "cr_usage x = vals" "completion_result_ok x"
      by (auto simp: read_response_def rbind_Inr_iff us split: list.splits if_splits)
    with Inr conserved read_tool_calls_ids [OF x(2)] show ?thesis
      by (auto simp: send_once_def SdkResponse)
  qed
next
  case (SdkStatus s)
  then show ?thesis
    by (auto simp: send_once_def status_error_def Let_def transient_def BaiError_def)
qed (auto simp: send_once_def transient_def BaiError_def BaiErrorRetryable_def)

definition sample_choice :: sdk_choice where
  "sample_choice =
     \<lparr>sc_finish_reason = Some (u ''tool_calls''),
      sc_tool_calls = [\<lparr>rt_id = Some (u ''c1''), rt_name = Some (u ''read''), rt_arguments = Some (JObj [])\<rparr>],
      sc_content = None\<rparr>"

definition sample_usage :: sdk_usage where
  "sample_usage = \<lparr>su_prompt = Some 3, su_completion = Some 4, su_total = None\<rparr>"

theorem send_once_contract_witness:
  "\<forall>payload. \<exists>x. send_once sample_profile (SdkResponse [sample_choice] (Some sample_usage)) payload None = (Inr x, None) \<and>
     completion_result_ok x \<and> call_ids (cr_tool_calls x) = [Some (JStr (u ''c1''))] \<and> distinct (call_ids (cr_tool_calls x))"
proof
  fix payload
  let ?out = "SdkResponse [sample_choice] (Some sample_usage)"
  obtain x where x: "send_once sample_profile ?out payload None = (Inr x, None)"
    "call_ids (cr_tool_calls x) = [Some (JStr (u ''c1''))]"
    by (simp add: send_once_def read_response_def sample_choice_def sample_usage_def read_usage_def
        validated_def completion_result_ok_def optional_aware_def call_ids_def falsy_def)
  with send_once_contract [of ?out sample_profile payload None]
  show "\<exists>x. send_once sample_profile ?out payload None = (Inr x, None) \<and> completion_result_ok x \<and>
      call_ids (cr_tool_calls x) = [Some (JStr (u ''c1''))] \<and> distinct (call_ids (cr_tool_calls x))"
    by simp
qed

end
