(* ===== verification/Projection.thy ===== *)
theory Projection
  imports Memory_Properties Boundaries
begin

text \<open>
  \<open>memory/temporal.py\<close>: entries of the temporal log projected from one snapshot of the raw records. A
  projector indexes the snapshot by record identifier; a raw record, a memory item or the coverage
  overview becomes a log entry whose time is that of the records it rests on and whose sources name
  them. Lemmas: what a projected entry carries, and that whatever the store's source check accepts
  can be projected.
\<close>

subsection \<open>The projector\<close>

record projector =
  pj_records :: "raw_record list"
  pj_by_id :: "pystr \<Rightarrow> raw_record option"
  pj_revision :: pystr

definition snapshot_json :: "raw_record list \<Rightarrow> json" where
  "snapshot_json records =
     JArr (map (\<lambda>r. JObj [(u ''record_id'', JStr (rr_record_id r)),
                          (u ''content_sha256'', JStr (rr_content_sha256 r)),
                          (u ''global_sequence'', JInt (rr_global_sequence r))]) records)"

definition projector_from_records :: "raw_record list \<Rightarrow> projector result" where
  "projector_from_records records =
     (if card (rr_record_id ` set records) \<noteq> length records then Inl TemporalEntryError
      else Inr \<lparr>pj_records = records, pj_by_id = record_by_id records,
                pj_revision = content_hash (canonical_json (snapshot_json records))\<rparr>)"

definition raw_source :: "projector \<Rightarrow> raw_record \<Rightarrow> source_ref result" where
  "raw_source pj r =
     validated source_ref_ok
       \<lparr>sf_source_kind = SrcDataFile, sf_source_id = u ''raw:'' @ rr_record_id r,
        sf_path = Some (u ''data/memory/raw''), sf_content_sha256 = Some (rr_content_sha256 r),
        sf_revision = Some (pj_revision pj), sf_entity_ids = [rr_record_id r],
        sf_producer = u ''memory_temporal_projector''\<rparr>"

definition memory_source_ref :: "memory_item \<Rightarrow> source_ref result" where
  "memory_source_ref item =
     validated source_ref_ok
       \<lparr>sf_source_kind = SrcDataFile, sf_source_id = u ''memory:'' @ mi_memory_id item,
        sf_path = Some (u ''data/memory/long_term.yaml''),
        sf_content_sha256 = Some (content_hash (mi_text item)), sf_revision = None,
        sf_entity_ids = mi_memory_id item # map sr_record_id (mi_source_refs item),
        sf_producer = u ''memory_temporal_projector''\<rparr>"

definition projected_span :: "int \<Rightarrow> int \<Rightarrow> temporal_kind \<Rightarrow> temporal_span result" where
  "projected_span start end kind =
     (case make_temporal_span (Aware start 0) (Aware end 0) kind of
        Inl _ \<Rightarrow> Inl TemporalEntryError | Inr s \<Rightarrow> Inr s)"

text \<open>The \<open>if record.record_id not in seen\<close> of the two collecting loops.\<close>

definition add_record :: "raw_record \<Rightarrow> raw_record list \<Rightarrow> raw_record list" where
  "add_record r acc = (if rr_record_id r \<in> rr_record_id ` set acc then acc else acc @ [r])"

fun resolve_loop :: "projector \<Rightarrow> source_reference list \<Rightarrow> raw_record list \<Rightarrow> raw_record list result" where
  "resolve_loop pj [] acc = Inr acc"
| "resolve_loop pj (ref # refs) acc =
     (case pj_by_id pj (sr_record_id ref) of
        None \<Rightarrow> Inl (BaiError ''SOURCE_RECORD_MISSING'')
      | Some r \<Rightarrow>
          if rr_content_sha256 r \<noteq> sr_record_sha256 ref then Inl (BaiError ''SOURCE_HASH_MISMATCH'')
          else resolve_loop pj refs (add_record r acc))"

definition resolve_memory_records :: "projector \<Rightarrow> memory_item \<Rightarrow> raw_record list result" where
  "resolve_memory_records pj item =
     rbind (resolve_loop pj (mi_source_refs item) []) (\<lambda>resolved.
       if resolved = [] then Inl (BaiError ''SOURCE_RECORD_MISSING'') else Inr resolved)"

subsection \<open>The three projections\<close>

definition project_raw :: "projector \<Rightarrow> raw_record \<Rightarrow> pystr option \<Rightarrow> temporal_entry result" where
  "project_raw pj r body =
     (case pj_by_id pj (rr_record_id r) of
        None \<Rightarrow> Inl (BaiError ''SOURCE_RECORD_MISSING'')
      | Some snapshot \<Rightarrow>
          if rr_content_sha256 snapshot \<noteq> rr_content_sha256 r then Inl (BaiError ''SOURCE_HASH_MISMATCH'')
          else rbind (projected_span (rr_created_at r) (rr_created_at r) TimeEvent) (\<lambda>span.
               rbind (raw_source pj r) (\<lambda>source.
               validated temporal_entry_ok
                 \<lparr>te_entry_id = rr_record_id r,
                  te_body = (case body of None \<Rightarrow> rr_content r | Some b \<Rightarrow> b),
                  te_span = span, te_sources = [source], te_trust = UntrustedData,
                  te_metadata = [(u ''record_id'', JStr (rr_record_id r)),
                                 (u ''role'', JStr (role_value (rr_role r)))]\<rparr>)))"

definition project_memory ::
  "projector \<Rightarrow> memory_item \<Rightarrow> pystr option \<Rightarrow> source_ref option \<Rightarrow> temporal_entry result"
where
  "project_memory pj item body memory_source =
     rbind (resolve_memory_records pj item) (\<lambda>records.
       let instants = map rr_created_at records
       in rbind (case memory_source of Some s \<Rightarrow> Inr s | None \<Rightarrow> memory_source_ref item) (\<lambda>own.
          rbind (rmap (raw_source pj) records) (\<lambda>raws.
          rbind (projected_span (Min (set instants)) (Max (set instants)) TimeSourceRange) (\<lambda>span.
          validated temporal_entry_ok
            \<lparr>te_entry_id = mi_memory_id item,
             te_body = (case body of None \<Rightarrow> mi_text item | Some b \<Rightarrow> b),
             te_span = span, te_sources = own # raws, te_trust = UntrustedData,
             te_metadata = [(u ''memory_id'', JStr (mi_memory_id item))]\<rparr>))))"

text \<open>\<open>zip(range, ids, hashes, strict=True)\<close>: the common prefix, then \<open>ValueError\<close> when the lengths differ.\<close>

definition zip3_strict ::
  "(int \<times> pystr \<times> pystr \<Rightarrow> 's \<Rightarrow> 's result) \<Rightarrow> coverage_span \<Rightarrow> 's \<Rightarrow> 's result"
where
  "zip3_strict f s st =
     (let seqs = [cs_start_sequence s..cs_end_sequence s]; ids = cs_record_ids s; hs = cs_record_hashes s
      in rbind (foldl (\<lambda>r x. rbind r (f x)) (Inr st) (zip seqs (zip ids hs))) (\<lambda>st'.
         if length seqs = length ids \<and> length ids = length hs then Inr st' else Inl ValueExn))"

definition overview_step ::
  "projector \<Rightarrow> int \<times> pystr \<times> pystr \<Rightarrow> raw_record list \<Rightarrow> raw_record list result"
where
  "overview_step pj = (\<lambda>(sequence, record_id, digest) acc.
     case pj_by_id pj record_id of
       None \<Rightarrow> Inl (BaiError ''SOURCE_RECORD_MISSING'')
     | Some r \<Rightarrow>
         if rr_content_sha256 r \<noteq> digest then Inl (BaiError ''SOURCE_HASH_MISMATCH'')
         else if rr_global_sequence r \<noteq> sequence then Inl (BaiError ''MEMORY_COVERAGE_INVALID'')
         else Inr (add_record r acc))"

fun overview_records ::
  "projector \<Rightarrow> coverage_span list \<Rightarrow> raw_record list \<Rightarrow> raw_record list result"
where
  "overview_records pj [] acc = Inr acc"
| "overview_records pj (s # ss) acc =
     rbind (zip3_strict (overview_step pj) s acc) (overview_records pj ss)"

definition project_overview ::
  "projector \<Rightarrow> coverage_overview \<Rightarrow> pystr option \<Rightarrow> source_ref option \<Rightarrow> temporal_entry option result"
where
  "project_overview pj overview body overview_source =
     (if co_spans overview = [] then Inr None
      else rbind (overview_records pj (co_spans overview) []) (\<lambda>records.
        if records = [] then Inl (BaiError ''MEMORY_COVERAGE_INVALID'')
        else let rev_text = int_str (co_revision overview); instants = map rr_created_at records
        in rbind (case overview_source of Some s \<Rightarrow> Inr s
             | None \<Rightarrow> validated source_ref_ok
                 \<lparr>sf_source_kind = SrcDataFile, sf_source_id = u ''memory:overview:'' @ rev_text,
                  sf_path = Some (u ''data/memory/long_term.yaml''),
                  sf_content_sha256 = Some (content_hash (co_text overview)),
                  sf_revision = Some rev_text, sf_entity_ids = map rr_record_id records,
                  sf_producer = u ''memory_temporal_projector''\<rparr>) (\<lambda>source.
           rbind (projected_span (Min (set instants)) (Max (set instants)) TimeSourceRange) (\<lambda>span.
           rbind (rmap (raw_source pj) records) (\<lambda>raws.
           rbind (validated temporal_entry_ok
             \<lparr>te_entry_id = u ''overview:'' @ rev_text,
              te_body = (case body of None \<Rightarrow> co_text overview | Some b \<Rightarrow> b),
              te_span = span, te_sources = source # raws, te_trust = UntrustedData,
              te_metadata = [(u ''overview_revision'', JInt (co_revision overview))]\<rparr>)
             (\<lambda>e. Inr (Some e)))))))"

subsection \<open>What projection gives\<close>

lemma projector_from_records_iff:
  "projector_from_records rs = Inr pj \<longleftrightarrow>
     distinct (map rr_record_id rs) \<and>
     pj = \<lparr>pj_records = rs, pj_by_id = record_by_id rs,
           pj_revision = content_hash (canonical_json (snapshot_json rs))\<rparr>"
proof -
  have "card (rr_record_id ` set rs) = length rs \<longleftrightarrow> distinct (map rr_record_id rs)"
    by (metis card_distinct distinct_card length_map list.set_map)
  then show ?thesis by (auto simp: projector_from_records_def)
qed

lemma record_by_id_Some:
  "record_by_id rs i = Some r \<Longrightarrow> r \<in> set rs \<and> rr_record_id r = i"
  by (auto simp: record_by_id_def dest!: map_of_SomeD)

lemma record_by_id_mem:
  "distinct (map rr_record_id rs) \<Longrightarrow> r \<in> set rs \<Longrightarrow> record_by_id rs (rr_record_id r) = Some r"
  unfolding record_by_id_def
  by (intro map_of_is_SomeI) (auto simp: rev_map [symmetric] comp_def)

lemma raw_source_ok: "rr_content_sha256 r \<noteq> [] \<Longrightarrow> \<exists>s. raw_source pj r = Inr s \<and> source_ref_ok s"
proof -
  have "project_relative (u ''data/memory/raw'')" by code_simp
  then show "rr_content_sha256 r \<noteq> [] \<Longrightarrow> ?thesis"
    by (auto simp: raw_source_def source_ref_ok_def validated_def)
qed

lemma yaml_path_relative: "project_relative (u ''data/memory/long_term.yaml'')"
  by code_simp

lemma content_hash_neq_Nil [simp]: "content_hash c \<noteq> []"
  by (simp add: content_hash_prefix)

lemma memory_source_ref_ok: "\<exists>s. memory_source_ref item = Inr s \<and> source_ref_ok s"
  using yaml_path_relative by (auto simp: memory_source_ref_def source_ref_ok_def validated_def)

lemma projected_span_range:
  "a \<le> b \<Longrightarrow> projected_span a b TimeSourceRange = Inr \<lparr>ts_start = a, ts_end = b, ts_kind = TimeSourceRange\<rparr>"
  by (simp add: projected_span_def make_temporal_span_def)

lemma projected_span_event:
  "projected_span a a TimeEvent = Inr \<lparr>ts_start = a, ts_end = a, ts_kind = TimeEvent\<rparr>"
  by (simp add: projected_span_def make_temporal_span_def)

subsection \<open>Collecting records\<close>

lemma set_fold_add_record:
  assumes "inj_on rr_record_id R" and "set acc \<subseteq> R" and "set xs \<subseteq> R"
  shows "set (fold add_record xs acc) = set acc \<union> set xs"
  using assms(2,3)
proof (induction xs arbitrary: acc)
  case Nil
  then show ?case by simp
next
  case (Cons x xs)
  have "x \<in> set acc" if "rr_record_id x \<in> rr_record_id ` set acc"
  proof -
    from that obtain y where y: "y \<in> set acc" "rr_record_id x = rr_record_id y" by blast
    with inj_onD [OF assms(1) y(2)] Cons.prems show ?thesis by auto
  qed
  then have "set (add_record x acc) = insert x (set acc)"
    by (simp add: add_record_def insert_absorb)
  with Cons show ?case by simp
qed

lemma distinct_fold_add_record:
  "distinct (map rr_record_id acc) \<Longrightarrow> distinct (map rr_record_id (fold add_record xs acc))"
  by (induction xs arbitrary: acc) (auto simp: add_record_def)

lemma fold_add_record_eq_Nil: "fold add_record xs acc = [] \<longleftrightarrow> xs = [] \<and> acc = []"
proof (induction xs arbitrary: acc)
  case Nil
  then show ?case by simp
next
  case (Cons x xs)
  have "add_record x acc \<noteq> []" by (cases acc) (simp_all add: add_record_def)
  with Cons show ?case by simp
qed

lemma resolve_loop_value:
  assumes "pj_by_id pj = record_by_id rs"
  shows "validate_source_refs rs refs = Inr () \<Longrightarrow>
    resolve_loop pj refs acc = Inr (fold add_record (map (\<lambda>s. the (record_by_id rs (sr_record_id s))) refs) acc)"
proof (induction refs arbitrary: acc)
  case Nil
  then show ?case by simp
next
  case (Cons s refs)
  then show ?case using assms by (auto split: option.splits if_splits)
qed

lemma validate_source_refs_iff:
  "validate_source_refs rs refs = Inr () \<longleftrightarrow>
     (\<forall>s\<in>set refs. \<exists>r. record_by_id rs (sr_record_id s) = Some r \<and> rr_content_sha256 r = sr_record_sha256 s)"
  by (induction refs) (auto split: option.splits)

text \<open>The records an item rests on.\<close>

definition cited_records :: "raw_record list \<Rightarrow> memory_item \<Rightarrow> raw_record set" where
  "cited_records rs item = {r \<in> set rs. rr_record_id r \<in> sr_record_id ` set (mi_source_refs item)}"

text \<open>A projected entry that spans a set of records and names each of them once.\<close>

definition spans_records :: "projector \<Rightarrow> raw_record set \<Rightarrow> temporal_entry \<Rightarrow> bool" where
  "spans_records pj R e \<longleftrightarrow>
     te_span e = \<lparr>ts_start = Min (rr_created_at ` R), ts_end = Max (rr_created_at ` R),
                  ts_kind = TimeSourceRange\<rparr> \<and>
     (\<exists>own records. set records = R \<and> distinct records \<and>
        te_sources e = own # map (\<lambda>r. projr (raw_source pj r)) records)"

lemma raw_sources_value:
  assumes "\<forall>r\<in>set records. rr_content_sha256 r \<noteq> []"
  shows "rmap (raw_source pj) records = Inr (map (\<lambda>r. projr (raw_source pj r)) records)"
    "list_all source_ref_ok (map (\<lambda>r. projr (raw_source pj r)) records)"
proof -
  have ok: "raw_source pj r = Inr (projr (raw_source pj r)) \<and> source_ref_ok (projr (raw_source pj r))"
    if "r \<in> set records" for r
    using raw_source_ok [of r pj] assms that by auto
  show "rmap (raw_source pj) records = Inr (map (\<lambda>r. projr (raw_source pj r)) records)"
    by (rule rmap_total) (use ok in simp)
  show "list_all source_ref_ok (map (\<lambda>r. projr (raw_source pj r)) records)"
    using ok by (simp add: list_all_iff)
qed

lemma log_ok_facts:
  assumes "log_ok rs"
  shows "distinct (map rr_record_id rs)" "\<forall>r\<in>set rs. rr_content_sha256 r \<noteq> []"
    "inj_on rr_record_id (set rs)" "\<forall>r\<in>set rs. rr_record_id r \<noteq> []"
  using assms by (auto simp: log_ok_def list_all_iff raw_record_ok_def distinct_map
      validate_prefixed_uuid_def startswith_def)

lemma project_memory_spans:
  assumes log: "log_ok rs" and pj: "projector_from_records rs = Inr pj"
    and refs: "validate_source_refs rs (mi_source_refs item) = Inr ()"
    and item: "memory_item_ok item"
  shows "\<exists>e. project_memory pj item None None = Inr e \<and> te_entry_id e = mi_memory_id item \<and>
    te_body e = mi_text item \<and> spans_records pj (cited_records rs item) e"
proof -
  let ?xs = "map (\<lambda>s. the (record_by_id rs (sr_record_id s))) (mi_source_refs item)"
  let ?records = "fold add_record ?xs []"
  note L = log_ok_facts [OF log]
  have pj': "pj_by_id pj = record_by_id rs" using pj by (auto simp: projector_from_records_iff)
  have ne: "mi_source_refs item \<noteq> []" "mi_memory_id item \<noteq> []"
    using item by (auto simp: memory_item_ok_def validate_prefixed_uuid_def startswith_def)
  have xs: "set ?xs = cited_records rs item"
  proof
    show "set ?xs \<subseteq> cited_records rs item"
      using refs record_by_id_Some by (fastforce simp: validate_source_refs_iff cited_records_def)
    show "cited_records rs item \<subseteq> set ?xs"
    proof
      fix r
      assume "r \<in> cited_records rs item"
      then obtain s where "r \<in> set rs" "s \<in> set (mi_source_refs item)" "sr_record_id s = rr_record_id r"
        by (auto simp: cited_records_def)
      with record_by_id_mem [OF L(1)] show "r \<in> set ?xs" by force
    qed
  qed
  have R: "set ?records = cited_records rs item"
    using set_fold_add_record [OF L(3), of "[]" ?xs] xs by (auto simp: cited_records_def)
  have sub: "cited_records rs item \<subseteq> set rs" by (auto simp: cited_records_def)
  have d: "distinct (map rr_record_id ?records)" by (rule distinct_fold_add_record) simp
  have res: "resolve_memory_records pj item = Inr ?records"
    using ne resolve_loop_value [OF pj' refs, of "[]"]
    by (simp add: resolve_memory_records_def fold_add_record_eq_Nil del: fold_map)
  have ne': "?records \<noteq> []" using ne by (simp add: fold_add_record_eq_Nil del: fold_map)
  then have "Min (set (map rr_created_at ?records)) \<le> Max (set (map rr_created_at ?records))"
    by (intro Min_le_iff [THEN iffD2]) auto
  note span = projected_span_range [OF this]
  have hs: "\<forall>r\<in>set ?records. rr_content_sha256 r \<noteq> []" using L(2) R sub by blast
  obtain own where own: "memory_source_ref item = Inr own" "source_ref_ok own"
    using memory_source_ref_ok by blast
  show ?thesis
    using res span raw_sources_value [OF hs, of pj] own ne(2) \<open>Min _ \<le> _\<close> d
    by (auto simp: project_memory_def Let_def validated_def temporal_entry_ok_def temporal_span_ok_def
        spans_records_def R [symmetric] image_comp distinct_map simp del: fold_map intro!: exI [of _ own] exI [of _ ?records])
qed

subsection \<open>The overview\<close>

lemma overview_steps:
  assumes "pj_by_id pj = record_by_id rs"
  shows "None \<notin> set (map (record_by_id rs) ids) \<Longrightarrow>
    foldl (\<lambda>r x. rbind r (overview_step pj x)) (Inr acc)
      (zip (map (rr_global_sequence \<circ> the) (map (record_by_id rs) ids))
        (zip ids (map (rr_content_sha256 \<circ> the) (map (record_by_id rs) ids)))) =
      Inr (fold add_record (map (the \<circ> record_by_id rs) ids) acc)"
proof (induction ids arbitrary: acc)
  case Nil
  then show ?case by simp
next
  case (Cons i ids)
  then obtain r where r: "record_by_id rs i = Some r" by (cases "record_by_id rs i") auto
  then have "overview_step pj (rr_global_sequence r, i, rr_content_sha256 r) acc = Inr (add_record r acc)"
    by (simp add: overview_step_def assms)
  with r Cons show ?case by simp
qed

definition span_records :: "raw_record list \<Rightarrow> coverage_span \<Rightarrow> raw_record list" where
  "span_records rs s = map (the \<circ> record_by_id rs) (cs_record_ids s)"

lemma overview_records_value:
  assumes "pj_by_id pj = record_by_id rs"
  shows "validate_spans rs ss = Inr () \<Longrightarrow>
    overview_records pj ss acc = Inr (fold add_record (concat (map (span_records rs) ss)) acc)"
proof (induction ss arbitrary: acc)
  case Nil
  then show ?case by simp
next
  case (Cons s ss)
  let ?a = "map (record_by_id rs) (cs_record_ids s)"
  from Cons.prems have none: "None \<notin> set ?a"
    and seqs: "[cs_start_sequence s..cs_end_sequence s] = map (rr_global_sequence \<circ> the) ?a"
    and hs: "cs_record_hashes s = map (rr_content_sha256 \<circ> the) ?a"
    and rest: "validate_spans rs ss = Inr ()"
    by (auto simp: Let_def split: if_splits)
  have "zip3_strict (overview_step pj) s acc = Inr (fold add_record (span_records rs s) acc)"
    using overview_steps [OF assms none, of acc]
    unfolding zip3_strict_def Let_def seqs hs span_records_def by (simp add: comp_def)
  with Cons.IH [OF rest] show ?case by simp
qed

text \<open>The records covered by the spans of an accepted overview.\<close>

definition covered_records :: "raw_record list \<Rightarrow> coverage_overview \<Rightarrow> raw_record set" where
  "covered_records rs c = {r \<in> set rs. \<exists>s\<in>set (co_spans c). rr_record_id r \<in> set (cs_record_ids s)}"

lemma span_records_sound:
  assumes "validate_spans rs ss = Inr ()" and "s \<in> set ss" and "r \<in> set (span_records rs s)"
  shows "r \<in> set rs" "rr_record_id r \<in> set (cs_record_ids s)"
proof -
  have "None \<notin> set (map (record_by_id rs) (cs_record_ids s))"
    using assms(1,2) by (induction ss) (auto simp: Let_def split: if_splits)
  moreover obtain i where "i \<in> set (cs_record_ids s)" "r = the (record_by_id rs i)"
    using assms(3) by (auto simp: span_records_def)
  ultimately have "record_by_id rs i = Some r" "i \<in> set (cs_record_ids s)"
    by (cases "record_by_id rs i"; auto simp: image_iff)+
  with record_by_id_Some [of rs i r] show "r \<in> set rs" "rr_record_id r \<in> set (cs_record_ids s)" by auto
qed

lemma covered_records_spans:
  assumes "validate_spans rs (co_spans c) = Inr ()" and "distinct (map rr_record_id rs)"
  shows "set (concat (map (span_records rs) (co_spans c))) = covered_records rs c"
proof
  show "set (concat (map (span_records rs) (co_spans c))) \<subseteq> covered_records rs c"
    using span_records_sound [OF assms(1)] by (simp add: covered_records_def) blast
  show "covered_records rs c \<subseteq> set (concat (map (span_records rs) (co_spans c)))"
    using record_by_id_mem [OF assms(2)] by (force simp: covered_records_def span_records_def)
qed

lemma project_overview_spans:
  assumes log: "log_ok rs" and pj: "projector_from_records rs = Inr pj"
    and spans: "validate_spans rs (co_spans c) = Inr ()" and c: "coverage_overview_ok c" "co_spans c \<noteq> []"
  shows "\<exists>e. project_overview pj c None None = Inr (Some e) \<and> te_body e = co_text c \<and>
    spans_records pj (covered_records rs c) e"
proof -
  let ?xs = "concat (map (span_records rs) (co_spans c))"
  let ?records = "fold add_record ?xs []"
  note L = log_ok_facts [OF log]
  have pj': "pj_by_id pj = record_by_id rs" using pj by (auto simp: projector_from_records_iff)
  note xs = covered_records_spans [OF spans L(1)]
  have sub: "covered_records rs c \<subseteq> set rs" by (auto simp: covered_records_def)
  have R: "set ?records = covered_records rs c"
    using set_fold_add_record [OF L(3), of "[]" ?xs] xs sub by simp
  have d: "distinct (map rr_record_id ?records)" by (rule distinct_fold_add_record) simp
  have "?xs \<noteq> []"
  proof -
    from c obtain s where s: "s \<in> set (co_spans c)" "coverage_span_ok s"
      by (cases "co_spans c") (auto simp: coverage_overview_ok_def)
    then have "cs_record_ids s \<noteq> []" by (auto simp: coverage_span_ok_def Let_def)
    with s(1) show ?thesis by (auto simp: span_records_def)
  qed
  then have ne: "?records \<noteq> []" by (simp add: fold_add_record_eq_Nil del: fold_map)
  then have "Min (set (map rr_created_at ?records)) \<le> Max (set (map rr_created_at ?records))"
    by (intro Min_le_iff [THEN iffD2]) auto
  note span = this projected_span_range [OF this]
  have hs: "\<forall>r\<in>set ?records. rr_content_sha256 r \<noteq> []" using L(2) R sub by blast
  let ?own = "\<lparr>sf_source_kind = SrcDataFile, sf_source_id = u ''memory:overview:'' @ int_str (co_revision c),
      sf_path = Some (u ''data/memory/long_term.yaml''), sf_content_sha256 = Some (content_hash (co_text c)),
      sf_revision = Some (int_str (co_revision c)), sf_entity_ids = map rr_record_id ?records,
      sf_producer = u ''memory_temporal_projector''\<rparr>"
  have own: "source_ref_ok ?own"
    using yaml_path_relative by (simp add: source_ref_ok_def)
  show ?thesis
    using overview_records_value [OF pj' spans, of "[]"] c(2) ne span raw_sources_value [OF hs, of pj] own d
    by (auto simp: project_overview_def Let_def validated_def temporal_entry_ok_def temporal_span_ok_def
        spans_records_def R [symmetric] image_comp distinct_map simp del: fold_map
        intro!: exI [of _ ?own] exI [of _ ?records])
qed

text \<open>
  Every memory item and the coverage overview of a document whose sources the store has accepted can
  be projected against the same snapshot of the records: the entry of an item spans exactly the times of
  the records the item cites, the entry of the overview those of the records the spans cover, and the
  sources name each of these records once, after the source of the document itself. Without coverage
  there is no overview entry.
\<close>

theorem accepted_document_projects:
  assumes "log_ok rs" and "projector_from_records rs = Inr pj" and "memory_document_ok d"
    and "validate_sources env d (Some rs) w = Inr ()"
  shows "(\<forall>item\<in>set (md_memories d). \<exists>e. project_memory pj item None None = Inr e \<and>
      te_entry_id e = mi_memory_id item \<and> te_body e = mi_text item \<and>
      spans_records pj (cited_records rs item) e) \<and>
    (co_spans (md_coverage_overview d) = [] \<longrightarrow>
       project_overview pj (md_coverage_overview d) None None = Inr None) \<and>
    (co_spans (md_coverage_overview d) \<noteq> [] \<longrightarrow>
       (\<exists>e. project_overview pj (md_coverage_overview d) None None = Inr (Some e) \<and>
          te_body e = co_text (md_coverage_overview d) \<and>
          spans_records pj (covered_records rs (md_coverage_overview d)) e))"
proof -
  have refs: "validate_source_refs rs (concat (map mi_source_refs (md_memories d))) = Inr ()"
    and spans: "validate_spans rs (co_spans (md_coverage_overview d)) = Inr ()"
    using assms(4) by (auto simp: validate_sources_def rbind_Inr_iff split: if_splits)
  have "validate_source_refs rs (mi_source_refs m) = Inr ()" if "m \<in> set (md_memories d)" for m
    using refs that by (auto simp: validate_source_refs_iff)
  moreover have "memory_item_ok m" if "m \<in> set (md_memories d)" for m
    using assms(3) that by (auto simp: memory_document_ok_def list_all_iff)
  moreover have "coverage_overview_ok (md_coverage_overview d)"
    using assms(3) by (simp add: memory_document_ok_def)
  ultimately show ?thesis
    using project_memory_spans [OF assms(1,2)] project_overview_spans [OF assms(1,2) spans]
    by (simp add: project_overview_def)
qed

lemma sample_log: "log_ok [sample_user, sample_assistant]"
  by (auto simp: log_ok_def nth_Cons split: nat.splits)
    (simp_all add: sample_user_def sample_assistant_def sample_record_def)

theorem accepted_document_projects_witness:
  "\<exists>pj e. projector_from_records [sample_user, sample_assistant] = Inr pj \<and>
    project_memory pj sample_item None None = Inr e \<and>
    spans_records pj (cited_records [sample_user, sample_assistant] sample_item) e"
proof -
  have "distinct (map rr_record_id [sample_user, sample_assistant])"
    by (simp add: sample_ids)
  then obtain pj where pj: "projector_from_records [sample_user, sample_assistant] = Inr pj"
    by (simp add: projector_from_records_iff)
  have "validate_sources sample_doc_env sample_target (Some [sample_user, sample_assistant]) sample_doc_world = Inr ()"
    by (simp add: validate_sources_def)
      (simp add: sample_target_def sample_item_def sample_span_def record_by_id_def sample_ids upto.simps)
  from accepted_document_projects [OF sample_log pj sample_target_ok this] pj
  show ?thesis by (auto simp: sample_target_def)
qed

end
