(* ===== verification/Uuid.thy ===== *)
theory Uuid
  imports Records
begin

text \<open>
  \<open>uuid.uuid5(NAMESPACE_URL, name)\<close> of the standard library: SHA-1 (FIPS 180-4) of the namespace and
  the name, its first sixteen bytes with the version and variant bits set, printed in groups. So the
  identifiers the curation derives from their contents are concrete functions of them. The fact used:
  such an identifier passes the identifier validators, whatever the name.
\<close>

unbundle bit_operations_syntax

definition rotl :: "nat \<Rightarrow> u32 \<Rightarrow> u32" where
  "rotl n x = push_bit n x OR drop_bit (32 - n) x"

type_synonym sha1_state = "u32 \<times> u32 \<times> u32 \<times> u32 \<times> u32"

definition sha1_init :: sha1_state where
  "sha1_init = (1732584193, 4023233417, 2562383102, 271733878, 3285377520)"

text \<open>The round function and constant of the four quarters of the eighty rounds.\<close>

definition sha1_mix :: "nat \<Rightarrow> u32 \<Rightarrow> u32 \<Rightarrow> u32 \<Rightarrow> u32 \<times> u32" where
  "sha1_mix t b c d =
     (if t < 20 then ((b AND c) OR (NOT b AND d), 1518500249)
      else if t < 40 then (b XOR c XOR d, 1859775393)
      else if t < 60 then ((b AND c) OR (b AND d) OR (c AND d), 2400959708)
      else (b XOR c XOR d, 3395469782))"

fun sha1_round :: "sha1_state \<Rightarrow> nat \<times> u32 \<Rightarrow> sha1_state" where
  "sha1_round (a, b, c, d, e) (t, w) =
     (let (f, k) = sha1_mix t b c d in (rotl 5 a + f + e + k + w, a, rotl 30 b, c, d))"

fun sha1_add :: "sha1_state \<Rightarrow> sha1_state \<Rightarrow> sha1_state" where
  "sha1_add (a, b, c, d, e) (a', b', c', d', e') = (a + a', b + b', c + c', d + d', e + e')"

text \<open>The message schedule, newest word first.\<close>

fun sha1_schedule :: "nat \<Rightarrow> u32 list \<Rightarrow> u32 list" where
  "sha1_schedule 0 ws = ws"
| "sha1_schedule (Suc n) ws =
     sha1_schedule n (rotl 1 (ws ! 2 XOR ws ! 7 XOR ws ! 13 XOR ws ! 15) # ws)"

definition sha1_block :: "sha1_state \<Rightarrow> bytes \<Rightarrow> sha1_state" where
  "sha1_block st blk =
     sha1_add st (foldl sha1_round st (zip [0..<80] (rev (sha1_schedule 64 (rev (sha_words blk))))))"

function sha1_blocks :: "sha1_state \<Rightarrow> bytes \<Rightarrow> sha1_state" where
  "sha1_blocks st bs = (if bs = [] then st else sha1_blocks (sha1_block st (take 64 bs)) (drop 64 bs))"
  by pat_completeness auto
termination
  by (relation "measure (\<lambda>(st, bs). length bs)") auto

declare sha1_blocks.simps [simp del]

definition sha1 :: "bytes \<Rightarrow> bytes" where
  "sha1 bs =
     (case sha1_blocks sha1_init (sha_pad bs) of (a, b, c, d, e) \<Rightarrow>
        concat (map word_bytes [a, b, c, d, e]))"

definition namespace_url :: bytes where
  "namespace_url = [107, 167, 184, 17, 157, 173, 17, 209, 128, 180, 0, 192, 79, 212, 48, 200]"

definition uuid_bytes :: "bytes \<Rightarrow> bytes" where
  "uuid_bytes h = (take 16 h)[6 := h ! 6 mod 16 + 80, 8 := h ! 8 mod 64 + 128]"

definition hex_text :: "bytes \<Rightarrow> pystr" where
  "hex_text bs = concat (map (\<lambda>b. [hex_digit (b div 16), hex_digit (b mod 16)]) bs)"

definition uuid_text :: "bytes \<Rightarrow> pystr" where
  "uuid_text b =
     join [45] [hex_text (take 4 b), hex_text (take 2 (drop 4 b)), hex_text (take 2 (drop 6 b)),
                hex_text (take 2 (drop 8 b)), hex_text (drop 10 b)]"

definition uuid5_url :: "pystr \<Rightarrow> pystr" where
  "uuid5_url name = uuid_text (uuid_bytes (sha1 (namespace_url @ utf8 name)))"

subsection \<open>The shape of a derived identifier\<close>

lemma length_sha1 [simp]: "length (sha1 bs) = 20"
  by (simp add: sha1_def word_bytes_def split: prod.splits)

lemma sha1_less: "b \<in> set (sha1 bs) \<Longrightarrow> b < 256"
  by (auto simp: sha1_def word_bytes_def dest: be_bytes_less split: prod.splits)

lemma length_hex_text [simp]: "length (hex_text bs) = 2 * length bs"
  by (simp add: hex_text_def length_concat_pairs)

lemma hex_text_hex: "\<forall>b\<in>set bs. b < 256 \<Longrightarrow> list_all is_hex (hex_text bs)"
  by (auto simp: hex_text_def list_all_iff intro!: hex_digit_is_hex less_mult_imp_div_less)

lemma filter_hex_text:
  assumes "\<forall>b\<in>set bs. b < 256"
  shows "filter (\<lambda>c. c \<noteq> 45) (hex_text bs) = hex_text bs"
proof -
  have "c \<noteq> 45" if "c \<in> set (hex_text bs)" for c
    using hex_text_hex [OF assms] that by (auto simp: list_all_iff is_hex_def)
  then show ?thesis by (simp add: filter_id_conv)
qed

lemma uuid_bytes_less:
  assumes "length h = 20" and "\<forall>b\<in>set h. b < 256"
  shows "\<forall>b\<in>set (uuid_bytes h). b < 256"
proof -
  have "n mod 16 + 80 < 256" "n mod 64 + 128 < (256 :: nat)" for n
    using mod_less_divisor [of 16 n] mod_less_divisor [of 64 n] by linarith+
  moreover have "set (uuid_bytes h) \<subseteq> insert (h ! 8 mod 64 + 128) (insert (h ! 6 mod 16 + 80) (set h))"
    unfolding uuid_bytes_def
    by (meson insert_mono order_trans set_take_subset set_update_subset_insert)
  ultimately show ?thesis using assms(2) by auto
qed

lemma validate_uuid5 [simp]: "validate_prefixed_uuid (p @ 45 # uuid5_url name) p"
proof (rule validate_prefixed_uuid_hex)
  let ?b = "uuid_bytes (sha1 (namespace_url @ utf8 name))"
  have len: "length ?b = 16" by (simp add: uuid_bytes_def)
  have less: "\<forall>b\<in>set ?b. b < 256" by (rule uuid_bytes_less) (auto dest: sha1_less)
  have sub: "\<forall>b\<in>set (take n (drop m ?b)). b < 256" "\<forall>b\<in>set (take n ?b). b < 256"
    "\<forall>b\<in>set (drop m ?b). b < 256" for m n
    using less by (auto dest: in_set_takeD in_set_dropD)
  note hex = hex_text_hex [OF sub(1)] hex_text_hex [OF sub(2)] hex_text_hex [OF sub(3)]
  note flt = filter_hex_text [OF sub(1)] filter_hex_text [OF sub(2)] filter_hex_text [OF sub(3)]
  have mono: "list_all (\<lambda>c. is_hex c \<or> c = 45) (hex_text bs)" if "list_all is_hex (hex_text bs)" for bs
    using that by (simp add: list_all_iff)
  show "list_all (\<lambda>c. is_hex c \<or> c = 45) (uuid5_url name)"
    using hex by (simp add: uuid5_url_def uuid_text_def mono)
  show "length (filter (\<lambda>c. c \<noteq> 45) (uuid5_url name)) = 32"
    by (simp add: uuid5_url_def uuid_text_def flt len)
qed

lemma uuid5_url_neq_Nil [simp]: "uuid5_url name \<noteq> []"
  by (simp add: uuid5_url_def uuid_text_def)

end
