(* ===== verification/Selection.thy ===== *)
theory Selection
  imports Projection "HOL-Library.Product_Lexorder"
begin

text \<open>
  \<open>memory/selection.py\<close>: which records and memory items enter a prompt. \<open>validate_complete_coverage\<close>
  checks that the coverage spans and the records given directly leave no gap;
  \<open>select_recent_complete_turns\<close> and \<open>select_long_term\<close> choose within their limits. Case folding and
  the word characters of regular expressions are arguments (Unicode tables).
\<close>

subsection \<open>Coverage\<close>

record coverage_result =
  cr_covered_range :: "(int \<times> int) option"
  cr_direct_range :: "(int \<times> int) option"

definition record_by_sequence :: "raw_record list \<Rightarrow> int \<Rightarrow> raw_record option" where
  "record_by_sequence rs = map_of (rev (map (\<lambda>r. (rr_global_sequence r, r)) rs))"

definition coverage_step ::
  "raw_record list \<Rightarrow> int \<times> pystr \<times> pystr \<Rightarrow> unit \<Rightarrow> unit result"
where
  "coverage_step records = (\<lambda>(sequence, record_id, digest) _.
     case record_by_sequence records sequence of
       None \<Rightarrow> Inl (BaiError ''MEMORY_COVERAGE_GAP'')
     | Some r \<Rightarrow> if rr_record_id r \<noteq> record_id \<or> rr_content_sha256 r \<noteq> digest
                 then Inl (BaiError ''MEMORY_COVERAGE_GAP'') else Inr ())"

fun coverage_spans_checked :: "raw_record list \<Rightarrow> coverage_span list \<Rightarrow> unit result" where
  "coverage_spans_checked records [] = Inr ()"
| "coverage_spans_checked records (s # ss) =
     rbind (zip3_strict (coverage_step records) s ()) (\<lambda>_. coverage_spans_checked records ss)"

definition not_current :: "raw_record option \<Rightarrow> raw_record \<Rightarrow> bool" where
  "not_current current r \<longleftrightarrow> Some (rr_record_id r) \<noteq> map_option rr_record_id current"

definition validate_complete_coverage ::
  "raw_record list \<Rightarrow> coverage_overview \<Rightarrow> int \<Rightarrow> raw_record list \<Rightarrow> raw_record option \<Rightarrow>
   coverage_result result"
where
  "validate_complete_coverage records overview curated_through recent current =
     (if curated_through < 0 \<or> curated_through > int (length records)
      then Inl (BaiError ''MEMORY_COVERAGE_GAP'')
      else if last_span_end (co_spans overview) \<noteq> curated_through
      then Inl (BaiError ''MEMORY_COVERAGE_GAP'')
      else rbind (coverage_spans_checked records (co_spans overview)) (\<lambda>_.
        let expected_recent = map rr_record_id
              (filter (\<lambda>r. rr_global_sequence r > curated_through \<and> not_current current r) records)
        in if map rr_record_id recent \<noteq> expected_recent then Inl (BaiError ''MEMORY_COVERAGE_GAP'')
           else let direct = sort_key rr_global_sequence (recent @
                  (case current of
                     Some c \<Rightarrow> if rr_record_id c \<in> rr_record_id ` set records then [c] else []
                   | None \<Rightarrow> []))
           in Inr \<lparr>cr_covered_range = (if curated_through \<noteq> 0 then Some (1, curated_through) else None),
                   cr_direct_range = (if direct \<noteq> []
                     then Some (rr_global_sequence (hd direct), rr_global_sequence (last direct)) else None)\<rparr>))"

subsection \<open>Recent turns\<close>

text \<open>\<open>xs[-n:]\<close> and \<open>xs[:-n]\<close> of Python, for every integer \<open>n\<close>.\<close>

definition slice_tail :: "int \<Rightarrow> 'a list \<Rightarrow> 'a list" where
  "slice_tail n xs =
     (if n > 0 then drop (length xs - nat n) xs else drop (nat (- n)) xs)"

definition slice_front :: "int \<Rightarrow> 'a list \<Rightarrow> 'a list" where
  "slice_front n xs =
     (if n > 0 then take (length xs - nat n) xs else take (nat (- n)) xs)"

definition select_recent_complete_turns :: "raw_record list \<Rightarrow> int \<Rightarrow> int \<Rightarrow> raw_record list" where
  "select_recent_complete_turns records curated_through max_records =
     (let uncurated = filter (\<lambda>r. rr_global_sequence r > curated_through) records
      in if int (length uncurated) \<le> max_records then uncurated
         else (let selected = slice_tail max_records uncurated
               in if selected \<noteq> [] \<and> (\<exists>r\<in>set (slice_front max_records uncurated).
                       rr_turn_id r = rr_turn_id (hd selected))
                  then filter (\<lambda>r. rr_turn_id r \<noteq> rr_turn_id (hd selected)) selected
                  else selected))"

subsection \<open>Long-term items\<close>

fun contains_sub :: "pystr \<Rightarrow> pystr \<Rightarrow> bool" where
  "contains_sub pat [] = (pat = [])"
| "contains_sub pat (c # s) = (startswith (c # s) pat \<or> contains_sub pat s)"

text \<open>\<open>re.findall\<close> of one or more word or CJK characters: the maximal runs.\<close>

fun find_words :: "(nat \<Rightarrow> bool) \<Rightarrow> pystr \<Rightarrow> pystr \<Rightarrow> pystr list" where
  "find_words w run [] = (if run = [] then [] else [run])"
| "find_words w run (c # s) =
     (if w c \<or> (19968 \<le> c \<and> c \<le> 40959) then find_words w (run @ [c]) s
      else (if run = [] then [] else [run]) @ find_words w [] s)"

record text_tables =
  tt_word :: "nat \<Rightarrow> bool"
  tt_casefold :: "pystr \<Rightarrow> pystr"

definition memory_score :: "text_tables \<Rightarrow> pystr list \<Rightarrow> memory_item \<Rightarrow> int \<times> int \<times> pystr" where
  "memory_score tt terms item =
     (let overlap = length (filter (\<lambda>t. contains_sub t (tt_casefold tt (mi_text item))) terms);
          manual = (if mi_created_by item = ByManual then 1 else 0)
      in (- manual, - int overlap, mi_memory_id item))"

text \<open>What the loop adds, and the size it reaches, when the item fits.\<close>

definition rendered_size ::
  "projector \<Rightarrow> temporal_policy \<Rightarrow> boundary_renderer option \<Rightarrow> memory_item list \<Rightarrow> int result"
where
  "rendered_size pj policy renderer candidate =
     rbind (rmap (\<lambda>m. project_memory pj m None None) candidate) (\<lambda>entries.
     rbind (annotate_history entries policy [10]) (\<lambda>h.
       case renderer of
         Some r \<Rightarrow> rendered_length (u ''long_term_memories'') (ah_text h)
       | None \<Rightarrow> Inr (int (length (ah_text h)))))"

fun select_loop ::
  "(projector \<times> temporal_policy) option \<Rightarrow> boundary_renderer option \<Rightarrow> int \<Rightarrow> memory_item list \<Rightarrow>
   memory_item list \<Rightarrow> int \<Rightarrow> memory_item list result"
where
  "select_loop temporal renderer max_chars [] selected used = Inr selected"
| "select_loop temporal renderer max_chars (item # items) selected used =
     (case temporal of
        Some (pj, policy) \<Rightarrow>
          rbind (rendered_size pj policy renderer (selected @ [item])) (\<lambda>size.
            if size > max_chars then select_loop temporal renderer max_chars items selected used
            else select_loop temporal renderer max_chars items (selected @ [item]) size)
      | None \<Rightarrow>
          (let size = int (length (mi_text item))
           in if used + size > max_chars then select_loop temporal renderer max_chars items selected used
              else select_loop temporal renderer max_chars items (selected @ [item]) (used + size)))"

definition select_long_term ::
  "text_tables \<Rightarrow> memory_item list \<Rightarrow> pystr \<Rightarrow> int \<Rightarrow> projector option \<Rightarrow> temporal_policy option \<Rightarrow>
   boundary_renderer option \<Rightarrow> memory_item list result"
where
  "select_long_term tt memories query max_chars pj policy renderer =
     (let terms = dedup (find_words (tt_word tt) [] (tt_casefold tt query))
      in if Option.is_none pj \<noteq> Option.is_none policy then Inl (BaiError ''TEMPORAL_ENTRY_INVALID'')
         else select_loop (case (pj, policy) of (Some p, Some q) \<Rightarrow> Some (p, q) | _ \<Rightarrow> None)
                renderer max_chars
                (sort_key (memory_score tt terms) (filter (\<lambda>m. mi_status m = MemActive) memories)) [] 0)"

subsection \<open>Coverage without gaps\<close>

lemma foldl_rbind_Inl [simp]: "foldl (\<lambda>r x. rbind r (f x)) (Inl e) xs = Inl e"
  by (induction xs) auto

lemma foldl_rbind_unit:
  "foldl (\<lambda>r x. rbind r (f x)) (Inr ()) xs = Inr () \<longleftrightarrow> (\<forall>x\<in>set xs. f x () = Inr ())"
proof (induction xs)
  case Nil
  then show ?case by simp
next
  case (Cons x xs)
  then show ?case by (cases "f x ()") auto
qed

lemma map_of_zip3:
  assumes "length ns = length is" "length is = length hs" "\<forall>x\<in>set (zip ns (zip is hs)). fst (snd x) = g (fst x)"
  shows "is = map g ns"
  using assms
proof (induction ns arbitrary: "is" hs)
  case Nil
  then show ?case by simp
next
  case (Cons n ns)
  then obtain i is' h hs' where "is = i # is'" "hs = h # hs'"
    by (cases "is"; cases hs) auto
  with Cons show ?case by auto
qed

lemma coverage_span_checked:
  assumes "zip3_strict (coverage_step records) s () = Inr ()"
  shows "cs_record_ids s =
    map (\<lambda>n. rr_record_id (the (record_by_sequence records n))) [cs_start_sequence s..cs_end_sequence s]"
proof -
  let ?ns = "[cs_start_sequence s..cs_end_sequence s]"
  have len: "length ?ns = length (cs_record_ids s)" "length (cs_record_ids s) = length (cs_record_hashes s)"
    and all: "\<forall>x\<in>set (zip ?ns (zip (cs_record_ids s) (cs_record_hashes s))). coverage_step records x () = Inr ()"
    using assms unfolding zip3_strict_def Let_def rbind_Inr_iff
    by (auto simp only: foldl_rbind_unit unit_eq split: if_splits)
  have "fst (snd x) = rr_record_id (the (record_by_sequence records (fst x)))"
    if "coverage_step records x () = Inr ()" for x
    using that by (auto simp: coverage_step_def split: prod.splits option.splits if_splits)
  with all show ?thesis
    by (intro map_of_zip3 [OF len]) blast
qed

lemma coverage_spans_checked_ids:
  "coverage_spans_checked records ss = Inr () \<Longrightarrow>
     concat (map cs_record_ids ss) =
       map (\<lambda>n. rr_record_id (the (record_by_sequence records n)))
         (concat (map (\<lambda>s. [cs_start_sequence s..cs_end_sequence s]) ss))"
  by (induction ss) (auto simp: rbind_Inr_iff coverage_span_checked)

lemma log_sequences:
  assumes "log_ok rs"
  shows "map rr_global_sequence rs = [1..int (length rs)]"
    and "0 \<le> c \<Longrightarrow> filter (\<lambda>r. rr_global_sequence r > c) rs = drop (nat c) rs"
    and "i < length rs \<Longrightarrow> record_by_sequence rs (int i + 1) = Some (rs ! i)"
proof -
  have seq: "\<forall>i<length rs. rr_global_sequence (rs ! i) = int i + 1"
    using assms by (simp add: log_ok_def)
  show upto: "map rr_global_sequence rs = [1..int (length rs)]"
    by (rule nth_equalityI) (use seq in \<open>auto simp: nth_upto\<close>)
  show "filter (\<lambda>r. rr_global_sequence r > c) rs = drop (nat c) rs" if "0 \<le> c"
  proof -
    have "filter (\<lambda>r. rr_global_sequence r > c) (take (nat c) rs) = []"
      using seq by (auto simp: filter_empty_conv in_set_conv_nth)
    moreover have "filter (\<lambda>r. rr_global_sequence r > c) (drop (nat c) rs) = drop (nat c) rs"
      using seq that by (auto simp: filter_id_conv in_set_conv_nth)
    ultimately show ?thesis
      by (metis append_Nil append_take_drop_id filter_append)
  qed
  have "distinct (map rr_global_sequence rs)" by (simp add: upto)
  then show "record_by_sequence rs (int i + 1) = Some (rs ! i)" if "i < length rs"
    unfolding record_by_sequence_def using seq that
    by (intro map_of_is_SomeI) (auto simp: rev_map [symmetric] comp_def in_set_conv_nth intro!: image_eqI)
qed

lemma log_prefix_ids:
  assumes "log_ok rs" and "0 \<le> c" and "c \<le> int (length rs)"
  shows "map (\<lambda>n. rr_record_id (the (record_by_sequence rs n))) [1..c] = map rr_record_id (take (nat c) rs)"
proof (rule nth_equalityI)
  show "length (map (\<lambda>n. rr_record_id (the (record_by_sequence rs n))) [1..c]) =
    length (map rr_record_id (take (nat c) rs))"
    using assms(2,3) by simp
  fix i
  assume "i < length (map (\<lambda>n. rr_record_id (the (record_by_sequence rs n))) [1..c])"
  with assms(2,3) have i: "i < nat c" "i < length rs" by auto
  with log_sequences(3) [OF assms(1) i(2)] assms(2)
  show "map (\<lambda>n. rr_record_id (the (record_by_sequence rs n))) [1..c] ! i = map rr_record_id (take (nat c) rs) ! i"
    by (simp add: nth_upto add.commute)
qed

text \<open>
  C16. Coverage without gaps. When the check accepts, the coverage spans name exactly the records up to
  the curation frontier, in order, and the records given directly are exactly those after it, in order,
  without the current input: together they account for every record of the archive once.
\<close>

theorem complete_coverage_exact:
  assumes "validate_complete_coverage records overview c recent current = Inr res"
    and "log_ok records" and "coverage_overview_ok overview"
  shows "concat (map cs_record_ids (co_spans overview)) = map rr_record_id (take (nat c) records) \<and>
    map rr_record_id recent = map rr_record_id (filter (not_current current) (drop (nat c) records)) \<and>
    cr_covered_range res = (if c = 0 then None else Some (1, c))"
proof -
  have c: "0 \<le> c" "c \<le> int (length records)" and last: "last_span_end (co_spans overview) = c"
    and spans: "coverage_spans_checked records (co_spans overview) = Inr ()"
    and recent: "map rr_record_id recent =
      map rr_record_id (filter (\<lambda>r. rr_global_sequence r > c \<and> not_current current r) records)"
    and res: "cr_covered_range res = (if c = 0 then None else Some (1, c))"
    using assms(1) by (auto simp: validate_complete_coverage_def rbind_Inr_iff Let_def split: if_splits)
  have "concat (map (\<lambda>s. [cs_start_sequence s..cs_end_sequence s]) (co_spans overview)) = [1..c]"
    using coverage_sequences [of 1 "co_spans overview"] assms(3) last
    by (auto simp: coverage_overview_ok_def last_span_end_def split: if_splits)
  then have "concat (map cs_record_ids (co_spans overview)) = map rr_record_id (take (nat c) records)"
    using coverage_spans_checked_ids [OF spans] log_prefix_ids [OF assms(2) c] by simp
  moreover have "filter (\<lambda>r. rr_global_sequence r > c \<and> not_current current r) records =
      filter (not_current current) (drop (nat c) records)"
    using log_sequences(2) [OF assms(2) c(1), symmetric] by (simp add: conj_commute)
  ultimately show ?thesis using recent res by simp
qed

theorem complete_coverage_exact_witness:
  "\<exists>res. validate_complete_coverage [sample_user, sample_assistant] (md_coverage_overview sample_target) 2 []
      None = Inr res \<and> cr_covered_range res = Some (1, 2)"
proof -
  let ?rs = "[sample_user, sample_assistant]"
  have seq: "rr_global_sequence sample_user = 1" "rr_global_sequence sample_assistant = 2"
    by (simp_all add: sample_user_def sample_assistant_def sample_record_def)
  obtain res where res: "validate_complete_coverage ?rs (md_coverage_overview sample_target) 2 [] None = Inr res"
    by (simp add: validate_complete_coverage_def sample_target_def last_span_end_def sample_span_def
        zip3_strict_def upto.simps coverage_step_def record_by_sequence_def seq sample_ids Let_def)
  have "coverage_overview_ok (md_coverage_overview sample_target)"
    using sample_target_ok by (simp add: memory_document_ok_def)
  from complete_coverage_exact [OF res sample_log this] res show ?thesis by simp
qed

subsection \<open>Whole recent turns\<close>

fun turns_contiguous :: "raw_record list \<Rightarrow> bool" where
  "turns_contiguous [] = True"
| "turns_contiguous (r # rs) =
     (rr_turn_id r \<notin> rr_turn_id ` set (dropWhile (\<lambda>x. rr_turn_id x = rr_turn_id r) rs) \<and>
      turns_contiguous rs)"

text \<open>A selection that contains a record of a turn contains all of its records.\<close>

definition whole_turns :: "raw_record list \<Rightarrow> raw_record list \<Rightarrow> bool" where
  "whole_turns zs us \<longleftrightarrow> (\<forall>x\<in>set us. (\<exists>z\<in>set zs. rr_turn_id z = rr_turn_id x) \<longrightarrow> x \<in> set zs)"

lemma turns_contiguous_suffix: "turns_contiguous (xs @ ys) \<Longrightarrow> turns_contiguous ys"
  by (induction xs) auto

lemma mem_dropWhile_behind:
  "\<not> P s \<Longrightarrow> r \<in> set (s # ss) \<Longrightarrow> r \<in> set (dropWhile P (front @ s # ss))"
  by (induction front) auto

lemma turn_behind_front:
  assumes "turns_contiguous (front @ s # ss)" and "r \<in> set (s # ss)" and "rr_turn_id r \<noteq> rr_turn_id s"
  shows "rr_turn_id r \<notin> rr_turn_id ` set front"
  using assms(1)
proof (induction front)
  case Nil
  then show ?case by simp
next
  case (Cons x front)
  have "rr_turn_id x \<noteq> rr_turn_id r"
  proof
    assume x: "rr_turn_id x = rr_turn_id r"
    have "r \<in> set (dropWhile (\<lambda>y. rr_turn_id y = rr_turn_id x) (front @ s # ss))"
      using assms(2,3) x by (intro mem_dropWhile_behind) auto
    with Cons.prems x show False by auto
  qed
  with Cons show ?case by auto
qed

lemma filter_all: "list_all Q xs \<Longrightarrow> filter Q xs = xs"
  by (induction xs) auto

lemma filter_not_dropWhile:
  "list_all (\<lambda>x. \<not> P x) (dropWhile P xs) \<Longrightarrow> filter (\<lambda>x. \<not> P x) xs = dropWhile P xs"
  by (induction xs) (auto simp: filter_all)

lemma drop_first_turn:
  assumes "turns_contiguous (s # ss)"
  shows "filter (\<lambda>r. rr_turn_id r \<noteq> rr_turn_id s) (s # ss) = dropWhile (\<lambda>r. rr_turn_id r = rr_turn_id s) (s # ss)"
proof (rule filter_not_dropWhile)
  have "list_all (\<lambda>r. rr_turn_id r \<noteq> rr_turn_id s) rs" if "rr_turn_id s \<notin> rr_turn_id ` set rs" for rs
    using that by (induction rs) auto
  moreover have "rr_turn_id s \<notin> rr_turn_id ` set (dropWhile (\<lambda>r. rr_turn_id r = rr_turn_id s) ss)"
    using assms unfolding turns_contiguous.simps by (rule conjunct1)
  ultimately have "list_all (\<lambda>r. rr_turn_id r \<noteq> rr_turn_id s) (dropWhile (\<lambda>r. rr_turn_id r = rr_turn_id s) ss)" .
  then show "list_all (\<lambda>r. rr_turn_id r \<noteq> rr_turn_id s) (dropWhile (\<lambda>r. rr_turn_id r = rr_turn_id s) (s # ss))"
    unfolding dropWhile.simps by simp
qed

lemma whole_turnsD:
  "whole_turns zs us \<Longrightarrow> x \<in> set us \<Longrightarrow> z \<in> set zs \<Longrightarrow> rr_turn_id z = rr_turn_id x \<Longrightarrow> x \<in> set zs"
  unfolding whole_turns_def by blast

lemma whole_turns_mono:
  assumes "whole_turns zs us" and "distinct us" and "us = front @ sel" and "suffix zs sel"
    and "\<exists>x\<in>set front. rr_turn_id x = t"
  shows "\<forall>z\<in>set zs. rr_turn_id z \<noteq> t"
proof (intro ballI notI)
  fix z
  assume z: "z \<in> set zs" "rr_turn_id z = t"
  obtain x where x: "x \<in> set front" "rr_turn_id x = t" using assms(5) by blast
  have "x \<in> set zs"
    by (rule whole_turnsD [OF assms(1) _ z(1)]) (simp_all add: x z(2) assms(3))
  with assms(4) have "x \<in> set sel" by (auto simp: suffix_def)
  with assms(2,3) x(1) show False by auto
qed

lemma suffix_dropWhile_none:
  "suffix zs ss \<Longrightarrow> \<forall>z\<in>set zs. \<not> P z \<Longrightarrow> suffix zs (dropWhile P ss)"
proof (induction ss)
  case Nil
  then show ?case by simp
next
  case (Cons s ss)
  then show ?case by (cases "zs = s # ss") (auto simp: suffix_Cons)
qed

lemma suffix_drop_length: "suffix zs us \<Longrightarrow> length zs \<le> n \<Longrightarrow> n \<le> length us \<Longrightarrow> suffix zs (drop (length us - n) us)"
  by (auto simp: suffix_def)

lemma longest_whole_suffix:
  assumes us: "us = front @ s # ss" and "turns_contiguous us" and "distinct us"
    and zs: "zs = (if \<exists>r\<in>set front. rr_turn_id r = rr_turn_id s
      then filter (\<lambda>r. rr_turn_id r \<noteq> rr_turn_id s) (s # ss) else s # ss)"
  shows "suffix zs us \<and> length zs \<le> length (s # ss) \<and> whole_turns zs us \<and>
    (\<forall>ys. suffix ys (s # ss) \<longrightarrow> whole_turns ys us \<longrightarrow> suffix ys zs)"
proof -
  have cont: "turns_contiguous (front @ s # ss)" "turns_contiguous (s # ss)"
    using assms(2) turns_contiguous_suffix [of front "s # ss"] unfolding us by simp_all
  have outside: "x \<in> set (s # ss)"
    if "x \<in> set us" "r \<in> set (s # ss)" "rr_turn_id r = rr_turn_id x" "rr_turn_id r \<noteq> rr_turn_id s" for x r
  proof -
    have "rr_turn_id x \<notin> rr_turn_id ` set front"
      using turn_behind_front [OF cont(1), of r] that(2-4) by simp
    with that(1) us show ?thesis by auto
  qed
  show ?thesis
  proof (cases "\<exists>r\<in>set front. rr_turn_id r = rr_turn_id s")
    case cut: True
    let ?rest = "dropWhile (\<lambda>r. rr_turn_id r = rr_turn_id s) (s # ss)"
    have rest: "?rest = filter (\<lambda>r. rr_turn_id r \<noteq> rr_turn_id s) (s # ss)"
      using drop_first_turn [OF cont(2)] by simp
    then have zs: "zs = ?rest" using zs cut by simp
    have "suffix ?rest us" using us suffix_dropWhile by (metis suffix_appendI)
    moreover have "whole_turns ?rest us"
      unfolding whole_turns_def rest set_filter using outside by (metis (mono_tags, lifting) mem_Collect_eq)
    moreover have "suffix ys ?rest" if "suffix ys (s # ss)" "whole_turns ys us" for ys
      using whole_turns_mono [OF that(2) assms(3) us that(1) cut] that(1)
      by (intro suffix_dropWhile_none) auto
    ultimately show ?thesis unfolding zs using length_dropWhile_le by blast
  next
    case whole: False
    then have zs: "zs = s # ss" using zs by (simp only: if_False)
    have "whole_turns (s # ss) us"
      unfolding whole_turns_def using outside whole us by force
    with us show ?thesis by (auto simp: zs suffix_def)
  qed
qed

text \<open>
  The records given directly are whole turns. For a positive limit and turns whose records are
  adjacent, the selection is a suffix of the records after the curation frontier, no longer than the
  limit, that never contains part of a turn; and it is the longest such suffix.
\<close>

theorem recent_turns_longest_suffix:
  assumes "us = filter (\<lambda>r. rr_global_sequence r > c) records" and "turns_contiguous us"
    and "distinct us" and "0 < m" and "zs = select_recent_complete_turns records c m"
  shows "suffix zs us \<and> int (length zs) \<le> m \<and> whole_turns zs us \<and>
    (\<forall>ys. suffix ys us \<and> int (length ys) \<le> m \<and> whole_turns ys us \<longrightarrow> suffix ys zs)"
proof (cases "int (length us) \<le> m")
  case True
  then have "zs = us" using assms(1,5) by (simp add: select_recent_complete_turns_def Let_def)
  with True show ?thesis by (simp add: whole_turns_def)
next
  case False
  define front sel where "front = slice_front m us" and "sel = slice_tail m us"
  have us: "us = front @ sel" and len: "int (length sel) = m"
    and sel: "sel = drop (length us - nat m) us"
    using assms(4) False by (auto simp: front_def sel_def slice_front_def slice_tail_def)
  from len assms(4) have "sel \<noteq> []" by auto
  then obtain s ss where ss: "sel = s # ss" by (meson list.exhaust)
  have zs: "zs = (if \<exists>r\<in>set front. rr_turn_id r = rr_turn_id s
      then filter (\<lambda>r. rr_turn_id r \<noteq> rr_turn_id s) (s # ss) else s # ss)"
    unfolding assms(5) select_recent_complete_turns_def Let_def assms(1) [symmetric]
      front_def [symmetric] sel_def [symmetric] unfolding ss using False by simp
  have "suffix ys sel" if "suffix ys us" "int (length ys) \<le> m" for ys
    unfolding sel using that assms(4) False by (intro suffix_drop_length) auto
  with longest_whole_suffix [OF us [unfolded ss] assms(2,3) zs] len show ?thesis
    unfolding ss by auto
qed

definition sample_turns :: "raw_record list" where
  "sample_turns =
     [sample_record 1 1 RoleUser (u ''hi''), sample_record 2 1 RoleAssistant (u ''yo''),
      sample_record 3 2 RoleUser (u ''a''), sample_record 4 2 RoleAssistant (u ''b'')]"

theorem recent_turns_longest_suffix_witness:
  "int (length (select_recent_complete_turns sample_turns 0 3)) \<le> 3 \<and>
   select_recent_complete_turns sample_turns 0 3 = drop 2 sample_turns"
proof -
  have us: "sample_turns = filter (\<lambda>r. rr_global_sequence r > 0) sample_turns"
    by (simp add: sample_turns_def sample_record_def)
  have "turns_contiguous sample_turns" "distinct sample_turns"
    by (simp_all add: sample_turns_def sample_record_def)
  from recent_turns_longest_suffix [OF us this, of 3] show ?thesis
    by (simp add: select_recent_complete_turns_def sample_turns_def sample_record_def slice_tail_def slice_front_def)
qed

subsection \<open>Long-term items within the budget\<close>

definition chars_of :: "memory_item list \<Rightarrow> int" where
  "chars_of ms = int (sum_list (map (length \<circ> mi_text) ms))"

lemma chars_of_simps [simp]:
  "chars_of [] = 0" "chars_of (ms @ [m]) = chars_of ms + int (length (mi_text m))"
  "chars_of (m # ms) = int (length (mi_text m)) + chars_of ms"
  by (simp_all add: chars_of_def)

lemma select_loop_subseq:
  "select_loop tmp rd mx items sel used = Inr res \<Longrightarrow> \<exists>added. subseq added items \<and> res = sel @ added"
proof (induction items arbitrary: sel used)
  case Nil
  then show ?case by simp
next
  case (Cons m ms)
  from Cons.prems obtain sel' used' where step: "select_loop tmp rd mx ms sel' used' = Inr res"
    and sel': "sel' = sel \<or> sel' = sel @ [m]"
    by (auto simp: rbind_Inr_iff Let_def split: option.splits prod.splits if_splits)
  from Cons.IH [OF step] obtain added where "subseq added ms" "res = sel' @ added" by blast
  with sel' show ?case
    by (intro exI [of _ "if sel' = sel then added else m # added"]) auto
qed

lemma select_loop_plain:
  "select_loop None rd mx items sel used = Inr res \<Longrightarrow> used = chars_of sel \<Longrightarrow> chars_of sel \<le> mx \<Longrightarrow>
     chars_of res \<le> mx \<and> chars_of sel \<le> chars_of res \<and>
     (\<forall>m\<in>set items. m \<in> set res \<or> chars_of res + int (length (mi_text m)) > mx)"
proof (induction items arbitrary: sel used)
  case Nil
  then show ?case by simp
next
  case (Cons m ms)
  show ?case
  proof (cases "used + int (length (mi_text m)) > mx")
    case True
    with Cons.prems Cons.IH [of sel used] show ?thesis by (auto simp: Let_def)
  next
    case False
    with Cons.prems have step: "select_loop None rd mx ms (sel @ [m]) (used + int (length (mi_text m))) = Inr res"
      by (simp add: Let_def)
    have "m \<in> set res" using select_loop_subseq [OF step] by auto
    with Cons.IH [OF step] Cons.prems(2) False show ?thesis by auto
  qed
qed

lemma select_loop_plain_total: "\<exists>res. select_loop None rd mx items sel used = Inr res"
  by (induction items arbitrary: sel used) (auto simp: Let_def)

lemma select_loop_rendered:
  "select_loop (Some (pj, policy)) rd mx items sel used = Inr res \<Longrightarrow>
     sel = [] \<or> (\<exists>n. rendered_size pj policy rd sel = Inr n \<and> n \<le> mx) \<Longrightarrow>
     res = [] \<or> (\<exists>n. rendered_size pj policy rd res = Inr n \<and> n \<le> mx)"
proof (induction items arbitrary: sel used)
  case Nil
  then show ?case by simp
next
  case (Cons m ms)
  from Cons.prems(1) obtain n where n: "rendered_size pj policy rd (sel @ [m]) = Inr n"
    and step: "(if n > mx then select_loop (Some (pj, policy)) rd mx ms sel used
       else select_loop (Some (pj, policy)) rd mx ms (sel @ [m]) n) = Inr res"
    by (auto simp: rbind_Inr_iff)
  show ?case
  proof (cases "n > mx")
    case True
    with step Cons.IH [of sel used] Cons.prems(2) show ?thesis by simp
  next
    case False
    with step Cons.IH [of "sel @ [m]" n] n show ?thesis by simp
  qed
qed

text \<open>
  Selecting long-term items keeps to active items in the order of their score and to the character
  budget. Without time projection the budget bounds the texts, and the selection is maximal: an active
  item that was left out would exceed it. With time projection the budget bounds the length of the
  annotated, and if a renderer is given framed, text of all selected items.
\<close>

theorem long_term_selection_budget:
  assumes "select_long_term tt memories query mx pj policy rd = Inr res" and "0 \<le> mx"
  shows "subseq res (sort_key (memory_score tt (dedup (find_words (tt_word tt) [] (tt_casefold tt query))))
      (filter (\<lambda>m. mi_status m = MemActive) memories)) \<and>
    (pj = None \<longrightarrow> chars_of res \<le> mx \<and>
      (\<forall>m\<in>set memories. mi_status m = MemActive \<longrightarrow>
         m \<in> set res \<or> chars_of res + int (length (mi_text m)) > mx)) \<and>
    (\<forall>p q. pj = Some p \<longrightarrow> policy = Some q \<longrightarrow> res \<noteq> [] \<longrightarrow>
      (\<exists>n. rendered_size p q rd res = Inr n \<and> n \<le> mx))"
proof -
  let ?items = "sort_key (memory_score tt (dedup (find_words (tt_word tt) [] (tt_casefold tt query))))
      (filter (\<lambda>m. mi_status m = MemActive) memories)"
  let ?tmp = "case (pj, policy) of (Some p, Some q) \<Rightarrow> Some (p, q) | _ \<Rightarrow> None"
  from assms(1) have loop: "select_loop ?tmp rd mx ?items [] 0 = Inr res"
    unfolding select_long_term_def Let_def by (simp add: if_Inl_iff)
  have "subseq res ?items" using select_loop_subseq [OF loop] by auto
  moreover have "chars_of res \<le> mx \<and> (\<forall>m\<in>set memories. mi_status m = MemActive \<longrightarrow>
      m \<in> set res \<or> chars_of res + int (length (mi_text m)) > mx)" if "pj = None"
    using select_loop_plain [of rd mx ?items "[]" 0 res] loop that assms(2) by auto
  moreover have "\<exists>n. rendered_size p q rd res = Inr n \<and> n \<le> mx"
    if "pj = Some p" "policy = Some q" "res \<noteq> []" for p q
    using select_loop_rendered [of p q rd mx ?items "[]" 0 res] loop that by auto
  ultimately show ?thesis by blast
qed

definition sample_tables :: text_tables where
  "sample_tables = \<lparr>tt_word = is_ascii_alnum, tt_casefold = (\<lambda>s. s)\<rparr>"

theorem long_term_selection_budget_witness:
  "select_long_term sample_tables [sample_item] (u ''m'') 1 None None None = Inr [sample_item] \<and>
   chars_of [sample_item] \<le> 1"
proof -
  have active: "mi_status sample_item = MemActive" and len: "length (mi_text sample_item) = 1"
    by (simp_all add: sample_item_def)
  have sel: "select_long_term sample_tables [sample_item] (u ''m'') 1 None None None = Inr [sample_item]"
    by (simp add: select_long_term_def active len Let_def)
  from long_term_selection_budget [OF sel] sel show ?thesis by simp
qed

end
