(* ===== verification/Curation.thy ===== *)
theory Curation
  imports Uuid Selection
begin

text \<open>
  \<open>memory/curation.py\<close>, the deciding half: which batch of records is curated next, what a model response
  may contain and to which records it may refer, and how the accepted proposal is merged into a new
  document. The theory of the prompt and of the whole \<open>propose\<close> operation follows in \<open>Curate\<close>.
  \<open>json.loads\<close> and case folding are arguments.
\<close>

subsection \<open>The validated data\<close>

record curation_batch =
  cb_batch_id :: pystr
  cb_old_frontier :: int
  cb_new_frontier :: int
  cb_record_ids :: "pystr list"
  cb_config_revision :: pystr
  cb_content_sha256 :: pystr

definition curation_batch_ok :: "curation_batch \<Rightarrow> bool" where
  "curation_batch_ok b \<longleftrightarrow> cb_old_frontier b \<ge> 0 \<and> cb_new_frontier b \<ge> 1 \<and> cb_record_ids b \<noteq> []"

record curation_candidate =
  cc_kind :: memory_kind
  cc_text :: pystr
  cc_source_record_ids :: "pystr list"
  cc_tags :: "pystr list"

definition curation_candidate_ok :: "curation_candidate \<Rightarrow> bool" where
  "curation_candidate_ok c \<longleftrightarrow>
     cc_text c \<noteq> [] \<and> length (cc_text c) \<le> 8192 \<and> cc_source_record_ids c \<noteq> []"

record overview_update =
  ou_text :: pystr
  ou_record_ids :: "pystr list"

definition overview_update_ok :: "overview_update \<Rightarrow> bool" where
  "overview_update_ok o' \<longleftrightarrow> ou_text o' \<noteq> [] \<and> ou_record_ids o' \<noteq> []"

record curation_proposal =
  cp_candidates :: "curation_candidate list"
  cp_overview_update :: overview_update

definition curation_proposal_ok :: "curation_proposal \<Rightarrow> bool" where
  "curation_proposal_ok p \<longleftrightarrow>
     list_all curation_candidate_ok (cp_candidates p) \<and> overview_update_ok (cp_overview_update p)"

text \<open>The model's own answer: short aliases instead of record identifiers.\<close>

record model_candidate =
  mc_kind :: memory_kind
  mc_text :: pystr
  mc_sources :: "pystr list"

text \<open>\<open>reject_legacy_model_kinds\<close> runs before the enum is built, so its legacy values never apply.\<close>

definition model_kind :: "pystr \<Rightarrow> memory_kind option" where
  "model_kind s = (if s \<in> set (map memory_kind_value memory_kinds)
                   then (case memory_kind_of s of Inl _ \<Rightarrow> None | Inr k \<Rightarrow> Some k) else None)"

definition bad_alias :: "pystr \<Rightarrow> bool" where
  "bad_alias a \<longleftrightarrow>
     length a < 2 \<or> a ! 0 \<noteq> 114 \<or> \<not> str_isdigit (drop 1 a) \<or> a ! 1 = 48"

definition model_candidate_ok :: "model_candidate \<Rightarrow> bool" where
  "model_candidate_ok c \<longleftrightarrow>
     mc_text c \<noteq> [] \<and> length (mc_text c) \<le> 8192 \<and> mc_sources c \<noteq> [] \<and>
     strip (mc_text c) \<noteq> [] \<and> distinct (mc_sources c) \<and> \<not> (\<exists>a\<in>set (mc_sources c). bad_alias a)"

record model_proposal =
  mp_candidates :: "model_candidate list"
  mp_overview :: pystr

definition model_proposal_ok :: "model_proposal \<Rightarrow> bool" where
  "model_proposal_ok p \<longleftrightarrow>
     list_all model_candidate_ok (mp_candidates p) \<and> mp_overview p \<noteq> [] \<and>
     length (mp_overview p) \<le> 8192 \<and> strip (mp_overview p) \<noteq> []"

text \<open>
  Validation from parsed JSON: the type of each field, no unknown key. A parsed object holds each key
  once.
\<close>

fun json_str :: "json \<Rightarrow> pystr option" where
  "json_str (JStr s) = Some s"
| "json_str _ = None"

fun omap :: "('a \<Rightarrow> 'b option) \<Rightarrow> 'a list \<Rightarrow> 'b list option" where
  "omap f [] = Some []"
| "omap f (x # xs) = Option.bind (f x) (\<lambda>y. map_option (Cons y) (omap f xs))"

definition only_keys :: "pystr list \<Rightarrow> jdict \<Rightarrow> bool" where
  "only_keys ks d \<longleftrightarrow> list_all (\<lambda>(k, _). k \<in> set ks) d"

fun parse_candidate :: "json \<Rightarrow> model_candidate option" where
  "parse_candidate (JObj d) =
     (case (dict_get d (u ''kind''), dict_get d (u ''text''), dict_get d (u ''sources'')) of
        (Some (JStr kind), Some (JStr text'), Some (JArr sources)) \<Rightarrow>
          if \<not> only_keys [u ''kind'', u ''text'', u ''sources''] d then None
          else (case (model_kind kind, omap json_str sources) of
                  (Some k, Some ss) \<Rightarrow>
                    (let c = \<lparr>mc_kind = k, mc_text = text', mc_sources = ss\<rparr>
                     in if model_candidate_ok c then Some c else None)
                | _ \<Rightarrow> None)
      | _ \<Rightarrow> None)"
| "parse_candidate _ = None"

fun parse_model_proposal :: "json \<Rightarrow> model_proposal option" where
  "parse_model_proposal (JObj d) =
     (case (dict_get d (u ''memory_candidates''), dict_get d (u ''overview'')) of
        (Some (JArr cs), Some (JStr overview)) \<Rightarrow>
          if \<not> only_keys [u ''memory_candidates'', u ''overview''] d then None
          else Option.bind (omap parse_candidate cs) (\<lambda>candidates.
            let p = \<lparr>mp_candidates = candidates, mp_overview = overview\<rparr>
            in if model_proposal_ok p then Some p else None)
      | _ \<Rightarrow> None)"
| "parse_model_proposal _ = None"

subsection \<open>The next batch\<close>

record curation_policy =
  cu_max_records :: int
  cu_reserved_records :: int
  cu_min_batch_records :: int
  cu_max_batch_records :: int

definition group_step :: "raw_record \<Rightarrow> (pystr \<times> raw_record list) list \<Rightarrow> (pystr \<times> raw_record list) list" where
  "group_step r d =
     dict_set (rr_turn_id r)
       ((case dict_get d (rr_turn_id r) of None \<Rightarrow> [] | Some rs \<Rightarrow> rs) @ [r]) d"

definition group_by_turn :: "raw_record list \<Rightarrow> (pystr \<times> raw_record list) list" where
  "group_by_turn rs = fold group_step rs []"

fun batch_loop :: "curation_policy \<Rightarrow> int \<Rightarrow> raw_record list list \<Rightarrow> raw_record list \<Rightarrow> raw_record list" where
  "batch_loop pol surplus [] selected = selected"
| "batch_loop pol surplus (turn # turns) selected =
     (if rr_role ` set turn \<noteq> {RoleUser, RoleAssistant} then selected
      else if int (length selected) + int (length turn) > cu_max_batch_records pol then selected
      else let selected' = selected @ turn
           in if int (length selected') \<ge> cu_min_batch_records pol \<and>
                 int (length selected') \<ge> max 1 surplus
              then selected' else batch_loop pol surplus turns selected')"

definition batch_identity :: "raw_record list \<Rightarrow> pystr" where
  "batch_identity rs = join [124] (map (\<lambda>r. rr_record_id r @ [58] @ rr_content_sha256 r) rs)"

definition next_batch ::
  "curation_policy \<Rightarrow> raw_record list \<Rightarrow> int \<Rightarrow> pystr \<Rightarrow> bool \<Rightarrow> curation_batch option result"
where
  "next_batch pol records curated_through config_revision force =
     (let uncurated = filter (\<lambda>r. rr_global_sequence r > curated_through) records;
          direct_limit = cu_max_records pol - cu_reserved_records pol
      in if \<not> force \<and> int (length uncurated) \<le> direct_limit then Inr None
         else let selected = batch_loop pol (int (length uncurated) - direct_limit)
                               (map snd (group_by_turn uncurated)) []
              in if int (length selected) < cu_min_batch_records pol then Inr None
                 else if selected = [] then Inl IndexExn
                 else rbind (validated curation_batch_ok
                   \<lparr>cb_batch_id = u ''batch-'' @ uuid5_url (batch_identity selected),
                    cb_old_frontier = curated_through,
                    cb_new_frontier = rr_global_sequence (last selected),
                    cb_record_ids = map rr_record_id selected,
                    cb_config_revision = config_revision,
                    cb_content_sha256 = content_hash (batch_identity selected)\<rparr>) (\<lambda>b. Inr (Some b)))"

definition committed_frontier :: "int \<Rightarrow> int \<Rightarrow> bool \<Rightarrow> int" where
  "committed_frontier old proposed committed = (if committed then proposed else old)"

subsection \<open>Validating a response\<close>

definition resolve_candidate :: "(pystr \<times> pystr) list \<Rightarrow> model_candidate \<Rightarrow> curation_candidate result" where
  "resolve_candidate aliases c =
     rbind (rmap (\<lambda>a. case dict_get aliases a of
              None \<Rightarrow> Inl (BaiError ''CURATION_SOURCE_INVALID'') | Some i \<Rightarrow> Inr i) (mc_sources c)) (\<lambda>ids.
     rbind (ensure_safe (mc_text c)) (\<lambda>_.
       Inr \<lparr>cc_kind = mc_kind c, cc_text = mc_text c, cc_source_record_ids = ids, cc_tags = []\<rparr>))"

definition validate_response ::
  "(pystr \<Rightarrow> json option) \<Rightarrow> pystr \<Rightarrow> curation_batch \<Rightarrow> (pystr \<times> pystr) list \<Rightarrow> curation_proposal result"
where
  "validate_response loads response batch aliases =
     (case loads response of
        None \<Rightarrow> Inl (BaiErrorRetryable ''CURATION_SCHEMA_INVALID'')
      | Some payload \<Rightarrow>
          (case parse_model_proposal payload of
             None \<Rightarrow> Inl (BaiError ''CURATION_SCHEMA_INVALID'')
           | Some p \<Rightarrow>
               rbind (rmap (resolve_candidate aliases) (mp_candidates p)) (\<lambda>candidates.
               rbind (ensure_safe (mp_overview p)) (\<lambda>_.
               validated curation_proposal_ok
                 \<lparr>cp_candidates = candidates,
                  cp_overview_update = \<lparr>ou_text = mp_overview p, ou_record_ids = cb_record_ids batch\<rparr>\<rparr>))))"

subsection \<open>Merging\<close>

text \<open>\<open>text.split()\<close>: the maximal runs without white space.\<close>

fun split_space :: "pystr \<Rightarrow> pystr \<Rightarrow> pystr list" where
  "split_space run [] = (if run = [] then [] else [run])"
| "split_space run (c # s) =
     (if is_space c then (if run = [] then [] else [run]) @ split_space [] s
      else split_space (run @ [c]) s)"

definition text_key :: "(pystr \<Rightarrow> pystr) \<Rightarrow> pystr \<Rightarrow> pystr" where
  "text_key casefold s = casefold (join [32] (split_space [] s))"

definition candidate_item ::
  "raw_record list \<Rightarrow> curation_batch \<Rightarrow> int \<Rightarrow> nat \<Rightarrow> curation_candidate \<Rightarrow> memory_item result"
where
  "candidate_item records batch now index c =
     rbind (rmap (\<lambda>i. case record_by_id records i of
              None \<Rightarrow> Inl KeyExn
            | Some r \<Rightarrow> validated source_reference_ok
                \<lparr>sr_record_id = i, sr_relation = RelSupports, sr_record_sha256 = rr_content_sha256 r\<rparr>)
            (cc_source_record_ids c)) (\<lambda>refs.
       validated memory_item_ok
         \<lparr>mi_memory_id = u ''mem-'' @ uuid5_url (cb_batch_id batch @ [58] @ nat_str index @ [58] @ cc_text c),
          mi_kind = cc_kind c, mi_text = cc_text c, mi_status = MemActive, mi_source_refs = refs,
          mi_created_by = ByMemoryCurator, mi_created_at = Aware now 0, mi_updated_at = Aware now 0,
          mi_supersedes = [], mi_tags = cc_tags c\<rparr>)"

fun merge_loop ::
  "(pystr \<Rightarrow> pystr) \<Rightarrow> raw_record list \<Rightarrow> curation_batch \<Rightarrow> int \<Rightarrow> nat \<Rightarrow> curation_candidate list \<Rightarrow>
   pystr set \<Rightarrow> memory_item list \<Rightarrow> memory_item list result"
where
  "merge_loop casefold records batch now index [] existing memories = Inr memories"
| "merge_loop casefold records batch now index (c # cs) existing memories =
     (let key = text_key casefold (cc_text c)
      in if key \<in> existing then merge_loop casefold records batch now (Suc index) cs existing memories
         else rbind (candidate_item records batch now index c) (\<lambda>item.
              merge_loop casefold records batch now (Suc index) cs (insert key existing) (memories @ [item])))"

definition merge_document ::
  "(pystr \<Rightarrow> pystr) \<Rightarrow> memory_document \<Rightarrow> curation_batch \<Rightarrow> raw_record list \<Rightarrow> curation_proposal \<Rightarrow>
   memory_document result"
where
  "merge_document casefold document batch records proposal =
     (if records = [] then Inl ValueExn
      else let now = Max (rr_created_at ` set records);
               existing = (\<lambda>m. text_key casefold (mi_text m)) `
                 set (filter (\<lambda>m. mi_status m = MemActive) (md_memories document));
               revision = md_revision document + 1
      in rbind (merge_loop casefold records batch now 0 (cp_candidates proposal) existing (md_memories document))
           (\<lambda>memories.
         rbind (rmap (\<lambda>i. case record_by_id records i of
                  None \<Rightarrow> Inl KeyExn | Some r \<Rightarrow> Inr (rr_content_sha256 r)) (cb_record_ids batch)) (\<lambda>hashes.
         rbind (validated coverage_span_ok
           \<lparr>cs_start_sequence = cb_old_frontier batch + 1, cs_end_sequence = cb_new_frontier batch,
            cs_batch_id = cb_batch_id batch, cs_record_ids = cb_record_ids batch,
            cs_record_hashes = hashes\<rparr>) (\<lambda>span.
         rbind (validated curation_checkpoint_ok
           \<lparr>ck_curated_through_sequence = cb_new_frontier batch, ck_last_batch_id = Some (cb_batch_id batch),
            ck_updated_at = Some (Aware now 0), ck_covered_record_ids = cb_record_ids batch\<rparr>) (\<lambda>checkpoint.
         rbind (validated coverage_overview_ok
           \<lparr>co_revision = revision, co_text = ou_text (cp_overview_update proposal),
            co_spans = co_spans (md_coverage_overview document) @ [span]\<rparr>) (\<lambda>overview.
         validated document_level_ok
           \<lparr>md_schema_version = 1, md_revision = revision, md_curation = checkpoint,
            md_coverage_overview = overview, md_memories = memories\<rparr>))))))"

subsection \<open>Batches are whole turns\<close>

lemma dict_set_new: "k \<notin> fst ` set d \<Longrightarrow> dict_set k w d = d @ [(k, w)]"
  by (induction d) auto

lemma dict_set_last: "k \<notin> fst ` set d \<Longrightarrow> dict_set k w (d @ [(k, v)]) = d @ [(k, w)]"
  by (induction d) auto

lemma turns_contiguous_snoc:
  "turns_contiguous (rs @ [r]) \<Longrightarrow>
     turns_contiguous rs \<and> (rr_turn_id r \<in> rr_turn_id ` set rs \<longrightarrow> rr_turn_id (last rs) = rr_turn_id r)"
proof (induction rs)
  case Nil
  then show ?case by simp
next
  case (Cons x rs)
  let ?P = "\<lambda>y. rr_turn_id y = rr_turn_id x"
  from Cons.prems have x: "rr_turn_id x \<notin> rr_turn_id ` set (dropWhile ?P (rs @ [r]))"
    and rest: "turns_contiguous (rs @ [r])" by simp_all
  note IH = Cons.IH [OF rest]
  show ?case
  proof (cases "\<forall>y\<in>set rs. ?P y")
    case True
    then have dw: "dropWhile ?P rs = []" by simp
    have "turns_contiguous (x # rs)" unfolding turns_contiguous.simps dw using IH by simp
    moreover have "rr_turn_id y = rr_turn_id x" if "y \<in> set (x # rs)" for y
      using True that by auto
    then have "rr_turn_id (last (x # rs)) = rr_turn_id r" if "rr_turn_id r \<in> rr_turn_id ` set (x # rs)"
      using that last_in_set [of "x # rs"] by (metis imageE list.distinct(1))
    ultimately show ?thesis by blast
  next
    case False
    then obtain y where "y \<in> set rs" "\<not> ?P y" by blast
    then have dw: "dropWhile ?P (rs @ [r]) = dropWhile ?P rs @ [r]" by (rule dropWhile_append1)
    moreover have "rs \<noteq> []" using False by auto
    ultimately show ?thesis using IH x by auto
  qed
qed

definition groups_of :: "raw_record list \<Rightarrow> (pystr \<times> raw_record list) list \<Rightarrow> bool" where
  "groups_of rs d \<longleftrightarrow>
     concat (map snd d) = rs \<and> distinct (map fst d) \<and> fst ` set d = rr_turn_id ` set rs \<and>
     (\<forall>(k, g)\<in>set d. \<forall>x\<in>set g. rr_turn_id x = k) \<and>
     (rs \<noteq> [] \<longrightarrow> d \<noteq> [] \<and> fst (last d) = rr_turn_id (last rs))"

lemma group_by_turn_contiguous: "turns_contiguous rs \<Longrightarrow> groups_of rs (group_by_turn rs)"
proof (induction rs rule: rev_induct)
  case Nil
  then show ?case by (simp add: groups_of_def group_by_turn_def)
next
  case (snoc r rs)
  note cont = turns_contiguous_snoc [OF snoc.prems]
  define d where "d = group_by_turn rs"
  have IH: "groups_of rs d" using snoc.IH cont by (simp add: d_def)
  have step: "group_by_turn (rs @ [r]) = group_step r d" by (simp add: group_by_turn_def d_def)
  show ?case
  proof (cases "rr_turn_id r \<in> rr_turn_id ` set rs")
    case True
    then have "d \<noteq> []" and last: "fst (last d) = rr_turn_id r"
      using IH cont by (auto simp: groups_of_def)
    then obtain d' g where d: "d = d' @ [(rr_turn_id r, g)]"
      by (metis append_butlast_last_id prod.collapse)
    then have new: "rr_turn_id r \<notin> fst ` set d'" using IH by (auto simp: groups_of_def)
    then have "dict_get d (rr_turn_id r) = Some g"
      by (auto simp: d map_add_Some_iff map_of_eq_None_iff)
    then have "group_step r d = d' @ [(rr_turn_id r, g @ [r])]"
      using dict_set_last [OF new] by (simp add: group_step_def d)
    with IH True show ?thesis unfolding step by (auto simp: groups_of_def d)
  next
    case False
    then have new: "rr_turn_id r \<notin> fst ` set d" using IH by (simp add: groups_of_def)
    then have "dict_get d (rr_turn_id r) = None" by (simp add: map_of_eq_None_iff)
    then have "group_step r d = d @ [(rr_turn_id r, [r])]"
      using dict_set_new [OF new] by (simp add: group_step_def)
    with IH new False show ?thesis unfolding step by (auto simp: groups_of_def)
  qed
qed

lemma batch_loop_prefix:
  "\<exists>k. batch_loop pol surplus turns sel = sel @ concat (take k turns) \<and>
     (\<forall>t\<in>set (take k turns). rr_role ` set t = {RoleUser, RoleAssistant}) \<and>
     (int (length sel) \<le> cu_max_batch_records pol \<longrightarrow>
        int (length (sel @ concat (take k turns))) \<le> cu_max_batch_records pol)"
proof (induction turns arbitrary: sel)
  case Nil
  then show ?case by simp
next
  case (Cons t ts)
  show ?case
  proof (cases "rr_role ` set t \<noteq> {RoleUser, RoleAssistant} \<or>
      int (length sel) + int (length t) > cu_max_batch_records pol")
    case True
    then have "batch_loop pol surplus (t # ts) sel = sel" by auto
    then show ?thesis by (intro exI [of _ 0]) simp
  next
    case False
    from Cons.IH [of "sel @ t"] obtain k where k:
      "batch_loop pol surplus ts (sel @ t) = (sel @ t) @ concat (take k ts)"
      "\<forall>t\<in>set (take k ts). rr_role ` set t = {RoleUser, RoleAssistant}"
      "int (length (sel @ t)) \<le> cu_max_batch_records pol \<longrightarrow>
        int (length ((sel @ t) @ concat (take k ts))) \<le> cu_max_batch_records pol" by blast
    show ?thesis
    proof (cases "int (length (sel @ t)) \<ge> cu_min_batch_records pol \<and> int (length (sel @ t)) \<ge> max 1 surplus")
      case True
      with False show ?thesis by (intro exI [of _ 1]) (auto simp: Let_def)
    next
      case stop: False
      with False k show ?thesis by (intro exI [of _ "Suc k"]) (auto simp: Let_def)
    qed
  qed
qed

lemma concat_take_prefix: "concat (take k xss) = take (length (concat (take k xss))) (concat xss)"
  by (metis append_eq_conv_conj append_take_drop_id concat_append)

lemma groups_whole:
  assumes "groups_of us d"
  shows "whole_turns (concat (take k (map snd d))) us"
  unfolding whole_turns_def
proof (intro ballI impI)
  fix x
  assume x: "x \<in> set us" and "\<exists>z\<in>set (concat (take k (map snd d))). rr_turn_id z = rr_turn_id x"
  then obtain z g where z: "(g, z) \<in> set (take k d)" "\<exists>y\<in>set z. rr_turn_id y = rr_turn_id x"
    by (force simp: take_map)
  then have g: "g = rr_turn_id x" using assms in_set_takeD [OF z(1)] by (force simp: groups_of_def)
  from x assms obtain k' h where h: "(k', h) \<in> set d" "x \<in> set h" by (force simp: groups_of_def)
  then have "k' = rr_turn_id x" using assms by (force simp: groups_of_def)
  with h g z(1) assms have "h = z"
    by (metis (no_types, lifting) groups_of_def in_set_takeD map_of_is_SomeI option.inject)
  with z(1) h(2) show "x \<in> set (concat (take k (map snd d)))" by (force simp: take_map)
qed

text \<open>What the loop selects from grouped records: a prefix of whole turns with both roles.\<close>

definition both_roles :: "raw_record list \<Rightarrow> bool" where
  "both_roles sel \<longleftrightarrow>
     (\<forall>r\<in>set sel. rr_role ` {x \<in> set sel. rr_turn_id x = rr_turn_id r} = {RoleUser, RoleAssistant})"

lemma both_rolesI:
  assumes "\<forall>t\<in>set ts. rr_role ` set t = {RoleUser, RoleAssistant} \<and> (\<exists>key. \<forall>x\<in>set t. rr_turn_id x = key)"
  shows "both_roles (concat ts)"
  unfolding both_roles_def
proof
  fix r
  assume "r \<in> set (concat ts)"
  then obtain t where t: "t \<in> set ts" "r \<in> set t" by auto
  from bspec [OF assms t(1)] obtain key where "\<forall>x\<in>set t. rr_turn_id x = key" by (elim conjE exE)
  note key = bspec [OF this]
  have "set t \<subseteq> {x \<in> set (concat ts). rr_turn_id x = rr_turn_id r}"
  proof
    fix x
    assume x: "x \<in> set t"
    have "x \<in> set (concat ts)" using t(1) x by auto
    then show "x \<in> {x \<in> set (concat ts). rr_turn_id x = rr_turn_id r}"
      by (simp add: key [OF x] key [OF t(2)])
  qed
  then have "rr_role ` set t \<subseteq> rr_role ` {x \<in> set (concat ts). rr_turn_id x = rr_turn_id r}"
    by (rule image_mono)
  moreover have "x \<in> {RoleUser, RoleAssistant}" for x by (cases x) auto
  ultimately show "rr_role ` {x \<in> set (concat ts). rr_turn_id x = rr_turn_id r} = {RoleUser, RoleAssistant}"
    using bspec [OF assms t(1)] by blast
qed

lemma batch_loop_whole:
  assumes "turns_contiguous us" and "0 \<le> cu_max_batch_records pol"
    and "sel = batch_loop pol surplus (map snd (group_by_turn us)) []"
  shows "prefix sel us" "whole_turns sel us" "both_roles sel" "int (length sel) \<le> cu_max_batch_records pol"
proof -
  let ?d = "group_by_turn us"
  note groups = group_by_turn_contiguous [OF assms(1)]
  obtain k where k: "sel = concat (take k (map snd ?d))"
    "\<forall>t\<in>set (take k (map snd ?d)). rr_role ` set t = {RoleUser, RoleAssistant}"
    "int (length sel) \<le> cu_max_batch_records pol"
    using batch_loop_prefix [of pol surplus "map snd ?d" "[]"] assms(2,3) by auto
  have "sel = take (length sel) us"
    using concat_take_prefix [of k "map snd ?d"] groups k(1) by (simp add: groups_of_def)
  then show "prefix sel us" by (metis take_is_prefix)
  show "whole_turns sel us" unfolding k(1) by (rule groups_whole [OF groups])
  have "\<exists>key. \<forall>x\<in>set t. rr_turn_id x = key" if "t \<in> set (take k (map snd ?d))" for t
  proof -
    from that obtain key where "(key, t) \<in> set ?d" by (force simp: take_map dest: in_set_takeD)
    with groups show ?thesis by (force simp: groups_of_def)
  qed
  with k(2) show "both_roles sel" unfolding k(1) by (intro both_rolesI) blast
  show "int (length sel) \<le> cu_max_batch_records pol" by (rule k(3))
qed

lemma log_segment_last:
  assumes "log_ok records" and "0 \<le> c" and "prefix sel (drop (nat c) records)" and "sel \<noteq> []"
  shows "rr_global_sequence (last sel) = c + int (length sel)"
proof -
  let ?us = "drop (nat c) records" and ?k = "length sel - 1"
  from assms(3) obtain rest where us: "?us = sel @ rest" by (auto simp: prefix_def)
  have k: "?k < length sel" using assms(4) by (cases sel) auto
  have "length sel \<le> length ?us" using us by (metis length_append le_add1)
  with k have i: "nat c + ?k < length records" by auto
  have "last sel = ?us ! ?k" using us k assms(4) by (simp add: last_conv_nth nth_append)
  also have "\<dots> = records ! (nat c + ?k)" using i by (intro nth_drop) simp
  finally show ?thesis using assms(1,2) i k by (auto simp: log_ok_def)
qed

lemma next_batch_facts:
  assumes "next_batch pol records c cfg force = Inr (Some b)" and "log_ok records" and "0 \<le> c"
    and "turns_contiguous (drop (nat c) records)" and "0 \<le> cu_max_batch_records pol"
  shows "\<exists>sel. cb_record_ids b = map rr_record_id sel \<and> prefix sel (drop (nat c) records) \<and> sel \<noteq> [] \<and>
    whole_turns sel (drop (nat c) records) \<and> both_roles sel \<and>
    cu_min_batch_records pol \<le> int (length sel) \<and> int (length sel) \<le> cu_max_batch_records pol \<and>
    cb_old_frontier b = c \<and> cb_new_frontier b = c + int (length sel) \<and>
    (\<not> force \<longrightarrow> int (length records) - c > cu_max_records pol - cu_reserved_records pol)"
proof -
  let ?us = "drop (nat c) records" and ?lim = "cu_max_records pol - cu_reserved_records pol"
  define sel where "sel = batch_loop pol (int (length ?us) - ?lim) (map snd (group_by_turn ?us)) []"
  note us = log_sequences(2) [OF assms(2,3)]
  have b: "sel \<noteq> []" "cb_record_ids b = map rr_record_id sel" "cu_min_batch_records pol \<le> int (length sel)"
    "cb_old_frontier b = c" "cb_new_frontier b = rr_global_sequence (last sel)"
    "force \<or> int (length ?us) > ?lim"
    using assms(1) unfolding next_batch_def us Let_def sel_def [symmetric]
    by (auto simp: rbind_Inr_iff split: if_splits)
  note whole = batch_loop_whole [OF assms(4,5) sel_def]
  note last = log_segment_last [OF assms(2,3) whole(1) b(1)]
  have "?us \<noteq> []" using whole(1) b(1) by auto
  then have "int (length ?us) = int (length records) - c" using assms(3) by simp
  with b whole last assms(3) show ?thesis by (intro exI [of _ sel]) auto
qed

text \<open>
  C17. The next batch. A batch consists of a non-empty run of records directly after the curation frontier
  that is made of whole turns, every one with both a USER and an ASSISTANT record, within the limits of
  the policy; its frontier moves by exactly the number of its records. Unless forced, there is a batch
  only when the records do not fit the direct window.
\<close>

theorem next_batch_whole_turns:
  assumes "next_batch pol records c cfg force = Inr (Some b)" and "log_ok records" and "0 \<le> c"
    and "turns_contiguous (drop (nat c) records)" and "0 \<le> cu_max_batch_records pol"
  shows "\<exists>sel. cb_record_ids b = map rr_record_id sel \<and> prefix sel (drop (nat c) records) \<and> sel \<noteq> [] \<and>
    whole_turns sel (drop (nat c) records) \<and> both_roles sel \<and>
    cu_min_batch_records pol \<le> int (length sel) \<and> int (length sel) \<le> cu_max_batch_records pol \<and>
    cb_old_frontier b = c \<and> cb_new_frontier b = c + int (length sel) \<and>
    (\<not> force \<longrightarrow> int (length records) - c > cu_max_records pol - cu_reserved_records pol)"
  using assms by (rule next_batch_facts)

definition sample_curation_policy :: curation_policy where
  "sample_curation_policy =
     \<lparr>cu_max_records = 2, cu_reserved_records = 1, cu_min_batch_records = 2, cu_max_batch_records = 3\<rparr>"

lemma sample_turns_log: "log_ok sample_turns"
proof -
  have "raw_record_ok (sample_record n t r s)" if "n \<in> {1, 2, 3, 4}" "t \<in> {1, 2}" "s \<noteq> []" for n t r s
    using that by (auto intro!: sample_record_ok)
  then show ?thesis
    by (auto simp: log_ok_def sample_turns_def nth_Cons split: nat.splits) (simp_all add: sample_record_def)
qed

theorem next_batch_whole_turns_witness:
  "\<exists>b. next_batch sample_curation_policy sample_turns 0 [] False = Inr (Some b) \<and>
     cb_record_ids b = map rr_record_id (take 2 sample_turns) \<and> cb_new_frontier b = 2"
proof -
  have ex: "\<exists>b. next_batch sample_curation_policy sample_turns 0 [] False = Inr (Some b) \<and>
      cb_record_ids b = map rr_record_id (take 2 sample_turns)"
    by (simp add: next_batch_def sample_curation_policy_def sample_turns_def sample_record_def
        group_by_turn_def group_step_def curation_batch_ok_def insert_commute validated_def Let_def)
  then obtain b where b: "next_batch sample_curation_policy sample_turns 0 [] False = Inr (Some b)"
    "cb_record_ids b = map rr_record_id (take 2 sample_turns)" by blast
  have "turns_contiguous (drop (nat 0) sample_turns)"
    by (simp add: sample_turns_def sample_record_def)
  note whole = next_batch_whole_turns [OF b(1) sample_turns_log order_refl this]
  have "0 \<le> cu_max_batch_records sample_curation_policy"
    by (simp add: sample_curation_policy_def)
  from whole [OF this] obtain sel :: "raw_record list" where
    sel: "cb_record_ids b = map rr_record_id sel" "cb_new_frontier b = 0 + int (length sel)"
    by blast
  from b(2) sel(1) have "map rr_record_id sel = map rr_record_id (take 2 sample_turns)" by simp
  then have "length sel = length (take 2 sample_turns)" by (rule map_eq_imp_length_eq)
  then have "length sel = 2" by (simp add: sample_turns_def)
  with b sel(2) show ?thesis by auto
qed

text \<open>With a positive minimum the policy always answers.\<close>

lemma next_batch_total:
  assumes "log_ok records" and "0 \<le> c" and "0 < cu_min_batch_records pol"
    and "turns_contiguous (drop (nat c) records)"
  shows "\<exists>o'. next_batch pol records c cfg force = Inr o'"
proof -
  let ?us = "drop (nat c) records" and ?lim = "cu_max_records pol - cu_reserved_records pol"
  let ?sel = "batch_loop pol (int (length ?us) - ?lim) (map snd (group_by_turn ?us)) []"
  note us = log_sequences(2) [OF assms(1,2)]
  have "rr_global_sequence (last ?sel) \<ge> 1" if "?sel \<noteq> []"
  proof -
    obtain k where "?sel = concat (take k (map snd (group_by_turn ?us)))"
      using batch_loop_prefix [of pol "int (length ?us) - ?lim" "map snd (group_by_turn ?us)" "[]"] by auto
    then have "set ?sel \<subseteq> set (concat (map snd (group_by_turn ?us)))"
      by (metis append_take_drop_id concat_append set_append Un_upper1)
    moreover have "concat (map snd (group_by_turn ?us)) = ?us"
      using group_by_turn_contiguous [OF assms(4)] by (simp only: groups_of_def)
    ultimately have "set ?sel \<subseteq> set records"
      using set_drop_subset [of "nat c" records] by (simp only: order_trans)
    with that last_in_set [OF that] have "last ?sel \<in> set records" by blast
    with assms(1) show ?thesis by (auto simp: log_ok_def list_all_iff raw_record_ok_def)
  qed
  with assms(2,3) show ?thesis
    unfolding next_batch_def us Let_def
    by (auto simp: curation_batch_ok_def validated_def)
qed

subsection \<open>Responses stay within the batch\<close>

lemma resolve_candidate_iff:
  "resolve_candidate aliases c = Inr d \<longleftrightarrow>
     (\<forall>a\<in>set (mc_sources c). dict_get aliases a \<noteq> None) \<and> safe_text (mc_text c) \<and>
     d = \<lparr>cc_kind = mc_kind c, cc_text = mc_text c,
          cc_source_record_ids = map (\<lambda>a. the (dict_get aliases a)) (mc_sources c), cc_tags = []\<rparr>"
proof -
  have "rmap (\<lambda>a. case dict_get aliases a of None \<Rightarrow> Inl (BaiError ''CURATION_SOURCE_INVALID'') | Some i \<Rightarrow> Inr i) as
      = Inr ids \<longleftrightarrow> (\<forall>a\<in>set as. dict_get aliases a \<noteq> None) \<and> ids = map (\<lambda>a. the (dict_get aliases a)) as"
    for as ids
    by (induction as arbitrary: ids) (auto simp: rbind_Inr_iff split: option.splits)
  then show ?thesis
    by (auto simp: resolve_candidate_def rbind_Inr_iff)
qed

lemma response_facts:
  assumes "validate_response loads response batch aliases = Inr p"
  shows "\<exists>payload mp. loads response = Some payload \<and> parse_model_proposal payload = Some mp \<and>
    map cc_text (cp_candidates p) = map mc_text (mp_candidates mp) \<and>
    map cc_kind (cp_candidates p) = map mc_kind (mp_candidates mp) \<and>
    (\<forall>c\<in>set (cp_candidates p). curation_candidate_ok c \<and> safe_text (cc_text c) \<and>
       set (cc_source_record_ids c) \<subseteq> snd ` set aliases) \<and>
    safe_text (ou_text (cp_overview_update p)) \<and> ou_record_ids (cp_overview_update p) = cb_record_ids batch"
proof -
  from assms obtain payload mp cs where
    parse: "loads response = Some payload" "parse_model_proposal payload = Some mp" and
    cs: "rmap (resolve_candidate aliases) (mp_candidates mp) = Inr cs" and
    safe: "safe_text (mp_overview mp)" and
    p: "p = \<lparr>cp_candidates = cs, cp_overview_update =
             \<lparr>ou_text = mp_overview mp, ou_record_ids = cb_record_ids batch\<rparr>\<rparr>" "curation_proposal_ok p"
    by (auto simp: validate_response_def rbind_Inr_iff split: option.splits)
  have all: "list_all2 (\<lambda>m c. resolve_candidate aliases m = Inr c) (mp_candidates mp) cs"
    using cs by (simp add: rmap_Inr_conv)
  then have "map cc_text cs = map mc_text (mp_candidates mp)" "map cc_kind cs = map mc_kind (mp_candidates mp)"
    by (induction rule: list_all2_induct) (auto simp: resolve_candidate_iff)
  moreover have "safe_text (cc_text c) \<and> set (cc_source_record_ids c) \<subseteq> snd ` set aliases" if "c \<in> set cs" for c
  proof -
    from rmap_Inr_set [OF cs that] obtain m where m: "resolve_candidate aliases m = Inr c" ..
    have "the (dict_get aliases a) \<in> snd ` set aliases" if "dict_get aliases a \<noteq> None" for a
    proof -
      from that obtain y where y: "dict_get aliases a = Some y" by blast
      from map_of_SomeD [OF y] have "y \<in> snd ` set aliases" by (rule rev_image_eqI) simp
      with y show ?thesis by simp
    qed
    with m show ?thesis by (auto simp: resolve_candidate_iff)
  qed
  moreover have "curation_candidate_ok c" if "c \<in> set cs" for c
    using p that by (auto simp: curation_proposal_ok_def list_all_iff)
  ultimately show ?thesis using parse safe p(1) by auto
qed

text \<open>
  C18. What a model response may do. When a response is accepted, it parsed as a valid proposal whose
  texts contain no suspected credential; every source it names is an alias the prompt handed out, so
  every resolved candidate cites at least one record and only records the aliases stand for; and the
  overview is attributed to exactly the records of the batch, whatever the model wrote.
\<close>

theorem response_within_batch:
  assumes "validate_response loads response batch aliases = Inr p"
  shows "\<exists>payload mp. loads response = Some payload \<and> parse_model_proposal payload = Some mp \<and>
    map cc_text (cp_candidates p) = map mc_text (mp_candidates mp) \<and>
    map cc_kind (cp_candidates p) = map mc_kind (mp_candidates mp) \<and>
    (\<forall>c\<in>set (cp_candidates p). curation_candidate_ok c \<and> safe_text (cc_text c) \<and>
       set (cc_source_record_ids c) \<subseteq> snd ` set aliases) \<and>
    safe_text (ou_text (cp_overview_update p)) \<and> ou_record_ids (cp_overview_update p) = cb_record_ids batch"
  using assms by (rule response_facts)

definition sample_aliases :: "(pystr \<times> pystr) list" where
  "sample_aliases = [(u ''r1'', rr_record_id sample_user), (u ''r2'', rr_record_id sample_assistant)]"

definition sample_batch :: curation_batch where
  "sample_batch =
     \<lparr>cb_batch_id = cs_batch_id sample_span, cb_old_frontier = 0, cb_new_frontier = 2,
      cb_record_ids = cs_record_ids sample_span, cb_config_revision = [], cb_content_sha256 = []\<rparr>"

definition sample_response :: json where
  "sample_response = JObj
     [(u ''memory_candidates'', JArr [JObj [(u ''kind'', JStr (u ''user'')), (u ''text'', JStr (u ''tea'')),
        (u ''sources'', JArr [JStr (u ''r1'')])]]),
      (u ''overview'', JStr (u ''o''))]"

definition sample_proposal :: curation_proposal where
  "sample_proposal =
     \<lparr>cp_candidates = [\<lparr>cc_kind = KindUser, cc_text = u ''tea'',
        cc_source_record_ids = [rr_record_id sample_user], cc_tags = []\<rparr>],
      cp_overview_update = \<lparr>ou_text = u ''o'', ou_record_ids = cs_record_ids sample_span\<rparr>\<rparr>"

lemma sample_response_accepted:
  "validate_response (\<lambda>_. Some sample_response) [] sample_batch sample_aliases = Inr sample_proposal"
proof -
  have "parse_model_proposal sample_response =
      Some \<lparr>mp_candidates = [\<lparr>mc_kind = KindUser, mc_text = u ''tea'', mc_sources = [u ''r1'']\<rparr>],
            mp_overview = u ''o''\<rparr>"
    by (simp add: sample_response_def only_keys_def model_kind_def memory_kinds_def memory_kind_of_def
        model_candidate_ok_def model_proposal_ok_def bad_alias_def str_isdigit_def char_isdigit_def
        decimal_value_def decimal_zeros_def strip_eq_Nil is_space_def u_Cons Let_def)
  moreover have "safe_text (u ''tea'')" "safe_text (u ''o'')"
    by (simp_all add: safe_short)
  ultimately show ?thesis
    by (simp add: validate_response_def resolve_candidate_def sample_aliases_def sample_batch_def
        sample_proposal_def curation_proposal_ok_def curation_candidate_ok_def overview_update_ok_def
        sample_span_def)
qed

theorem response_within_batch_witness:
  "validate_response (\<lambda>_. Some sample_response) [] sample_batch sample_aliases = Inr sample_proposal \<and>
   (\<Union>c\<in>set (cp_candidates sample_proposal). set (cc_source_record_ids c)) \<subseteq> snd ` set sample_aliases"
proof -
  have "\<forall>c\<in>set (cp_candidates sample_proposal). set (cc_source_record_ids c) \<subseteq> snd ` set sample_aliases"
    using response_within_batch [OF sample_response_accepted] by blast
  with sample_response_accepted show ?thesis by blast
qed

subsection \<open>Merging keeps the document acceptable\<close>

lemma candidate_item_facts:
  assumes "candidate_item recs batch now i c = Inr m"
  shows "memory_item_ok m" "mi_text m = cc_text c" "mi_kind m = cc_kind c" "mi_status m = MemActive"
    "mi_created_by m = ByMemoryCurator" "mi_created_at m = Aware now 0" "mi_supersedes m = []"
    "validate_source_refs recs (mi_source_refs m) = Inr ()"
proof -
  let ?f = "\<lambda>i. case record_by_id recs i of None \<Rightarrow> Inl KeyExn
    | Some r \<Rightarrow> validated source_reference_ok
        \<lparr>sr_record_id = i, sr_relation = RelSupports, sr_record_sha256 = rr_content_sha256 r\<rparr>"
  from assms obtain refs where refs: "rmap ?f (cc_source_record_ids c) = Inr refs" "mi_source_refs m = refs"
    and m: "memory_item_ok m" "mi_text m = cc_text c" "mi_kind m = cc_kind c" "mi_status m = MemActive"
    "mi_created_by m = ByMemoryCurator" "mi_created_at m = Aware now 0" "mi_supersedes m = []"
    by (auto simp: candidate_item_def rbind_Inr_iff)
  have "\<exists>r. record_by_id recs (sr_record_id s) = Some r \<and> rr_content_sha256 r = sr_record_sha256 s"
    if "s \<in> set refs" for s
    using rmap_Inr_set [OF refs(1) that] by (auto split: option.splits)
  with refs(2) have "validate_source_refs recs (mi_source_refs m) = Inr ()"
    by (simp add: validate_source_refs_iff)
  with m show "memory_item_ok m" "mi_text m = cc_text c" "mi_kind m = cc_kind c" "mi_status m = MemActive"
    "mi_created_by m = ByMemoryCurator" "mi_created_at m = Aware now 0" "mi_supersedes m = []"
    "validate_source_refs recs (mi_source_refs m) = Inr ()" by simp_all
qed

definition item_key :: "(pystr \<Rightarrow> pystr) \<Rightarrow> memory_item \<Rightarrow> pystr" where
  "item_key casefold m = text_key casefold (mi_text m)"

lemma merge_loop_adds:
  "merge_loop cf recs batch now i cs ex mems = Inr ms \<Longrightarrow>
     \<exists>added. ms = mems @ added \<and>
       (\<forall>m\<in>set added. \<exists>j. \<exists>c\<in>set cs. candidate_item recs batch now j c = Inr m) \<and>
       distinct (map (item_key cf) added) \<and> item_key cf ` set added \<inter> ex = {} \<and>
       (\<lambda>c. text_key cf (cc_text c)) ` set cs \<subseteq> ex \<union> item_key cf ` set added"
proof (induction cs arbitrary: i ex mems)
  case Nil
  then show ?case by simp
next
  case (Cons c cs)
  let ?k = "text_key cf (cc_text c)"
  show ?case
  proof (cases "?k \<in> ex")
    case True
    with Cons.prems have "merge_loop cf recs batch now (Suc i) cs ex mems = Inr ms" by (simp add: Let_def)
    from Cons.IH [OF this] True show ?thesis by fastforce
  next
    case False
    with Cons.prems obtain item where item: "candidate_item recs batch now i c = Inr item"
      and rest: "merge_loop cf recs batch now (Suc i) cs (insert ?k ex) (mems @ [item]) = Inr ms"
      by (auto simp: Let_def rbind_Inr_iff)
    have key: "item_key cf item = ?k" using candidate_item_facts(2) [OF item] by (simp add: item_key_def)
    from Cons.IH [OF rest] obtain added where IH: "ms = (mems @ [item]) @ added"
      "\<forall>m\<in>set added. \<exists>j. \<exists>c\<in>set cs. candidate_item recs batch now j c = Inr m"
      "distinct (map (item_key cf) added)" "item_key cf ` set added \<inter> insert ?k ex = {}"
      "(\<lambda>c. text_key cf (cc_text c)) ` set cs \<subseteq> insert ?k ex \<union> item_key cf ` set added" by blast
    have "\<forall>m\<in>set (item # added). \<exists>j. \<exists>c'\<in>set (c # cs). candidate_item recs batch now j c' = Inr m"
    proof
      fix m
      assume "m \<in> set (item # added)"
      with item IH(2) show "\<exists>j. \<exists>c'\<in>set (c # cs). candidate_item recs batch now j c' = Inr m"
        unfolding set_simps by blast
    qed
    with IH(1,3-5) key False show ?thesis
      by (intro exI [of _ "item # added"] conjI) auto
  qed
qed

lemma record_by_id_mono:
  assumes "distinct (map rr_record_id rs)" and "set recs \<subseteq> set rs" and "record_by_id recs i = Some r"
  shows "record_by_id rs i = Some r"
  using record_by_id_Some [OF assms(3)] record_by_id_mem [OF assms(1), of r] assms(2) by auto

lemma validate_source_refs_superset:
  assumes "distinct (map rr_record_id rs)" and "set recs \<subseteq> set rs" and "validate_source_refs recs refs = Inr ()"
  shows "validate_source_refs rs refs = Inr ()"
  using assms(3) record_by_id_mono [OF assms(1,2)] by (fastforce simp: validate_source_refs_iff)

lemma validate_spans_append:
  "validate_spans rs (ss @ ts) = rbind (validate_spans rs ss) (\<lambda>_. validate_spans rs ts)"
  by (induction ss) (auto simp: Let_def)

lemma hashes_of_segment:
  assumes "distinct (map rr_record_id recs)"
    and "rmap (\<lambda>i. case record_by_id recs i of None \<Rightarrow> Inl KeyExn | Some r \<Rightarrow> Inr (rr_content_sha256 r))
      (map rr_record_id recs) = Inr hashes"
  shows "hashes = map rr_content_sha256 recs"
proof -
  have "rmap (\<lambda>i. case record_by_id recs i of None \<Rightarrow> Inl KeyExn | Some r \<Rightarrow> Inr (rr_content_sha256 r))
      (map rr_record_id recs) =
    Inr (map (\<lambda>i. rr_content_sha256 (the (record_by_id recs i))) (map rr_record_id recs))"
    by (rule rmap_total) (use record_by_id_mem [OF assms(1)] in auto)
  with assms(2) record_by_id_mem [OF assms(1)] show ?thesis by auto
qed

lemma validate_segment_span:
  assumes log: "log_ok records" and recs: "recs = take n (drop (nat c) records)" "length recs = n" and c: "0 \<le> c"
    and s: "cs_start_sequence s = c + 1" "cs_end_sequence s = c + int n"
      "cs_record_ids s = map rr_record_id recs" "cs_record_hashes s = map rr_content_sha256 recs"
  shows "validate_spans records [s] = Inr ()"
proof -
  note L = log_ok_facts [OF log]
  have sub: "set recs \<subseteq> set records"
    using recs(1) by (auto dest: in_set_takeD in_set_dropD)
  have ids: "map (record_by_id records) (cs_record_ids s) = map Some recs"
    using record_by_id_mem [OF L(1)] sub by (auto simp: s(3))
  have len: "nat c + n \<le> length records \<or> n = 0"
    using recs by auto
  have "map rr_global_sequence recs = [c + 1..c + int n]"
  proof (rule nth_equalityI)
    fix i assume "i < length (map rr_global_sequence recs)"
    then have i: "i < n" "nat c + i < length records" using recs len by auto
    then have "recs ! i = records ! (nat c + i)" using recs(1) by simp
    with i log c show "map rr_global_sequence recs ! i = [c + 1..c + int n] ! i"
      using recs(2) by (auto simp: log_ok_def nth_upto)
  qed (use recs(2) in simp)
  then show ?thesis
    unfolding validate_spans.simps Let_def unfolding ids unfolding s(1,2,4)
    by (simp add: comp_def image_iff)
qed

text \<open>An item the merge may add: active, by the curator, from a candidate, citing records of the batch.\<close>

definition curated_item :: "raw_record list \<Rightarrow> curation_candidate list \<Rightarrow> memory_item \<Rightarrow> bool" where
  "curated_item recs cs m \<longleftrightarrow>
     mi_status m = MemActive \<and> mi_created_by m = ByMemoryCurator \<and>
     (\<exists>c\<in>set cs. mi_text m = cc_text c \<and> mi_kind m = cc_kind c) \<and>
     sr_record_id ` set (mi_source_refs m) \<subseteq> rr_record_id ` set recs"

lemma merged_item_facts:
  assumes "candidate_item recs batch now j c = Inr m" and "c \<in> set cs"
  shows "curated_item recs cs m" "memory_item_ok m" "validate_source_refs recs (mi_source_refs m) = Inr ()"
proof -
  note F = candidate_item_facts [OF assms(1)]
  have "sr_record_id ` set (mi_source_refs m) \<subseteq> rr_record_id ` set recs"
  proof
    fix i
    assume "i \<in> sr_record_id ` set (mi_source_refs m)"
    then obtain r where "record_by_id recs i = Some r"
      using F(8) by (auto simp: validate_source_refs_iff)
    from record_by_id_Some [OF this] show "i \<in> rr_record_id ` set recs" by auto
  qed
  with F assms(2) show "curated_item recs cs m" "memory_item_ok m"
    "validate_source_refs recs (mi_source_refs m) = Inr ()"
    by (auto simp: curated_item_def)
qed

lemma merge_documentE:
  assumes "merge_document cf d batch recs p = Inr t"
  obtains hashes and span :: coverage_span where
    "merge_loop cf recs batch (Max (rr_created_at ` set recs)) 0 (cp_candidates p)
       (item_key cf ` {m \<in> set (md_memories d). mi_status m = MemActive}) (md_memories d) = Inr (md_memories t)"
    "rmap (\<lambda>i. case record_by_id recs i of None \<Rightarrow> Inl KeyExn | Some r \<Rightarrow> Inr (rr_content_sha256 r))
      (cb_record_ids batch) = Inr hashes"
    "cs_start_sequence span = cb_old_frontier batch + 1" "cs_end_sequence span = cb_new_frontier batch"
    "cs_record_ids span = cb_record_ids batch" "cs_record_hashes span = hashes"
    "curation_checkpoint_ok (md_curation t)" "document_frontier t = cb_new_frontier batch"
    "coverage_overview_ok (md_coverage_overview t)"
    "co_spans (md_coverage_overview t) = co_spans (md_coverage_overview d) @ [span]"
    "document_level_ok t" "md_revision t = md_revision d + 1"
    "co_text (md_coverage_overview t) = ou_text (cp_overview_update p)"
proof -
  have "(\<lambda>m. text_key cf (mi_text m)) ` set (filter (\<lambda>m. mi_status m = MemActive) (md_memories d)) =
      item_key cf ` {m \<in> set (md_memories d). mi_status m = MemActive}"
    by (auto simp: item_key_def)
  note ex = this
  from assms obtain ms hashes where
    ms: "merge_loop cf recs batch (Max (rr_created_at ` set recs)) 0 (cp_candidates p)
       (item_key cf ` {m \<in> set (md_memories d). mi_status m = MemActive}) (md_memories d) = Inr ms" and
    hashes: "rmap (\<lambda>i. case record_by_id recs i of None \<Rightarrow> Inl KeyExn | Some r \<Rightarrow> Inr (rr_content_sha256 r))
      (cb_record_ids batch) = Inr hashes" and
    ok: "curation_checkpoint_ok (md_curation t)" "coverage_overview_ok (md_coverage_overview t)"
      "document_level_ok t" and
    t: "md_memories t = ms" "md_revision t = md_revision d + 1" "document_frontier t = cb_new_frontier batch"
      "co_text (md_coverage_overview t) = ou_text (cp_overview_update p)"
      "co_spans (md_coverage_overview t) = co_spans (md_coverage_overview d) @
         [\<lparr>cs_start_sequence = cb_old_frontier batch + 1, cs_end_sequence = cb_new_frontier batch,
           cs_batch_id = cb_batch_id batch, cs_record_ids = cb_record_ids batch, cs_record_hashes = hashes\<rparr>]"
    unfolding merge_document_def Let_def ex
    by (auto simp: rbind_Inr_iff if_Inl_iff document_frontier_def)
  show ?thesis
    by (rule that [OF _ hashes _ _ _ _ ok(1) t(3) ok(2) t(5) ok(3) t(2,4)]) (simp_all add: ms t(1))
qed

lemma merge_facts:
  assumes "merge_document cf d batch recs p = Inr t" and "memory_document_ok d"
    and "validate_sources env d (Some records) w = Inr ()" and "log_ok records"
    and "recs = take n (drop (nat (document_frontier d)) records)" and "length recs = n"
    and "cb_record_ids batch = map rr_record_id recs" and "cb_old_frontier batch = document_frontier d"
    and "cb_new_frontier batch = document_frontier d + int n"
  shows "memory_document_ok t \<and> validate_sources env t (Some records) w = Inr () \<and>
    md_revision t = md_revision d + 1 \<and> document_frontier t = cb_new_frontier batch \<and>
    co_text (md_coverage_overview t) = ou_text (cp_overview_update p) \<and>
    (\<exists>added. md_memories t = md_memories d @ added \<and>
      (\<forall>m\<in>set added. curated_item recs (cp_candidates p) m) \<and> distinct (map (item_key cf) added) \<and>
      item_key cf ` set added \<inter> item_key cf ` {m \<in> set (md_memories d). mi_status m = MemActive} = {} \<and>
      (\<forall>c\<in>set (cp_candidates p). text_key cf (cc_text c) \<in>
         item_key cf ` {m \<in> set (md_memories t). mi_status m = MemActive}))"
proof -
  obtain hashes and span :: coverage_span where ms: "merge_loop cf recs batch (Max (rr_created_at ` set recs)) 0 (cp_candidates p)
      (item_key cf ` {m \<in> set (md_memories d). mi_status m = MemActive}) (md_memories d) = Inr (md_memories t)"
    and t: "rmap (\<lambda>i. case record_by_id recs i of None \<Rightarrow> Inl KeyExn | Some r \<Rightarrow> Inr (rr_content_sha256 r))
      (cb_record_ids batch) = Inr hashes"
    "cs_start_sequence span = cb_old_frontier batch + 1" "cs_end_sequence span = cb_new_frontier batch"
    "cs_record_ids span = cb_record_ids batch" "cs_record_hashes span = hashes"
    "curation_checkpoint_ok (md_curation t)" "document_frontier t = cb_new_frontier batch"
    "coverage_overview_ok (md_coverage_overview t)"
    "co_spans (md_coverage_overview t) = co_spans (md_coverage_overview d) @ [span]"
    "document_level_ok t" "md_revision t = md_revision d + 1"
    "co_text (md_coverage_overview t) = ou_text (cp_overview_update p)"
    by (rule merge_documentE [OF assms(1)])
  from merge_loop_adds [OF ms] obtain added where added: "md_memories t = md_memories d @ added"
    "\<forall>m\<in>set added. \<exists>j. \<exists>c\<in>set (cp_candidates p).
       candidate_item recs batch (Max (rr_created_at ` set recs)) j c = Inr m" and
    keys: "distinct (map (item_key cf) added)"
    "item_key cf ` set added \<inter> item_key cf ` {m \<in> set (md_memories d). mi_status m = MemActive} = {}"
    "(\<lambda>c. text_key cf (cc_text c)) ` set (cp_candidates p) \<subseteq>
       item_key cf ` {m \<in> set (md_memories d). mi_status m = MemActive} \<union> item_key cf ` set added"
    by blast
  have item: "curated_item recs (cp_candidates p) m" "memory_item_ok m"
    "validate_source_refs recs (mi_source_refs m) = Inr ()" if "m \<in> set added" for m
  proof -
    from bspec [OF added(2) that] obtain j c where
      "candidate_item recs batch (Max (rr_created_at ` set recs)) j c = Inr m" "c \<in> set (cp_candidates p)"
      by blast
    from merged_item_facts [OF this] show "curated_item recs (cp_candidates p) m" "memory_item_ok m"
      "validate_source_refs recs (mi_source_refs m) = Inr ()" .
  qed
  note L = log_ok_facts [OF assms(4)]
  have sub: "set recs \<subseteq> set records" using assms(5) by (auto dest: in_set_takeD in_set_dropD)
  have drecs: "distinct (map rr_record_id recs)"
    using L(1) unfolding assms(5) by (simp add: take_map [symmetric] drop_map [symmetric])
  have old: "validate_source_refs records (concat (map mi_source_refs (md_memories d))) = Inr ()"
    "validate_spans records (co_spans (md_coverage_overview d)) = Inr ()" "0 \<le> document_frontier d"
    using assms(2,3)
    by (auto simp: validate_sources_def memory_document_ok_def curation_checkpoint_ok_def document_frontier_def
        rbind_Inr_iff split: if_splits)
  have refs: "validate_source_refs records (concat (map mi_source_refs (md_memories t))) = Inr ()"
    using old(1) validate_source_refs_superset [OF L(1) sub item(3)]
    by (auto simp: validate_source_refs_iff added(1))
  have "validate_spans records [span] = Inr ()"
    using validate_segment_span [OF assms(4-6) old(3)] hashes_of_segment [OF drecs] t(1-5) assms(7-9) by simp
  with old(2) refs have "validate_sources env t (Some records) w = Inr ()"
    by (simp add: validate_sources_def t(9) validate_spans_append)
  moreover have "memory_document_ok t"
    using assms(2) t(6,8,10) item(2) by (auto simp: memory_document_ok_def added(1) list_all_iff)
  moreover have "set added \<subseteq> {m \<in> set (md_memories t). mi_status m = MemActive}"
    using item(1) by (auto simp: added(1) curated_item_def)
  then have "item_key cf ` {m \<in> set (md_memories d). mi_status m = MemActive} \<union> item_key cf ` set added \<subseteq>
      item_key cf ` {m \<in> set (md_memories t). mi_status m = MemActive}"
    by (auto simp: added(1))
  then have "\<forall>c\<in>set (cp_candidates p). text_key cf (cc_text c) \<in>
      item_key cf ` {m \<in> set (md_memories t). mi_status m = MemActive}"
    using order_trans [OF keys(3)] by (simp add: image_subset_iff)
  moreover have "\<forall>m\<in>set added. curated_item recs (cp_candidates p) m" using item(1) by simp
  ultimately show ?thesis using t(7,11,12) added(1) keys(1,2) by (intro conjI exI [of _ added]) assumption+
qed


lemma empty_document_facts:
  "document_frontier empty_document = 0" "md_memories empty_document = []" "md_revision empty_document = 0"
  "co_spans (md_coverage_overview empty_document) = []"
  by (simp_all add: empty_document_def document_frontier_def empty_checkpoint_def empty_overview_def)


end
