(* ===== verification/Curate.thy ===== *)
theory Curate
  imports Curation
begin

text \<open>
  \<open>memory/curation.py\<close>, the asking half: the prompt, expanded from a template with every piece located, and
  \<open>propose\<close>, which reads the archive and the document, asks the model and merges what it may. The model
  is an operation on a state of its own; a gateway is asked with a draft, a plain provider with a request.
\<close>

subsection \<open>Prompt pieces\<close>

record prompt_piece =
  pp_piece_id :: pystr
  pp_content :: pystr
  pp_sources :: "source_ref list"
  pp_trust :: trust_level

definition output_shape :: pystr where
  "output_shape = canonical_json (JObj
     [(u ''memory_candidates'', JArr [JObj
        [(u ''kind'', JStr (u ''user'')),
         (u ''text'', JStr [31616, 27905, 12289, 29420, 31435, 25104, 31435, 30340, 35760, 24518]),
         (u ''sources'', JArr [JStr (u ''r1'')])]]),
      (u ''overview'', JStr [26412, 25209, 27425, 30340, 31616, 27905, 27010, 35272])])"

definition output_empty_example :: pystr where
  "output_empty_example = canonical_json (JObj
     [(u ''memory_candidates'', JArr []),
      (u ''overview'', JStr [26412, 25209, 27425, 26410, 21457, 29616, 20540, 24471, 38271, 26399, 20445,
         23384, 30340, 26032, 20449, 24687, 12290])])"

definition render_output_contract :: pystr where
  "render_output_contract = join [10]
     [u ''memory_curation_v2 '' @ [20005, 26684, 36755, 20986, 22865, 32422, 65306],
      [21482, 36755, 20986, 19968, 20010] @ u '' JSON '' @ [23545, 35937, 65307, 19981, 35201, 36755, 20986] @
        u '' Markdown'' @ [12289, 20195, 30721, 22260, 26639, 12289, 27880, 37322, 25110, 35299, 37322, 12290],
      [22266, 23450, 32467, 26500, 65306] @ output_shape,
      [26681, 23545, 35937, 21482, 33021, 21253, 21547] @ u '' memory_candidates '' @ [19982] @
        u '' overview'' @ [65307, 20505, 36873, 21482, 33021, 21253, 21547] @ u '' kind'' @ [12289] @
        u ''text'' @ [12289] @ u ''sources'' @ [12290],
      u ''kind '' @ [21482, 33021, 26159] @ u '' user'' @ [12289] @ u ''rule'' @ [12289] @ u ''self'' @
        [12289] @ u ''event'' @ [12289] @ u ''else'' @ [65307] @ u ''sources '' @ [24517, 39035, 26159,
        24403, 21069, 21407, 22987, 35760, 24405, 20013, 30340, 38750, 31354, 30701, 21035, 21517, 25968,
        32452, 12290],
      u ''overview '' @ [24517, 39035, 26159, 38750, 31354, 30340, 31616, 27905, 25209, 27425, 27010, 35272,
        12290, 27809, 26377, 20540, 24471, 38271, 26399, 20445, 23384, 30340, 20869, 23481, 26102, 36820,
        22238, 31354, 20505, 36873, 65292, 20173, 35201, 22635, 20889] @ u '' overview'' @ [12290],
      [31354, 20505, 36873, 26102, 30340, 26368, 23567, 21512, 27861, 31034, 20363, 65306] @
        output_empty_example]"

text \<open>\<open>datetime.isoformat\<close> of an instant in UTC: microseconds only when there are any.\<close>

definition utc_isoformat :: "int \<Rightarrow> pystr" where
  "utc_isoformat t =
     (let (y, m, d) = civil_date (t div day_micros); r = t mod day_micros;
          s = r div 1000000; us = r mod 1000000
      in zero_pad 4 (nat y) @ [45] @ two_digits m @ [45] @ two_digits d @ [84] @
         two_digits (s div 3600) @ [58] @ two_digits (s div 60 mod 60) @ [58] @ two_digits (s mod 60) @
         (if us = 0 then [] else [46] @ zero_pad 6 (nat us)) @ u ''+00:00'')"

subsection \<open>Expanding the template\<close>

text \<open>
  \<open>Template.pattern\<close> after a dollar sign, in the order of its alternatives: a second dollar sign, an
  identifier, an identifier in braces, anything else; with the number of characters it takes.
\<close>

datatype placeholder = PhEscaped | PhNamed pystr | PhInvalid

definition id_start :: "nat \<Rightarrow> bool" where
  "id_start c \<longleftrightarrow> c = 95 \<or> (65 \<le> c \<and> c \<le> 90) \<or> (97 \<le> c \<and> c \<le> 122)"

definition id_char :: "nat \<Rightarrow> bool" where
  "id_char c \<longleftrightarrow> id_start c \<or> (48 \<le> c \<and> c \<le> 57)"

fun match_identifier :: "pystr \<Rightarrow> pystr" where
  "match_identifier [] = []"
| "match_identifier (c # cs) = (if id_start c then c # takeWhile id_char cs else [])"

fun match_placeholder :: "pystr \<Rightarrow> placeholder \<times> nat" where
  "match_placeholder [] = (PhInvalid, 0)"
| "match_placeholder (c # cs) =
     (if c = 36 then (PhEscaped, 1)
      else if match_identifier (c # cs) \<noteq> []
      then (PhNamed (match_identifier (c # cs)), length (match_identifier (c # cs)))
      else if c = 123 \<and> match_identifier cs \<noteq> [] \<and>
              take 1 (drop (length (match_identifier cs)) cs) = [125]
      then (PhNamed (match_identifier cs), length (match_identifier cs) + 2)
      else (PhInvalid, 0))"

record prompt_builder =
  pb_text :: pystr
  pb_positioned :: "(prompt_piece \<times> int \<times> int) list"
  pb_cursor :: int

definition add_piece :: "prompt_piece \<Rightarrow> prompt_builder \<Rightarrow> prompt_builder" where
  "add_piece p b =
     (if pp_content p = [] then b
      else (let cursor = pb_cursor b + int (length (pp_content p))
            in \<lparr>pb_text = pb_text b @ pp_content p,
                pb_positioned = pb_positioned b @ [(p, pb_cursor b, cursor)], pb_cursor = cursor\<rparr>))"

definition template_piece :: "source_ref \<Rightarrow> pystr \<Rightarrow> pystr \<Rightarrow> prompt_piece" where
  "template_piece src pid content =
     \<lparr>pp_piece_id = u ''template:'' @ pid, pp_content = content, pp_sources = [src],
      pp_trust = TrustedInstruction\<rparr>"

function expand_loop ::
  "(pystr \<times> prompt_piece list) list \<Rightarrow> source_ref \<Rightarrow> nat \<Rightarrow> pystr \<Rightarrow> prompt_builder \<Rightarrow> prompt_builder result"
where
  "expand_loop values' src i s b =
     (case dropWhile (\<lambda>c. c \<noteq> 36) s of
        [] \<Rightarrow> Inr (add_piece (template_piece src (u ''tail'') s) b)
      | _ # after \<Rightarrow>
          (let b1 = add_piece (template_piece src (nat_str i @ u '':literal'') (takeWhile (\<lambda>c. c \<noteq> 36) s)) b;
               (ph, n) = match_placeholder after
           in case ph of
                PhEscaped \<Rightarrow> expand_loop values' src (Suc i) (drop n after)
                  (add_piece (template_piece src (nat_str i @ u '':escaped'') [36]) b1)
              | PhNamed name \<Rightarrow>
                  (case dict_get values' name of
                     None \<Rightarrow> Inl KeyExn
                   | Some pieces \<Rightarrow> expand_loop values' src (Suc i) (drop n after) (fold add_piece pieces b1))
              | PhInvalid \<Rightarrow> Inl ValueExn))"
  by pat_completeness auto
termination
proof (relation "measure (\<lambda>(v, src, i, s, b). length s)", goal_cases)
  case 1
  show ?case by simp
next
  case (2 v src i s b x after)
  then have "length (x # after) \<le> length s" by (metis length_dropWhile_le)
  then show ?case by simp
next
  case (3 v src i s b x after)
  then have "length (x # after) \<le> length s" by (metis length_dropWhile_le)
  then show ?case by simp
qed

declare expand_loop.simps [simp del]

definition expand_prompt ::
  "pystr \<Rightarrow> (pystr \<times> prompt_piece list) list \<Rightarrow> source_ref \<Rightarrow>
   (pystr \<times> (prompt_piece \<times> int \<times> int) list) result"
where
  "expand_prompt template values' src =
     rbind (expand_loop values' src 0 template \<lparr>pb_text = [], pb_positioned = [], pb_cursor = 0\<rparr>)
       (\<lambda>b. Inr (pb_text b, pb_positioned b))"

text \<open>\<open>string.Template.substitute\<close>, the reference: one pass over the characters.\<close>

function template_substitute :: "(pystr \<Rightarrow> pystr option) \<Rightarrow> pystr \<Rightarrow> pystr option" where
  "template_substitute m s =
     (case s of
        [] \<Rightarrow> Some []
      | c # cs \<Rightarrow>
          if c \<noteq> 36 then map_option (Cons c) (template_substitute m cs)
          else (case match_placeholder cs of
                  (PhEscaped, n) \<Rightarrow> map_option (Cons 36) (template_substitute m (drop n cs))
                | (PhNamed name, n) \<Rightarrow>
                    Option.bind (m name) (\<lambda>v. map_option (append v) (template_substitute m (drop n cs)))
                | (PhInvalid, _) \<Rightarrow> None))"
  by pat_completeness auto
termination
  by (relation "measure (\<lambda>(m, s). length s)") auto

declare template_substitute.simps [simp del]

text \<open>Located pieces that follow one another from a position on.\<close>

fun pieces_tile :: "int \<Rightarrow> (prompt_piece \<times> int \<times> int) list \<Rightarrow> bool" where
  "pieces_tile c [] = True"
| "pieces_tile c ((p, a, e) # ps) =
     (a = c \<and> pp_content p \<noteq> [] \<and> e = c + int (length (pp_content p)) \<and> pieces_tile e ps)"

definition pieces_text :: "prompt_piece list \<Rightarrow> pystr" where
  "pieces_text ps = concat (map pp_content ps)"

definition located_text :: "(prompt_piece \<times> int \<times> int) list \<Rightarrow> pystr" where
  "located_text ps = pieces_text (map fst ps)"

definition used_pieces :: "prompt_builder \<Rightarrow> prompt_piece set" where
  "used_pieces b = fst ` set (pb_positioned b)"

definition pb_ok :: "prompt_builder \<Rightarrow> bool" where
  "pb_ok b \<longleftrightarrow>
     pb_text b = located_text (pb_positioned b) \<and> pb_cursor b = int (length (pb_text b)) \<and>
     pieces_tile 0 (pb_positioned b)"

text \<open>A piece of the template itself, or one of the given values.\<close>

definition piece_origin :: "(pystr \<times> prompt_piece list) list \<Rightarrow> source_ref \<Rightarrow> prompt_piece \<Rightarrow> bool" where
  "piece_origin values' src p \<longleftrightarrow>
     pp_sources p = [src] \<and> pp_trust p = TrustedInstruction \<or>
     (\<exists>name pieces. dict_get values' name = Some pieces \<and> p \<in> set pieces)"

lemma pieces_text_simps [simp]:
  "pieces_text [] = []" "pieces_text (p # ps) = pp_content p @ pieces_text ps"
  "pieces_text (ps @ qs) = pieces_text ps @ pieces_text qs"
  by (simp_all add: pieces_text_def)

lemma located_text_simps [simp]:
  "located_text [] = []" "located_text (x # xs) = pp_content (fst x) @ located_text xs"
  "located_text (xs @ ys) = located_text xs @ located_text ys"
  by (simp_all add: located_text_def)

lemma pieces_tile_snoc:
  "pieces_tile c (ps @ [(p, a, e)]) \<longleftrightarrow>
     pieces_tile c ps \<and> a = c + int (length (located_text ps)) \<and> pp_content p \<noteq> [] \<and>
     e = a + int (length (pp_content p))"
proof (induction ps arbitrary: c)
  case Nil
  then show ?case by auto
next
  case (Cons x ps)
  obtain q b f where x: "x = (q, b, f)" by (cases x)
  show ?case
    unfolding append_Cons x pieces_tile.simps Cons.IH by (auto simp: algebra_simps)
qed

lemma pieces_tile_slice:
  "pieces_tile (int (length pre)) ps \<Longrightarrow> (p, a, e) \<in> set ps \<Longrightarrow> slice (pre @ located_text ps) a e = pp_content p"
proof (induction ps arbitrary: pre)
  case Nil
  then show ?case by simp
next
  case (Cons x ps)
  obtain q b f where x: "x = (q, b, f)" by (cases x)
  show ?case
  proof (cases "(p, a, e) = x")
    case True
    with Cons.prems x show ?thesis by (simp add: slice_def)
  next
    case False
    with Cons.prems x have "(p, a, e) \<in> set ps" "pieces_tile (int (length (pre @ pp_content q))) ps" by auto
    from Cons.IH [OF this(2,1)] show ?thesis by (simp add: x)
  qed
qed

lemma add_piece_text [simp]: "pb_text (add_piece p b) = pb_text b @ pp_content p"
  by (simp add: add_piece_def Let_def)

lemma add_piece_ok: "pb_ok b \<Longrightarrow> pb_ok (add_piece p b)"
  by (simp add: pb_ok_def add_piece_def Let_def pieces_tile_snoc)

lemma add_piece_used: "used_pieces (add_piece p b) \<subseteq> insert p (used_pieces b)"
  by (auto simp: add_piece_def Let_def used_pieces_def)

lemma fold_add_piece:
  "pb_ok b \<Longrightarrow> pb_ok (fold add_piece ps b) \<and> pb_text (fold add_piece ps b) = pb_text b @ pieces_text ps \<and>
     used_pieces (fold add_piece ps b) \<subseteq> set ps \<union> used_pieces b"
proof (induction ps arbitrary: b)
  case Nil
  then show ?case by simp
next
  case (Cons p ps)
  from Cons.IH [OF add_piece_ok [OF Cons.prems, of p]] add_piece_used [of p b] show ?case
    by simp blast
qed

lemma substitute_literal:
  "36 \<notin> set xs \<Longrightarrow> template_substitute m (xs @ s) = map_option (append xs) (template_substitute m s)"
proof (induction xs)
  case Nil
  then show ?case by (cases "template_substitute m s") simp_all
next
  case (Cons x xs)
  then show ?case
    by (subst template_substitute.simps) (cases "template_substitute m s"; simp)
qed

definition values_text :: "(pystr \<times> prompt_piece list) list \<Rightarrow> pystr \<Rightarrow> pystr option" where
  "values_text values' name = map_option pieces_text (dict_get values' name)"

text \<open>What expanding the rest of a template adds to the builder, or how it fails.\<close>

definition expands_to ::
  "(pystr \<times> prompt_piece list) list \<Rightarrow> source_ref \<Rightarrow> pystr option \<Rightarrow> prompt_builder \<Rightarrow> prompt_builder result \<Rightarrow> bool"
where
  "expands_to values' src out b r =
     (case out of
        None \<Rightarrow> r = Inl KeyExn \<or> r = Inl ValueExn
      | Some t \<Rightarrow> (\<exists>b'. r = Inr b' \<and> pb_ok b' \<and> pb_text b' = pb_text b @ t \<and>
          used_pieces b' \<subseteq> Collect (piece_origin values' src) \<union> used_pieces b))"

lemma expands_to_step:
  assumes "expands_to values' src out b' r" and "pb_text b' = pb_text b @ x"
    and "used_pieces b' \<subseteq> Collect (piece_origin values' src) \<union> used_pieces b"
  shows "expands_to values' src (map_option (append x) out) b r"
  using assms by (cases out) (simp_all add: expands_to_def, blast)

lemma template_piece_origin [simp]: "piece_origin values' src (template_piece src i c)"
  by (simp add: piece_origin_def template_piece_def)

lemma template_piece_content [simp]: "pp_content (template_piece src i c) = c"
  by (simp add: template_piece_def)

lemma substitute_dollar:
  "match_placeholder after = (ph, n) \<Longrightarrow>
     template_substitute m (36 # after) = (case ph of
        PhEscaped \<Rightarrow> map_option (append [36]) (template_substitute m (drop n after))
      | PhNamed name \<Rightarrow> Option.bind (m name) (\<lambda>v. map_option (append v) (template_substitute m (drop n after)))
      | PhInvalid \<Rightarrow> None)"
  by (subst template_substitute.simps) (auto split: placeholder.splits intro!: option.map_cong)

text \<open>The end of the template, and the literal before a placeholder.\<close>

lemma expand_tail:
  assumes "pb_ok b" and "dropWhile (\<lambda>c. c \<noteq> 36) s = []"
  shows "expands_to values' src (template_substitute m s) b (expand_loop values' src i s b)"
proof -
  have r: "expand_loop values' src i s b = Inr (add_piece (template_piece src (u ''tail'') s) b)"
    unfolding expand_loop.simps [of values' src i s b] assms(2) by simp
  have "36 \<notin> set s" using assms(2) by auto
  then have "template_substitute m s = Some s"
    using substitute_literal [of s m "[]"] by (simp add: template_substitute.simps)
  moreover have "used_pieces (add_piece (template_piece src (u ''tail'') s) b) \<subseteq>
      Collect (piece_origin values' src) \<union> used_pieces b"
    using add_piece_used [of "template_piece src (u ''tail'') s" b] by auto
  ultimately show ?thesis
    using add_piece_ok [OF assms(1)] by (simp add: r expands_to_def)
qed

lemma expand_template_piece:
  assumes "pb_ok b" and "expands_to values' src out (add_piece (template_piece src i x) b) r"
  shows "expands_to values' src (map_option (append x) out) b r"
proof (rule expands_to_step [OF assms(2)])
  show "used_pieces (add_piece (template_piece src i x) b) \<subseteq> Collect (piece_origin values' src) \<union> used_pieces b"
    using add_piece_used [of "template_piece src i x" b] by auto
qed simp

lemma expand_value_pieces:
  assumes "pb_ok b" and "dict_get values' name = Some pieces"
    and "expands_to values' src out (fold add_piece pieces b) r"
  shows "expands_to values' src (map_option (append (pieces_text pieces)) out) b r"
proof (rule expands_to_step [OF assms(3)])
  have "set pieces \<subseteq> Collect (piece_origin values' src)"
    using assms(2) by (auto simp: piece_origin_def)
  then show "used_pieces (fold add_piece pieces b) \<subseteq> Collect (piece_origin values' src) \<union> used_pieces b"
    using fold_add_piece [OF assms(1), of pieces] by blast
qed (simp add: fold_add_piece [OF assms(1)])

lemma expand_loop_expands:
  "pb_ok b \<Longrightarrow> expands_to values' src (template_substitute (values_text values') s) b (expand_loop values' src i s b)"
proof (induction values' src i s b rule: expand_loop.induct)
  case (1 values' src i s b)
  let ?m = "values_text values'" and ?E = "expands_to values' src"
  define lit where "lit = takeWhile (\<lambda>c. c \<noteq> 36) s"
  define b1 where "b1 = add_piece (template_piece src (nat_str i @ u '':literal'') lit) b"
  have b1: "pb_ok b1" unfolding b1_def by (rule add_piece_ok [OF "1.prems"])
  note loop = expand_loop.simps [of values' src i s b, folded lit_def, folded b1_def]
  show ?case
  proof (cases "dropWhile (\<lambda>c. c \<noteq> 36) s")
    case Nil
    then show ?thesis by (rule expand_tail [OF "1.prems"])
  next
    case (Cons d after)
    then have d: "d = 36" using hd_dropWhile [of "\<lambda>c. c \<noteq> 36" s] by simp
    have lit: "36 \<notin> set lit" by (auto simp: lit_def dest: set_takeWhileD)
    have s: "s = lit @ 36 # after"
      using takeWhile_dropWhile_id [of "\<lambda>c. c \<noteq> 36" s] unfolding Cons d lit_def by (rule sym)
    obtain ph n where ph: "match_placeholder after = (ph, n)" by (cases "match_placeholder after")
    note head = substitute_dollar [OF ph, of ?m]
    note IH = "1.IH" [OF Cons b1_def [unfolded lit_def] ph [symmetric] refl]
    have "?E (template_substitute ?m (36 # after)) b1 (expand_loop values' src i s b)"
    proof (cases ph)
      case PhEscaped
      from IH(1) [OF this add_piece_ok [OF b1]] show ?thesis
        unfolding head by (simp add: PhEscaped loop Cons ph expand_template_piece [OF b1])
    next
      case (PhNamed name)
      show ?thesis
      proof (cases "dict_get values' name")
        case None
        then show ?thesis
          by (simp add: head PhNamed loop Cons ph values_text_def expands_to_def)
      next
        case (Some pieces)
        then have "?m name = Some (pieces_text pieces)" by (simp add: values_text_def)
        with IH(2) [OF PhNamed Some] fold_add_piece [OF b1] Some show ?thesis
          unfolding head by (simp add: PhNamed loop Cons ph expand_value_pieces [OF b1 Some])
      qed
    next
      case PhInvalid
      then show ?thesis by (simp add: head loop Cons ph expands_to_def)
    qed
    moreover have "template_substitute ?m s = map_option (append lit) (template_substitute ?m (36 # after))"
      using substitute_literal [OF lit, of ?m "36 # after"] s by simp
    ultimately show ?thesis
      using expand_template_piece [OF "1.prems"] by (simp add: b1_def)
  qed
qed

text \<open>
  C20. The prompt template is expanded exactly as \<open>string.Template.substitute\<close> expands it: the text is
  the same, and where \<open>substitute\<close> fails the expansion raises \<open>KeyError\<close> or \<open>ValueError\<close>. The located
  pieces tile the text, each reads back from it at its own position, and each is a trusted piece of the
  template or an unchanged piece of one of the given values.
\<close>

theorem expand_prompt_exact:
  "case template_substitute (values_text values') template of
     None \<Rightarrow> expand_prompt template values' src \<in> {Inl KeyExn, Inl ValueExn}
   | Some t \<Rightarrow> \<exists>ps. expand_prompt template values' src = Inr (t, ps) \<and> pieces_tile 0 ps \<and> located_text ps = t \<and>
       (\<forall>(p, a, e)\<in>set ps. slice t a e = pp_content p \<and> piece_origin values' src p)"
proof -
  let ?b = "\<lparr>pb_text = [], pb_positioned = [], pb_cursor = 0\<rparr>"
  have b: "pb_ok ?b" "pb_text ?b = []" "used_pieces ?b = {}"
    by (simp_all add: pb_ok_def used_pieces_def)
  show ?thesis
  proof (cases "template_substitute (values_text values') template")
    case None
    with expand_loop_expands [OF b(1), of values' src template 0] show ?thesis
      by (auto simp: expands_to_def expand_prompt_def)
  next
    case (Some t)
    with expand_loop_expands [OF b(1), of values' src template 0] b(2,3) obtain b' where b':
      "expand_loop values' src 0 template ?b = Inr b'" "pb_ok b'" "pb_text b' = t"
      "used_pieces b' \<subseteq> Collect (piece_origin values' src)"
      by (auto simp: expands_to_def)
    have "slice t a e = pp_content p" if "(p, a, e) \<in> set (pb_positioned b')" for p a e
      using pieces_tile_slice [of "[]" "pb_positioned b'" p a e] that b'(2,3) by (simp add: pb_ok_def)
    moreover have "piece_origin values' src p" if "(p, a, e) \<in> set (pb_positioned b')" for p a e
      using b'(4) that by (force simp: used_pieces_def)
    ultimately show ?thesis
      using b' Some by (auto simp: expand_prompt_def pb_ok_def)
  qed
qed

definition sample_values :: "(pystr \<times> prompt_piece list) list" where
  "sample_values =
     [(u ''name'', [\<lparr>pp_piece_id = u ''v'', pp_content = u ''$x'', pp_sources = [sample_source],
                     pp_trust = UntrustedData\<rparr>])]"

theorem expand_prompt_exact_witness:
  "\<exists>ps. expand_prompt (u ''a$$${name}!'') sample_values sample_source = Inr (u ''a$$x!'', ps) \<and>
     located_text ps = u ''a$$x!''"
proof -
  have "template_substitute (values_text sample_values) (u ''a$$${name}!'') = Some (u ''a$$x!'')"
    by (simp add: template_substitute.simps sample_values_def values_text_def id_start_def id_char_def u_Cons)
  with expand_prompt_exact [of "u ''a$$${name}!''" sample_values sample_source] show ?thesis by auto
qed

subsection \<open>The parts of a proposal\<close>

record curation_service =
  cv_env :: memory_env
  cv_policy :: curation_policy
  cv_is_gateway :: bool
  cv_curator_persona :: pystr
  cv_prompt_template :: pystr
  cv_config_revision :: pystr
  cv_temporal_policy :: "temporal_policy option"
  cv_renderer :: "boundary_renderer option"
  cv_curator_asset :: "config_asset option"
  cv_prompt_asset :: "config_asset option"
  cv_max_attempts :: int

definition semantic_records :: "raw_record list \<Rightarrow> raw_record list" where
  "semantic_records rs = sort_key (\<lambda>r. (rr_created_at r, rr_global_sequence r)) rs"

definition record_alias :: "nat \<Rightarrow> pystr" where
  "record_alias i = u ''r'' @ nat_str (Suc i)"

definition source_aliases :: "raw_record list \<Rightarrow> (pystr \<times> pystr) list" where
  "source_aliases rs = map (\<lambda>(i, r). (record_alias i, rr_record_id r)) (zip [0..<length rs] rs)"

definition batch_entries :: "projector \<Rightarrow> raw_record list \<Rightarrow> temporal_entry list result" where
  "batch_entries pj rs =
     rmap (\<lambda>(i, r). project_raw pj r (Some (canonical_json (JObj
             [(u ''source_alias'', JStr (record_alias i)),
              (u ''time'', JStr (utc_isoformat (rr_created_at r))),
              (u ''role'', JStr (role_value (rr_role r))),
              (u ''text'', JStr (rr_content r))])))) (zip [0..<length rs] rs)"

definition span_json :: "temporal_span \<Rightarrow> jdict" where
  "span_json s =
     [(u ''start'', JStr (utc_isoformat (ts_start s))), (u ''end'', JStr (utc_isoformat (ts_end s)))]"

definition memory_entry :: "projector \<Rightarrow> memory_item \<Rightarrow> temporal_entry result" where
  "memory_entry pj m =
     rbind (project_memory pj m None None) (\<lambda>e.
       Inr (e\<lparr>te_body := canonical_json (JObj
              [(u ''kind'', JStr (memory_kind_value (mi_kind m))), (u ''text'', JStr (mi_text m)),
               (u ''status'', JStr (memory_status_value (mi_status m))),
               (u ''source_time'', JObj (span_json (te_span e)))])\<rparr>))"

definition memory_entries :: "projector \<Rightarrow> memory_item list \<Rightarrow> temporal_entry list result" where
  "memory_entries pj ms =
     rbind (rmap (memory_entry pj) ms) (\<lambda>es.
       Inr (sort_key (\<lambda>e. (ts_start (te_span e), ts_end (te_span e), te_entry_id e)) es))"

definition overview_block :: "projector \<Rightarrow> coverage_overview \<Rightarrow> (temporal_entry option \<times> pystr) result" where
  "overview_block pj c =
     rbind (project_overview pj c None None) (\<lambda>entry.
       let body = canonical_json (JObj
             [(u ''text'', JStr (co_text c)),
              (u ''coverage'', case entry of None \<Rightarrow> JNull
                 | Some e \<Rightarrow> JObj (span_json (te_span e) @
                     [(u ''record_count'',
                       JInt (int (sum_list (map (\<lambda>s. length (cs_record_ids s)) (co_spans c)))))]))])
       in Inr (map_option (te_body_update (\<lambda>_. body)) entry, body))"

definition asset_or_file ::
  "config_asset option \<Rightarrow> pystr \<Rightarrow> pystr \<Rightarrow> pystr \<Rightarrow> pystr \<Rightarrow> source_ref result"
where
  "asset_or_file asset source_id path content revision =
     (case asset of
        Some a \<Rightarrow> source_from_asset a
      | None \<Rightarrow> validated source_ref_ok
          \<lparr>sf_source_kind = SrcConfigFile, sf_source_id = source_id, sf_path = Some path,
           sf_content_sha256 = Some (content_hash content), sf_revision = Some revision,
           sf_entity_ids = [], sf_producer = u ''config_loader''\<rparr>)"

definition history_pieces ::
  "temporal_policy option \<Rightarrow> pystr \<Rightarrow> temporal_entry list \<Rightarrow> pystr \<Rightarrow> source_ref list \<Rightarrow> prompt_piece list result"
where
  "history_pieces policy block entries empty_text empty_sources =
     (if entries = [] then
        Inr [\<lparr>pp_piece_id = block @ u '':empty'', pp_content = empty_text, pp_sources = empty_sources,
              pp_trust = UntrustedData\<rparr>]
      else case policy of
        None \<Rightarrow> Inr (concat (map (\<lambda>(i, e).
            (if i = 0 then [] else
              [\<lparr>pp_piece_id = block @ u '':'' @ te_entry_id e @ u '':separator'', pp_content = [10],
                pp_sources = te_sources e, pp_trust = te_trust e\<rparr>]) @
            [\<lparr>pp_piece_id = block @ u '':'' @ te_entry_id e @ u '':body'', pp_content = te_body e,
              pp_sources = te_sources e, pp_trust = te_trust e\<rparr>]) (zip [0..<length entries] entries)))
      | Some p \<Rightarrow>
          rbind (annotate_history entries p [10]) (\<lambda>h.
            Inr (map (\<lambda>f. \<lparr>pp_piece_id = block @ u '':'' @ af_fragment_id f, pp_content = af_content f,
                           pp_sources = af_sources f, pp_trust = af_trust f\<rparr>) (ah_fragments h))))"

definition bounded_pieces ::
  "boundary_renderer option \<Rightarrow> pystr \<Rightarrow> prompt_piece list \<Rightarrow> prompt_piece list result"
where
  "bounded_pieces renderer block pieces =
     (case renderer of
        None \<Rightarrow> Inr pieces
      | Some r \<Rightarrow>
          rbind (wrap_block r block
            (map (\<lambda>p. \<lparr>px_piece_id = pp_piece_id p, px_content = pp_content p, px_sources = pp_sources p,
                       px_trust = pp_trust p, px_entry_id = Some (pp_piece_id p), px_kind = FragBody\<rparr>) pieces))
            (\<lambda>(_, fragments). Inr (map (\<lambda>f. \<lparr>pp_piece_id = af_fragment_id f, pp_content = af_content f,
                                 pp_sources = af_sources f, pp_trust = af_trust f\<rparr>) fragments)))"

definition scalar_piece :: "string \<Rightarrow> pystr \<Rightarrow> source_ref list \<Rightarrow> pystr \<times> prompt_piece list" where
  "scalar_piece name content sources =
     (u name, [\<lparr>pp_piece_id = u name, pp_content = content, pp_sources = sources,
                pp_trust = TrustedInstruction\<rparr>])"

subsection \<open>The prompt and the request\<close>

record curation_call =
  cl_request :: completion_request
  cl_system :: "fragment list option"
  cl_persona_source :: source_ref
  cl_pieces :: "(prompt_piece \<times> int \<times> int) list"

definition long_term_source :: "time_ser \<Rightarrow> memory_document \<Rightarrow> source_ref result" where
  "long_term_source ser d =
     validated source_ref_ok
       \<lparr>sf_source_kind = SrcDataFile, sf_source_id = u ''memory:document:'' @ int_str (md_revision d),
        sf_path = Some (u ''data/memory/long_term.yaml''),
        sf_content_sha256 = Some (content_hash (canonical_json (dump_document ser d))),
        sf_revision = Some (int_str (md_revision d)), sf_entity_ids = map mi_memory_id (md_memories d),
        sf_producer = u ''long_term_store''\<rparr>"

definition contract_source :: "pystr \<Rightarrow> curation_batch \<Rightarrow> source_ref result" where
  "contract_source revision b =
     validated source_ref_ok
       \<lparr>sf_source_kind = SrcGenerated,
        sf_source_id = u ''generated:curation-output-contract:'' @ cb_batch_id b, sf_path = None,
        sf_content_sha256 = Some (content_hash render_output_contract), sf_revision = Some revision,
        sf_entity_ids = cb_batch_id b # cb_record_ids b, sf_producer = u ''curation_schema_renderer''\<rparr>"

definition prompt_values ::
  "curation_service \<Rightarrow> curation_batch \<Rightarrow> memory_document \<Rightarrow> temporal_entry list \<Rightarrow> temporal_entry list \<Rightarrow>
   temporal_entry option \<Rightarrow> pystr \<Rightarrow> source_ref \<Rightarrow> source_ref \<Rightarrow> (pystr \<times> prompt_piece list) list result"
where
  "prompt_values svc b d batch memories overview overview_body prompt_source persona_source =
     (let policy = cv_temporal_policy svc; renderer = cv_renderer svc
      in rbind (long_term_source (cd_ser (me_codec (cv_env svc))) d) (\<lambda>document_source.
         rbind (contract_source (cv_config_revision svc) b) (\<lambda>contract.
         rbind (history_pieces policy (u ''batch_records'') batch (u ''[]'') []) (\<lambda>v1.
         rbind (history_pieces policy (u ''existing_memories'') memories (u ''[]'') [document_source]) (\<lambda>v2.
         rbind (history_pieces policy (u ''current_overview'')
                  (case overview of None \<Rightarrow> [] | Some e \<Rightarrow> [e]) overview_body [document_source]) (\<lambda>v3.
         rbind (bounded_pieces renderer (u ''batch_records'') v1) (\<lambda>w1.
         rbind (bounded_pieces renderer (u ''existing_memories'') v2) (\<lambda>w2.
         rbind (bounded_pieces renderer (u ''current_overview'') v3) (\<lambda>w3.
         Inr [(u ''batch_records'', w1), (u ''existing_memories'', w2), (u ''current_overview'', w3),
              scalar_piece ''curator_persona'' (cv_curator_persona svc) [persona_source],
              scalar_piece ''untrusted_boundary''
                (case renderer of Some r \<Rightarrow> instruction_text r | None \<Rightarrow> u ''untrusted_data'')
                [case renderer of Some r \<Rightarrow> br_config_source r | None \<Rightarrow> prompt_source],
              scalar_piece ''output_schema'' render_output_contract [contract]])))))))))"

definition curation_turn :: "pystr option \<Rightarrow> curation_batch \<Rightarrow> pystr" where
  "curation_turn turn_id b =
     (if falsy turn_id then u ''curation-'' @ cb_batch_id b else the turn_id)"

definition prepare_call ::
  "curation_service \<Rightarrow> pystr option \<Rightarrow> curation_batch \<Rightarrow> memory_document \<Rightarrow> raw_record list \<Rightarrow>
   raw_record list \<Rightarrow> curation_call result"
where
  "prepare_call svc turn_id b d records semantic =
     rbind (projector_from_records records) (\<lambda>pj.
     rbind (batch_entries pj semantic) (\<lambda>batch.
     rbind (memory_entries pj (md_memories d)) (\<lambda>memories.
     rbind (overview_block pj (md_coverage_overview d)) (\<lambda>(overview, overview_body).
     rbind (asset_or_file (cv_prompt_asset svc) (u ''prompt:memory_curation'')
              (u ''config/prompts/memory_curation.md'') (cv_prompt_template svc) (cv_config_revision svc))
       (\<lambda>prompt_source.
     rbind (asset_or_file (cv_curator_asset svc) (u ''persona:memory_curator'')
              (u ''config/personas/memory_curator.md'') (cv_curator_persona svc) (cv_config_revision svc))
       (\<lambda>persona_source.
     rbind (prompt_values svc b d batch memories overview overview_body prompt_source persona_source) (\<lambda>values'.
     rbind (case expand_prompt (cv_prompt_template svc) values' prompt_source of
              Inl e \<Rightarrow> Inl (if e = KeyExn \<or> e = ValueExn then BaiError ''PROMPT_TEMPLATE_INVALID'' else e)
            | Inr x \<Rightarrow> Inr x) (\<lambda>(prompt, pieces).
     rbind (case cv_renderer svc of
              None \<Rightarrow> Inr None
            | Some r \<Rightarrow> rbind (compose_system_instruction r (cv_curator_persona svc) persona_source
                (u ''curation-system'')) (\<lambda>x. Inr (Some x))) (\<lambda>system.
     Inr \<lparr>cl_request =
            \<lparr>cq_flow_id = u ''curation-'' @ cb_batch_id b, cq_turn_id = curation_turn turn_id b,
             cq_messages =
               [\<lparr>ms_role = u ''system'',
                 ms_content = (case system of Some (t, _) \<Rightarrow> t | None \<Rightarrow> cv_curator_persona svc),
                 ms_trust = TrustedInstruction, ms_tool_call_id = None, ms_tool_calls = []\<rparr>,
                \<lparr>ms_role = u ''user'', ms_content = prompt, ms_trust = UntrustedData,
                 ms_tool_call_id = None, ms_tool_calls = []\<rparr>],
             cq_tool_definitions = [], cq_model_profile_id = u ''memory_curator'',
             cq_deadline_seconds = None, cq_metadata = []\<rparr>,
          cl_system = map_option snd system, cl_persona_source = persona_source,
          cl_pieces = pieces\<rparr>)))))))))"

subsection \<open>Asking the model\<close>

definition included_part ::
  "pystr \<Rightarrow> nat \<Rightarrow> trust_level \<Rightarrow> pystr \<Rightarrow> int \<times> int \<Rightarrow> pystr \<Rightarrow> source_ref list \<Rightarrow> request_part"
where
  "included_part pid order trust pointer span content sources =
     \<lparr>rp_part_id = pid, rp_order = int order, rp_participation = PartIncluded, rp_trust = trust,
      rp_pointer = Some pointer, rp_text_span = Some span, rp_content = content, rp_sources = sources,
      rp_exclusion_reason = None\<rparr>"

definition system_parts :: "curation_service \<Rightarrow> curation_batch \<Rightarrow> curation_call \<Rightarrow> request_part list" where
  "system_parts svc b c =
     (let pid = u ''curation:'' @ cb_batch_id b @ u '':system''; pointer = u ''/messages/0/content''
      in case cl_system c of
           Some fragments \<Rightarrow>
             map (\<lambda>(i, f). included_part (pid @ [58] @ af_fragment_id f) i (af_trust f) pointer
                             (af_start f, af_end f) (af_content f) (af_sources f))
               (zip [0..<length fragments] fragments)
         | None \<Rightarrow>
             [included_part pid 0 TrustedInstruction pointer (0, int (length (cv_curator_persona svc)))
                (cv_curator_persona svc) [cl_persona_source c]])"

definition user_parts :: "nat \<Rightarrow> curation_batch \<Rightarrow> curation_call \<Rightarrow> request_part list" where
  "user_parts n b c =
     map (\<lambda>(i, p, start, stop).
            included_part (u ''curation:'' @ cb_batch_id b @ u '':user:'' @ nat_str (Suc i) @ [58] @ pp_piece_id p)
              (n + i) (pp_trust p) (u ''/messages/1/content'') (start, stop) (pp_content p) (pp_sources p))
       (zip [0..<length (cl_pieces c)] (cl_pieces c))"

definition curation_draft :: "curation_service \<Rightarrow> curation_batch \<Rightarrow> curation_call \<Rightarrow> model_call_draft result" where
  "curation_draft svc b c =
     (let system = system_parts svc b c
      in rbind (rmap (validated request_part_ok) (system @ user_parts (length system) b c)) (\<lambda>parts.
         validated model_call_draft_ok
           \<lparr>dr_call_id = u ''call-'' @ cb_batch_id b, dr_turn_id = cq_turn_id (cl_request c),
            dr_flow_id = cq_flow_id (cl_request c), dr_call_sequence = 0, dr_purpose = u ''memory_curation'',
            dr_persona_id = Some (u ''memory_curator''), dr_state_id = None,
            dr_config_revision = cv_config_revision svc, dr_model_profile_id = u ''memory_curator'',
            dr_request = cl_request c, dr_parts = parts\<rparr>))"

text \<open>The model: a state \<open>'p\<close>, asked with a draft (gateway) or with a request (plain provider).\<close>

record 'p curation_model =
  qm_gateway :: "model_call_draft \<Rightarrow> ('p, completion_result) op"
  qm_provider :: "completion_request \<Rightarrow> ('p, completion_result) op"
  qm_loads :: "pystr \<Rightarrow> json option"
  qm_casefold :: "pystr \<Rightarrow> pystr"

definition curation_attempt ::
  "'p curation_model \<Rightarrow> curation_service \<Rightarrow> curation_batch \<Rightarrow> (pystr \<times> pystr) list \<Rightarrow> curation_call \<Rightarrow>
   ('p, curation_proposal) op"
where
  "curation_attempt model svc b aliases c =
     sbind (if cv_is_gateway svc
            then sbind (slift (curation_draft svc b c)) (qm_gateway model)
            else qm_provider model (cl_request c)) (\<lambda>response.
       slift (validate_response (qm_loads model) (cr_text response) b aliases))"

definition curation_failure :: "exn option \<Rightarrow> exn" where
  "curation_failure last_error =
     (case last_error of
        Some e \<Rightarrow> if is_bai e then e else BaiErrorRetryable ''CURATION_FAILED''
      | None \<Rightarrow> BaiErrorRetryable ''CURATION_FAILED'')"

fun attempt_loop_curation ::
  "('p, curation_proposal) op \<Rightarrow> nat \<Rightarrow> exn option \<Rightarrow> ('p, curation_proposal) op"
where
  "attempt_loop_curation attempt 0 last_error p = (Inl (curation_failure last_error), p)"
| "attempt_loop_curation attempt (Suc n) last_error p =
     (case attempt p of
        (Inr x, p') \<Rightarrow> (Inr x, p')
      | (Inl e, p') \<Rightarrow>
          if is_exception e then attempt_loop_curation attempt n (Some e) p' else (Inl e, p'))"

definition curation_attempts :: "curation_service \<Rightarrow> nat" where
  "curation_attempts svc = (if cv_is_gateway svc then 1 else nat (max 1 (cv_max_attempts svc)))"

subsection \<open>The whole operation\<close>

record proposed_curation =
  pv_target :: memory_document
  pv_source_record_ids :: "pystr list"
  pv_batch :: curation_batch

text \<open>What is decided before the model is asked.\<close>

definition curation_setup ::
  "curation_service \<Rightarrow> pystr option \<Rightarrow> bool \<Rightarrow> raw_record list \<Rightarrow> memory_document \<Rightarrow>
   (curation_batch \<times> raw_record list \<times> curation_call) option result"
where
  "curation_setup svc turn_id force records d =
     rbind (next_batch (cv_policy svc) records (document_frontier d) (cv_config_revision svc) force) (\<lambda>batch.
     case batch of
       None \<Rightarrow> Inr None
     | Some b \<Rightarrow>
         rbind (rmap (\<lambda>i. case record_by_id records i of None \<Rightarrow> Inl KeyExn | Some r \<Rightarrow> Inr r)
                  (cb_record_ids b)) (\<lambda>batch_records.
         rbind (prepare_call svc turn_id b d records (semantic_records batch_records)) (\<lambda>c.
         Inr (Some (b, batch_records, c)))))"

definition propose ::
  "'p curation_model \<Rightarrow> curation_service \<Rightarrow> int \<Rightarrow> bool \<Rightarrow> pystr option \<Rightarrow>
   (world \<times> 'p, proposed_curation option) op"
where
  "propose model svc now force turn_id = (\<lambda>(w, p).
     case read_all (me_codec (cv_env svc)) (w_segments w) of
       Inl e \<Rightarrow> (Inl e, (w, p))
     | Inr records \<Rightarrow>
         (case ls_load (cv_env svc) now (Some records) w of
            (Inl e, w') \<Rightarrow> (Inl e, (w', p))
          | (Inr d, w') \<Rightarrow>
              (case curation_setup svc turn_id force records d of
                 Inl e \<Rightarrow> (Inl e, (w', p))
               | Inr None \<Rightarrow> (Inr None, (w', p))
               | Inr (Some (b, batch_records, c)) \<Rightarrow>
                   (case attempt_loop_curation
                           (curation_attempt model svc b (source_aliases (semantic_records batch_records)) c)
                           (curation_attempts svc) None p of
                      (Inl e, p') \<Rightarrow> (Inl e, (w', p'))
                    | (Inr proposal, p') \<Rightarrow>
                        (case merge_document (qm_casefold model) d b batch_records proposal of
                           Inl e \<Rightarrow> (Inl e, (w', p'))
                         | Inr t \<Rightarrow>
                             (Inr (Some \<lparr>pv_target = t, pv_source_record_ids = cb_record_ids b,
                                         pv_batch = b\<rparr>), (w', p')))))))"

definition commit_proposal :: "curation_service \<Rightarrow> proposed_curation \<Rightarrow> (world, memory_document) op" where
  "commit_proposal svc pc = ls_commit (cv_env svc) (pv_target pc) True"

definition curate_if_needed ::
  "'p curation_model \<Rightarrow> curation_service \<Rightarrow> int \<Rightarrow> bool \<Rightarrow> (world \<times> 'p, memory_document option) op"
where
  "curate_if_needed model svc now force s =
     (case propose model svc now force None s of
        (Inl e, s') \<Rightarrow> (Inl e, s')
      | (Inr None, s') \<Rightarrow> (Inr None, s')
      | (Inr (Some pc), (w, p)) \<Rightarrow>
          (case commit_proposal svc pc w of
             (Inl e, w') \<Rightarrow> (Inl e, (w', p))
           | (Inr d, w') \<Rightarrow> (Inr (Some d), (w', p))))"

subsection \<open>A proposal is acceptable to the store\<close>

lemma attempt_loop_response:
  "attempt_loop_curation attempt n e p = (Inr x, p') \<Longrightarrow> \<exists>q q'. attempt q = (Inr x, q')"
  by (induction n arbitrary: e p) (auto split: prod.splits sum.splits if_splits)

lemma curation_attempt_response:
  "curation_attempt model svc b aliases c p = (Inr x, p') \<Longrightarrow>
     \<exists>text'. validate_response (qm_loads model) text' b aliases = Inr x"
  by (auto simp: curation_attempt_def sbind_Inr_iff)

lemma set_semantic_records [simp]: "set (semantic_records rs) = set rs"
  by (simp add: semantic_records_def)

lemma snd_source_aliases [simp]: "snd ` set (source_aliases rs) = rr_record_id ` set rs"
proof -
  have "map snd (source_aliases rs) = map (\<lambda>x. rr_record_id (snd x)) (zip [0..<length rs] rs)"
    by (simp add: source_aliases_def split_def)
  also have "\<dots> = map rr_record_id (map snd (zip [0..<length rs] rs))" by (simp only: map_map comp_def)
  also have "\<dots> = map rr_record_id rs" by (simp only: map_snd_zip length_upt diff_zero)
  finally show ?thesis by (metis list.set_map)
qed

lemma records_by_ids:
  assumes "distinct (map rr_record_id records)" and "set recs \<subseteq> set records"
  shows "rmap (\<lambda>i. case record_by_id records i of None \<Rightarrow> Inl KeyExn | Some r \<Rightarrow> Inr r)
    (map rr_record_id recs) = Inr recs"
  using assms(2) by (induction recs) (auto simp: record_by_id_mem [OF assms(1)])

lemma proposeE:
  assumes "propose model svc now force turn_id (w, p) = (Inr (Some pc), (w', p'))"
    and "read_all (me_codec (cv_env svc)) (w_segments w) = Inr records"
    and "ls_load (cv_env svc) now (Some records) w = (Inr d, w1)"
    and "distinct (map rr_record_id records)"
  obtains b recs response proposal where
    "next_batch (cv_policy svc) records (document_frontier d) (cv_config_revision svc) force = Inr (Some b)"
    "rmap (\<lambda>i. case record_by_id records i of None \<Rightarrow> Inl KeyExn | Some r \<Rightarrow> Inr r) (cb_record_ids b) = Inr recs"
    "validate_response (qm_loads model) response b (source_aliases (semantic_records recs)) = Inr proposal"
    "merge_document (qm_casefold model) d b recs proposal = Inr (pv_target pc)"
    "pv_source_record_ids pc = cb_record_ids b" "pv_batch pc = b" "w' = w1"
proof -
  obtain b recs c where ready: "curation_setup svc turn_id force records d = Inr (Some (b, recs, c))"
    using assms(1-3) by (auto simp: propose_def split: sum.splits option.splits)
  obtain proposal q where loop: "attempt_loop_curation
      (curation_attempt model svc b (source_aliases (semantic_records recs)) c) (curation_attempts svc) None p =
      (Inr proposal, q)"
    using assms(1-3) ready by (auto simp: propose_def split: sum.splits prod.splits)
  obtain t where t: "merge_document (qm_casefold model) d b recs proposal = Inr t"
    "pc = \<lparr>pv_target = t, pv_source_record_ids = cb_record_ids b, pv_batch = b\<rparr>" "w' = w1"
    using assms(1-3) ready loop by (auto simp: propose_def split: sum.splits)
  obtain s s' where "curation_attempt model svc b (source_aliases (semantic_records recs)) c s = (Inr proposal, s')"
    using attempt_loop_response [OF loop] by (elim exE)
  then obtain response where
    "validate_response (qm_loads model) response b (source_aliases (semantic_records recs)) = Inr proposal"
    using curation_attempt_response [of model svc b _ c s] by fastforce
  moreover have "next_batch (cv_policy svc) records (document_frontier d) (cv_config_revision svc) force = Inr (Some b)"
    "rmap (\<lambda>i. case record_by_id records i of None \<Rightarrow> Inl KeyExn | Some r \<Rightarrow> Inr r) (cb_record_ids b) = Inr recs"
    using ready by (auto simp: curation_setup_def rbind_Inr_iff split: option.splits)
  ultimately show ?thesis using t by (intro that) simp_all
qed


definition sample_service :: curation_service where
  "sample_service =
     \<lparr>cv_env = sample_doc_env, cv_policy = sample_curation_policy, cv_is_gateway = False,
      cv_curator_persona = u ''p'', cv_prompt_template = u ''go'', cv_config_revision = [],
      cv_temporal_policy = None, cv_renderer = None, cv_curator_asset = None, cv_prompt_asset = None,
      cv_max_attempts = 1\<rparr>"

definition sample_model :: "unit curation_model" where
  "sample_model =
     \<lparr>qm_gateway = (\<lambda>_ s. (Inl OSExn, s)),
      qm_provider = (\<lambda>_ s. (Inr \<lparr>cr_text = [], cr_finish_reason = u ''stop'', cr_tool_calls = [], cr_usage = [],
        cr_usage_unavailable_reason = None, cr_accepted_at = None, cr_origin_call_id = None\<rparr>, s)),
      qm_loads = (\<lambda>_. Some sample_response), qm_casefold = (\<lambda>s. s)\<rparr>"

lemma sample_semantic: "semantic_records [sample_user, sample_assistant] = [sample_user, sample_assistant]"
  by (simp add: semantic_records_def)

lemma sample_source_aliases: "source_aliases [sample_user, sample_assistant] = sample_aliases"
  by (simp add: source_aliases_def sample_aliases_def record_alias_def nat_str.simps u_Cons)

lemma sample_config_path: "project_relative (u ''config/prompts/memory_curation.md'')"
  "project_relative (u ''config/personas/memory_curator.md'')" "project_relative (u ''data/memory/raw'')"
  by code_simp+

lemma sample_entries_projected:
  assumes "pj_by_id pj (rr_record_id r) = Some r" and "rr_content_sha256 r = content_hash c"
    and "rr_record_id r \<noteq> []"
  shows "\<exists>e. project_raw pj r (Some (canonical_json j)) = Inr e"
  using assms sample_config_path(3)
  by (simp add: project_raw_def raw_source_def source_ref_ok_def validated_def projected_span_def
      make_temporal_span_def temporal_span_ok_def temporal_entry_ok_def)

lemma sample_prompt_values: "\<exists>v. prompt_values sample_service b d es [] None body ps per = Inr v"
  using yaml_path_relative
  by (simp add: prompt_values_def sample_service_def history_pieces_def bounded_pieces_def long_term_source_def
      contract_source_def source_ref_ok_def validated_def)

lemma sample_expanded: "\<exists>t ps. expand_prompt (u ''go'') v src = Inr (t, ps)"
  by (simp add: expand_prompt_def expand_loop.simps u_Cons)

lemma sample_setup:
  assumes "log_ok rs" and "rs = [sample_user, sample_assistant]"
  shows "\<exists>b c. curation_setup sample_service None False rs empty_document = Inr (Some (b, rs, c)) \<and>
    cb_record_ids b = map rr_record_id rs \<and> cb_old_frontier b = 0 \<and> cb_new_frontier b = 2 \<and>
    validate_prefixed_uuid (cb_batch_id b) (u ''batch'')"
proof -
  note ids = log_ok_facts(1) [OF assms(1)]
  have uuid: "validate_prefixed_uuid (u ''batch-'' @ uuid5_url s) (u ''batch'')" for s
    using validate_uuid5 [of "u ''batch''" s] by (simp add: u_Cons)
  obtain b where b: "next_batch sample_curation_policy rs 0 [] False = Inr (Some b)"
    "cb_record_ids b = map rr_record_id rs" "cb_old_frontier b = 0" "cb_new_frontier b = 2"
    "validate_prefixed_uuid (cb_batch_id b) (u ''batch'')"
    by (simp add: uuid assms(2) next_batch_def sample_curation_policy_def group_by_turn_def group_step_def
        curation_batch_ok_def validated_def Let_def sample_ids)
  obtain pj where pj: "projector_from_records rs = Inr pj" "pj_by_id pj = record_by_id rs"
    using ids by (simp add: projector_from_records_iff)
  have by_id: "record_by_id rs (rr_record_id r) = Some r" if "r \<in> set rs" for r
    using record_by_id_mem [OF ids] that by blast
  have recs: "rmap (\<lambda>i. case record_by_id rs i of None \<Rightarrow> Inl KeyExn | Some r \<Rightarrow> Inr r) (cb_record_ids b) = Inr rs"
    using records_by_ids [OF ids order_refl] by (simp only: b(2))
  have entry: "\<exists>e. project_raw pj r (Some (canonical_json j)) = Inr e" if "r \<in> set rs" for r j
    by (rule sample_entries_projected [where c = "rr_content r"]) (use that by_id in \<open>auto simp: pj(2) assms(2) sample_ids\<close>)
  then obtain f where "\<And>r j. r \<in> set rs \<Longrightarrow> project_raw pj r (Some (canonical_json j)) = Inr (f r j)" by metis
  then have entry': "project_raw pj sample_user (Some (canonical_json j)) = Inr (f sample_user j)"
    "project_raw pj sample_assistant (Some (canonical_json j)) = Inr (f sample_assistant j)" for j
    by (simp_all add: assms(2))
  obtain es where es: "batch_entries pj (semantic_records rs) = Inr es"
    using entry' by (simp add: batch_entries_def assms(2) sample_semantic)
  have sources: "\<exists>ps. asset_or_file (cv_prompt_asset sample_service) (u ''prompt:memory_curation'')
      (u ''config/prompts/memory_curation.md'') (cv_prompt_template sample_service)
      (cv_config_revision sample_service) = Inr ps"
    "\<exists>ps. asset_or_file (cv_curator_asset sample_service) (u ''persona:memory_curator'')
      (u ''config/personas/memory_curator.md'') (cv_curator_persona sample_service)
      (cv_config_revision sample_service) = Inr ps"
    using sample_config_path
    by (simp_all add: asset_or_file_def sample_service_def source_ref_ok_def validated_def)
  obtain body where body: "overview_block pj (md_coverage_overview empty_document) = Inr (None, body)"
    by (simp add: overview_block_def project_overview_def empty_document_facts)
  have svc: "cv_prompt_template sample_service = u ''go''" "cv_renderer sample_service = None"
    by (simp_all add: sample_service_def)
  obtain pr pe v t ps where "asset_or_file (cv_prompt_asset sample_service) (u ''prompt:memory_curation'')
      (u ''config/prompts/memory_curation.md'') (cv_prompt_template sample_service)
      (cv_config_revision sample_service) = Inr pr"
    "asset_or_file (cv_curator_asset sample_service) (u ''persona:memory_curator'')
      (u ''config/personas/memory_curator.md'') (cv_curator_persona sample_service)
      (cv_config_revision sample_service) = Inr pe"
    "prompt_values sample_service b empty_document es [] None body pr pe = Inr v"
    "expand_prompt (u ''go'') v pr = Inr (t, ps)"
    using sources sample_prompt_values sample_expanded by metis
  then have "\<exists>c. prepare_call sample_service None b empty_document rs (semantic_records rs) = Inr c"
    by (simp add: prepare_call_def pj es memory_entries_def body empty_document_facts svc)
  with b recs show ?thesis
    by (auto simp: curation_setup_def sample_service_def empty_document_facts)
qed

lemma sample_doc_load:
  "\<exists>w'. ls_load sample_doc_env 0 (Some [sample_user, sample_assistant]) sample_doc_world = (Inr empty_document, w')"
proof -
  have "parse_bytes sample_doc_env [0] (Some [sample_user, sample_assistant]) sample_doc_world = Inr empty_document"
    using empty_document_ok by (simp add: parse_bytes_def sample_doc_fields validate_sources_def empty_document_facts)
      (simp add: empty_document_def empty_overview_def empty_overview_text_def)
  moreover have "w_last_valid sample_doc_world = Some [0]" "w_budget sample_doc_world = 1"
    by (simp_all add: sample_doc_world_def)
  ultimately show ?thesis
    by (simp add: ls_load_def load_compare_def load_finish_def sample_doc_fields refresh_last_valid_def durable_def
        sbind_def)
qed

lemma sample_merges:
  assumes "cb_record_ids b = map rr_record_id [sample_user, sample_assistant]" "cb_old_frontier b = 0"
    "cb_new_frontier b = 2" "validate_prefixed_uuid (cb_batch_id b) (u ''batch'')"
  shows "\<exists>t. merge_document (\<lambda>s. s) empty_document b [sample_user, sample_assistant] sample_proposal = Inr t"
proof -
  let ?recs = "[sample_user, sample_assistant]"
  have by_id: "record_by_id ?recs (rr_record_id sample_user) = Some sample_user"
    "record_by_id ?recs (rr_record_id sample_assistant) = Some sample_assistant"
    by (simp_all add: record_by_id_def sample_ids)
  have rec: "validate_prefixed_uuid (rr_record_id sample_user) (u ''rec'')"
    "validate_prefixed_uuid (rr_record_id sample_assistant) (u ''rec'')"
    "validate_sha256 (rr_content_sha256 sample_user)" "validate_sha256 (rr_content_sha256 sample_assistant)"
    using sample_records_ok by (simp_all add: raw_record_ok_def)
  have "rr_record_id sample_user \<noteq> rr_record_id sample_assistant" by (simp add: sample_ids)
  moreover have "validate_prefixed_uuid (u ''mem-'' @ uuid5_url s) (u ''mem'')" for s
    using validate_uuid5 [of "u ''mem''" s] by (simp add: u_Cons)
  ultimately show ?thesis
    using rec assms(4)
    by (simp add: merge_document_def sample_proposal_def candidate_item_def by_id assms(1-3)
        empty_document_facts validated_def source_reference_ok_def memory_item_ok_def coverage_span_ok_def
        curation_checkpoint_ok_def coverage_overview_ok_def document_level_ok_def last_span_end_def
        document_frontier_def supersedes_graph_def visit_simps Let_def)
qed

lemma sample_proposes:
  assumes "ls_load sample_doc_env 0 (Some [sample_user, sample_assistant]) sample_doc_world = (Inr empty_document, w1)"
  shows "\<exists>pc. propose sample_model sample_service 0 False None (sample_doc_world, ()) = (Inr (Some pc), (w1, ())) \<and>
    cb_new_frontier (pv_batch pc) = 2"
proof -
  let ?rs = "[sample_user, sample_assistant]"
  from sample_setup [OF sample_log refl] obtain b c where
    ready: "curation_setup sample_service None False ?rs empty_document = Inr (Some (b, ?rs, c))" and
    b: "cb_record_ids b = map rr_record_id ?rs" "cb_old_frontier b = 0" "cb_new_frontier b = 2"
    "validate_prefixed_uuid (cb_batch_id b) (u ''batch'')" by blast
  from b(1) have ids: "cb_record_ids b = cb_record_ids sample_batch" by (simp add: sample_batch_def sample_span_def)
  have "validate_response (\<lambda>_. Some sample_response) [] b sample_aliases =
      validate_response (\<lambda>_. Some sample_response) [] sample_batch sample_aliases"
    unfolding validate_response_def ids by (rule refl)
  then have attempt: "curation_attempt sample_model sample_service b sample_aliases c () = (Inr sample_proposal, ())"
    using sample_response_accepted
    by (simp add: curation_attempt_def sample_model_def sample_service_def sbind_def slift_def)
  obtain t where t: "merge_document (\<lambda>s. s) empty_document b ?rs sample_proposal = Inr t"
    using sample_merges [OF b] by blast
  show ?thesis
    using assms ready attempt t
    by (simp add: propose_def sample_doc_read sample_service_def curation_attempts_def sample_semantic
        sample_source_aliases sample_model_def b)
qed


end
