(* ===== verification/Assembler.thy ===== *)
theory Assembler
  imports Boundaries Selection
begin

text \<open>
  \<open>prompting/assembler.py\<close>, \<open>prompting/personas.py\<close> and \<open>states/resolver.py\<close>: which state and which
  personas a turn uses, the fixed order of the prompt segments with their trust levels, the checks of
  coverage and budget, and the request parts that say where every character of a message comes from.
  \<open>str(item)\<close> of a memory item, which the source falls back to without a time policy, is an argument.
\<close>

subsection \<open>States and personas\<close>

record state_resolver =
  rs_default :: pystr
  rs_states :: "(pystr \<times> agent_state_definition) list"
  rs_selected :: pystr

definition make_resolver :: "pystr \<Rightarrow> (pystr \<times> pystr list) list \<Rightarrow> state_resolver result" where
  "make_resolver default_id states =
     (if dict_get states default_id = None then Inl (BaiError ''STATE_REFERENCE_MISSING'')
      else rbind (rmap (\<lambda>(i, personas). rbind (validated agent_state_definition_ok
               \<lparr>as_state_id = i, as_ordered_persona_ids = personas, as_enabled = True\<rparr>) (\<lambda>d. Inr (i, d))) states)
             (\<lambda>ds. Inr \<lparr>rs_default = default_id, rs_states = ds, rs_selected = default_id\<rparr>))"

definition default_resolver :: "state_resolver result" where
  "default_resolver = make_resolver (u ''default'') [(u ''default'', [u ''state_default''])]"

definition resolver_for_test :: "pystr \<Rightarrow> (pystr \<times> pystr list) list \<Rightarrow> state_resolver result" where
  "resolver_for_test state_id states =
     (case states of
        [] \<Rightarrow> Inl (OtherExn ''StopIteration'')
      | (first, _) # _ \<Rightarrow>
          rbind (make_resolver first states) (\<lambda>r.
            if dict_get (rs_states r) state_id = None then Inl (BaiError ''STATE_REFERENCE_MISSING'')
            else Inr (r\<lparr>rs_selected := state_id\<rparr>)))"

definition resolve_state :: "state_resolver \<Rightarrow> state_resolution_context \<Rightarrow> state_resolution_result result" where
  "resolve_state r context =
     (case dict_get (rs_states r) (rs_selected r) of
        None \<Rightarrow> Inl KeyExn
      | Some d \<Rightarrow> validated state_resolution_result_ok
          \<lparr>sn_state_id = rs_selected r, sn_ordered_persona_ids = as_ordered_persona_ids d,
           sn_resolver_id = u ''static'', sn_resolver_version = u ''1'',
           sn_reason_code = (if rs_selected r = rs_default r then u ''configured_default''
                             else u ''test_selected_state'')\<rparr>)"

record persona_profile =
  pf_persona_id :: pystr
  pf_role :: pystr
  pf_prompt_path :: pystr
  pf_prompt :: pystr
  pf_model_profile_id :: pystr
  pf_allowed_tool_ids :: "pystr list"
  pf_allowed_template_variables :: "pystr list"
  pf_prompt_sha256 :: pystr

record persona_prompt_set =
  pr_chat :: pystr
  pr_memory_curator :: pystr
  pr_states :: "(pystr \<times> pystr) list"
  pr_untrusted_boundary :: pystr

definition with_role :: "string \<Rightarrow> persona_profile list \<Rightarrow> persona_profile list" where
  "with_role role = filter (\<lambda>p. pf_role p = u role)"

text \<open>A dict comprehension: later entries replace earlier ones.\<close>

definition dict_of :: "('k \<times> 'v) list \<Rightarrow> ('k \<times> 'v) list" where
  "dict_of kvs = fold (\<lambda>(k, v). dict_set k v) kvs []"

definition personas_from_snapshot ::
  "persona_profile list \<Rightarrow> (pystr \<times> pystr) list \<Rightarrow> persona_prompt_set result"
where
  "personas_from_snapshot personas prompts =
     (if length (with_role ''chat'' personas) \<noteq> 1 \<or> length (with_role ''memory_curator'' personas) \<noteq> 1
      then Inl (BaiError ''PERSONA_ROLE_INVALID'')
      else if falsy (dict_get prompts (u ''untrusted_memory_boundary''))
      then Inl (BaiError ''PROMPT_SEGMENT_MISSING'')
      else Inr \<lparr>pr_chat = pf_prompt (hd (with_role ''chat'' personas)),
                pr_memory_curator = pf_prompt (hd (with_role ''memory_curator'' personas)),
                pr_states = dict_of (map (\<lambda>p. (pf_persona_id p, pf_prompt p)) (with_role ''state'' personas)),
                pr_untrusted_boundary = the (dict_get prompts (u ''untrusted_memory_boundary''))\<rparr>)"

definition state_prompts :: "persona_prompt_set \<Rightarrow> pystr list \<Rightarrow> pystr list result" where
  "state_prompts ps ids =
     rmap (\<lambda>i. case dict_get (pr_states ps) i of
                 None \<Rightarrow> Inl (BaiError ''STATE_PERSONA_MISSING'') | Some p \<Rightarrow> Inr p) ids"

subsection \<open>Segments and context\<close>

record prompt_segment =
  sg_id :: pystr
  sg_trust :: trust_level
  sg_content :: pystr
  sg_source_ids :: "pystr list"
  sg_fragments :: "fragment list"

record prompt_context =
  pk_flow_id :: pystr
  pk_turn_id :: pystr
  pk_config_revision :: pystr
  pk_state_resolution :: state_resolution_result
  pk_segments :: "prompt_segment list"
  pk_manifest :: "(pystr \<times> pystr) list list"
  pk_coverage :: jdict

datatype overview_input = OverviewText pystr | OverviewModel coverage_overview

datatype memory_input = MemoryText pystr | MemoryModel memory_item

record prompt_assembler =
  pa_base_persona :: pystr
  pa_state_personas :: "pystr list"
  pa_base_asset :: "config_asset option"
  pa_state_assets :: "config_asset list"
  pa_policy :: "temporal_policy option"
  pa_renderer :: "boundary_renderer option"

record assemble_input =
  ai_flow_id :: pystr
  ai_turn_id :: pystr
  ai_config_revision :: pystr
  ai_state_resolution :: state_resolution_result
  ai_overview :: overview_input
  ai_long_items :: "memory_input list"
  ai_long_source_ids :: "pystr list"
  ai_recent :: "raw_record list"
  ai_current_record :: "raw_record option"
  ai_current_input :: "pystr option"
  ai_all_records :: "raw_record list option"
  ai_curated_through :: int
  ai_budgets :: "(pystr \<times> int) list"
  ai_projector :: "projector option"

definition mvp_assembler ::
  "pystr \<Rightarrow> pystr list \<Rightarrow> config_asset option \<Rightarrow> config_asset list \<Rightarrow> temporal_policy option \<Rightarrow>
   boundary_renderer option \<Rightarrow> prompt_assembler result"
where
  "mvp_assembler base personas base_asset state_assets policy renderer =
     (if strip base = [] \<or> (\<exists>p\<in>set personas. strip p = []) then Inl (BaiError ''PROMPT_SEGMENT_MISSING'')
      else Inr \<lparr>pa_base_persona = base, pa_state_personas = personas, pa_base_asset = base_asset,
                pa_state_assets = state_assets, pa_policy = policy, pa_renderer = renderer\<rparr>)"

subsection \<open>The steps of \<open>assemble\<close>\<close>

definition check_current_input :: "prompt_assembler \<Rightarrow> assemble_input \<Rightarrow> unit result" where
  "check_current_input pa inp =
     (if length (sn_ordered_persona_ids (ai_state_resolution inp)) \<noteq> length (pa_state_personas pa)
      then Inl (BaiError ''STATE_PERSONA_MISSING'')
      else case ai_current_record inp of
        None \<Rightarrow>
          (if ai_current_input inp = None then Inl (BaiError ''PROMPT_SEGMENT_MISSING'')
           else if pa_policy pa \<noteq> None then Inl (BaiError ''TEMPORAL_ENTRY_INVALID'') else Inr ())
      | Some r \<Rightarrow>
          (if ai_current_input inp \<noteq> None \<and> ai_current_input inp \<noteq> Some (rr_content r)
           then Inl (BaiError ''TEMPORAL_ENTRY_INVALID'')
           else if rr_role r \<noteq> RoleUser \<or> rr_turn_id r \<noteq> ai_turn_id inp
           then Inl (BaiError ''TEMPORAL_ENTRY_INVALID'') else Inr ()))"

definition plain_segment :: "pystr \<Rightarrow> trust_level \<Rightarrow> pystr \<Rightarrow> prompt_segment" where
  "plain_segment i t c =
     \<lparr>sg_id = i, sg_trust = t, sg_content = c, sg_source_ids = [], sg_fragments = []\<rparr>"

definition base_segment :: "prompt_assembler \<Rightarrow> pystr \<Rightarrow> prompt_segment result" where
  "base_segment pa config_revision =
     (case pa_renderer pa of
        None \<Rightarrow> Inr (plain_segment (u ''base_persona'') TrustedInstruction (pa_base_persona pa))
      | Some r \<Rightarrow>
          rbind (case pa_base_asset pa of
                   Some a \<Rightarrow> source_from_asset a
                 | None \<Rightarrow> validated source_ref_ok
                     \<lparr>sf_source_kind = SrcGenerated, sf_source_id = u ''generated:base_persona'', sf_path = None,
                      sf_content_sha256 = Some (content_hash (pa_base_persona pa)),
                      sf_revision = Some config_revision, sf_entity_ids = [],
                      sf_producer = u ''prompt_assembler''\<rparr>) (\<lambda>base_source.
          rbind (compose_system_instruction r (pa_base_persona pa) base_source (u ''chat-system''))
            (\<lambda>(t, fs).
             Inr ((plain_segment (u ''base_persona'') TrustedInstruction t)\<lparr>sg_fragments := fs\<rparr>))))"

definition persona_segments :: "prompt_assembler \<Rightarrow> assemble_input \<Rightarrow> prompt_segment list" where
  "persona_segments pa inp =
     map (\<lambda>(i, c). plain_segment (u ''state_persona:'' @ i) TrustedInstruction c)
       (zip (sn_ordered_persona_ids (ai_state_resolution inp)) (pa_state_personas pa))"

fun overview_text :: "overview_input \<Rightarrow> pystr" where
  "overview_text (OverviewText t) = t"
| "overview_text (OverviewModel m) = co_text m"

fun overview_model :: "overview_input \<Rightarrow> coverage_overview option" where
  "overview_model (OverviewText t) = None"
| "overview_model (OverviewModel m) = Some m"

definition checked_coverage :: "assemble_input \<Rightarrow> coverage_result option result" where
  "checked_coverage inp =
     (case ai_all_records inp of
        None \<Rightarrow> Inr None
      | Some records \<Rightarrow>
          rbind (validate_complete_coverage records
                   (case overview_model (ai_overview inp) of Some m \<Rightarrow> m | None \<Rightarrow> empty_overview)
                   (ai_curated_through inp) (ai_recent inp) (ai_current_record inp)) (\<lambda>c. Inr (Some c)))"

definition chosen_projector :: "assemble_input \<Rightarrow> projector option result" where
  "chosen_projector inp =
     (case ai_projector inp of
        Some p \<Rightarrow> Inr (Some p)
      | None \<Rightarrow> (case ai_all_records inp of
          None \<Rightarrow> Inr None
        | Some records \<Rightarrow> rbind (projector_from_records records) (\<lambda>p. Inr (Some p))))"

definition overview_history ::
  "prompt_assembler \<Rightarrow> assemble_input \<Rightarrow> projector option \<Rightarrow> annotated_history option result"
where
  "overview_history pa inp projector =
     (case (pa_policy pa, projector, overview_model (ai_overview inp)) of
        (Some policy, Some p, Some m) \<Rightarrow>
          rbind (project_overview p m None None) (\<lambda>entry. case entry of
              None \<Rightarrow> Inr None
            | Some e \<Rightarrow> rbind (annotate_history [e] policy [10]) (\<lambda>h. Inr (Some h)))
      | _ \<Rightarrow> Inr None)"

fun memory_models :: "memory_input list \<Rightarrow> memory_item list option" where
  "memory_models [] = Some []"
| "memory_models (MemoryText t # ms) = None"
| "memory_models (MemoryModel m # ms) = map_option (Cons m) (memory_models ms)"

fun select_within :: "int \<Rightarrow> int \<Rightarrow> pystr list \<Rightarrow> pystr list" where
  "select_within limit used [] = []"
| "select_within limit used (x # xs) =
     (if used + int (length x) > limit then select_within limit used xs
      else x # select_within limit (used + int (length x)) xs)"

definition or_brackets :: "pystr \<Rightarrow> pystr" where
  "or_brackets s = (if s = [] then u ''[]'' else s)"

definition limit_of :: "assemble_input \<Rightarrow> string \<Rightarrow> int \<Rightarrow> int" where
  "limit_of inp key otherwise =
     (case dict_get (ai_budgets inp) (u key) of Some n \<Rightarrow> n | None \<Rightarrow> otherwise)"

text \<open>The long-term block: its text, its source identifiers and its annotated history, when there is one.\<close>

definition long_term_block ::
  "(memory_item \<Rightarrow> pystr) \<Rightarrow> prompt_assembler \<Rightarrow> assemble_input \<Rightarrow> projector option \<Rightarrow>
   (pystr \<times> pystr list \<times> annotated_history option) result"
where
  "long_term_block str_item pa inp projector =
     (case (pa_policy pa, projector, memory_models (ai_long_items inp)) of
        (Some policy, Some p, Some (m # ms)) \<Rightarrow>
          rbind (rmap (\<lambda>m. project_memory p m None None) (m # ms)) (\<lambda>entries.
          rbind (annotate_history entries policy [10]) (\<lambda>h.
            Inr (ah_text h, map mi_memory_id (m # ms), Some h)))
      | _ \<Rightarrow>
          (let items = map (\<lambda>i. case i of MemoryText t \<Rightarrow> t | MemoryModel m \<Rightarrow> str_item m) (ai_long_items inp);
               limit = limit_of inp ''long_term_chars''
                         (sum_list (map (\<lambda>i. int (length i)) items) + int (length items))
           in Inr (or_brackets (join [10] (select_within limit 0 items)), ai_long_source_ids inp, None)))"

definition recent_line :: "raw_record \<Rightarrow> pystr" where
  "recent_line r = role_value (rr_role r) @ u '': '' @ rr_content r"

definition event_entry :: "raw_record \<Rightarrow> pystr \<Rightarrow> source_ref \<Rightarrow> trust_level \<Rightarrow> temporal_entry result" where
  "event_entry r body source trust =
     rbind (make_temporal_span (Aware (rr_created_at r) 0) (Aware (rr_created_at r) 0) TimeEvent) (\<lambda>span.
     validated temporal_entry_ok
       \<lparr>te_entry_id = rr_record_id r, te_body = body, te_span = span, te_sources = [source], te_trust = trust,
        te_metadata = [(u ''role'', JStr (role_value (rr_role r))), (u ''record_id'', JStr (rr_record_id r))]\<rparr>)"

definition recent_entry :: "pystr \<Rightarrow> raw_record \<Rightarrow> temporal_entry result" where
  "recent_entry config_revision r =
     rbind (validated source_ref_ok
       \<lparr>sf_source_kind = SrcDataFile, sf_source_id = u ''raw:'' @ rr_record_id r,
        sf_path = Some (u ''data/memory/raw''), sf_content_sha256 = Some (rr_content_sha256 r),
        sf_revision = Some config_revision, sf_entity_ids = [rr_record_id r],
        sf_producer = u ''raw_record_selector''\<rparr>) (\<lambda>source.
     event_entry r (recent_line r) source UntrustedData)"

definition recent_block ::
  "prompt_assembler \<Rightarrow> assemble_input \<Rightarrow> (pystr \<times> annotated_history option) result"
where
  "recent_block pa inp =
     (case pa_policy pa of
        Some policy \<Rightarrow>
          (if ai_recent inp = [] then Inr (u ''[]'', None)
           else rbind (rmap (recent_entry (ai_config_revision inp)) (ai_recent inp)) (\<lambda>entries.
                rbind (annotate_history entries policy [10]) (\<lambda>h. Inr (or_brackets (ah_text h), Some h))))
      | None \<Rightarrow> Inr (or_brackets (join [10] (map recent_line (ai_recent inp))), None))"

definition history_fragments :: "annotated_history option \<Rightarrow> fragment list" where
  "history_fragments h = (case h of None \<Rightarrow> [] | Some h \<Rightarrow> ah_fragments h)"

text \<open>\<open>_untrusted_segment\<close>, for the block names it is called with.\<close>

definition block_source :: "pystr \<Rightarrow> pystr \<Rightarrow> pystr list \<Rightarrow> pystr \<Rightarrow> source_ref result" where
  "block_source name content source_ids config_revision =
     (let kind = (if name \<noteq> u ''current_input'' then SrcDataFile else SrcRuntime);
          path = (if name = u ''recent_records'' then u ''data/memory/raw'' else u ''data/memory/long_term.yaml'')
      in validated source_ref_ok
           \<lparr>sf_source_kind = kind, sf_source_id = u ''memory:'' @ name,
            sf_path = (if kind = SrcDataFile then Some path else None),
            sf_content_sha256 = Some (content_hash content), sf_revision = Some config_revision,
            sf_entity_ids = source_ids, sf_producer = u ''prompt_assembler''\<rparr>)"

definition untrusted_segment ::
  "prompt_assembler \<Rightarrow> pystr \<Rightarrow> pystr \<Rightarrow> pystr list \<Rightarrow> fragment list \<Rightarrow> pystr \<Rightarrow> prompt_segment result"
where
  "untrusted_segment pa name content source_ids fragments config_revision =
     (case pa_renderer pa of
        None \<Rightarrow> Inr \<lparr>sg_id = name, sg_trust = UntrustedData, sg_content = content,
                      sg_source_ids = source_ids, sg_fragments = fragments\<rparr>
      | Some r \<Rightarrow>
          rbind (if fragments \<noteq> [] then Inr (pieces_from_fragments fragments)
                 else rbind (block_source name content source_ids config_revision) (\<lambda>s.
                   Inr [\<lparr>px_piece_id = name @ u '':body'', px_content = content, px_sources = [s],
                         px_trust = UntrustedData, px_entry_id = Some name, px_kind = FragBody\<rparr>])) (\<lambda>pieces.
          rbind (wrap_block r name pieces) (\<lambda>(t, fs).
            Inr \<lparr>sg_id = name, sg_trust = UntrustedData, sg_content = t, sg_source_ids = source_ids,
                 sg_fragments = fs\<rparr>)))"

definition current_source :: "raw_record \<Rightarrow> source_ref result" where
  "current_source r =
     validated source_ref_ok
       \<lparr>sf_source_kind = SrcRuntime, sf_source_id = u ''runtime:current-input:'' @ rr_record_id r, sf_path = None,
        sf_content_sha256 = Some (rr_content_sha256 r), sf_revision = Some (rr_config_revision r),
        sf_entity_ids = [rr_record_id r, rr_turn_id r], sf_producer = u ''provisional_raw_record''\<rparr>"

definition current_segment :: "raw_record \<Rightarrow> pystr \<Rightarrow> fragment list \<Rightarrow> prompt_segment" where
  "current_segment r content fragments =
     \<lparr>sg_id = u ''current_input'', sg_trust = UserInstruction, sg_content = content,
      sg_source_ids = [rr_record_id r, rr_turn_id r], sg_fragments = fragments\<rparr>"

definition marker_pieces :: "fragment list \<Rightarrow> text_piece list" where
  "marker_pieces fs =
     map (\<lambda>f. \<lparr>px_piece_id = af_fragment_id f, px_content = af_content f, px_sources = af_sources f,
              px_trust = TrustedMetadata, px_entry_id = Some (af_entry_id f),
              px_kind = (if af_kind f = FragMarker then FragTimeMetadata else af_kind f)\<rparr>)
       (filter (\<lambda>f. af_kind f \<noteq> FragBody) fs)"

definition current_input_segment :: "prompt_assembler \<Rightarrow> raw_record \<Rightarrow> prompt_segment result" where
  "current_input_segment pa r =
     rbind (current_source r) (\<lambda>source.
     case pa_policy pa of
       None \<Rightarrow> Inr (current_segment r (rr_content r) [])
     | Some policy \<Rightarrow>
         rbind (event_entry r (rr_content r) source UserInstruction) (\<lambda>entry.
         rbind (annotate_history [entry] policy [10]) (\<lambda>annotated.
         case pa_renderer pa of
           None \<Rightarrow> Inr (current_segment r (ah_text annotated) (ah_fragments annotated))
         | Some renderer \<Rightarrow>
             (case filter (\<lambda>f. af_kind f = FragBody) (ah_fragments annotated) of
                [] \<Rightarrow> Inl (OtherExn ''StopIteration'')
              | body # _ \<Rightarrow>
                  rbind (wrap_block renderer (u ''current_input'') (pieces_from_fragments [body])) (\<lambda>(_, bounded).
                  rbind (position_pieces (marker_pieces (ah_fragments annotated) @ pieces_from_fragments bounded))
                    (\<lambda>(t, fs). Inr (current_segment r t fs)))))))"

definition direct_input_segment :: "assemble_input \<Rightarrow> prompt_segment" where
  "direct_input_segment inp =
     \<lparr>sg_id = u ''current_input'', sg_trust = UserInstruction,
      sg_content = (case ai_current_input inp of None \<Rightarrow> [] | Some t \<Rightarrow> t),
      sg_source_ids = [ai_turn_id inp], sg_fragments = []\<rparr>"

definition overview_source_ids :: "coverage_overview option \<Rightarrow> pystr list" where
  "overview_source_ids m =
     (case m of None \<Rightarrow> []
      | Some c \<Rightarrow> concat (map (\<lambda>s. cs_batch_id s # cs_record_ids s) (co_spans c)))"

definition check_budgets :: "assemble_input \<Rightarrow> prompt_segment \<Rightarrow> prompt_segment \<Rightarrow> prompt_segment \<Rightarrow> unit result" where
  "check_budgets inp overview long_term recent =
     (let within = (\<lambda>key s. int (length (sg_content s)) \<le> limit_of inp key (int (length (sg_content s))))
      in if \<not> within ''overview_chars'' overview then Inl (BaiError ''PROMPT_BUDGET_EXCEEDED'')
         else if \<not> within ''long_term_chars'' long_term then Inl (BaiError ''PROMPT_BUDGET_EXCEEDED'')
         else if \<not> within ''recent_chars'' recent then Inl (BaiError ''PROMPT_BUDGET_EXCEEDED'')
         else Inr ())"

text \<open>The three memory segments, in the order in which their texts are built.\<close>

definition memory_segments ::
  "(memory_item \<Rightarrow> pystr) \<Rightarrow> prompt_assembler \<Rightarrow> assemble_input \<Rightarrow> prompt_segment list result"
where
  "memory_segments str_item pa inp =
     rbind (chosen_projector inp) (\<lambda>projector.
     rbind (overview_history pa inp projector) (\<lambda>oh.
     rbind (long_term_block str_item pa inp projector) (\<lambda>(long_text, long_ids, lh).
     rbind (recent_block pa inp) (\<lambda>(recent_text, rh).
     let ot = (case oh of Some h \<Rightarrow> ah_text h | None \<Rightarrow> overview_text (ai_overview inp));
         revision = ai_config_revision inp
     in rbind (untrusted_segment pa (u ''memory_overview'') (or_brackets ot)
                 (overview_source_ids (overview_model (ai_overview inp))) (history_fragments oh) revision) (\<lambda>s1.
        rbind (untrusted_segment pa (u ''long_term_memories'') long_text long_ids (history_fragments lh) revision)
          (\<lambda>s2.
        rbind (untrusted_segment pa (u ''recent_records'') recent_text (map rr_record_id (ai_recent inp))
                 (history_fragments rh) revision) (\<lambda>s3.
        rbind (check_budgets inp s1 s2 s3) (\<lambda>_. Inr [s1, s2, s3]))))))))"

definition required_segments :: "pystr set" where
  "required_segments =
     {u ''base_persona'', u ''memory_overview'', u ''long_term_memories'', u ''recent_records'', u ''current_input''}"

definition segment_manifest :: "prompt_segment list \<Rightarrow> (pystr \<times> pystr) list list" where
  "segment_manifest segments =
     concat (map (\<lambda>s. map (\<lambda>i. [(u ''source_id'', i), (u ''segment_id'', sg_id s)]) (sg_source_ids s)) segments)"

fun span_manifest :: "coverage_span list \<Rightarrow> (pystr \<times> pystr) list list result" where
  "span_manifest [] = Inr []"
| "span_manifest (s # ss) =
     (if length (cs_record_ids s) \<noteq> length (cs_record_hashes s) then Inl ValueExn
      else rbind (span_manifest ss) (\<lambda>rest.
        Inr ([(u ''source_id'', cs_batch_id s), (u ''segment_id'', u ''memory_overview'')] #
             map (\<lambda>(i, d). [(u ''source_id'', i), (u ''segment_id'', u ''memory_overview''), (u ''sha256'', d)])
               (zip (cs_record_ids s) (cs_record_hashes s)) @ rest)))"

definition range_json :: "(int \<times> int) option \<Rightarrow> json" where
  "range_json r = (case r of None \<Rightarrow> JArr [] | Some (a, b) \<Rightarrow> JArr [JInt a, JInt b])"

definition coverage_json :: "coverage_result option \<Rightarrow> jdict" where
  "coverage_json c =
     (case c of None \<Rightarrow> []
      | Some r \<Rightarrow> [(u ''covered_range'', range_json (cr_covered_range r)),
                   (u ''direct_range'', range_json (cr_direct_range r))])"

definition assemble ::
  "(memory_item \<Rightarrow> pystr) \<Rightarrow> prompt_assembler \<Rightarrow> assemble_input \<Rightarrow> prompt_context result"
where
  "assemble str_item pa inp =
     rbind (check_current_input pa inp) (\<lambda>_.
     rbind (base_segment pa (ai_config_revision inp)) (\<lambda>base.
     rbind (checked_coverage inp) (\<lambda>coverage.
     rbind (memory_segments str_item pa inp) (\<lambda>memory.
     rbind (case ai_current_record inp of
              Some r \<Rightarrow> current_input_segment pa r
            | None \<Rightarrow> Inr (direct_input_segment inp)) (\<lambda>current.
     let segments = base # persona_segments pa inp @ memory @ [current]
     in if \<not> required_segments \<subseteq> sg_id ` set segments then Inl (BaiError ''PROMPT_SEGMENT_MISSING'')
        else rbind (case overview_model (ai_overview inp) of
                      None \<Rightarrow> Inr [] | Some m \<Rightarrow> span_manifest (co_spans m)) (\<lambda>spans.
          Inr \<lparr>pk_flow_id = ai_flow_id inp, pk_turn_id = ai_turn_id inp,
               pk_config_revision = ai_config_revision inp, pk_state_resolution = ai_state_resolution inp,
               pk_segments = segments, pk_manifest = segment_manifest segments @ spans,
               pk_coverage = coverage_json coverage\<rparr>))))))"

subsection \<open>Request parts\<close>

definition asset_source :: "config_asset \<Rightarrow> source_ref result" where
  "asset_source asset =
     validated source_ref_ok
       \<lparr>sf_source_kind = SrcConfigFile, sf_source_id = ca_asset_id asset,
        sf_path = Some (u ''config/'' @ ca_path asset), sf_content_sha256 = Some (ca_content_sha256 asset),
        sf_revision = Some (ca_revision asset), sf_entity_ids = [], sf_producer = u ''config_loader''\<rparr>"

text \<open>\<open>state_assets[index - 1]\<close>, where index 0 reads the last asset.\<close>

definition asset_before :: "nat \<Rightarrow> config_asset list \<Rightarrow> config_asset result" where
  "asset_before index assets =
     (if index = 0 then (if assets = [] then Inl IndexExn else Inr (last assets))
      else if index - 1 < length assets then Inr (assets ! (index - 1)) else Inl IndexExn)"

definition segment_file_source ::
  "prompt_context \<Rightarrow> prompt_segment \<Rightarrow> pystr \<Rightarrow> string \<Rightarrow> source_ref result"
where
  "segment_file_source ctx s path producer =
     validated source_ref_ok
       \<lparr>sf_source_kind = SrcDataFile, sf_source_id = u ''memory:'' @ sg_id s, sf_path = Some path,
        sf_content_sha256 = Some (content_hash (sg_content s)), sf_revision = Some (pk_config_revision ctx),
        sf_entity_ids = sg_source_ids s, sf_producer = u producer\<rparr>"

definition segment_source ::
  "prompt_assembler \<Rightarrow> prompt_context \<Rightarrow> nat \<Rightarrow> prompt_segment \<Rightarrow> source_ref result"
where
  "segment_source pa ctx index s =
     (if sg_id s = u ''base_persona'' \<and> pa_base_asset pa \<noteq> None then asset_source (the (pa_base_asset pa))
      else if startswith (sg_id s) (u ''state_persona:'') \<and> int index - 1 < int (length (pa_state_assets pa))
      then rbind (asset_before index (pa_state_assets pa)) asset_source
      else if sg_id s = u ''current_input''
      then validated source_ref_ok
        \<lparr>sf_source_kind = SrcRuntime, sf_source_id = u ''runtime:user_input:'' @ pk_turn_id ctx, sf_path = None,
         sf_content_sha256 = None, sf_revision = None, sf_entity_ids = [pk_turn_id ctx],
         sf_producer = u ''user_input''\<rparr>
      else if sg_id s = u ''memory_overview'' \<or> sg_id s = u ''long_term_memories''
      then segment_file_source ctx s (u ''data/memory/long_term.yaml'') ''memory_selector''
      else if sg_id s = u ''recent_records''
      then segment_file_source ctx s (u ''data/memory/raw'') ''raw_record_selector''
      else validated source_ref_ok
        \<lparr>sf_source_kind = SrcGenerated, sf_source_id = u ''generated:'' @ sg_id s, sf_path = None,
         sf_content_sha256 = None, sf_revision = None, sf_entity_ids = [],
         sf_producer = u ''prompt_assembler''\<rparr>)"

definition content_pointer :: "nat \<Rightarrow> pystr" where
  "content_pointer index = u ''/messages/'' @ nat_str index @ u ''/content''"

definition message_part_id :: "nat \<Rightarrow> pystr \<Rightarrow> pystr" where
  "message_part_id index i = u ''message:'' @ nat_str index @ u '':'' @ i"

definition fragment_part :: "nat \<Rightarrow> nat \<Rightarrow> fragment \<Rightarrow> request_part result" where
  "fragment_part index order f =
     validated request_part_ok
       \<lparr>rp_part_id = message_part_id index (af_fragment_id f), rp_order = int order,
        rp_participation = PartIncluded, rp_trust = af_trust f, rp_pointer = Some (content_pointer index),
        rp_text_span = Some (af_start f, af_end f), rp_content = af_content f, rp_sources = af_sources f,
        rp_exclusion_reason = None\<rparr>"

definition plain_part ::
  "prompt_assembler \<Rightarrow> prompt_context \<Rightarrow> nat \<Rightarrow> nat \<Rightarrow> prompt_segment \<Rightarrow> request_part result"
where
  "plain_part pa ctx index order s =
     rbind (segment_source pa ctx index s) (\<lambda>source.
       let included = sg_content s \<noteq> []
       in validated request_part_ok
         \<lparr>rp_part_id = message_part_id index (sg_id s), rp_order = int order,
          rp_participation = (if included then PartIncluded else PartEmpty), rp_trust = sg_trust s,
          rp_pointer = (if included then Some (content_pointer index) else None),
          rp_text_span = (if included then Some (0, int (length (sg_content s))) else None),
          rp_content = sg_content s, rp_sources = (if included then [source] else []),
          rp_exclusion_reason = None\<rparr>)"

definition segment_parts ::
  "prompt_assembler \<Rightarrow> prompt_context \<Rightarrow> nat \<Rightarrow> nat \<Rightarrow> prompt_segment \<Rightarrow> request_part list result"
where
  "segment_parts pa ctx index order s =
     (if sg_fragments s \<noteq> []
      then rmap (\<lambda>(i, f). fragment_part index (order + i) f) (zip [0..<length (sg_fragments s)] (sg_fragments s))
      else rbind (plain_part pa ctx index order s) (\<lambda>p. Inr [p]))"

fun parts_loop ::
  "prompt_assembler \<Rightarrow> prompt_context \<Rightarrow> nat \<Rightarrow> nat \<Rightarrow> prompt_segment list \<Rightarrow> request_part list result"
where
  "parts_loop pa ctx index order [] = Inr []"
| "parts_loop pa ctx index order (s # ss) =
     rbind (segment_parts pa ctx index order s) (\<lambda>ps.
     rbind (parts_loop pa ctx (Suc index) (order + length ps) ss) (\<lambda>rest. Inr (ps @ rest)))"

definition context_parts :: "prompt_assembler \<Rightarrow> prompt_context \<Rightarrow> request_part list result" where
  "context_parts pa ctx = parts_loop pa ctx 0 0 (pk_segments ctx)"

subsection \<open>Trust of annotated and framed text\<close>

text \<open>What one entry contributes: its body with its own trust, everything else untrusted or its own.\<close>

definition entry_fragments :: "nat \<Rightarrow> temporal_entry \<Rightarrow> fragment list \<Rightarrow> bool" where
  "entry_fragments n e fs \<longleftrightarrow>
     map af_content (filter (\<lambda>f. af_kind f = FragBody) fs) = (if te_body e = [] then [] else [te_body e]) \<and>
     (\<forall>f\<in>set fs. if af_kind f = FragBody then af_trust f = te_trust e
                 else af_trust f = UntrustedData \<or> n \<noteq> 0 \<and> af_trust f = te_trust e)"

definition fragment_of :: "pystr \<Rightarrow> fragment_kind \<Rightarrow> trust_level \<Rightarrow> fragment \<Rightarrow> bool" where
  "fragment_of c k t f \<longleftrightarrow> af_content f = c \<and> af_kind f = k \<and> af_trust f = t"

lemma append_fragment_adds:
  assumes "append_fragment i k e c s t b = Inr b'"
  shows "\<exists>fs. tb_fragments b' = tb_fragments b @ fs \<and> (\<forall>f\<in>set fs. fragment_of c k t f) \<and>
    map af_content fs = (if c = [] then [] else [c])"
  using assms by (auto simp: append_fragment_def Let_def rbind_Inr_iff fragment_of_def split: if_splits)

lemma fragment_ofD: "fragment_of c k t f \<Longrightarrow> af_content f = c \<and> af_kind f = k \<and> af_trust f = t"
  by (simp add: fragment_of_def)

text \<open>Appending a fragment that is not a body.\<close>

definition adds_other :: "trust_level set \<Rightarrow> text_builder \<Rightarrow> text_builder \<Rightarrow> bool" where
  "adds_other ts b b' \<longleftrightarrow>
     (\<exists>fs. tb_fragments b' = tb_fragments b @ fs \<and> (\<forall>f\<in>set fs. af_kind f \<noteq> FragBody \<and> af_trust f \<in> ts))"

lemma adds_other_refl [intro]: "adds_other ts b b"
  by (simp add: adds_other_def)

lemma adds_other_trans: "adds_other ts b b' \<Longrightarrow> adds_other ts b' b'' \<Longrightarrow> adds_other ts b b''"
  by (force simp: adds_other_def)

lemma adds_other_append:
  "append_fragment i k e c s t b = Inr b' \<Longrightarrow> k \<noteq> FragBody \<Longrightarrow> t \<in> ts \<Longrightarrow> adds_other ts b b'"
  using append_fragment_adds [of i k e c s t b b'] by (fastforce simp: adds_other_def dest: fragment_ofD)

lemma make_marker_trust: "tm_trust (make_marker p e rs) = UntrustedData"
  by (simp add: make_marker_def)

lemma validated_Inr: "validated P x = Inr y \<longleftrightarrow> P x \<and> y = x"
  by (auto simp: validated_def)

lemma annotate_stepE:
  assumes "annotate_step policy sep n e st = Inr st'"
  obtains b1 b2 where
    "(if n = 0 then Inr (an_builder st)
      else append_fragment (te_entry_id e @ u '':entry-separator'') FragSeparator (te_entry_id e) sep
             (te_sources e) (te_trust e) (an_builder st)) = Inr b1"
    "b2 = b1 \<or> (\<exists>(m :: temporal_marker) (bm :: text_builder). append_fragment (te_entry_id e @ u '':marker'') FragMarker (te_entry_id e) (tm_text m)
         (tm_sources m) UntrustedData b1 = Inr bm \<and>
       (b2 = bm \<or> append_fragment (te_entry_id e @ u '':marker-separator'') FragSeparator (te_entry_id e) [10]
         (tm_sources m) UntrustedData bm = Inr b2))"
    "append_fragment (te_entry_id e @ u '':body'') FragBody (te_entry_id e) (te_body e)
       (te_sources e) (te_trust e) b2 = Inr (an_builder st')"
proof -
  from assms obtain b1 b2 markers last_marker b3 where
    b1: "(if n = 0 then Inr (an_builder st)
          else append_fragment (te_entry_id e @ u '':entry-separator'') FragSeparator (te_entry_id e) sep
                 (te_sources e) (te_trust e) (an_builder st)) = Inr b1" and
    b2: "(let reasons = marker_reasons policy (an_previous st) (an_last_marker st) e
          in if reasons = {} then Inr (b1, an_markers st, an_last_marker st)
            else rbind (validated temporal_marker_ok (make_marker policy e reasons)) (\<lambda>marker.
              rbind (append_fragment (te_entry_id e @ u '':marker'') FragMarker (te_entry_id e) (tm_text marker)
                       (tm_sources marker) (tm_trust marker) b1) (\<lambda>b.
              rbind (if te_body e = [] then Inr b
                     else append_fragment (te_entry_id e @ u '':marker-separator'') FragSeparator (te_entry_id e) [10]
                            (tm_sources marker) UntrustedData b) (\<lambda>b.
              Inr (b, an_markers st @ [marker], Some e))))) = Inr (b2, markers, last_marker)" and
    b3: "append_fragment (te_entry_id e @ u '':body'') FragBody (te_entry_id e) (te_body e)
           (te_sources e) (te_trust e) b2 = Inr b3" and st': "an_builder st' = b3"
    by (auto simp: annotate_step_def Let_def rbind_Inr_iff)
  define rs where "rs = marker_reasons policy (an_previous st) (an_last_marker st) e"
  show ?thesis
  proof (rule that [OF b1 _ b3 [folded st']], cases "rs = {}")
    case True
    with b2 show "b2 = b1 \<or> (\<exists>(m :: temporal_marker) (bm :: text_builder). append_fragment (te_entry_id e @ u '':marker'') FragMarker (te_entry_id e) (tm_text m)
         (tm_sources m) UntrustedData b1 = Inr bm \<and>
       (b2 = bm \<or> append_fragment (te_entry_id e @ u '':marker-separator'') FragSeparator (te_entry_id e) [10]
         (tm_sources m) UntrustedData bm = Inr b2))"
      by (simp add: rs_def)
  next
    case False
    let ?m = "make_marker policy e rs"
    from b2 False obtain bm where "append_fragment (te_entry_id e @ u '':marker'') FragMarker (te_entry_id e)
        (tm_text ?m) (tm_sources ?m) UntrustedData b1 = Inr bm"
      "(if te_body e = [] then Inr bm
        else append_fragment (te_entry_id e @ u '':marker-separator'') FragSeparator (te_entry_id e) [10]
               (tm_sources ?m) UntrustedData bm) = Inr b2"
      unfolding Let_def rs_def [symmetric] by (auto simp: make_marker_trust rbind_Inr_iff validated_Inr)
    then show "b2 = b1 \<or> (\<exists>(m :: temporal_marker) (bm :: text_builder). append_fragment (te_entry_id e @ u '':marker'') FragMarker (te_entry_id e) (tm_text m)
         (tm_sources m) UntrustedData b1 = Inr bm \<and>
       (b2 = bm \<or> append_fragment (te_entry_id e @ u '':marker-separator'') FragSeparator (te_entry_id e) [10]
         (tm_sources m) UntrustedData bm = Inr b2))"
      by (intro disjI2 exI [of _ ?m] exI [of _ bm]) (simp split: if_splits)
  qed
qed

lemma annotate_step_adds:
  assumes "annotate_step policy sep n e st = Inr st'"
  shows "\<exists>fs. tb_fragments (an_builder st') = tb_fragments (an_builder st) @ fs \<and> entry_fragments n e fs"
proof -
  let ?ts = "insert UntrustedData (if n = 0 then {} else {te_trust e})"
  from assms obtain b1 b2 where
    b1: "(if n = 0 then Inr (an_builder st)
          else append_fragment (te_entry_id e @ u '':entry-separator'') FragSeparator (te_entry_id e) sep
                 (te_sources e) (te_trust e) (an_builder st)) = Inr b1" and
    b2: "b2 = b1 \<or> (\<exists>(m :: temporal_marker) (bm :: text_builder). append_fragment (te_entry_id e @ u '':marker'') FragMarker (te_entry_id e) (tm_text m)
         (tm_sources m) UntrustedData b1 = Inr bm \<and>
       (b2 = bm \<or> append_fragment (te_entry_id e @ u '':marker-separator'') FragSeparator (te_entry_id e) [10]
         (tm_sources m) UntrustedData bm = Inr b2))" and
    b3: "append_fragment (te_entry_id e @ u '':body'') FragBody (te_entry_id e) (te_body e)
           (te_sources e) (te_trust e) b2 = Inr (an_builder st')"
    by (rule annotate_stepE)
  have "adds_other ?ts (an_builder st) b1"
    using b1 by (auto intro: adds_other_append split: if_splits)
  moreover have "adds_other ?ts b1 b2"
    using b2 by (auto intro: adds_other_append adds_other_trans)
  ultimately have "adds_other ?ts (an_builder st) b2" by (rule adds_other_trans)
  then obtain fs where fs: "tb_fragments b2 = tb_fragments (an_builder st) @ fs"
    "\<forall>f\<in>set fs. af_kind f \<noteq> FragBody \<and> af_trust f \<in> ?ts"
    by (auto simp: adds_other_def)
  obtain gs where gs: "tb_fragments (an_builder st') = tb_fragments b2 @ gs"
    "\<forall>f\<in>set gs. fragment_of (te_body e) FragBody (te_trust e) f"
    "map af_content gs = (if te_body e = [] then [] else [te_body e])"
    using append_fragment_adds [OF b3] by blast
  have "filter (\<lambda>f. af_kind f = FragBody) fs = []" "filter (\<lambda>f. af_kind f = FragBody) gs = gs"
    using fs(2) gs(2) by (auto simp: filter_empty_conv filter_id_conv fragment_of_def)
  then have "entry_fragments n e (fs @ gs)"
    using fs(2) gs(2,3) by (auto simp: entry_fragments_def fragment_of_def split: if_splits)
  then show ?thesis using fs(1) gs(1) by auto
qed

lemma annotate_step_builder:
  assumes "annotate_step policy sep n e st = Inr st'" and "builder_ok (an_builder st)"
  shows "builder_ok (an_builder st')"
  using assms(1)
proof (rule annotate_stepE)
  fix b1 b2
  assume b1: "(if n = 0 then Inr (an_builder st)
      else append_fragment (te_entry_id e @ u '':entry-separator'') FragSeparator (te_entry_id e) sep
             (te_sources e) (te_trust e) (an_builder st)) = Inr b1"
    and b2: "b2 = b1 \<or> (\<exists>(m :: temporal_marker) (bm :: text_builder). append_fragment (te_entry_id e @ u '':marker'') FragMarker (te_entry_id e) (tm_text m)
         (tm_sources m) UntrustedData b1 = Inr bm \<and>
       (b2 = bm \<or> append_fragment (te_entry_id e @ u '':marker-separator'') FragSeparator (te_entry_id e) [10]
         (tm_sources m) UntrustedData bm = Inr b2))"
    and b3: "append_fragment (te_entry_id e @ u '':body'') FragBody (te_entry_id e) (te_body e)
       (te_sources e) (te_trust e) b2 = Inr (an_builder st')"
  have "builder_ok b1"
    using b1 assms(2) by (auto dest: append_fragment_sound(1) split: if_splits)
  then have "builder_ok b2" using b2 by (auto dest: append_fragment_sound(1))
  then show ?thesis using append_fragment_sound(1) [OF b3] by simp
qed

lemma annotate_loop_adds:
  "annotate_loop policy sep n es st = Inr st' \<Longrightarrow> builder_ok (an_builder st) \<Longrightarrow>
     builder_ok (an_builder st') \<and>
     (\<exists>fs. tb_fragments (an_builder st') = tb_fragments (an_builder st) @ fs \<and>
        af_trust ` set fs \<subseteq> insert UntrustedData (te_trust ` set es))"
proof (induction es arbitrary: n st)
  case Nil
  then show ?case by simp
next
  case (Cons e es)
  then obtain st1 where st1: "annotate_step policy sep n e st = Inr st1"
    "annotate_loop policy sep (Suc n) es st1 = Inr st'" by (auto simp: rbind_Inr_iff)
  obtain fs where fs: "tb_fragments (an_builder st1) = tb_fragments (an_builder st) @ fs" "entry_fragments n e fs"
    using annotate_step_adds [OF st1(1)] by blast
  then have "af_trust ` set fs \<subseteq> insert UntrustedData (te_trust ` set (e # es))"
    by (auto simp: entry_fragments_def split: if_splits)
  with Cons.IH [OF st1(2) annotate_step_builder [OF st1(1) Cons.prems(2)]] fs(1) show ?case by fastforce
qed

text \<open>A text with its fragments: they tile it, each is valid and none is empty.\<close>

definition located :: "pystr \<Rightarrow> fragment list \<Rightarrow> bool" where
  "located t fs \<longleftrightarrow>
     fragments_text fs = t \<and> tiled 0 fs \<and> list_all fragment_ok fs \<and> list_all (\<lambda>f. af_content f \<noteq> []) fs"

lemma builder_located: "builder_ok b \<Longrightarrow> located (tb_text b) (tb_fragments b)"
  by (simp add: builder_ok_def located_def)

lemma located_Nil [simp]: "located [] []" "located [] fs \<longleftrightarrow> fs = []"
  by (cases fs; simp add: located_def)+

lemma annotate_history_located:
  assumes "annotate_history es policy sep = Inr h"
  shows "located (ah_text h) (ah_fragments h)"
    and "af_trust ` set (ah_fragments h) \<subseteq> insert UntrustedData (te_trust ` set es)"
proof -
  have "located (ah_text h) (ah_fragments h) \<and>
    af_trust ` set (ah_fragments h) \<subseteq> insert UntrustedData (te_trust ` set es)"
  proof (cases "es = [] \<or> \<not> distinct (map te_entry_id es)")
    case True
    with assms show ?thesis by (auto simp: annotate_history_def validated_Inr split: if_splits)
  next
    case False
    with assms obtain st where st: "annotate_loop policy sep 0 es annotate_start = Inr st"
      "ah_text h = tb_text (an_builder st)" "ah_fragments h = tb_fragments (an_builder st)"
      by (auto simp: annotate_history_def validated_Inr rbind_Inr_iff)
    have "builder_ok (an_builder annotate_start)" "tb_fragments (an_builder annotate_start) = []"
      by (simp_all add: annotate_start_def, simp add: empty_builder_def)
    with annotate_loop_adds [OF st(1)] st(2,3) show ?thesis by (auto simp: builder_located)
  qed
  then show "located (ah_text h) (ah_fragments h)"
    "af_trust ` set (ah_fragments h) \<subseteq> insert UntrustedData (te_trust ` set es)" by simp_all
qed

lemma annotate_history_single:
  assumes "annotate_history [e] policy sep = Inr h"
  shows "entry_fragments 0 e (ah_fragments h)"
proof -
  from assms obtain st where st: "annotate_step policy sep 0 e annotate_start = Inr st"
    "ah_fragments h = tb_fragments (an_builder st)"
    by (auto simp: annotate_history_def validated_Inr rbind_Inr_iff)
  with annotate_step_adds [OF st(1)] show ?thesis by (auto simp: annotate_start_def empty_builder_def)
qed

text \<open>Positioning keeps content and trust of every piece that is not empty.\<close>

lemma position_loop_trust:
  "position_loop ps b = Inr b' \<Longrightarrow>
     map (\<lambda>f. (af_content f, af_trust f)) (tb_fragments b') =
     map (\<lambda>f. (af_content f, af_trust f)) (tb_fragments b) @
     map (\<lambda>p. (px_content p, px_trust p)) (filter (\<lambda>p. px_content p \<noteq> []) ps)"
proof (induction ps arbitrary: b)
  case Nil
  then show ?case by simp
next
  case (Cons p ps)
  then obtain b1 where b1: "append_fragment (px_piece_id p) (px_kind p) (piece_entry p) (px_content p)
      (px_sources p) (px_trust p) b = Inr b1" "position_loop ps b1 = Inr b'"
    by (auto simp: rbind_Inr_iff)
  from b1(1) have "map (\<lambda>f. (af_content f, af_trust f)) (tb_fragments b1) =
      map (\<lambda>f. (af_content f, af_trust f)) (tb_fragments b) @
      (if px_content p = [] then [] else [(px_content p, px_trust p)])"
    by (auto simp: append_fragment_def Let_def rbind_Inr_iff validated_Inr split: if_splits)
  with Cons.IH [OF b1(2)] show ?case by simp
qed

definition text_with :: "(trust_level \<Rightarrow> bool) \<Rightarrow> (pystr \<times> trust_level) list \<Rightarrow> pystr" where
  "text_with P cts = concat (map fst (filter (\<lambda>(c, t). P t) cts))"

definition trusts :: "fragment list \<Rightarrow> (pystr \<times> trust_level) list" where
  "trusts fs = map (\<lambda>f. (af_content f, af_trust f)) fs"

definition piece_trusts :: "text_piece list \<Rightarrow> (pystr \<times> trust_level) list" where
  "piece_trusts ps = map (\<lambda>p. (px_content p, px_trust p)) ps"

lemma text_with_simps [simp]:
  "text_with P [] = []" "text_with P ((c, t) # xs) = (if P t then c else []) @ text_with P xs"
  "text_with P (xs @ ys) = text_with P xs @ text_with P ys"
  by (simp_all add: text_with_def)

lemma text_with_nonempty: "text_with P (filter (\<lambda>(c, t). c \<noteq> []) cts) = text_with P cts"
  by (induction cts) auto

lemma piece_trusts_simps [simp]:
  "piece_trusts [] = []" "piece_trusts (p # ps) = (px_content p, px_trust p) # piece_trusts ps"
  "piece_trusts (ps @ qs) = piece_trusts ps @ piece_trusts qs"
  by (simp_all add: piece_trusts_def)

lemma piece_trusts_fragments [simp]: "piece_trusts (pieces_from_fragments fs) = trusts fs"
  by (simp add: piece_trusts_def pieces_from_fragments_def trusts_def comp_def)

lemma filter_piece_trusts:
  "map (\<lambda>p. (px_content p, px_trust p)) (filter (\<lambda>p. px_content p \<noteq> []) ps) =
     filter (\<lambda>(c, t). c \<noteq> []) (piece_trusts ps)"
  by (induction ps) simp_all

lemma position_pieces_located:
  assumes "position_pieces ps = Inr (t, fs)"
  shows "located t fs" "trusts fs = filter (\<lambda>(c, t). c \<noteq> []) (piece_trusts ps)"
proof -
  from assms obtain b where b: "position_loop ps empty_builder = Inr b" "t = tb_text b" "fs = tb_fragments b"
    by (auto simp: position_pieces_def rbind_Inr_iff)
  have "builder_ok b" using position_loop_sound [OF b(1) builder_ok_empty] by simp
  then show "located t fs" using b(2,3) builder_located by simp
  from position_loop_trust [OF b(1)] show "trusts fs = filter (\<lambda>(c, t). c \<noteq> []) (piece_trusts ps)"
    by (simp add: b(3) trusts_def empty_builder_def filter_piece_trusts)
qed

lemma wrap_block_trusts:
  assumes "wrap_block r name pieces = Inr (t, fs)"
  obtains bid where "boundary_id name (concat (map px_content pieces)) = Inr bid"
    and "t = boundary_opening name bid @ concat (map px_content pieces) @
           before_close (concat (map px_content pieces)) @ boundary_closing name bid"
    and "located t fs"
    and "\<And>P. text_with P (trusts fs) = (if P TrustedInstruction then boundary_opening name bid else []) @
           text_with P (piece_trusts pieces) @
           (if P TrustedInstruction then before_close (concat (map px_content pieces)) @ boundary_closing name bid
            else [])"
proof -
  let ?c = "concat (map px_content pieces)"
  from assms obtain bid ss where
    bid: "boundary_id name ?c = Inr bid" and
    pp: "position_pieces (frame_piece name '':untrusted-boundary-open'' (boundary_opening name bid) ss #
      pieces @ [frame_piece name '':untrusted-boundary-close-separator'' (before_close ?c) ss,
        frame_piece name '':untrusted-boundary-close'' (boundary_closing name bid) ss]) = Inr (t, fs)"
    unfolding wrap_block_def Let_def rbind_Inr_iff by blast
  show ?thesis
    using position_pieces_sound(1) [OF pp] position_pieces_located [OF pp]
    by (intro that [OF bid]) (simp_all add: frame_piece_def text_with_nonempty)
qed

subsection \<open>The segments of an assembled context\<close>

definition segment_located :: "prompt_segment \<Rightarrow> bool" where
  "segment_located s \<longleftrightarrow> sg_fragments s = [] \<or> located (sg_content s) (sg_fragments s)"

text \<open>
  A data segment is labelled untrusted. With a renderer its content is framed, and what its fragments
  label untrusted is exactly the content between the two lines of the frame.
\<close>

definition data_segment :: "boundary_renderer option \<Rightarrow> prompt_segment \<Rightarrow> bool" where
  "data_segment renderer s \<longleftrightarrow>
     sg_trust s = UntrustedData \<and>
     (case renderer of
        None \<Rightarrow> (\<forall>f\<in>set (sg_fragments s). af_trust f = UntrustedData)
      | Some _ \<Rightarrow> (\<exists>bid body. boundary_id (sg_id s) body = Inr bid \<and>
          sg_content s = boundary_opening (sg_id s) bid @ body @ before_close body @ boundary_closing (sg_id s) bid \<and>
          text_with (\<lambda>t. t = UntrustedData) (trusts (sg_fragments s)) = body \<and>
          text_with (\<lambda>t. t \<noteq> UntrustedData) (trusts (sg_fragments s)) =
            boundary_opening (sg_id s) bid @ before_close body @ boundary_closing (sg_id s) bid))"

text \<open>The segment of the current input: what is labelled a user instruction is exactly the input.\<close>

definition input_segment :: "boundary_renderer option \<Rightarrow> pystr \<Rightarrow> prompt_segment \<Rightarrow> bool" where
  "input_segment renderer input s \<longleftrightarrow>
     sg_id s = u ''current_input'' \<and> sg_trust s = UserInstruction \<and>
     (if sg_fragments s = [] then sg_content s = input
      else text_with (\<lambda>t. t = UserInstruction) (trusts (sg_fragments s)) = input \<and>
           (renderer \<noteq> None \<longrightarrow> text_with (\<lambda>t. t = UntrustedData) (trusts (sg_fragments s)) = []))"

definition instruction_segment :: "pystr \<Rightarrow> prompt_segment \<Rightarrow> bool" where
  "instruction_segment content s \<longleftrightarrow>
     sg_trust s = TrustedInstruction \<and> sg_content s = content \<and>
     (\<forall>f\<in>set (sg_fragments s). af_trust f = TrustedInstruction)"

lemma text_with_uniform:
  "\<forall>f\<in>set fs. af_trust f = t \<Longrightarrow> text_with P (trusts fs) = (if P t then fragments_text fs else [])"
  by (induction fs) (auto simp: trusts_def)

lemma text_with_uniform_piece:
  "text_with P (piece_trusts [p]) = (if P (px_trust p) then px_content p else [])"
  by simp

lemma pieces_from_fragments_content [simp]:
  "concat (map px_content (pieces_from_fragments fs)) = fragments_text fs"
  by (simp add: pieces_from_fragments_def fragments_text_def comp_def)

lemma untrusted_segment_facts:
  assumes "untrusted_segment pa name content ids fs revision = Inr s"
    and "\<forall>f\<in>set fs. af_trust f = UntrustedData" and "fs = [] \<or> located content fs"
  shows "sg_id s = name" "segment_located s" "data_segment (pa_renderer pa) s"
proof -
  have "sg_id s = name \<and> segment_located s \<and> data_segment (pa_renderer pa) s"
  proof (cases "pa_renderer pa")
    case None
    with assms show ?thesis by (auto simp: untrusted_segment_def segment_located_def data_segment_def)
  next
    case (Some r)
    with assms(1) obtain pieces t gs where
      pieces: "(if fs \<noteq> [] then Inr (pieces_from_fragments fs)
         else rbind (block_source name content ids revision) (\<lambda>s.
           Inr [\<lparr>px_piece_id = name @ u '':body'', px_content = content, px_sources = [s],
                 px_trust = UntrustedData, px_entry_id = Some name, px_kind = FragBody\<rparr>])) = Inr pieces" and
      wrap: "wrap_block r name pieces = Inr (t, gs)" and
      s: "s = \<lparr>sg_id = name, sg_trust = UntrustedData, sg_content = t, sg_source_ids = ids, sg_fragments = gs\<rparr>"
      by (auto simp: untrusted_segment_def rbind_Inr_iff)
    have body: "text_with P (piece_trusts pieces) = (if P UntrustedData then concat (map px_content pieces) else [])" for P
      using pieces text_with_uniform [OF assms(2), of P] by (auto simp: rbind_Inr_iff split: if_splits)
    let ?c = "concat (map px_content pieces)"
    from wrap_block_trusts [OF wrap] obtain bid where
      bid: "boundary_id name ?c = Inr bid" and
      t: "t = boundary_opening name bid @ ?c @ before_close ?c @ boundary_closing name bid" and
      loc: "located t gs" and
      tw: "\<And>P. text_with P (trusts gs) = (if P TrustedInstruction then boundary_opening name bid else []) @
           text_with P (piece_trusts pieces) @
           (if P TrustedInstruction then before_close ?c @ boundary_closing name bid else [])" by blast
    have "data_segment (pa_renderer pa) s"
      unfolding data_segment_def Some option.case s prompt_segment.simps tw body
      by (intro conjI refl exI [of _ bid] exI [of _ ?c] bid t) simp_all
    then show ?thesis using loc by (simp add: s segment_located_def)
  qed
  then show "sg_id s = name" "segment_located s" "data_segment (pa_renderer pa) s" by simp_all
qed

lemma project_untrusted:
  "project_memory pj m b src = Inr e \<Longrightarrow> te_trust e = UntrustedData"
  "project_overview pj c b src = Inr (Some e) \<Longrightarrow> te_trust e = UntrustedData"
  "recent_entry revision r = Inr e \<Longrightarrow> te_trust e = UntrustedData"
  by (auto simp: project_memory_def project_overview_def recent_entry_def event_entry_def Let_def rbind_Inr_iff
      validated_Inr split: if_splits option.splits)

lemma history_untrusted:
  assumes "annotate_history es policy sep = Inr h" and "\<forall>e\<in>set es. te_trust e = UntrustedData"
  shows "\<forall>f\<in>set (ah_fragments h). af_trust f = UntrustedData"
    and "ah_fragments h = [] \<or> located (or_brackets (ah_text h)) (ah_fragments h)"
    and "ah_fragments h = [] \<or> located (ah_text h) (ah_fragments h)"
proof -
  note h = annotate_history_located [OF assms(1)]
  show "\<forall>f\<in>set (ah_fragments h). af_trust f = UntrustedData" using h(2) assms(2) by fastforce
  show "ah_fragments h = [] \<or> located (or_brackets (ah_text h)) (ah_fragments h)"
    using h(1) by (cases "ah_text h = []") (simp_all add: or_brackets_def)
  show "ah_fragments h = [] \<or> located (ah_text h) (ah_fragments h)" using h(1) by simp
qed

text \<open>A block text with the history it was annotated as, when it was.\<close>

definition block_history :: "pystr \<Rightarrow> annotated_history option \<Rightarrow> bool" where
  "block_history t oh \<longleftrightarrow>
     (case oh of None \<Rightarrow> True
      | Some h \<Rightarrow> (\<exists>es policy. annotate_history es policy [10] = Inr h \<and> (\<forall>e\<in>set es. te_trust e = UntrustedData)) \<and>
          (t = ah_text h \<or> t = or_brackets (ah_text h)))"

lemma block_history_facts:
  assumes "block_history t oh"
  shows "\<forall>f\<in>set (history_fragments oh). af_trust f = UntrustedData"
    and "history_fragments oh = [] \<or> located t (history_fragments oh)"
proof -
  have "(\<forall>f\<in>set (history_fragments oh). af_trust f = UntrustedData) \<and>
    (history_fragments oh = [] \<or> located t (history_fragments oh))"
  proof (cases oh)
    case None
    then show ?thesis by (simp add: history_fragments_def)
  next
    case (Some h)
    with assms obtain es policy where h: "annotate_history es policy [10] = Inr h"
      "\<forall>e\<in>set es. te_trust e = UntrustedData" and t: "t = ah_text h \<or> t = or_brackets (ah_text h)"
      by (auto simp: block_history_def)
    from history_untrusted [OF h] t show ?thesis by (auto simp: history_fragments_def Some)
  qed
  then show "\<forall>f\<in>set (history_fragments oh). af_trust f = UntrustedData"
    "history_fragments oh = [] \<or> located t (history_fragments oh)" by simp_all
qed

lemma block_historyI:
  "annotate_history es policy [10] = Inr h \<Longrightarrow> (\<And>e. e \<in> set es \<Longrightarrow> te_trust e = UntrustedData) \<Longrightarrow>
     t = ah_text h \<or> t = or_brackets (ah_text h) \<Longrightarrow> block_history t (Some h)"
  by (auto simp: block_history_def)

lemma block_history_None [simp]: "block_history t None"
  by (simp add: block_history_def)

lemma overview_history_block:
  assumes "overview_history pa inp projector = Inr oh"
  shows "block_history (or_brackets (case oh of Some h \<Rightarrow> ah_text h | None \<Rightarrow> t)) oh"
proof (cases oh)
  case (Some h)
  with assms obtain p m e policy where "project_overview p m None None = Inr (Some e)"
    "annotate_history [e] policy [10] = Inr h"
    by (auto simp: overview_history_def rbind_Inr_iff split: option.splits prod.splits)
  with project_untrusted(2) [OF this(1)] show ?thesis
    unfolding Some by (intro block_historyI) auto
qed simp

lemma long_term_block_block:
  assumes "long_term_block str_item pa inp projector = Inr (t, ids, lh)"
  shows "block_history t lh"
proof (cases lh)
  case (Some h)
  with assms obtain policy p m ms es where es: "rmap (\<lambda>m. project_memory p m None None) (m # ms) = Inr es"
    "annotate_history es policy [10] = Inr h" "t = ah_text h"
    by (auto simp: long_term_block_def Let_def rbind_Inr_iff simp del: rmap.simps
        split: option.splits prod.splits list.splits)
  have "te_trust e = UntrustedData" if "e \<in> set es" for e
    using rmap_Inr_set [OF es(1) that] project_untrusted(1) by blast
  with es show ?thesis unfolding Some by (intro block_historyI) auto
qed simp

lemma recent_block_block:
  assumes "recent_block pa inp = Inr (t, rh)"
  shows "block_history t rh"
proof (cases rh)
  case (Some h)
  with assms obtain policy es where es: "rmap (recent_entry (ai_config_revision inp)) (ai_recent inp) = Inr es"
    "annotate_history es policy [10] = Inr h" "t = or_brackets (ah_text h)"
    by (auto simp: recent_block_def rbind_Inr_iff split: option.splits if_splits)
  have "te_trust e = UntrustedData" if "e \<in> set es" for e
    using rmap_Inr_set [OF es(1) that] project_untrusted(3) by blast
  with es show ?thesis unfolding Some by (intro block_historyI) auto
qed simp

lemma memory_segments_facts:
  assumes "memory_segments str_item pa inp = Inr ss"
  obtains s1 s2 s3 where "ss = [s1, s2, s3]"
    and "map sg_id ss = [u ''memory_overview'', u ''long_term_memories'', u ''recent_records'']"
    and "list_all segment_located ss" "list_all (data_segment (pa_renderer pa)) ss"
    and "check_budgets inp s1 s2 s3 = Inr ()"
proof -
  from assms obtain pj oh lt ids lh rt rh s1 s2 s3 where
    oh: "overview_history pa inp pj = Inr oh" and
    lh: "long_term_block str_item pa inp pj = Inr (lt, ids, lh)" and
    rh: "recent_block pa inp = Inr (rt, rh)" and
    s1: "untrusted_segment pa (u ''memory_overview'') (or_brackets (case oh of Some h \<Rightarrow> ah_text h
        | None \<Rightarrow> overview_text (ai_overview inp))) (overview_source_ids (overview_model (ai_overview inp)))
        (history_fragments oh) (ai_config_revision inp) = Inr s1" and
    s2: "untrusted_segment pa (u ''long_term_memories'') lt ids (history_fragments lh) (ai_config_revision inp) = Inr s2" and
    s3: "untrusted_segment pa (u ''recent_records'') rt (map rr_record_id (ai_recent inp)) (history_fragments rh)
        (ai_config_revision inp) = Inr s3" and
    budget: "check_budgets inp s1 s2 s3 = Inr ()" and ss: "ss = [s1, s2, s3]"
    by (auto simp: memory_segments_def rbind_Inr_iff Let_def)
  note f1 = untrusted_segment_facts [OF s1 block_history_facts [OF overview_history_block [OF oh]]]
  note f2 = untrusted_segment_facts [OF s2 block_history_facts [OF long_term_block_block [OF lh]]]
  note f3 = untrusted_segment_facts [OF s3 block_history_facts [OF recent_block_block [OF rh]]]
  show ?thesis using f1 f2 f3 budget by (intro that [OF ss]) (simp_all add: ss)
qed

lemma text_with_trusts_filter:
  "text_with P (trusts fs) = concat (map af_content (filter (\<lambda>f. P (af_trust f)) fs))"
  by (induction fs) (simp_all add: trusts_def)

lemma first_entry_trusts:
  assumes "entry_fragments 0 e fs" and "te_trust e = UserInstruction"
  shows "text_with (\<lambda>t. t = UserInstruction) (trusts fs) = te_body e"
proof -
  have "filter (\<lambda>f. af_trust f = UserInstruction) fs = filter (\<lambda>f. af_kind f = FragBody) fs"
    using assms by (intro filter_cong) (auto simp: entry_fragments_def split: if_splits)
  then show ?thesis using assms(1) by (simp add: text_with_trusts_filter entry_fragments_def)
qed

lemma body_fragment_content:
  assumes "entry_fragments 0 e fs" and "filter (\<lambda>f. af_kind f = FragBody) fs = b # bs"
  shows "af_content b = te_body e" "af_trust b = te_trust e"
proof -
  from assms show "af_content b = te_body e" by (simp add: entry_fragments_def split: if_splits)
  have "b \<in> set fs" "af_kind b = FragBody"
    using arg_cong [OF assms(2), of set] by auto
  with assms(1) show "af_trust b = te_trust e" by (auto simp: entry_fragments_def)
qed

lemma marker_pieces_trust: "text_with P (piece_trusts (marker_pieces fs)) =
    (if P TrustedMetadata then concat (map px_content (marker_pieces fs)) else [])"
  by (induction fs) (simp_all add: marker_pieces_def)

lemma event_entry_fields:
  "event_entry r body source trust = Inr e \<Longrightarrow> te_body e = body \<and> te_trust e = trust"
  by (auto simp: event_entry_def rbind_Inr_iff validated_Inr)

lemma current_input_facts:
  assumes "current_input_segment pa r = Inr s"
  shows "segment_located s" "input_segment (pa_renderer pa) (rr_content r) s"
proof -
  have "segment_located s \<and> input_segment (pa_renderer pa) (rr_content r) s"
  proof (cases "pa_policy pa")
    case None
    with assms show ?thesis
      by (auto simp: current_input_segment_def rbind_Inr_iff current_segment_def segment_located_def
          input_segment_def)
  next
    case policy: (Some policy)
    from assms obtain source e h where source: "current_source r = Inr source"
      and e: "event_entry r (rr_content r) source UserInstruction = Inr e"
      and h: "annotate_history [e] policy [10] = Inr h"
      by (auto simp: current_input_segment_def rbind_Inr_iff policy)
    note fields = event_entry_fields [OF e] and loc = annotate_history_located(1) [OF h]
      and single = annotate_history_single [OF h]
    show ?thesis
    proof (cases "pa_renderer pa")
      case None
      with assms source e h have "s = current_segment r (ah_text h) (ah_fragments h)"
        by (auto simp: current_input_segment_def rbind_Inr_iff policy)
      moreover have "rr_content r = ah_text h" if "ah_fragments h = []"
        using loc first_entry_trusts [OF single] fields that by (simp add: located_def trusts_def)
      ultimately show ?thesis using loc first_entry_trusts [OF single] fields None
        by (auto simp: segment_located_def input_segment_def current_segment_def)
    next
      case (Some renderer)
      with assms source e h policy obtain b bs bt bounded t fs where
        b: "filter (\<lambda>f. af_kind f = FragBody) (ah_fragments h) = b # bs" and
        wrap: "wrap_block renderer (u ''current_input'') (pieces_from_fragments [b]) = Inr (bt, bounded)" and
        pos: "position_pieces (marker_pieces (ah_fragments h) @ pieces_from_fragments bounded) = Inr (t, fs)" and
        s: "s = current_segment r t fs"
        by (auto simp: current_input_segment_def rbind_Inr_iff split: list.splits)
      note body = body_fragment_content [OF single b]
      have tw: "text_with P (trusts bounded) = text_with P (trusts [b])" if "\<not> P TrustedInstruction" for P
        by (rule wrap_block_trusts [OF wrap]) (simp add: that)
      have b_trusts: "trusts [b] = [(rr_content r, UserInstruction)]" using body fields by (simp add: trusts_def)
      have bounded: "text_with (\<lambda>t. t = UserInstruction) (trusts bounded) = rr_content r"
        "text_with (\<lambda>t. t = UntrustedData) (trusts bounded) = []"
        by (simp_all add: tw b_trusts)
      note p = position_pieces_located [OF pos]
      have "text_with (\<lambda>t. t = UserInstruction) (trusts fs) = rr_content r"
        "text_with (\<lambda>t. t = UntrustedData) (trusts fs) = []"
        unfolding p(2) text_with_nonempty by (simp_all add: marker_pieces_trust bounded)
      moreover have "rr_content r = t" if "fs = []"
        using p(1) that calculation(1) by (simp add: located_def trusts_def)
      ultimately show ?thesis
        using p(1) by (auto simp: s current_segment_def segment_located_def input_segment_def)
    qed
  qed
  then show "segment_located s" "input_segment (pa_renderer pa) (rr_content r) s" by simp_all
qed

lemma base_segment_facts:
  assumes "base_segment pa revision = Inr s"
  shows "segment_located s" "sg_id s = u ''base_persona''"
    "instruction_segment (case pa_renderer pa of None \<Rightarrow> pa_base_persona pa
       | Some r \<Rightarrow> rstrip (pa_base_persona pa) @ [10, 10] @ instruction_text r) s"
proof -
  have "segment_located s \<and> sg_id s = u ''base_persona'' \<and>
    instruction_segment (case pa_renderer pa of None \<Rightarrow> pa_base_persona pa
       | Some r \<Rightarrow> rstrip (pa_base_persona pa) @ [10, 10] @ instruction_text r) s"
  proof (cases "pa_renderer pa")
    case None
    with assms show ?thesis
      by (auto simp: base_segment_def plain_segment_def segment_located_def instruction_segment_def)
  next
    case (Some r)
    with assms obtain src t fs where c: "compose_system_instruction r (pa_base_persona pa) src (u ''chat-system'') = Inr (t, fs)"
      and s: "s = (plain_segment (u ''base_persona'') TrustedInstruction t)\<lparr>sg_fragments := fs\<rparr>"
      by (auto simp: base_segment_def rbind_Inr_iff)
    from c obtain ps where ps: "position_pieces ps = Inr (t, fs)" "\<forall>p\<in>set ps. px_trust p = TrustedInstruction"
      by (fastforce simp: compose_system_instruction_def Let_def rbind_Inr_iff)
    have "(af_content f, af_trust f) \<in> set (piece_trusts ps)" if "f \<in> set fs" for f
    proof -
      have "(af_content f, af_trust f) \<in> set (trusts fs)" using that by (auto simp: trusts_def)
      then show ?thesis unfolding position_pieces_located(2) [OF ps(1)] by simp
    qed
    then have "\<forall>f\<in>set fs. af_trust f = TrustedInstruction"
      using ps(2) by (fastforce simp: piece_trusts_def)
    with position_pieces_located(1) [OF ps(1)] compose_system_instruction_text(1) [OF c] Some show ?thesis
      by (simp add: s plain_segment_def segment_located_def instruction_segment_def)
  qed
  then show "segment_located s" "sg_id s = u ''base_persona''"
    "instruction_segment (case pa_renderer pa of None \<Rightarrow> pa_base_persona pa
       | Some r \<Rightarrow> rstrip (pa_base_persona pa) @ [10, 10] @ instruction_text r) s" by simp_all
qed

text \<open>The input of the turn, as text.\<close>

definition turn_input :: "assemble_input \<Rightarrow> pystr" where
  "turn_input inp = (case ai_current_record inp of Some r \<Rightarrow> rr_content r | None \<Rightarrow> the (ai_current_input inp))"

lemma assemble_facts:
  assumes "assemble str_item pa inp = Inr ctx"
  obtains base s1 s2 s3 current where
    "pk_segments ctx = base # persona_segments pa inp @ [s1, s2, s3, current]"
    and "base_segment pa (ai_config_revision inp) = Inr base"
    and "memory_segments str_item pa inp = Inr [s1, s2, s3]"
    and "segment_located current" "input_segment (pa_renderer pa) (turn_input inp) current"
    and "length (sn_ordered_persona_ids (ai_state_resolution inp)) = length (pa_state_personas pa)"
proof -
  from assms obtain base memory current where
    check: "check_current_input pa inp = Inr ()" and
    base: "base_segment pa (ai_config_revision inp) = Inr base" and
    memory: "memory_segments str_item pa inp = Inr memory" and
    current: "(case ai_current_record inp of
              Some r \<Rightarrow> current_input_segment pa r
            | None \<Rightarrow> Inr (direct_input_segment inp)) = Inr current" and
    segments: "pk_segments ctx = base # persona_segments pa inp @ memory @ [current]"
    by (auto simp: assemble_def rbind_Inr_iff Let_def split: if_splits)
  obtain s1 s2 s3 where ss: "memory = [s1, s2, s3]" by (rule memory_segments_facts [OF memory])
  have cur: "segment_located current" "input_segment (pa_renderer pa) (turn_input inp) current"
    using check current current_input_facts [of pa _ current]
    by (auto simp: check_current_input_def turn_input_def direct_input_segment_def segment_located_def
        input_segment_def split: if_splits option.splits)
  have "length (sn_ordered_persona_ids (ai_state_resolution inp)) = length (pa_state_personas pa)"
    using check by (auto simp: check_current_input_def split: if_splits)
  from that [OF _ base _ cur this] memory segments show ?thesis by (simp add: ss)
qed

text \<open>
  C22. The trust labels of an assembled context are typed. Its segments are the base persona, the personas of
  the state in order, overview, long-term memories, recent records and the current input. The personas are
  trusted instructions and hold nothing but configured text; the memory blocks are untrusted data, framed when
  there is a renderer, with everything between the two lines of the frame, and nothing else, labelled untrusted;
  and what the last segment labels a user instruction is exactly the input of the turn.
\<close>

theorem assembled_context_typed:
  assumes "assemble str_item pa inp = Inr ctx"
  shows "\<exists>base overview long_term recent current.
    pk_segments ctx = base # persona_segments pa inp @ [overview, long_term, recent, current] \<and>
    sg_id base = u ''base_persona'' \<and>
    instruction_segment (case pa_renderer pa of None \<Rightarrow> pa_base_persona pa
       | Some r \<Rightarrow> rstrip (pa_base_persona pa) @ [10, 10] @ instruction_text r) base \<and>
    map sg_content (persona_segments pa inp) = pa_state_personas pa \<and>
    list_all (\<lambda>s. sg_trust s = TrustedInstruction \<and> sg_fragments s = []) (persona_segments pa inp) \<and>
    map sg_id [overview, long_term, recent] =
      [u ''memory_overview'', u ''long_term_memories'', u ''recent_records''] \<and>
    list_all (data_segment (pa_renderer pa)) [overview, long_term, recent] \<and>
    input_segment (pa_renderer pa) (turn_input inp) current"
proof -
  obtain base s1 s2 s3 current where c:
    "pk_segments ctx = base # persona_segments pa inp @ [s1, s2, s3, current]"
    "base_segment pa (ai_config_revision inp) = Inr base"
    "memory_segments str_item pa inp = Inr [s1, s2, s3]"
    "input_segment (pa_renderer pa) (turn_input inp) current"
    "length (sn_ordered_persona_ids (ai_state_resolution inp)) = length (pa_state_personas pa)"
    by (rule assemble_facts [OF assms])
  have "map sg_content (persona_segments pa inp) = pa_state_personas pa"
    using c(5) by (simp add: persona_segments_def plain_segment_def split_def comp_def)
  moreover have "list_all (\<lambda>s. sg_trust s = TrustedInstruction \<and> sg_fragments s = []) (persona_segments pa inp)"
    by (auto simp: persona_segments_def plain_segment_def list_all_iff)
  moreover have "map sg_id [s1, s2, s3] = [u ''memory_overview'', u ''long_term_memories'', u ''recent_records''] \<and>
      list_all (data_segment (pa_renderer pa)) [s1, s2, s3]"
    by (rule memory_segments_facts [OF c(3)]) simp
  ultimately show ?thesis
    using c(1,4) base_segment_facts [OF c(2)]
    by (intro exI [of _ base] exI [of _ s1] exI [of _ s2] exI [of _ s3] exI [of _ current]) simp
qed

text \<open>Sample data: an assembler with one state persona and a renderer, and a direct input.\<close>

definition sample_assembler :: prompt_assembler where
  "sample_assembler =
     \<lparr>pa_base_persona = u ''be kind'', pa_state_personas = [u ''calm''], pa_base_asset = None,
      pa_state_assets = [], pa_policy = None, pa_renderer = Some sample_renderer\<rparr>"

definition sample_assemble_input :: assemble_input where
  "sample_assemble_input =
     \<lparr>ai_flow_id = u ''f'', ai_turn_id = u ''t'', ai_config_revision = u ''r'',
      ai_state_resolution = \<lparr>sn_state_id = u ''default'', sn_ordered_persona_ids = [u ''calm''],
        sn_resolver_id = u ''static'', sn_resolver_version = u ''1'', sn_reason_code = u ''x''\<rparr>,
      ai_overview = OverviewText (u ''o''), ai_long_items = [MemoryText (u ''likes tea'')],
      ai_long_source_ids = [u ''m''], ai_recent = [], ai_current_record = None, ai_current_input = Some (u ''hi''),
      ai_all_records = None, ai_curated_through = 0, ai_budgets = [], ai_projector = None\<rparr>"

lemma sample_block_names:
  "valid_block_name (u ''memory_overview'')" "valid_block_name (u ''long_term_memories'')"
  "valid_block_name (u ''recent_records'')"
  by (simp_all add: u_Cons block_head_char_def block_char_def)

lemma untrusted_text_total:
  assumes "valid_block_name name" and "source_ref_ok (br_config_source r)" and "pa_renderer pa = Some r"
    and "name \<noteq> u ''current_input''"
  shows "\<exists>s. untrusted_segment pa name content ids [] revision = Inr s"
proof -
  have "project_relative (u ''data/memory/raw'')" by code_simp
  then have "\<exists>src. block_source name content ids revision = Inr src \<and> source_ref_ok src"
    using yaml_path_relative assms(4)
    by (cases "name = u ''recent_records''") (simp_all add: block_source_def source_ref_ok_def validated_def Let_def)
  then obtain src where src: "block_source name content ids revision = Inr src" "source_ref_ok src" by blast
  let ?p = "\<lparr>px_piece_id = name @ u '':body'', px_content = content, px_sources = [src],
      px_trust = UntrustedData, px_entry_id = Some name, px_kind = FragBody\<rparr>"
  have "name \<noteq> []" using assms(1) by auto
  then have "list_all (\<lambda>p. px_content p \<noteq> [] \<longrightarrow> text_piece_ok p) [?p]"
    using src(2) by (simp add: text_piece_ok_def piece_ok_def piece_entry_def falsy_def)
  from wrap_block_total [OF assms(1,2) this] src(1) assms(3) show ?thesis
    by (auto simp: untrusted_segment_def)
qed

lemma compose_total:
  assumes "source_ref_ok src" and "source_ref_ok (br_config_source r)" and "cid \<noteq> []"
  shows "\<exists>t fs. compose_system_instruction r persona src cid = Inr (t, fs)"
proof -
  define ss :: source_ref where "ss = \<lparr>sf_source_kind = SrcGenerated,
      sf_source_id = u ''generated:trusted-composition:'' @ cid, sf_path = None,
      sf_content_sha256 = Some (content_hash [10, 10]), sf_revision = Some (ca_revision (br_asset r)),
      sf_entity_ids = [cid], sf_producer = u ''trusted_prompt_composer''\<rparr>"
  have ss: "source_ref_ok ss" by (simp add: ss_def source_ref_ok_def)
  let ?ps = "[\<lparr>px_piece_id = cid @ u '':persona'', px_content = rstrip persona, px_sources = [src],
         px_trust = TrustedInstruction, px_entry_id = Some cid, px_kind = FragBody\<rparr>,
        \<lparr>px_piece_id = cid @ u '':separator'', px_content = [10, 10], px_sources = [ss],
         px_trust = TrustedInstruction, px_entry_id = Some cid, px_kind = FragSeparator\<rparr>,
        \<lparr>px_piece_id = cid @ u '':untrusted-boundary-instruction'', px_content = instruction_text r,
         px_sources = [br_config_source r], px_trust = TrustedInstruction,
         px_entry_id = Some cid, px_kind = FragBody\<rparr>]"
  have "list_all (\<lambda>p. px_content p \<noteq> [] \<longrightarrow> text_piece_ok p) ?ps"
    using assms ss by (simp add: text_piece_ok_def piece_ok_def piece_entry_def falsy_def)
  from position_pieces_ok [OF this] show ?thesis
    using ss unfolding compose_system_instruction_def Let_def ss_def [symmetric] by (auto simp: validated_def)
qed

lemma sample_assembles: "\<exists>ctx. assemble (\<lambda>_. []) sample_assembler sample_assemble_input = Inr ctx"
proof -
  let ?pa = sample_assembler and ?inp = sample_assemble_input
  have r: "source_ref_ok (br_config_source sample_renderer)" "pa_renderer ?pa = Some sample_renderer"
    "pa_policy ?pa = None" "pa_base_asset ?pa = None"
    by (simp_all add: sample_renderer_def sample_assembler_def)
  obtain base where base: "base_segment ?pa (u ''r'') = Inr base"
  proof -
    let ?src = "\<lparr>sf_source_kind = SrcGenerated, sf_source_id = u ''generated:base_persona'', sf_path = None,
        sf_content_sha256 = Some (content_hash (pa_base_persona ?pa)), sf_revision = Some (u ''r''),
        sf_entity_ids = [], sf_producer = u ''prompt_assembler''\<rparr>"
    have src: "source_ref_ok ?src" by (simp add: source_ref_ok_def)
    then obtain t fs where
      "compose_system_instruction sample_renderer (pa_base_persona ?pa) ?src (u ''chat-system'') = Inr (t, fs)"
      using compose_total [OF src r(1)] by (metis u_eq_Nil list.distinct(1))
    with src that show ?thesis by (simp add: base_segment_def r validated_def)
  qed
  note total = untrusted_text_total [OF _ r(1,2)]
  obtain s1 where s1: "untrusted_segment ?pa (u ''memory_overview'') (u ''o'') [] [] (u ''r'') = Inr s1"
    using total [OF sample_block_names(1), of "u ''o''" "[]" "u ''r''"] by auto
  obtain s2 where s2: "untrusted_segment ?pa (u ''long_term_memories'') (u ''likes tea'') [u ''m''] [] (u ''r'') = Inr s2"
    using total [OF sample_block_names(2), of "u ''likes tea''" "[u ''m'']" "u ''r''"] by auto
  obtain s3 where s3: "untrusted_segment ?pa (u ''recent_records'') (u ''[]'') [] [] (u ''r'') = Inr s3"
    using total [OF sample_block_names(3), of "u ''[]''" "[]" "u ''r''"] by auto
  have memory: "memory_segments (\<lambda>_. []) ?pa ?inp = Inr [s1, s2, s3]"
    using s1 s2 s3
    by (simp add: memory_segments_def sample_assemble_input_def chosen_projector_def overview_history_def r
        long_term_block_def recent_block_def history_fragments_def overview_source_ids_def or_brackets_def
        limit_of_def check_budgets_def)
  have ids: "sg_id base = u ''base_persona''" by (rule base_segment_facts [OF base])
  have ids': "map sg_id [s1, s2, s3] = [u ''memory_overview'', u ''long_term_memories'', u ''recent_records'']"
    by (rule memory_segments_facts [OF memory]) simp
  have inp: "ai_config_revision ?inp = u ''r''" "ai_current_record ?inp = None" "overview_model (ai_overview ?inp) = None"
    "checked_coverage ?inp = Inr None" "check_current_input ?pa ?inp = Inr ()"
    by (simp_all add: sample_assemble_input_def checked_coverage_def check_current_input_def sample_assembler_def)
  have "required_segments \<subseteq> sg_id ` set (base # persona_segments ?pa ?inp @ [s1, s2, s3] @ [direct_input_segment ?inp])"
    using ids ids' unfolding required_segments_def by (simp add: direct_input_segment_def)
  with base memory inp show ?thesis by (simp add: assemble_def Let_def insert_commute)
qed

theorem assembled_context_typed_witness:
  "\<exists>ctx. assemble (\<lambda>_. []) sample_assembler sample_assemble_input = Inr ctx \<and> length (pk_segments ctx) = 6 \<and>
     input_segment (Some sample_renderer) (u ''hi'') (last (pk_segments ctx))"
proof -
  obtain ctx where ctx: "assemble (\<lambda>_. []) sample_assembler sample_assemble_input = Inr ctx"
    using sample_assembles by blast
  have "turn_input sample_assemble_input = u ''hi''" "pa_renderer sample_assembler = Some sample_renderer"
    "length (persona_segments sample_assembler sample_assemble_input) = 1"
    by (simp_all add: turn_input_def sample_assemble_input_def sample_assembler_def persona_segments_def)
  with assembled_context_typed [OF ctx] ctx show ?thesis by fastforce
qed

subsection \<open>Request parts of an assembled context\<close>

text \<open>What the parts of segment \<open>i\<close> say: they spell out its content, each from where it stands.\<close>

definition parts_exact :: "nat \<Rightarrow> prompt_segment \<Rightarrow> request_part list \<Rightarrow> bool" where
  "parts_exact i s ps \<longleftrightarrow>
     concat (map rp_content ps) = sg_content s \<and>
     map rp_trust ps = (if sg_fragments s = [] then [sg_trust s] else map af_trust (sg_fragments s)) \<and>
     (\<forall>p\<in>set ps. if sg_content s = [] then rp_participation p = PartEmpty
        else rp_participation p = PartIncluded \<and> rp_pointer p = Some (content_pointer i) \<and>
          (\<exists>a b. rp_text_span p = Some (a, b) \<and> slice (sg_content s) a b = rp_content p))"

lemma asset_source_ok:
  assumes "config_asset_ok a"
  shows "\<exists>src. asset_source a = Inr src \<and> source_ref_ok src"
  using source_from_asset_ok [OF assms] by (simp add: asset_source_def source_from_asset_def)

lemma segment_source_ok:
  assumes "\<forall>a\<in>set (pa_state_assets pa). config_asset_ok a" and "\<forall>a. pa_base_asset pa = Some a \<longrightarrow> config_asset_ok a"
    and "i = 0 \<longrightarrow> \<not> startswith (sg_id s) (u ''state_persona:'')"
  shows "\<exists>src. segment_source pa ctx i s = Inr src \<and> source_ref_ok src"
proof -
  have raw: "project_relative (u ''data/memory/raw'')" by code_simp
  consider "sg_id s = u ''base_persona''" "pa_base_asset pa \<noteq> None"
    | "\<not> (sg_id s = u ''base_persona'' \<and> pa_base_asset pa \<noteq> None)"
      "startswith (sg_id s) (u ''state_persona:'')" "int i - 1 < int (length (pa_state_assets pa))"
    | "\<not> (sg_id s = u ''base_persona'' \<and> pa_base_asset pa \<noteq> None)"
      "\<not> (startswith (sg_id s) (u ''state_persona:'') \<and> int i - 1 < int (length (pa_state_assets pa)))"
    by blast
  then show ?thesis
  proof cases
    case 1
    with assms(2) asset_source_ok show ?thesis by (auto simp: segment_source_def)
  next
    case 2
    with assms(3) have i: "i \<noteq> 0" "i - 1 < length (pa_state_assets pa)" by auto
    with assms(1) have "config_asset_ok (pa_state_assets pa ! (i - 1))" by simp
    from asset_source_ok [OF this] 2 i show ?thesis
      unfolding segment_source_def if_not_P [OF 2(1)] by (simp add: asset_before_def)
  next
    case 3
    with raw yaml_path_relative show ?thesis
      unfolding segment_source_def if_not_P [OF 3(1)] if_not_P [OF 3(2)]
      by (simp add: segment_file_source_def validated_def source_ref_ok_def)
  qed
qed

lemma content_pointer_neq_Nil [simp]: "content_pointer i \<noteq> []" "message_part_id i x \<noteq> []"
  by (simp_all add: content_pointer_def message_part_id_def)

lemma fragment_part_ok:
  assumes "fragment_ok f"
  shows "fragment_part i n f = Inr \<lparr>rp_part_id = message_part_id i (af_fragment_id f), rp_order = int n,
        rp_participation = PartIncluded, rp_trust = af_trust f, rp_pointer = Some (content_pointer i),
        rp_text_span = Some (af_start f, af_end f), rp_content = af_content f, rp_sources = af_sources f,
        rp_exclusion_reason = None\<rparr>"
  using assms by (simp add: fragment_part_def request_part_ok_def validated_def fragment_ok_def)

lemma segment_parts_ok:
  assumes "segment_located s" and "\<exists>src. segment_source pa ctx i s = Inr src \<and> source_ref_ok src"
  shows "\<exists>ps. segment_parts pa ctx i n s = Inr ps \<and> parts_exact i s ps \<and>
    map rp_order ps = map int [n..<n + length ps]"
proof (cases "sg_fragments s = []")
  case True
  from assms(2) obtain src where "segment_source pa ctx i s = Inr src" "source_ref_ok src" by blast
  with True show ?thesis
    by (auto simp: segment_parts_def plain_part_def Let_def validated_def request_part_ok_def parts_exact_def
        slice_def)
next
  case False
  with assms(1) have loc: "located (sg_content s) (sg_fragments s)" by (simp add: segment_located_def)
  let ?fs = "sg_fragments s"
  let ?part = "\<lambda>(k, f). \<lparr>rp_part_id = message_part_id i (af_fragment_id f), rp_order = int (n + k),
        rp_participation = PartIncluded, rp_trust = af_trust f, rp_pointer = Some (content_pointer i),
        rp_text_span = Some (af_start f, af_end f), rp_content = af_content f, rp_sources = af_sources f,
        rp_exclusion_reason = None\<rparr>"
  let ?ps = "map ?part (zip [0..<length ?fs] ?fs)"
  have "rmap (\<lambda>(k, f). fragment_part i (n + k) f) (zip [0..<length ?fs] ?fs) = Inr ?ps"
    using loc by (intro rmap_total) (auto simp: located_def list_all_iff fragment_part_ok dest: set_zip_rightD)
  moreover have "map rp_order ?ps = map int [n..<n + length ?ps]"
    by (rule nth_equalityI) simp_all
  moreover have contents: "map rp_content ?ps = map af_content ?fs" "map rp_trust ?ps = map af_trust ?fs"
    by (rule nth_equalityI; simp)+
  moreover have "slice (sg_content s) (af_start f) (af_end f) = af_content f" if "f \<in> set ?fs" for f
    using loc tiled_fragments_cover [of "[]" ?fs] that by (intro fragments_cover_slice) (auto simp: located_def)
  moreover have "sg_content s \<noteq> []" using loc False by auto
  ultimately have "parts_exact i s ?ps"
    using loc unfolding parts_exact_def contents by (auto simp: located_def fragments_text_def False dest: set_zip_rightD)
  then show ?thesis
    using False \<open>rmap _ _ = Inr ?ps\<close> \<open>map rp_order ?ps = _\<close> by (intro exI [of _ ?ps]) (simp add: segment_parts_def)
qed

lemma parts_loop_ok:
  assumes "list_all segment_located ss"
    and "\<And>k. k < length ss \<Longrightarrow> \<exists>src. segment_source pa ctx (i + k) (ss ! k) = Inr src \<and> source_ref_ok src"
  shows "\<exists>pss. parts_loop pa ctx i n ss = Inr (concat pss) \<and> length pss = length ss \<and>
    map rp_order (concat pss) = map int [n..<n + length (concat pss)] \<and>
    (\<forall>k<length ss. parts_exact (i + k) (ss ! k) (pss ! k))"
  using assms
proof (induction ss arbitrary: i n)
  case Nil
  then show ?case by simp
next
  case (Cons s ss)
  from segment_parts_ok [of s pa ctx i n] Cons.prems(1) Cons.prems(2) [of 0] obtain ps where
    ps: "segment_parts pa ctx i n s = Inr ps" "parts_exact i s ps" "map rp_order ps = map int [n..<n + length ps]"
    by auto
  have "\<exists>src. segment_source pa ctx (Suc i + k) (ss ! k) = Inr src \<and> source_ref_ok src" if "k < length ss" for k
    using Cons.prems(2) [of "Suc k"] that by simp
  then obtain pss where pss: "parts_loop pa ctx (Suc i) (n + length ps) ss = Inr (concat pss)" "length pss = length ss"
    "map rp_order (concat pss) = map int [n + length ps..<n + length ps + length (concat pss)]"
    "\<forall>k<length ss. parts_exact (Suc i + k) (ss ! k) (pss ! k)"
    using Cons.IH [of "Suc i" "n + length ps"] Cons.prems(1) by auto
  have "map rp_order (ps @ concat pss) = map int [n..<n + length (ps @ concat pss)]"
    unfolding length_append add.assoc [symmetric] map_append
    by (simp only: ps(3) pss(3) upt_add_eq_append [of n "n + length ps"] le_add1 map_append)
  moreover have "\<forall>k<length (s # ss). parts_exact (i + k) ((s # ss) ! k) ((ps # pss) ! k)"
    using ps(2) pss(4) by (auto simp: nth_Cons split: nat.splits)
  ultimately show ?case using ps(1) pss(1,2) by (intro exI [of _ "ps # pss"]) simp
qed

lemma context_parts_exact:
  assumes "assemble str_item pa inp = Inr ctx" and "\<forall>a\<in>set (pa_state_assets pa). config_asset_ok a"
    and "\<forall>a. pa_base_asset pa = Some a \<longrightarrow> config_asset_ok a"
  shows "\<exists>pss. context_parts pa ctx = Inr (concat pss) \<and> length pss = length (pk_segments ctx) \<and>
    map rp_order (concat pss) = map int [0..<length (concat pss)] \<and>
    (\<forall>i<length (pk_segments ctx). parts_exact i (pk_segments ctx ! i) (pss ! i))"
proof -
  obtain base s1 s2 s3 current where c:
    "pk_segments ctx = base # persona_segments pa inp @ [s1, s2, s3, current]"
    "base_segment pa (ai_config_revision inp) = Inr base"
    "memory_segments str_item pa inp = Inr [s1, s2, s3]" "segment_located current"
    by (rule assemble_facts [OF assms(1)])
  note base = base_segment_facts [OF c(2)]
  have "list_all segment_located [s1, s2, s3]" by (rule memory_segments_facts [OF c(3)])
  moreover have "list_all segment_located (persona_segments pa inp)"
    by (auto simp: persona_segments_def plain_segment_def segment_located_def list_all_iff)
  ultimately have located: "list_all segment_located (pk_segments ctx)"
    using base(1) c(4) by (simp add: c(1))
  have "\<not> startswith (u ''base_persona'') (u ''state_persona:'')" by (simp add: startswith_def u_Cons)
  then have source: "\<exists>src. segment_source pa ctx (0 + k) (pk_segments ctx ! k) = Inr src \<and> source_ref_ok src" for k
    by (intro segment_source_ok [OF assms(2,3)]) (simp add: c(1) base(2))
  from parts_loop_ok [OF located source, of 0] show ?thesis by (simp add: context_parts_def)
qed

text \<open>
  C23. The request parts of an assembled context can always be built from valid assets. They are numbered from
  0 without a gap, and the parts of each segment, put together, spell out exactly its content: every included
  part points at the message of its segment, reads back from it at its own span, and keeps the trust of its
  fragment.
\<close>

theorem assembled_parts_exact:
  assumes "assemble str_item pa inp = Inr ctx" and "\<forall>a\<in>set (pa_state_assets pa). config_asset_ok a"
    and "\<forall>a. pa_base_asset pa = Some a \<longrightarrow> config_asset_ok a"
  shows "\<exists>pss. context_parts pa ctx = Inr (concat pss) \<and> length pss = length (pk_segments ctx) \<and>
    map rp_order (concat pss) = map int [0..<length (concat pss)] \<and>
    (\<forall>i<length (pk_segments ctx). parts_exact i (pk_segments ctx ! i) (pss ! i))"
  by (rule context_parts_exact [OF assms])

theorem assembled_parts_exact_witness:
  "\<exists>ctx parts. assemble (\<lambda>_. []) sample_assembler sample_assemble_input = Inr ctx \<and>
     context_parts sample_assembler ctx = Inr parts \<and>
     concat (map rp_content parts) = concat (map sg_content (pk_segments ctx))"
proof -
  obtain ctx where ctx: "assemble (\<lambda>_. []) sample_assembler sample_assemble_input = Inr ctx"
    using sample_assembles by blast
  have "pa_state_assets sample_assembler = []" "pa_base_asset sample_assembler = None"
    by (simp_all add: sample_assembler_def)
  with assembled_parts_exact [OF ctx] obtain pss where
    pss: "context_parts sample_assembler ctx = Inr (concat pss)" "length pss = length (pk_segments ctx)"
    "\<forall>i<length (pk_segments ctx). parts_exact i (pk_segments ctx ! i) (pss ! i)" by auto
  have "map (\<lambda>ps. concat (map rp_content ps)) pss = map sg_content (pk_segments ctx)"
    using pss(2,3) by (intro nth_equalityI) (simp_all add: parts_exact_def)
  moreover have "concat (map rp_content (concat pss)) = concat (map (\<lambda>ps. concat (map rp_content ps)) pss)"
    by (induction pss) simp_all
  ultimately show ?thesis using ctx pss(1) by auto
qed

end
