(* ===== verification/Codecs.thy ===== *)
theory Codecs
  imports PyJson
begin

text \<open>
  The codecs of the standard library the tools use: \<open>json.dumps\<close> with its default separators, strict
  UTF-8 decoding, and \<open>base64.urlsafe_b64encode\<close>/\<open>urlsafe_b64decode\<close> as \<open>binascii\<close> does them, characters
  outside the alphabet skipped; with their round trips.
\<close>

subsection \<open>\<open>json.dumps(value, ensure_ascii=False)\<close>\<close>

fun plain_json :: "json \<Rightarrow> pystr" where
  "plain_json JNull = u ''null''"
| "plain_json (JBool b) = (if b then u ''true'' else u ''false'')"
| "plain_json (JInt i) = int_str i"
| "plain_json (JFloat r) = r"
| "plain_json (JStr s) = quote_json s"
| "plain_json (JArr xs) = [91] @ join [44, 32] (map plain_json xs) @ [93]"
| "plain_json (JObj kvs) =
     [123] @ join [44, 32] (map (\<lambda>(k, v). quote_json k @ [58, 32] @ plain_json v) kvs) @ [125]"

subsection \<open>UTF-8\<close>

definition surrogate :: "nat \<Rightarrow> bool" where
  "surrogate c \<longleftrightarrow> 55296 \<le> c \<and> c \<le> 57343"

definition encodable :: "pystr \<Rightarrow> bool" where
  "encodable s \<longleftrightarrow> list_all (\<lambda>c. \<not> surrogate c \<and> c < 1114112) s"

text \<open>\<open>s.encode("utf-8")\<close>: a lone surrogate is a \<open>UnicodeEncodeError\<close>, a \<open>ValueError\<close>.\<close>

definition utf8_encode :: "pystr \<Rightarrow> bytes result" where
  "utf8_encode s = (if encodable s then Inr (utf8 s) else Inl ValueExn)"

definition cont_byte :: "nat \<Rightarrow> bool" where
  "cont_byte b \<longleftrightarrow> 128 \<le> b \<and> b < 192"

text \<open>\<open>b.decode("utf-8")\<close>: no overlong form, no surrogate, nothing above the last code point.\<close>

fun utf8_decode :: "bytes \<Rightarrow> pystr option" where
  "utf8_decode [] = Some []"
| "utf8_decode (a # bs) =
     (if a < 128 then map_option (Cons a) (utf8_decode bs)
      else if 194 \<le> a \<and> a < 224 then
        (case bs of
           b # r \<Rightarrow> if cont_byte b
             then map_option (Cons ((a - 192) * 64 + (b - 128))) (utf8_decode r) else None
         | _ \<Rightarrow> None)
      else if 224 \<le> a \<and> a < 240 then
        (case bs of
           b # c # r \<Rightarrow>
             (let v = (a - 224) * 4096 + (b - 128) * 64 + (c - 128)
              in if cont_byte b \<and> cont_byte c \<and> 2048 \<le> v \<and> \<not> surrogate v
                 then map_option (Cons v) (utf8_decode r) else None)
         | _ \<Rightarrow> None)
      else if 240 \<le> a \<and> a < 245 then
        (case bs of
           b # c # d # r \<Rightarrow>
             (let v = (a - 240) * 262144 + (b - 128) * 4096 + (c - 128) * 64 + (d - 128)
              in if cont_byte b \<and> cont_byte c \<and> cont_byte d \<and> 65536 \<le> v \<and> v < 1114112
                 then map_option (Cons v) (utf8_decode r) else None)
         | _ \<Rightarrow> None)
      else None)"

lemma utf8_Cons [simp]: "utf8 (c # s) = utf8_char c @ utf8 s"
  by (simp add: utf8_def)

lemma base64_digits:
  "c div 4096 * 4096 + c div 64 mod 64 * 64 + c mod 64 = c"
  "c div 262144 * 262144 + c div 4096 mod 64 * 4096 + c div 64 mod 64 * 64 + c mod 64 = c" for c :: nat
proof -
  have d: "c div 4096 = c div 64 div 64" "c div 262144 = c div 4096 div 64"
    by (simp_all add: div_mult2_eq [symmetric])
  show 1: "c div 4096 * 4096 + c div 64 mod 64 * 64 + c mod 64 = c"
    using div_mult_mod_eq [of c 64] div_mult_mod_eq [of "c div 64" 64] unfolding d(1) by linarith
  show "c div 262144 * 262144 + c div 4096 mod 64 * 4096 + c div 64 mod 64 * 64 + c mod 64 = c"
    using 1 div_mult_mod_eq [of "c div 4096" 64] unfolding d(2) by linarith
qed

lemma utf8_decode_char:
  assumes "\<not> surrogate c" and "c < 1114112"
  shows "utf8_decode (utf8_char c @ bs) = map_option (Cons c) (utf8_decode bs)"
proof -
  consider "c < 128" | "128 \<le> c" "c < 2048" | "2048 \<le> c" "c < 65536" | "65536 \<le> c" by linarith
  then show ?thesis
  proof cases
    case 1
    then show ?thesis by simp
  next
    case 2
    have "c div 64 * 64 + c mod 64 = c" by simp
    moreover have "2 \<le> c div 64" "c div 64 < 32" using 2 by (simp_all add: div_le_mono [of 128 c 64, simplified] less_mult_imp_div_less)
    ultimately show ?thesis using 2 by (simp add: cont_byte_def)
  next
    case 3
    have "c div 4096 * 4096 + c div 64 mod 64 * 64 + c mod 64 = c"
      by (rule base64_digits(1))
    moreover have "c div 4096 < 16" using 3 by (simp add: less_mult_imp_div_less)
    ultimately show ?thesis using 3 assms(1) by (simp add: cont_byte_def Let_def)
  next
    case 4
    have "c div 262144 * 262144 + c div 4096 mod 64 * 4096 + c div 64 mod 64 * 64 + c mod 64 = c"
      by (rule base64_digits(2))
    moreover have "c div 262144 < 5" using assms(2) by (simp add: less_mult_imp_div_less)
    ultimately show ?thesis using 4 assms(2) by (simp add: cont_byte_def Let_def)
  qed
qed

lemma utf8_round_trip: "encodable s \<Longrightarrow> utf8_decode (utf8 s) = Some s"
  by (induction s) (simp_all add: encodable_def utf8_decode_char del: utf8_decode.simps(2) utf8_char.simps)

subsection \<open>Base64\<close>

definition b64_char :: "nat \<Rightarrow> nat" where
  "b64_char v =
     (if v < 26 then 65 + v else if v < 52 then 71 + v else if v < 62 then v - 4 else if v = 62 then 45 else 95)"

text \<open>The value of a character, after \<open>-_\<close> have been translated to \<open>+/\<close>.\<close>

definition b64_value :: "nat \<Rightarrow> nat option" where
  "b64_value c =
     (if 65 \<le> c \<and> c \<le> 90 then Some (c - 65) else if 97 \<le> c \<and> c \<le> 122 then Some (c - 71)
      else if 48 \<le> c \<and> c \<le> 57 then Some (c + 4) else if c = 43 \<or> c = 45 then Some 62
      else if c = 47 \<or> c = 95 then Some 63 else None)"

fun b64_encode :: "bytes \<Rightarrow> pystr" where
  "b64_encode [] = []"
| "b64_encode [a] = [b64_char (a div 4), b64_char (a mod 4 * 16), 61, 61]"
| "b64_encode [a, b] = [b64_char (a div 4), b64_char (a mod 4 * 16 + b div 16), b64_char (b mod 16 * 4), 61]"
| "b64_encode (a # b # c # r) =
     [b64_char (a div 4), b64_char (a mod 4 * 16 + b div 16), b64_char (b mod 16 * 4 + c div 64),
      b64_char (c mod 64)] @ b64_encode r"

text \<open>
  \<open>binascii.a2b_base64\<close>, not strict: the position in the group of four, the bits left over and the number
  of padding characters seen; characters outside the alphabet are skipped, complete padding ends the input.
\<close>

fun a2b_base64 :: "nat \<Rightarrow> nat \<Rightarrow> nat \<Rightarrow> pystr \<Rightarrow> bytes option" where
  "a2b_base64 quad left pads [] = (if quad = 0 then Some [] else None)"
| "a2b_base64 quad left pads (c # cs) =
     (if c = 61 then
        (if 2 \<le> quad then (if 4 \<le> quad + Suc pads then Some [] else a2b_base64 quad left (Suc pads) cs)
         else a2b_base64 quad left pads cs)
      else case b64_value c of
        None \<Rightarrow> a2b_base64 quad left pads cs
      | Some v \<Rightarrow>
          (if quad = 0 then a2b_base64 1 v 0 cs
           else if quad = 1 then map_option (Cons (left * 4 + v div 16)) (a2b_base64 2 (v mod 16) 0 cs)
           else if quad = 2 then map_option (Cons (left * 16 + v div 4)) (a2b_base64 3 (v mod 4) 0 cs)
           else map_option (Cons (left * 64 + v)) (a2b_base64 0 0 0 cs)))"

definition urlsafe_b64decode :: "pystr \<Rightarrow> bytes option" where
  "urlsafe_b64decode s = (if list_all (\<lambda>c. c < 128) s then a2b_base64 0 0 0 s else None)"

text \<open>\<open>s + "=" * (-len(s) % 4)\<close>.\<close>

definition b64_pad :: "pystr \<Rightarrow> pystr" where
  "b64_pad s = s @ replicate (nat (- int (length s) mod 4)) 61"

lemma b64_char_value:
  assumes "v < 64"
  shows "b64_value (b64_char v) = Some v" "b64_char v \<noteq> 61" "b64_char v < 128"
proof -
  have "v \<in> {0..<64}" using assms by simp
  then show "b64_value (b64_char v) = Some v" "b64_char v \<noteq> 61" "b64_char v < 128"
    by (auto simp: b64_char_def b64_value_def)
qed

lemma a2b_step:
  assumes "v < 64"
  shows "a2b_base64 q l p (b64_char v # cs) =
    (if q = 0 then a2b_base64 1 v 0 cs
     else if q = 1 then map_option (Cons (l * 4 + v div 16)) (a2b_base64 2 (v mod 16) 0 cs)
     else if q = 2 then map_option (Cons (l * 16 + v div 4)) (a2b_base64 3 (v mod 4) 0 cs)
     else map_option (Cons (l * 64 + v)) (a2b_base64 0 0 0 cs))"
  using b64_char_value [OF assms] by simp

text \<open>The encoding of bytes without its padding, and what padding it again gives.\<close>

fun b64_data :: "bytes \<Rightarrow> pystr" where
  "b64_data [] = []"
| "b64_data [a] = [b64_char (a div 4), b64_char (a mod 4 * 16)]"
| "b64_data [a, b] = [b64_char (a div 4), b64_char (a mod 4 * 16 + b div 16), b64_char (b mod 16 * 4)]"
| "b64_data (a # b # c # r) =
     [b64_char (a div 4), b64_char (a mod 4 * 16 + b div 16), b64_char (b mod 16 * 4 + c div 64),
      b64_char (c mod 64)] @ b64_data r"

lemma sextets:
  "(a :: nat) < 256 \<Longrightarrow> a div 4 < 64" "b < 256 \<Longrightarrow> a mod 4 * 16 + b div 16 < 64"
  "c < 256 \<Longrightarrow> b mod 16 * 4 + c div 64 < 64" "c mod 64 < 64" "a mod 4 * 16 < 64" "b mod 16 * 4 < 64"
  for a b c :: nat
proof -
  have "a mod 4 < 4" "b mod 16 < 16" by simp_all
  moreover have "b < 256 \<Longrightarrow> b div 16 < 16" "c < 256 \<Longrightarrow> c div 64 < 4" "a < 256 \<Longrightarrow> a div 4 < 64"
    by (simp_all add: less_mult_imp_div_less)
  ultimately show "a < 256 \<Longrightarrow> a div 4 < 64" "b < 256 \<Longrightarrow> a mod 4 * 16 + b div 16 < 64"
    "c < 256 \<Longrightarrow> b mod 16 * 4 + c div 64 < 64" "c mod 64 < 64" "a mod 4 * 16 < 64" "b mod 16 * 4 < 64"
    by linarith+
qed

lemma b64_data_chars:
  "list_all (\<lambda>b. b < 256) bs \<Longrightarrow> list_all (\<lambda>c. c \<noteq> 61 \<and> c < 128) (b64_data bs)"
  by (induction bs rule: b64_data.induct) (simp_all add: b64_char_value sextets)

lemma b64_encode_data:
  "b64_encode bs = b64_data bs @ replicate (nat (- int (length (b64_data bs)) mod 4)) 61"
proof (induction bs rule: b64_data.induct)
  case (4 a b c r)
  have "(- 4 - int n) mod 4 = - int n mod 4" for n by presburger
  with 4 show ?case by simp
next
  case (3 a b)
  have "- int (length (b64_data [a, b])) mod 4 = 1" by simp
  then show ?case by simp
next
  case (2 a)
  have "nat (- int (length (b64_data [a])) mod 4) = 2" by simp
  then show ?case by (simp add: numeral_2_eq_2)
qed simp

lemma a2b_padding: "a2b_base64 q l p (61 # cs) =
    (if 2 \<le> q then (if 4 \<le> q + Suc p then Some [] else a2b_base64 q l (Suc p) cs) else a2b_base64 q l p cs)"
  by simp

lemma split_digit: "(y :: nat) < k \<Longrightarrow> (x * k + y) div k = x" "y < k \<Longrightarrow> (x * k + y) mod k = y"
  by simp_all

lemma sextets_join:
  assumes "(a :: nat) < 256" "b < 256" "c < 256"
  shows "a div 4 * 4 + (a mod 4 * 16 + b div 16) div 16 = a"
    "(a mod 4 * 16 + b div 16) mod 16 * 16 + (b mod 16 * 4 + c div 64) div 4 = b"
    "(b mod 16 * 4 + c div 64) mod 4 * 64 + c mod 64 = c"
  using assms by (simp_all only: split_digit sextets less_mult_imp_div_less mod_less_divisor div_mult_mod_eq)

lemma a2b_data:
  assumes "list_all (\<lambda>b. b < 256) bs"
  shows "a2b_base64 0 0 0 (b64_data bs @ replicate (nat (- int (length (b64_data bs)) mod 4)) 61) = Some bs"
  using assms
proof (induction bs rule: b64_data.induct)
  case (4 a b c r)
  have len: "(- 4 - int n) mod 4 = - int n mod 4" for n by presburger
  from 4 sextets_join [of a b c] show ?case by (simp add: a2b_step sextets len del: a2b_base64.simps(2))
next
  case (3 a b)
  have "nat (- int (length (b64_data [a, b])) mod 4) = 1" by simp
  moreover have "(b mod 16 * 4) div 4 = b mod 16" by simp
  ultimately show ?case using 3 sextets_join [of a b 0] by (simp add: a2b_step a2b_padding sextets del: a2b_base64.simps(2))
next
  case (2 a)
  have "nat (- int (length (b64_data [a])) mod 4) = 2" by simp
  then show ?case using 2 by (simp add: a2b_step a2b_padding sextets numeral_2_eq_2 del: a2b_base64.simps(2))
qed simp

text \<open>The padding stripped from an encoding, put back before decoding.\<close>

lemma base64_round_trip:
  assumes "list_all (\<lambda>b. b < 256) bs"
  shows "urlsafe_b64decode (b64_pad (rstrip_chars [61] (b64_encode bs))) = Some bs"
proof -
  note chars = b64_data_chars [OF assms]
  have "dropWhile (\<lambda>c. c = 61) (rev (b64_data bs)) = rev (b64_data bs)"
    using chars by (cases "rev (b64_data bs)") (auto simp: list_all_iff)
  moreover have "dropWhile (\<lambda>c. c = 61) (replicate n 61 @ xs) = dropWhile (\<lambda>c. c = 61) xs" for n and xs :: pystr
    by (induction n) simp_all
  ultimately have "rstrip_chars [61] (b64_encode bs) = b64_data bs"
    by (simp add: b64_encode_data rstrip_chars_def)
  have "list_all (\<lambda>c. c < 128) (b64_pad (b64_data bs))"
    using chars by (auto simp: b64_pad_def list_all_iff)
  with \<open>rstrip_chars [61] (b64_encode bs) = b64_data bs\<close> show ?thesis
    using a2b_data [OF assms] by (simp add: urlsafe_b64decode_def b64_pad_def)
qed

end
