(* ===== verification/JsonLoads.thy ===== *)
theory JsonLoads
  imports Codecs
begin

text \<open>
  \<open>json.loads\<close> as CPython's scanner reads a text: blanks, literals, numbers, strings with their escapes and
  surrogate pairs, arrays and objects, where the last of two equal keys wins. Converting the text of a number
  that is not an integer to a float is the argument \<open>fl\<close>, which gives its \<open>repr\<close>; the interpreter's limits on
  nesting and on the digits of an integer are left out. The reader inverts \<open>json.dumps\<close>.
\<close>

subsection \<open>Strings\<close>

definition hex_val :: "nat \<Rightarrow> nat option" where
  "hex_val c =
     (if 48 \<le> c \<and> c \<le> 57 then Some (c - 48)
      else if 97 \<le> c \<and> c \<le> 102 then Some (c - 87)
      else if 65 \<le> c \<and> c \<le> 70 then Some (c - 55) else None)"

fun hex4 :: "pystr \<Rightarrow> (nat \<times> pystr) option" where
  "hex4 (a # b # c # d # r) =
     (case (hex_val a, hex_val b, hex_val c, hex_val d) of
        (Some w, Some x, Some y, Some z) \<Rightarrow> Some (4096 * w + 256 * x + 16 * y + z, r)
      | _ \<Rightarrow> None)"
| "hex4 _ = None"

text \<open>After \<open>\\u\<close>: a high surrogate takes a low one that follows it.\<close>

definition scan_unit :: "pystr \<Rightarrow> (nat \<times> pystr) option" where
  "scan_unit s =
     (case hex4 s of
        None \<Rightarrow> None
      | Some (v, r) \<Rightarrow>
          if 55296 \<le> v \<and> v \<le> 56319 \<and> startswith r [92, 117]
          then (case hex4 (drop 2 r) of
                  None \<Rightarrow> None
                | Some (w, t) \<Rightarrow>
                    if 56320 \<le> w \<and> w \<le> 57343 then Some (65536 + (v - 55296) * 1024 + (w - 56320), t)
                    else Some (v, r))
          else Some (v, r))"

definition escape_table :: "(nat \<times> nat) list" where
  "escape_table = [(34, 34), (92, 92), (47, 47), (98, 8), (102, 12), (110, 10), (114, 13), (116, 9)]"

fun scan_escape :: "pystr \<Rightarrow> (nat \<times> pystr) option" where
  "scan_escape [] = None"
| "scan_escape (e # s) =
     (if e = 117 then scan_unit s else map_option (\<lambda>c. (c, s)) (map_of escape_table e))"

lemma hex4_shorter: "hex4 s = Some (v, r) \<Longrightarrow> length r < length s"
  by (induction s rule: hex4.induct) (auto split: option.splits)

lemma scan_unit_shorter: "scan_unit s = Some (v, r) \<Longrightarrow> length r < length s"
  by (auto simp: scan_unit_def dest!: hex4_shorter split: option.splits if_splits)

lemma scan_escape_shorter: "scan_escape s = Some (c, r) \<Longrightarrow> length r < length s"
  by (cases s) (auto dest: scan_unit_shorter split: if_splits)

text \<open>After the opening quote; a control character is refused.\<close>

function scan_string :: "pystr \<Rightarrow> (pystr \<times> pystr) option" where
  "scan_string [] = None"
| "scan_string (c # s) =
     (if c = 34 then Some ([], s)
      else if c = 92 then
        (case scan_escape s of
           None \<Rightarrow> None
         | Some (d, r) \<Rightarrow> map_option (apfst (Cons d)) (scan_string r))
      else if c < 32 then None
      else map_option (apfst (Cons c)) (scan_string s))"
  by pat_completeness auto
termination
  by (relation "measure length") (auto dest: scan_escape_shorter)

lemma scan_string_shorter: "scan_string s = Some (t, r) \<Longrightarrow> length r < length s"
proof (induction s arbitrary: t rule: scan_string.induct)
  case (2 c s)
  then show ?case
    by (fastforce dest: scan_escape_shorter split: if_splits option.splits)
qed simp

subsection \<open>Numbers\<close>

definition is_digit :: "nat \<Rightarrow> bool" where
  "is_digit c \<longleftrightarrow> 48 \<le> c \<and> c \<le> 57"

definition scan_natural :: "pystr \<Rightarrow> (pystr \<times> pystr) option" where
  "scan_natural s =
     (case s of
        [] \<Rightarrow> None
      | c # t \<Rightarrow> if c = 48 then Some ([48], t)
                else if is_digit c then Some (takeWhile is_digit s, dropWhile is_digit s) else None)"

definition scan_fraction :: "pystr \<Rightarrow> pystr \<times> pystr" where
  "scan_fraction s =
     (case s of
        c # d # t \<Rightarrow> if c = 46 \<and> is_digit d then (46 # takeWhile is_digit (d # t), dropWhile is_digit (d # t))
                     else ([], s)
      | _ \<Rightarrow> ([], s))"

definition scan_exponent :: "pystr \<Rightarrow> pystr \<times> pystr" where
  "scan_exponent s =
     (case s of
        c # t \<Rightarrow>
          (let sign = takeWhile (\<lambda>x. x = 43 \<or> x = 45) (take 1 t); ds = drop (length sign) t
           in if (c = 101 \<or> c = 69) \<and> ds \<noteq> [] \<and> is_digit (hd ds)
              then (c # sign @ takeWhile is_digit ds, dropWhile is_digit ds) else ([], s))
      | [] \<Rightarrow> ([], s))"

definition number_sign :: "pystr \<Rightarrow> pystr" where
  "number_sign s = takeWhile (\<lambda>x. x = 45) (take 1 s)"

definition scan_number :: "(pystr \<Rightarrow> pystr) \<Rightarrow> pystr \<Rightarrow> (json \<times> pystr) option" where
  "scan_number fl s =
     (let sign = number_sign s
      in case scan_natural (drop (length sign) s) of
           None \<Rightarrow> None
         | Some (ds, r) \<Rightarrow>
             (let (frac, r') = scan_fraction r; (ex, r'') = scan_exponent r'
              in if frac = [] \<and> ex = []
                 then Some (JInt (if sign = [] then int (nat_of_digits ds) else - int (nat_of_digits ds)), r'')
                 else Some (JFloat (fl (sign @ ds @ frac @ ex)), r'')))"

lemma scan_natural_shorter: "scan_natural s = Some (ds, r) \<Longrightarrow> length r < length s"
  by (auto simp: scan_natural_def length_dropWhile_le less_Suc_eq_le split: list.splits if_splits)

lemma scan_fraction_le: "scan_fraction s = (f, r) \<Longrightarrow> length r \<le> length s"
  using length_dropWhile_le [of is_digit "tl s"]
  by (auto simp: scan_fraction_def split: list.splits if_splits)

lemma scan_exponent_le: "scan_exponent s = (f, r) \<Longrightarrow> length r \<le> length s"
  using length_dropWhile_le [of is_digit "drop (length (takeWhile (\<lambda>x. x = 43 \<or> x = 45) (take 1 (tl s)))) (tl s)"]
  by (auto simp: scan_exponent_def Let_def split: list.splits if_splits)

lemma scan_number_shorter:
  assumes "scan_number fl s = Some (j, r)"
  shows "length r < length s"
proof -
  obtain ds r0 where n: "scan_natural (drop (length (number_sign s)) s) = Some (ds, r0)"
    using assms by (auto simp: scan_number_def Let_def split: option.splits)
  obtain f r1 where f: "scan_fraction r0 = (f, r1)" by fastforce
  obtain e r2 where e: "scan_exponent r1 = (e, r2)" by fastforce
  from assms n f e have "r = r2"
    by (simp add: scan_number_def Let_def split: if_splits)
  with scan_natural_shorter [OF n] scan_fraction_le [OF f] scan_exponent_le [OF e] show ?thesis by simp
qed

subsection \<open>Values\<close>

definition skip_ws :: "pystr \<Rightarrow> pystr" where
  "skip_ws = dropWhile (\<lambda>c. c = 32 \<or> c = 9 \<or> c = 10 \<or> c = 13)"

lemma skip_ws_le: "length (skip_ws s) \<le> length s"
  by (simp add: skip_ws_def length_dropWhile_le)

definition scan_literal :: "(pystr \<Rightarrow> pystr) \<Rightarrow> pystr \<Rightarrow> (json \<times> pystr) option" where
  "scan_literal fl s =
     (if startswith s (u ''null'') then Some (JNull, drop 4 s)
      else if startswith s (u ''true'') then Some (JBool True, drop 4 s)
      else if startswith s (u ''false'') then Some (JBool False, drop 5 s)
      else if startswith s (u ''NaN'') then Some (JFloat (fl (u ''NaN'')), drop 3 s)
      else if startswith s (u ''Infinity'') then Some (JFloat (fl (u ''Infinity'')), drop 8 s)
      else if startswith s (u ''-Infinity'') then Some (JFloat (fl (u ''-Infinity'')), drop 9 s)
      else scan_number fl s)"

definition dict_of_pairs :: "(pystr \<times> json) list \<Rightarrow> (pystr \<times> json) list" where
  "dict_of_pairs kvs = fold (\<lambda>(k, v). dict_set k v) kvs []"

text \<open>
  The first argument after \<open>fl\<close> bounds the recursion; \<open>json_loads\<close> starts with more than the length of the
  text can use up (\<open>enough_fuel\<close>).
\<close>

fun parse_value :: "(pystr \<Rightarrow> pystr) \<Rightarrow> nat \<Rightarrow> pystr \<Rightarrow> (json \<times> pystr) option"
  and parse_items :: "(pystr \<Rightarrow> pystr) \<Rightarrow> nat \<Rightarrow> pystr \<Rightarrow> (json list \<times> pystr) option"
  and parse_members :: "(pystr \<Rightarrow> pystr) \<Rightarrow> nat \<Rightarrow> pystr \<Rightarrow> ((pystr \<times> json) list \<times> pystr) option"
where
  "parse_value fl 0 s = None"
| "parse_value fl (Suc n) s =
     (case s of
        [] \<Rightarrow> None
      | c # t \<Rightarrow>
          if c = 34 then map_option (apfst JStr) (scan_string t)
          else if c = 91 then
            (if startswith (skip_ws t) [93] then Some (JArr [], tl (skip_ws t))
             else map_option (apfst JArr) (parse_items fl n (skip_ws t)))
          else if c = 123 then
            (if startswith (skip_ws t) [125] then Some (JObj [], tl (skip_ws t))
             else map_option (apfst (JObj \<circ> dict_of_pairs)) (parse_members fl n (skip_ws t)))
          else scan_literal fl s)"
| "parse_items fl 0 s = None"
| "parse_items fl (Suc n) s =
     (case parse_value fl n s of
        None \<Rightarrow> None
      | Some (j, r) \<Rightarrow>
          (case skip_ws r of
             [] \<Rightarrow> None
           | d # t \<Rightarrow>
               if d = 93 then Some ([j], t)
               else if d = 44 then map_option (apfst (Cons j)) (parse_items fl n (skip_ws t)) else None))"
| "parse_members fl 0 s = None"
| "parse_members fl (Suc n) s =
     (case s of
        [] \<Rightarrow> None
      | q # t \<Rightarrow>
          if q \<noteq> 34 then None
          else (case scan_string t of
                  None \<Rightarrow> None
                | Some (k, r) \<Rightarrow>
                    (case skip_ws r of
                       [] \<Rightarrow> None
                     | c # r' \<Rightarrow>
                         if c \<noteq> 58 then None
                         else (case parse_value fl n (skip_ws r') of
                                 None \<Rightarrow> None
                               | Some (j, x) \<Rightarrow>
                                   (case skip_ws x of
                                      [] \<Rightarrow> None
                                    | d # y \<Rightarrow>
                                        if d = 125 then Some ([(k, j)], y)
                                        else if d = 44
                                        then map_option (apfst (Cons (k, j))) (parse_members fl n (skip_ws y))
                                        else None)))))"

definition json_loads :: "(pystr \<Rightarrow> pystr) \<Rightarrow> pystr \<Rightarrow> json option" where
  "json_loads fl s =
     (if startswith s [65279] then None
      else (case parse_value fl (2 * length s + 2) (skip_ws s) of
              None \<Rightarrow> None
            | Some (j, r) \<Rightarrow> if skip_ws r = [] then Some j else None))"

lemma scan_literal_shorter: "scan_literal fl s = Some (j, r) \<Longrightarrow> s \<noteq> [] \<Longrightarrow> length r < length s"
  by (auto simp: scan_literal_def dest: scan_number_shorter split: if_splits)

lemma parse_shorter:
  "parse_value fl n s = Some (j, r) \<Longrightarrow> length r < length s"
  "parse_items fl n s = Some (js, r) \<Longrightarrow> length r < length s"
  "parse_members fl n s = Some (kvs, r) \<Longrightarrow> length r < length s"
proof (induction n arbitrary: s j js kvs r)
  case (Suc n)
  note IH = Suc.IH and ws = skip_ws_le
  {
    case 1
    then show ?case
    proof (cases s)
      case (Cons c t)
      have items: "length r < length s" if "parse_items fl n (skip_ws t) = Some (x, r)" for x
        using IH(2) [OF that] ws [of t] Cons by simp
      have members: "length r < length s" if "parse_members fl n (skip_ws t) = Some (x, r)" for x
        using IH(3) [OF that] ws [of t] Cons by simp
      have "length (tl (skip_ws t)) < length s" using ws [of t] Cons by (simp add: less_Suc_eq_le)
      with 1 Cons items members scan_literal_shorter [of fl s j r] scan_string_shorter [of t _ r]
      show ?thesis by (fastforce split: if_splits)
    qed simp
  next
    case 2
    then obtain j' x d t where v: "parse_value fl n s = Some (j', x)" and t: "skip_ws x = d # t"
      and rest: "r = t \<or> (\<exists>js'. parse_items fl n (skip_ws t) = Some (js', r))"
      by (fastforce split: option.splits list.splits if_splits)
    have "length (skip_ws t) < length s" "length t < length s"
      using IH(1) [OF v] ws [of x] ws [of t] t by simp_all
    with rest IH(2) show ?case by fastforce
  next
    case 3
    then obtain q t k x c y j' z d w where s: "s = q # t" and k: "scan_string t = Some (k, x)"
      and y: "skip_ws x = c # y" and v: "parse_value fl n (skip_ws y) = Some (j', z)"
      and w: "skip_ws z = d # w"
      and rest: "r = w \<or> (\<exists>kvs'. parse_members fl n (skip_ws w) = Some (kvs', r))"
      by (fastforce split: option.splits list.splits if_splits)
    have "length (skip_ws w) < length s" "length w < length s"
      using scan_string_shorter [OF k] IH(1) [OF v] ws [of x] ws [of y] ws [of z] ws [of w] s y w by simp_all
    with rest IH(3) show ?case by fastforce
  }
qed simp_all

text \<open>A bound above twice the length of the text changes nothing: \<open>None\<close> is a syntax error.\<close>

lemma enough_fuel:
  "2 * length s < n \<Longrightarrow> n \<le> m \<Longrightarrow> parse_value fl m s = parse_value fl n s"
  "2 * length s + 1 < n \<Longrightarrow> n \<le> m \<Longrightarrow> parse_items fl m s = parse_items fl n s"
  "2 * length s < n \<Longrightarrow> n \<le> m \<Longrightarrow> parse_members fl m s = parse_members fl n s"
proof (induction n arbitrary: s m)
  case (Suc n)
  note IH = Suc.IH and ws = skip_ws_le
  {
    case 1
    then obtain m' where m: "m = Suc m'" "n \<le> m'" by (cases m) auto
    show ?case
    proof (cases s)
      case (Cons c t)
      have "parse_items fl m' (skip_ws t) = parse_items fl n (skip_ws t)"
        "parse_members fl m' (skip_ws t) = parse_members fl n (skip_ws t)"
        by (rule IH(2,3); use 1 m ws [of t] Cons in simp)+
      then show ?thesis by (simp add: m Cons)
    qed (simp add: m)
  next
    case 2
    then obtain m' where m: "m = Suc m'" "n \<le> m'" by (cases m) auto
    have v: "parse_value fl m' s = parse_value fl n s" by (rule IH(1)) (use 2 m in simp_all)
    have "parse_items fl m' (skip_ws t) = parse_items fl n (skip_ws t)"
      if "parse_value fl n s = Some (j, r)" "skip_ws r = d # t" for j r d t
      by (rule IH(2)) (use 2 m parse_shorter(1) [OF that(1)] ws [of r] ws [of t] that(2) in simp_all)
    then show ?case by (simp add: m v split: option.split list.split)
  next
    case 3
    then obtain m' where m: "m = Suc m'" "n \<le> m'" by (cases m) auto
    show ?case
    proof (cases s)
      case (Cons q t)
      have v: "parse_value fl m' (skip_ws y) = parse_value fl n (skip_ws y)"
        if "scan_string t = Some (k, x)" "skip_ws x = c # y" for k x c y
        by (rule IH(1))
          (use 3 m Cons scan_string_shorter [OF that(1)] ws [of x] ws [of y] that(2) in simp_all)
      have r: "parse_members fl m' (skip_ws w) = parse_members fl n (skip_ws w)"
        if "scan_string t = Some (k, x)" "skip_ws x = c # y" "parse_value fl n (skip_ws y) = Some (j, z)"
          "skip_ws z = d # w" for k x c y j z d w
        by (rule IH(3))
          (use 3 m Cons scan_string_shorter [OF that(1)] ws [of x] ws [of y] ws [of z] ws [of w] that(2,4)
             parse_shorter(1) [OF that(3)] in simp_all)
      show ?thesis by (simp add: m Cons v r split: option.split list.split)
    qed (simp add: m)
  }
qed simp_all

subsection \<open>The reader inverts the writer\<close>

text \<open>\<open>json.dumps(value, ensure_ascii=False, separators=(item, key))\<close>.\<close>

fun json_text :: "pystr \<Rightarrow> pystr \<Rightarrow> json \<Rightarrow> pystr" where
  "json_text is ks JNull = u ''null''"
| "json_text is ks (JBool b) = (if b then u ''true'' else u ''false'')"
| "json_text is ks (JInt i) = int_str i"
| "json_text is ks (JFloat r) = r"
| "json_text is ks (JStr s) = quote_json s"
| "json_text is ks (JArr xs) = [91] @ join is (map (json_text is ks) xs) @ [93]"
| "json_text is ks (JObj kvs) =
     [123] @ join is (map (\<lambda>(k, v). quote_json k @ ks @ json_text is ks v) kvs) @ [125]"

lemma plain_json_text: "plain_json j = json_text [44, 32] [58, 32] j"
  by (induction j rule: plain_json.induct) (auto intro!: arg_cong [where f = "join [44, 32]"])

text \<open>Values whose text says everything: no float, no repeated key.\<close>

fun json_exact :: "json \<Rightarrow> bool" where
  "json_exact (JFloat r) = False"
| "json_exact (JArr xs) = list_all json_exact xs"
| "json_exact (JObj kvs) = (distinct (map fst kvs) \<and> list_all (\<lambda>(k, v). json_exact v) kvs)"
| "json_exact j = True"

definition separator :: "nat \<Rightarrow> pystr \<Rightarrow> bool" where
  "separator c s \<longleftrightarrow> (\<exists>w. s = c # w \<and> skip_ws w = [])"

lemma hex_val_digit: "n < 16 \<Longrightarrow> hex_val (hex_digit n) = Some n"
  by (auto simp: hex_val_def hex_digit_def)

lemma scan_esc_char:
  "scan_string (esc_char c @ t) = map_option (apfst (Cons c)) (scan_string t)"
proof (cases c rule: esc_char_cases)
  case plain
  then have "c \<noteq> 34" by (auto simp: esc_char_def)
  with plain show ?thesis by simp
next
  case (short x)
  then have "map_of escape_table x = Some c"
    by (auto simp: short_escapes_def escape_table_def)
  with short show ?thesis by simp
next
  case long
  have "hex_val 48 = Some 0" by (simp add: hex_val_def)
  with long have "scan_unit ([48, 48, hex_digit (c div 16), hex_digit (c mod 16)] @ t) = Some (c, t)"
    by (simp add: scan_unit_def hex_val_digit)
  with long show ?thesis by simp
qed

lemma scan_quoted: "scan_string (concat (map esc_char s) @ 34 # t) = Some (s, t)"
  by (induction s) (simp_all add: scan_esc_char)

lemma nat_str_hd: "hd (nat_str n) = 48 \<longleftrightarrow> n = 0"
proof (induction n rule: nat_str.induct)
  case (1 n)
  then show ?case by (cases "n < 10") (simp_all add: nat_str.simps [of n] hd_append)
qed

lemma scan_natural_str:
  assumes "json_delim r"
  shows "scan_natural (nat_str n @ r) = Some (nat_str n, r)"
proof (cases "n = 0")
  case False
  obtain c t where c: "nat_str n = c # t" by (cases "nat_str n") auto
  have digits: "\<forall>x\<in>set (nat_str n). is_digit x" using nat_str_digits by (auto simp: is_digit_def)
  moreover have "takeWhile is_digit r = []" "dropWhile is_digit r = r"
    using assms by (cases r; auto simp: is_digit_def)+
  ultimately have "takeWhile is_digit (nat_str n @ r) = nat_str n" "dropWhile is_digit (nat_str n @ r) = r"
    by (simp_all add: takeWhile_append2 dropWhile_append2)
  moreover have "c \<noteq> 48" "is_digit c" using nat_str_hd [of n] False c digits by auto
  ultimately show ?thesis using c by (simp add: scan_natural_def)
qed (simp add: scan_natural_def nat_str.simps)

lemma scan_number_str:
  assumes "json_delim r"
  shows "scan_number fl (int_str i @ r) = Some (JInt i, r)"
proof -
  have frac: "scan_fraction r = ([], r)" "scan_exponent r = ([], r)"
    using assms by (auto simp: scan_fraction_def scan_exponent_def json_delim_def split: list.splits)
  obtain c t where c: "nat_str (nat \<bar>i\<bar>) = c # t" by (cases "nat_str (nat \<bar>i\<bar>)") auto
  then have "c \<noteq> 45" using nat_str_digits [of c "nat \<bar>i\<bar>"] by auto
  then show ?thesis
    using scan_natural_str [OF assms, of "nat \<bar>i\<bar>"] c nat_of_digits_nat_str [of "nat \<bar>i\<bar>"] frac
    by (auto simp: scan_number_def number_sign_def int_str_def)
qed

lemma json_text_first:
  assumes "json_exact j"
  shows "\<exists>c t. json_text is ks j = c # t \<and> json_first j c"
proof (cases j)
  case (JInt i)
  obtain c t where "int_str i = c # t" by (cases "int_str i") auto
  with int_str_chars [of c i] JInt show ?thesis by auto
qed (use assms in \<open>auto simp: u_Cons quote_json_def\<close>)

lemma json_first_solid: "json_first j c \<Longrightarrow> c \<noteq> 32 \<and> c \<noteq> 9 \<and> c \<noteq> 10 \<and> c \<noteq> 13 \<and> c \<noteq> 93 \<and> c \<noteq> 125"
  by (cases j) (auto split: if_splits)

lemma skip_ws_text: "json_exact j \<Longrightarrow> skip_ws (json_text is ks j @ r) = json_text is ks j @ r"
  using json_text_first [of j "is" ks] json_first_solid [of j] by (auto simp: skip_ws_def)

lemma skip_ws_Cons:
  "skip_ws (c # s) = (if c = 32 \<or> c = 9 \<or> c = 10 \<or> c = 13 then skip_ws s else c # s)"
  by (simp add: skip_ws_def)

lemma skip_ws_append: "skip_ws w = [] \<Longrightarrow> skip_ws (w @ r) = skip_ws r"
  by (auto simp: skip_ws_def dropWhile_eq_Nil_conv dropWhile_append2)

lemma join_Cons: "join sep (x # xs) = x @ (if xs = [] then [] else sep @ join sep xs)"
  by (cases xs) simp_all

lemma parse_items_text:
  assumes "separator 44 is" and "js \<noteq> []"
    and "\<And>j n r. j \<in> set js \<Longrightarrow> json_delim r \<Longrightarrow> 2 * length (json_text is ks j) < n \<Longrightarrow>
      parse_value fl n (json_text is ks j @ r) = Some (j, r)"
    and "\<forall>j\<in>set js. json_exact j"
    and "2 * length (join is (map (json_text is ks) js)) + 1 < n"
  shows "parse_items fl n (join is (map (json_text is ks) js) @ 93 # r) = Some (js, r)"
  using assms(2-)
proof (induction js arbitrary: n)
  case (Cons j js)
  obtain n' where n: "n = Suc n'" using Cons.prems(4) by (cases n) auto
  obtain w where w: "is = 44 # w" "skip_ws w = []" using assms(1) by (auto simp: separator_def)
  show ?case
  proof (cases "js = []")
    case True
    have "parse_value fl n' (json_text is ks j @ 93 # r) = Some (j, 93 # r)"
      by (rule Cons.prems(2)) (use Cons.prems(4) n True in simp_all)
    then show ?thesis using True by (simp add: n skip_ws_def)
  next
    case False
    let ?rest = "join is (map (json_text is ks) js) @ 93 # r"
    have split: "join is (map (json_text is ks) (j # js)) @ 93 # r = json_text is ks j @ 44 # w @ ?rest"
      using False w by (cases js) auto
    have len: "length (join is (map (json_text is ks) (j # js))) =
        length (json_text is ks j) + length is + length (join is (map (json_text is ks) js))"
      using False by (cases js) auto
    have first: "parse_value fl n' (json_text is ks j @ 44 # w @ ?rest) = Some (j, 44 # w @ ?rest)"
      by (rule Cons.prems(2)) (use Cons.prems(4) n len in simp_all)
    have "skip_ws ?rest = ?rest"
      using False Cons.prems(3) skip_ws_text [of "hd js" "is" ks] by (cases js) (auto simp: join_Cons)
    moreover have "parse_items fl n' ?rest = Some (js, r)"
      by (rule Cons.IH) (use False Cons.prems(2,3,4) n len w in auto)
    ultimately show ?thesis
      unfolding split n using first by (simp add: skip_ws_append [OF w(2)] skip_ws_Cons)
  qed
qed simp

abbreviation member_text :: "pystr \<Rightarrow> pystr \<Rightarrow> pystr \<times> json \<Rightarrow> pystr" where
  "member_text is ks \<equiv> (\<lambda>(k, v). quote_json k @ ks @ json_text is ks v)"

lemma skip_ws_quote: "skip_ws (quote_json k @ r) = quote_json k @ r"
  by (simp add: quote_json_def skip_ws_def)

lemma parse_members_text:
  assumes "separator 44 is" and "separator 58 ks" and "kvs \<noteq> []"
    and "\<And>k j n r. (k, j) \<in> set kvs \<Longrightarrow> json_delim r \<Longrightarrow> 2 * length (json_text is ks j) < n \<Longrightarrow>
      parse_value fl n (json_text is ks j @ r) = Some (j, r)"
    and "\<forall>(k, j)\<in>set kvs. json_exact j"
    and "2 * length (join is (map (member_text is ks) kvs)) < n"
  shows "parse_members fl n (join is (map (member_text is ks) kvs) @ 125 # r) = Some (kvs, r)"
  using assms(3-)
proof (induction kvs arbitrary: n)
  case (Cons kv kvs)
  obtain k j where kv: "kv = (k, j)" by fastforce
  obtain n' where n: "n = Suc n'" using Cons.prems(4) by (cases n) auto
  obtain w where w: "is = 44 # w" "skip_ws w = []" using assms(1) by (auto simp: separator_def)
  obtain v where v: "ks = 58 # v" "skip_ws v = []" using assms(2) by (auto simp: separator_def)
  define body where "body = concat (map esc_char k)"
  define rest where "rest = (if kvs = [] then 125 # r else 44 # w @ join is (map (member_text is ks) kvs) @ 125 # r)"
  have split: "join is (map (member_text is ks) (kv # kvs)) @ 125 # r =
      34 # body @ 34 # 58 # v @ json_text is ks j @ rest"
    using w v by (simp add: join_Cons rest_def kv quote_json_def body_def)
  have len: "length (join is (map (member_text is ks) (kv # kvs))) \<ge> 3 + length (json_text is ks j) +
      (if kvs = [] then 0 else length (join is (map (member_text is ks) kvs)))"
    using w v by (simp add: join_Cons kv quote_json_def)
  have "json_exact j" using Cons.prems(3) kv by simp
  then have colon: "skip_ws (58 # v @ x) = 58 # v @ x" "skip_ws (v @ json_text is ks j @ x) = json_text is ks j @ x" for x
    by (simp_all add: skip_ws_append [OF v(2)] skip_ws_text) (simp add: skip_ws_def)
  have first: "parse_value fl n' (json_text is ks j @ rest) = Some (j, rest)"
    by (rule Cons.prems(2)) (use Cons.prems(4) n len kv in \<open>auto simp: rest_def\<close>)
  show ?case
  proof (cases "kvs = []")
    case True
    then have "skip_ws rest = 125 # r" by (simp add: rest_def skip_ws_def)
    then show ?thesis
      unfolding split n using True first colon by (simp add: scan_quoted body_def kv)
  next
    case False
    let ?tail = "join is (map (member_text is ks) kvs) @ 125 # r"
    have "skip_ws rest = 44 # w @ ?tail" using False by (simp add: rest_def skip_ws_def)
    moreover have "skip_ws ?tail = ?tail"
      using False skip_ws_quote by (cases kvs) (auto simp: join_Cons)
    moreover have "parse_members fl n' ?tail = Some (kvs, r)"
      by (rule Cons.IH) (use False Cons.prems(2,3,4) n len in \<open>auto simp del: list.map\<close>)
    ultimately show ?thesis
      unfolding split n using first colon by (simp add: scan_quoted body_def kv skip_ws_append [OF w(2)])
  qed
qed simp

lemma dict_set_fresh: "k \<notin> fst ` set d \<Longrightarrow> dict_set k v d = d @ [(k, v)]"
  by (induction k v d rule: dict_set.induct) auto

lemma dict_of_distinct: "distinct (map fst kvs) \<Longrightarrow> dict_of_pairs kvs = kvs"
proof -
  have "distinct (map fst (d @ kvs)) \<Longrightarrow> fold (\<lambda>(k, v). dict_set k v) kvs d = d @ kvs" for d :: "(pystr \<times> json) list"
  proof (induction kvs arbitrary: d)
    case (Cons kv kvs)
    then show ?case using Cons.IH [of "d @ [kv]"] by (cases kv) (auto simp: dict_set_fresh)
  qed simp
  then show "distinct (map fst kvs) \<Longrightarrow> dict_of_pairs kvs = kvs" by (simp add: dict_of_pairs_def)
qed

lemma scan_literal_number:
  assumes "c \<notin> {110, 116, 102, 78, 73}" and "c = 45 \<Longrightarrow> s = [] \<or> hd s \<noteq> 73"
  shows "scan_literal fl (c # s) = scan_number fl (c # s)"
  using assms by (cases s) (auto simp add: scan_literal_def startswith_def u_Cons)

lemma parse_json_text:
  assumes "separator 44 is" and "separator 58 ks"
  shows "json_exact j \<Longrightarrow> json_delim r \<Longrightarrow> 2 * length (json_text is ks j) < n \<Longrightarrow>
    parse_value fl n (json_text is ks j @ r) = Some (j, r)"
proof (induction j arbitrary: n r)
  case (JInt i)
  then obtain n' where n: "n = Suc n'" by (cases n) auto
  obtain c t where c: "int_str i = c # t" by (cases "int_str i") auto
  then have "c = 45 \<or> 48 \<le> c \<and> c \<le> 57" using int_str_chars [of c i] by simp
  moreover have "t @ r = [] \<or> hd (t @ r) \<noteq> 73"
  proof -
    have "t = [] \<or> hd t \<noteq> 73" using int_str_chars [of "hd t" i] c by (cases t) auto
    moreover have "r = [] \<or> hd r \<noteq> 73" using JInt(2) by (cases r) auto
    ultimately show ?thesis by (cases t) auto
  qed
  ultimately have "scan_literal fl (c # t @ r) = scan_number fl (c # t @ r)" by (intro scan_literal_number) auto
  moreover have "c \<noteq> 34 \<and> c \<noteq> 91 \<and> c \<noteq> 123" using \<open>c = 45 \<or> _\<close> by auto
  ultimately show ?case using c scan_number_str [OF JInt(2), of fl i] by (simp add: n)
next
  case (JStr s)
  then show ?case by (cases n) (simp_all add: quote_json_def scan_quoted)
next
  case (JArr js)
  then obtain n' where n: "n = Suc n'" by (cases n) auto
  show ?case
  proof (cases "js = []")
    case False
    let ?text = "join is (map (json_text is ks) js) @ 93 # r"
    obtain x t where x: "?text = x # t" "x \<noteq> 93" "skip_ws ?text = ?text"
      using False JArr.prems(1) json_text_first [of "hd js" "is" ks] json_first_solid [of "hd js"]
      by (cases js) (auto simp: join_Cons skip_ws_def list_all_iff)
    have "parse_items fl n' ?text = Some (js, r)"
      by (rule parse_items_text [OF assms(1) False])
        (use JArr n in \<open>auto simp: list_all_iff\<close>)
    with x show ?thesis by (simp add: n startswith_def)
  qed (simp add: n skip_ws_def startswith_def)
next
  case (JObj kvs)
  then obtain n' where n: "n = Suc n'" by (cases n) auto
  show ?case
  proof (cases "kvs = []")
    case False
    let ?text = "join is (map (member_text is ks) kvs) @ 125 # r"
    obtain t where x: "?text = 34 # t" "skip_ws ?text = ?text"
      using False by (cases kvs) (auto simp: join_Cons quote_json_def skip_ws_def)
    have "parse_value fl m (json_text is ks j @ y) = Some (j, y)"
      if "(k, j) \<in> set kvs" "json_delim y" "2 * length (json_text is ks j) < m" for k j m y
      using JObj.IH [OF that(1)] that JObj.prems(1) by (auto simp: list_all_iff)
    then have "parse_members fl n' ?text = Some (kvs, r)"
      using JObj.prems(1,3) n by (intro parse_members_text [OF assms False]) (auto simp: list_all_iff)
    with x JObj.prems(1) show ?thesis by (simp add: n startswith_def dict_of_distinct)
  qed (simp add: n skip_ws_def startswith_def dict_of_pairs_def)
next
  case JNull
  then show ?case by (cases n) (simp_all add: scan_literal_def u_Cons startswith_def)
next
  case (JBool b)
  then show ?case by (cases n; cases b) (simp_all add: scan_literal_def u_Cons startswith_def)
qed simp

theorem json_loads_text:
  assumes "separator 44 is" and "separator 58 ks" and "json_exact j"
  shows "json_loads fl (json_text is ks j) = Some j"
proof -
  have "parse_value fl (2 * length (json_text is ks j) + 2) (json_text is ks j @ []) = Some (j, [])"
    by (rule parse_json_text [OF assms(1,2,3)]) simp_all
  moreover obtain c t where c: "json_text is ks j = c # t" "json_first j c"
    using json_text_first [OF assms(3)] by blast
  then have "c \<noteq> 65279" by (cases j) (auto split: if_splits)
  ultimately show ?thesis
    using c skip_ws_text [OF assms(3), of "is" ks "[]"]
    by (simp add: json_loads_def startswith_def) (simp add: skip_ws_def)
qed

end
