(* ===== verification/Tools.thy ===== *)
theory Tools
  imports Codecs Credentials Call_Models
begin

text \<open>
  \<open>tools/registry.py\<close> and \<open>tools/executor.py\<close>: who may call which tool, and the executor that prepares,
  runs, commits or recovers a tool. An implementation is a record of operations on a state \<open>'w\<close>, the optional
  ones being the methods it may lack; the deadline is part of \<open>im_execute\<close>, which raises \<open>TimeoutError\<close>
  when it is exceeded.
\<close>

subsection \<open>The registry\<close>

record ('w, 'p) tool_impl =
  im_execute :: "jdict \<Rightarrow> tool_execution_context \<Rightarrow> ('w, tool_result) op"
  im_prepare :: "(jdict \<Rightarrow> tool_execution_context \<Rightarrow> ('w, 'p) op) option"
  im_commit :: "('p option \<Rightarrow> ('w, unit) op) option"
  im_rollback :: "('p option \<Rightarrow> ('w, unit) op) option"
  im_compensate :: "(jdict \<Rightarrow> tool_execution_context \<Rightarrow> ('w, unit) op) option"

record ('w, 'p) registered_tool =
  rg_definition :: tool_definition
  rg_implementation :: "('w, 'p) tool_impl"
  rg_enabled :: bool
  rg_personas :: "pystr list"
  rg_read_only :: bool
  rg_contract :: "pystr option"
  rg_sources :: "source_ref list"

type_synonym ('w, 'p) registry = "(pystr \<times> ('w, 'p) registered_tool) list"

definition blank_digest :: pystr where
  "blank_digest = u ''sha256:'' @ replicate 64 48"

definition transactional :: "('w, 'p) tool_impl \<Rightarrow> bool" where
  "transactional im \<longleftrightarrow> im_prepare im \<noteq> None \<and> im_commit im \<noteq> None \<and> im_rollback im \<noteq> None"

definition compensating :: "('w, 'p) tool_impl \<Rightarrow> pystr option \<Rightarrow> bool" where
  "compensating im contract \<longleftrightarrow> \<not> falsy contract \<and> im_compensate im \<noteq> None"

definition default_tool_source :: "tool_definition \<Rightarrow> source_ref result" where
  "default_tool_source d =
     validated source_ref_ok
       \<lparr>sf_source_kind = SrcConfigFile, sf_source_id = u ''tool-definition:'' @ td_tool_id d,
        sf_path = Some (u ''config/tools.toml''), sf_content_sha256 = Some blank_digest,
        sf_revision = Some blank_digest, sf_entity_ids = [td_tool_id d], sf_producer = u ''tool_registry''\<rparr>"

definition register_tool ::
  "('w, 'p) registry \<Rightarrow> tool_definition \<Rightarrow> ('w, 'p) tool_impl \<Rightarrow> bool \<Rightarrow> pystr list \<Rightarrow> bool \<Rightarrow> pystr option \<Rightarrow>
   source_ref list \<Rightarrow> ('w, 'p) registry result"
where
  "register_tool reg d im enabled personas read_only contract sources =
     (if dict_get reg (td_name d) \<noteq> None then Inl (BaiError ''TOOL_DUPLICATE'')
      else if \<not> read_only \<and> \<not> transactional im \<and> \<not> compensating im contract
      then Inl (BaiError ''TOOL_RECOVERY_REQUIRED'')
      else rbind (if sources \<noteq> [] then Inr sources else rbind (default_tool_source d) (\<lambda>s. Inr [s])) (\<lambda>ss.
        Inr (dict_set (td_name d)
          \<lparr>rg_definition = d, rg_implementation = im, rg_enabled = enabled, rg_personas = personas,
           rg_read_only = read_only, rg_contract = contract, rg_sources = ss\<rparr> reg)))"

definition persona_allowed :: "('w, 'p) registered_tool \<Rightarrow> pystr \<Rightarrow> bool" where
  "persona_allowed t persona \<longleftrightarrow> u ''*'' \<in> set (rg_personas t) \<or> persona \<in> set (rg_personas t)"

definition resolve_tool :: "('w, 'p) registry \<Rightarrow> pystr \<Rightarrow> pystr \<Rightarrow> ('w, 'p) registered_tool result" where
  "resolve_tool reg name persona =
     (case dict_get reg name of
        None \<Rightarrow> Inl (BaiError ''TOOL_NOT_FOUND'')
      | Some t \<Rightarrow>
          if \<not> rg_enabled t then Inl (BaiError ''TOOL_DISABLED'')
          else if \<not> persona_allowed t persona then Inl (BaiError ''TOOL_DENIED'')
          else Inr t)"

definition tool_source_refs :: "('w, 'p) registry \<Rightarrow> pystr \<Rightarrow> pystr \<Rightarrow> source_ref list result" where
  "tool_source_refs reg name persona = rbind (resolve_tool reg name persona) (\<lambda>t. Inr (rg_sources t))"

definition result_source_ref :: "pystr \<Rightarrow> pystr \<Rightarrow> source_ref result" where
  "result_source_ref call_id name =
     validated source_ref_ok
       \<lparr>sf_source_kind = SrcRuntime, sf_source_id = u ''tool-result:'' @ call_id, sf_path = None,
        sf_content_sha256 = None, sf_revision = None, sf_entity_ids = [call_id],
        sf_producer = u ''tool:'' @ name\<rparr>"

definition definitions_for :: "('w, 'p) registry \<Rightarrow> pystr \<Rightarrow> tool_definition list" where
  "definitions_for reg persona =
     map (\<lambda>(n, t). rg_definition t) (filter (\<lambda>(n, t). rg_enabled t \<and> persona_allowed t persona) reg)"

subsection \<open>The argument schema\<close>

text \<open>\<open>set(value)\<close>: the elements of a list, the keys of a dict, the characters of a string.\<close>

fun hashable :: "json \<Rightarrow> bool" where
  "hashable (JArr _) = False"
| "hashable (JObj _) = False"
| "hashable _ = True"

fun json_set :: "json \<Rightarrow> json list result" where
  "json_set (JArr xs) = (if list_all hashable xs then Inr xs else Inl TypeExn)"
| "json_set (JObj kvs) = Inr (map (\<lambda>(k, v). JStr k) kvs)"
| "json_set (JStr s) = Inr (map (\<lambda>c. JStr [c]) s)"
| "json_set _ = Inl TypeExn"

fun json_get :: "json \<Rightarrow> string \<Rightarrow> json option result" where
  "json_get (JObj kvs) k = Inr (dict_get kvs (u k))"
| "json_get _ k = Inl (OtherExn ''AttributeError'')"

definition argument_keys :: "jdict \<Rightarrow> json set" where
  "argument_keys arguments = JStr ` fst ` set arguments"

definition check_argument :: "json \<Rightarrow> pystr \<times> json \<Rightarrow> unit result" where
  "check_argument properties = (\<lambda>(name, value).
     rbind (case properties of
              JObj kvs \<Rightarrow> Inr (case dict_get kvs name of None \<Rightarrow> JObj [] | Some p \<Rightarrow> p)
            | _ \<Rightarrow> Inl (OtherExn ''AttributeError'')) (\<lambda>property.
     rbind (json_get property ''type'') (\<lambda>expected.
       if expected = Some (JStr (u ''string'')) \<and> (\<nexists>s. value = JStr s)
       then Inl (BaiError ''TOOL_ARGUMENTS_INVALID'') else Inr ())))"

definition validate_object_schema :: "jdict \<Rightarrow> jdict \<Rightarrow> unit result" where
  "validate_object_schema arguments schema =
     (let properties = (case dict_get schema (u ''properties'') of None \<Rightarrow> JObj [] | Some p \<Rightarrow> p)
      in rbind (json_set (case dict_get schema (u ''required'') of None \<Rightarrow> JArr [] | Some r \<Rightarrow> r)) (\<lambda>required.
         if \<not> set required \<subseteq> argument_keys arguments then Inl (BaiError ''TOOL_ARGUMENTS_INVALID'')
         else rbind (if dict_get schema (u ''additionalProperties'') = Some (JBool False)
                     then rbind (json_set properties) (\<lambda>ps.
                       if \<not> argument_keys arguments \<subseteq> set ps then Inl (BaiError ''TOOL_ARGUMENTS_INVALID'')
                       else Inr ())
                     else Inr ()) (\<lambda>_.
           rbind (rmap (check_argument properties) arguments) (\<lambda>_. Inr ()))))"

subsection \<open>The executor\<close>

definition failure_result :: "pystr \<Rightarrow> tool_outcome \<Rightarrow> pystr \<Rightarrow> tool_result" where
  "failure_result call_id outcome code =
     \<lparr>tr_call_id = call_id, tr_outcome = outcome, tr_data = [], tr_error_code = Some code,
      tr_completed_at = None, tr_origin_id = None\<rparr>"

text \<open>What is known of the tool when the body raises: the tool, what it prepared, whether a write has begun.\<close>

record ('w, 'p) tool_attempt =
  ta_tool :: "('w, 'p) registered_tool option"
  ta_prepared :: "'p option"
  ta_write_started :: bool

definition recover_write ::
  "tool_call \<Rightarrow> tool_execution_context \<Rightarrow> ('w, 'p) tool_attempt \<Rightarrow> ('w, pystr option) op"
where
  "recover_write call ctx at w =
     (case ta_tool at of
        None \<Rightarrow> (Inr None, w)
      | Some t \<Rightarrow>
          if rg_read_only t \<or> \<not> ta_write_started at then (Inr None, w)
          else (case (case im_rollback (rg_implementation t) of
                        Some rollback \<Rightarrow> rollback (ta_prepared at) w
                      | None \<Rightarrow> (case im_compensate (rg_implementation t) of
                          Some compensate \<Rightarrow> compensate (tc_arguments call) ctx w
                        | None \<Rightarrow> (Inl (OtherExn ''AttributeError''), w))) of
                  (Inr _, w') \<Rightarrow> (Inr None, w')
                | (Inl e, w') \<Rightarrow> if is_exception e then (Inr (Some (u ''TOOL_ROLLBACK_FAILED'')), w') else (Inl e, w')))"

definition recovered ::
  "tool_call \<Rightarrow> tool_execution_context \<Rightarrow> ('w, 'p) tool_attempt \<Rightarrow> (pystr option \<Rightarrow> tool_result) \<Rightarrow>
   ('w, tool_result) op"
where
  "recovered call ctx at f = sbind (recover_write call ctx at) (\<lambda>e. sret (f e))"

definition refusal_outcome :: "string \<Rightarrow> tool_outcome" where
  "refusal_outcome code =
     (if code = ''TOOL_NOT_FOUND'' then ToolNotFound
      else if code = ''TOOL_DENIED'' \<or> code = ''TOOL_DISABLED'' then ToolDenied
      else ToolInvalidArguments)"

definition or_code :: "pystr option \<Rightarrow> pystr \<Rightarrow> pystr" where
  "or_code e code = (if falsy e then code else the e)"

text \<open>The four \<open>except\<close> clauses of \<open>_execute\<close>; the death of the process passes through.\<close>

definition handle_tool_error ::
  "tool_call \<Rightarrow> tool_execution_context \<Rightarrow> ('w, 'p) tool_attempt \<Rightarrow> exn \<Rightarrow> ('w, tool_result) op"
where
  "handle_tool_error call ctx at e =
     (if e = Crash then sfail Crash
      else if e = CancelledExn then sbind (recover_write call ctx at) (\<lambda>_. sfail CancelledExn)
      else recovered call ctx at (\<lambda>r.
        if e = TimeoutExn then failure_result (tc_call_id call) ToolTimeout (or_code r (u ''TOOL_TIMEOUT''))
        else case e of
          Bai _ code _ \<Rightarrow> failure_result (tc_call_id call) (refusal_outcome code) (or_code r (u code))
        | _ \<Rightarrow> failure_result (tc_call_id call) ToolExecutionFailure (or_code r (u ''TOOL_EXECUTION_FAILED''))))"

definition guarded ::
  "tool_call \<Rightarrow> tool_execution_context \<Rightarrow> ('w, 'p) tool_attempt \<Rightarrow> ('w, tool_result) op \<Rightarrow> ('w, tool_result) op"
where
  "guarded call ctx at body w =
     (case body w of
        (Inl e, w') \<Rightarrow> handle_tool_error call ctx at e w'
      | (Inr r, w') \<Rightarrow> (Inr r, w'))"

definition check_call ::
  "('w, 'p) registry \<Rightarrow> tool_call \<Rightarrow> tool_execution_context \<Rightarrow> ('w, 'p) registered_tool result"
where
  "check_call reg call ctx =
     rbind (ensure_safe (plain_json (JObj (tc_arguments call)))) (\<lambda>_.
       resolve_tool reg (tc_name call) (tx_persona_id ctx))"

definition prepare_tool ::
  "('w, 'p) registered_tool \<Rightarrow> tool_call \<Rightarrow> tool_execution_context \<Rightarrow> ('w, 'p option) op"
where
  "prepare_tool t call ctx w =
     (case im_prepare (rg_implementation t) of
        None \<Rightarrow> (Inr None, w)
      | Some prepare \<Rightarrow>
          if rg_read_only t then (Inr None, w)
          else (case prepare (tc_arguments call) ctx w of
                  (Inr p, w') \<Rightarrow> (Inr (Some p), w')
                | (Inl e, w') \<Rightarrow> (Inl (if is_exception e then BaiError ''TOOL_PREPARE_FAILED'' else e), w')))"

text \<open>After \<open>execute\<close> has returned: the guard, the size, the outcome, the commit.\<close>

definition finish_tool ::
  "int \<Rightarrow> ('w, 'p) registered_tool \<Rightarrow> tool_call \<Rightarrow> tool_execution_context \<Rightarrow> ('w, 'p) tool_attempt \<Rightarrow> tool_result \<Rightarrow>
   ('w, tool_result) op"
where
  "finish_tool max_bytes t call ctx at result =
     (let serialized = plain_json (JObj (tr_data result))
      in sbind (slift (rbind (ensure_safe serialized) (\<lambda>_. utf8_encode serialized))) (\<lambda>encoded.
         if int (length encoded) > max_bytes
         then recovered call ctx at (\<lambda>r.
           failure_result (tc_call_id call) ToolExecutionFailure (or_code r (u ''TOOL_RESULT_TOO_LARGE'')))
         else if tr_outcome result \<noteq> ToolSuccess
         then recovered call ctx at (\<lambda>r.
           result\<lparr>tr_call_id := tc_call_id call,
                  tr_error_code := (if falsy r then tr_error_code result else r)\<rparr>)
         else sbind (case im_commit (rg_implementation t) of
                       Some commit \<Rightarrow> if rg_read_only t then sret () else commit (ta_prepared at)
                     | None \<Rightarrow> sret ()) (\<lambda>_.
           sret (result\<lparr>tr_call_id := tc_call_id call\<rparr>))))"

definition run_tool ::
  "int \<Rightarrow> ('w, 'p) registered_tool \<Rightarrow> tool_call \<Rightarrow> tool_execution_context \<Rightarrow> ('w, 'p) tool_attempt \<Rightarrow>
   ('w, tool_result) op"
where
  "run_tool max_bytes t call ctx at =
     sbind (im_execute (rg_implementation t) (tc_arguments call) ctx) (finish_tool max_bytes t call ctx at)"

definition execute_inner ::
  "('w, 'p) registry \<Rightarrow> int \<Rightarrow> tool_call \<Rightarrow> tool_execution_context \<Rightarrow> ('w, tool_result) op"
where
  "execute_inner reg max_bytes call ctx w =
     (case check_call reg call ctx of
        Inl e \<Rightarrow> handle_tool_error call ctx
          (\<lparr>ta_tool = None, ta_prepared = None, ta_write_started = False\<rparr> :: ('w, 'p) tool_attempt) e w
      | Inr t \<Rightarrow>
          (let before = \<lparr>ta_tool = Some t, ta_prepared = None, ta_write_started = False\<rparr>
           in case validate_object_schema (tc_arguments call) (td_input_schema (rg_definition t)) of
                Inl e \<Rightarrow> handle_tool_error call ctx before e w
              | Inr _ \<Rightarrow>
                  (case prepare_tool t call ctx w of
                     (Inl e, w') \<Rightarrow> handle_tool_error call ctx before e w'
                   | (Inr p, w') \<Rightarrow>
                       (let at = \<lparr>ta_tool = Some t, ta_prepared = p, ta_write_started = \<not> rg_read_only t\<rparr>
                        in guarded call ctx at (run_tool max_bytes t call ctx at) w'))))"

fun tool_outcome_value :: "tool_outcome \<Rightarrow> pystr" where
  "tool_outcome_value ToolSuccess = u ''success''"
| "tool_outcome_value ToolInvalidArguments = u ''invalid_arguments''"
| "tool_outcome_value ToolNotFound = u ''not_found''"
| "tool_outcome_value ToolDenied = u ''denied''"
| "tool_outcome_value ToolTimeout = u ''timeout''"
| "tool_outcome_value ToolExecutionFailure = u ''execution_failure''"

text \<open>The dump leaves out the two fields declared with \<open>exclude=True\<close>.\<close>

definition dump_tool_result :: "tool_result \<Rightarrow> json" where
  "dump_tool_result r = JObj
     [(u ''call_id'', JStr (tr_call_id r)), (u ''outcome'', JStr (tool_outcome_value (tr_outcome r))),
      (u ''data'', JObj (tr_data r)),
      (u ''error_code'', case tr_error_code r of None \<Rightarrow> JNull | Some c \<Rightarrow> JStr c)]"

definition stamp_result :: "py_datetime \<Rightarrow> tool_call \<Rightarrow> tool_result \<Rightarrow> tool_result result" where
  "stamp_result now call r =
     rbind (case now of Aware t _ \<Rightarrow> Inr (Aware t 0) | Naive _ \<Rightarrow> Inl ValidationExn) (\<lambda>completed.
     validated tool_result_ok
       (r\<lparr>tr_completed_at := Some completed,
          tr_origin_id := Some (u ''tool-result:'' @ tc_call_id call @ [58] @
            drop 7 (content_hash (canonical_json (dump_tool_result r))))\<rparr>))"

definition execute_call ::
  "('w, 'p) registry \<Rightarrow> int \<Rightarrow> py_datetime \<Rightarrow> tool_call \<Rightarrow> tool_execution_context \<Rightarrow> ('w, tool_result) op"
where
  "execute_call reg max_bytes now call ctx =
     sbind (execute_inner reg max_bytes call ctx) (\<lambda>r. slift (stamp_result now call r))"

subsection \<open>The life of a call\<close>

text \<open>
  To say which methods a call invokes, the operations of an implementation are run on a state that also
  keeps a log: every invocation adds the method and whether it returned.
\<close>

datatype tool_event = EvPrepare bool | EvExecute bool | EvCommit bool | EvRecover bool

definition logging :: "(bool \<Rightarrow> tool_event) \<Rightarrow> ('w, 'a) op \<Rightarrow> ('w \<times> tool_event list, 'a) op" where
  "logging ev f = (\<lambda>(w, l). case f w of (r, w') \<Rightarrow> (r, (w', l @ [ev (\<not> isl r)])))"

definition logged_impl :: "('w, 'p) tool_impl \<Rightarrow> ('w \<times> tool_event list, 'p) tool_impl" where
  "logged_impl im =
     \<lparr>im_execute = (\<lambda>a c. logging EvExecute (im_execute im a c)),
      im_prepare = map_option (\<lambda>f a c. logging EvPrepare (f a c)) (im_prepare im),
      im_commit = map_option (\<lambda>f p. logging EvCommit (f p)) (im_commit im),
      im_rollback = map_option (\<lambda>f p. logging EvRecover (f p)) (im_rollback im),
      im_compensate = map_option (\<lambda>f a c. logging EvRecover (f a c)) (im_compensate im)\<rparr>"

definition logged_tool :: "('w, 'p) registered_tool \<Rightarrow> ('w \<times> tool_event list, 'p) registered_tool" where
  "logged_tool t =
     \<lparr>rg_definition = rg_definition t, rg_implementation = logged_impl (rg_implementation t),
      rg_enabled = rg_enabled t, rg_personas = rg_personas t, rg_read_only = rg_read_only t,
      rg_contract = rg_contract t, rg_sources = rg_sources t\<rparr>"

definition logged_registry :: "('w, 'p) registry \<Rightarrow> ('w \<times> tool_event list, 'p) registry" where
  "logged_registry reg = map (\<lambda>(n, t). (n, logged_tool t)) reg"

definition recoverable :: "('w, 'p) tool_impl \<Rightarrow> bool" where
  "recoverable im \<longleftrightarrow> im_rollback im \<noteq> None \<or> im_compensate im \<noteq> None"

definition registry_ok :: "('w, 'p) registry \<Rightarrow> bool" where
  "registry_ok reg \<longleftrightarrow>
     distinct (map fst reg) \<and>
     (\<forall>(n, t)\<in>set reg. n = td_name (rg_definition t) \<and> rg_sources t \<noteq> [] \<and>
        (rg_read_only t \<or> recoverable (rg_implementation t)))"

inductive registered :: "('w, 'p) registry \<Rightarrow> bool" where
  registered_empty: "registered []"
| registered_register:
    "registered reg \<Longrightarrow> register_tool reg d im enabled personas read_only contract sources = Inr reg' \<Longrightarrow>
       registered reg'"

inductive_cases register_stepE: "registered reg"

lemma dict_set_append: "dict_get d k = None \<Longrightarrow> dict_set k v d = d @ [(k, v)]"
  by (induction d) (auto split: if_splits)

lemma register_tool_ok:
  assumes "register_tool reg d im enabled personas read_only contract sources = Inr reg'" and "registry_ok reg"
  shows "registry_ok reg'"
proof -
  from assms(1) obtain ss where ss: "ss \<noteq> []" "dict_get reg (td_name d) = None"
    "read_only \<or> transactional im \<or> compensating im contract"
    "reg' = dict_set (td_name d)
          \<lparr>rg_definition = d, rg_implementation = im, rg_enabled = enabled, rg_personas = personas,
           rg_read_only = read_only, rg_contract = contract, rg_sources = ss\<rparr> reg"
    by (auto simp: register_tool_def rbind_Inr_iff split: if_splits)
  have "td_name d \<notin> fst ` set reg" using ss(2) by (simp add: dict_get_None_iff)
  with ss assms(2) show ?thesis
    by (auto simp: registry_ok_def dict_set_append recoverable_def transactional_def compensating_def)
qed

lemma registered_ok: "registered reg \<Longrightarrow> registry_ok reg"
proof (induction rule: registered.induct)
  case registered_empty
  show ?case by (simp add: registry_ok_def)
next
  case (registered_register reg d im enabled personas read_only contract sources reg')
  from register_tool_ok [OF registered_register.hyps(2) registered_register.IH] show ?case .
qed

text \<open>What may follow the execution of a write tool.\<close>

definition write_rest :: "('w, 'p) tool_impl \<Rightarrow> bool \<Rightarrow> tool_event list \<Rightarrow> tool_result result \<Rightarrow> bool" where
  "write_rest im b rest r \<longleftrightarrow>
     (case r of
        Inr res \<Rightarrow>
          if tr_outcome res = ToolSuccess
          then b \<and> rest = (if im_commit im \<noteq> None then [EvCommit True] else [])
          else (\<exists>c. (rest = [EvRecover c] \<or> rest = [EvCommit False, EvRecover c]) \<and>
                 (\<not> c \<longrightarrow> tr_error_code res = Some (u ''TOOL_ROLLBACK_FAILED'')))
      | Inl e \<Rightarrow> EvCommit True \<notin> set rest \<and> (e = Crash \<or> (\<exists>c. EvRecover c \<in> set rest)))"

definition call_life :: "('w, 'p) registered_tool \<Rightarrow> tool_event list \<Rightarrow> tool_result result \<Rightarrow> bool" where
  "call_life t l r \<longleftrightarrow>
     (if l = [] \<or> l = [EvPrepare False] then \<forall>res. r = Inr res \<longrightarrow> tr_outcome res \<noteq> ToolSuccess
      else if rg_read_only t then \<exists>b. l = [EvExecute b]
      else \<exists>b rest. write_rest (rg_implementation t) b rest r \<and>
        l = (if im_prepare (rg_implementation t) \<noteq> None then [EvPrepare True] else []) @ EvExecute b # rest)"

lemma logging_apply: "logging ev f (w, l) = (fst (f w), (snd (f w), l @ [ev (\<not> isl (fst (f w)))]))"
  by (simp add: logging_def split: prod.splits)

lemma logged_tool_simps [simp]:
  "rg_read_only (logged_tool t) = rg_read_only t" "rg_enabled (logged_tool t) = rg_enabled t"
  "rg_personas (logged_tool t) = rg_personas t" "rg_definition (logged_tool t) = rg_definition t"
  "rg_implementation (logged_tool t) = logged_impl (rg_implementation t)"
  by (simp_all add: logged_tool_def)

lemma recover_logged:
  assumes "ta_tool at = Some (logged_tool t)" "\<not> rg_read_only t" "ta_write_started at"
    and "recoverable (rg_implementation t)"
  shows "\<exists>c w' r. recover_write call ctx at (w, l) = (r, (w', l @ [EvRecover c])) \<and>
    (c \<longrightarrow> r = Inr None) \<and> (\<not> c \<longrightarrow> r = Inr (Some (u ''TOOL_ROLLBACK_FAILED'')) \<or> (\<exists>e. r = Inl e \<and> \<not> is_exception e))"
  using assms
  by (auto simp: recover_write_def logged_impl_def logging_apply recoverable_def split: option.splits sum.splits)

lemma failure_result_simps [simp]:
  "tr_outcome (failure_result i oc code) = oc" "tr_error_code (failure_result i oc code) = Some code"
  by (simp_all add: failure_result_def)

lemma or_code_simps [simp]: "or_code None c = c" "x \<noteq> [] \<Longrightarrow> or_code (Some x) c = x"
  by (simp_all add: or_code_def falsy_def)

text \<open>What recovering leaves: one more event, and a result that is no success, or a cancellation.\<close>

definition recovers :: "tool_event list \<Rightarrow> tool_result result \<Rightarrow> tool_event list \<Rightarrow> bool" where
  "recovers l r l' \<longleftrightarrow>
     (\<exists>c. l' = l @ [EvRecover c] \<and>
        (\<forall>res. r = Inr res \<longrightarrow> tr_outcome res \<noteq> ToolSuccess \<and>
           (\<not> c \<longrightarrow> tr_error_code res = Some (u ''TOOL_ROLLBACK_FAILED''))))"

lemma recovered_logged:
  assumes "ta_tool at = Some (logged_tool t)" "\<not> rg_read_only t" "ta_write_started at"
    and "recoverable (rg_implementation t)" and "recovered call ctx at f (w, l) = (r, (w', l'))"
    and "\<And>e. tr_outcome (f e) \<noteq> ToolSuccess"
    and "tr_error_code (f (Some (u ''TOOL_ROLLBACK_FAILED''))) = Some (u ''TOOL_ROLLBACK_FAILED'')"
  shows "recovers l r l'" and "\<And>e. r = Inl e \<Longrightarrow> \<not> is_exception e"
proof -
  obtain c w1 r1 where rw: "recover_write call ctx at (w, l) = (r1, (w1, l @ [EvRecover c]))"
    "c \<longrightarrow> r1 = Inr None" "\<not> c \<longrightarrow> r1 = Inr (Some (u ''TOOL_ROLLBACK_FAILED'')) \<or> (\<exists>e. r1 = Inl e \<and> \<not> is_exception e)"
    using recover_logged [OF assms(1-4), of call ctx w l] by blast
  have "recovers l r l' \<and> (\<forall>e. r = Inl e \<longrightarrow> \<not> is_exception e)"
    using rw assms(5-7) by (cases c) (auto simp: recovered_def sbind_def recovers_def)
  then show "recovers l r l'" "\<And>e. r = Inl e \<Longrightarrow> \<not> is_exception e" by blast+
qed

lemma handle_logged:
  assumes "ta_tool at = Some (logged_tool t)" "\<not> rg_read_only t" "ta_write_started at"
    and "recoverable (rg_implementation t)" and "handle_tool_error call ctx at e (w, l) = (r, (w', l'))"
  shows "e = Crash \<and> r = Inl Crash \<and> l' = l \<or> recovers l r l'"
proof -
  consider "e = Crash" | "e = CancelledExn" | "e \<noteq> Crash" "e \<noteq> CancelledExn" by blast
  then show ?thesis
  proof cases
    case 1
    with assms(5) show ?thesis by (simp add: handle_tool_error_def)
  next
    case 2
    with assms(5) recover_logged [OF assms(1-4), of call ctx w l] show ?thesis
      by (auto simp: handle_tool_error_def sbind_def recovers_def split: sum.splits)
  next
    case 3
    let ?f = "\<lambda>r. if e = TimeoutExn then failure_result (tc_call_id call) ToolTimeout (or_code r (u ''TOOL_TIMEOUT''))
        else case e of
          Bai _ code _ \<Rightarrow> failure_result (tc_call_id call) (refusal_outcome code) (or_code r (u code))
        | _ \<Rightarrow> failure_result (tc_call_id call) ToolExecutionFailure (or_code r (u ''TOOL_EXECUTION_FAILED''))"
    have "recovered call ctx at ?f (w, l) = (r, (w', l'))"
      using assms(5) 3 by (simp add: handle_tool_error_def)
    then show ?thesis
      by (rule disjI2 [OF recovered_logged(1) [OF assms(1-4)]])
        (auto simp: refusal_outcome_def split: exn.splits)
  qed
qed

lemma handle_uncatchable:
  "handle_tool_error call ctx at e s = (r, s') \<Longrightarrow> \<not> is_exception e \<Longrightarrow> \<exists>e'. r = Inl e'"
  by (auto simp: handle_tool_error_def is_exception_def sbind_def split: sum.splits prod.splits)

lemma handle_rest:
  assumes "ta_tool at = Some (logged_tool t)" "\<not> rg_read_only t" "ta_write_started at"
    and "recoverable (rg_implementation t)" and "handle_tool_error call ctx at e (w, l @ pre) = (r, (w', l'))"
    and "pre = [] \<or> pre = [EvCommit False] \<or> (\<not> is_exception e \<and> (\<exists>c. pre = [EvRecover c]))"
  shows "\<exists>rest. l' = l @ rest \<and> write_rest (rg_implementation t) b rest r"
proof -
  from handle_logged [OF assms(1-5)] consider "e = Crash" "r = Inl Crash" "l' = l @ pre"
    | "recovers (l @ pre) r l'" by blast
  then show ?thesis
  proof cases
    case 1
    with assms(6) show ?thesis by (intro exI [of _ pre]) (auto simp: write_rest_def)
  next
    case 2
    then obtain c where c: "l' = l @ pre @ [EvRecover c]" "\<forall>res. r = Inr res \<longrightarrow> tr_outcome res \<noteq> ToolSuccess \<and>
        (\<not> c \<longrightarrow> tr_error_code res = Some (u ''TOOL_ROLLBACK_FAILED''))"
      by (auto simp: recovers_def)
    have "write_rest (rg_implementation t) b (pre @ [EvRecover c]) r"
    proof (cases r)
      case (Inl e')
      with assms(6) show ?thesis by (auto simp: write_rest_def)
    next
      case (Inr res)
      with assms(6) handle_uncatchable [OF assms(5)] have "pre = [] \<or> pre = [EvCommit False]" by auto
      with Inr c(2) show ?thesis by (auto simp: write_rest_def)
    qed
    with c(1) show ?thesis by blast
  qed
qed

lemma recovered_rest:
  assumes "ta_tool at = Some (logged_tool t)" "\<not> rg_read_only t" "ta_write_started at"
    and "recoverable (rg_implementation t)" and "guarded call ctx at (recovered call ctx at f) (w, l) = (r, (w', l'))"
    and "\<And>e. tr_outcome (f e) \<noteq> ToolSuccess"
    and "tr_error_code (f (Some (u ''TOOL_ROLLBACK_FAILED''))) = Some (u ''TOOL_ROLLBACK_FAILED'')"
  shows "\<exists>rest. l' = l @ rest \<and> write_rest (rg_implementation t) b rest r"
proof -
  obtain r1 w1 l1 where r1: "recovered call ctx at f (w, l) = (r1, (w1, l1))" by (metis prod.exhaust)
  note rec = recovered_logged [OF assms(1-4) r1 assms(6,7)]
  from rec(1) obtain c where c: "l1 = l @ [EvRecover c]" "\<forall>res. r1 = Inr res \<longrightarrow> tr_outcome res \<noteq> ToolSuccess \<and>
      (\<not> c \<longrightarrow> tr_error_code res = Some (u ''TOOL_ROLLBACK_FAILED''))"
    by (auto simp: recovers_def)
  show ?thesis
  proof (cases r1)
    case (Inl e)
    with assms(5) r1 have "handle_tool_error call ctx at e (w1, l @ [EvRecover c]) = (r, (w', l'))"
      by (simp add: guarded_def c(1))
    from handle_rest [OF assms(1-4) this, of b] rec(2) [OF Inl] show ?thesis by blast
  next
    case (Inr res)
    with assms(5) r1 have "r = Inr res" "l' = l1" by (simp_all add: guarded_def)
    with c Inr show ?thesis by (intro exI [of _ "[EvRecover c]"]) (auto simp: write_rest_def)
  qed
qed

lemma guarded_finish:
  assumes "\<not> rg_read_only t" and "recoverable (rg_implementation t)"
    and "guarded call ctx at (finish_tool max_bytes (logged_tool t) call ctx at result) (w, l) = (r, (w', l'))"
    and at: "ta_tool at = Some (logged_tool t)" "ta_write_started at"
  shows "\<exists>rest. l' = l @ rest \<and> write_rest (rg_implementation t) True rest r"
proof -
  let ?im = "rg_implementation t" and ?ser = "plain_json (JObj (tr_data result))"
  let ?enc = "rbind (ensure_safe ?ser) (\<lambda>_. utf8_encode ?ser)"
  let ?big = "\<lambda>r. failure_result (tc_call_id call) ToolExecutionFailure (or_code r (u ''TOOL_RESULT_TOO_LARGE''))"
  let ?bad = "\<lambda>r. result\<lparr>tr_call_id := tc_call_id call, tr_error_code := (if falsy r then tr_error_code result else r)\<rparr>"
  note handle = handle_rest [OF at(1) assms(1) at(2) assms(2)]
    and recover = recovered_rest [OF at(1) assms(1) at(2) assms(2)]
  let ?F = "finish_tool max_bytes (logged_tool t) call ctx at result"
  show ?thesis
  proof (cases ?enc)
    case (Inl e)
    then have "?F (w, l) = (Inl e, (w, l))" by (simp add: finish_tool_def Let_def sbind_def)
    with assms(3) handle [of call ctx e w l "[]" r w' l'] show ?thesis by (simp add: guarded_def)
  next
    case enc: (Inr encoded)
    consider (large) "int (length encoded) > max_bytes"
      | (failed) "\<not> int (length encoded) > max_bytes" "tr_outcome result \<noteq> ToolSuccess"
      | (passed) "\<not> int (length encoded) > max_bytes" "tr_outcome result = ToolSuccess" by blast
    then show ?thesis
    proof cases
      case large
      with enc have "?F (w, l) = recovered call ctx at ?big (w, l)"
        by (simp add: finish_tool_def Let_def sbind_def)
      then have "guarded call ctx at (recovered call ctx at ?big) (w, l) = (r, (w', l'))"
        using assms(3) by (simp add: guarded_def)
      from recover [OF this] show ?thesis by simp
    next
      case failed
      with enc have "?F (w, l) = recovered call ctx at ?bad (w, l)"
        by (simp add: finish_tool_def Let_def sbind_def)
      then have "guarded call ctx at (recovered call ctx at ?bad) (w, l) = (r, (w', l'))"
        using assms(3) by (simp add: guarded_def)
      from recover [OF this] failed(2) show ?thesis by (simp add: falsy_def)
    next
      case passed
      show ?thesis
      proof (cases "im_commit ?im")
        case None
        with enc passed have "?F (w, l) = (Inr (result\<lparr>tr_call_id := tc_call_id call\<rparr>), (w, l))"
          by (simp add: finish_tool_def Let_def sbind_def logged_impl_def)
        with assms(3) passed(2) None show ?thesis by (auto simp: guarded_def write_rest_def)
      next
        case (Some commit)
        obtain x w1 where x: "commit (ta_prepared at) w = (x, w1)" by (metis prod.exhaust)
        show ?thesis
        proof (cases x)
          case (Inl e)
          with enc passed Some x assms(1) have "?F (w, l) = (Inl e, (w1, l @ [EvCommit False]))"
            by (simp add: finish_tool_def Let_def sbind_def logged_impl_def logging_apply)
          with assms(3) handle [of call ctx e w1 l "[EvCommit False]" r w' l'] show ?thesis by (simp add: guarded_def)
        next
          case (Inr y)
          with enc passed Some x assms(1) have
            "?F (w, l) = (Inr (result\<lparr>tr_call_id := tc_call_id call\<rparr>), (w1, l @ [EvCommit True]))"
            by (simp add: finish_tool_def Let_def sbind_def logged_impl_def logging_apply)
          with assms(3) passed(2) Some show ?thesis
            by (intro exI [of _ "[EvCommit True]"]) (auto simp: guarded_def write_rest_def)
        qed
      qed
    qed
  qed
qed

lemma guarded_run:
  assumes "\<not> rg_read_only t" and "recoverable (rg_implementation t)"
    and "guarded call ctx at (run_tool max_bytes (logged_tool t) call ctx at) (w, l) = (r, (w', l'))"
    and at: "ta_tool at = Some (logged_tool t)" "ta_write_started at"
  shows "\<exists>b rest. l' = l @ EvExecute b # rest \<and> write_rest (rg_implementation t) b rest r"
proof -
  obtain x w1 where x: "im_execute (rg_implementation t) (tc_arguments call) ctx w = (x, w1)" by (metis prod.exhaust)
  show ?thesis
  proof (cases x)
    case (Inl e)
    with x have "run_tool max_bytes (logged_tool t) call ctx at (w, l) = (Inl e, (w1, (l @ [EvExecute False]) @ []))"
      by (simp add: run_tool_def sbind_def logged_impl_def logging_apply)
    with assms(3) have "handle_tool_error call ctx at e (w1, (l @ [EvExecute False]) @ []) = (r, (w', l'))"
      by (simp add: guarded_def)
    from handle_rest [OF at(1) assms(1) at(2) assms(2) this, of False] show ?thesis by auto
  next
    case (Inr result)
    with x have "run_tool max_bytes (logged_tool t) call ctx at (w, l) =
        finish_tool max_bytes (logged_tool t) call ctx at result (w1, l @ [EvExecute True])"
      by (simp add: run_tool_def sbind_def logged_impl_def logging_apply)
    then have "guarded call ctx at (finish_tool max_bytes (logged_tool t) call ctx at result)
        (w1, l @ [EvExecute True]) = (r, (w', l'))"
      using assms(3) by (simp add: guarded_def)
    from guarded_finish [OF assms(1,2) this at] show ?thesis by auto
  qed
qed

lemma check_call_logged:
  "check_call (logged_registry reg) call ctx = (case check_call reg call ctx of Inl e \<Rightarrow> Inl e | Inr t \<Rightarrow> Inr (logged_tool t))"
proof -
  have get: "dict_get (logged_registry reg) n = map_option logged_tool (dict_get reg n)" for n
    by (induction reg) (auto simp: logged_registry_def)
  define g where "g = ensure_safe (plain_json (JObj (tc_arguments call)))"
  show ?thesis
    unfolding check_call_def resolve_tool_def get g_def [symmetric]
    by (cases g) (simp_all add: persona_allowed_def split: option.split)
qed

lemma refused_before:
  assumes "handle_tool_error call ctx at e (w, l) = (r, (w', l'))" and "\<not> ta_write_started at"
  shows "l' = l" "\<And>res. r = Inr res \<Longrightarrow> tr_outcome res \<noteq> ToolSuccess"
proof -
  have "l' = l \<and> (\<forall>res. r = Inr res \<longrightarrow> tr_outcome res \<noteq> ToolSuccess)"
    using assms
    by (auto simp: handle_tool_error_def recovered_def recover_write_def sbind_def refusal_outcome_def
        split: option.splits exn.splits if_splits)
  then show "l' = l" "\<And>res. r = Inr res \<Longrightarrow> tr_outcome res \<noteq> ToolSuccess" by blast+
qed

lemma recovered_idle: "\<not> ta_write_started at \<Longrightarrow> recovered call ctx at f s = (Inr (f None), s)"
  by (auto simp: recovered_def sbind_def recover_write_def split: option.splits)

lemma finish_read_only:
  "rg_read_only t \<Longrightarrow> \<not> ta_write_started at \<Longrightarrow>
     snd (finish_tool max_bytes (logged_tool t) call ctx at result s) = s"
  by (auto simp: finish_tool_def Let_def sbind_def recovered_idle split: sum.splits option.splits)

lemma guarded_read_only:
  assumes "guarded call ctx at (run_tool max_bytes (logged_tool t) call ctx at) (w, l) = (r, (w', l'))"
    and "rg_read_only t" "\<not> ta_write_started at"
  shows "\<exists>b. l' = l @ [EvExecute b]"
proof -
  obtain x w1 where x: "im_execute (rg_implementation t) (tc_arguments call) ctx w = (x, w1)" by (metis prod.exhaust)
  obtain y where y: "run_tool max_bytes (logged_tool t) call ctx at (w, l) = (y, (w1, l @ [EvExecute (\<not> isl x)]))"
  proof (cases x)
    case (Inl e)
    with x that show ?thesis by (simp add: run_tool_def sbind_def logged_impl_def logging_apply)
  next
    case (Inr result)
    with x finish_read_only [OF assms(2,3), of max_bytes call ctx result "(w1, l @ [EvExecute True])"] that
    show ?thesis
      by (cases "finish_tool max_bytes (logged_tool t) call ctx at result (w1, l @ [EvExecute True])")
        (simp add: run_tool_def sbind_def logged_impl_def logging_apply)
  qed
  then show ?thesis
  proof (cases y)
    case (Inl e)
    with assms(1) y have "handle_tool_error call ctx at e (w1, l @ [EvExecute (\<not> isl x)]) = (r, (w', l'))"
      by (simp add: guarded_def)
    from refused_before(1) [OF this assms(3)] show ?thesis by blast
  next
    case (Inr res)
    with assms(1) y show ?thesis by (auto simp: guarded_def)
  qed
qed

lemma written_run:
  assumes "\<not> rg_read_only t" and "recoverable (rg_implementation t)"
    and "(case prepare_tool (logged_tool t) call ctx (w, []) of
           (Inl e, s) \<Rightarrow>
             handle_tool_error call ctx \<lparr>ta_tool = Some (logged_tool t), ta_prepared = None, ta_write_started = False\<rparr> e s
         | (Inr p, s) \<Rightarrow>
             guarded call ctx (at p) (run_tool max_bytes (logged_tool t) call ctx (at p)) s) = (r, (w', l))"
    and at: "\<And>p. ta_tool (at p) = Some (logged_tool t)" "\<And>p. ta_write_started (at p)"
  shows "call_life t l r"
proof (cases "im_prepare (rg_implementation t)")
  case None
  then have "prepare_tool (logged_tool t) call ctx (w, []) = (Inr None, (w, []))"
    by (simp add: prepare_tool_def logged_impl_def)
  with assms(3) have
    "guarded call ctx (at None) (run_tool max_bytes (logged_tool t) call ctx (at None)) (w, []) = (r, (w', l))"
    by simp
  from guarded_run [OF assms(1,2) this at] assms(1) None show ?thesis by (auto simp: call_life_def)
next
  case (Some prepare)
  obtain x w1 where x: "prepare (tc_arguments call) ctx w = (x, w1)" by (metis prod.exhaust)
  show ?thesis
  proof (cases x)
    case (Inl e)
    with x Some assms(1) obtain e' where
      "prepare_tool (logged_tool t) call ctx (w, []) = (Inl e', (w1, [EvPrepare False]))"
      by (simp add: prepare_tool_def logged_impl_def logging_apply)
    with assms(3) have "handle_tool_error call ctx
        \<lparr>ta_tool = Some (logged_tool t), ta_prepared = None, ta_write_started = False\<rparr> e' (w1, [EvPrepare False]) =
        (r, (w', l))"
      by simp
    from refused_before [OF this] show ?thesis by (simp add: call_life_def)
  next
    case (Inr p)
    with x Some assms(1) have
      "prepare_tool (logged_tool t) call ctx (w, []) = (Inr (Some p), (w1, [EvPrepare True]))"
      by (simp add: prepare_tool_def logged_impl_def logging_apply)
    with assms(3) have "guarded call ctx (at (Some p)) (run_tool max_bytes (logged_tool t) call ctx (at (Some p)))
        (w1, [EvPrepare True]) = (r, (w', l))"
      by simp
    from guarded_run [OF assms(1,2) this at] assms(1) Some show ?thesis by (auto simp: call_life_def)
  qed
qed


text \<open>A write tool that prepares a number, adds it on commit and fails to run.\<close>

definition sample_write_tool :: "(int, int) tool_impl" where
  "sample_write_tool =
     \<lparr>im_execute = (\<lambda>_ _ w. (Inl TimeoutExn, w)), im_prepare = Some (\<lambda>_ _ w. (Inr w, w + 1)),
      im_commit = Some (\<lambda>_ w. (Inr (), w)), im_rollback = Some (\<lambda>p w. (Inr (), the p)), im_compensate = None\<rparr>"

definition sample_tool_definition :: tool_definition where
  "sample_tool_definition =
     \<lparr>td_tool_id = u ''add'', td_name = u ''add'', td_description = [], td_input_schema = [],
      td_output_schema = [], td_safety = []\<rparr>"

definition sample_call :: tool_call where
  "sample_call = \<lparr>tc_call_id = u ''c1'', tc_name = u ''add'', tc_arguments = []\<rparr>"

definition sample_context :: tool_execution_context where
  "sample_context =
     \<lparr>tx_flow_id = u ''f'', tx_turn_id = u ''t'', tx_persona_id = u ''chat'', tx_state_id = u ''default'',
      tx_config_revision = u ''r'', tx_trigger_record_id = None\<rparr>"

definition sample_tool_source :: source_ref where
  "sample_tool_source =
     \<lparr>sf_source_kind = SrcGenerated, sf_source_id = u ''x'', sf_path = None, sf_content_sha256 = None,
      sf_revision = None, sf_entity_ids = [], sf_producer = u ''x''\<rparr>"

definition sample_registered :: "(int, int) registered_tool" where
  "sample_registered =
     \<lparr>rg_definition = sample_tool_definition, rg_implementation = sample_write_tool, rg_enabled = True,
      rg_personas = [u ''chat''], rg_read_only = False, rg_contract = None, rg_sources = [sample_tool_source]\<rparr>"

definition sample_registry :: "(int, int) registry" where
  "sample_registry = [(u ''add'', sample_registered)]"

lemma sample_registry_registered: "registered sample_registry"
proof -
  have "register_tool [] sample_tool_definition sample_write_tool True [u ''chat''] False None [sample_tool_source] =
      Inr sample_registry"
    by (simp add: register_tool_def transactional_def sample_write_tool_def sample_registry_def
        sample_registered_def sample_tool_definition_def)
  from registered_register [OF registered_empty this] show ?thesis .
qed


end
