(* ===== verification/Memory_Source.thy ===== *)
theory Memory_Source
  imports JsonLoads Tools Incidents Curate "HOL-Library.Product_Lexorder" "HOL-Library.Multiset"
begin

text \<open>
  \<open>tools/memory_source.py\<close>: the read-only tool that pages through the archived records a long-term memory
  rests on. The cursor is base64 of a small JSON object naming the revision and the offset; a client follows
  \<open>next_cursor\<close> until there is none.
\<close>

subsection \<open>Cursors\<close>

record source_query =
  sq_env :: memory_env
  sq_page_size :: int
  sq_float :: "pystr \<Rightarrow> pystr"
  sq_float_is :: "pystr \<Rightarrow> int \<Rightarrow> bool"

definition cursor_payload :: "int \<Rightarrow> int \<Rightarrow> json" where
  "cursor_payload revision offset = JObj [(u ''revision'', JInt revision), (u ''offset'', JInt offset)]"

definition encode_cursor :: "int \<Rightarrow> int \<Rightarrow> pystr" where
  "encode_cursor revision offset =
     rstrip_chars [61] (b64_encode (utf8 (json_text [44] [58] (cursor_payload revision offset))))"

text \<open>Python equality of a JSON value with an \<open>int\<close>, and its value when it is an instance of \<open>int\<close>.\<close>

fun json_is_int :: "(pystr \<Rightarrow> int \<Rightarrow> bool) \<Rightarrow> json \<Rightarrow> int \<Rightarrow> bool" where
  "json_is_int feq (JInt i) n = (i = n)"
| "json_is_int feq (JBool b) n = ((if b then 1 else 0) = n)"
| "json_is_int feq (JFloat r) n = feq r n"
| "json_is_int feq _ n = False"

fun json_int :: "json \<Rightarrow> int option" where
  "json_int (JInt i) = Some i"
| "json_int (JBool b) = Some (if b then 1 else 0)"
| "json_int _ = None"

definition decode_cursor :: "source_query \<Rightarrow> json \<Rightarrow> int \<Rightarrow> int result" where
  "decode_cursor q cursor revision =
     (case cursor of
        JStr s \<Rightarrow>
          (case Option.bind (Option.bind (urlsafe_b64decode (b64_pad s)) utf8_decode) (json_loads (sq_float q)) of
             Some (JObj kvs) \<Rightarrow>
               (case (dict_get kvs (u ''revision''), Option.bind (dict_get kvs (u ''offset'')) json_int) of
                  (Some r, Some i) \<Rightarrow> if json_is_int (sq_float_is q) r revision then Inr i else Inl ValueExn
                | _ \<Rightarrow> Inl ValueExn)
           | _ \<Rightarrow> Inl ValueExn)
      | _ \<Rightarrow> Inl ValueExn)"

subsection \<open>One query\<close>

text \<open>\<open>xs[a:b]\<close>: a negative index counts from the end, an index out of range is cut.\<close>

definition slice_index :: "'a list \<Rightarrow> int \<Rightarrow> nat" where
  "slice_index xs i = nat (if i < 0 then max 0 (i + int (length xs)) else min i (int (length xs)))"

definition py_slice :: "'a list \<Rightarrow> int \<Rightarrow> int \<Rightarrow> 'a list" where
  "py_slice xs a b = take (slice_index xs b - slice_index xs a) (drop (slice_index xs a) xs)"

definition sort_references ::
  "raw_record list \<Rightarrow> source_reference list \<Rightarrow> source_reference list result"
where
  "sort_references raw refs =
     rbind (rmap (\<lambda>ref. case record_by_id raw (sr_record_id ref) of
                         None \<Rightarrow> Inl KeyExn
                       | Some r \<Rightarrow> Inr ((rr_global_sequence r, sr_record_id ref), ref)) refs) (\<lambda>keyed.
     Inr (map snd (sort_key fst keyed)))"

definition source_entry :: "raw_record \<Rightarrow> json" where
  "source_entry r = JObj
     [(u ''record_id'', JStr (rr_record_id r)), (u ''global_sequence'', JInt (rr_global_sequence r)),
      (u ''role'', JStr (role_value (rr_role r))), (u ''content'', JStr (rr_content r)),
      (u ''created_at'', JStr (utc_isoformat (rr_created_at r))), (u ''state_id'', JStr (rr_state_id r)),
      (u ''content_sha256'', JStr (rr_content_sha256 r))]"

text \<open>The records of a page, or the code of the failure the loop returns.\<close>

fun page_records :: "raw_record list \<Rightarrow> source_reference list \<Rightarrow> (string + json list) result" where
  "page_records raw [] = Inr (Inr [])"
| "page_records raw (ref # refs) =
     (case record_by_id raw (sr_record_id ref) of
        None \<Rightarrow> Inr (Inl ''SOURCE_RECORD_MISSING'')
      | Some r \<Rightarrow>
          if rr_content_sha256 r \<noteq> sr_record_sha256 ref then Inr (Inl ''SOURCE_HASH_MISMATCH'')
          else rbind (ensure_safe (rr_content r)) (\<lambda>_.
               rbind (page_records raw refs) (\<lambda>rest.
               Inr (case rest of Inl code \<Rightarrow> Inl code | Inr es \<Rightarrow> Inr (source_entry r # es)))))"

definition page_result ::
  "source_query \<Rightarrow> tool_execution_context \<Rightarrow> memory_document \<Rightarrow> memory_item \<Rightarrow> int \<Rightarrow> source_reference list \<Rightarrow>
   int \<Rightarrow> json list \<Rightarrow> tool_result"
where
  "page_result q ctx d m offset refs fetched entries =
     \<lparr>tr_call_id = u ''host'', tr_outcome = ToolSuccess,
      tr_data =
        [(u ''flow_id'', JStr (tx_flow_id ctx)), (u ''memory_id'', JStr (mi_memory_id m)),
         (u ''memory_revision'', JInt (md_revision d)), (u ''source_count'', JInt (int (length refs))),
         (u ''records'', JArr entries),
         (u ''next_cursor'',
            if offset + fetched < int (length refs) then JStr (encode_cursor (md_revision d) (offset + fetched))
            else JNull)],
      tr_error_code = None, tr_completed_at = None, tr_origin_id = None\<rparr>"

definition read_page ::
  "source_query \<Rightarrow> tool_execution_context \<Rightarrow> memory_document \<Rightarrow> memory_item \<Rightarrow> int \<Rightarrow> world \<Rightarrow> tool_result result"
where
  "read_page q ctx d m offset w =
     rbind (read_all (me_codec (sq_env q)) (w_segments w)) (\<lambda>raw.
     rbind (sort_references raw (mi_source_refs m)) (\<lambda>refs.
       let page = py_slice refs offset (offset + sq_page_size q)
       in rbind (page_records raw page) (\<lambda>es.
          Inr (case es of
                 Inl code \<Rightarrow> failure_result (u ''host'') ToolExecutionFailure (u code)
               | Inr entries \<Rightarrow> page_result q ctx d m offset refs (int (length page)) entries))))"

definition execute_sync ::
  "source_query \<Rightarrow> int \<Rightarrow> jdict \<Rightarrow> tool_execution_context \<Rightarrow> (world, tool_result) op"
where
  "execute_sync q now arguments ctx =
     sbind (ls_load (sq_env q) now None) (\<lambda>d w.
       case List.find (\<lambda>m. dict_get arguments (u ''memory_id'') = Some (JStr (mi_memory_id m))) (md_memories d) of
         None \<Rightarrow> (Inr (failure_result (u ''host'') ToolNotFound (u ''MEMORY_NOT_FOUND'')), w)
       | Some m \<Rightarrow>
           (let cursor = dict_get arguments (u ''cursor'')
            in case (if json_truthy cursor then decode_cursor q (the cursor) (md_revision d) else Inr 0) of
                 Inl e \<Rightarrow> (Inr (failure_result (u ''host'') ToolInvalidArguments (u ''CURSOR_INVALID'')), w)
               | Inr offset \<Rightarrow> (read_page q ctx d m offset w, w)))"

definition query_result_source :: "pystr \<Rightarrow> source_ref result" where
  "query_result_source call_id =
     validated source_ref_ok
       \<lparr>sf_source_kind = SrcRuntime, sf_source_id = u ''tool-result:'' @ call_id, sf_path = None,
        sf_content_sha256 = None, sf_revision = None, sf_entity_ids = [call_id],
        sf_producer = u ''tool:memory_source_query''\<rparr>"

text \<open>The definition the tool registers itself with.\<close>

definition query_definition :: tool_definition where
  "query_definition =
     \<lparr>td_tool_id = u ''memory_source_query'', td_name = u ''memory_source_query'',
      td_description = [25353, 38271, 26399, 35760, 24518, 32, 73, 68, 32, 21482, 35835, 26597, 35810, 26377, 24207,
        21407, 22987, 26469, 28304, 12290],
      td_input_schema =
        [(u ''type'', JStr (u ''object'')),
         (u ''properties'', JObj
            [(u ''memory_id'', JObj [(u ''type'', JStr (u ''string''))]),
             (u ''cursor'', JObj [(u ''type'', JStr (u ''string''))])]),
         (u ''required'', JArr [JStr (u ''memory_id'')]),
         (u ''additionalProperties'', JBool False)],
      td_output_schema = [(u ''type'', JStr (u ''object''))],
      td_safety = [(u ''read_only'', JBool True), (u ''destructive'', JBool False), (u ''idempotent'', JBool True)]\<rparr>"

subsection \<open>The cursor round trip\<close>

lemma cursor_text_ascii: "list_all (\<lambda>c. c < 128) (json_text [44] [58] (cursor_payload revision offset))"
proof -
  have "c < 128" if "c \<in> set (int_str i)" for c i using int_str_chars [OF that] by auto
  then show ?thesis
    by (auto simp: cursor_payload_def quote_json_def u_Cons esc_char_def list_all_iff)
qed

lemma encode_cursor_text:
  "Option.bind (urlsafe_b64decode (b64_pad (encode_cursor revision offset))) utf8_decode =
     Some (json_text [44] [58] (cursor_payload revision offset))"
proof -
  let ?t = "json_text [44] [58] (cursor_payload revision offset)"
  have ascii: "list_all (\<lambda>c. c < 128) ?t" by (rule cursor_text_ascii)
  then have "utf8 ?t = ?t" by (rule utf8_ascii)
  moreover have "list_all (\<lambda>c. c < 256) ?t" "encodable ?t"
    using ascii by (auto simp: list_all_iff encodable_def surrogate_def)
  ultimately show ?thesis
    using base64_round_trip [of ?t] utf8_round_trip [of ?t] by (simp add: encode_cursor_def)
qed

lemma encode_cursor_neq_Nil: "encode_cursor revision offset \<noteq> []"
proof
  assume "encode_cursor revision offset = []"
  then have "Option.bind (urlsafe_b64decode (b64_pad (encode_cursor revision offset))) utf8_decode = Some []"
    by (simp add: urlsafe_b64decode_def b64_pad_def)
  with encode_cursor_text [of revision offset] show False by (simp add: cursor_payload_def)
qed

lemma decode_encode:
  "decode_cursor q (JStr (encode_cursor revision offset)) revision' =
     (if revision' = revision then Inr offset else Inl ValueExn)"
proof -
  have "json_loads (sq_float q) (json_text [44] [58] (cursor_payload revision offset)) =
      Some (cursor_payload revision offset)"
    by (rule json_loads_text) (simp_all add: separator_def skip_ws_def cursor_payload_def)
  then show ?thesis
    unfolding decode_cursor_def by (simp add: encode_cursor_text) (simp add: cursor_payload_def)
qed

text \<open>
  C26. A cursor decodes to the offset it was made from, for any integers and whatever the float arguments do,
  and only at the revision it was made for; the tool never hands out an empty cursor, which the next call
  would read as the start.
\<close>

theorem cursor_round_trip:
  "decode_cursor q (JStr (encode_cursor revision offset)) revision' =
     (if revision' = revision then Inr offset else Inl ValueExn) \<and>
   json_truthy (Some (JStr (encode_cursor revision offset)))"
  by (simp add: decode_encode encode_cursor_neq_Nil)

subsection \<open>Following the cursor\<close>

text \<open>
  A client that asks for a memory and follows \<open>next_cursor\<close>: the records of every page, in order. The bound
  counts the calls; \<open>None\<close> is a failure or a bound used up.
\<close>

definition query_arguments :: "pystr \<Rightarrow> pystr option \<Rightarrow> jdict" where
  "query_arguments memory_id cursor =
     (u ''memory_id'', JStr memory_id) # (case cursor of None \<Rightarrow> [] | Some c \<Rightarrow> [(u ''cursor'', JStr c)])"

definition page_of :: "tool_result \<Rightarrow> json list" where
  "page_of r = (case dict_get (tr_data r) (u ''records'') of Some (JArr es) \<Rightarrow> es | _ \<Rightarrow> [])"

fun follow_cursor ::
  "source_query \<Rightarrow> int \<Rightarrow> tool_execution_context \<Rightarrow> pystr \<Rightarrow> nat \<Rightarrow> pystr option \<Rightarrow> world \<Rightarrow> json list list option"
where
  "follow_cursor q now ctx memory_id 0 cursor w = None"
| "follow_cursor q now ctx memory_id (Suc n) cursor w =
     (case execute_sync q now (query_arguments memory_id cursor) ctx w of
        (Inr r, w') \<Rightarrow>
          if tr_outcome r \<noteq> ToolSuccess then None
          else (case dict_get (tr_data r) (u ''next_cursor'') of
                  Some (JStr c) \<Rightarrow> map_option (Cons (page_of r)) (follow_cursor q now ctx memory_id n (Some c) w')
                | _ \<Rightarrow> Some [page_of r])
      | _ \<Rightarrow> None)"

text \<open>A document at rest: the file and its recovery copy agree, and the store has loaded it.\<close>

definition at_rest :: "memory_env \<Rightarrow> memory_document \<Rightarrow> world \<Rightarrow> bool" where
  "at_rest env d w \<longleftrightarrow>
     (\<exists>payload. w_yaml w = Some payload \<and> w_last_valid w = Some payload \<and>
        parse_bytes env payload None w = Inr d \<and> \<not> ls_read_only w \<and>
        ls_loaded_hash w = Some (content_hash_bytes payload))"

lemma load_at_rest: "at_rest env d w \<Longrightarrow> ls_load env now None w = (Inr d, w)"
  by (auto simp: at_rest_def ls_load_def load_compare_def load_finish_def refresh_last_valid_def sbind_def)

lemma at_rest_sources:
  assumes "at_rest env d w" and "m \<in> set (md_memories d)"
  shows "\<exists>raw. read_all (me_codec env) (w_segments w) = Inr raw \<and> validate_source_refs raw (mi_source_refs m) = Inr ()"
    and "distinct (map mi_memory_id (md_memories d))"
proof -
  obtain payload where p: "parse_bytes env payload None w = Inr d" using assms(1) by (auto simp: at_rest_def)
  then have valid: "validate_sources env d None w = Inr ()" and ok: "memory_document_ok d"
    by (auto simp: parse_bytes_def rbind_Inr_iff split: if_splits option.splits)
  from valid assms(2) obtain raw where "read_all (me_codec env) (w_segments w) = Inr raw"
    "validate_source_refs raw (concat (map mi_source_refs (md_memories d))) = Inr ()"
    by (auto simp: validate_sources_def rbind_Inr_iff split: if_splits)
  with assms(2) show "\<exists>raw. read_all (me_codec env) (w_segments w) = Inr raw \<and>
      validate_source_refs raw (mi_source_refs m) = Inr ()"
    by (auto simp: validate_source_refs_iff)
  from ok show "distinct (map mi_memory_id (md_memories d))"
    by (auto simp: memory_document_ok_def document_level_ok_def)
qed

definition ref_record :: "raw_record list \<Rightarrow> source_reference \<Rightarrow> raw_record" where
  "ref_record raw ref = the (record_by_id raw (sr_record_id ref))"

definition ordered_refs :: "raw_record list \<Rightarrow> memory_item \<Rightarrow> source_reference list" where
  "ordered_refs raw m =
     sort_key (\<lambda>ref. (rr_global_sequence (ref_record raw ref), sr_record_id ref)) (mi_source_refs m)"

lemma sort_keyed: "map snd (sort_key fst (map (\<lambda>x. (f x, x)) xs)) = sort_key f xs"
proof -
  have "insort_key fst (f x, x) (map (\<lambda>x. (f x, x)) ys) = map (\<lambda>x. (f x, x)) (insort_key f x ys)" for x ys
    by (induction ys) auto
  then have "sort_key fst (map (\<lambda>x. (f x, x)) xs) = map (\<lambda>x. (f x, x)) (sort_key f xs)"
    by (induction xs) auto
  then show ?thesis by (simp add: comp_def)
qed

lemma sort_references_valid:
  assumes "validate_source_refs raw (mi_source_refs m) = Inr ()"
  shows "sort_references raw (mi_source_refs m) = Inr (ordered_refs raw m)"
proof -
  have "rmap (\<lambda>ref. case record_by_id raw (sr_record_id ref) of
                   None \<Rightarrow> Inl KeyExn
                 | Some r \<Rightarrow> Inr ((rr_global_sequence r, sr_record_id ref), ref)) (mi_source_refs m) =
      Inr (map (\<lambda>ref. ((rr_global_sequence (ref_record raw ref), sr_record_id ref), ref)) (mi_source_refs m))"
    by (rule rmap_total) (use assms in \<open>auto simp: validate_source_refs_iff ref_record_def\<close>)
  then show ?thesis by (simp add: sort_references_def ordered_refs_def sort_keyed)
qed

lemma page_records_valid:
  assumes "validate_source_refs raw refs = Inr ()" and "\<forall>ref\<in>set refs. safe_text (rr_content (ref_record raw ref))"
  shows "page_records raw refs = Inr (Inr (map (\<lambda>ref. source_entry (ref_record raw ref)) refs))"
  using assms by (induction refs) (auto simp: ref_record_def split: option.splits if_splits)

lemma py_slice_take:
  "0 \<le> p \<Longrightarrow> py_slice xs (int k) (int k + p) = take (nat p) (drop k xs)"
  by (auto simp: py_slice_def slice_index_def min_def nat_add_distrib)

lemma find_by_key: "distinct (map f xs) \<Longrightarrow> x \<in> set xs \<Longrightarrow> List.find (\<lambda>y. f x = f y) xs = Some x"
  by (induction xs) (auto simp: image_iff)

text \<open>One call at an offset within the sources.\<close>

lemma execute_page:
  assumes rest: "at_rest (sq_env q) d w" and m: "m \<in> set (md_memories d)"
    and raw: "read_all (me_codec (sq_env q)) (w_segments w) = Inr raw"
    and safe: "\<forall>ref\<in>set (mi_source_refs m). safe_text (rr_content (ref_record raw ref))"
    and size: "0 \<le> sq_page_size q"
    and cursor: "cursor = None \<and> k = 0 \<or> cursor = Some (encode_cursor (md_revision d) (int k))"
  shows "execute_sync q now (query_arguments (mi_memory_id m) cursor) ctx w =
    (Inr (page_result q ctx d m (int k) (ordered_refs raw m)
            (int (length (take (nat (sq_page_size q)) (drop k (ordered_refs raw m)))))
            (map (\<lambda>ref. source_entry (ref_record raw ref))
               (take (nat (sq_page_size q)) (drop k (ordered_refs raw m))))), w)"
proof -
  let ?S = "ordered_refs raw m"
  let ?page = "take (nat (sq_page_size q)) (drop k ?S)"
  from at_rest_sources(1) [OF rest m] raw have valid: "validate_source_refs raw (mi_source_refs m) = Inr ()" by simp
  have "set ?page \<subseteq> set (mi_source_refs m)"
    using set_take_subset [of "nat (sq_page_size q)" "drop k ?S"] set_drop_subset [of k ?S]
    by (auto simp: ordered_refs_def)
  then have page: "page_records raw ?page = Inr (Inr (map (\<lambda>ref. source_entry (ref_record raw ref)) ?page))"
    using valid safe by (intro page_records_valid) (auto simp: validate_source_refs_iff)
  have find: "List.find (\<lambda>x. dict_get (query_arguments (mi_memory_id m) cursor) (u ''memory_id'') =
      Some (JStr (mi_memory_id x))) (md_memories d) = Some m"
    using find_by_key [OF at_rest_sources(2) [OF rest m] m] by (simp add: query_arguments_def)
  have offset: "(if json_truthy (dict_get (query_arguments (mi_memory_id m) cursor) (u ''cursor''))
      then decode_cursor q (the (dict_get (query_arguments (mi_memory_id m) cursor) (u ''cursor''))) (md_revision d)
      else Inr 0) = Inr (int k)"
    using cursor by (auto simp: query_arguments_def decode_encode encode_cursor_neq_Nil)
  have "read_page q ctx d m (int k) w = Inr (page_result q ctx d m (int k) ?S (int (length ?page))
      (map (\<lambda>ref. source_entry (ref_record raw ref)) ?page))"
    by (simp add: read_page_def raw sort_references_valid [OF valid] py_slice_take [OF size] page Let_def del: length_take)
  with offset show ?thesis
    by (simp add: execute_sync_def sbind_def load_at_rest [OF rest] find Let_def del: length_take)
qed

lemma page_result_fields:
  "page_of (page_result q ctx d m offset refs fetched entries) = entries"
  "tr_outcome (page_result q ctx d m offset refs fetched entries) = ToolSuccess"
  "dict_get (tr_data (page_result q ctx d m offset refs fetched entries)) (u ''next_cursor'') =
     Some (if offset + fetched < int (length refs) then JStr (encode_cursor (md_revision d) (offset + fetched)) else JNull)"
  by (simp_all add: page_of_def page_result_def)

text \<open>\<open>c\<close> pages of at most \<open>p\<close> hold \<open>n\<close> sources, and one page less would not; no source still takes a page.\<close>

definition page_count :: "nat \<Rightarrow> nat \<Rightarrow> nat \<Rightarrow> bool" where
  "page_count n p c \<longleftrightarrow> n \<le> c * p \<and> (c - 1) * p < max 1 n \<and> 0 < c"

lemma page_count_step:
  assumes "0 < p" and "p < n" and "page_count (n - p) p c"
  shows "page_count n p (Suc c)"
proof -
  from assms(3) obtain b where "c = Suc b" by (cases c) (auto simp: page_count_def)
  with assms show ?thesis by (auto simp: page_count_def)
qed

lemma follow_pages:
  assumes rest: "at_rest (sq_env q) d w" and m: "m \<in> set (md_memories d)"
    and raw: "read_all (me_codec (sq_env q)) (w_segments w) = Inr raw"
    and safe: "\<forall>ref\<in>set (mi_source_refs m). safe_text (rr_content (ref_record raw ref))"
    and size: "0 < sq_page_size q"
  shows "cursor = None \<and> k = 0 \<or> cursor = Some (encode_cursor (md_revision d) (int k)) \<Longrightarrow>
    length (ordered_refs raw m) - k < n \<Longrightarrow>
    \<exists>pages. follow_cursor q now ctx (mi_memory_id m) n cursor w = Some pages \<and>
      concat pages = map (\<lambda>ref. source_entry (ref_record raw ref)) (drop k (ordered_refs raw m)) \<and>
      (\<forall>page\<in>set pages. int (length page) \<le> sq_page_size q) \<and>
      page_count (length (ordered_refs raw m) - k) (nat (sq_page_size q)) (length pages)"
proof (induction n arbitrary: k cursor)
  case (Suc n)
  let ?S = "ordered_refs raw m" and ?e = "\<lambda>ref. source_entry (ref_record raw ref)"
  let ?p = "nat (sq_page_size q)"
  let ?page = "take ?p (drop k ?S)"
  have p: "0 < ?p" "0 \<le> sq_page_size q" using size by simp_all
  note call = execute_page [OF rest m raw safe p(2) Suc.prems(1), of now ctx]
  show ?case
  proof (cases "k + ?p < length ?S")
    case True
    then have fetched: "int k + int (length ?page) = int (k + ?p)" by simp
    obtain pages where pages: "follow_cursor q now ctx (mi_memory_id m) n
        (Some (encode_cursor (md_revision d) (int (k + ?p)))) w = Some pages"
      "concat pages = map ?e (drop (k + ?p) ?S)" "\<forall>page\<in>set pages. int (length page) \<le> sq_page_size q"
      "page_count (length ?S - (k + ?p)) ?p (length pages)"
    proof -
      have "length ?S - (k + ?p) < n" using Suc.prems(2) True p(1) by linarith
      from Suc.IH [OF disjI2 [OF refl] this] that show ?thesis by blast
    qed
    have "follow_cursor q now ctx (mi_memory_id m) (Suc n) cursor w = Some (map ?e ?page # pages)"
      unfolding follow_cursor.simps call prod.case sum.case page_result_fields fetched
      using True pages(1) by (simp del: of_nat_add)
    moreover have "concat (map ?e ?page # pages) = map ?e (drop k ?S)"
      by (simp add: pages(2) flip: map_append drop_drop) (metis add.commute append_take_drop_id drop_drop)
    moreover have "page_count (length ?S - k) ?p (Suc (length pages))"
      using page_count_step [OF p(1), of "length ?S - k" "length pages"] pages(4) True by (simp add: diff_diff_eq)
    ultimately show ?thesis using pages(3) p by (intro exI [of _ "map ?e ?page # pages"]) auto
  next
    case False
    then have whole: "?page = drop k ?S" by simp
    have "follow_cursor q now ctx (mi_memory_id m) (Suc n) cursor w = Some [map ?e (drop k ?S)]"
      unfolding follow_cursor.simps call prod.case sum.case page_result_fields whole
      using Suc.prems False by auto
    moreover have "length ?S - k \<le> ?p" using False by simp
    ultimately show ?thesis using p by (auto simp: page_count_def)
  qed
qed simp

text \<open>
  C27. Following the cursor enumerates the sources. When the document is at rest and the archived texts pass the
  credential guard, a client that asks for a memory and follows \<open>next_cursor\<close> comes to an end, in as few calls
  as the page size allows, and has then received every source record of the memory exactly as often as the
  memory cites it, in the order of the archive, no page being too long. No call changes the store.
\<close>

theorem source_pages_complete:
  assumes "at_rest (sq_env q) d w" and "m \<in> set (md_memories d)"
    and "read_all (me_codec (sq_env q)) (w_segments w) = Inr raw"
    and "\<forall>ref\<in>set (mi_source_refs m). safe_text (rr_content (ref_record raw ref))"
    and "0 < sq_page_size q" and "length (mi_source_refs m) < calls"
  shows "\<exists>pages records. follow_cursor q now ctx (mi_memory_id m) calls None w = Some pages \<and>
    concat pages = map source_entry records \<and> sorted (map rr_global_sequence records) \<and>
    mset records = mset (map (ref_record raw) (mi_source_refs m)) \<and>
    (\<forall>page\<in>set pages. int (length page) \<le> sq_page_size q) \<and>
    page_count (length (mi_source_refs m)) (nat (sq_page_size q)) (length pages)"
proof -
  let ?S = "ordered_refs raw m"
  let ?key = "\<lambda>ref. (rr_global_sequence (ref_record raw ref), sr_record_id ref)"
  have len: "length ?S = length (mi_source_refs m)" by (simp add: ordered_refs_def)
  obtain pages where pages: "follow_cursor q now ctx (mi_memory_id m) calls None w = Some pages"
    "concat pages = map (\<lambda>ref. source_entry (ref_record raw ref)) ?S"
    "\<forall>page\<in>set pages. int (length page) \<le> sq_page_size q"
    "page_count (length ?S) (nat (sq_page_size q)) (length pages)"
    using follow_pages [OF assms(1-5), of None 0 calls now ctx] assms(6) len by auto
  have "sorted_wrt (\<lambda>x y. ?key x \<le> ?key y) ?S"
    unfolding ordered_refs_def using sorted_sort_key [of ?key "mi_source_refs m"] by (simp only: sorted_map)
  then have "sorted (map rr_global_sequence (map (ref_record raw) ?S))"
    by (auto simp: sorted_map elim: sorted_wrt_mono_rel [rotated])
  moreover have "mset (map (ref_record raw) ?S) = mset (map (ref_record raw) (mi_source_refs m))"
    by (simp add: ordered_refs_def)
  ultimately show ?thesis
    using pages len by (intro exI [of _ pages] exI [of _ "map (ref_record raw) ?S"]) simp
qed

text \<open>A memory that cites the answer before the question, read one record at a time.\<close>

definition sample_cited :: memory_item where
  "sample_cited = sample_item\<lparr>mi_source_refs :=
     [\<lparr>sr_record_id = rr_record_id sample_assistant, sr_relation = RelSupports,
       sr_record_sha256 = rr_content_sha256 sample_assistant\<rparr>,
      \<lparr>sr_record_id = rr_record_id sample_user, sr_relation = RelSupports,
       sr_record_sha256 = rr_content_sha256 sample_user\<rparr>]\<rparr>"

definition sample_cited_document :: memory_document where
  "sample_cited_document = sample_target\<lparr>md_memories := [sample_cited]\<rparr>"

definition sample_query :: source_query where
  "sample_query =
     \<lparr>sq_env = sample_doc_env\<lparr>me_codec := sample_codec [sample_user, sample_assistant]
        (\<lambda>_. Some sample_cited_document) (\<lambda>_. Some JNull) (\<lambda>_ _. [1]) (\<lambda>_. None)\<rparr>,
      sq_page_size = 1, sq_float = (\<lambda>s. s), sq_float_is = (\<lambda>_ _. False)\<rparr>"

definition sample_rest_world :: world where
  "sample_rest_world = sample_doc_world
     \<lparr>w_last_valid := Some [0], ls_loaded_hash := Some (content_hash_bytes [0])\<rparr>"

lemma sample_rest_read:
  "read_all (me_codec (sq_env sample_query)) (w_segments sample_rest_world) = Inr [sample_user, sample_assistant]"
proof -
  have "codec_record (me_codec (sq_env sample_query)) sample_user" "codec_record (me_codec (sq_env sample_query)) sample_assistant"
    by (simp_all add: sample_query_def sample_codec_record)
  moreover have "w_segments sample_rest_world =
      put (sq_env sample_query) sample_assistant (put (sq_env sample_query) sample_user [])"
    by (simp add: sample_rest_world_def sample_doc_world_def sample_query_def sample_doc_env_def record_line_def
        put_record_def append_target_def sample_codec_def)
  ultimately show ?thesis by (simp add: archive_log.contents_push_two [of _ "[]" "[]", simplified])
qed

lemma sample_at_rest: "at_rest (sq_env sample_query) sample_cited_document sample_rest_world"
proof -
  have "memory_item_ok sample_cited"
    by (simp add: memory_item_ok_def sample_cited_def sample_item_def source_reference_ok_def sample_ids)
  then have "memory_document_ok sample_cited_document"
    using sample_span_ok
    by (simp add: memory_document_ok_def document_level_ok_def sample_cited_document_def sample_target_def
        curation_checkpoint_ok_def coverage_overview_ok_def last_span_end_def document_frontier_def visit_simps)
      (simp add: sample_span_def sample_cited_def sample_item_def supersedes_graph_def visit_simps)
  moreover have "validate_sources (sq_env sample_query) sample_cited_document None sample_rest_world = Inr ()"
    unfolding validate_sources_def sample_rest_read
    by (simp add: sample_cited_document_def sample_target_def sample_cited_def sample_span_def record_by_id_def sample_ids upto.simps)
  ultimately show ?thesis
    by (simp add: at_rest_def parse_bytes_def sample_rest_world_def sample_doc_world_def sample_query_def
        sample_doc_env_def sample_codec_def)
      (simp add: sample_cited_document_def sample_target_def)
qed

theorem source_pages_complete_witness:
  "follow_cursor sample_query 0 sample_context (mi_memory_id sample_cited) 3 None sample_rest_world =
     Some [[source_entry sample_user], [source_entry sample_assistant]]"
proof -
  let ?raw = "[sample_user, sample_assistant]"
  have recs: "map (ref_record ?raw) (mi_source_refs sample_cited) = [sample_assistant, sample_user]"
    by (simp add: sample_cited_def ref_record_def record_by_id_def sample_ids)
  have member: "sample_cited \<in> set (md_memories sample_cited_document)" by (simp add: sample_cited_document_def)
  have "\<forall>ref\<in>set (mi_source_refs sample_cited). safe_text (rr_content (ref_record ?raw ref))"
    using recs by (auto simp: sample_cited_def safe_short)
  moreover have size: "sq_page_size sample_query = 1" "length (mi_source_refs sample_cited) = 2"
    by (simp_all add: sample_query_def sample_cited_def)
  ultimately have "\<exists>pages records.
    follow_cursor sample_query 0 sample_context (mi_memory_id sample_cited) 3 None sample_rest_world = Some pages \<and>
    concat pages = map source_entry records \<and> sorted (map rr_global_sequence records) \<and>
    mset records = mset [sample_assistant, sample_user] \<and>
    (\<forall>page\<in>set pages. int (length page) \<le> 1) \<and> page_count 2 1 (length pages)"
    using source_pages_complete [OF sample_at_rest member sample_rest_read, of 3 0 sample_context] recs
    by (simp add: size recs)
  then obtain pages and records :: "raw_record list" where
    pages: "follow_cursor sample_query 0 sample_context (mi_memory_id sample_cited) 3 None sample_rest_world = Some pages"
    "concat pages = map source_entry records" "sorted (map rr_global_sequence records)"
    "mset records = mset [sample_assistant, sample_user]"
    "\<forall>page\<in>set pages. int (length page) \<le> 1" "page_count 2 1 (length pages)"
    by blast
  have "length records = 2" using arg_cong [OF pages(4), of size] by simp
  then obtain a b where ab: "records = [a, b]" by (auto simp: length_Suc_conv numeral_2_eq_2)
  with pages(3,4) have "records = [sample_user, sample_assistant]"
    by (auto simp: add_eq_conv_ex)
  moreover have "length pages = 2" using pages(6) by (auto simp: page_count_def)
  then obtain p q where "pages = [p, q]" by (auto simp: length_Suc_conv numeral_2_eq_2)
  ultimately show ?thesis
    using pages by (cases p; cases q) auto
qed

end
