(* ===== verification/Runtime_Models.thy ===== *)
theory Runtime_Models
  imports Complex_Main Call_Models
begin

text \<open>
  The runtime models at the end of \<open>domain/models.py\<close>, each with its validators, the part of
  \<open>asyncio.Queue\<close> the runtime uses, and the contract of a worker that serves such a queue: the locale
  \<open>serial_worker\<close>, with the extension \<open>lossless_worker\<close> for one that never throws work away.
\<close>

subsection \<open>Models\<close>

datatype pipeline_kind = ChatInput | TimerEvent | SystemEvent

datatype input_boundary = PipeEof | BufferEmpty

datatype task_status = TaskWaiting | TaskRunning | TaskSuccess | TaskFailure

datatype session_state = SessionIdle | SessionProcessing | SessionStopping

datatype health_state = HealthOk | HealthWarning

text \<open>\<open>value.astimezone(timezone.utc)\<close> of a time that carries an offset.\<close>

fun to_utc :: "py_datetime \<Rightarrow> py_datetime result" where
  "to_utc (Naive _) = Inl ValidationExn"
| "to_utc (Aware t _) = Inr (Aware t 0)"

record pipeline_item =
  pi_item_id :: pystr
  pi_kind :: pipeline_kind
  pi_payload :: "(pystr \<times> json) list"
  pi_submitted_at :: py_datetime
  pi_sequence :: int

definition pipeline_item_ok :: "pipeline_item \<Rightarrow> bool" where
  "pipeline_item_ok i \<longleftrightarrow>
     validate_prefixed_uuid (pi_item_id i) (u ''item'') \<and> is_aware (pi_submitted_at i) \<and> 1 \<le> pi_sequence i \<and>
     (pi_kind i = ChatInput \<longrightarrow>
        (case dict_get (pi_payload i) (u ''text'') of Some (JStr s) \<Rightarrow> strip s \<noteq> [] | _ \<Rightarrow> False))"

definition create_pipeline_item ::
  "pystr \<Rightarrow> pipeline_kind \<Rightarrow> (pystr \<times> json) list \<Rightarrow> py_datetime \<Rightarrow> int \<Rightarrow> pipeline_item result"
where
  "create_pipeline_item item_id kind payload now sequence =
     rbind (to_utc now) (\<lambda>submitted.
     validated pipeline_item_ok
       \<lparr>pi_item_id = item_id, pi_kind = kind, pi_payload = payload, pi_submitted_at = submitted,
        pi_sequence = sequence\<rparr>)"

record conversation_action =
  ca_action_id :: pystr
  ca_lines :: "pystr list"
  ca_boundary :: input_boundary

definition conversation_action_ok :: "conversation_action \<Rightarrow> bool" where
  "conversation_action_ok a \<longleftrightarrow> validate_prefixed_uuid (ca_action_id a) (u ''action'') \<and> ca_lines a \<noteq> []"

definition action_text :: "conversation_action \<Rightarrow> pystr" where
  "action_text a = join [10] (ca_lines a)"

record task_record =
  bt_task_id :: pystr
  bt_name :: pystr
  bt_status :: task_status
  bt_created_at :: py_datetime
  bt_started_at :: "py_datetime option"
  bt_finished_at :: "py_datetime option"
  bt_error :: "pystr option"

definition task_transition_ok :: "task_record \<Rightarrow> bool" where
  "task_transition_ok t \<longleftrightarrow>
     (case bt_status t of
        TaskWaiting \<Rightarrow> bt_started_at t = None \<and> bt_finished_at t = None \<and> bt_error t = None
      | TaskRunning \<Rightarrow> bt_started_at t \<noteq> None \<and> bt_finished_at t = None \<and> bt_error t = None
      | TaskSuccess \<Rightarrow> bt_started_at t \<noteq> None \<and> bt_finished_at t \<noteq> None \<and> bt_error t = None
      | TaskFailure \<Rightarrow> bt_started_at t \<noteq> None \<and> bt_finished_at t \<noteq> None \<and> \<not> falsy (bt_error t))"

definition task_record_ok :: "task_record \<Rightarrow> bool" where
  "task_record_ok t \<longleftrightarrow>
     validate_prefixed_uuid (bt_task_id t) (u ''task'') \<and> bt_name t \<noteq> [] \<and> is_aware (bt_created_at t) \<and>
     pred_option is_aware (bt_started_at t) \<and> pred_option is_aware (bt_finished_at t) \<and> task_transition_ok t"

record reload_status =
  rl_revision :: pystr
  rl_ok :: bool
  rl_error :: "(pystr \<times> pystr) list option"

definition reload_status_ok :: "reload_status \<Rightarrow> bool" where
  "reload_status_ok r \<longleftrightarrow>
     (if rl_ok r then rl_error r = None
      else (case rl_error r of None \<Rightarrow> False | Some d \<Rightarrow> \<not> falsy (dict_get d (u ''reason''))))"

record runtime_status =
  rs_session :: session_state
  rs_queue_depth :: int
  rs_current_item :: "pystr option"
  rs_tasks :: "task_record list"
  rs_health :: health_state
  rs_last_reload :: reload_status
  rs_pending_turn :: "pystr option"
  rs_counters :: "(pystr \<times> int) list"
  rs_uptime :: rat

definition runtime_status_ok :: "runtime_status \<Rightarrow> bool" where
  "runtime_status_ok s \<longleftrightarrow>
     0 \<le> rs_queue_depth s \<and> 0 \<le> rs_uptime s \<and>
     (rs_session s = SessionProcessing \<longrightarrow> \<not> falsy (rs_current_item s)) \<and>
     (rs_session s \<noteq> SessionProcessing \<longrightarrow> rs_current_item s = None) \<and>
     (let degraded = \<not> rl_ok (rs_last_reload s) \<or> (\<exists>t\<in>set (rs_tasks s). bt_status t = TaskFailure)
      in (rs_health s = HealthWarning) = degraded)"

subsection \<open>\<open>asyncio.Queue\<close>\<close>

text \<open>The items, and the count \<open>task_done\<close> works off. \<open>queue_get\<close> is \<open>None\<close> where a getter would wait.\<close>

record 'a aqueue =
  aq_items :: "'a list"
  aq_unfinished :: nat

definition empty_queue :: "'a aqueue" where
  "empty_queue = \<lparr>aq_items = [], aq_unfinished = 0\<rparr>"

definition queue_put :: "'a \<Rightarrow> 'a aqueue \<Rightarrow> 'a aqueue" where
  "queue_put x q = q\<lparr>aq_items := aq_items q @ [x], aq_unfinished := Suc (aq_unfinished q)\<rparr>"

definition queue_get :: "'a aqueue \<Rightarrow> ('a \<times> 'a aqueue) option" where
  "queue_get q = (case aq_items q of [] \<Rightarrow> None | x # xs \<Rightarrow> Some (x, q\<lparr>aq_items := xs\<rparr>))"

definition task_done :: "('a aqueue, unit) op" where
  "task_done q =
     (if aq_unfinished q = 0 then (Inl ValueExn, q) else (Inr (), q\<lparr>aq_unfinished := aq_unfinished q - 1\<rparr>))"

lemma queue_simps [simp]:
  "aq_items empty_queue = []" "aq_unfinished empty_queue = 0"
  "aq_items (queue_put x q) = aq_items q @ [x]"
  "aq_unfinished (queue_put x q) = Suc (aq_unfinished q)"
  "aq_items (snd (task_done q)) = aq_items q"
  by (simp_all add: empty_queue_def queue_put_def task_done_def)

lemma queue_get_Some:
  "queue_get q = Some (x, q') \<longleftrightarrow> (\<exists>xs. aq_items q = x # xs \<and> q' = q\<lparr>aq_items := xs\<rparr>)"
  by (auto simp: queue_get_def split: list.split)

lemma queue_get_None: "queue_get q = None \<longleftrightarrow> aq_items q = []"
  by (simp add: queue_get_def split: list.split)

subsection \<open>Workers\<close>

text \<open>
  What one step may do to a queue whose \<open>None\<close> asks the worker to return, to the elements that have been
  started, to those that have been accepted, and to the flag after which nothing more is accepted.
\<close>

type_synonym 'i worker_view = "'i option list \<times> 'i list \<times> 'i list \<times> bool"

datatype queue_move = Accept | Take | Mark | Clear | Keep

fun queue_moves :: "queue_move \<Rightarrow> 'i worker_view \<Rightarrow> 'i worker_view \<Rightarrow> bool" where
  "queue_moves Accept (q, s, a, c) (q', s', a', c') =
     (\<not> c \<and> c' = c \<and> s' = s \<and> (\<exists>i. q' = q @ [Some i] \<and> a' = a @ [i]))"
| "queue_moves Take (q, s, a, c) (q', s', a', c') =
     (c' = c \<and> a' = a \<and> (\<exists>x. q = x # q' \<and> s' = s @ (case x of None \<Rightarrow> [] | Some i \<Rightarrow> [i])))"
| "queue_moves Mark (q, s, a, c) (q', s', a', c') = (q' = q @ [None] \<and> s' = s \<and> a' = a \<and> c' = c)"
| "queue_moves Clear (q, s, a, c) (q', s', a', c') = (q' = [None] \<and> s' = s \<and> a' = a \<and> c')"
| "queue_moves Keep (q, s, a, c) (q', s', a', c') = (q' = q \<and> s' = s \<and> a' = a \<and> c' = c)"

definition queued :: "'i option list \<Rightarrow> 'i list" where
  "queued q = map the (filter (\<lambda>x. x \<noteq> None) q)"

lemma queued_simps [simp]:
  "queued [] = []" "queued (Some i # q) = i # queued q" "queued (None # q) = queued q"
  "queued (p @ q) = queued p @ queued q"
  by (simp_all add: queued_def)

locale serial_worker =
  fixes step :: "'s \<Rightarrow> 's \<Rightarrow> bool"
    and view :: "'s \<Rightarrow> 'i worker_view"
  assumes step_moves: "step s s' \<Longrightarrow> \<exists>m. queue_moves m (view s) (view s')"
begin

lemma started_in_order:
  assumes "step\<^sup>*\<^sup>* s0 s" and "view s0 = ([], [], [], False)" and "view s = (q, st, acc, c)"
  shows "prefix (st @ queued q) acc \<and> (\<not> c \<longrightarrow> st @ queued q = acc)"
  using assms
proof (induction arbitrary: q st acc c)
  case (step s s')
  obtain q0 st0 acc0 c0 where v: "view s = (q0, st0, acc0, c0)" by (cases "view s")
  have IH: "prefix (st0 @ queued q0) acc0 \<and> (\<not> c0 \<longrightarrow> st0 @ queued q0 = acc0)"
    using step.IH [OF step.prems(1) v] .
  obtain m where "queue_moves m (q0, st0, acc0, c0) (q, st, acc, c)"
    using step_moves [OF step.hyps(2)] v step.prems(2) by auto
  with IH show ?case by (cases m) (auto simp: prefix_def split: option.splits)
qed simp

end

text \<open>A worker whose queue always accepts: nothing is ever thrown away.\<close>

locale lossless_worker = serial_worker +
  assumes never_closed: "step s s' \<Longrightarrow> view s = (q, st, acc, c) \<Longrightarrow> view s' = (q', st', acc', c') \<Longrightarrow> c' = c"
begin

lemma nothing_lost:
  assumes "step\<^sup>*\<^sup>* s0 s" and "view s0 = ([], [], [], False)" and "view s = (q, st, acc, c)"
  shows "st @ queued q = acc"
proof -
  have "\<not> c" using assms
  proof (induction arbitrary: q st acc c)
    case (step s s')
    obtain q0 st0 acc0 c0 where v: "view s = (q0, st0, acc0, c0)" by (cases "view s")
    from step.IH [OF step.prems(1) v] never_closed [OF step.hyps(2) v step.prems(2)] show ?case by simp
  qed simp
  with started_in_order [OF assms] show ?thesis by simp
qed

end

end
