(* ===== verification/Pipeline.thy ===== *)
theory Pipeline
  imports Runtime_Models
begin

text \<open>
  \<open>runtime/pipeline.py\<close>: one worker takes the submitted items from a queue. \<open>submit\<close>, \<open>stop\<close> and the worker
  are coroutines of one event loop, so their steps between two awaits interleave freely; \<open>pipeline_step\<close> is
  that interleaving, with the handler's outcome left open.
\<close>

record pipeline =
  pl_queue :: "pipeline_item option aqueue"
  pl_sequence :: int
  pl_current :: "pystr option"
  pl_stopping :: bool

definition new_pipeline :: pipeline where
  "new_pipeline = \<lparr>pl_queue = empty_queue, pl_sequence = 0, pl_current = None, pl_stopping = False\<rparr>"

text \<open>The number is used up even when the item is refused.\<close>

definition pipeline_submit ::
  "pipeline_kind \<Rightarrow> (pystr \<times> json) list \<Rightarrow> pystr \<Rightarrow> py_datetime \<Rightarrow> (pipeline, pipeline_item) op"
where
  "pipeline_submit kind payload uuid now p =
     (if pl_stopping p then (Inl (BaiError ''RUNTIME_STOPPING''), p)
      else (let p = p\<lparr>pl_sequence := pl_sequence p + 1\<rparr>
            in case create_pipeline_item (u ''item-'' @ uuid) kind payload now (pl_sequence p) of
                 Inl e \<Rightarrow> (Inl e, p)
               | Inr item \<Rightarrow> (Inr item, p\<lparr>pl_queue := queue_put (Some item) (pl_queue p)\<rparr>)))"

definition queue_depth :: "pipeline \<Rightarrow> nat" where
  "queue_depth p = length (aq_items (pl_queue p))"

text \<open>The loop of \<open>stop\<close>: take whatever is queued and mark it done.\<close>

function drain_queue :: "('a aqueue, unit) op" where
  "drain_queue q =
     (case queue_get q of
        None \<Rightarrow> (Inr (), q)
      | Some (x, q') \<Rightarrow>
          (case task_done q' of
             (Inl e, q'') \<Rightarrow> (Inl e, q'')
           | (Inr _, q'') \<Rightarrow> drain_queue q''))"
  by pat_completeness auto
termination
  by (relation "measure (\<lambda>q. length (aq_items q))")
    (auto simp: queue_get_Some task_done_def split: if_splits)

declare drain_queue.simps [simp del]

definition pipeline_stop :: "(pipeline, unit) op" where
  "pipeline_stop p =
     (case drain_queue (pl_queue p) of
        (Inl e, q) \<Rightarrow> (Inl e, p\<lparr>pl_stopping := True, pl_queue := q\<rparr>)
      | (Inr _, q) \<Rightarrow> (Inr (), p\<lparr>pl_stopping := True, pl_queue := queue_put None q\<rparr>))"

datatype pipeline_worker = WorkerWaiting | WorkerBusy pipeline_item | WorkerReturned | WorkerRaised exn

definition finally_done :: "pipeline_worker \<Rightarrow> pipeline \<Rightarrow> pipeline_worker \<times> pipeline" where
  "finally_done r p =
     (case task_done (pl_queue p) of
        (Inl e, q) \<Rightarrow> (WorkerRaised e, p\<lparr>pl_queue := q\<rparr>)
      | (Inr _, q) \<Rightarrow> (r, p\<lparr>pl_queue := q\<rparr>))"

text \<open>The worker up to the handler; \<open>None\<close> while it waits.\<close>

definition worker_get :: "pipeline \<Rightarrow> (pipeline_worker \<times> pipeline) option" where
  "worker_get p =
     (case queue_get (pl_queue p) of
        None \<Rightarrow> None
      | Some (None, q) \<Rightarrow> Some (finally_done WorkerReturned (p\<lparr>pl_queue := q\<rparr>))
      | Some (Some item, q) \<Rightarrow>
          Some (WorkerBusy item, p\<lparr>pl_queue := q, pl_current := Some (pi_item_id item)\<rparr>))"

text \<open>The worker after the handler returned or raised: both \<open>finally\<close> blocks.\<close>

definition worker_finish :: "unit result \<Rightarrow> pipeline \<Rightarrow> pipeline_worker \<times> pipeline" where
  "worker_finish r p =
     finally_done (case r of Inl e \<Rightarrow> WorkerRaised e | Inr _ \<Rightarrow> WorkerWaiting) (p\<lparr>pl_current := None\<rparr>)"

subsection \<open>The interleaving\<close>

text \<open>A run also remembers the items it accepted and those the handler was called with.\<close>

record pipeline_run =
  pr_pipeline :: pipeline
  pr_worker :: pipeline_worker
  pr_accepted :: "pipeline_item list"
  pr_started :: "pipeline_item list"

definition pipeline_start :: pipeline_run where
  "pipeline_start = \<lparr>pr_pipeline = new_pipeline, pr_worker = WorkerWaiting, pr_accepted = [], pr_started = []\<rparr>"

inductive pipeline_step :: "pipeline_run \<Rightarrow> pipeline_run \<Rightarrow> bool" where
  submit: "pipeline_submit kind payload uuid now (pr_pipeline s) = (r, p) \<Longrightarrow>
    pipeline_step s (s\<lparr>pr_pipeline := p, pr_accepted := pr_accepted s @ (case r of Inl _ \<Rightarrow> [] | Inr i \<Rightarrow> [i])\<rparr>)"
| stop: "pipeline_stop (pr_pipeline s) = (r, p) \<Longrightarrow> pipeline_step s (s\<lparr>pr_pipeline := p\<rparr>)"
| get: "pr_worker s = WorkerWaiting \<Longrightarrow> worker_get (pr_pipeline s) = Some (x, p) \<Longrightarrow>
    pipeline_step s (s\<lparr>pr_pipeline := p, pr_worker := x,
      pr_started := pr_started s @ (case x of WorkerBusy i \<Rightarrow> [i] | _ \<Rightarrow> [])\<rparr>)"
| cancel: "pr_worker s = WorkerWaiting \<Longrightarrow> pipeline_step s (s\<lparr>pr_worker := WorkerRaised CancelledExn\<rparr>)"
| finish: "pr_worker s = WorkerBusy i \<Longrightarrow> worker_finish r (pr_pipeline s) = (x, p) \<Longrightarrow>
    pipeline_step s (s\<lparr>pr_pipeline := p, pr_worker := x\<rparr>)"

inductive_cases pipeline_stepE: "pipeline_step s s'"

definition pipeline_view :: "pipeline_run \<Rightarrow> pipeline_item worker_view" where
  "pipeline_view s =
     (aq_items (pl_queue (pr_pipeline s)), pr_started s, pr_accepted s, pl_stopping (pr_pipeline s))"

subsection \<open>The invariant\<close>

definition busy :: "pipeline_worker \<Rightarrow> nat" where
  "busy w = (case w of WorkerBusy _ \<Rightarrow> 1 | _ \<Rightarrow> 0)"

fun ended :: "pipeline_worker \<Rightarrow> bool" where
  "ended WorkerReturned = True"
| "ended (WorkerRaised _) = True"
| "ended _ = False"

definition pipeline_ok :: "pipeline_run \<Rightarrow> bool" where
  "pipeline_ok s \<longleftrightarrow>
     aq_unfinished (pl_queue (pr_pipeline s)) = length (aq_items (pl_queue (pr_pipeline s))) + busy (pr_worker s) \<and>
     pl_current (pr_pipeline s) =
       (case pr_worker s of WorkerBusy i \<Rightarrow> Some (pi_item_id i) | _ \<Rightarrow> None) \<and>
     (\<forall>i. pr_worker s = WorkerBusy i \<longrightarrow> pr_started s \<noteq> [] \<and> i = last (pr_started s)) \<and>
     sorted_wrt (<) (map pi_sequence (pr_accepted s)) \<and>
     (\<forall>i\<in>set (pr_accepted s). pipeline_item_ok i \<and> pi_sequence i \<le> pl_sequence (pr_pipeline s)) \<and>
     (if pl_stopping (pr_pipeline s)
      then aq_items (pl_queue (pr_pipeline s)) = [None] \<or> aq_items (pl_queue (pr_pipeline s)) = [] \<and> ended (pr_worker s)
      else None \<notin> set (aq_items (pl_queue (pr_pipeline s))))"

lemma drain_queue_all:
  "length (aq_items q) \<le> aq_unfinished q \<Longrightarrow>
     drain_queue q = (Inr (), \<lparr>aq_items = [], aq_unfinished = aq_unfinished q - length (aq_items q)\<rparr>)"
proof (induction q rule: drain_queue.induct)
  case (1 q)
  show ?case
  proof (cases "aq_items q")
    case Nil
    then show ?thesis by (simp add: drain_queue.simps [of q] queue_get_def)
  next
    case (Cons x xs)
    with 1 show ?thesis
      by (auto simp: drain_queue.simps [of q] queue_get_def task_done_def)
  qed
qed

lemma pipeline_ok_start: "pipeline_ok pipeline_start"
  by (simp add: pipeline_ok_def pipeline_start_def new_pipeline_def busy_def)

lemma create_item_facts:
  "create_pipeline_item item_id kind payload now n = Inr i \<Longrightarrow> pipeline_item_ok i \<and> pi_sequence i = n"
  by (auto simp: create_pipeline_item_def rbind_Inr_iff)

lemma pipeline_ok_submit:
  assumes "pipeline_ok s" and "pipeline_submit kind payload uuid now (pr_pipeline s) = (r, p)"
  shows "pipeline_ok (s\<lparr>pr_pipeline := p, pr_accepted := pr_accepted s @ (case r of Inl _ \<Rightarrow> [] | Inr i \<Rightarrow> [i])\<rparr>)"
  using assms
  by (auto simp: pipeline_submit_def pipeline_ok_def Let_def sorted_wrt_append dest!: create_item_facts
      split: if_splits sum.splits)

lemma pipeline_ok_stop:
  assumes "pipeline_ok s" and "pipeline_stop (pr_pipeline s) = (r, p)"
  shows "pipeline_ok (s\<lparr>pr_pipeline := p\<rparr>)"
  using assms
  by (auto simp: pipeline_stop_def pipeline_ok_def drain_queue_all queue_put_def split: if_splits)

lemma pipeline_ok_get:
  assumes "pipeline_ok s" and "pr_worker s = WorkerWaiting" and "worker_get (pr_pipeline s) = Some (x, p)"
  shows "pipeline_ok (s\<lparr>pr_pipeline := p, pr_worker := x,
      pr_started := pr_started s @ (case x of WorkerBusy i \<Rightarrow> [i] | _ \<Rightarrow> [])\<rparr>)"
  using assms
  by (auto simp: worker_get_def queue_get_def finally_done_def task_done_def pipeline_ok_def busy_def
      split: if_splits list.splits option.splits)

lemma pipeline_ok_finish:
  assumes "pipeline_ok s" and "pr_worker s = WorkerBusy i" and "worker_finish r (pr_pipeline s) = (x, p)"
  shows "pipeline_ok (s\<lparr>pr_pipeline := p, pr_worker := x\<rparr>)"
  using assms
  by (auto simp: worker_finish_def finally_done_def task_done_def pipeline_ok_def busy_def
      split: if_splits sum.splits)

lemma pipeline_ok_step: "pipeline_step s s' \<Longrightarrow> pipeline_ok s \<Longrightarrow> pipeline_ok s'"
  by (erule pipeline_stepE)
    (simp_all add: pipeline_ok_submit pipeline_ok_stop pipeline_ok_get pipeline_ok_finish,
     auto simp: pipeline_ok_def busy_def)

lemma pipeline_ok_reachable: "pipeline_step\<^sup>*\<^sup>* pipeline_start s \<Longrightarrow> pipeline_ok s"
  by (induction rule: rtranclp_induct) (auto intro: pipeline_ok_start pipeline_ok_step)

subsection \<open>The order of the items\<close>

text \<open>The steps out of good states are those of a serial worker that may clear its queue.\<close>

definition good_step :: "pipeline_run \<Rightarrow> pipeline_run \<Rightarrow> bool" where
  "good_step s s' \<longleftrightarrow> pipeline_ok s \<and> pipeline_step s s'"

lemma good_step_moves:
  assumes "pipeline_ok s" and "pipeline_step s s'"
  shows "\<exists>m. queue_moves m (pipeline_view s) (pipeline_view s')"
  using assms(2)
proof (cases rule: pipeline_step.cases)
  case (submit kind payload uuid now r p)
  then have "queue_moves (case r of Inl _ \<Rightarrow> Keep | Inr _ \<Rightarrow> Accept) (pipeline_view s) (pipeline_view s')"
    by (auto simp: pipeline_submit_def pipeline_view_def Let_def split: if_splits sum.splits)
  then show ?thesis by blast
next
  case (stop r p)
  then have "queue_moves Clear (pipeline_view s) (pipeline_view s')"
    using assms(1)
    by (auto simp: pipeline_stop_def pipeline_view_def pipeline_ok_def drain_queue_all queue_put_def)
  then show ?thesis by blast
next
  case (get x p)
  then have "queue_moves Take (pipeline_view s) (pipeline_view s')"
    using assms(1)
    by (auto simp: worker_get_def queue_get_def finally_done_def task_done_def pipeline_view_def pipeline_ok_def
        split: if_splits list.splits option.splits)
  then show ?thesis by blast
next
  case cancel
  then have "queue_moves Keep (pipeline_view s) (pipeline_view s')" by (simp add: pipeline_view_def)
  then show ?thesis by blast
next
  case (finish i r x p)
  then have "queue_moves Keep (pipeline_view s) (pipeline_view s')"
    by (auto simp: worker_finish_def finally_done_def task_done_def pipeline_view_def split: if_splits)
  then show ?thesis by blast
qed

interpretation pipeline: serial_worker good_step pipeline_view
  by unfold_locales (auto simp: good_step_def intro: good_step_moves)

lemma good_steps: "pipeline_step\<^sup>*\<^sup>* pipeline_start s \<Longrightarrow> good_step\<^sup>*\<^sup>* pipeline_start s"
proof (induction rule: rtranclp_induct)
  case (step s s')
  then have "good_step s s'" by (simp add: good_step_def pipeline_ok_reachable)
  with step.IH show ?case by (rule rtranclp.rtrancl_into_rtrancl)
qed simp

text \<open>
  C28. The pipeline is serial and first come, first served. In every state the event loop can reach, whatever
  is submitted, however the handler ends and whenever \<open>stop\<close> is called: the items the handler was called with
  are the first accepted ones, in their order and each once; before \<open>stop\<close> the rest are exactly those waiting,
  afterwards none is waiting, and the worker returns as soon as it is not running a handler; the sequence numbers increase; \<open>current_item_id\<close> names the
  item last started while its handler runs and is \<open>None\<close> otherwise; and the queue's count is that of the
  waiting and running items, so \<open>task_done\<close> never fails.
\<close>

theorem pipeline_serial:
  assumes "pipeline_step\<^sup>*\<^sup>* pipeline_start s"
  shows "prefix (pr_started s) (pr_accepted s) \<and>
    (if pl_stopping (pr_pipeline s)
     then queued (aq_items (pl_queue (pr_pipeline s))) = [] \<and>
       (pr_worker s = WorkerWaiting \<longrightarrow> (\<exists>p. worker_get (pr_pipeline s) = Some (WorkerReturned, p)))
     else map Some (pr_accepted s) = map Some (pr_started s) @ aq_items (pl_queue (pr_pipeline s))) \<and>
    sorted_wrt (<) (map pi_sequence (pr_accepted s)) \<and> (\<forall>i\<in>set (pr_accepted s). pipeline_item_ok i) \<and>
    pl_current (pr_pipeline s) =
      (case pr_worker s of WorkerBusy i \<Rightarrow> Some (pi_item_id (last (pr_started s))) | _ \<Rightarrow> None) \<and>
    aq_unfinished (pl_queue (pr_pipeline s)) = queue_depth (pr_pipeline s) + busy (pr_worker s)"
proof -
  let ?q = "aq_items (pl_queue (pr_pipeline s))"
  have ok: "pipeline_ok s" by (rule pipeline_ok_reachable [OF assms])
  have order: "prefix (pr_started s @ queued ?q) (pr_accepted s) \<and>
      (\<not> pl_stopping (pr_pipeline s) \<longrightarrow> pr_started s @ queued ?q = pr_accepted s)"
    by (rule pipeline.started_in_order [OF good_steps [OF assms]])
      (simp_all add: pipeline_view_def pipeline_start_def new_pipeline_def)
  have "map Some (queued q) = q" if "None \<notin> set q" for q :: "pipeline_item option list"
    using that by (induction q) (auto simp: neq_commute split: option.splits)
  then have "\<not> pl_stopping (pr_pipeline s) \<longrightarrow> map Some (queued ?q) = ?q" using ok by (simp add: pipeline_ok_def)
  then have "\<not> pl_stopping (pr_pipeline s) \<longrightarrow> map Some (pr_accepted s) = map Some (pr_started s) @ ?q"
    using order by (metis map_append)
  moreover have "\<exists>p. worker_get (pr_pipeline s) = Some (WorkerReturned, p)"
    if "pl_stopping (pr_pipeline s)" "pr_worker s = WorkerWaiting"
    using ok that by (auto simp: pipeline_ok_def worker_get_def queue_get_def finally_done_def task_done_def)
  ultimately show ?thesis using ok order append_prefixD
    by (auto simp: pipeline_ok_def queue_depth_def split: pipeline_worker.splits)
qed

text \<open>Two events are submitted and the handler is called with the first.\<close>

definition sample_event :: "int \<Rightarrow> pipeline_item" where
  "sample_event n =
     \<lparr>pi_item_id = u ''item-'' @ replicate 32 48, pi_kind = SystemEvent, pi_payload = [],
      pi_submitted_at = Aware 0 0, pi_sequence = n\<rparr>"

definition sample_pipeline_run :: pipeline_run where
  "sample_pipeline_run =
     \<lparr>pr_pipeline =
        \<lparr>pl_queue = \<lparr>aq_items = [Some (sample_event 2)], aq_unfinished = 2\<rparr>, pl_sequence = 2,
         pl_current = Some (u ''item-'' @ replicate 32 48), pl_stopping = False\<rparr>,
      pr_worker = WorkerBusy (sample_event 1), pr_accepted = [sample_event 1, sample_event 2],
      pr_started = [sample_event 1]\<rparr>"

lemma sample_event_created:
  "0 < n \<Longrightarrow> create_pipeline_item (u ''item-'' @ replicate 32 48) SystemEvent [] (Aware 0 60) n = Inr (sample_event n)"
  using validate_prefixed_uuid_hex [of "replicate 32 48" "u ''item''"]
  by (simp add: create_pipeline_item_def sample_event_def pipeline_item_ok_def is_hex_def u_Cons list_all_iff)

lemma sample_pipeline_run_reachable: "pipeline_step\<^sup>*\<^sup>* pipeline_start sample_pipeline_run"
proof -
  let ?submit = "\<lambda>s. pipeline_submit SystemEvent [] (replicate 32 48) (Aware 0 60) (pr_pipeline s)"
  define s1 where "s1 = pipeline_start\<lparr>pr_pipeline := snd (?submit pipeline_start), pr_accepted := [sample_event 1]\<rparr>"
  define s2 where "s2 = s1\<lparr>pr_pipeline := snd (?submit s1), pr_accepted := [sample_event 1, sample_event 2]\<rparr>"
  have 1: "?submit pipeline_start = (Inr (sample_event 1), pr_pipeline s1)"
    by (simp add: s1_def pipeline_submit_def pipeline_start_def new_pipeline_def sample_event_created Let_def)
  have 2: "?submit s1 = (Inr (sample_event 2), pr_pipeline s2)"
    by (simp add: s2_def s1_def pipeline_submit_def pipeline_start_def new_pipeline_def sample_event_created Let_def)
  have "pipeline_step pipeline_start s1" "pipeline_step s1 s2"
    using pipeline_step.submit [OF 1] pipeline_step.submit [OF 2]
    by (simp_all add: s1_def s2_def pipeline_start_def)
  moreover have "pipeline_step s2 sample_pipeline_run"
  proof -
    have w: "pr_worker s2 = WorkerWaiting" by (simp add: s2_def s1_def pipeline_start_def)
    have "worker_get (pr_pipeline s2) = Some (WorkerBusy (sample_event 1), pr_pipeline sample_pipeline_run)"
      by (simp add: s2_def s1_def pipeline_submit_def pipeline_start_def new_pipeline_def sample_event_created Let_def
          worker_get_def queue_get_def queue_put_def empty_queue_def sample_pipeline_run_def)
        (simp add: sample_event_def)
    from pipeline_step.get [OF w this] show ?thesis
      by (simp add: s2_def s1_def sample_pipeline_run_def pipeline_start_def)
  qed
  ultimately show ?thesis by (meson converse_rtranclp_into_rtranclp rtranclp.rtrancl_refl)
qed

theorem pipeline_serial_witness:
  "pl_current (pr_pipeline sample_pipeline_run) = Some (pi_item_id (sample_event 1)) \<and>
   map Some (pr_accepted sample_pipeline_run) = [Some (sample_event 1), Some (sample_event 2)]"
  using pipeline_serial [OF sample_pipeline_run_reachable] by (simp add: sample_pipeline_run_def)

end
