(* ===== verification/Background.thy ===== *)
theory Background
  imports Runtime_Models
begin

text \<open>
  \<open>runtime/executor.py\<close>: background tasks, executed one after the other in the order of their submission. A
  factory stands for the coroutine it makes; what the coroutine does to the record is its outcome: it returned,
  it raised an \<open>Exception\<close> (whose type name and text the record keeps), or it was cancelled.
\<close>

record 'f executor =
  ex_queue :: "(pystr \<times> 'f) option aqueue"
  ex_records :: "(pystr \<times> task_record) list"

definition new_executor :: "'f executor" where
  "new_executor = \<lparr>ex_queue = empty_queue, ex_records = []\<rparr>"

definition executor_submit :: "pystr \<Rightarrow> 'f \<Rightarrow> pystr \<Rightarrow> py_datetime \<Rightarrow> ('f executor, pystr) op" where
  "executor_submit name factory uuid now e =
     (let task_id = u ''task-'' @ uuid
      in case rbind (to_utc now) (\<lambda>created.
                validated task_record_ok
                  \<lparr>bt_task_id = task_id, bt_name = name, bt_status = TaskWaiting, bt_created_at = created,
                   bt_started_at = None, bt_finished_at = None, bt_error = None\<rparr>) of
           Inl x \<Rightarrow> (Inl x, e)
         | Inr r \<Rightarrow>
             (Inr task_id,
              e\<lparr>ex_records := dict_set task_id r (ex_records e),
                ex_queue := queue_put (Some (task_id, factory)) (ex_queue e)\<rparr>))"

definition executor_records :: "'f executor \<Rightarrow> task_record list" where
  "executor_records e = map snd (ex_records e)"

definition executor_record :: "'f executor \<Rightarrow> pystr \<Rightarrow> task_record option" where
  "executor_record e task_id = dict_get (ex_records e) task_id"

definition executor_stop :: "'f executor \<Rightarrow> 'f executor" where
  "executor_stop e = e\<lparr>ex_queue := queue_put None (ex_queue e)\<rparr>"

datatype executor_worker = ExecWaiting | ExecRunning pystr | ExecReturned | ExecRaised exn

text \<open>\<open>model_copy(update=...)\<close> on the record of a task; nothing is validated again.\<close>

definition update_record ::
  "pystr \<Rightarrow> (task_record \<Rightarrow> task_record) \<Rightarrow> executor_worker \<Rightarrow> 'f executor \<Rightarrow> executor_worker \<times> 'f executor"
where
  "update_record task_id f w e =
     (case dict_get (ex_records e) task_id of
        None \<Rightarrow> (ExecRaised KeyExn, e)
      | Some r \<Rightarrow> (w, e\<lparr>ex_records := dict_set task_id (f r) (ex_records e)\<rparr>))"

definition executor_get :: "py_datetime \<Rightarrow> 'f executor \<Rightarrow> (executor_worker \<times> 'f executor) option" where
  "executor_get now e =
     (case queue_get (ex_queue e) of
        None \<Rightarrow> None
      | Some (None, q) \<Rightarrow> Some (ExecReturned, e\<lparr>ex_queue := q\<rparr>)
      | Some (Some (task_id, factory), q) \<Rightarrow>
          Some (update_record task_id (\<lambda>r. r\<lparr>bt_status := TaskRunning, bt_started_at := Some now\<rparr>)
                  (ExecRunning task_id) (e\<lparr>ex_queue := q\<rparr>)))"

datatype task_outcome = TaskReturned | TaskRaised pystr pystr | TaskCancelled

definition executor_finish ::
  "pystr \<Rightarrow> task_outcome \<Rightarrow> py_datetime \<Rightarrow> 'f executor \<Rightarrow> executor_worker \<times> 'f executor"
where
  "executor_finish task_id outcome now e =
     (case outcome of
        TaskReturned \<Rightarrow>
          update_record task_id (\<lambda>r. r\<lparr>bt_status := TaskSuccess, bt_finished_at := Some now\<rparr>) ExecWaiting e
      | TaskRaised type_name message \<Rightarrow>
          update_record task_id
            (\<lambda>r. r\<lparr>bt_status := TaskFailure, bt_finished_at := Some now,
                   bt_error := Some (type_name @ u '': '' @ message)\<rparr>) ExecWaiting e
      | TaskCancelled \<Rightarrow> (ExecRaised CancelledExn, e))"

text \<open>\<open>run\<close> with the outcomes of the coroutines it will await and the times the clock will show.\<close>

fun executor_run ::
  "(task_outcome \<times> py_datetime \<times> py_datetime) list \<Rightarrow> py_datetime \<Rightarrow> 'f executor \<Rightarrow> executor_worker \<times> 'f executor"
where
  "executor_run [] now e = (case executor_get now e of None \<Rightarrow> (ExecWaiting, e) | Some x \<Rightarrow> x)"
| "executor_run ((outcome, started, finished) # rest) now e =
     (case executor_get started e of
        None \<Rightarrow> (ExecWaiting, e)
      | Some (ExecRunning task_id, e') \<Rightarrow>
          (case executor_finish task_id outcome finished e' of
             (ExecWaiting, e'') \<Rightarrow> executor_run rest now e''
           | (w, e'') \<Rightarrow> (w, e''))
      | Some (w, e') \<Rightarrow> (w, e'))"

subsection \<open>The interleaving\<close>

text \<open>
  Submissions, stops and the worker interleave. The clock's times carry an offset and an identifier of
  \<open>uuid4\<close> is not used twice. The run remembers what was accepted and what was started.
\<close>

record 'f executor_state =
  es_executor :: "'f executor"
  es_worker :: executor_worker
  es_accepted :: "(pystr \<times> 'f) list"
  es_started :: "(pystr \<times> 'f) list"

definition executor_start :: "'f executor_state" where
  "executor_start = \<lparr>es_executor = new_executor, es_worker = ExecWaiting, es_accepted = [], es_started = []\<rparr>"

inductive executor_step :: "'f executor_state \<Rightarrow> 'f executor_state \<Rightarrow> bool" where
  submit: "dict_get (ex_records (es_executor s)) (u ''task-'' @ uuid) = None \<Longrightarrow>
    executor_submit name factory uuid now (es_executor s) = (r, e) \<Longrightarrow>
    executor_step s (s\<lparr>es_executor := e,
      es_accepted := es_accepted s @ (case r of Inl _ \<Rightarrow> [] | Inr task_id \<Rightarrow> [(task_id, factory)])\<rparr>)"
| stop: "executor_step s (s\<lparr>es_executor := executor_stop (es_executor s)\<rparr>)"
| get: "es_worker s = ExecWaiting \<Longrightarrow> is_aware now \<Longrightarrow> executor_get now (es_executor s) = Some (w, e) \<Longrightarrow>
    executor_step s (s\<lparr>es_executor := e, es_worker := w,
      es_started := es_started s @ (case hd (aq_items (ex_queue (es_executor s))) of None \<Rightarrow> [] | Some i \<Rightarrow> [i])\<rparr>)"
| cancel: "es_worker s = ExecWaiting \<Longrightarrow> executor_step s (s\<lparr>es_worker := ExecRaised CancelledExn\<rparr>)"
| finish: "es_worker s = ExecRunning task_id \<Longrightarrow> is_aware now \<Longrightarrow>
    executor_finish task_id outcome now (es_executor s) = (w, e) \<Longrightarrow>
    executor_step s (s\<lparr>es_executor := e, es_worker := w\<rparr>)"

definition executor_view :: "'f executor_state \<Rightarrow> (pystr \<times> 'f) worker_view" where
  "executor_view s = (aq_items (ex_queue (es_executor s)), es_started s, es_accepted s, False)"

lemma update_record_queue [simp]: "ex_queue (snd (update_record t f w e)) = ex_queue e"
  by (simp add: update_record_def split: option.split)

lemma executor_finish_queue: "executor_finish t o' now e = (w, e') \<Longrightarrow> ex_queue e' = ex_queue e"
  by (auto simp: executor_finish_def update_record_def split: task_outcome.splits option.splits)

lemma executor_get_queue:
  assumes "executor_get now e = Some (w, e')"
  shows "\<exists>x. aq_items (ex_queue e) = x # aq_items (ex_queue e')"
  using assms
  by (auto simp: executor_get_def queue_get_def update_record_def split: list.splits option.splits prod.splits)

interpretation executor: lossless_worker executor_step executor_view
proof unfold_locales
  fix s s' :: "'f executor_state"
  assume "executor_step s s'"
  then show "\<exists>m. queue_moves m (executor_view s) (executor_view s')"
  proof (cases rule: executor_step.cases)
    case (submit uuid name factory now r e)
    then have "queue_moves (case r of Inl _ \<Rightarrow> Keep | Inr _ \<Rightarrow> Accept) (executor_view s) (executor_view s')"
      by (auto simp: executor_submit_def executor_view_def Let_def split: sum.splits)
    then show ?thesis by blast
  next
    case stop
    then have "queue_moves Mark (executor_view s) (executor_view s')"
      by (simp add: executor_stop_def executor_view_def)
    then show ?thesis by blast
  next
    case (get now w e)
    then have "queue_moves Take (executor_view s) (executor_view s')"
      using executor_get_queue [OF get(4)] by (auto simp: executor_view_def)
    then show ?thesis by blast
  next
    case cancel
    then have "queue_moves Keep (executor_view s) (executor_view s')" by (simp add: executor_view_def)
    then show ?thesis by blast
  next
    case (finish task_id now outcome w e)
    then have "queue_moves Keep (executor_view s) (executor_view s')"
      using executor_finish_queue [OF finish(4)] by (simp add: executor_view_def)
    then show ?thesis by blast
  qed
next
  fix s s' :: "'f executor_state" and q st acc c q' st' acc' c'
  assume "executor_view s = (q, st, acc, c)" "executor_view s' = (q', st', acc', c')"
  then show "c' = c" by (simp add: executor_view_def)
qed

subsection \<open>The invariant\<close>

definition task_status_of :: "'f executor \<Rightarrow> pystr \<Rightarrow> task_status option" where
  "task_status_of e task_id = map_option bt_status (dict_get (ex_records e) task_id)"

text \<open>The started tasks whose coroutine has ended by itself.\<close>

definition settled_tasks :: "'f executor_state \<Rightarrow> (pystr \<times> 'f) list" where
  "settled_tasks s =
     (case es_worker s of
        ExecRunning _ \<Rightarrow> butlast (es_started s)
      | ExecRaised _ \<Rightarrow> butlast (es_started s)
      | _ \<Rightarrow> es_started s)"

definition executor_ok :: "'f executor_state \<Rightarrow> bool" where
  "executor_ok s \<longleftrightarrow>
     distinct (map fst (es_accepted s)) \<and>
     (\<forall>i\<in>set (es_accepted s). dict_get (ex_records (es_executor s)) (fst i) \<noteq> None) \<and>
     (\<forall>task_id r. dict_get (ex_records (es_executor s)) task_id = Some r \<longrightarrow>
        bt_task_id r = task_id \<and> task_record_ok r) \<and>
     (\<forall>i\<in>set (queued (aq_items (ex_queue (es_executor s)))).
        task_status_of (es_executor s) (fst i) = Some TaskWaiting) \<and>
     (\<forall>i\<in>set (settled_tasks s). task_status_of (es_executor s) (fst i) \<in> {Some TaskSuccess, Some TaskFailure}) \<and>
     (\<forall>task_id. es_worker s = ExecRunning task_id \<longrightarrow>
        es_started s \<noteq> [] \<and> fst (last (es_started s)) = task_id \<and>
        task_status_of (es_executor s) task_id = Some TaskRunning)"

lemma executor_okI:
  assumes "distinct (map fst (es_accepted s))"
    and "\<And>i. i \<in> set (es_accepted s) \<Longrightarrow> dict_get (ex_records (es_executor s)) (fst i) \<noteq> None"
    and "\<And>i r. dict_get (ex_records (es_executor s)) i = Some r \<Longrightarrow> bt_task_id r = i \<and> task_record_ok r"
    and "\<And>i. i \<in> set (queued (aq_items (ex_queue (es_executor s)))) \<Longrightarrow>
      task_status_of (es_executor s) (fst i) = Some TaskWaiting"
    and "\<And>i. i \<in> set (settled_tasks s) \<Longrightarrow>
      task_status_of (es_executor s) (fst i) \<in> {Some TaskSuccess, Some TaskFailure}"
    and "\<And>i. es_worker s = ExecRunning i \<Longrightarrow> es_started s \<noteq> [] \<and> fst (last (es_started s)) = i \<and>
      task_status_of (es_executor s) i = Some TaskRunning"
  shows "executor_ok s"
  unfolding executor_ok_def using assms by blast

lemma executor_order:
  assumes "executor_step\<^sup>*\<^sup>* executor_start s"
  shows "es_started s @ queued (aq_items (ex_queue (es_executor s))) = es_accepted s"
  by (rule executor.nothing_lost [OF assms, where c = False])
    (simp_all add: executor_view_def executor_start_def new_executor_def)

lemma executor_submit_Inr:
  assumes "executor_submit name factory uuid now ex = (Inr i, e)"
  shows "\<exists>x. i = u ''task-'' @ uuid \<and> task_record_ok x \<and> bt_task_id x = u ''task-'' @ uuid \<and>
    bt_status x = TaskWaiting \<and>
    e = ex\<lparr>ex_records := dict_set (u ''task-'' @ uuid) x (ex_records ex),
            ex_queue := queue_put (Some (u ''task-'' @ uuid, factory)) (ex_queue ex)\<rparr>"
  using assms
  by (cases now) (auto simp: executor_submit_def Let_def validated_def split: if_splits)

lemma executor_ok_submit:
  assumes "executor_ok s" and "dict_get (ex_records (es_executor s)) (u ''task-'' @ uuid) = None"
    and "executor_submit name factory uuid now (es_executor s) = (r, e)"
  shows "executor_ok (s\<lparr>es_executor := e,
      es_accepted := es_accepted s @ (case r of Inl _ \<Rightarrow> [] | Inr task_id \<Rightarrow> [(task_id, factory)])\<rparr>)"
proof (cases r)
  case (Inl x)
  with assms(3) have "e = es_executor s" by (auto simp: executor_submit_def Let_def split: sum.splits)
  with assms(1) Inl show ?thesis by (simp add: executor_ok_def settled_tasks_def)
next
  case (Inr i)
  let ?id = "u ''task-'' @ uuid"
  obtain x where x: "task_record_ok x" "bt_task_id x = ?id" "bt_status x = TaskWaiting"
    and i: "i = ?id" and e: "e = es_executor s\<lparr>ex_records := dict_set ?id x (ex_records (es_executor s)),
      ex_queue := queue_put (Some (?id, factory)) (ex_queue (es_executor s))\<rparr>"
  proof -
    obtain x where "i = ?id" "task_record_ok x" "bt_task_id x = ?id" "bt_status x = TaskWaiting"
      "e = es_executor s\<lparr>ex_records := dict_set ?id x (ex_records (es_executor s)),
        ex_queue := queue_put (Some (?id, factory)) (ex_queue (es_executor s))\<rparr>"
      using executor_submit_Inr [of name factory uuid now "es_executor s" i e] assms(3) Inr by blast
    with that show ?thesis by blast
  qed
  have fresh: "?id \<notin> fst ` set (es_accepted s)" using assms(1,2) by (auto simp: executor_ok_def)
  have other: "task_status_of e j = task_status_of (es_executor s) j" if "j \<noteq> ?id" for j
    using that by (simp add: task_status_of_def e)
  have "task_status_of (es_executor s) ?id = None" using assms(2) by (simp add: task_status_of_def)
  then have keep: "task_status_of e j = task_status_of (es_executor s) j"
    if "task_status_of (es_executor s) j \<noteq> None" for j
    using that other by metis
  have id: "task_status_of e ?id = Some TaskWaiting" by (simp add: task_status_of_def e x)
  have settled: "settled_tasks (s\<lparr>es_executor := e, es_accepted := a\<rparr>) = settled_tasks s" for a
    by (simp add: settled_tasks_def cong: executor_worker.case_cong)
  note ok = assms(1) [unfolded executor_ok_def]
  have "dict_get (ex_records e) (fst j) \<noteq> None" if "j \<in> set (es_accepted s) \<or> j = (?id, factory)" for j
    using that ok by (auto simp: e)
  moreover have "bt_task_id y = j \<and> task_record_ok y" if "dict_get (ex_records e) j = Some y" for j y
    using that ok x by (auto simp: e split: if_splits)
  moreover have "task_status_of e (fst j) = Some TaskWaiting" if "j \<in> set (queued (aq_items (ex_queue e)))" for j
    using that ok keep [of "fst j"] id by (auto simp: e)
  moreover have "task_status_of e (fst j) \<in> {Some TaskSuccess, Some TaskFailure}" if "j \<in> set (settled_tasks s)" for j
    using that ok keep [of "fst j"] by auto
  moreover have "task_status_of e j = Some TaskRunning" if "es_worker s = ExecRunning j" for j
    using that ok keep [of j] by auto
  ultimately show ?thesis
    by (intro executor_okI) (use ok fresh in \<open>simp_all add: Inr i settled del: not_None_eq\<close>, auto)
qed

text \<open>The effect of an update on the statuses, and on the validity of the records.\<close>

lemma task_status_set:
  "task_status_of (e\<lparr>ex_records := dict_set i r d\<rparr>) j =
     (if j = i then Some (bt_status r) else map_option bt_status (dict_get d j))"
  by (simp add: task_status_of_def)

lemma running_record_ok:
  "task_record_ok r \<Longrightarrow> bt_status r = TaskWaiting \<Longrightarrow> is_aware now \<Longrightarrow>
     task_record_ok (r\<lparr>bt_status := TaskRunning, bt_started_at := Some now\<rparr>)"
  by (simp add: task_record_ok_def task_transition_ok_def)

definition settled_record :: "task_outcome \<Rightarrow> py_datetime \<Rightarrow> task_record \<Rightarrow> task_record" where
  "settled_record outcome now r =
     (case outcome of
        TaskReturned \<Rightarrow> r\<lparr>bt_status := TaskSuccess, bt_finished_at := Some now\<rparr>
      | TaskRaised type_name message \<Rightarrow>
          r\<lparr>bt_status := TaskFailure, bt_finished_at := Some now,
            bt_error := Some (type_name @ u '': '' @ message)\<rparr>
      | TaskCancelled \<Rightarrow> r)"

lemma settled_record_ok:
  assumes "task_record_ok r" and "bt_status r = TaskRunning" and "is_aware now" and "outcome \<noteq> TaskCancelled"
  shows "task_record_ok (settled_record outcome now r)"
    and "bt_status (settled_record outcome now r) \<in> {TaskSuccess, TaskFailure}"
    and "bt_task_id (settled_record outcome now r) = bt_task_id r"
  using assms
  by (auto simp: settled_record_def task_record_ok_def task_transition_ok_def falsy_def u_Cons
      split: task_outcome.splits)

lemma executor_finish_settles:
  assumes "dict_get (ex_records e) i = Some r" and "outcome \<noteq> TaskCancelled"
  shows "executor_finish i outcome now e =
    (ExecWaiting, e\<lparr>ex_records := dict_set i (settled_record outcome now r) (ex_records e)\<rparr>)"
  using assms by (auto simp: executor_finish_def update_record_def settled_record_def split: task_outcome.splits)

lemma executor_get_starts:
  assumes "aq_items (ex_queue e) = Some (i, f) # q" and "dict_get (ex_records e) i = Some r"
  shows "executor_get now e = Some (ExecRunning i, e\<lparr>ex_queue := (ex_queue e)\<lparr>aq_items := q\<rparr>,
    ex_records := dict_set i (r\<lparr>bt_status := TaskRunning, bt_started_at := Some now\<rparr>) (ex_records e)\<rparr>)"
  using assms by (simp add: executor_get_def queue_get_def update_record_def)

lemma executor_ok_get:
  assumes "executor_ok s" and order: "es_started s @ queued (aq_items (ex_queue (es_executor s))) = es_accepted s"
    and "es_worker s = ExecWaiting" and "is_aware now" and get: "executor_get now (es_executor s) = Some (w, e)"
  shows "executor_ok (s\<lparr>es_executor := e, es_worker := w,
      es_started := es_started s @ (case hd (aq_items (ex_queue (es_executor s))) of None \<Rightarrow> [] | Some i \<Rightarrow> [i])\<rparr>)"
proof -
  note ok = assms(1) [unfolded executor_ok_def]
  have all: "settled_tasks s = es_started s" using assms(3) by (simp add: settled_tasks_def)
  obtain x q where q: "aq_items (ex_queue (es_executor s)) = x # q"
    using executor_get_queue [OF get] by auto
  show ?thesis
  proof (cases x)
    case None
    with get q have "w = ExecReturned" "e = es_executor s\<lparr>ex_queue := (ex_queue (es_executor s))\<lparr>aq_items := q\<rparr>\<rparr>"
      by (simp_all add: executor_get_def queue_get_def)
    with ok all q None show ?thesis
      by (simp add: executor_ok_def settled_tasks_def task_status_of_def)
  next
    case (Some y)
    obtain i f where y: "y = (i, f)" by fastforce
    have "(i, f) \<in> set (es_accepted s)" using order q Some y by (auto simp flip: order)
    then obtain r where r: "dict_get (ex_records (es_executor s)) i = Some r" using ok by fastforce
    with ok q Some y have waiting: "bt_status r = TaskWaiting" "task_record_ok r" "bt_task_id r = i"
      by (auto simp: task_status_of_def)
    have w: "w = ExecRunning i" and e: "e = es_executor s\<lparr>ex_queue := (ex_queue (es_executor s))\<lparr>aq_items := q\<rparr>,
        ex_records := dict_set i (r\<lparr>bt_status := TaskRunning, bt_started_at := Some now\<rparr>) (ex_records (es_executor s))\<rparr>"
      using get executor_get_starts [OF q [unfolded Some y] r] by simp_all
    have "distinct (map fst (es_started s @ (i, f) # queued q))" using ok order q Some y by simp
    then have new: "i \<notin> fst ` set (es_started s)" "i \<notin> fst ` set (queued q)" by auto
    have status: "task_status_of e j = (if j = i then Some TaskRunning else task_status_of (es_executor s) j)" for j
      by (simp add: e task_status_of_def)
    have "bt_task_id z = j \<and> task_record_ok z" if "dict_get (ex_records e) j = Some z" for j z
      using that ok running_record_ok [OF waiting(2,1) assms(4)] waiting(3) by (auto simp: e split: if_splits)
    moreover have "task_status_of e (fst j) = Some TaskWaiting" if "j \<in> set (queued q)" for j
      using that ok q Some new(2) by (auto simp: status)
    moreover have "task_status_of e (fst j) \<in> {Some TaskSuccess, Some TaskFailure}" if "j \<in> set (es_started s)" for j
      using that ok all new(1) by (auto simp: status)
    moreover have "dict_get (ex_records e) (fst j) \<noteq> None" if "j \<in> set (es_accepted s)" for j
      using that ok by (simp add: e)
    moreover have "settled_tasks (s\<lparr>es_executor := e, es_worker := w,
        es_started := es_started s @ [(i, f)]\<rparr>) = es_started s"
      by (simp add: settled_tasks_def w)
    moreover have "aq_items (ex_queue e) = q" by (simp add: e)
    ultimately show ?thesis
      unfolding q list.sel Some y option.case
      by (intro executor_okI) (use ok status in \<open>simp_all add: w\<close>)
  qed
qed

lemma executor_ok_finish:
  assumes "executor_ok s" and order: "es_started s @ queued (aq_items (ex_queue (es_executor s))) = es_accepted s"
    and worker: "es_worker s = ExecRunning i" and "is_aware now"
    and finish: "executor_finish i outcome now (es_executor s) = (w, e)"
  shows "executor_ok (s\<lparr>es_executor := e, es_worker := w\<rparr>)"
proof (cases "outcome = TaskCancelled")
  case True
  then have "w = ExecRaised CancelledExn" "e = es_executor s" using finish by (simp_all add: executor_finish_def)
  with assms(1) worker show ?thesis by (simp add: executor_ok_def settled_tasks_def)
next
  case False
  note ok = assms(1) [unfolded executor_ok_def]
  from ok worker obtain f where run: "es_started s \<noteq> []" "last (es_started s) = (i, f)"
    "task_status_of (es_executor s) i = Some TaskRunning"
    by (cases "last (es_started s)") auto
  then obtain r where r: "dict_get (ex_records (es_executor s)) i = Some r" "bt_status r = TaskRunning"
    by (auto simp: task_status_of_def)
  with ok have rec: "task_record_ok r" "bt_task_id r = i" by auto
  note settled = settled_record_ok [OF rec(1) r(2) assms(4) False]
  have w: "w = ExecWaiting" and
    e: "e = es_executor s\<lparr>ex_records := dict_set i (settled_record outcome now r) (ex_records (es_executor s))\<rparr>"
    using finish executor_finish_settles [OF r(1) False, of now] by simp_all
  have started: "es_started s = butlast (es_started s) @ [(i, f)]" using run by (metis append_butlast_last_id)
  have status: "task_status_of e j = (if j = i then Some (bt_status (settled_record outcome now r))
      else task_status_of (es_executor s) j)" for j
    by (simp add: e task_status_of_def)
  have "bt_task_id z = j \<and> task_record_ok z" if "dict_get (ex_records e) j = Some z" for j z
    using that ok settled(1,3) rec(2) by (auto simp: e split: if_splits)
  moreover have "task_status_of e (fst j) = Some TaskWaiting"
    if "j \<in> set (queued (aq_items (ex_queue (es_executor s))))" for j
    using that ok run(3) by (auto simp: status)
  moreover have "task_status_of e (fst j) \<in> {Some TaskSuccess, Some TaskFailure}" if "j \<in> set (es_started s)" for j
  proof (cases "fst j = i")
    case True
    then show ?thesis using settled(2) by (auto simp: status)
  next
    case other: False
    then have "j \<in> set (butlast (es_started s))" using that by (subst (asm) started) auto
    with ok worker other show ?thesis by (auto simp: status settled_tasks_def)
  qed
  moreover have "dict_get (ex_records e) (fst j) \<noteq> None" if "j \<in> set (es_accepted s)" for j
    using that ok by (simp add: e)
  moreover have "settled_tasks (s\<lparr>es_executor := e, es_worker := w\<rparr>) = es_started s"
    by (simp add: settled_tasks_def w)
  moreover have "ex_queue e = ex_queue (es_executor s)" by (simp add: e)
  ultimately show ?thesis
    by (intro executor_okI) (use ok in \<open>simp_all add: w\<close>)
qed

lemma executor_ok_reachable: "executor_step\<^sup>*\<^sup>* executor_start s \<Longrightarrow> executor_ok s"
proof (induction rule: rtranclp_induct)
  case base
  show ?case by (simp add: executor_ok_def executor_start_def new_executor_def settled_tasks_def)
next
  case (step s s')
  note order = executor_order [OF step.hyps(1)]
  from step.hyps(2) show ?case
  proof (cases rule: executor_step.cases)
    case (submit uuid name factory now r e)
    then show ?thesis using executor_ok_submit [OF step.IH] by blast
  next
    case stop
    then show ?thesis
      using step.IH by (simp add: executor_ok_def executor_stop_def settled_tasks_def task_status_of_def
        cong: executor_worker.case_cong)
  next
    case (get now w e)
    then show ?thesis using executor_ok_get [OF step.IH order] by blast
  next
    case cancel
    then show ?thesis
      using step.IH by (auto simp: executor_ok_def settled_tasks_def dest: in_set_butlastD)
  next
    case (finish task_id now outcome w e)
    then show ?thesis using executor_ok_finish [OF step.IH order] by blast
  qed
qed

subsection \<open>Every task is settled\<close>

definition finished_record :: "task_outcome \<times> py_datetime \<times> py_datetime \<Rightarrow> task_record \<Rightarrow> task_record" where
  "finished_record = (\<lambda>(outcome, started, finished) r.
     settled_record outcome finished (r\<lparr>bt_status := TaskRunning, bt_started_at := Some started\<rparr>))"

lemma executor_run_settles:
  assumes "aq_items (ex_queue e) = map Some items @ None # rest" and "length items \<le> length outs"
    and "distinct (map fst items)" and "\<forall>i\<in>set items. dict_get (ex_records e) (fst i) \<noteq> None"
    and "\<forall>(outcome, times)\<in>set outs. outcome \<noteq> TaskCancelled"
  shows "\<exists>e'. executor_run outs now e = (ExecReturned, e') \<and> aq_items (ex_queue e') = rest \<and>
    (\<forall>j. dict_get (ex_records e') j =
       (case map_of (zip (map fst items) outs) j of
          None \<Rightarrow> dict_get (ex_records e) j
        | Some o' \<Rightarrow> map_option (finished_record o') (dict_get (ex_records e) j)))"
  using assms
proof (induction items arbitrary: e outs)
  case Nil
  then show ?case by (cases outs) (auto simp: executor_get_def queue_get_def split: prod.split)
next
  case (Cons item items)
  obtain i f where item: "item = (i, f)" by fastforce
  obtain outcome started finished outs' where outs: "outs = (outcome, started, finished) # outs'"
    using Cons.prems(2) by (cases outs) auto
  obtain r where r: "dict_get (ex_records e) i = Some r" using Cons.prems(4) item by auto
  define r1 where "r1 = r\<lparr>bt_status := TaskRunning, bt_started_at := Some started\<rparr>"
  define e1 where "e1 = e\<lparr>ex_queue := (ex_queue e)\<lparr>aq_items := map Some items @ None # rest\<rparr>,
    ex_records := dict_set i r1 (ex_records e)\<rparr>"
  define e2 where "e2 = e1\<lparr>ex_records := dict_set i (settled_record outcome finished r1) (ex_records e1)\<rparr>"
  have "executor_get started e = Some (ExecRunning i, e1)"
    unfolding e1_def r1_def by (rule executor_get_starts) (simp_all add: Cons.prems(1) item r)
  moreover have "executor_finish i outcome finished e1 = (ExecWaiting, e2)"
    unfolding e2_def by (rule executor_finish_settles) (use Cons.prems(5) outs in \<open>simp_all add: e1_def\<close>)
  ultimately have run: "executor_run outs now e = executor_run outs' now e2" by (simp add: outs)
  have records: "dict_get (ex_records e2) j =
      (if j = i then Some (finished_record (outcome, started, finished) r) else dict_get (ex_records e) j)" for j
    by (simp add: e2_def e1_def r1_def finished_record_def)
  have fresh: "i \<notin> fst ` set items" using Cons.prems(3) item by simp
  then have none: "map_of (zip (map fst items) outs') i = None"
    by (auto simp: map_of_eq_None_iff dest!: set_zip_leftD)
  have "\<exists>e'. executor_run outs' now e2 = (ExecReturned, e') \<and> aq_items (ex_queue e') = rest \<and>
    (\<forall>j. dict_get (ex_records e') j =
       (case map_of (zip (map fst items) outs') j of
          None \<Rightarrow> dict_get (ex_records e2) j
        | Some o' \<Rightarrow> map_option (finished_record o') (dict_get (ex_records e2) j)))"
  proof (rule Cons.IH)
    show "\<forall>i\<in>set items. dict_get (ex_records e2) (fst i) \<noteq> None" using Cons.prems(4) by (simp add: records)
  qed (use Cons.prems outs in \<open>simp_all add: e2_def e1_def\<close>)
  then obtain e' where e': "executor_run outs' now e2 = (ExecReturned, e')" "aq_items (ex_queue e') = rest"
    "\<And>j. dict_get (ex_records e') j =
       (case map_of (zip (map fst items) outs') j of
          None \<Rightarrow> dict_get (ex_records e2) j
        | Some o' \<Rightarrow> map_option (finished_record o') (dict_get (ex_records e2) j))"
    by blast
  have "dict_get (ex_records e') j =
       (case map_of (zip (map fst (item # items)) outs) j of
          None \<Rightarrow> dict_get (ex_records e) j
        | Some o' \<Rightarrow> map_option (finished_record o') (dict_get (ex_records e) j))" for j
    using none r by (simp add: e'(3) records item outs split: option.split)
  with run e'(1,2) show ?case by auto
qed

lemma map_of_zip_at:
  assumes "distinct ks" and "k < length ks" and "length ks \<le> length vs"
  shows "map_of (zip ks vs) (ks ! k) = Some (vs ! k)"
proof (rule map_of_is_SomeI)
  show "distinct (map fst (zip ks vs))" using assms(1) by (simp add: map_fst_zip_take)
  show "(ks ! k, vs ! k) \<in> set (zip ks vs)" using assms(2,3) by (auto simp: in_set_zip)
qed

text \<open>
  C29. Background tasks run in the order of submission and every one of them is settled. In every reachable
  state the started tasks followed by the waiting ones are the accepted ones, all records satisfy the
  validator that \<open>model_copy\<close> skips, and every started task but the running or the cancelled one has
  succeeded or failed. From such a state with the worker waiting and \<open>stop\<close> called behind \<open>items\<close>, the worker
  returns once the coroutines of \<open>items\<close> have ended, however they end short of a cancellation: each of them
  is then recorded as a success or as a failure with its reason, no failure keeps a later task from running,
  and the other records are as they were. What is submitted after \<open>stop\<close> stays in the queue, waiting.
\<close>

theorem tasks_settle:
  assumes "executor_step\<^sup>*\<^sup>* executor_start s" and "es_worker s = ExecWaiting"
    and "aq_items (ex_queue (es_executor s)) = map Some items @ None # rest"
    and "length items \<le> length outs" and "\<forall>(outcome, times)\<in>set outs. outcome \<noteq> TaskCancelled"
  shows "es_started s @ items @ queued rest = es_accepted s \<and>
    (\<forall>j r. executor_record (es_executor s) j = Some r \<longrightarrow> task_record_ok r) \<and>
    (\<forall>i\<in>set (es_started s). task_status_of (es_executor s) (fst i) \<in> {Some TaskSuccess, Some TaskFailure}) \<and>
    (\<exists>e'. executor_run outs now (es_executor s) = (ExecReturned, e') \<and> aq_items (ex_queue e') = rest \<and>
       (\<forall>k<length items. \<exists>r. executor_record (es_executor s) (fst (items ! k)) = Some r \<and>
          executor_record e' (fst (items ! k)) = Some (finished_record (outs ! k) r)) \<and>
       (\<forall>j. j \<notin> fst ` set items \<longrightarrow> executor_record e' j = executor_record (es_executor s) j))"
proof -
  let ?e = "es_executor s"
  have ok: "executor_ok s" by (rule executor_ok_reachable [OF assms(1)])
  have "queued (map Some items) = items" by (induction items) simp_all
  then have order: "es_started s @ items @ queued rest = es_accepted s"
    using executor_order [OF assms(1)] by (simp add: assms(3))
  from ok have "distinct (map fst (es_started s @ items @ queued rest))"
    "\<forall>i\<in>set (es_started s @ items @ queued rest). dict_get (ex_records ?e) (fst i) \<noteq> None"
    unfolding order by (simp_all add: executor_ok_def)
  then have dist: "distinct (map fst items)" and known: "\<forall>i\<in>set items. dict_get (ex_records ?e) (fst i) \<noteq> None"
    by (simp_all del: not_None_eq)
  obtain e' where e': "executor_run outs now ?e = (ExecReturned, e')" "aq_items (ex_queue e') = rest"
    "\<And>j. executor_record e' j = (case map_of (zip (map fst items) outs) j of
       None \<Rightarrow> executor_record ?e j | Some o' \<Rightarrow> map_option (finished_record o') (executor_record ?e j))"
    using executor_run_settles [OF assms(3,4) dist known assms(5), where now = now] unfolding executor_record_def by blast
  have "\<exists>r. executor_record ?e (fst (items ! k)) = Some r \<and>
      executor_record e' (fst (items ! k)) = Some (finished_record (outs ! k) r)" if "k < length items" for k
  proof -
    have "map_of (zip (map fst items) outs) (fst (items ! k)) = Some (outs ! k)"
      using map_of_zip_at [OF dist, of k outs] that assms(4) by simp
    moreover have "executor_record ?e (fst (items ! k)) \<noteq> None"
      using known that by (auto simp: executor_record_def)
    ultimately show ?thesis using e'(3) [of "fst (items ! k)"] by auto
  qed
  moreover have "executor_record e' j = executor_record ?e j" if "j \<notin> fst ` set items" for j
  proof -
    have "map_of (zip (map fst items) outs) j = None"
      using that by (auto simp: map_of_eq_None_iff dest!: set_zip_leftD)
    with e'(3) show ?thesis by simp
  qed
  moreover have "settled_tasks s = es_started s" using assms(2) by (simp add: settled_tasks_def)
  ultimately show ?thesis
    using ok order e'(1,2) by (simp add: executor_ok_def executor_record_def)
qed

text \<open>One task is submitted, then \<open>stop\<close> is called; the coroutine raises.\<close>

definition sample_task :: task_record where
  "sample_task =
     \<lparr>bt_task_id = u ''task-'' @ replicate 32 48, bt_name = u ''reload'', bt_status = TaskWaiting,
      bt_created_at = Aware 0 0, bt_started_at = None, bt_finished_at = None, bt_error = None\<rparr>"

definition sample_executor_state :: "unit executor_state" where
  "sample_executor_state =
     \<lparr>es_executor =
        \<lparr>ex_queue = \<lparr>aq_items = [Some (u ''task-'' @ replicate 32 48, ()), None], aq_unfinished = 2\<rparr>,
         ex_records = [(u ''task-'' @ replicate 32 48, sample_task)]\<rparr>,
      es_worker = ExecWaiting, es_accepted = [(u ''task-'' @ replicate 32 48, ())], es_started = []\<rparr>"

lemma sample_executor_state_reachable: "executor_step\<^sup>*\<^sup>* executor_start sample_executor_state"
proof -
  let ?submit = "executor_submit (u ''reload'') () (replicate 32 48) (Aware 0 60) (es_executor executor_start)"
  define s1 where "s1 = executor_start\<lparr>es_executor := snd ?submit, es_accepted := [(u ''task-'' @ replicate 32 48, ())]\<rparr>"
  have ok: "task_record_ok sample_task"
    using validate_prefixed_uuid_hex [of "replicate 32 48" "u ''task''"]
    by (simp add: sample_task_def task_record_ok_def task_transition_ok_def is_hex_def u_Cons list_all_iff)
  note valid = ok [unfolded sample_task_def]
  have 1: "?submit = (Inr (u ''task-'' @ replicate 32 48), es_executor s1)"
    by (simp add: s1_def executor_submit_def Let_def validated_def valid)
  have "executor_step executor_start s1"
    using executor_step.submit [OF _ 1] by (simp add: s1_def executor_start_def new_executor_def)
  moreover have "s1\<lparr>es_executor := executor_stop (es_executor s1)\<rparr> = sample_executor_state"
    by (simp add: s1_def executor_submit_def Let_def validated_def valid executor_start_def new_executor_def executor_stop_def
        sample_executor_state_def queue_put_def empty_queue_def) (simp add: sample_task_def)
  then have "executor_step s1 sample_executor_state" using executor_step.stop [of s1] by simp
  ultimately show ?thesis by (meson converse_rtranclp_into_rtranclp rtranclp.rtrancl_refl)
qed

theorem tasks_settle_witness:
  "\<exists>e'. executor_run [(TaskRaised (u ''OSError'') (u ''disk''), Aware 5 0, Aware 9 0)] (Aware 9 0)
      (es_executor sample_executor_state) = (ExecReturned, e') \<and>
    executor_record e' (u ''task-'' @ replicate 32 48) =
      Some (sample_task\<lparr>bt_status := TaskFailure, bt_started_at := Some (Aware 5 0),
                         bt_finished_at := Some (Aware 9 0), bt_error := Some (u ''OSError: disk'')\<rparr>)"
proof -
  let ?outs = "[(TaskRaised (u ''OSError'') (u ''disk''), Aware 5 0, Aware 9 0)]"
  have q: "aq_items (ex_queue (es_executor sample_executor_state)) =
      map Some [(u ''task-'' @ replicate 32 48, ())] @ None # []"
    by (simp add: sample_executor_state_def)
  have w: "es_worker sample_executor_state = ExecWaiting" by (simp add: sample_executor_state_def)
  from tasks_settle [OF sample_executor_state_reachable w q, of ?outs "Aware 9 0"]
  show ?thesis
    by (auto simp: sample_executor_state_def executor_record_def finished_record_def settled_record_def u_Cons)
qed

end
