(* ===== verification/Loops.thy ===== *)
theory Loops
  imports Estimation
begin

text \<open>
  \<open>runtime/loops.py\<close>: the autonomous loop, which repeats turns while a policy says so and every budget allows.
  The policy, the stop flag, the clock, the controller's turn and the checkpoint store are operations on a state
  \<open>'w\<close>. A \<open>float\<close> is the rational it stands for and \<open>fl\<close> rounds, as in the estimator.
\<close>

datatype loop_decision = LoopStop | LoopContinue

record loop_budget =
  lb_max_iterations :: int
  lb_deadline_seconds :: rat
  lb_max_tokens :: int
  lb_max_cost_units :: rat
  lb_tokens_per_iteration :: int
  lb_cost_per_iteration :: rat

definition loop_budget_ok :: "loop_budget \<Rightarrow> bool" where
  "loop_budget_ok b \<longleftrightarrow>
     0 \<le> lb_max_iterations b \<and> 0 \<le> lb_deadline_seconds b \<and> 0 \<le> lb_max_tokens b \<and> 0 \<le> lb_max_cost_units b \<and>
     0 \<le> lb_tokens_per_iteration b \<and> 0 \<le> lb_cost_per_iteration b"

definition disabled_budget :: loop_budget where
  "disabled_budget =
     \<lparr>lb_max_iterations = 0, lb_deadline_seconds = 0, lb_max_tokens = 0, lb_max_cost_units = 0,
      lb_tokens_per_iteration = 0, lb_cost_per_iteration = 0\<rparr>"

record loop_checkpoint =
  lc_run_id :: pystr
  lc_iterations :: int
  lc_tokens :: int
  lc_cost :: rat
  lc_next_input :: pystr

record loop_result =
  lr_run_id :: pystr
  lr_iterations :: int
  lr_tokens :: int
  lr_cost :: rat
  lr_reason :: pystr

record 'w loop_env =
  le_next :: "int option \<Rightarrow> ('w, loop_decision) op"
  le_stop :: "('w, bool) op"
  le_clock :: "('w, rat) op"
  le_turn :: "pystr \<Rightarrow> ('w, pystr) op"
  le_load :: "pystr \<Rightarrow> ('w, loop_checkpoint option) op"
  le_save :: "loop_checkpoint \<Rightarrow> ('w, unit) op"

definition disabled_policy :: "int option \<Rightarrow> ('w, loop_decision) op" where
  "disabled_policy state = sret LoopStop"

subsection \<open>Checkpoint stores\<close>

type_synonym memory_checkpoints = "(pystr \<times> loop_checkpoint) list"

definition memory_load :: "pystr \<Rightarrow> (memory_checkpoints, loop_checkpoint option) op" where
  "memory_load run_id d = (Inr (dict_get d run_id), d)"

definition memory_save :: "loop_checkpoint \<Rightarrow> (memory_checkpoints, unit) op" where
  "memory_save c d = (Inr (), dict_set (lc_run_id c) c d)"

text \<open>
  The JSON file: what it holds, or nothing. Reading its text back (\<open>model_validate_json\<close>) is the argument
  \<open>parse\<close>, writing it \<open>dump\<close>; a replaced file is one durable step.
\<close>

definition json_load ::
  "(bytes \<Rightarrow> loop_checkpoint result) \<Rightarrow> pystr \<Rightarrow> (bytes option, loop_checkpoint option) op"
where
  "json_load parse run_id f =
     (case f of
        None \<Rightarrow> (Inr None, f)
      | Some t \<Rightarrow> (rbind (parse t) (\<lambda>c. Inr (if lc_run_id c = run_id then Some c else None)), f))"

definition json_save :: "(loop_checkpoint \<Rightarrow> bytes) \<Rightarrow> loop_checkpoint \<Rightarrow> (bytes option, unit) op" where
  "json_save dump c f = (Inr (), Some (dump c @ [10]))"

subsection \<open>The loop\<close>

text \<open>The budget checks at the head of an iteration, in their order.\<close>

definition budget_stop :: "loop_budget \<Rightarrow> rat \<Rightarrow> loop_checkpoint \<Rightarrow> pystr option" where
  "budget_stop b elapsed s =
     (if lb_deadline_seconds b \<le> elapsed then Some (u ''deadline'')
      else if lb_max_iterations b \<le> lc_iterations s then Some (u ''max_iterations'')
      else if lb_max_tokens b < lc_tokens s + lb_tokens_per_iteration b then Some (u ''token_budget'')
      else if lb_max_cost_units b < fl (lc_cost s + lb_cost_per_iteration b) then Some (u ''cost_budget'')
      else None)"

definition loop_done :: "loop_checkpoint \<Rightarrow> pystr \<Rightarrow> loop_result" where
  "loop_done s reason =
     \<lparr>lr_run_id = lc_run_id s, lr_iterations = lc_iterations s, lr_tokens = lc_tokens s, lr_cost = lc_cost s,
      lr_reason = reason\<rparr>"

definition loop_advance :: "loop_budget \<Rightarrow> pystr \<Rightarrow> loop_checkpoint \<Rightarrow> loop_checkpoint" where
  "loop_advance b next_input s =
     s\<lparr>lc_iterations := lc_iterations s + 1, lc_tokens := lc_tokens s + lb_tokens_per_iteration b,
       lc_cost := fl (lc_cost s + lb_cost_per_iteration b), lc_next_input := next_input\<rparr>"

text \<open>A cancelled turn leaves the checkpoint it started from.\<close>

definition run_loop_turn :: "'w loop_env \<Rightarrow> loop_checkpoint \<Rightarrow> ('w, pystr) op" where
  "run_loop_turn env s w =
     (case le_turn env (lc_next_input s) w of
        (Inl e, w') \<Rightarrow> if e = CancelledExn then sbind (le_save env s) (\<lambda>_. sfail CancelledExn) w' else (Inl e, w')
      | (Inr next_input, w') \<Rightarrow> (Inr next_input, w'))"

text \<open>One pass up to the next iteration: an answer, or the state to go on from.\<close>

definition loop_pass ::
  "'w loop_env \<Rightarrow> loop_budget \<Rightarrow> rat \<Rightarrow> loop_checkpoint \<Rightarrow> ('w, loop_result + loop_checkpoint) op"
where
  "loop_pass env b started s =
     sbind (le_next env (Some (lc_iterations s))) (\<lambda>decision.
       if decision \<noteq> LoopContinue then sret (Inl (loop_done s (u ''policy_stop'')))
       else sbind (le_stop env) (\<lambda>stopped.
         if stopped then sret (Inl (loop_done s (u ''manual_stop'')))
         else sbind (le_clock env) (\<lambda>now.
           case budget_stop b (fl (now - started)) s of
             Some reason \<Rightarrow> sret (Inl (loop_done s reason))
           | None \<Rightarrow> sbind (run_loop_turn env s) (\<lambda>next_input.
               sbind (le_save env (loop_advance b next_input s)) (\<lambda>_.
                 sret (Inr (loop_advance b next_input s)))))))"

lemma loop_pass_continues:
  assumes "loop_pass env b started s w = (Inr (Inr s'), w')"
  shows "\<exists>x. s' = loop_advance b x s" and "lc_iterations s < lb_max_iterations b"
    and "lc_tokens s' \<le> lb_max_tokens b" and "lc_cost s' \<le> lb_max_cost_units b"
  using assms
  by (auto simp: loop_pass_def sbind_Inr_iff budget_stop_def loop_advance_def split: if_splits)

lemma loop_pass_counts:
  "loop_pass env b started s w = (Inr (Inr s'), w') \<Longrightarrow> lc_iterations s' = lc_iterations s + 1"
  using loop_pass_continues(1) by (fastforce simp: loop_advance_def)

function loop_from :: "'w loop_env \<Rightarrow> loop_budget \<Rightarrow> rat \<Rightarrow> loop_checkpoint \<Rightarrow> ('w, loop_result) op" where
  "loop_from env b started s w =
     (case loop_pass env b started s w of
        (Inl e, w') \<Rightarrow> (Inl e, w')
      | (Inr (Inl r), w') \<Rightarrow> (Inr r, w')
      | (Inr (Inr s'), w') \<Rightarrow> loop_from env b started s' w')"
  by pat_completeness auto
termination
  by (relation "measure (\<lambda>(env, b, started, s, w). nat (lb_max_iterations b - lc_iterations s))")
    (auto dest: loop_pass_counts [OF sym] loop_pass_continues(2) [OF sym])

declare loop_from.simps [simp del]

definition loop_begin :: "pystr \<Rightarrow> pystr \<Rightarrow> loop_checkpoint option \<Rightarrow> loop_checkpoint" where
  "loop_begin run_id initial_input c =
     (case c of
        None \<Rightarrow> \<lparr>lc_run_id = run_id, lc_iterations = 0, lc_tokens = 0, lc_cost = 0, lc_next_input = initial_input\<rparr>
      | Some s \<Rightarrow> s\<lparr>lc_run_id := run_id\<rparr>)"

definition run_loop :: "'w loop_env \<Rightarrow> loop_budget \<Rightarrow> pystr \<Rightarrow> pystr \<Rightarrow> ('w, loop_result) op" where
  "run_loop env b initial_input run_id =
     sbind (le_next env None) (\<lambda>decision.
       if decision = LoopStop
       then sret \<lparr>lr_run_id = run_id, lr_iterations = 0, lr_tokens = 0, lr_cost = 0, lr_reason = u ''disabled''\<rparr>
       else sbind (le_load env run_id) (\<lambda>c.
            sbind (le_clock env) (\<lambda>started.
            loop_from env b started (loop_begin run_id initial_input c))))"

subsection \<open>The budgets hold\<close>

text \<open>To count the turns, the operations are run on a state that also keeps the number of calls of \<open>run_turn\<close>.\<close>

definition beside :: "('w, 'a) op \<Rightarrow> ('w \<times> nat, 'a) op" where
  "beside f = (\<lambda>(w, n). case f w of (r, w') \<Rightarrow> (r, (w', n)))"

definition counted_loop :: "'w loop_env \<Rightarrow> ('w \<times> nat) loop_env" where
  "counted_loop env =
     \<lparr>le_next = (\<lambda>x. beside (le_next env x)), le_stop = beside (le_stop env), le_clock = beside (le_clock env),
      le_turn = (\<lambda>x (w, n). beside (le_turn env x) (w, Suc n)), le_load = (\<lambda>x. beside (le_load env x)),
      le_save = (\<lambda>x. beside (le_save env x))\<rparr>"

lemma beside_Inr [simp]: "beside f (w, n) = (x, (w', n')) \<longleftrightarrow> f w = (x, w') \<and> n' = n"
  by (auto simp: beside_def split: prod.splits)

lemma beside_state: "beside f s = (x, s') \<Longrightarrow> snd s' = snd s"
  by (cases s; cases s') simp

definition spent :: "loop_budget \<Rightarrow> nat \<Rightarrow> loop_checkpoint \<Rightarrow> int \<times> int \<times> rat" where
  "spent b k s =
     (lc_iterations s + int k, lc_tokens s + int k * lb_tokens_per_iteration b,
      ((\<lambda>c. fl (c + lb_cost_per_iteration b)) ^^ k) (lc_cost s))"

lemma turn_counted:
  assumes "run_loop_turn (counted_loop env) s (w, n) = (r, (w', n'))"
  shows "n' = Suc n"
  using assms
  by (auto simp: run_loop_turn_def counted_loop_def sbind_def dest!: beside_state split: prod.splits sum.splits if_splits)

lemma beside_bind:
  "sbind (beside f) g (w, n) = (case f w of (Inl e, w') \<Rightarrow> (Inl e, (w', n)) | (Inr x, w') \<Rightarrow> g x (w', n))"
  by (simp add: sbind_def beside_def split: prod.split sum.split)

lemma counted_fields:
  "le_next (counted_loop env) x = beside (le_next env x)" "le_stop (counted_loop env) = beside (le_stop env)"
  "le_clock (counted_loop env) = beside (le_clock env)" "le_save (counted_loop env) c = beside (le_save env c)"
  "le_load (counted_loop env) i = beside (le_load env i)"
  by (simp_all add: counted_loop_def)

lemma turn_then_save:
  assumes "sbind (run_loop_turn (counted_loop env) s)
      (\<lambda>x. sbind (beside (le_save env (f x))) (\<lambda>_. sret (Inr (f x)))) (w, n) = (r, (w', n'))"
  shows "n' = Suc n" and "r \<noteq> Inr (Inl x)"
proof -
  obtain y w1 n1 where turn: "run_loop_turn (counted_loop env) s (w, n) = (y, (w1, n1))"
    by (metis prod.exhaust)
  from turn_counted [OF turn] have n1: "n1 = Suc n" .
  show "n' = Suc n" and "r \<noteq> Inr (Inl x)"
    using assms turn n1 by (auto simp: sbind_def beside_def split: sum.splits prod.splits)
qed

text \<open>A pass calls \<open>run_turn\<close> at most once, exactly once when it goes on, and only within the budget.\<close>

lemma pass_counted:
  assumes "loop_pass (counted_loop env) b started s (w, n) = (r, (w', n'))"
  shows "n' = n \<or> n' = Suc n \<and> lc_iterations s < lb_max_iterations b"
    and "r = Inr (Inr s') \<Longrightarrow> n' = Suc n" and "r = Inr (Inl x) \<Longrightarrow> n' = n"
proof -
  have "(n' = n \<and> (\<forall>s'. r \<noteq> Inr (Inr s'))) \<or>
    (n' = Suc n \<and> lc_iterations s < lb_max_iterations b \<and> (\<forall>x. r \<noteq> Inr (Inl x)))"
    using assms turn_then_save [of env s "\<lambda>x. loop_advance b x s" _ n r w' n']
    by (auto simp: loop_pass_def counted_fields beside_bind budget_stop_def
        split: prod.splits sum.splits if_splits)
  then show "n' = n \<or> n' = Suc n \<and> lc_iterations s < lb_max_iterations b"
    "r = Inr (Inr s') \<Longrightarrow> n' = Suc n" "r = Inr (Inl x) \<Longrightarrow> n' = n"
    by blast+
qed

definition stop_reasons :: "pystr list" where
  "stop_reasons = map u [''policy_stop'', ''manual_stop'', ''deadline'', ''max_iterations'', ''token_budget'', ''cost_budget'']"

lemma loop_pass_stops: "loop_pass env b started s w = (Inr (Inl x), w') \<Longrightarrow> \<exists>reason\<in>set stop_reasons. x = loop_done s reason"
  by (auto simp: loop_pass_def sbind_Inr_iff budget_stop_def stop_reasons_def split: if_splits)

lemma spent_step:
  "spent b k (loop_advance b x s) = spent b (Suc k) s"
proof -
  have "((\<lambda>c. fl (c + lb_cost_per_iteration b)) ^^ Suc k) (lc_cost s) =
      ((\<lambda>c. fl (c + lb_cost_per_iteration b)) ^^ k) (fl (lc_cost s + lb_cost_per_iteration b))"
    by (simp only: funpow_Suc_right o_apply)
  then show ?thesis by (simp add: spent_def loop_advance_def distrib_right del: funpow.simps)
qed

definition within_budget :: "loop_budget \<Rightarrow> loop_checkpoint \<Rightarrow> nat \<Rightarrow> loop_result result \<Rightarrow> bool" where
  "within_budget b s k r \<longleftrightarrow>
     int k \<le> max 0 (lb_max_iterations b - lc_iterations s) \<and>
     (\<forall>x. r = Inr x \<longrightarrow> (lr_iterations x, lr_tokens x, lr_cost x) = spent b k s \<and> lr_run_id x = lc_run_id s \<and>
        (0 < k \<longrightarrow> lr_tokens x \<le> lb_max_tokens b \<and> lr_cost x \<le> lb_max_cost_units b) \<and>
        lr_reason x \<in> set stop_reasons)"

lemma loop_from_within_budget:
  "loop_from (counted_loop env) b started s (w, n) = (r, (w', n')) \<Longrightarrow> n \<le> n' \<and> within_budget b s (n' - n) r"
proof (induction "nat (lb_max_iterations b - lc_iterations s)" arbitrary: s w n rule: less_induct)
  case less
  obtain y w1 n1 where pass: "loop_pass (counted_loop env) b started s (w, n) = (y, (w1, n1))" by (metis prod.exhaust)
  note count = pass_counted [OF pass]
  consider e where "y = Inl e" | x where "y = Inr (Inl x)" | s' where "y = Inr (Inr s')"
    by (metis sumE)
  then show ?case
  proof cases
    case 1
    with less.prems pass have "r = Inl e" "n' = n1" by (simp_all add: loop_from.simps)
    with count(1) show ?thesis by (auto simp: within_budget_def)
  next
    case 2
    with less.prems pass count(3) [OF 2] have "r = Inr x" "n' = n" by (simp_all add: loop_from.simps)
    moreover have "\<exists>reason\<in>set stop_reasons. x = loop_done s reason"
      using loop_pass_stops [OF pass [unfolded 2]] .
    ultimately show ?thesis by (auto simp: within_budget_def loop_done_def spent_def)
  next
    case 3
    note go = loop_pass_continues [OF pass [unfolded 3]]
    obtain x where x: "s' = loop_advance b x s" using go(1) by blast
    have n1: "n1 = Suc n" by (rule count(2) [OF 3])
    have rest: "loop_from (counted_loop env) b started s' (w1, Suc n) = (r, (w', n'))"
      using less.prems pass 3 n1 by (simp add: loop_from.simps [of _ _ _ s])
    have smaller: "nat (lb_max_iterations b - lc_iterations s') < nat (lb_max_iterations b - lc_iterations s)"
      using go(2) by (simp add: x loop_advance_def)
    from less.hyps [OF smaller rest] obtain k where k: "n' = Suc n + k" "within_budget b s' k r"
      by (metis add_diff_cancel_left' le_Suc_ex)
    have "spent b k s' = spent b (Suc k) s" by (simp only: x spent_step)
    moreover have "spent b (Suc 0) s = (lc_iterations s', lc_tokens s', lc_cost s')"
      by (simp add: spent_def x loop_advance_def)
    moreover have "int (Suc k) \<le> max 0 (lb_max_iterations b - lc_iterations s)"
      using k(2) go(2) by (auto simp: within_budget_def x loop_advance_def)
    moreover have "lc_run_id s' = lc_run_id s" by (simp add: x loop_advance_def)
    ultimately show ?thesis
      using k go(3,4) by (cases k) (auto simp: within_budget_def)
  qed
qed

text \<open>
  C30. The autonomous loop stays within its budgets and ends. Whatever the policy, the stop flag, the clock, the
  turns and the checkpoint store do, a run that goes on from the state \<open>s\<close> of its checkpoint calls \<open>run_turn\<close> at
  most as often as iterations are left; when it returns it has counted exactly these turns, with the tokens and
  the cost of each, both within their limits as soon as one turn was made, and gives one of the six reasons.
\<close>

theorem loop_within_budget:
  assumes "le_next env None w = (Inr LoopContinue, w1)" and "le_load env run_id w1 = (Inr c, w2)"
    and "run_loop (counted_loop env) b initial_input run_id (w, 0) = (r, (w', turns))"
  shows "within_budget b (loop_begin run_id initial_input c) turns r"
proof -
  obtain y w3 where clock: "le_clock env w2 = (y, w3)" by fastforce
  show ?thesis
  proof (cases y)
    case (Inl e)
    with assms clock show ?thesis
      by (auto simp: run_loop_def counted_fields beside_bind within_budget_def)
  next
    case (Inr started)
    with assms clock have
      "loop_from (counted_loop env) b started (loop_begin run_id initial_input c) (w3, 0) = (r, (w', turns))"
      by (simp add: run_loop_def counted_fields beside_bind)
    from loop_from_within_budget [OF this] show ?thesis by simp
  qed
qed

text \<open>A policy that never stops, a clock that stands still, two iterations allowed, no checkpoint.\<close>

definition sample_loop :: "unit loop_env" where
  "sample_loop =
     \<lparr>le_next = (\<lambda>_. sret LoopContinue), le_stop = sret False, le_clock = sret 0, le_turn = (\<lambda>x. sret x),
      le_load = (\<lambda>_. sret None), le_save = (\<lambda>_. sret ())\<rparr>"

definition sample_loop_budget :: loop_budget where
  "sample_loop_budget =
     \<lparr>lb_max_iterations = 2, lb_deadline_seconds = 9, lb_max_tokens = 30, lb_max_cost_units = 0,
      lb_tokens_per_iteration = 10, lb_cost_per_iteration = 0\<rparr>"

theorem loop_within_budget_witness:
  "\<exists>r. run_loop (counted_loop sample_loop) sample_loop_budget (u ''go'') (u ''r'') ((), 0) = (Inr r, ((), 2)) \<and>
     lr_reason r = u ''max_iterations'' \<and>
     within_budget sample_loop_budget (loop_begin (u ''r'') (u ''go'') None) 2 (Inr r)"
proof -
  have "\<exists>r. run_loop (counted_loop sample_loop) sample_loop_budget (u ''go'') (u ''r'') ((), 0) = (Inr r, ((), 2)) \<and>
      lr_reason r = u ''max_iterations''"
    by (simp add: run_loop_def sample_loop_def counted_loop_def beside_def sbind_def loop_begin_def loop_from.simps
        loop_pass_def budget_stop_def sample_loop_budget_def run_loop_turn_def loop_advance_def loop_done_def fl_def)
  then obtain r where r: "run_loop (counted_loop sample_loop) sample_loop_budget (u ''go'') (u ''r'') ((), 0) =
      (Inr r, ((), 2))" "lr_reason r = u ''max_iterations''" by blast
  have "le_next sample_loop None () = (Inr LoopContinue, ())" "le_load sample_loop (u ''r'') () = (Inr None, ())"
    by (simp_all add: sample_loop_def)
  from loop_within_budget [OF this r(1)] r show ?thesis by blast
qed

end
