(* ===== verification/Reset.thy ===== *)
theory Reset
  imports Memory_Properties Incidents Call_Models
begin

text \<open>
  The rest of \<open>memory/long_term.py\<close> and \<open>memory/archive.py\<close>, and \<open>memory/reset.py\<close>: source references, the gate
  before a pending record is thrown away, manual memories, clearing and the factory reset. Temporary files of
  atomic writes are not part of the world, and the writer lock appears as whether it could be taken.
\<close>

subsection \<open>Sources\<close>

definition long_term_source_ref :: "pystr \<Rightarrow> memory_item \<Rightarrow> source_ref result" where
  "long_term_source_ref revision m =
     validated source_ref_ok
       \<lparr>sf_source_kind = SrcDataFile, sf_source_id = u ''memory:'' @ mi_memory_id m,
        sf_path = Some (u ''data/memory/long_term.yaml''), sf_content_sha256 = Some (content_hash (mi_text m)),
        sf_revision = Some revision, sf_entity_ids = mi_memory_id m # map sr_record_id (mi_source_refs m),
        sf_producer = u ''long_term_selector''\<rparr>"

definition source_refs_for :: "memory_env \<Rightarrow> int \<Rightarrow> memory_item list \<Rightarrow> (world, source_ref list) op" where
  "source_refs_for env now items =
     sbind (ls_load env now None) (\<lambda>d.
       slift (rmap (long_term_source_ref (document_identity (cd_ser (me_codec env)) d)) items))"

definition selected_source_refs :: "memory_env \<Rightarrow> int \<Rightarrow> memory_item list \<Rightarrow> (world, source_ref list) op" where
  "selected_source_refs env now memories = source_refs_for env now memories"

text \<open>\<open>record_index\<close>: where each line starts and how long it is; a later line of the same record wins.\<close>

definition segment_name :: "nat \<Rightarrow> pystr" where
  "segment_name n = zero_pad 8 n @ u ''.jsonl''"

type_synonym record_place = "pystr \<times> nat \<times> nat \<times> int"

fun index_lines ::
  "codec \<Rightarrow> pystr \<Rightarrow> nat \<Rightarrow> bytes list \<Rightarrow> (pystr \<times> record_place) list \<Rightarrow> (pystr \<times> record_place) list result"
where
  "index_lines cd name offset [] index = Inr index"
| "index_lines cd name offset (line # lines) index =
     (case validate_record_json cd line of
        None \<Rightarrow> Inl (BaiError ''RAW_SEGMENT_INVALID'')
      | Some r \<Rightarrow>
          index_lines cd name (offset + length line) lines
            (dict_set (rr_record_id r) (name, offset, length line, rr_global_sequence r) index))"

fun index_segments ::
  "codec \<Rightarrow> segments \<Rightarrow> (pystr \<times> record_place) list \<Rightarrow> (pystr \<times> record_place) list result"
where
  "index_segments cd [] index = Inr index"
| "index_segments cd ((n, payload) # segs) index =
     rbind (index_lines cd (segment_name n) 0 (splitlines_keep payload) index) (index_segments cd segs)"

definition record_index :: "codec \<Rightarrow> segments \<Rightarrow> (pystr \<times> record_place) list result" where
  "record_index cd segs = index_segments cd segs []"

definition archive_source_ref :: "codec \<Rightarrow> segments \<Rightarrow> raw_record \<Rightarrow> source_ref result" where
  "archive_source_ref cd segs r =
     rbind (record_index cd segs) (\<lambda>index.
     rbind (read_all cd segs) (\<lambda>records.
       validated source_ref_ok
         \<lparr>sf_source_kind = SrcDataFile, sf_source_id = u ''raw:'' @ rr_record_id r,
          sf_path = Some (u ''data/memory/raw/'' @
            (case dict_get index (rr_record_id r) of None \<Rightarrow> u ''pending-transaction'' | Some (name, _) \<Rightarrow> name)),
          sf_content_sha256 = Some (rr_content_sha256 r), sf_revision = Some (identity_hash records),
          sf_entity_ids = [rr_record_id r], sf_producer = u ''raw_record_archive''\<rparr>))"

subsection \<open>Throwing a pending record away\<close>

definition pending_referenced :: "memory_document \<Rightarrow> raw_record \<Rightarrow> bool" where
  "pending_referenced d r \<longleftrightarrow>
     rr_global_sequence r \<le> ck_curated_through_sequence (md_curation d) \<or>
     rr_record_id r \<in> set (ck_covered_record_ids (md_curation d)) \<or>
     (\<exists>s\<in>set (co_spans (md_coverage_overview d)). rr_record_id r \<in> set (cs_record_ids s)) \<or>
     (\<exists>m\<in>set (md_memories d). \<exists>s\<in>set (mi_source_refs m). sr_record_id s = rr_record_id r)"

definition assert_pending_discardable :: "memory_env \<Rightarrow> raw_record \<Rightarrow> world \<Rightarrow> unit result" where
  "assert_pending_discardable env r w =
     (case w_yaml w of
        None \<Rightarrow> Inl (BaiError ''MEMORY_DOCUMENT_INVALID'')
      | Some payload \<Rightarrow>
          rbind (parse_bytes env payload None w) (\<lambda>d.
            if pending_referenced d r then Inl (BaiError ''MEMORY_PENDING_REFERENCED'') else Inr ()))"

definition archive_discard_tail :: "memory_env \<Rightarrow> pystr option \<Rightarrow> (world, pystr option) op" where
  "archive_discard_tail env expected w =
     (case discard_pending_tail (me_codec env) expected (w_segments w) of
        Inl e \<Rightarrow> (Inl e, w)
      | Inr None \<Rightarrow> (Inr None, w)
      | Inr (Some (turn_id, n, payload)) \<Rightarrow>
          sbind (durable (\<lambda>w. w\<lparr>w_segments := write_segment n payload (w_segments w)\<rparr>)) (\<lambda>_. sret (Some turn_id)) w)"

subsection \<open>Permissions\<close>

text \<open>The verdicts of the paths, in the order the code asks for them.\<close>

definition failed_permission :: "permission_result list \<Rightarrow> permission_result option" where
  "failed_permission results = List.find (\<lambda>r. pr_status r \<noteq> PermPrivate) results"

definition require_private :: "permission_result list \<Rightarrow> unit result" where
  "require_private results =
     (case failed_permission results of
        None \<Rightarrow> Inr ()
      | Some r \<Rightarrow> Inl (BaiError (if falsy (pr_error_code r) then ''MEMORY_PERMISSION_INVALID'' else the (pr_error_code r))))"

definition archive_permissions :: "path_facts \<Rightarrow> path_facts \<Rightarrow> path_facts list \<Rightarrow> permission_result list" where
  "archive_permissions root raw segment_files =
     ensure_private_path root True # ensure_private_path raw True # map (\<lambda>p. ensure_private_path p False) segment_files"

definition store_permissions ::
  "path_facts \<Rightarrow> path_facts \<Rightarrow> path_facts option \<Rightarrow> path_facts option \<Rightarrow> permission_result list"
where
  "store_permissions root state document last_valid =
     [ensure_private_path root True, ensure_private_path state True] @
     (case document of None \<Rightarrow> [] | Some p \<Rightarrow> [ensure_private_path p False]) @
     (case last_valid of None \<Rightarrow> [] | Some p \<Rightarrow> [ensure_private_path p False])"

subsection \<open>Manual memories, clearing, factory state\<close>

definition manual_item :: "pystr \<Rightarrow> int \<Rightarrow> pystr \<Rightarrow> raw_record list \<Rightarrow> memory_item" where
  "manual_item uuid now text' records =
     \<lparr>mi_memory_id = u ''mem-'' @ uuid, mi_kind = KindElse, mi_text = text', mi_status = MemActive,
      mi_source_refs = map (\<lambda>r. \<lparr>sr_record_id = rr_record_id r, sr_relation = RelManualBasis,
                                 sr_record_sha256 = rr_content_sha256 r\<rparr>) records,
      mi_created_by = ByManual, mi_created_at = Aware now 0, mi_updated_at = Aware now 0,
      mi_supersedes = [], mi_tags = []\<rparr>"

definition initialize_with_manual_memory ::
  "memory_env \<Rightarrow> int \<Rightarrow> pystr \<Rightarrow> pystr \<Rightarrow> raw_record list \<Rightarrow> (world, memory_document) op"
where
  "initialize_with_manual_memory env now uuid text' records =
     sbind (slift (ensure_safe text')) (\<lambda>safe.
     if records = [] then sfail (BaiError ''SOURCE_RECORD_MISSING'')
     else sbind (ls_initialize env now) (\<lambda>d.
          sbind (slift (validated memory_item_ok (manual_item uuid now safe records))) (\<lambda>item.
          sbind (slift (validated memory_document_ok
              \<lparr>md_schema_version = 1, md_revision = md_revision d + 1, md_curation = md_curation d,
               md_coverage_overview = (md_coverage_overview d)\<lparr>co_revision := md_revision d + 1\<rparr>,
               md_memories = md_memories d @ [item]\<rparr>)) (\<lambda>updated.
          ls_commit env updated True))))"

definition cleared_overview_text :: pystr where
  "cleared_overview_text =
     [38271, 26399, 35760, 24518, 24050, 28165, 31354, 65307, 26082, 26377, 24050, 25972, 29702, 33539, 22260, 20165,
      20445, 30041, 26469, 28304, 35206, 30422, 32034, 24341, 12290]"

definition cleared_document :: "memory_document \<Rightarrow> memory_document" where
  "cleared_document d =
     \<lparr>md_schema_version = 1, md_revision = md_revision d + 1, md_curation = md_curation d,
      md_coverage_overview = \<lparr>co_revision = md_revision d + 1, co_text = cleared_overview_text,
                              co_spans = co_spans (md_coverage_overview d)\<rparr>,
      md_memories = []\<rparr>"

definition clear_long_term_memories :: "memory_env \<Rightarrow> int \<Rightarrow> (world, memory_document) op" where
  "clear_long_term_memories env now =
     sbind (ls_initialize env now) (\<lambda>d.
     sbind (slift (validated memory_document_ok (cleared_document d))) (\<lambda>updated.
     ls_commit env updated False))"

definition reset_to_factory_state :: "memory_env \<Rightarrow> (world, memory_document) op" where
  "reset_to_factory_state env w =
     ls_commit env empty_document False
       (w\<lparr>ls_read_only := False, ls_loaded_hash := map_option content_hash_bytes (w_yaml w)\<rparr>)"

text \<open>\<open>clear\<close>: the segments are unlinked from the last one backwards.\<close>

fun unlink_segments :: "nat \<Rightarrow> (world, unit) op" where
  "unlink_segments 0 w = (Inr (), w)"
| "unlink_segments (Suc k) w =
     sbind (durable (\<lambda>w. w\<lparr>w_segments := butlast (w_segments w)\<rparr>)) (\<lambda>_. unlink_segments k) w"

definition archive_clear :: "(world, nat) op" where
  "archive_clear w = sbind (unlink_segments (length (w_segments w))) (\<lambda>_. sret (length (w_segments w))) w"

subsection \<open>The reset service\<close>

datatype reset_scope = ScopeAll | ScopeLongTerm | ScopeOther pystr

record reset_report =
  rp_scope :: reset_scope
  rp_raw_before :: int
  rp_raw_after :: int
  rp_items_before :: int
  rp_items_after :: int
  rp_spans_before :: int
  rp_spans_after :: int
  rp_curated_through :: int

text \<open>A \<open>BaiError\<close> becomes a default, anything else passes.\<close>

definition or_else :: "('s, 'a) op \<Rightarrow> 'a \<Rightarrow> ('s, 'a) op" where
  "or_else m x s = (case m s of (Inl e, s') \<Rightarrow> if is_bai e then (Inr x, s') else (Inl e, s') | r \<Rightarrow> r)"

definition document_counts :: "memory_document \<Rightarrow> int \<times> int" where
  "document_counts d = (int (length (md_memories d)), int (length (co_spans (md_coverage_overview d))))"

definition count_records :: "memory_env \<Rightarrow> (world, int) op" where
  "count_records env w = (rbind (read_all (me_codec env) (w_segments w)) (\<lambda>rs. Inr (int (length rs))), w)"

definition reset_body ::
  "memory_env \<Rightarrow> int \<Rightarrow> reset_scope \<Rightarrow> (world, int \<times> (int \<times> int) \<times> memory_document) op"
where
  "reset_body env now scope =
     (if scope = ScopeLongTerm
      then sbind (count_records env) (\<lambda>records.
           sbind (ls_initialize env now) (\<lambda>d.
           sbind (clear_long_term_memories env now) (\<lambda>after.
           sret (records, document_counts d, after))))
      else sbind (\<lambda>w. or_else (count_records env) (int (stored_line_count (w_segments w))) w) (\<lambda>records.
           sbind (or_else (sbind (ls_initialize env now) (\<lambda>d. sret (document_counts d))) (-1, -1)) (\<lambda>counts.
           sbind (reset_to_factory_state env) (\<lambda>after.
           sbind archive_clear (\<lambda>_. sret (records, counts, after))))))"

definition reset_memory ::
  "memory_env \<Rightarrow> int \<Rightarrow> bool \<Rightarrow> permission_result list \<Rightarrow> permission_result list \<Rightarrow> reset_scope \<Rightarrow>
   (world, reset_report) op"
where
  "reset_memory env now lock_free archive_perms store_perms scope =
     (if scope \<noteq> ScopeAll \<and> scope \<noteq> ScopeLongTerm then sfail (BaiError ''MEMORY_RESET_SCOPE_INVALID'')
      else if \<not> lock_free then sfail (BaiErrorRetryable ''WRITER_LOCKED'')
      else sbind (slift (require_private archive_perms)) (\<lambda>_.
           sbind (slift (require_private store_perms)) (\<lambda>_.
           sbind (reset_body env now scope) (\<lambda>(records, (items, spans), after).
           sbind (count_records env) (\<lambda>left.
           sret \<lparr>rp_scope = scope, rp_raw_before = records, rp_raw_after = left, rp_items_before = items,
                 rp_items_after = fst (document_counts after), rp_spans_before = spans,
                 rp_spans_after = snd (document_counts after),
                 rp_curated_through = ck_curated_through_sequence (md_curation after)\<rparr>)))))"

subsection \<open>What leaves the archive alone\<close>

text \<open>Operations that write neither the archive nor the journal.\<close>

definition keeps_archive :: "(world, 'a) op \<Rightarrow> bool" where
  "keeps_archive m \<longleftrightarrow>
     (\<forall>w. w_segments (snd (m w)) = w_segments w \<and> w_journal (snd (m w)) = w_journal w \<and>
        w_private (snd (m w)) = w_private w)"

named_theorems keeps "operations that keep the archive and the journal"

lemma keeps_sbind [keeps]: "keeps_archive m \<Longrightarrow> (\<And>x. keeps_archive (f x)) \<Longrightarrow> keeps_archive (sbind m f)"
  by (auto simp: keeps_archive_def sbind_def split: prod.splits sum.splits) (metis snd_conv)+

lemma keeps_basic [keeps]: "keeps_archive (sret x)" "keeps_archive (sfail e)" "keeps_archive (slift r)"
  by (simp_all add: keeps_archive_def)

lemma keeps_durable [keeps]:
  "(\<And>w. w_segments (f w) = w_segments w \<and> w_journal (f w) = w_journal w \<and> w_private (f w) = w_private w) \<Longrightarrow>
     keeps_archive (durable f)"
  by (simp add: keeps_archive_def durable_def)

lemma keeps_refresh [keeps]: "keeps_archive (refresh_last_valid payload)"
  by (simp add: keeps_archive_def refresh_last_valid_def durable_def)

lemma keeps_commit [keeps]: "keeps_archive (ls_commit env d preserve)"
  by (auto simp: keeps_archive_def ls_commit_def sbind_def durable_def refresh_last_valid_def
      split: sum.splits prod.splits if_splits)

lemma keeps_finish: "keeps_archive (load_finish payload d)"
  by (auto simp: keeps_archive_def load_finish_def sbind_def durable_def refresh_last_valid_def split: sum.splits)

lemma keepsD:
  assumes "keeps_archive m" and "m w = (r, w')"
  shows "w_segments w' = w_segments w" "w_journal w' = w_journal w" "w_private w' = w_private w"
  using assms by (metis keeps_archive_def snd_conv)+

lemma keeps_compare: "keeps_archive (load_compare env now raw payload d previous)"
proof -
  have "w_segments (snd (load_compare env now raw payload d previous w)) = w_segments w \<and>
    w_journal (snd (load_compare env now raw payload d previous w)) = w_journal w \<and>
    w_private (snd (load_compare env now raw payload d previous w)) = w_private w" for w
  proof -
    define w1 where "w1 = w\<lparr>ls_loaded_hash := Some (content_hash_bytes payload), ls_read_only := False\<rparr>"
    have commit: "w_segments w' = w_segments w \<and> w_journal w' = w_journal w \<and> w_private w' = w_private w"
      if "ls_commit env d' True w1 = (r, w')" for d' r w'
      using keepsD [OF keeps_commit that] by (simp add: w1_def)
    note finish = keepsD [OF keeps_finish]
    show ?thesis
      unfolding load_compare_def w1_def [symmetric]
      by (auto split: sum.split prod.split dest!: commit) (metis commit finish snd_conv prod.collapse)+
  qed
  then show ?thesis by (simp add: keeps_archive_def)
qed

lemma keeps_load [keeps]: "keeps_archive (ls_load env now raw)"
proof -
  have "w_segments (snd (ls_load env now raw w)) = w_segments w \<and>
    w_journal (snd (ls_load env now raw w)) = w_journal w \<and>
    w_private (snd (ls_load env now raw w)) = w_private w" for w
    using keeps_finish keeps_compare
    by (auto simp: ls_load_def keeps_archive_def split: option.split sum.split)
  then show ?thesis by (simp add: keeps_archive_def)
qed

lemma keeps_initialize [keeps]: "keeps_archive (ls_initialize env now)"
proof -
  define m where "m = (\<lambda>w0. sbind (slift (render env empty_document True w0)) (\<lambda>payload.
    sbind (durable (\<lambda>w. w\<lparr>w_yaml := Some payload\<rparr>)) (\<lambda>_. ls_load env now None)))"
  have m: "keeps_archive (m w0)" for w0
    unfolding m_def by (intro keeps) simp_all
  have "ls_initialize env now w = (if w_yaml w = None then m w w else ls_load env now None w)" for w
    by (simp add: ls_initialize_def m_def)
  then show ?thesis
    using m keeps_load [of env now None] by (simp add: keeps_archive_def)
qed

lemma keeps_factory [keeps]: "keeps_archive (reset_to_factory_state env)"
  using keeps_commit [of env empty_document False]
  by (simp add: keeps_archive_def reset_to_factory_state_def)

lemma keeps_count [keeps]: "keeps_archive (count_records env)"
  by (simp add: keeps_archive_def count_records_def)

lemma keeps_or_else [keeps]:
  assumes "keeps_archive m"
  shows "keeps_archive (or_else m x)"
proof -
  have "snd (or_else m x w) = snd (m w)" for w
    by (simp add: or_else_def split: prod.split sum.split)
  then show ?thesis using assms by (simp add: keeps_archive_def)
qed

subsection \<open>Interrupted resets\<close>

lemma segments_shape_take: "segments_shape n segs \<Longrightarrow> segments_shape n (take k segs)"
proof (induction segs arbitrary: n k)
  case (Cons seg segs)
  then show ?case
  proof (cases k)
    case 0
    then show ?thesis by (simp add: segments_shape_def)
  next
    case (Suc k')
    with Cons show ?thesis by (cases seg) (simp add: segments_shape_Cons)
  qed
qed simp

lemma read_all_take:
  assumes "read_all cd segs = Inr rs"
  shows "\<exists>rs'. read_all cd (take k segs) = Inr rs' \<and> prefix rs' rs"
proof -
  have "segments_shape 1 (take k segs)"
    using assms by (simp add: read_all_iff segments_shape_take)
  moreover have split: "all_lines segs = all_lines (take k segs) @ all_lines (drop k segs)"
    unfolding all_lines_def by (metis append_take_drop_id concat_append map_append)
  then obtain rs' where "read_lines cd (all_lines (take k segs)) [] = Inr rs'"
    "read_lines cd (all_lines (drop k segs)) rs' = Inr rs"
    using assms by (auto simp: read_all_iff read_lines_append rbind_Inr_iff)
  moreover have "prefix xs ys" if "read_lines cd ls xs = Inr ys" for ls xs ys
    using that by (induction cd ls xs rule: read_lines.induct)
      (auto split: option.splits if_splits dest: append_prefixD)
  ultimately show ?thesis by (auto simp: read_all_iff)
qed

lemma unlink_segments_result:
  "unlink_segments k w = (r, w') \<Longrightarrow> k \<le> length (w_segments w) \<Longrightarrow>
    \<exists>j. w_segments w' = take j (w_segments w) \<and> w_yaml w' = w_yaml w \<and> w_last_valid w' = w_last_valid w \<and>
      (is_ok r \<longrightarrow> w_segments w' = take (length (w_segments w) - k) (w_segments w))"
proof (induction k arbitrary: w)
  case 0
  then show ?case by (intro exI [of _ "length (w_segments w)"]) auto
next
  case (Suc k)
  show ?case
  proof (cases "w_budget w = 0")
    case True
    with Suc.prems show ?thesis
      by (intro exI [of _ "length (w_segments w)"]) (auto simp: sbind_def durable_def)
  next
    case False
    define w1 where "w1 = w\<lparr>w_segments := butlast (w_segments w), w_budget := w_budget w - 1\<rparr>"
    have rest: "unlink_segments k w1 = (r, w')"
      using Suc.prems(1) False by (simp add: sbind_def durable_def w1_def)
    have len: "length (w_segments w1) = length (w_segments w) - 1" "k \<le> length (w_segments w1)"
      using Suc.prems(2) by (auto simp: w1_def)
    obtain j where j: "w_segments w' = take j (w_segments w1)" "w_yaml w' = w_yaml w1"
      "w_last_valid w' = w_last_valid w1"
      "is_ok r \<longrightarrow> w_segments w' = take (length (w_segments w1) - k) (w_segments w1)"
      using Suc.IH [OF rest len(2)] by blast
    have seg: "w_segments w1 = take (length (w_segments w) - 1) (w_segments w)"
      by (simp add: w1_def butlast_conv_take)
    show ?thesis
    proof (intro exI [of _ "min j (length (w_segments w) - 1)"] conjI impI)
      assume "is_ok r"
      with j(4) have "w_segments w' = take (min (length (w_segments w) - 1 - k) (length (w_segments w) - 1)) (w_segments w)"
        by (simp add: seg len(1))
      then show "w_segments w' = take (length (w_segments w) - Suc k) (w_segments w)"
        by (simp add: min_def)
    qed (use j in \<open>simp_all add: w1_def butlast_conv_take min.commute\<close>)
  qed
qed

text \<open>What is on disk once the factory document has been committed.\<close>

definition factory_files :: "memory_env \<Rightarrow> world \<Rightarrow> bool" where
  "factory_files env w \<longleftrightarrow>
     (\<exists>p. render env empty_document False w = Inr p \<and> w_yaml w = Some p \<and> w_last_valid w = Some p)"

lemma render_fresh: "render env d False w = render env d False w'"
  by (simp add: render_def)

lemma factory_commits:
  assumes "reset_to_factory_state env w = (Inr d, w')"
  shows "factory_files env w'" "d = empty_document"
proof -
  define w1 where "w1 = w\<lparr>ls_read_only := False, ls_loaded_hash := map_option content_hash_bytes (w_yaml w)\<rparr>"
  from assms have c: "ls_commit env empty_document False w1 = (Inr d, w')"
    by (simp add: reset_to_factory_state_def w1_def)
  then obtain p where p: "commit_checks env empty_document False w1 = Inr p"
    by (auto simp: ls_commit_def sbind_Inr_iff)
  then have "render env empty_document False w' = Inr p"
    by (auto simp: commit_checks_def rbind_Inr_iff render_fresh [of env empty_document w' w1] split: if_splits)
  moreover have "w_yaml w' = Some p \<and> w_last_valid w' = Some p" "d = empty_document"
    using c p by (auto simp: ls_commit_def sbind_def durable_def refresh_last_valid_def split: if_splits)
  ultimately show "factory_files env w'" "d = empty_document" by (simp_all add: factory_files_def)
qed

lemma archive_clear_result:
  assumes "archive_clear w = (r, w')"
  shows "\<exists>j. w_segments w' = take j (w_segments w)" "w_yaml w' = w_yaml w" "w_last_valid w' = w_last_valid w"
    "is_ok r \<Longrightarrow> w_segments w' = []"
proof -
  obtain q w1 where u: "unlink_segments (length (w_segments w)) w = (q, w1)" by (metis prod.collapse)
  with assms have w1: "w' = w1" "is_ok r = is_ok q"
    by (auto simp: archive_clear_def sbind_def split: sum.splits)
  show "\<exists>j. w_segments w' = take j (w_segments w)" "w_yaml w' = w_yaml w" "w_last_valid w' = w_last_valid w"
    "is_ok r \<Longrightarrow> w_segments w' = []"
    using unlink_segments_result [OF u] by (auto simp: w1)
qed

text \<open>The body of a full reset: nothing is unlinked before the factory document is on disk.\<close>

lemma reset_body_all:
  assumes "reset_body env now ScopeAll w = (r, w')"
  shows "(isl r \<and> w_segments w' = w_segments w) \<or>
     (\<exists>w2 q. w_segments w2 = w_segments w \<and> factory_files env w2 \<and> archive_clear w2 = (q, w') \<and> isl q = isl r \<and>
       (\<forall>x. r = Inr x \<longrightarrow> snd (snd x) = empty_document))"
proof -
  define m1 where "m1 = (\<lambda>w. or_else (count_records env) (int (stored_line_count (w_segments w))) w)"
  define m2 where "m2 = or_else (sbind (ls_initialize env now) (\<lambda>d. sret (document_counts d))) (-1, -1)"
  have k1: "keeps_archive m1"
    using keeps_or_else [OF keeps_count [of env]] by (simp add: keeps_archive_def m1_def)
  have k2: "keeps_archive m2" unfolding m2_def by (intro keeps)
  have body: "reset_body env now ScopeAll w =
      sbind m1 (\<lambda>records. sbind m2 (\<lambda>counts. sbind (reset_to_factory_state env) (\<lambda>after.
        sbind archive_clear (\<lambda>_. sret (records, counts, after))))) w"
    by (simp add: reset_body_def m1_def m2_def)
  obtain r1 w1 where a1: "m1 w = (r1, w1)" by (metis prod.collapse)
  obtain r2 w2 where a2: "m2 w1 = (r2, w2)" by (metis prod.collapse)
  obtain r3 w3 where a3: "reset_to_factory_state env w2 = (r3, w3)" by (metis prod.collapse)
  obtain r4 w4 where a4: "archive_clear w3 = (r4, w4)" by (metis prod.collapse)
  have seg: "w_segments w1 = w_segments w" "w_segments w2 = w_segments w1" "w_segments w3 = w_segments w2"
    using keepsD(1) [OF k1 a1] keepsD(1) [OF k2 a2] keepsD(1) [OF keeps_factory a3] .
  show ?thesis
  proof (cases r1; cases r2; cases r3)
    fix x1 x2 x3 assume ok: "r1 = Inr x1" "r2 = Inr x2" "r3 = Inr x3"
    with assms a1 a2 a3 a4 have "w' = w4" "isl r = isl r4" "\<forall>x. r = Inr x \<longrightarrow> snd (snd x) = x3"
      by (auto simp: body sbind_def split: sum.splits)
    with seg a3 a4 ok(3) factory_commits [of env w2 x3 w3] show ?thesis by auto
  qed (use assms a1 a2 a3 seg in \<open>auto simp: body sbind_def\<close>)
qed

lemma reset_body_safe:
  assumes "reset_body env now ScopeAll w = (r, w')"
  shows "(\<exists>j. w_segments w' = take j (w_segments w)) \<and> (w_segments w' = w_segments w \<or> factory_files env w') \<and>
    (\<forall>x. r = Inr x \<longrightarrow> w_segments w' = [] \<and> factory_files env w' \<and> snd (snd x) = empty_document)"
  using reset_body_all [OF assms]
proof
  assume "isl r \<and> w_segments w' = w_segments w"
  then show ?thesis by (auto intro: exI [of _ "length (w_segments w)"])
next
  assume "\<exists>w2 q. w_segments w2 = w_segments w \<and> factory_files env w2 \<and> archive_clear w2 = (q, w') \<and>
    isl q = isl r \<and> (\<forall>x. r = Inr x \<longrightarrow> snd (snd x) = empty_document)"
  then obtain w2 q where w2: "w_segments w2 = w_segments w" "factory_files env w2" "archive_clear w2 = (q, w')"
    "isl q = isl r" "\<forall>x. r = Inr x \<longrightarrow> snd (snd x) = empty_document" by auto
  note clear = archive_clear_result [OF w2(3)]
  have "factory_files env w'"
    using w2(2) clear(2,3) by (auto simp: factory_files_def render_fresh [of env empty_document w' w2])
  with clear w2 show ?thesis by auto
qed

lemma reset_memory_body:
  assumes "reset_memory env now lock_free archive_perms store_perms ScopeAll w = (r, w')"
  shows "(isl r \<and> w' = w) \<or> (\<exists>q. reset_body env now ScopeAll w = (q, w') \<and>
     (\<forall>report. r = Inr report \<longrightarrow> (\<exists>x. q = Inr x \<and> count_records env w' = (Inr (rp_raw_after report), w') \<and>
        (rp_items_after report, rp_spans_after report) = document_counts (snd (snd x)))))"
proof -
  obtain q w1 where body: "reset_body env now ScopeAll w = (q, w1)" by (metis prod.collapse)
  have count: "snd (count_records env w1) = w1" by (simp add: count_records_def)
  show ?thesis
    using assms count
    by (auto simp: reset_memory_def sbind_def body split: if_splits sum.splits prod.splits)
qed

text \<open>
  C10. A full reset never leaves a dangling source. However it ends, a crash at any of its durable writes
  included, the archive is a readable beginning of the old one, and unless it is still whole the factory
  document and its recovery copy are on disk already. When it succeeds the archive is empty and so the
  report says.
\<close>

theorem reset_crash_safe:
  assumes "reset_memory env now lock_free archive_perms store_perms ScopeAll w = (r, w')"
    and "read_all (me_codec env) (w_segments w) = Inr rs"
  shows "\<exists>rs'. read_all (me_codec env) (w_segments w') = Inr rs' \<and> prefix rs' rs \<and>
    (w_segments w' = w_segments w \<or> factory_files env w') \<and>
    (\<forall>report. r = Inr report \<longrightarrow> rs' = [] \<and> factory_files env w' \<and> rp_raw_after report = 0 \<and>
       rp_items_after report = 0 \<and> rp_spans_after report = 0)"
  using reset_memory_body [OF assms(1)]
proof
  assume "isl r \<and> w' = w"
  then show ?thesis using assms(2) by auto
next
  assume "\<exists>q. reset_body env now ScopeAll w = (q, w') \<and>
     (\<forall>report. r = Inr report \<longrightarrow> (\<exists>x. q = Inr x \<and> count_records env w' = (Inr (rp_raw_after report), w') \<and>
        (rp_items_after report, rp_spans_after report) = document_counts (snd (snd x))))"
  then obtain q where q: "reset_body env now ScopeAll w = (q, w')"
    and rep: "\<And>report. r = Inr report \<Longrightarrow> \<exists>x. q = Inr x \<and>
       count_records env w' = (Inr (rp_raw_after report), w') \<and>
       (rp_items_after report, rp_spans_after report) = document_counts (snd (snd x))" by auto
  note body = reset_body_safe [OF q]
  obtain rs' where rs': "read_all (me_codec env) (w_segments w') = Inr rs'" "prefix rs' rs"
    using body read_all_take [OF assms(2)] by metis
  have "rs' = [] \<and> factory_files env w' \<and> rp_raw_after report = 0 \<and> rp_items_after report = 0 \<and>
      rp_spans_after report = 0" if good: "r = Inr report" for report
  proof -
    obtain x where x: "q = Inr x" "count_records env w' = (Inr (rp_raw_after report), w')"
      "(rp_items_after report, rp_spans_after report) = document_counts (snd (snd x))"
      using rep [OF good] by blast
    with body have "w_segments w' = []" "factory_files env w'" "snd (snd x) = empty_document" by auto
    with x rs'(1) show ?thesis
      by (simp add: count_records_def document_counts_def empty_document_def empty_overview_def read_all_def)
  qed
  with body rs' show ?thesis by blast
qed

text \<open>No step of a reset touches the journal.\<close>

definition keeps_journal :: "(world, 'a) op \<Rightarrow> bool" where
  "keeps_journal m \<longleftrightarrow> (\<forall>w. w_journal (snd (m w)) = w_journal w \<and> w_private (snd (m w)) = w_private w)"

named_theorems keeps_tx "operations that keep the journal"

lemma keeps_journal_archive [keeps_tx]: "keeps_archive m \<Longrightarrow> keeps_journal m"
  by (simp add: keeps_archive_def keeps_journal_def)

lemma keeps_journal_sbind [keeps_tx]:
  assumes "keeps_journal m" and "\<And>x. keeps_journal (f x)"
  shows "keeps_journal (sbind m f)"
proof -
  have "w_journal (snd (sbind m f w)) = w_journal w \<and> w_private (snd (sbind m f w)) = w_private w" for w
  proof (cases "m w")
    case (Pair r w')
    with assms(1) have "w_journal w' = w_journal w" "w_private w' = w_private w"
      unfolding keeps_journal_def by (metis snd_conv)+
    with Pair assms(2) show ?thesis by (cases r) (simp_all add: sbind_def keeps_journal_def)
  qed
  then show ?thesis by (simp add: keeps_journal_def)
qed

lemma keeps_journal_unlink: "keeps_journal (unlink_segments k)"
proof (induction k)
  case 0
  then show ?case by (simp add: keeps_journal_def)
next
  case (Suc k)
  have "keeps_journal (durable (\<lambda>w. w\<lparr>w_segments := butlast (w_segments w)\<rparr>))"
    by (simp add: keeps_journal_def durable_def)
  from keeps_journal_sbind [OF this Suc] show ?case by (simp add: keeps_journal_def)
qed

lemma keeps_journal_clear [keeps_tx]: "keeps_journal archive_clear"
proof -
  have "keeps_journal (sbind (unlink_segments k) (\<lambda>_. sret k))" for k
    by (intro keeps_tx keeps_journal_unlink keeps)
  then show ?thesis by (simp add: keeps_journal_def archive_clear_def)
qed

lemma keeps_journal_body: "keeps_journal (reset_body env now ScopeAll)"
proof -
  have "keeps_archive (\<lambda>w. or_else (count_records env) (int (stored_line_count (w_segments w))) w)"
    using keeps_or_else [OF keeps_count [of env]] by (simp add: keeps_archive_def)
  then show ?thesis
    unfolding reset_body_def by simp (intro keeps_journal_sbind keeps_journal_archive keeps keeps_journal_clear; assumption)
qed

text \<open>
  A full reset does not look at the turn journal. A turn that was decided on a non-empty archive and
  not yet published survives the reset with its texts, and from then on every recovery refuses it: the
  assistant cannot start again until the journal file is removed by hand.
\<close>

theorem reset_strands_turn:
  assumes "reset_memory env now lock_free archive_perms store_perms ScopeAll w = (Inr report, w')"
    and "tx_load env True w = Inr (Some j)" and "tj_state j \<noteq> Prepared"
    and "pc_raw_sha256 (tj_checkpoint j) \<noteq> identity_hash []"
  shows "tx_recover env now' (restart n w') = (Inl (BaiError ''TURN_TRANSACTION_CONFLICT''), restart n w')"
proof -
  obtain q where q: "reset_body env now ScopeAll w = (q, w')" "w_segments w' = []"
    using reset_memory_body [OF assms(1)] reset_body_safe by auto
  have "w_journal w' = w_journal w" "w_private w' = w_private w"
    using keeps_journal_body q(1) unfolding keeps_journal_def by (metis snd_conv)+
  then have load: "tx_load env False (restart n w') = Inr (Some j)"
    using assms(2) by (simp add: tx_load_iff restart_def)
  have empty: "read_all (me_codec env) (w_segments (restart n w')) = Inr []"
    by (simp add: restart_def q(2) read_all_def)
  have "turn_journal_ok j" using assms(2) by (auto simp: tx_load_iff)
  then have "tj_state j = ReadyToCommit \<Longrightarrow> tj_assistant j \<noteq> None" by (auto simp: turn_journal_ok_def split: option.splits)
  then show ?thesis
    using assms(3,4) load empty
    by (cases "tj_state j") (auto simp: tx_recover_def tx_commit_def append_pending_user_def append_complete_turn_def
        record_by_id_def)
qed

definition stranded_journal :: turn_journal where
  "stranded_journal = sample_journal\<lparr>tj_checkpoint := sample_checkpoint\<lparr>pc_raw_sha256 := []\<rparr>\<rparr>"

definition stranded_world :: world where
  "stranded_world = sample_world\<lparr>w_yaml := Some [], w_last_valid := Some [], w_budget := 9\<rparr>"

lemma stranded_load:
  "ls_initialize (sample_env j) 0 stranded_world = (Inl (BaiError ''MEMORY_DOCUMENT_INVALID''), stranded_world)"
  by (simp add: ls_initialize_def ls_load_def parse_bytes_def stranded_world_def sample_world_def sample_env_def
      sample_codec_def)

lemma stranded_factory:
  "\<exists>w'. reset_to_factory_state (sample_env j) stranded_world = (Inr empty_document, w') \<and> w_segments w' = []"
proof -
  define w1 where "w1 = stranded_world\<lparr>ls_read_only := False,
    ls_loaded_hash := map_option content_hash_bytes (w_yaml stranded_world)\<rparr>"
  have w1: "w_segments w1 = []" "w_yaml w1 = Some []" "w_last_valid w1 = Some []" "\<not> ls_read_only w1"
    "ls_loaded_hash w1 = Some (content_hash_bytes [])" "w_budget w1 = 9"
    by (simp_all add: w1_def stranded_world_def sample_world_def)
  have ov: "safe_text empty_overview_text"
    by (simp add: safe_short empty_overview_text_def)
  have sources: "validate_sources (sample_env j) empty_document None w1 = Inr ()"
    using w1(1)
    by (simp add: validate_sources_def empty_document_def empty_overview_def empty_overview_text_def read_all_def)
  have fields: "md_memories empty_document = []" "co_text (md_coverage_overview empty_document) = empty_overview_text"
    "\<not> sc_max_overview_chars (me_store (sample_env j)) < length empty_overview_text"
    by (simp_all add: empty_document_def empty_overview_def empty_overview_text_def sample_env_def)
  have "render (sample_env j) empty_document False w1 = Inr []"
    by (simp add: render_def sample_env_def sample_codec_def)
  then have "commit_checks (sample_env j) empty_document False w1 = Inr []"
    using sources ov w1 fields by (simp add: commit_checks_def)
  then show ?thesis
    using w1 unfolding reset_to_factory_state_def w1_def [symmetric]
    by (simp add: ls_commit_def sbind_def durable_def refresh_last_valid_def)
qed

lemma stranded_reset:
  "\<exists>report w'. reset_memory (sample_env j) 0 True [] [] ScopeAll stranded_world = (Inr report, w')"
proof -
  obtain w' where w': "reset_to_factory_state (sample_env j) stranded_world = (Inr empty_document, w')"
    "w_segments w' = []" using stranded_factory by auto
  have "w_segments stranded_world = []" by (simp add: stranded_world_def sample_world_def)
  with w' stranded_load show ?thesis
    by (simp add: reset_memory_def reset_body_def require_private_def failed_permission_def count_records_def
        or_else_def sbind_def archive_clear_def read_all_def BaiError_def)
qed

theorem reset_crash_safe_witness:
  "\<exists>r w'. reset_memory (sample_env None) 0 True [] [] ScopeAll stranded_world = (r, w') \<and> is_ok r \<and>
     factory_files (sample_env None) w'"
proof -
  obtain report w' where run: "reset_memory (sample_env None) 0 True [] [] ScopeAll stranded_world = (Inr report, w')"
    using stranded_reset by blast
  moreover have "read_all (me_codec (sample_env None)) (w_segments stranded_world) = Inr []"
    by (simp add: stranded_world_def sample_world_def read_all_def)
  ultimately show ?thesis using reset_crash_safe [OF run] by auto
qed

theorem reset_strands_turn_witness:
  "\<exists>report w'. reset_memory (sample_env (Some stranded_journal)) 0 True [] [] ScopeAll stranded_world = (Inr report, w') \<and>
     tx_recover (sample_env (Some stranded_journal)) 1 (restart 9 w') =
       (Inl (BaiError ''TURN_TRANSACTION_CONFLICT''), restart 9 w')"
proof -
  obtain report w' where run: "reset_memory (sample_env (Some stranded_journal)) 0 True [] [] ScopeAll stranded_world =
      (Inr report, w')" using stranded_reset by blast
  have "turn_journal_ok stranded_journal"
    using sample_journal_ok by (simp add: turn_journal_ok_def stranded_journal_def pre_turn_checkpoint_ok_def
        sample_checkpoint_def) (simp add: sample_journal_def)
  then have load: "tx_load (sample_env (Some stranded_journal)) True stranded_world = Inr (Some stranded_journal)"
    unfolding tx_load_iff by (simp add: stranded_world_def sample_world_def sample_codec_journal)
  have "[] \<noteq> identity_hash []" using length_hexdigest by (auto simp: identity_hash_def content_hash_def content_hash_bytes_def dest: arg_cong [where f = length])
  with reset_strands_turn [OF run load] run show ?thesis
    by (simp add: stranded_journal_def sample_journal_def)
qed

end
