(* ===== verification/Tool_History.thy ===== *)
theory Tool_History
  imports Assembler Curate
begin

text \<open>
  \<open>render_tool_history\<close> of \<open>runtime/controller.py\<close>: the tool events of a turn as messages of the next request,
  each with its time marker and visible boundary, and the request parts that say where every character comes
  from.
\<close>

subsection \<open>Messages and parts\<close>

fun history_kind_value :: "tool_history_kind \<Rightarrow> pystr" where
  "history_kind_value ToolCallBatch = u ''tool_call_batch''"
| "history_kind_value ToolResultEvent = u ''tool_result''"

definition history_entry :: "tool_history_event \<Rightarrow> temporal_entry result" where
  "history_entry e =
     rbind (make_temporal_span (th_occurred_at e) (th_occurred_at e) TimeEvent) (\<lambda>span.
     validated temporal_entry_ok
       \<lparr>te_entry_id = th_event_id e, te_body = th_original_body e, te_span = span, te_sources = th_sources e,
        te_trust = UntrustedData, te_metadata = [(u ''kind'', JStr (history_kind_value (th_kind e)))]\<rparr>)"

definition tool_call_dict :: "tool_call \<Rightarrow> jdict" where
  "tool_call_dict c =
     [(u ''call_id'', JStr (tc_call_id c)), (u ''name'', JStr (tc_name c)), (u ''arguments'', JObj (tc_arguments c))]"

definition history_message :: "tool_history_event \<Rightarrow> pystr \<Rightarrow> message result" where
  "history_message e content =
     validated message_ok
       \<lparr>ms_role = th_role e, ms_content = content, ms_trust = UntrustedData, ms_tool_call_id = th_tool_call_id e,
        ms_tool_calls = map tool_call_dict (th_tool_calls e)\<rparr>"

definition history_pointer :: "nat \<Rightarrow> pystr" where
  "history_pointer i = u ''/messages/'' @ nat_str i @ u ''/content''"

definition history_part :: "tool_history_event \<Rightarrow> pystr \<Rightarrow> nat \<Rightarrow> trust_level \<Rightarrow> pystr \<Rightarrow> int \<times> int \<Rightarrow> pystr \<Rightarrow>
   source_ref list \<Rightarrow> request_part result"
where
  "history_part e name order trust pointer place content sources =
     validated request_part_ok
       (included_part (u ''tool-history:'' @ th_event_id e @ [58] @ name) order trust pointer place content sources)"

fun fragment_parts ::
  "tool_history_event \<Rightarrow> pystr \<Rightarrow> nat \<Rightarrow> int \<Rightarrow> fragment list \<Rightarrow> request_part list result"
where
  "fragment_parts e pointer order cursor [] = Inr []"
| "fragment_parts e pointer order cursor (f # fs) =
     (let stop = cursor + int (length (af_content f))
      in rbind (history_part e (af_fragment_id f) order (af_trust f) pointer (cursor, stop) (af_content f)
                  (af_sources f)) (\<lambda>p.
         rbind (fragment_parts e pointer (Suc order) stop fs) (\<lambda>ps. Inr (p # ps))))"

definition event_parts :: "tool_history_event \<Rightarrow> pystr \<Rightarrow> nat \<Rightarrow> fragment list \<Rightarrow> request_part list result" where
  "event_parts e pointer order fragments =
     (if fragments \<noteq> [] then fragment_parts e pointer order 0 fragments
      else rbind (history_part e (u ''empty-body'') order UntrustedData pointer (0, 0) [] (th_sources e))
             (\<lambda>p. Inr [p]))"

text \<open>The text of an event and the fragments it is made of, with or without a visible boundary.\<close>

definition event_block ::
  "boundary_renderer option \<Rightarrow> nat \<Rightarrow> fragment list \<Rightarrow> (pystr \<times> fragment list) result"
where
  "event_block renderer index fragments =
     (case renderer of
        Some r \<Rightarrow> wrap_block r (u ''tool_history.event.'' @ nat_str index) (pieces_from_fragments fragments)
      | None \<Rightarrow> Inr (concat (map af_content fragments), fragments))"

fun render_events ::
  "boundary_renderer option \<Rightarrow> fragment list \<Rightarrow> nat \<Rightarrow> nat \<Rightarrow> nat \<Rightarrow> tool_history_event list \<Rightarrow>
   (message list \<times> request_part list) result"
where
  "render_events renderer all message_offset order index [] = Inr ([], [])"
| "render_events renderer all message_offset order index (e # es) =
     rbind (event_block renderer index (filter (\<lambda>f. af_entry_id f = th_event_id e) all)) (\<lambda>(content, fragments).
     rbind (history_message e content) (\<lambda>m.
     rbind (event_parts e (history_pointer (message_offset + index)) order fragments) (\<lambda>ps.
     rbind (render_events renderer all message_offset (order + length ps) (Suc index) es) (\<lambda>(ms, rest).
     Inr (m # ms, ps @ rest)))))"

definition render_tool_history ::
  "tool_history_event list \<Rightarrow> temporal_policy \<Rightarrow> nat \<Rightarrow> nat \<Rightarrow> boundary_renderer option \<Rightarrow>
   (message list \<times> request_part list) result"
where
  "render_tool_history events policy message_offset part_order renderer =
     rbind (rmap history_entry events) (\<lambda>entries.
     rbind (annotate_history entries policy []) (\<lambda>annotated.
     render_events renderer (ah_fragments annotated) message_offset part_order 0 events))"

subsection \<open>What the messages say\<close>

text \<open>The message of an event: its protocol fields, a text that holds the event's body, and its parts.\<close>

definition history_block_exact ::
  "nat \<Rightarrow> tool_history_event \<Rightarrow> message \<Rightarrow> request_part list \<Rightarrow> bool"
where
  "history_block_exact position e m ps \<longleftrightarrow>
     ms_role m = th_role e \<and> ms_tool_call_id m = th_tool_call_id e \<and> ms_trust m = UntrustedData \<and>
     ms_tool_calls m = map tool_call_dict (th_tool_calls e) \<and>
     (\<exists>before after. ms_content m = before @ th_original_body e @ after) \<and>
     ps \<noteq> [] \<and> concat (map rp_content ps) = ms_content m \<and>
     (\<forall>p\<in>set ps. rp_participation p = PartIncluded \<and> rp_pointer p = Some (history_pointer position) \<and>
        (\<exists>a b. rp_text_span p = Some (a, b) \<and> slice (ms_content m) a b = rp_content p))"

lemma history_partD:
  assumes "history_part e name order trust pointer place content sources = Inr p"
  shows "rp_participation p = PartIncluded" "rp_pointer p = Some pointer" "rp_text_span p = Some place"
    "rp_content p = content" "rp_order p = int order"
  using assms by (auto simp: history_part_def validated_def included_part_def split: if_splits)

lemma fragment_parts_exact:
  assumes "fragment_parts e pointer order (int (length pre)) fs = Inr ps"
  shows "map rp_content ps = map af_content fs \<and> map rp_order ps = map int [order..<order + length ps] \<and>
    (\<forall>p\<in>set ps. rp_participation p = PartIncluded \<and> rp_pointer p = Some pointer \<and>
       (\<exists>a b. rp_text_span p = Some (a, b) \<and> slice (pre @ fragments_text fs) a b = rp_content p))"
  using assms
proof (induction fs arbitrary: pre order ps)
  case Nil
  then show ?case by simp
next
  case (Cons f fs)
  have stop: "int (length pre) + int (length (af_content f)) = int (length (pre @ af_content f))" by simp
  from Cons.prems obtain p qs where p: "history_part e (af_fragment_id f) order (af_trust f) pointer
      (int (length pre), int (length (pre @ af_content f))) (af_content f) (af_sources f) = Inr p"
    "fragment_parts e pointer (Suc order) (int (length (pre @ af_content f))) fs = Inr qs" "ps = p # qs"
    unfolding fragment_parts.simps Let_def stop by (auto simp only: rbind_Inr_iff sum.inject)
  note head = history_partD [OF p(1)] and tail = Cons.IH [OF p(2)]
  have "slice (pre @ fragments_text (f # fs)) (int (length pre)) (int (length (pre @ af_content f))) = af_content f"
    by (simp add: slice_def fragments_text_def)
  moreover have "(pre @ af_content f) @ fragments_text fs = pre @ fragments_text (f # fs)"
    by (simp add: fragments_text_def)
  moreover have "[order..<order + length ps] = order # [Suc order..<Suc order + length qs]"
    by (simp add: p(3) upt_rec)
  ultimately show ?case using head tail by (simp add: p(3))
qed

lemma event_parts_exact:
  assumes "event_parts e pointer order fs = Inr ps"
  shows "ps \<noteq> [] \<and> concat (map rp_content ps) = fragments_text fs \<and> map rp_order ps = map int [order..<order + length ps] \<and>
    (\<forall>p\<in>set ps. rp_participation p = PartIncluded \<and> rp_pointer p = Some pointer \<and>
       (\<exists>a b. rp_text_span p = Some (a, b) \<and> slice (fragments_text fs) a b = rp_content p))"
proof (cases "fs = []")
  case True
  then obtain p where p: "history_part e (u ''empty-body'') order UntrustedData pointer (0, 0) [] (th_sources e) = Inr p"
    "ps = [p]" using assms by (auto simp: event_parts_def rbind_Inr_iff)
  from history_partD [OF p(1)] show ?thesis by (simp add: p(2) True fragments_text_def slice_def)
next
  case False
  then have "fragment_parts e pointer order (int (length ([] :: pystr))) fs = Inr ps"
    using assms by (simp add: event_parts_def)
  from fragment_parts_exact [OF this] show ?thesis
    using False by (auto simp: fragments_text_def dest: arg_cong [where f = length] arg_cong [where f = concat])
qed

lemma event_block_text:
  assumes "event_block renderer i fs = Inr (content, gs)"
  shows "fragments_text gs = content" "\<exists>before after. content = before @ fragments_text fs @ after"
proof -
  have "fragments_text gs = content \<and> (\<exists>before after. content = before @ fragments_text fs @ after)"
  proof (cases renderer)
    case None
    with assms have "content = [] @ fragments_text fs @ []" "gs = fs" by (auto simp: event_block_def fragments_text_def)
    then show ?thesis by (metis append_Nil append_Nil2)
  next
    case (Some r)
    with assms have w: "wrap_block r (u ''tool_history.event.'' @ nat_str i) (pieces_from_fragments fs) = Inr (content, gs)"
      by (simp add: event_block_def)
    have "concat (map px_content (pieces_from_fragments fs)) = fragments_text fs"
      by (simp add: pieces_from_fragments_def fragments_text_def comp_def)
    with wrap_block_text [OF w] show ?thesis by metis
  qed
  then show "fragments_text gs = content" "\<exists>before after. content = before @ fragments_text fs @ after" by auto
qed

lemma body_within:
  assumes "body_fragments all = bodies_of entries" and "entry \<in> set entries"
  shows "\<exists>before after. fragments_text (filter (\<lambda>f. af_entry_id f = te_entry_id entry) all) =
    before @ te_body entry @ after"
proof (cases "te_body entry = []")
  case True
  then show ?thesis by auto
next
  case False
  with assms have "(te_entry_id entry, te_body entry) \<in> set (body_fragments all)" by (auto simp: bodies_of_def)
  then obtain f where "f \<in> set all" "af_entry_id f = te_entry_id entry" "af_content f = te_body entry"
    by (auto simp: body_fragments_def)
  then have "f \<in> set (filter (\<lambda>f. af_entry_id f = te_entry_id entry) all)" by simp
  then obtain xs ys where "filter (\<lambda>f. af_entry_id f = te_entry_id entry) all = xs @ f # ys" by (meson split_list)
  then show ?thesis using \<open>af_content f = te_body entry\<close> by (auto simp: fragments_text_def)
qed

lemma render_events_exact:
  assumes "render_events renderer all offset order index es = Inr (ms, ps)"
    and "\<And>e. e \<in> set es \<Longrightarrow> \<exists>before after. fragments_text (filter (\<lambda>f. af_entry_id f = th_event_id e) all) =
      before @ th_original_body e @ after"
  shows "\<exists>pss. ps = concat pss \<and> length ms = length es \<and> length pss = length es \<and>
    map rp_order ps = map int [order..<order + length ps] \<and>
    (\<forall>k<length es. history_block_exact (offset + index + k) (es ! k) (ms ! k) (pss ! k))"
  using assms
proof (induction es arbitrary: order index ms ps)
  case Nil
  then show ?case by (intro exI [of _ "[]"]) simp
next
  case (Cons e es)
  let ?fs = "filter (\<lambda>f. af_entry_id f = th_event_id e) all"
  from Cons.prems(1) obtain content gs m qs ms' rest where
    r: "event_block renderer index ?fs = Inr (content, gs)" "history_message e content = Inr m"
      "event_parts e (history_pointer (offset + index)) order gs = Inr qs"
      "render_events renderer all offset (order + length qs) (Suc index) es = Inr (ms', rest)"
      "ms = m # ms'" "ps = qs @ rest"
    by (auto simp: rbind_Inr_iff split: prod.splits)
  note block = event_block_text [OF r(1)] and parts = event_parts_exact [OF r(3)]
  have m: "ms_role m = th_role e" "ms_content m = content" "ms_trust m = UntrustedData"
    "ms_tool_call_id m = th_tool_call_id e" "ms_tool_calls m = map tool_call_dict (th_tool_calls e)"
    using r(2) by (auto simp: history_message_def validated_def split: if_splits)
  obtain b1 a1 where "content = b1 @ fragments_text ?fs @ a1" using block(2) by blast
  moreover obtain b2 a2 where "fragments_text ?fs = b2 @ th_original_body e @ a2" using Cons.prems(2) [of e] by auto
  ultimately have "content = (b1 @ b2) @ th_original_body e @ (a2 @ a1)" by simp
  then have body: "\<exists>before after. content = before @ th_original_body e @ after" by blast
  have first: "history_block_exact (offset + index) e m qs"
    using parts body by (simp add: history_block_exact_def m block(1))
  obtain pss where pss: "rest = concat pss" "length ms' = length es" "length pss = length es"
    "map rp_order rest = map int [order + length qs..<order + length qs + length rest]"
    "\<forall>k<length es. history_block_exact (offset + Suc index + k) (es ! k) (ms' ! k) (pss ! k)"
    using Cons.IH [OF r(4)] Cons.prems(2) by auto
  have "map rp_order ps = map int [order..<order + length ps]"
    using parts pss(4) unfolding r(6) length_append add.assoc [symmetric] map_append
    by (simp only: upt_add_eq_append [of order "order + length qs"] le_add1 map_append)
  moreover have "\<forall>k<length (e # es). history_block_exact (offset + index + k) ((e # es) ! k) (ms ! k) ((qs # pss) ! k)"
    using first pss(5) r(5) by (auto simp: nth_Cons split: nat.splits)
  ultimately show ?case using pss(1-3) r(5,6) by (intro exI [of _ "qs # pss"]) simp
qed

text \<open>
  C25. The tool history of a turn is rendered faithfully: the events become the messages that follow the
  request, one each and in order, with the event's role, call identifier and calls and a text that contains
  the event's body unchanged. The request parts continue the numbering of the base request without a gap, and
  those of an event spell out exactly the text of its message, each reading back from its own span at the
  message's place in the request.
\<close>

theorem tool_history_exact:
  assumes "temporal_policy_ok policy" and "render_tool_history events policy offset order renderer = Inr (ms, ps)"
  shows "\<exists>pss. ps = concat pss \<and> length ms = length events \<and> length pss = length events \<and>
    distinct (map th_event_id events) \<and> map rp_order ps = map int [order..<order + length ps] \<and>
    (\<forall>k<length events. history_block_exact (offset + k) (events ! k) (ms ! k) (pss ! k))"
proof -
  obtain entries h where r: "rmap history_entry events = Inr entries" "annotate_history entries policy [] = Inr h"
    "render_events renderer (ah_fragments h) offset order 0 events = Inr (ms, ps)"
    using assms(2) by (auto simp: render_tool_history_def rbind_Inr_iff)
  have all2: "list_all2 (\<lambda>e x. history_entry e = Inr x) events entries" using r(1) by (simp add: rmap_Inr_conv)
  have entry: "te_entry_id x = th_event_id e \<and> te_body x = th_original_body e \<and> temporal_entry_ok x"
    if "history_entry e = Inr x" for e x
    using that by (auto simp: history_entry_def rbind_Inr_iff validated_def split: if_splits)
  have ids: "map te_entry_id entries = map th_event_id events"
    using all2 entry by (auto simp: list_all2_conv_all_nth intro!: nth_equalityI)
  have ok: "list_all temporal_entry_ok entries"
    using all2 entry by (auto simp: list_all_length list_all2_conv_all_nth)
  have dist: "distinct (map te_entry_id entries)" using annotate_history_duplicates r(2) by fastforce
  from annotate_history_value [OF ok assms(1) dist, of "[]"] r(2)
  have bodies: "body_fragments (ah_fragments h) = bodies_of entries" by auto
  have "\<exists>before after. fragments_text (filter (\<lambda>f. af_entry_id f = th_event_id e) (ah_fragments h)) =
      before @ th_original_body e @ after" if event: "e \<in> set events" for e
  proof -
    obtain k where k: "k < length events" "e = events ! k" using event by (auto simp: in_set_conv_nth)
    with all2 have "history_entry e = Inr (entries ! k)" "entries ! k \<in> set entries"
      by (auto simp: list_all2_conv_all_nth)
    note here = this
    have "te_entry_id (entries ! k) = th_event_id e" "te_body (entries ! k) = th_original_body e"
      using entry [OF here(1)] by (simp_all only: k(2))
    with body_within [OF bodies here(2)] show ?thesis by (simp only:)
  qed
  from render_events_exact [OF r(3) this, simplified add_0_right]
  obtain pss where "ps = concat pss \<and> length ms = length events \<and> length pss = length events \<and>
    map rp_order ps = map int [order..<order + length ps] \<and>
    (\<forall>k<length events. history_block_exact (offset + k) (events ! k) (ms ! k) (pss ! k))" by blast
  moreover have "distinct (map th_event_id events)" using dist by (simp only: ids)
  ultimately show ?thesis by blast
qed

definition sample_event :: tool_history_event where
  "sample_event =
     \<lparr>th_event_id = u ''e'', th_kind = ToolResultEvent, th_occurred_at = Aware 0 0, th_original_body = u ''hi'',
      th_role = u ''tool'', th_tool_calls = [], th_tool_call_id = Some (u ''c''), th_sources = [sample_source]\<rparr>"

text \<open>Valid fragments always make valid parts.\<close>

lemma fragment_parts_total:
  "list_all fragment_ok fs \<Longrightarrow> pointer \<noteq> [] \<Longrightarrow> 0 \<le> cursor \<Longrightarrow> \<exists>ps. fragment_parts e pointer order cursor fs = Inr ps"
proof (induction fs arbitrary: order cursor)
  case Nil
  then show ?case by simp
next
  case (Cons f fs)
  then obtain ps where "fragment_parts e pointer (Suc order) (cursor + int (length (af_content f))) fs = Inr ps"
    by fastforce
  with Cons.prems show ?case
    by (simp add: Let_def history_part_def validated_def included_part_def request_part_ok_def fragment_ok_def)
qed

lemma sample_render_ok: "is_ok (render_tool_history [sample_event] sample_policy 3 5 None)"
proof -
  obtain x where x: "history_entry sample_event = Inr x"
    by (simp add: history_entry_def sample_event_def make_temporal_span_def validated_def temporal_entry_ok_def
        temporal_span_ok_def)
  then have ok: "temporal_entry_ok x" by (auto simp: history_entry_def rbind_Inr_iff validated_def split: if_splits)
  from annotate_history_value [of "[x]" sample_policy "[]"] ok sample_policy_ok
  obtain h where h: "annotate_history [x] sample_policy [] = Inr h" by auto
  define fs where "fs = filter (\<lambda>f. af_entry_id f = th_event_id sample_event) (ah_fragments h)"
  have "list_all fragment_ok fs"
    using annotate_history_located(1) [OF h] by (auto simp: fs_def located_def list_all_iff)
  from fragment_parts_total [OF this, of "history_pointer 3" 0 sample_event 5]
  obtain ps where "fragment_parts sample_event (history_pointer 3) 5 0 fs = Inr ps" by (auto simp: history_pointer_def)
  then have "\<exists>ps. event_parts sample_event (history_pointer 3) 5 fs = Inr ps"
    by (simp add: event_parts_def history_part_def validated_def included_part_def request_part_ok_def history_pointer_def
        sample_event_def)
  moreover have "\<exists>m. history_message sample_event (concat (map af_content fs)) = Inr m"
    by (simp add: history_message_def message_ok_def sample_event_def validated_def)
  ultimately show ?thesis
    using x h by (auto simp: render_tool_history_def event_block_def fs_def [symmetric])
qed

theorem tool_history_exact_witness:
  "\<exists>ms ps. render_tool_history [sample_event] sample_policy 3 5 None = Inr (ms, ps) \<and> length ms = 1 \<and>
     history_block_exact 3 sample_event (hd ms) ps"
proof -
  obtain ms ps where r: "render_tool_history [sample_event] sample_policy 3 5 None = Inr (ms, ps)"
    using sample_render_ok by (cases "render_tool_history [sample_event] sample_policy 3 5 None") auto
  from tool_history_exact [OF sample_policy_ok r] obtain pss where
    "ps = concat pss" "length ms = 1" "length pss = 1" "history_block_exact 3 sample_event (ms ! 0) (pss ! 0)" by auto
  then show ?thesis using r by (auto simp: length_Suc_conv)
qed

end
