(* ===== verification/Controller.thy ===== *)
theory Controller
  imports Tool_History Reset Estimation Tools
begin

text \<open>
  \<open>runtime/controller.py\<close>: one turn of the conversation. The state is the world of the memory stores and
  the state \<open>'p\<close> of everything else (the model behind its gateway, the output). The collaborators are fields
  of \<open>turn_ports\<close>: the model can only change \<open>'p\<close>, a tool and the curation service may change both. The
  identifiers and times a turn draws are the fields of \<open>turn_draws\<close>.
\<close>

subsection \<open>The controller\<close>

record 'p curation_port =
  cp_propose :: "(pystr \<Rightarrow> (world \<times> 'p, proposed_curation option) op) option"
  cp_curate :: "(world \<times> 'p, memory_document option) op"

record 'p turn_ports =
  cn_is_gateway :: bool
  cn_gateway :: "model_call_draft \<Rightarrow> ('p, completion_result) op"
  cn_provider :: "completion_request \<Rightarrow> ('p, completion_result) op"
  cn_tools :: "(tool_call \<Rightarrow> tool_execution_context \<Rightarrow> (world \<times> 'p, tool_result) op) option"
  cn_curation :: "'p curation_port option"
  cn_on_output :: "(pystr \<Rightarrow> ('p, unit) op) option"
  cn_debug_enabled :: bool
  cn_last_usage :: "'p \<Rightarrow> rat actual_usage option"

record 'p controller =
  cn_env :: memory_env
  cn_ports :: "'p turn_ports"
  cn_resolver :: state_resolver
  cn_assembler :: prompt_assembler
  cn_str_item :: "memory_item \<Rightarrow> pystr"
  cn_tables :: text_tables
  cn_max_tool_rounds :: int
  cn_budgets :: "(pystr \<times> int) list"
  cn_tool_definitions :: "jdict list"
  cn_transactional :: bool
  cn_policy :: "temporal_policy option"

definition controller_policy :: "temporal_policy option \<Rightarrow> prompt_assembler \<Rightarrow> temporal_policy option" where
  "controller_policy policy pa = (case policy of None \<Rightarrow> pa_policy pa | Some p \<Rightarrow> Some p)"

record turn_draws =
  dw_turn :: pystr
  dw_user :: pystr
  dw_tx :: pystr
  dw_flow :: pystr
  dw_call :: "nat \<Rightarrow> pystr"
  dw_assistant :: pystr
  dw_user_time :: py_datetime
  dw_assistant_time :: py_datetime
  dw_now :: int

definition on_world :: "(world, 'a) op \<Rightarrow> (world \<times> 'p, 'a) op" where
  "on_world m = (\<lambda>(w, p). case m w of (r, w') \<Rightarrow> (r, (w', p)))"

definition on_model :: "('p, 'a) op \<Rightarrow> (world \<times> 'p, 'a) op" where
  "on_model m = (\<lambda>(w, p). case m p of (r, p') \<Rightarrow> (r, (w, p')))"

text \<open>\<open>except: handle; raise\<close>.\<close>

definition on_error :: "('s, 'a) op \<Rightarrow> (exn \<Rightarrow> ('s, unit) op) \<Rightarrow> ('s, 'a) op" where
  "on_error m handler s =
     (case m s of (Inl e, s') \<Rightarrow> sbind (handler e) (\<lambda>_. sfail e) s' | (Inr x, s') \<Rightarrow> (Inr x, s'))"

definition discard_pending :: "memory_env \<Rightarrow> pystr option \<Rightarrow> (world, pystr option) op" where
  "discard_pending env expected w =
     sbind (slift (pending_turn (me_codec env) (w_segments w))) (\<lambda>pending.
     sbind (case pending of
              Some r \<Rightarrow> if me_has_store env then (\<lambda>w. (assert_pending_discardable env r w, w)) else sret ()
            | None \<Rightarrow> sret ()) (\<lambda>_.
     archive_discard_tail env expected)) w"

definition discard_rejected_turn :: "memory_env \<Rightarrow> bool \<Rightarrow> bool \<Rightarrow> pystr \<Rightarrow> (world, unit) op" where
  "discard_rejected_turn env uow resumed turn_id =
     (if uow then tx_discard env
      else if resumed then sbind (discard_pending env (Some turn_id)) (\<lambda>_. sret ())
      else sret ())"

subsection \<open>Beginning a turn\<close>

record turn_begin =
  tb_turn_id :: pystr
  tb_content :: pystr
  tb_user :: raw_record
  tb_uow :: bool
  tb_resumed :: bool
  tb_count :: nat
  tb_resolution :: state_resolution_result
  tb_revision :: pystr

definition capture :: "memory_env \<Rightarrow> int \<Rightarrow> pystr \<Rightarrow> (world, pre_turn_checkpoint) op" where
  "capture env now agent_state w =
     sbind (slift (read_all (me_codec env) (w_segments w))) (\<lambda>records.
     sbind (if me_has_store env then sbind (ls_load env now None) (\<lambda>d. sret (Some d)) else sret None) (\<lambda>document.
     slift (capture_checkpoint (cd_ser (me_codec env)) records document agent_state))) w"

definition begin_transaction ::
  "'p controller \<Rightarrow> turn_draws \<Rightarrow> nat \<Rightarrow> pystr \<Rightarrow> pystr \<Rightarrow> pystr \<Rightarrow> pystr \<Rightarrow> (world, raw_record) op"
where
  "begin_transaction c dw count turn_id content state_id revision =
     sbind (slift (create_raw_record (u ''rec-'' @ dw_user dw) (int count + 1) turn_id RoleUser content
              (dw_user_time dw) state_id revision)) (\<lambda>user.
     sbind (capture (cn_env c) (dw_now dw) state_id) (\<lambda>checkpoint.
     sbind (tx_begin (cn_env c) (dw_tx dw) checkpoint user) (\<lambda>_. sret user)))"

definition turn_start ::
  "'p controller \<Rightarrow> turn_draws \<Rightarrow> pystr \<Rightarrow> pystr option \<Rightarrow> bool \<Rightarrow> pystr \<Rightarrow> (world, turn_begin) op"
where
  "turn_start c dw content turn_id resume revision w =
     (let resolved = (if falsy turn_id then u ''turn-'' @ dw_turn dw else the turn_id)
      in sbind (slift (resolve_state (cn_resolver c) \<lparr>sx_turn_id = resolved, sx_untrusted_text = content\<rparr>)) (\<lambda>resolution.
         sbind (slift (read_all (me_codec (cn_env c)) (w_segments w))) (\<lambda>before.
         case filter (\<lambda>r. rr_turn_id r = resolved) before of
           [] \<Rightarrow>
             sbind (if cn_transactional c
                    then begin_transaction c dw (length before) resolved content (sn_state_id resolution) revision
                    else archive_append (cn_env c) RoleUser content resolved (sn_state_id resolution) revision None
                           (Some (dw_user_time dw)) (dw_user dw) 0) (\<lambda>user.
             sret \<lparr>tb_turn_id = resolved, tb_content = content, tb_user = user, tb_uow = cn_transactional c,
                   tb_resumed = resume, tb_count = length before, tb_resolution = resolution, tb_revision = revision\<rparr>)
         | user # others \<Rightarrow>
             if \<not> resume \<or> others \<noteq> [] \<or> rr_role user \<noteq> RoleUser
             then sfail (BaiError ''TURN_ALREADY_CONFIRMED'')
             else sret \<lparr>tb_turn_id = resolved, tb_content = rr_content user, tb_user = user, tb_uow = False,
                        tb_resumed = resume, tb_count = length before, tb_resolution = resolution,
                        tb_revision = revision\<rparr>)) w)"

subsection \<open>Failures inside a turn\<close>

definition keeps_input :: "exn \<Rightarrow> bool" where
  "keeps_input e \<longleftrightarrow>
     bai_retryable e \<or> startswith (bai_code e) ''PROVIDER_'' \<or> startswith (bai_code e) ''NETWORK_''"

text \<open>The handlers of both \<open>try\<close> blocks: what a failing turn leaves behind before the error is raised again.\<close>

definition fail_turn :: "'p controller \<Rightarrow> turn_draws \<Rightarrow> turn_begin \<Rightarrow> exn \<Rightarrow> (world, unit) op" where
  "fail_turn c dw tb e =
     (if is_turn_rejected e
      then discard_rejected_turn (cn_env c) (tb_uow tb) (tb_resumed tb) (tb_turn_id tb)
      else if is_bai e \<and> tb_uow tb \<and> keeps_input e
      then sbind (tx_pending (cn_env c) (u (bai_code e))) (\<lambda>_. tx_commit (cn_env c) (dw_now dw))
      else sret ())"

definition turn_curation ::
  "'p controller \<Rightarrow> turn_begin \<Rightarrow> (world \<times> 'p, memory_document option) op"
where
  "turn_curation c tb =
     (case cn_curation (cn_ports c) of
        None \<Rightarrow> sret None
      | Some service \<Rightarrow>
          (case (if tb_uow tb then cp_propose service else None) of
             Some ask \<Rightarrow> sbind (ask (tb_turn_id tb)) (\<lambda>proposal. sret (map_option pv_target proposal))
           | None \<Rightarrow> sbind (cp_curate service) (\<lambda>_. sret None)))"

subsection \<open>The context\<close>

definition controller_input ::
  "'p controller \<Rightarrow> turn_draws \<Rightarrow> turn_begin \<Rightarrow> raw_record list \<Rightarrow> memory_document option \<Rightarrow>
   assemble_input result"
where
  "controller_input c dw tb records document =
     (let base = \<lparr>ai_flow_id = u ''flow-'' @ dw_flow dw, ai_turn_id = tb_turn_id tb,
                  ai_config_revision = tb_revision tb, ai_state_resolution = tb_resolution tb,
                  ai_overview = OverviewText (u ''[]''), ai_long_items = [], ai_long_source_ids = [],
                  ai_recent = filter (\<lambda>r. rr_record_id r \<noteq> rr_record_id (tb_user tb)) records,
                  ai_current_record = Some (tb_user tb), ai_current_input = None, ai_all_records = None,
                  ai_curated_through = 0, ai_budgets = cn_budgets c, ai_projector = None\<rparr>
      in case document of
           None \<Rightarrow> Inr base
         | Some d \<Rightarrow>
             rbind (projector_from_records records) (\<lambda>projector.
             rbind (select_long_term (cn_tables c) (md_memories d) (tb_content tb)
                      (case dict_get (cn_budgets c) (u ''long_term_chars'') of None \<Rightarrow> 16384 | Some n \<Rightarrow> n)
                      (Some projector) (pa_policy (cn_assembler c)) (pa_renderer (cn_assembler c))) (\<lambda>selected.
             Inr (base\<lparr>ai_overview := OverviewModel (md_coverage_overview d),
                       ai_long_items := map MemoryModel selected,
                       ai_long_source_ids := map mi_memory_id selected,
                       ai_recent := filter (\<lambda>r. rr_global_sequence r > document_frontier d \<and>
                                               rr_record_id r \<noteq> rr_record_id (tb_user tb)) records,
                       ai_all_records := Some records, ai_curated_through := document_frontier d,
                       ai_projector := Some projector\<rparr>))))"

definition segment_message :: "prompt_segment \<Rightarrow> message result" where
  "segment_message s =
     validated message_ok
       \<lparr>ms_role = (if sg_trust s = TrustedInstruction then u ''system'' else u ''user''), ms_content = sg_content s,
        ms_trust = sg_trust s, ms_tool_call_id = None, ms_tool_calls = []\<rparr>"

definition turn_request ::
  "'p controller \<Rightarrow> turn_begin \<Rightarrow> assemble_input \<Rightarrow> (completion_request \<times> request_part list) result"
where
  "turn_request c tb inp =
     rbind (assemble (cn_str_item c) (cn_assembler c) inp) (\<lambda>context.
     rbind (rmap segment_message (pk_segments context)) (\<lambda>messages.
     rbind (context_parts (cn_assembler c) context) (\<lambda>parts.
     Inr (\<lparr>cq_flow_id = pk_flow_id context, cq_turn_id = tb_turn_id tb, cq_messages = messages,
           cq_tool_definitions = cn_tool_definitions c, cq_model_profile_id = u ''chat'',
           cq_deadline_seconds = None, cq_metadata = []\<rparr>, parts))))"

definition turn_context ::
  "'p controller \<Rightarrow> turn_draws \<Rightarrow> turn_begin \<Rightarrow> (world, completion_request \<times> request_part list) op"
where
  "turn_context c dw tb w =
     sbind (slift (read_all (me_codec (cn_env c)) (w_segments w))) (\<lambda>records.
     sbind (if me_has_store (cn_env c)
            then sbind (ls_load (cn_env c) (dw_now dw) (Some records)) (\<lambda>d. sret (Some d))
            else sret None) (\<lambda>document.
     slift (rbind (controller_input c dw tb records document) (turn_request c tb)))) w"

subsection \<open>Asking the model and running its tools\<close>

definition turn_draft ::
  "turn_draws \<Rightarrow> turn_begin \<Rightarrow> nat \<Rightarrow> completion_request \<Rightarrow> request_part list \<Rightarrow> pystr \<Rightarrow> model_call_draft"
where
  "turn_draft dw tb n request parts purpose =
     \<lparr>dr_call_id = u ''call-'' @ dw_call dw n, dr_turn_id = cq_turn_id request, dr_flow_id = cq_flow_id request,
      dr_call_sequence = 0, dr_purpose = purpose, dr_persona_id = Some (u ''chat''),
      dr_state_id = Some (sn_state_id (tb_resolution tb)), dr_config_revision = tb_revision tb,
      dr_model_profile_id = (if cq_model_profile_id request = [] then u ''chat'' else cq_model_profile_id request),
      dr_request = request, dr_parts = parts\<rparr>"

definition complete ::
  "'p controller \<Rightarrow> turn_draws \<Rightarrow> turn_begin \<Rightarrow> nat \<Rightarrow> completion_request \<Rightarrow> request_part list \<Rightarrow> pystr \<Rightarrow>
   ('p, completion_result) op"
where
  "complete c dw tb n request parts purpose =
     (if cn_is_gateway (cn_ports c)
      then sbind (slift (validated model_call_draft_ok (turn_draft dw tb n request parts purpose)))
             (cn_gateway (cn_ports c))
      else cn_provider (cn_ports c) request)"

text \<open>\<open>ToolCall.model_validate\<close>: exactly the three fields.\<close>

definition parse_tool_call :: "jdict \<Rightarrow> tool_call result" where
  "parse_tool_call d =
     (if \<not> fst ` set d \<subseteq> {u ''call_id'', u ''name'', u ''arguments''} then Inl ValidationExn
      else (case (dict_get d (u ''call_id''), dict_get d (u ''name''), dict_get d (u ''arguments'')) of
              (Some (JStr i), Some (JStr n), Some (JObj a)) \<Rightarrow>
                Inr \<lparr>tc_call_id = i, tc_name = n, tc_arguments = a\<rparr>
            | _ \<Rightarrow> Inl ValidationExn))"

definition runtime_source :: "pystr \<Rightarrow> pystr \<Rightarrow> pystr list \<Rightarrow> string \<Rightarrow> source_ref result" where
  "runtime_source source_id body entities producer =
     validated source_ref_ok
       \<lparr>sf_source_kind = SrcRuntime, sf_source_id = source_id, sf_path = None,
        sf_content_sha256 = Some (content_hash body), sf_revision = None, sf_entity_ids = entities,
        sf_producer = u producer\<rparr>"

definition call_batch_event :: "completion_result \<Rightarrow> tool_call list \<Rightarrow> tool_history_event result" where
  "call_batch_event result calls =
     (case (cr_accepted_at result, cr_origin_call_id result) of
        (Some accepted, Some origin) \<Rightarrow>
          rbind (runtime_source (u ''model-response:'' @ origin)
                   (canonical_json (JObj [(u ''text'', JStr (cr_text result)),
                      (u ''tool_calls'', JArr (map (\<lambda>x. JObj (tool_call_dict x)) calls))]))
                   (origin # map tc_call_id calls) ''model_call_gateway'') (\<lambda>source.
          validated tool_history_event_ok
            \<lparr>th_event_id = u ''tool-call-batch:'' @ origin, th_kind = ToolCallBatch, th_occurred_at = accepted,
             th_original_body = cr_text result, th_role = u ''assistant'', th_tool_calls = calls,
             th_tool_call_id = None, th_sources = [source]\<rparr>)
      | _ \<Rightarrow> Inl (BaiError ''TOOL_EVENT_TIME_MISSING''))"

definition tool_result_event :: "tool_call \<Rightarrow> tool_result \<Rightarrow> tool_history_event result" where
  "tool_result_event call result =
     (case (tr_completed_at result, tr_origin_id result) of
        (Some completed, Some origin) \<Rightarrow>
          (let body = canonical_json (dump_tool_result result)
           in rbind (runtime_source origin body [tc_call_id call, origin] ''tool_executor'') (\<lambda>source.
              validated tool_history_event_ok
                \<lparr>th_event_id = origin, th_kind = ToolResultEvent, th_occurred_at = completed,
                 th_original_body = body, th_role = u ''tool'', th_tool_calls = [],
                 th_tool_call_id = Some (tc_call_id call), th_sources = [source]\<rparr>))
      | _ \<Rightarrow> Inl (BaiError ''TOOL_EVENT_TIME_MISSING''))"

definition tool_context :: "turn_begin \<Rightarrow> completion_request \<Rightarrow> tool_execution_context" where
  "tool_context tb request =
     \<lparr>tx_flow_id = cq_flow_id request, tx_turn_id = tb_turn_id tb, tx_persona_id = u ''chat'',
      tx_state_id = sn_state_id (tb_resolution tb), tx_config_revision = tb_revision tb,
      tx_trigger_record_id = Some (rr_record_id (tb_user tb))\<rparr>"

text \<open>The calls of one answer, in order; \<open>seen\<close> are the identifiers of the whole turn.\<close>

fun run_calls ::
  "(tool_call \<Rightarrow> tool_execution_context \<Rightarrow> ('s, tool_result) op) \<Rightarrow> tool_execution_context \<Rightarrow>
   pystr list \<Rightarrow> tool_history_event list \<Rightarrow> tool_call list \<Rightarrow>
   ('s, pystr list \<times> tool_history_event list) op"
where
  "run_calls execute ctx seen events [] = sret (seen, events)"
| "run_calls execute ctx seen events (call # calls) =
     (if tc_call_id call \<in> set seen then sfail (BaiError ''TOOL_CALL_DUPLICATE'')
      else sbind (execute call ctx) (\<lambda>result.
           sbind (slift (tool_result_event call result)) (\<lambda>event.
           run_calls execute ctx (tc_call_id call # seen) (events @ [event]) calls)))"

definition tool_round ::
  "'p controller \<Rightarrow> turn_begin \<Rightarrow> completion_request \<Rightarrow> request_part list \<Rightarrow> completion_result \<Rightarrow>
   pystr list \<Rightarrow> tool_history_event list \<Rightarrow>
   (world \<times> 'p, completion_request \<times> request_part list \<times> pystr list \<times> tool_history_event list) op"
where
  "tool_round c tb base base_parts result seen events =
     (case cn_tools (cn_ports c) of
        None \<Rightarrow> sfail (BaiError ''TOOL_DISABLED'')
      | Some execute \<Rightarrow>
          if cr_accepted_at result = None \<or> cr_origin_call_id result = None
          then sfail (BaiError ''TOOL_EVENT_TIME_MISSING'')
          else sbind (slift (rbind (rmap parse_tool_call (cr_tool_calls result)) (\<lambda>calls.
                        rbind (call_batch_event result calls) (\<lambda>batch. Inr (calls, batch))))) (\<lambda>(calls, batch).
               sbind (run_calls execute (tool_context tb base) seen (events @ [batch]) calls) (\<lambda>(seen', events').
               case cn_policy c of
                 None \<Rightarrow> sfail (BaiError ''TEMPORAL_POLICY_MISSING'')
               | Some policy \<Rightarrow>
                   sbind (slift (render_tool_history events' policy (length (cq_messages base)) (length base_parts)
                            (pa_renderer (cn_assembler c)))) (\<lambda>(messages, parts).
                   sret (base\<lparr>cq_messages := cq_messages base @ messages\<rparr>, base_parts @ parts, seen', events')))))"

fun tool_rounds ::
  "'p controller \<Rightarrow> turn_draws \<Rightarrow> turn_begin \<Rightarrow> completion_request \<Rightarrow> request_part list \<Rightarrow> nat \<Rightarrow> nat \<Rightarrow>
   completion_result \<Rightarrow> pystr list \<Rightarrow> tool_history_event list \<Rightarrow> (world \<times> 'p, completion_result) op"
where
  "tool_rounds c dw tb base base_parts 0 n result seen events = sret result"
| "tool_rounds c dw tb base base_parts (Suc k) n result seen events =
     (if cr_tool_calls result = [] then sret result
      else sbind (tool_round c tb base base_parts result seen events) (\<lambda>(request, parts, seen', events').
           sbind (on_model (complete c dw tb n request parts (u ''tool_continuation''))) (\<lambda>result'.
           tool_rounds c dw tb base base_parts k (Suc n) result' seen' events')))"

definition turn_answer ::
  "'p controller \<Rightarrow> turn_draws \<Rightarrow> turn_begin \<Rightarrow> completion_request \<times> request_part list \<Rightarrow>
   (world \<times> 'p, completion_result) op"
where
  "turn_answer c dw tb = (\<lambda>(request, parts).
     sbind (on_model (complete c dw tb 0 request parts (u ''chat''))) (\<lambda>first.
     sbind (tool_rounds c dw tb request parts (nat (cn_max_tool_rounds c)) 1 first [] []) (\<lambda>result.
     if cr_tool_calls result \<noteq> [] then sfail (BaiError ''TOOL_ROUND_LIMIT'') else sret result)))"

subsection \<open>Publishing the answer\<close>

definition publish_turn ::
  "'p controller \<Rightarrow> turn_draws \<Rightarrow> turn_begin \<Rightarrow> memory_document option \<Rightarrow> pystr \<Rightarrow> (world, raw_record) op"
where
  "publish_turn c dw tb target answer =
     (if tb_uow tb
      then sbind (slift (create_raw_record (u ''rec-'' @ dw_assistant dw) (int (tb_count tb) + 2) (tb_turn_id tb)
                    RoleAssistant answer (dw_assistant_time dw) (sn_state_id (tb_resolution tb)) (tb_revision tb)))
             (\<lambda>assistant.
           sbind (tx_ready (cn_env c) assistant target) (\<lambda>_.
           sbind (tx_commit (cn_env c) (dw_now dw)) (\<lambda>_ w.
           sbind (slift (read_all (me_codec (cn_env c)) (w_segments w))) (\<lambda>records.
             case List.find (\<lambda>r. rr_record_id r = rr_record_id assistant) records of
               None \<Rightarrow> sfail (OtherExn ''StopIteration'')
             | Some r \<Rightarrow> sret r) w)))
      else archive_append (cn_env c) RoleAssistant answer (tb_turn_id tb) (sn_state_id (tb_resolution tb))
             (tb_revision tb) None (Some (dw_assistant_time dw)) (dw_assistant dw) 0)"

text \<open>\<open>f"{x:.1f}"\<close>, correctly rounded.\<close>

definition one_decimal :: "rat \<Rightarrow> pystr" where
  "one_decimal x =
     (let q = round_half_even (\<bar>x\<bar> * 10)
      in (if x < 0 then [45] else []) @ int_str (q div 10) @ [46] @ int_str (q mod 10))"

definition or_none :: "int option \<Rightarrow> pystr" where
  "or_none n = (case n of None \<Rightarrow> u ''None'' | Some i \<Rightarrow> int_str i)"

definition unknown_text :: pystr where
  "unknown_text = [26410, 30693]"

definition usage_line :: "rat actual_usage \<Rightarrow> pystr" where
  "usage_line a =
     (if au_status a = u ''actual''
      then [23454, 38469, 29992, 37327, 65306, 36755, 20837, 61] @ or_none (au_input a) @
           [65292, 36755, 20986, 61] @ or_none (au_output a) @
           [65292, 24635, 37327, 61] @ or_none (au_total a) @
           [65292, 21344, 27604, 61] @
           (case au_percent a of None \<Rightarrow> unknown_text | Some x \<Rightarrow> one_decimal x @ [37]) @
           [65292, 36755, 20837, 20272, 31639, 35823, 24046, 61] @
           (case au_estimation_error a of None \<Rightarrow> unknown_text | Some i \<Rightarrow> int_str i) @ [12290]
      else [23454, 38469, 29992, 37327, 65306, 19981, 21487, 29992, 65288] @
           (case au_reason a of None \<Rightarrow> u ''None'' | Some r \<Rightarrow> r) @ [65289])"

definition show_answer :: "'p turn_ports \<Rightarrow> pystr \<Rightarrow> ('p, unit) op" where
  "show_answer ports answer =
     (case cn_on_output ports of
        None \<Rightarrow> sret ()
      | Some output \<Rightarrow>
          sbind (output answer) (\<lambda>_ p.
            (case (if cn_debug_enabled ports then cn_last_usage ports p else None) of
               None \<Rightarrow> (Inr (), p)
             | Some a \<Rightarrow> output (usage_line a) p)))"

subsection \<open>A whole turn\<close>

definition run_turn ::
  "'p controller \<Rightarrow> turn_draws \<Rightarrow> pystr \<Rightarrow> pystr option \<Rightarrow> bool \<Rightarrow> pystr \<Rightarrow> (world \<times> 'p, pystr) op"
where
  "run_turn c dw content turn_id resume revision =
     sbind (on_world (turn_start c dw content turn_id resume revision)) (\<lambda>tb.
     sbind (on_error (turn_curation c tb) (\<lambda>e. on_world (fail_turn c dw tb e))) (\<lambda>target.
     sbind (on_world (turn_context c dw tb)) (\<lambda>prompt.
     sbind (on_error (turn_answer c dw tb prompt) (\<lambda>e. on_world (fail_turn c dw tb e))) (\<lambda>result.
     sbind (on_world (publish_turn c dw tb target (cr_text result))) (\<lambda>assistant.
     sbind (on_model (show_answer (cn_ports c) (rr_content assistant))) (\<lambda>_.
     sret (rr_content assistant)))))))"

subsection \<open>What a turn leaves alone\<close>

lemma on_world_apply [simp]: "on_world m (w, p) = (fst (m w), (snd (m w), p))"
  by (simp add: on_world_def split: prod.split)

lemma on_model_apply [simp]: "on_model m (w, p) = (fst (m p), (w, snd (m p)))"
  by (simp add: on_model_def split: prod.split)

text \<open>The archive and the journal of two worlds are the same.\<close>

definition same_store :: "world \<Rightarrow> world \<Rightarrow> bool" where
  "same_store w w' \<longleftrightarrow>
     w_segments w' = w_segments w \<and> w_journal w' = w_journal w \<and> w_private w' = w_private w"

lemma same_store_refl [simp]: "same_store w w"
  by (simp add: same_store_def)

lemma same_store_trans: "same_store w w1 \<Longrightarrow> same_store w1 w2 \<Longrightarrow> same_store w w2"
  by (simp add: same_store_def)

lemma keeps_archive_same: "keeps_archive m \<longleftrightarrow> (\<forall>w. same_store w (snd (m w)))"
  by (simp add: keeps_archive_def same_store_def)

definition keeps_store :: "(world \<times> 'p, 'a) op \<Rightarrow> bool" where
  "keeps_store m \<longleftrightarrow> (\<forall>s. same_store (fst s) (fst (snd (m s))))"

named_theorems keeps_both "operations of a turn that keep the archive and the journal"

lemma keeps_storeD: "keeps_store m \<Longrightarrow> m (w, p) = (r, (w', p')) \<Longrightarrow> same_store w w'"
  by (metis fst_conv keeps_store_def snd_conv)

lemma keeps_store_world [keeps_both]: "keeps_archive m \<Longrightarrow> keeps_store (on_world m)"
  by (simp add: keeps_store_def keeps_archive_same)

lemma keeps_store_model [keeps_both]: "keeps_store (on_model m)"
  by (simp add: keeps_store_def)

lemma keeps_store_basic [keeps_both]:
  "keeps_store (sret x)" "keeps_store (sfail e)" "keeps_store (slift r)"
  by (simp_all add: keeps_store_def)

lemma keeps_store_sbind [keeps_both]:
  assumes "keeps_store m" and "\<And>x. keeps_store (f x)"
  shows "keeps_store (sbind m f)"
proof -
  have "same_store (fst s) (fst (snd (sbind m f s)))" for s
  proof -
    obtain r s' where Pair: "m s = (r, s')" by (metis prod.collapse)
    with assms(1) have "same_store (fst s) (fst s')" unfolding keeps_store_def by (metis snd_conv)
    moreover have "same_store (fst s') (fst (snd (f x s')))" for x
      using assms(2) [of x] unfolding keeps_store_def by blast
    ultimately have "same_store (fst s) (fst (snd (f x s')))" for x by (blast intro: same_store_trans)
    with Pair \<open>same_store (fst s) (fst s')\<close> show ?thesis by (simp add: sbind_def split: sum.split)
  qed
  then show ?thesis by (simp add: keeps_store_def)
qed

text \<open>The collaborators: tools and curation write neither the archive nor the journal.\<close>

definition quiet_ports :: "'p turn_ports \<Rightarrow> bool" where
  "quiet_ports ports \<longleftrightarrow>
     (\<forall>execute. cn_tools ports = Some execute \<longrightarrow> (\<forall>call ctx. keeps_store (execute call ctx))) \<and>
     (\<forall>service. cn_curation ports = Some service \<longrightarrow>
        keeps_store (cp_curate service) \<and>
        (\<forall>ask. cp_propose service = Some ask \<longrightarrow> (\<forall>turn_id. keeps_store (ask turn_id))))"

lemma keeps_run_calls [keeps_both]:
  "(\<And>call ctx. keeps_store (execute call ctx)) \<Longrightarrow> keeps_store (run_calls execute ctx seen events calls)"
proof (induction calls arbitrary: seen events)
  case Nil
  then show ?case by (simp only: run_calls.simps keeps_both)
next
  case (Cons call calls)
  then show ?case unfolding run_calls.simps by (auto intro!: keeps_both simp del: sret_apply sfail_apply slift_apply)
qed

lemma keeps_tool_round [keeps_both]:
  assumes "quiet_ports (cn_ports c)"
  shows "keeps_store (tool_round c tb base parts result seen events)"
  using assms unfolding tool_round_def quiet_ports_def
  by (auto split: option.split prod.split intro!: keeps_both simp del: sret_apply sfail_apply slift_apply)

lemma keeps_tool_rounds [keeps_both]:
  "quiet_ports (cn_ports c) \<Longrightarrow> keeps_store (tool_rounds c dw tb base parts k n result seen events)"
proof (induction k arbitrary: n result seen events)
  case 0
  then show ?case by (simp only: tool_rounds.simps keeps_both)
next
  case (Suc k)
  then show ?case
    unfolding tool_rounds.simps
    by (auto split: prod.split intro!: keeps_both simp del: sret_apply sfail_apply slift_apply)
qed

lemma keeps_turn_answer: "quiet_ports (cn_ports c) \<Longrightarrow> keeps_store (turn_answer c dw tb prompt)"
  unfolding turn_answer_def by (cases prompt) (auto intro!: keeps_both simp del: sret_apply sfail_apply slift_apply)

lemma keeps_turn_curation:
  assumes "quiet_ports (cn_ports c)"
  shows "keeps_store (turn_curation c tb)"
  using assms unfolding turn_curation_def quiet_ports_def
  by (auto split: option.split if_splits intro!: keeps_both simp del: sret_apply sfail_apply slift_apply)

subsection \<open>The journal of a new turn\<close>

definition opened_journal :: "turn_draws \<Rightarrow> pre_turn_checkpoint \<Rightarrow> raw_record \<Rightarrow> turn_journal" where
  "opened_journal dw checkpoint user =
     \<lparr>tj_schema_version = 1, tj_state = Prepared, tj_transaction_id = u ''tx-'' @ dw_tx dw,
      tj_turn_id = rr_turn_id user, tj_checkpoint = checkpoint, tj_user = user, tj_failure_code = None,
      tj_assistant = None, tj_target = None, tj_target_sha256 = None\<rparr>"

text \<open>The journal text decodes to the journal it was written for.\<close>

definition codec_journal :: "memory_env \<Rightarrow> turn_journal \<Rightarrow> bool" where
  "codec_journal env j \<longleftrightarrow> cd_journal (me_codec env) (utf8 (journal_text env j)) = Some j"

lemma keeps_capture [keeps]: "keeps_archive (capture env now s)"
proof -
  have "keeps_archive (sbind (slift r) (\<lambda>records.
      sbind (if me_has_store env then sbind (ls_load env now None) (\<lambda>d. sret (Some d)) else sret None) (\<lambda>document.
      slift (capture_checkpoint (cd_ser (me_codec env)) records document s))))" for r
    by (cases "me_has_store env") (simp_all only: if_True if_False keeps)
  then show ?thesis by (simp add: keeps_archive_def capture_def)
qed

lemma capture_facts:
  assumes "capture env now s w = (Inr cp, w')" and "read_all (me_codec env) (w_segments w) = Inr rs"
  shows "pc_raw_sha256 cp = identity_hash rs" "same_store w w'"
proof -
  show "pc_raw_sha256 cp = identity_hash rs"
    using assms by (auto simp: capture_def capture_checkpoint_def sbind_Inr_iff validated_def split: if_splits)
  show "same_store w w'"
    using keeps_capture [of env now s] assms(1) unfolding keeps_archive_same by (metis snd_conv)
qed

lemma tx_begin_facts:
  assumes "tx_begin env (dw_tx dw) cp user w = (Inr (), w')"
  shows "w_journal w = None" "w_segments w' = w_segments w" "w_journal w' = Some (journal_text env (opened_journal dw cp user))"
    "w_private w'" "safe_text (journal_text env (opened_journal dw cp user))" "turn_journal_ok (opened_journal dw cp user)"
proof -
  from assms obtain none: "tx_load env False w = Inr None"
    and ok: "turn_journal_ok (opened_journal dw cp user)"
    and wr: "tx_write env (opened_journal dw cp user) w = (Inr (), w')"
    by (auto simp: tx_begin_def sbind_Inr_iff validated_def opened_journal_def split: if_splits)
  show "w_journal w = None" using none by (auto simp: tx_load_def split: option.splits if_splits)
  show "turn_journal_ok (opened_journal dw cp user)" by fact
  from wr show "w_segments w' = w_segments w" "w_journal w' = Some (journal_text env (opened_journal dw cp user))"
    "w_private w'" "safe_text (journal_text env (opened_journal dw cp user))"
    by (auto simp: tx_write_def sbind_Inr_iff durable_def split: if_splits)
qed

lemma turn_startD:
  assumes "turn_start c dw content turn_id resume revision w = (Inr tb, w1)" and "tb_uow tb"
  obtains rs cp w0 where "read_all (me_codec (cn_env c)) (w_segments w) = Inr rs" "cn_transactional c"
    "capture (cn_env c) (dw_now dw) (sn_state_id (tb_resolution tb)) w = (Inr cp, w0)"
    "tx_begin (cn_env c) (dw_tx dw) cp (tb_user tb) w0 = (Inr (), w1)"
    "create_raw_record (u ''rec-'' @ dw_user dw) (int (length rs) + 1) (tb_turn_id tb) RoleUser (tb_content tb)
       (dw_user_time dw) (sn_state_id (tb_resolution tb)) (tb_revision tb) = Inr (tb_user tb)"
    "tb_count tb = length rs" "tb_content tb = content" "tb_turn_id tb \<notin> rr_turn_id ` set rs"
proof -
  define resolved where "resolved = (if falsy turn_id then u ''turn-'' @ dw_turn dw else the turn_id)"
  obtain resolution rs where r: "resolve_state (cn_resolver c) \<lparr>sx_turn_id = resolved, sx_untrusted_text = content\<rparr> =
      Inr resolution" "read_all (me_codec (cn_env c)) (w_segments w) = Inr rs"
    using assms(1) by (auto simp: turn_start_def Let_def sbind_Inr_iff resolved_def)
  have fresh: "filter (\<lambda>r. rr_turn_id r = resolved) rs = []"
    using assms r by (auto simp: turn_start_def Let_def sbind_Inr_iff resolved_def [symmetric] split: list.splits if_splits)
  then have start: "begin_transaction c dw (length rs) resolved content (sn_state_id resolution) revision w =
      (Inr (tb_user tb), w1)" "cn_transactional c"
    "tb = \<lparr>tb_turn_id = resolved, tb_content = content, tb_user = tb_user tb, tb_uow = True, tb_resumed = resume,
       tb_count = length rs, tb_resolution = resolution, tb_revision = revision\<rparr>"
    using assms r by (auto simp: turn_start_def Let_def sbind_Inr_iff resolved_def [symmetric] split: if_splits)
  have fields: "tb_turn_id tb = resolved" "tb_content tb = content" "tb_resolution tb = resolution"
    "tb_revision tb = revision" "tb_count tb = length rs"
    by (subst start(3), simp)+
  obtain cp w0 where begun: "capture (cn_env c) (dw_now dw) (sn_state_id resolution) w = (Inr cp, w0)"
    "tx_begin (cn_env c) (dw_tx dw) cp (tb_user tb) w0 = (Inr (), w1)"
    "create_raw_record (u ''rec-'' @ dw_user dw) (int (length rs) + 1) resolved RoleUser content
       (dw_user_time dw) (sn_state_id resolution) revision = Inr (tb_user tb)"
    using start(1) by (auto simp: begin_transaction_def sbind_Inr_iff)
  have "resolved \<notin> rr_turn_id ` set rs" using fresh by (auto simp: filter_empty_conv)
  with r(2) start(2) begun fields show ?thesis by (intro that) simp_all
qed

lemma create_raw_record_fields:
  assumes "create_raw_record rid n tid role content time sid revision = Inr r"
  shows "rr_role r = role" "rr_content r = content" "rr_turn_id r = tid" "rr_record_id r = rid"
    "rr_global_sequence r = n" "raw_record_ok r"
  using assms by (auto simp: create_raw_record_def validated_def split: sum.splits if_splits)

text \<open>What a new turn has put on disk once it has begun.\<close>

lemma turn_start_facts:
  assumes "turn_start c dw content turn_id resume revision w = (Inr tb, w1)" and "tb_uow tb"
    and "capture (cn_env c) (dw_now dw) (sn_state_id (tb_resolution tb)) w = (Inr cp, w0)"
    and "codec_journal (cn_env c) (opened_journal dw cp (tb_user tb))"
    and "read_all (me_codec (cn_env c)) (w_segments w) = Inr rs"
  shows "w_journal w = None" "w_segments w1 = w_segments w" "w_private w1"
    "w_journal w1 = Some (journal_text (cn_env c) (opened_journal dw cp (tb_user tb)))"
    "tx_load (cn_env c) b w1 = Inr (Some (opened_journal dw cp (tb_user tb)))"
    "pc_raw_sha256 cp = identity_hash rs" "rr_role (tb_user tb) = RoleUser" "rr_content (tb_user tb) = content"
    "tb_count tb = length rs" "rr_turn_id (tb_user tb) = tb_turn_id tb"
proof -
  obtain rs' cp' w0' where s: "read_all (me_codec (cn_env c)) (w_segments w) = Inr rs'" "cn_transactional c"
    "capture (cn_env c) (dw_now dw) (sn_state_id (tb_resolution tb)) w = (Inr cp', w0')"
    "tx_begin (cn_env c) (dw_tx dw) cp' (tb_user tb) w0' = (Inr (), w1)"
    "create_raw_record (u ''rec-'' @ dw_user dw) (int (length rs') + 1) (tb_turn_id tb) RoleUser (tb_content tb)
       (dw_user_time dw) (sn_state_id (tb_resolution tb)) (tb_revision tb) = Inr (tb_user tb)"
    "tb_count tb = length rs'" "tb_content tb = content" "tb_turn_id tb \<notin> rr_turn_id ` set rs'"
    by (rule turn_startD [OF assms(1,2)])
  have eq: "rs' = rs" "cp' = cp" "w0' = w0" using s(1,3) assms(3,5) by simp_all
  note begun = tx_begin_facts [OF s(4)] and cap = capture_facts [OF assms(3,5)]
  show "w_journal w = None" "w_segments w1 = w_segments w" "w_private w1"
    "w_journal w1 = Some (journal_text (cn_env c) (opened_journal dw cp (tb_user tb)))"
    using begun cap(2) by (simp_all add: eq same_store_def)
  with begun assms(4) show "tx_load (cn_env c) b w1 = Inr (Some (opened_journal dw cp (tb_user tb)))"
    by (simp add: tx_load_iff codec_journal_def eq)
  show "pc_raw_sha256 cp = identity_hash rs" by (rule cap(1))
  show "rr_role (tb_user tb) = RoleUser" "rr_content (tb_user tb) = content" "rr_turn_id (tb_user tb) = tb_turn_id tb"
    using s(7) create_raw_record_fields [OF s(5)] by simp_all
  show "tb_count tb = length rs" using s(6) eq by simp
qed

lemma tx_load_same:
  "same_store w w' \<Longrightarrow> tx_load env b w' = tx_load env b w"
  by (rule tx_load_journal_only) (simp_all add: same_store_def)

subsection \<open>Failing turns\<close>

definition pending_journal :: "turn_journal \<Rightarrow> pystr \<Rightarrow> turn_journal" where
  "pending_journal j code = j\<lparr>tj_state := ReadyPending, tj_failure_code := Some code\<rparr>"

lemma discard_prepared:
  assumes "tx_load env True w = Inr (Some j)" and "tj_state j = Prepared" and "0 < w_budget w"
  shows "tx_discard env w = (Inr (), w\<lparr>w_journal := None, w_budget := w_budget w - 1\<rparr>)"
  using assms by (simp add: tx_discard_def tx_unlink_def durable_def)

lemma publish_pending:
  assumes load: "tx_load env True w = Inr (Some j)" "tj_state j = Prepared"
    and code: "code \<noteq> []" "list_all (\<lambda>c. \<not> is_space c) code"
    and stored: "safe_text (journal_text env (pending_journal j code))" "codec_journal env (pending_journal j code)"
    and archive: "read_all (me_codec env) (w_segments w) = Inr rs" "pc_raw_sha256 (tj_checkpoint j) = identity_hash rs"
      "publishable env rs (tj_user j)"
    and budget: "3 \<le> w_budget w"
  shows "\<exists>w'. sbind (tx_pending env code) (\<lambda>_. tx_commit env now) w = (Inr (), w') \<and> w_journal w' = None \<and>
    read_all (me_codec env) (w_segments w') = Inr (rs @ [tj_user j])"
proof -
  let ?j = "pending_journal j code"
  have ok: "turn_journal_ok j" "w_private w" using load(1) by (auto simp: tx_load_iff)
  then have role: "rr_role (tj_user j) = RoleUser" and jok: "turn_journal_ok ?j"
    using load(2) code(1) by (auto simp: turn_journal_ok_def pending_journal_def falsy_def)
  have fields: "tj_state ?j = ReadyPending" "tj_user ?j = tj_user j" "tj_checkpoint ?j = tj_checkpoint j"
    by (simp_all add: pending_journal_def)
  define w1 where "w1 = w\<lparr>w_journal := Some (journal_text env ?j), w_budget := w_budget w - 1\<rparr>"
  have w1: "w_segments w1 = w_segments w" "w_budget w1 = w_budget w - 1" by (simp_all add: w1_def)
  have pending: "tx_pending env code w = (Inr (), w1)"
    using load code stored(1) budget ok(2)
    by (simp add: tx_pending_def tx_write_def durable_def pending_journal_def w1_def)
  have load1: "tx_load env False w1 = Inr (Some ?j)"
    using ok(2) stored jok by (simp add: tx_load_iff w1_def codec_journal_def)
  have "rr_record_id (tj_user j) \<notin> rr_record_id ` set rs"
    using archive(3) by (auto simp: publishable_def next_record_ok_def)
  then have none: "List.find (\<lambda>x. rr_record_id x = rr_record_id (tj_user j)) rs = None"
    by (auto simp: find_None_iff image_iff)
  have "performs (append_journal_record env RoleUser (tj_user j)) w1
      [(put env (tj_user j) (w_segments w), w_yaml w1, w_last_valid w1, w_journal w1)] (tj_user j)"
    using performs_append [of env w1 rs "tj_user j" RoleUser] archive role by (simp add: w1_def)
  then obtain w2 where w2: "append_journal_record env RoleUser (tj_user j) w1 = (Inr (tj_user j), w2)"
    "files w2 = (put env (tj_user j) (w_segments w), w_yaml w1, w_last_valid w1, w_journal w1)"
    "w_budget w2 = w_budget w1 - 1"
    using budget by (auto simp: performs_def w1_def split: if_splits)
  have commit: "tx_commit env now w1 = (Inr (), w2\<lparr>w_journal := None, w_budget := w_budget w2 - 1\<rparr>)"
    using w2(1,3) none archive(1,2) budget
    by (simp add: tx_commit_def load1 append_pending_user_def sbind_def tx_unlink_def durable_def fields w1)
  have "read_all (me_codec env) (put env (tj_user j) (w_segments w)) = Inr (rs @ [tj_user j])"
    using archive(1,3) by (intro archive_log.contents_push) (auto simp: publishable_def)
  with w2(2) pending commit show ?thesis by (simp add: files_def)
qed

text \<open>The work of a turn that its handlers guard fails: curation or the answer, not the context in between.\<close>

definition work_fails ::
  "'p controller \<Rightarrow> turn_draws \<Rightarrow> turn_begin \<Rightarrow> world \<times> 'p \<Rightarrow> exn \<Rightarrow> world \<times> 'p \<Rightarrow> bool"
where
  "work_fails c dw tb s e s' \<longleftrightarrow>
     turn_curation c tb s = (Inl e, s') \<or>
     (\<exists>target s1 prompt s2. turn_curation c tb s = (Inr target, s1) \<and>
        on_world (turn_context c dw tb) s1 = (Inr prompt, s2) \<and> turn_answer c dw tb prompt s2 = (Inl e, s'))"

lemma keeps_turn_context [keeps]: "keeps_archive (turn_context c dw tb)"
proof -
  have "keeps_archive (sbind (slift r) (\<lambda>records.
      sbind (if me_has_store (cn_env c) then sbind (ls_load (cn_env c) (dw_now dw) (Some records)) (\<lambda>d. sret (Some d))
             else sret None) (\<lambda>document.
      slift (rbind (controller_input c dw tb records document) (turn_request c tb)))))" for r
    by (cases "me_has_store (cn_env c)") (simp_all only: if_True if_False keeps)
  then show ?thesis by (simp add: keeps_archive_def turn_context_def)
qed

lemma run_turn_work_fails:
  assumes "turn_start c dw content turn_id resume revision w = (Inr tb, w1)"
    and "work_fails c dw tb (w1, p) e (w2, p2)" and "fail_turn c dw tb e w2 = (r, w')"
  shows "run_turn c dw content turn_id resume revision (w, p) =
    (Inl (case r of Inl e' \<Rightarrow> e' | Inr _ \<Rightarrow> e), (w', p2))"
  using assms(2) unfolding work_fails_def
proof (elim disjE exE conjE)
  assume "turn_curation c tb (w1, p) = (Inl e, (w2, p2))"
  then show ?thesis
    using assms(1,3) by (simp add: run_turn_def sbind_def on_error_def split: sum.split)
next
  fix target s1 prompt s2
  assume "turn_curation c tb (w1, p) = (Inr target, s1)" "on_world (turn_context c dw tb) s1 = (Inr prompt, s2)"
    "turn_answer c dw tb prompt s2 = (Inl e, (w2, p2))"
  then show ?thesis
    using assms(1,3) by (simp add: run_turn_def sbind_def on_error_def split: sum.split)
qed

lemma work_fails_same:
  assumes "quiet_ports (cn_ports c)" and "work_fails c dw tb (w, p) e (w', p')"
  shows "same_store w w'"
  using assms(2) unfolding work_fails_def
proof (elim disjE exE conjE)
  assume "turn_curation c tb (w, p) = (Inl e, (w', p'))"
  then show ?thesis by (rule keeps_storeD [OF keeps_turn_curation [OF assms(1)]])
next
  fix target s1 prompt s2
  assume a: "turn_curation c tb (w, p) = (Inr target, s1)" "on_world (turn_context c dw tb) s1 = (Inr prompt, s2)"
    "turn_answer c dw tb prompt s2 = (Inl e, (w', p'))"
  obtain w1 p1 w2 p2 where s: "s1 = (w1, p1)" "s2 = (w2, p2)" by fastforce
  have "same_store w w1" using a(1) s keeps_storeD [OF keeps_turn_curation [OF assms(1)]] by blast
  moreover have "same_store w1 w2"
    using a(2) unfolding s by (rule keeps_storeD [OF keeps_store_world [OF keeps_turn_context]])
  moreover have "same_store w2 w'" using a(3) s keeps_storeD [OF keeps_turn_answer [OF assms(1)]] by blast
  ultimately show ?thesis by (blast intro: same_store_trans)
qed

text \<open>What a failed turn leaves behind, by the error: nothing, the input, or an undecided journal.\<close>

definition failed_turn_state :: "memory_env \<Rightarrow> exn \<Rightarrow> raw_record list \<Rightarrow> turn_journal \<Rightarrow> world \<Rightarrow> bool" where
  "failed_turn_state env e rs j w \<longleftrightarrow>
     (if is_turn_rejected e then read_all (me_codec env) (w_segments w) = Inr rs \<and> w_journal w = None
      else if is_bai e \<and> keeps_input e
      then read_all (me_codec env) (w_segments w) = Inr (rs @ [tj_user j]) \<and> w_journal w = None
      else read_all (me_codec env) (w_segments w) = Inr rs \<and> tx_load env True w = Inr (Some j))"

lemma fail_turn_outcome:
  assumes uow: "tb_uow tb" and load: "tx_load (cn_env c) True w = Inr (Some j)" "tj_state j = Prepared"
    and archive: "read_all (me_codec (cn_env c)) (w_segments w) = Inr rs"
      "pc_raw_sha256 (tj_checkpoint j) = identity_hash rs"
    and kept: "is_bai e \<Longrightarrow> keeps_input e \<Longrightarrow>
      publishable (cn_env c) rs (tj_user j) \<and> bai_code e \<noteq> [] \<and> list_all (\<lambda>x. \<not> is_space x) (u (bai_code e)) \<and>
      safe_text (journal_text (cn_env c) (pending_journal j (u (bai_code e)))) \<and>
      codec_journal (cn_env c) (pending_journal j (u (bai_code e)))"
    and budget: "3 \<le> w_budget w"
  shows "\<exists>w'. fail_turn c dw tb e w = (Inr (), w') \<and> failed_turn_state (cn_env c) e rs j w'"
proof (cases "is_turn_rejected e")
  case True
  have "tx_discard (cn_env c) w = (Inr (), w\<lparr>w_journal := None, w_budget := w_budget w - 1\<rparr>)"
    by (rule discard_prepared [OF load]) (use budget in simp)
  with True uow archive show ?thesis
    by (simp add: fail_turn_def discard_rejected_turn_def sbind_def failed_turn_state_def)
next
  case False
  show ?thesis
  proof (cases "is_bai e \<and> keeps_input e")
    case kept_error: True
    from kept [OF conjunct1 [OF kept_error] conjunct2 [OF kept_error]] have k: "publishable (cn_env c) rs (tj_user j)"
      "u (bai_code e) \<noteq> []" "list_all (\<lambda>x. \<not> is_space x) (u (bai_code e))"
      "safe_text (journal_text (cn_env c) (pending_journal j (u (bai_code e))))"
      "codec_journal (cn_env c) (pending_journal j (u (bai_code e)))" by (auto simp: u_def)
    from publish_pending [OF load k(2-5) archive k(1) budget] obtain w' where
      "sbind (tx_pending (cn_env c) (u (bai_code e))) (\<lambda>_. tx_commit (cn_env c) (dw_now dw)) w = (Inr (), w')"
      "w_journal w' = None" "read_all (me_codec (cn_env c)) (w_segments w') = Inr (rs @ [tj_user j])" by blast
    with False kept_error uow show ?thesis
      by (simp add: fail_turn_def failed_turn_state_def)
  next
    case other: False
    with False archive load show ?thesis by (auto simp: fail_turn_def failed_turn_state_def)
  qed
qed

subsection \<open>Published turns\<close>

definition ready_journal :: "memory_env \<Rightarrow> turn_journal \<Rightarrow> raw_record \<Rightarrow> memory_document option \<Rightarrow> turn_journal" where
  "ready_journal env j assistant target =
     j\<lparr>tj_state := ReadyToCommit, tj_assistant := Some assistant,
       tj_target := map_option (dump_document (cd_ser (me_codec env))) target,
       tj_target_sha256 := map_option (document_identity (cd_ser (me_codec env))) target\<rparr>"

text \<open>The world once the decision has been written.\<close>

definition decided_world :: "memory_env \<Rightarrow> turn_journal \<Rightarrow> world \<Rightarrow> world" where
  "decided_world env j w = w\<lparr>w_journal := Some (journal_text env j), w_budget := w_budget w - 1\<rparr>"

lemma tx_ready_writes:
  assumes "tx_load env True w = Inr (Some j)" and "tj_state j = Prepared" and "rr_turn_id a = tj_turn_id j"
    and "safe_text (journal_text env (ready_journal env j a target))" and "0 < w_budget w"
  shows "tx_ready env a target w = (Inr (), decided_world env (ready_journal env j a target) w)"
proof -
  have "w_private w" using assms(1) by (auto simp: tx_load_iff)
  with assms show ?thesis
    by (simp add: tx_ready_def tx_write_def durable_def ready_journal_def decided_world_def)
qed

lemma ready_journal_ok:
  assumes "turn_journal_ok j" and "rr_role a = RoleAssistant" and "rr_turn_id a = tj_turn_id j"
    and "rr_global_sequence a = rr_global_sequence (tj_user j) + 1" and "raw_record_ok a" and "tj_failure_code j = None"
  shows "turn_journal_ok (ready_journal env j a target)"
  using assms by (simp add: turn_journal_ok_def ready_journal_def)

text \<open>From the decision on, everything is a series of durable writes that ends in the published turn.\<close>

lemma commit_decided:
  assumes ready: "turn_ready env w j rs user a" and docs: "docs_ready env w j docs"
    and budget: "length docs + 2 \<le> w_budget w"
  shows "\<exists>w'. tx_commit env now w = (Inr (), w') \<and> w_journal w' = None \<and>
    (w_yaml w', w_last_valid w') = last docs \<and> read_all (me_codec env) (w_segments w') = Inr (rs @ [user, a])"
proof -
  let ?ph = "turn_phases env w user a docs"
  have ne: "docs \<noteq> []" and hd: "hd docs = (w_yaml w, w_last_valid w)" using docs_ready_hd [OF docs] by auto
  have len: "length ?ph = 3 + length docs" by (rule length_turn_phases [OF ne])
  have first: "files w = ?ph ! 0" using hd ne by (simp add: turn_phases_0)
  have "performs (tx_commit env now) w (drop (0 + 1) ?ph) ()"
    using docs len first unfolding docs_ready_def
    by (elim disjE exE; intro performs_tx_commit [OF ready]) auto
  then obtain w' where w': "tx_commit env now w = (Inr (), w')" "files w' = last (files w # tl ?ph)"
    using budget len by (auto simp: performs_def drop_Suc)
  have "files w # tl ?ph = ?ph" using first len by (cases ?ph) auto
  then have "files w' = last ?ph" using w'(2) by simp
  then show ?thesis
    using w'(1) turn_archive_contents(2) [of env "w_segments w" rs user a] ready
    by (simp add: turn_phases_last files_def turn_ready_def)
qed

lemma find_fresh: "\<forall>x\<in>set xs. \<not> P x \<Longrightarrow> List.find P (xs @ ys) = List.find P ys"
  by (induction xs) auto

lemma publish_turn_decided:
  assumes uow: "tb_uow tb" and load: "tx_load (cn_env c) True w = Inr (Some j)" "tj_state j = Prepared"
    and create: "create_raw_record (u ''rec-'' @ dw_assistant dw) (int (tb_count tb) + 2) (tb_turn_id tb) RoleAssistant
      answer (dw_assistant_time dw) (sn_state_id (tb_resolution tb)) (tb_revision tb) = Inr a"
    and turn: "tj_turn_id j = tb_turn_id tb"
    and safe: "safe_text (journal_text (cn_env c) (ready_journal (cn_env c) j a target))"
    and ready: "turn_ready (cn_env c) (decided_world (cn_env c) (ready_journal (cn_env c) j a target) w)
      (ready_journal (cn_env c) j a target) rs user a"
    and docs: "docs_ready (cn_env c) (decided_world (cn_env c) (ready_journal (cn_env c) j a target) w)
      (ready_journal (cn_env c) j a target) docs"
    and budget: "length docs + 3 \<le> w_budget w"
  shows "\<exists>w'. publish_turn c dw tb target answer w = (Inr a, w') \<and> w_journal w' = None \<and>
    (w_yaml w', w_last_valid w') = last docs \<and>
    read_all (me_codec (cn_env c)) (w_segments w') = Inr (rs @ [user, a])"
proof -
  let ?w = "decided_world (cn_env c) (ready_journal (cn_env c) j a target) w"
  have "rr_turn_id a = tj_turn_id j" using create_raw_record_fields [OF create] turn by simp
  then have written: "tx_ready (cn_env c) a target w = (Inr (), ?w)"
    using load safe budget by (intro tx_ready_writes) auto
  have "length docs + 2 \<le> w_budget ?w" using budget by (simp add: decided_world_def)
  from commit_decided [OF ready docs this] obtain w' where w': "tx_commit (cn_env c) (dw_now dw) ?w = (Inr (), w')"
    "w_journal w' = None" "(w_yaml w', w_last_valid w') = last docs"
    "read_all (me_codec (cn_env c)) (w_segments w') = Inr (rs @ [user, a])" by blast
  have "distinct (map rr_record_id (rs @ [user, a]))"
    using read_all_log_ok [OF w'(4)] by (simp add: log_ok_def)
  then have "List.find (\<lambda>r. rr_record_id r = rr_record_id a) (rs @ [user, a]) = Some a"
    by (subst find_fresh) (auto simp: image_iff)
  with uow create written w' show ?thesis
    by (simp add: publish_turn_def)
qed

end
