(* ===== verification/Turns.thy ===== *)
theory Turns
  imports Controller
begin

text \<open>
  The properties of whole turns (\<open>runtime/controller.py\<close>): what a published turn and a failed turn leave on
  disk, and what an undecided journal does to the rest of the session; with the controller at which they are
  instantiated.
\<close>

subsection \<open>Properties\<close>

text \<open>
  C4. What a failed turn leaves behind. A new turn has begun, and curation or the answer then fails with an
  error; the tools and the curation service write neither the archive nor the journal, and no durable write
  fails. Then that error is raised, and: a rejected turn is gone without a trace; after a retryable, provider
  or network error the archive holds the old records and the input, to be resumed; after any other error the
  archive is as before and the undecided journal stays.
\<close>

theorem failed_turn_outcome:
  assumes "turn_start c dw content turn_id resume revision w = (Inr tb, w1)" and "tb_uow tb"
    and "read_all (me_codec (cn_env c)) (w_segments w) = Inr rs"
    and "capture (cn_env c) (dw_now dw) (sn_state_id (tb_resolution tb)) w = (Inr cp, w0)"
    and "codec_journal (cn_env c) (opened_journal dw cp (tb_user tb))"
    and "quiet_ports (cn_ports c)" and "work_fails c dw tb (w1, p) e (w2, p2)" and "3 \<le> w_budget w2"
    and "is_bai e \<Longrightarrow> keeps_input e \<Longrightarrow>
      publishable (cn_env c) rs (tb_user tb) \<and> bai_code e \<noteq> [] \<and> list_all (\<lambda>x. \<not> is_space x) (u (bai_code e)) \<and>
      safe_text (journal_text (cn_env c) (pending_journal (opened_journal dw cp (tb_user tb)) (u (bai_code e)))) \<and>
      codec_journal (cn_env c) (pending_journal (opened_journal dw cp (tb_user tb)) (u (bai_code e)))"
  shows "\<exists>w'. run_turn c dw content turn_id resume revision (w, p) = (Inl e, (w', p2)) \<and>
    failed_turn_state (cn_env c) e rs (opened_journal dw cp (tb_user tb)) w'"
proof -
  let ?j = "opened_journal dw cp (tb_user tb)"
  note start = turn_start_facts [OF assms(1,2,4,5,3)]
  note same = work_fails_same [OF assms(6,7)]
  have load: "tx_load (cn_env c) True w2 = Inr (Some ?j)" using start(5) tx_load_same [OF same] by simp
  have archive: "read_all (me_codec (cn_env c)) (w_segments w2) = Inr rs" "pc_raw_sha256 (tj_checkpoint ?j) = identity_hash rs"
    using same start(2,6) assms(3) by (simp_all add: same_store_def opened_journal_def)
  have j: "tj_state ?j = Prepared" "tj_user ?j = tb_user tb" by (simp_all add: opened_journal_def)
  from fail_turn_outcome [OF assms(2) load j(1) archive _ assms(8), of e dw] assms(9) j(2)
  obtain w' where "fail_turn c dw tb e w2 = (Inr (), w')" "failed_turn_state (cn_env c) e rs ?j w'" by auto
  with run_turn_work_fails [OF assms(1,7)] show ?thesis by simp
qed

text \<open>A conversation: one turn after the other, none of them a resumed one, whatever the earlier ones raised.\<close>

fun run_turns ::
  "'p controller \<Rightarrow> (turn_draws \<times> pystr \<times> pystr option \<times> pystr) list \<Rightarrow> world \<times> 'p \<Rightarrow> pystr result list \<times> world \<times> 'p"
where
  "run_turns c [] s = ([], s)"
| "run_turns c ((dw, content, turn_id, revision) # turns) s =
     (case run_turn c dw content turn_id False revision s of
        (r, s') \<Rightarrow> (case run_turns c turns s' of (rs, s'') \<Rightarrow> (r # rs, s'')))"

lemma begin_refused:
  assumes "tx_load (cn_env c) b w = Inr (Some j)"
    and "begin_transaction c dw n turn_id content state_id revision w = (r, w')"
  shows "isl r \<and> same_store w w'"
proof -
  have open_journal: "isl (fst (tx_begin (cn_env c) uuid cp user w2)) \<and> snd (tx_begin (cn_env c) uuid cp user w2) = w2"
    if "same_store w w2" for uuid cp user w2
  proof -
    have "tx_load (cn_env c) False w2 = tx_load (cn_env c) False w" by (rule tx_load_same [OF that])
    also have "\<dots> = Inr (Some j)" using assms(1) by (auto simp: tx_load_def split: option.splits if_splits)
    finally show ?thesis by (simp add: tx_begin_def)
  qed
  show ?thesis
  proof (cases "create_raw_record (u ''rec-'' @ dw_user dw) (int n + 1) turn_id RoleUser content (dw_user_time dw)
      state_id revision")
    case (Inl e)
    then have "begin_transaction c dw n turn_id content state_id revision w = (Inl e, w)"
      by (simp add: begin_transaction_def)
    with assms(2) show ?thesis by auto
  next
    case (Inr user)
    obtain q w2 where cap: "capture (cn_env c) (dw_now dw) state_id w = (q, w2)" by (metis prod.collapse)
    with keeps_capture have same: "same_store w w2" unfolding keeps_archive_same by (metis snd_conv)
    have bg: "\<exists>e. tx_begin (cn_env c) (dw_tx dw) cp user w2 = (Inl e, w2)" for cp
      using open_journal [OF same, of "dw_tx dw" cp user] by (metis isl_def prod.collapse)
    show ?thesis
    proof (cases q)
      case q: (Inl e)
      with assms(2) Inr cap same show ?thesis by (auto simp: begin_transaction_def sbind_def)
    next
      case q: (Inr cp)
      obtain e where "tx_begin (cn_env c) (dw_tx dw) cp user w2 = (Inl e, w2)" using bg by blast
      with assms(2) Inr q cap same show ?thesis by (auto simp: begin_transaction_def sbind_def)
    qed
  qed
qed

lemma turn_start_refused:
  assumes "tx_load (cn_env c) b w = Inr (Some j)" and "cn_transactional c"
    and "turn_start c dw content turn_id False revision w = (r, w')"
  shows "isl r \<and> same_store w w'"
proof -
  define resolved where "resolved = (if falsy turn_id then u ''turn-'' @ dw_turn dw else the turn_id)"
  note def = turn_start_def Let_def resolved_def [symmetric]
  show ?thesis
  proof (cases "resolve_state (cn_resolver c) \<lparr>sx_turn_id = resolved, sx_untrusted_text = content\<rparr>")
    case (Inl e)
    with assms(3) show ?thesis by (auto simp: def)
  next
    case (Inr resolution)
    show ?thesis
    proof (cases "read_all (me_codec (cn_env c)) (w_segments w)")
      case (Inl e)
      with assms(3) \<open>resolve_state _ _ = _\<close> show ?thesis by (auto simp: def)
    next
      case read: (Inr rs)
      obtain q w2 where b: "begin_transaction c dw (length rs) resolved content (sn_state_id resolution) revision w = (q, w2)"
        by (metis prod.collapse)
      from begin_refused [OF assms(1) b] have "isl q" "same_store w w2" by auto
      with assms(2,3) Inr read b show ?thesis
        by (cases q; cases "filter (\<lambda>r. rr_turn_id r = resolved) rs") (auto simp: def sbind_def)
    qed
  qed
qed

lemma run_turn_refused:
  assumes "tx_load (cn_env c) b w = Inr (Some j)" and "cn_transactional c"
    and "run_turn c dw content turn_id False revision (w, p) = (r, (w', p'))"
  shows "isl r \<and> same_store w w' \<and> p' = p"
proof -
  obtain q w1 where start: "turn_start c dw content turn_id False revision w = (q, w1)" by (metis prod.collapse)
  from turn_start_refused [OF assms(1,2) start] obtain e where "q = Inl e" "same_store w w1" by (cases q) auto
  with assms(3) start show ?thesis by (auto simp: run_turn_def sbind_def)
qed

text \<open>
  C5. An undecided journal blocks the session. Once a turn has failed with an error that is neither a
  rejection nor retryable, its journal stays (see the previous property), and only a restart removes it: every
  later new turn of the same process fails before the model is asked, and archive and journal stay as they
  are.
\<close>

theorem open_journal_blocks_session:
  assumes "tx_load (cn_env c) True w = Inr (Some j)" and "cn_transactional c"
    and "run_turns c turns (w, p) = (rs, (w', p'))"
  shows "length rs = length turns \<and> (\<forall>r\<in>set rs. isl r) \<and> same_store w w' \<and> p' = p"
  using assms
proof (induction turns arbitrary: w rs)
  case Nil
  then show ?case by auto
next
  case (Cons turn turns)
  obtain dw content turn_id revision where turn: "turn = (dw, content, turn_id, revision)" by (cases turn) auto
  obtain r w1 p1 where first: "run_turn c dw content turn_id False revision (w, p) = (r, (w1, p1))"
    by (metis prod.collapse)
  note refused = run_turn_refused [OF Cons.prems(1,2) first]
  obtain rs' where rest: "run_turns c turns (w1, p) = (rs', (w', p'))" "rs = r # rs'"
    using Cons.prems(3) first refused by (auto simp: turn split: prod.splits)
  have "tx_load (cn_env c) True w1 = Inr (Some j)"
    using Cons.prems(1) tx_load_same refused by metis
  from Cons.IH [OF this Cons.prems(2) rest(1)] refused rest(2) show ?case
    by (auto intro: same_store_trans)
qed


subsection \<open>A sample controller\<close>

definition turn_checkpoint :: pre_turn_checkpoint where
  "turn_checkpoint =
     \<lparr>pc_raw_count = 0, pc_raw_tail_id = None, pc_raw_sha256 = identity_hash [], pc_long_term_revision = None,
      pc_long_term_sha256 = None, pc_agent_state = u ''s''\<rparr>"

definition turn_sample :: turn_draws where
  "turn_sample =
     \<lparr>dw_turn = sample_uuid 1, dw_user = sample_uuid 1, dw_tx = u ''x'', dw_flow = u ''f'', dw_call = (\<lambda>_. u ''c''),
      dw_assistant = sample_uuid 2, dw_user_time = Aware 0 0, dw_assistant_time = Aware 0 0, dw_now = 0\<rparr>"

definition sample_opened :: turn_journal where
  "sample_opened = opened_journal turn_sample turn_checkpoint sample_user"

definition sample_decided :: turn_journal where
  "sample_decided = sample_opened\<lparr>tj_state := ReadyToCommit, tj_assistant := Some sample_assistant\<rparr>"

definition sample_journal_text :: "turn_journal \<Rightarrow> pystr" where
  "sample_journal_text j = canonical_json (dump_journal sample_ser j) @ [10]"

definition turn_env :: memory_env where
  "turn_env =
     \<lparr>me_codec = sample_codec [sample_user, sample_assistant] (\<lambda>_. None) (\<lambda>_. None) (\<lambda>_ _. [])
        (\<lambda>t. List.find (\<lambda>j. utf8 (sample_journal_text j) = t) [sample_opened, sample_decided]),
      me_archive = sample_archive_config,
      me_store = \<lparr>sc_max_document_bytes = 10, sc_max_items = 10, sc_max_overview_chars = 100\<rparr>,
      me_has_store = False\<rparr>"

definition turn_world :: world where
  "turn_world = sample_world\<lparr>w_journal := None, w_budget := 9\<rparr>"

definition plain_assembler :: prompt_assembler where
  "plain_assembler =
     \<lparr>pa_base_persona = u ''be kind'', pa_state_personas = [], pa_base_asset = None, pa_state_assets = [],
      pa_policy = None, pa_renderer = None\<rparr>"

definition sample_answer :: completion_result where
  "sample_answer =
     \<lparr>cr_text = u ''yo'', cr_finish_reason = u ''stop'', cr_tool_calls = [], cr_usage = [],
      cr_usage_unavailable_reason = None, cr_accepted_at = None, cr_origin_call_id = None\<rparr>"

definition sample_controller :: "nat curation_port option \<Rightarrow> nat controller" where
  "sample_controller curation =
     \<lparr>cn_env = turn_env,
      cn_ports = \<lparr>cn_is_gateway = False, cn_gateway = (\<lambda>_ n. (Inr sample_answer, n)),
        cn_provider = (\<lambda>_ n. (Inr sample_answer, Suc n)), cn_tools = None, cn_curation = curation,
        cn_on_output = None, cn_debug_enabled = False, cn_last_usage = (\<lambda>_. None)\<rparr>,
      cn_resolver = \<lparr>rs_default = u ''s'', rs_states = [(u ''s'', \<lparr>as_state_id = u ''s'', as_ordered_persona_ids = [],
        as_enabled = True\<rparr>)], rs_selected = u ''s''\<rparr>,
      cn_assembler = plain_assembler, cn_str_item = (\<lambda>_. []),
      cn_tables = \<lparr>tt_word = (\<lambda>_. True), tt_casefold = (\<lambda>s. s)\<rparr>, cn_max_tool_rounds = 1, cn_budgets = [],
      cn_tool_definitions = [], cn_transactional = True, cn_policy = None\<rparr>"

lemma sample_controller_simps [simp]:
  "cn_env (sample_controller k) = turn_env" "cn_curation (cn_ports (sample_controller k)) = k"
  "cn_transactional (sample_controller k)" "cn_tools (cn_ports (sample_controller k)) = None"
  "cn_assembler (sample_controller k) = plain_assembler" "cn_on_output (cn_ports (sample_controller k)) = None"
  "\<not> cn_is_gateway (cn_ports (sample_controller k))"
  "cn_provider (cn_ports (sample_controller k)) = (\<lambda>_ n. (Inr sample_answer, Suc n))"
  by (simp_all add: sample_controller_def)

lemma turn_env_simps [simp]:
  "cd_ser (me_codec turn_env) = sample_ser" "\<not> me_has_store turn_env" "journal_text turn_env j = sample_journal_text j"
  "me_archive turn_env = sample_archive_config"
  by (simp_all add: turn_env_def sample_codec_def journal_text_def sample_journal_text_def)

lemma turn_env_records [simp]:
  "codec_record (me_codec turn_env) sample_user" "codec_record (me_codec turn_env) sample_assistant"
  by (simp_all add: turn_env_def sample_codec_record)

lemma turn_publishable:
  "publishable turn_env [] sample_user" "publishable turn_env [sample_user] sample_assistant"
proof -
  have "length (record_line (me_codec turn_env) r) \<le> sample_limit" if "r = sample_user \<or> r = sample_assistant" for r
    using that by (auto simp: record_line_def sample_limit_def)
  then show "publishable turn_env [] sample_user" "publishable turn_env [sample_user] sample_assistant"
    by (simp_all add: publishable_def safe_short sample_archive_config_def)
qed

lemma json_norm_length: "json_norm (JObj xs) = json_norm (JObj ys) \<Longrightarrow> length xs = length ys"
  by (auto simp: json_norm_obj dest: arg_cong [where f = length])

lemma sample_journal_texts: "sample_journal_text sample_opened \<noteq> sample_journal_text sample_decided"
proof
  assume "sample_journal_text sample_opened = sample_journal_text sample_decided"
  then have "json_norm (dump_journal sample_ser sample_opened) = json_norm (dump_journal sample_ser sample_decided)"
    unfolding sample_journal_text_def
    by (intro canonical_json_inj) (simp_all add: dump_journal_def dump_pre_turn_checkpoint_def sample_decided_def
        sample_opened_def opened_journal_def turn_checkpoint_def)
  then show False
    by (auto simp: dump_journal_def sample_decided_def sample_opened_def opened_journal_def turn_checkpoint_def
        dest!: json_norm_length)
qed

lemma turn_env_journals:
  "codec_journal turn_env sample_opened" "codec_journal turn_env sample_decided"
proof -
  have "cd_journal (me_codec turn_env) =
      (\<lambda>t. List.find (\<lambda>j. utf8 (sample_journal_text j) = t) [sample_opened, sample_decided])"
    by (simp only: turn_env_def sample_codec_def memory_env.simps codec.simps)
  then show "codec_journal turn_env sample_opened" "codec_journal turn_env sample_decided"
    using sample_journal_texts by (simp_all add: codec_journal_def)
qed

text \<open>A sufficient condition for a text to pass the guard, by the characters it lacks.\<close>

definition harmless :: "pystr \<Rightarrow> bool" where
  "harmless s \<longleftrightarrow> list_all (\<lambda>c. \<not> needs_escape c \<and> c \<noteq> 75) s \<and>
     (list_all (\<lambda>c. c \<noteq> 107) s \<or> list_all (\<lambda>c. c \<noteq> 45) s) \<and>
     (list_all (\<lambda>c. c \<noteq> 98 \<and> c \<noteq> 66) s \<or> list_all (\<lambda>c. c \<noteq> 114 \<and> c \<noteq> 82) s)"

lemma harmless_safe:
  assumes "harmless s"
  shows "safe_text (escaped s)"
proof -
  have "match_sk t = None" "match_akia t = None" "match_bearer t = None" if s: "s = p @ t" for p t
  proof -
    show "match_sk t = None" using assms s by (cases "match_sk t") (auto simp: harmless_def match_sk_iff u_Cons)
    show "match_akia t = None" using assms s by (cases "match_akia t") (auto simp: harmless_def match_akia_iff u_Cons)
    show "match_bearer t = None"
    proof (cases "match_bearer t")
      case (Some n)
      then obtain b r where b: "t = b @ r" "map ascii_lower b = u ''bearer''" by (auto simp: match_bearer_iff)
      then have "98 \<in> ascii_lower ` set b" "114 \<in> ascii_lower ` set b" by (simp_all flip: set_map add: u_Cons)
      then have "98 \<in> set b \<or> 66 \<in> set b" "114 \<in> set b \<or> 82 \<in> set b"
        by (auto simp: ascii_lower_def split: if_splits)
      with b s assms show ?thesis by (auto simp: harmless_def list_all_iff)
    qed
  qed
  then have "safe_text s" by (auto simp: safe_text_def no_match_iff)
  moreover have "escaped s = s" using assms by (intro escaped_plain) (auto simp: harmless_def list_all_iff)
  ultimately show ?thesis by simp
qed

lemma harmless_hash [simp]: "harmless (content_hash s)"
proof -
  have "list_all (\<lambda>c. \<not> needs_escape c \<and> c \<noteq> 107 \<and> c \<noteq> 75 \<and> c \<noteq> 114 \<and> c \<noteq> 82) (hexdigest bs)" for bs
    using hexdigest_hex [of bs] by (auto simp: list_all_iff is_hex_def needs_escape_def)
  then show ?thesis
    by (simp add: harmless_def content_hash_def content_hash_bytes_def u_Cons needs_escape_def list_all_iff)
qed

lemma sample_journals_safe: "safe_text (sample_journal_text sample_opened)" "safe_text (sample_journal_text sample_decided)"
proof -
  have safe: "safe_text (canonical_json (JObj kvs) @ [10])"
    if "json_no_float (JObj kvs)" "list_all harmless (json_strings (JObj kvs))" for kvs
  proof -
    obtain x where x: "canonical_json (JObj kvs) = x @ [125]" by (metis append_Cons canonical_json_obj)
    have "safe_text (canonical_json (JObj kvs))"
      using that harmless_safe by (auto simp: safe_canonical_json list_all_iff)
    then have "safe_text (x @ 125 # [])" by (simp only: x)
    then have "safe_text (x @ 125 # [10])"
      by (simp add: safe_text_separator json_separators safe_short)
    then show ?thesis by (simp add: x)
  qed
  note dump = dump_journal_def dump_pre_turn_checkpoint_def dump_raw_record_def sample_opened_def opened_journal_def
    turn_checkpoint_def sample_user_def sample_record_def sample_ser_def turn_sample_def identity_hash_def sample_decided_def
    sample_assistant_def
  have plain: "harmless (u ''rec'' @ 45 # sample_uuid n)" "harmless (u ''turn'' @ 45 # sample_uuid n)" if "n < 10" for n
    using that by (auto simp: harmless_def sample_uuid_def u_Cons needs_escape_def list_all_iff)
  show "safe_text (sample_journal_text sample_opened)"
    unfolding sample_journal_text_def dump_journal_def
    by (rule safe) (simp_all add: dump plain, simp_all add: harmless_def needs_escape_def u_Cons)
  show "safe_text (sample_journal_text sample_decided)"
    unfolding sample_journal_text_def dump_journal_def
    by (rule safe) (simp_all add: dump plain, simp_all add: harmless_def needs_escape_def u_Cons)
qed

definition sample_begin :: turn_begin where
  "sample_begin =
     \<lparr>tb_turn_id = u ''turn'' @ 45 # sample_uuid 1, tb_content = u ''hi'', tb_user = sample_user, tb_uow = True,
      tb_resumed = False, tb_count = 0,
      tb_resolution = \<lparr>sn_state_id = u ''s'', sn_ordered_persona_ids = [], sn_resolver_id = u ''static'',
        sn_resolver_version = u ''1'', sn_reason_code = u ''configured_default''\<rparr>,
      tb_revision = content_hash []\<rparr>"

definition begun_world :: world where
  "begun_world = turn_world\<lparr>w_journal := Some (sample_journal_text sample_opened), w_budget := 8\<rparr>"

lemma turn_world_simps [simp]:
  "w_segments turn_world = []" "w_journal turn_world = None" "w_private turn_world" "w_budget turn_world = 9"
  by (simp_all add: turn_world_def sample_world_def)

lemma begun_world_simps [simp]:
  "w_segments begun_world = []" "w_private begun_world" "w_budget begun_world = 8"
  "w_journal begun_world = Some (sample_journal_text sample_opened)"
  by (simp_all add: begun_world_def)

lemma sample_create:
  "create_raw_record (u ''rec-'' @ sample_uuid 1) 1 (u ''turn'' @ 45 # sample_uuid 1) RoleUser (u ''hi'') (Aware 0 0)
     (u ''s'') (content_hash []) = Inr sample_user"
  "create_raw_record (u ''rec-'' @ sample_uuid 2) 2 (u ''turn'' @ 45 # sample_uuid 1) RoleAssistant (u ''yo'') (Aware 0 0)
     (u ''s'') (content_hash []) = Inr sample_assistant"
  using sample_records_ok
  by (simp_all add: create_raw_record_def validated_def sample_user_def sample_assistant_def sample_record_def u_Cons)

lemma sample_capture: "capture turn_env now (u ''s'') turn_world = (Inr turn_checkpoint, turn_world)"
  by (simp add: capture_def capture_checkpoint_def validated_def pre_turn_checkpoint_ok_def turn_checkpoint_def)

lemma sample_opened_ok: "turn_journal_ok sample_opened"
  by (simp add: turn_journal_ok_def sample_opened_def opened_journal_def pre_turn_checkpoint_ok_def turn_checkpoint_def)

lemma tx_begin_opened:
  "tx_begin env (dw_tx dw) cp user w =
     sbind (slift (tx_load env False w)) (\<lambda>journal.
     if journal \<noteq> None then sfail (BaiError ''TURN_TRANSACTION_ACTIVE'')
     else if rr_role user \<noteq> RoleUser then sfail (BaiError ''TURN_TRANSACTION_INVALID'')
     else sbind (slift (validated turn_journal_ok (opened_journal dw cp user))) (tx_write env)) w"
  unfolding tx_begin_def opened_journal_def ..

lemma sample_start:
  "turn_start (sample_controller k) turn_sample (u ''hi'') None False (content_hash []) turn_world =
     (Inr sample_begin, begun_world)"
proof -
  have resolve: "resolve_state (cn_resolver (sample_controller k)) ctx = Inr (tb_resolution sample_begin)" for ctx
    by (simp add: sample_controller_def resolve_state_def validated_def state_resolution_result_ok_def sample_begin_def)
  have turn: "u ''turn-'' @ dw_turn turn_sample = tb_turn_id sample_begin" "sn_state_id (tb_resolution sample_begin) = u ''s''"
    by (simp_all add: turn_sample_def sample_begin_def u_Cons)
  have "begin_transaction (sample_controller k) turn_sample 0 (tb_turn_id sample_begin) (u ''hi'') (u ''s'')
      (content_hash []) turn_world = (Inr sample_user, begun_world)"
  proof -
    have "tx_begin turn_env (dw_tx turn_sample) turn_checkpoint sample_user turn_world = (Inr (), begun_world)"
      using sample_opened_ok sample_journals_safe(1) unfolding tx_begin_opened sample_opened_def [symmetric]
      by (simp add: tx_load_def validated_def tx_write_def durable_def begun_world_def)
    then show ?thesis
      using sample_create(1) sample_capture
      by (simp add: begin_transaction_def turn_sample_def sample_begin_def)
  qed
  then show ?thesis
    using resolve turn
    by (simp add: turn_start_def Let_def falsy_def) (simp add: sample_begin_def)
qed

text \<open>A curation service that refuses.\<close>

definition refusing_curation :: "exn \<Rightarrow> nat curation_port option" where
  "refusing_curation e = Some \<lparr>cp_propose = Some (\<lambda>_ s. (Inl e, s)), cp_curate = (\<lambda>s. (Inl e, s))\<rparr>"

lemma quiet_refusing: "quiet_ports (cn_ports (sample_controller (refusing_curation e)))"
  by (simp add: quiet_ports_def refusing_curation_def keeps_store_def)

lemma refusing_fails:
  "work_fails (sample_controller (refusing_curation e)) turn_sample sample_begin (begun_world, 0) e (begun_world, 0)"
  by (simp add: work_fails_def turn_curation_def refusing_curation_def sample_begin_def)

lemma sample_codecs:
  "codec_journal turn_env (opened_journal turn_sample turn_checkpoint (tb_user sample_begin))"
  using turn_env_journals by (simp add: sample_begin_def sample_opened_def)

lemma sample_begin_capture:
  "capture turn_env (dw_now turn_sample) (sn_state_id (tb_resolution sample_begin)) turn_world = (Inr turn_checkpoint, turn_world)"
  using sample_capture by (simp add: sample_begin_def)

theorem failed_turn_outcome_witness:
  "\<exists>w'. run_turn (sample_controller (refusing_curation (BaiError ''CURATION_BROKEN''))) turn_sample (u ''hi'') None False
       (content_hash []) (turn_world, 0) = (Inl (BaiError ''CURATION_BROKEN''), (w', 0)) \<and>
     read_all (me_codec turn_env) (w_segments w') = Inr [] \<and> tx_load turn_env True w' = Inr (Some sample_opened)"
proof -
  let ?c = "sample_controller (refusing_curation (BaiError ''CURATION_BROKEN''))"
  have e: "\<not> is_turn_rejected (BaiError ''CURATION_BROKEN'')" "\<not> keeps_input (BaiError ''CURATION_BROKEN'')"
    by (simp_all add: BaiError_def keeps_input_def startswith_def)
  have "\<exists>w'. run_turn ?c turn_sample (u ''hi'') None False (content_hash []) (turn_world, 0) =
      (Inl (BaiError ''CURATION_BROKEN''), (w', 0)) \<and>
    failed_turn_state (cn_env ?c) (BaiError ''CURATION_BROKEN'') [] (opened_journal turn_sample turn_checkpoint (tb_user sample_begin)) w'"
    by (rule failed_turn_outcome [OF sample_start _ _ _ _ quiet_refusing refusing_fails])
      (use e sample_codecs sample_begin_capture in \<open>simp_all add: read_all_def\<close>, simp_all add: sample_begin_def)
  then show ?thesis using e by (simp add: failed_turn_state_def sample_begin_def sample_opened_def)
qed

lemma begun_load: "tx_load turn_env True begun_world = Inr (Some sample_opened)"
  using turn_env_journals(1) sample_opened_ok sample_journals_safe(1) by (simp add: tx_load_iff codec_journal_def)

theorem open_journal_blocks_session_witness:
  "\<exists>r w'. run_turns (sample_controller None) [(turn_sample, u ''hi'', None, content_hash [])] (begun_world, 0) =
     ([r], (w', 0)) \<and> isl r \<and> w_journal w' = Some (sample_journal_text sample_opened)"
proof -
  let ?run = "run_turns (sample_controller None) [(turn_sample, u ''hi'', None, content_hash [])] (begun_world, 0)"
  obtain rs w' p' where run: "?run = (rs, (w', p'))" by (metis prod.collapse)
  from open_journal_blocks_session [where j = sample_opened, OF _ _ run] begun_load
  have "length rs = 1" "\<forall>r\<in>set rs. isl r" "same_store begun_world w'" "p' = 0" by auto
  then show ?thesis using run by (auto simp: length_Suc_conv same_store_def)
qed

lemma plain_prompt: "\<exists>prompt. turn_context (sample_controller None) turn_sample sample_begin begun_world = (Inr prompt, begun_world)"
proof -
  define inp where "inp = (case controller_input (sample_controller None) turn_sample sample_begin [] None of Inr i \<Rightarrow> i)"
  have inp: "controller_input (sample_controller None) turn_sample sample_begin [] None = Inr inp"
    by (simp add: inp_def controller_input_def Let_def)
  have pa: "pa_renderer plain_assembler = None" "pa_policy plain_assembler = None" "pa_state_personas plain_assembler = []"
    by (simp_all add: plain_assembler_def)
  have i: "ai_current_record inp = Some sample_user" "ai_all_records inp = None" "ai_recent inp = []"
    "ai_projector inp = None" "ai_overview inp = OverviewText (u ''[]'')" "ai_long_items inp = []"
    "ai_budgets inp = []" "ai_turn_id inp = rr_turn_id sample_user" "ai_state_resolution inp = tb_resolution sample_begin"
    "ai_current_input inp = None"
    by (simp_all add: inp_def controller_input_def Let_def sample_begin_def) (simp add: sample_controller_def)
  have "\<exists>src. current_source sample_user = Inr src"
    by (simp add: current_source_def validated_def source_ref_ok_def)
  then have "\<exists>ctx. assemble (\<lambda>_. []) plain_assembler inp = Inr ctx"
    by (auto simp: assemble_def check_current_input_def base_segment_def pa i checked_coverage_def memory_segments_def
        chosen_projector_def overview_history_def long_term_block_def recent_block_def untrusted_segment_def
        history_fragments_def limit_of_def check_budgets_def Let_def current_input_segment_def plain_segment_def
        required_segments_def current_segment_def sample_begin_def)
  then obtain ctx where ctx: "assemble (\<lambda>_. []) plain_assembler inp = Inr ctx" by blast
  have "\<exists>pss. context_parts plain_assembler ctx = Inr (concat pss)"
    using context_parts_exact [OF ctx] by (auto simp: plain_assembler_def)
  then obtain parts where parts: "context_parts plain_assembler ctx = Inr parts" by blast
  have "\<exists>ms. rmap segment_message (pk_segments ctx) = Inr ms" for ctx :: prompt_context
  proof -
    have "rmap segment_message ss = Inr (map (\<lambda>s. projr (segment_message s)) ss)" for ss
      by (rule rmap_total) (simp add: segment_message_def validated_def message_ok_def)
    then show ?thesis by blast
  qed
  then obtain ms where "rmap segment_message (pk_segments ctx) = Inr ms" by blast
  then show ?thesis
    using inp ctx parts by (simp add: turn_context_def read_all_def turn_request_def) (simp add: sample_controller_def)
qed

lemma sample_answers:
  "turn_answer (sample_controller None) turn_sample sample_begin prompt (begun_world, 0) = (Inr sample_answer, (begun_world, 1))"
proof -
  have "nat (cn_max_tool_rounds (sample_controller None)) = Suc 0" by (simp add: sample_controller_def)
  then show ?thesis
    by (cases prompt) (simp add: turn_answer_def complete_def sample_answer_def sbind_def)
qed

lemma sample_ready:
  "ready_journal turn_env (opened_journal turn_sample turn_checkpoint (tb_user sample_begin)) sample_assistant None =
     sample_decided"
  by (simp add: ready_journal_def sample_decided_def sample_opened_def sample_begin_def)
    (simp add: opened_journal_def)


end
