(* ===== verification/Atomic_Files.thy ===== *)
theory Atomic_Files
  imports PyText "HOL-Library.List_Lexorder"
begin

text \<open>
  \<open>memory/recovery.py\<close>: the atomic replacement of a file and the writer's lease. A directory has entries and
  numbered files, each as a running program sees it and as the medium holds it. Every operation of the system
  takes one unit of the budget; without one the process is dead, and so are its \<open>finally\<close> blocks. The
  operations in \<open>dk_faulty\<close> raise \<open>OSError\<close>.
\<close>

subsection \<open>A directory\<close>

record disk =
  dk_entries :: "pystr \<Rightarrow> nat option"
  dk_durable :: "pystr \<Rightarrow> nat option"
  dk_content :: "nat \<Rightarrow> bytes"
  dk_synced :: "nat \<Rightarrow> bytes option"
  dk_stream :: bytes
  dk_next :: nat
  dk_budget :: nat
  dk_faulty :: "nat \<Rightarrow> bool"

definition syscall :: "(disk \<Rightarrow> disk) \<Rightarrow> (disk, unit) op" where
  "syscall f d =
     (if dk_budget d = 0 then (Inl Crash, d)
      else if dk_faulty d (dk_budget d) then (Inl OSExn, d\<lparr>dk_budget := dk_budget d - 1\<rparr>)
      else (Inr (), (f d)\<lparr>dk_budget := dk_budget d - 1\<rparr>))"

text \<open>\<open>mkstemp\<close> makes a new empty file, a stream keeps what is written until it is flushed.\<close>

definition make_temp :: "pystr \<Rightarrow> disk \<Rightarrow> disk" where
  "make_temp temp d =
     d\<lparr>dk_entries := (dk_entries d)(temp := Some (dk_next d)), dk_content := (dk_content d)(dk_next d := []),
       dk_synced := (dk_synced d)(dk_next d := None), dk_next := Suc (dk_next d), dk_stream := []\<rparr>"

definition write_stream :: "bytes \<Rightarrow> disk \<Rightarrow> disk" where
  "write_stream payload d = d\<lparr>dk_stream := dk_stream d @ payload\<rparr>"

definition flush_stream :: "nat \<Rightarrow> disk \<Rightarrow> disk" where
  "flush_stream i d =
     (if dk_stream d = [] then d
      else d\<lparr>dk_content := (dk_content d)(i := dk_content d i @ dk_stream d), dk_synced := (dk_synced d)(i := None),
             dk_stream := []\<rparr>)"

definition sync_file :: "nat \<Rightarrow> disk \<Rightarrow> disk" where
  "sync_file i d = d\<lparr>dk_synced := (dk_synced d)(i := Some (dk_content d i))\<rparr>"

definition replace_entry :: "pystr \<Rightarrow> pystr \<Rightarrow> disk \<Rightarrow> disk" where
  "replace_entry temp target d =
     d\<lparr>dk_entries := (dk_entries d)(target := dk_entries d temp, temp := None)\<rparr>"

definition sync_directory :: "disk \<Rightarrow> disk" where
  "sync_directory d = d\<lparr>dk_durable := dk_entries d\<rparr>"

definition unlink_entry :: "pystr \<Rightarrow> disk \<Rightarrow> disk" where
  "unlink_entry temp d = d\<lparr>dk_entries := (dk_entries d)(temp := None)\<rparr>"

lemmas disk_defs = make_temp_def write_stream_def flush_stream_def sync_file_def replace_entry_def
  sync_directory_def unlink_entry_def

subsection \<open>\<open>atomic_write\<close>\<close>

text \<open>\<open>try: m finally: c\<close>.\<close>

definition finally_op :: "('s, 'a) op \<Rightarrow> ('s, unit) op \<Rightarrow> ('s, 'a) op" where
  "finally_op m c s =
     (case m s of (r, s') \<Rightarrow> (case c s' of (Inl e, s'') \<Rightarrow> (Inl e, s'') | (Inr _, s'') \<Rightarrow> (r, s'')))"

text \<open>A failure hook may raise at each of its points.\<close>

definition call_hook :: "(string \<Rightarrow> exn option) option \<Rightarrow> string \<Rightarrow> (disk, unit) op" where
  "call_hook hook point =
     (case hook of None \<Rightarrow> sret () | Some h \<Rightarrow> (case h point of None \<Rightarrow> sret () | Some e \<Rightarrow> sfail e))"

definition temp_name :: "pystr \<Rightarrow> pystr \<Rightarrow> pystr" where
  "temp_name target random = [46] @ target @ [46] @ random @ u ''.tmp-atomic''"

definition remove_temp :: "(string \<Rightarrow> exn option) option \<Rightarrow> pystr \<Rightarrow> (disk, unit) op" where
  "remove_temp hook temp d =
     (if dk_entries d temp \<noteq> None \<and> hook = None then syscall (unlink_entry temp) d else (Inr (), d))"

definition write_temp :: "(string \<Rightarrow> exn option) option \<Rightarrow> nat \<Rightarrow> bytes \<Rightarrow> (disk, unit) op" where
  "write_temp hook i payload =
     finally_op
       (sbind (syscall (write_stream payload)) (\<lambda>_.
        sbind (call_hook hook ''written'') (\<lambda>_.
        sbind (syscall (flush_stream i)) (\<lambda>_.
        sbind (call_hook hook ''flushed'') (\<lambda>_.
        sbind (syscall (sync_file i)) (\<lambda>_.
        call_hook hook ''fsynced''))))))
       (syscall (flush_stream i))"

definition publish_temp ::
  "(string \<Rightarrow> exn option) option \<Rightarrow> pystr \<Rightarrow> pystr \<Rightarrow> (disk, unit) op"
where
  "publish_temp hook temp target =
     sbind (call_hook hook ''before_replace'') (\<lambda>_.
     sbind (syscall (replace_entry temp target)) (\<lambda>_.
     sbind (syscall sync_directory) (\<lambda>_.
     call_hook hook ''after_replace'')))"

definition atomic_write ::
  "(string \<Rightarrow> exn option) option \<Rightarrow> pystr \<Rightarrow> bytes \<Rightarrow> pystr \<Rightarrow> (disk, unit) op"
where
  "atomic_write hook random payload target d =
     sbind (syscall (make_temp (temp_name target random))) (\<lambda>_.
     sbind (call_hook hook ''temp_created'') (\<lambda>_.
     finally_op
       (sbind (write_temp hook (dk_next d) payload) (\<lambda>_. publish_temp hook (temp_name target random) target))
       (remove_temp hook (temp_name target random)))) d"

definition find_temporary_files :: "pystr list \<Rightarrow> pystr list" where
  "find_temporary_files names = sort (filter (\<lambda>n. endswith n (u ''.tmp-atomic'')) names)"

subsection \<open>The writer's lease\<close>

text \<open>\<open>FileLock\<close> is a third-party lock: the argument says whether it was got before its timeout.\<close>

record writer_lease =
  wl_acquired :: bool
  wl_held :: bool

definition lease_acquire :: "bool \<Rightarrow> (writer_lease, unit) op" where
  "lease_acquire granted l =
     (if granted then (Inr (), l\<lparr>wl_acquired := True, wl_held := True\<rparr>)
      else (Inl (BaiErrorRetryable ''WRITER_LOCKED''), l))"

definition lease_release :: "(writer_lease, unit) op" where
  "lease_release l = (Inr (), if wl_acquired l then l\<lparr>wl_acquired := False, wl_held := False\<rparr> else l)"

definition with_lease :: "bool \<Rightarrow> (writer_lease, 'a) op \<Rightarrow> (writer_lease, 'a) op" where
  "with_lease granted body = sbind (lease_acquire granted) (\<lambda>_. finally_op body lease_release)"

subsection \<open>All or nothing\<close>

definition file_of :: "disk \<Rightarrow> pystr \<Rightarrow> bytes option" where
  "file_of d name = map_option (dk_content d) (dk_entries d name)"

text \<open>
  After a power failure an entry is the one the medium had or the one the program saw, and a file has the
  content it was last flushed to the medium with, if that is still its content, and anything otherwise.
\<close>

definition after_power_loss :: "disk \<Rightarrow> disk \<Rightarrow> bool" where
  "after_power_loss d d' \<longleftrightarrow>
     (\<forall>name. dk_entries d' name \<in> {dk_entries d name, dk_durable d name}) \<and>
     (\<forall>i b. dk_synced d i = Some b \<longrightarrow> dk_content d' i = b)"

text \<open>A directory at rest: everything is on the medium, and no file has a number to come.\<close>

definition at_rest :: "disk \<Rightarrow> bool" where
  "at_rest d \<longleftrightarrow>
     dk_durable d = dk_entries d \<and>
     (\<forall>name i. dk_entries d name = Some i \<longrightarrow> i < dk_next d \<and> dk_synced d i = Some (dk_content d i))"

text \<open>Between the old and the new file: what a write has done to the other names and to the target.\<close>

definition between :: "disk \<Rightarrow> pystr \<Rightarrow> bytes \<Rightarrow> pystr \<Rightarrow> disk \<Rightarrow> bool" where
  "between d0 target payload temp d \<longleftrightarrow>
     (\<forall>i<dk_next d0. dk_content d i = dk_content d0 i \<and> dk_synced d i = dk_synced d0 i) \<and>
     (\<forall>name. name \<noteq> target \<and> name \<noteq> temp \<longrightarrow>
        dk_entries d name = dk_entries d0 name \<and> dk_durable d name = dk_durable d0 name) \<and>
     dk_entries d target \<in> {dk_entries d0 target, Some (dk_next d0)} \<and>
     dk_durable d target \<in> {dk_durable d0 target, Some (dk_next d0)} \<and>
     (Some (dk_next d0) \<in> {dk_entries d target, dk_durable d target} \<longrightarrow>
        dk_content d (dk_next d0) = payload \<and> dk_synced d (dk_next d0) = Some payload)"


text \<open>Every outcome and every state on the way satisfies its condition.\<close>

definition triple ::
  "(disk \<Rightarrow> bool) \<Rightarrow> (disk, 'a) op \<Rightarrow> ('a \<Rightarrow> disk \<Rightarrow> bool) \<Rightarrow> (disk \<Rightarrow> bool) \<Rightarrow> bool"
where
  "triple P m Q E \<longleftrightarrow> (\<forall>d. P d \<longrightarrow> (case m d of (Inl _, d') \<Rightarrow> E d' | (Inr x, d') \<Rightarrow> Q x d'))"

lemma tripleI:
  "(\<And>d e d'. P d \<Longrightarrow> m d = (Inl e, d') \<Longrightarrow> E d') \<Longrightarrow> (\<And>d x d'. P d \<Longrightarrow> m d = (Inr x, d') \<Longrightarrow> Q x d') \<Longrightarrow> triple P m Q E"
  by (simp add: triple_def split: prod.split sum.split)

lemma tripleD:
  assumes "triple P m Q E" and "P d"
  shows "m d = (Inl e, d') \<Longrightarrow> E d'" "m d = (Inr x, d') \<Longrightarrow> Q x d'"
  using assms unfolding triple_def by fastforce+

lemma triple_sbind:
  assumes m: "triple P m Q E" and f: "\<And>x. triple (Q x) (f x) R E"
  shows "triple P (sbind m f) R E"
proof (rule tripleI)
  fix d e d' assume d: "P d" and run: "sbind m f d = (Inl e, d')"
  then show "E d'"
    using tripleD [OF m d] tripleD [OF f] by (auto simp: sbind_def split: prod.splits sum.splits)
next
  fix d y d' assume d: "P d" and run: "sbind m f d = (Inr y, d')"
  then show "R y d'"
    using tripleD [OF m d] tripleD(2) [OF f] by (auto simp: sbind_def split: prod.splits sum.splits)
qed

lemma triple_finally:
  assumes m: "triple P m Q E" and c: "\<And>x. triple (Q x) c (\<lambda>_. R x) F" "triple E c (\<lambda>_. F) F"
  shows "triple P (finally_op m c) R F"
proof (rule tripleI)
  fix d e d' assume d: "P d" and run: "finally_op m c d = (Inl e, d')"
  obtain r d1 where r: "m d = (r, d1)" by fastforce
  show "F d'"
  proof (cases r)
    case (Inl e1)
    with run r tripleD(1) [OF m d] tripleD [OF c(2)] show ?thesis
      by (auto simp: finally_op_def split: prod.splits sum.splits)
  next
    case (Inr x)
    with run r tripleD(2) [OF m d] tripleD(1) [OF c(1)] show ?thesis
      by (auto simp: finally_op_def split: prod.splits sum.splits)
  qed
next
  fix d y d' assume d: "P d" and run: "finally_op m c d = (Inr y, d')"
  then show "R y d'"
    using tripleD(2) [OF m d] tripleD(2) [OF c(1)] by (auto simp: finally_op_def split: prod.splits sum.splits)
qed

lemma triple_weaken:
  assumes "triple P m Q E" and "\<And>d. P' d \<Longrightarrow> P d" and "\<And>x d. Q x d \<Longrightarrow> Q' x d" and "\<And>d. E d \<Longrightarrow> E' d"
  shows "triple P' m Q' E'"
  by (rule tripleI) (use assms tripleD [OF assms(1)] in blast)+

lemma triple_hook: "(\<And>d. P d \<Longrightarrow> E d) \<Longrightarrow> triple P (call_hook hook point) (\<lambda>_. P) E"
  by (auto simp: triple_def call_hook_def sret_def sfail_def split: option.splits)

lemma triple_syscall:
  assumes "\<And>d n. P d \<Longrightarrow> Q ((f d)\<lparr>dk_budget := n\<rparr>)" and "\<And>d n. P d \<Longrightarrow> E (d\<lparr>dk_budget := n\<rparr>)"
  shows "triple P (syscall f) (\<lambda>_. Q) E"
proof -
  have "E d" if "P d" for d using assms(2) [OF that, of "dk_budget d"] by simp
  with assms show ?thesis by (simp add: triple_def syscall_def)
qed


subsection \<open>The write, step by step\<close>

text \<open>Before the temporary file takes the target's place, and once it holds the whole payload.\<close>

definition untouched :: "disk \<Rightarrow> pystr \<Rightarrow> pystr \<Rightarrow> disk \<Rightarrow> bool" where
  "untouched d0 target temp d \<longleftrightarrow>
     (\<forall>i<dk_next d0. dk_content d i = dk_content d0 i \<and> dk_synced d i = dk_synced d0 i) \<and>
     (\<forall>name. name \<noteq> temp \<longrightarrow> dk_entries d name = dk_entries d0 name) \<and> dk_durable d = dk_durable d0 \<and>
     dk_entries d temp \<in> {None, Some (dk_next d0)} \<and> dk_next d = Suc (dk_next d0)"

definition staged :: "disk \<Rightarrow> pystr \<Rightarrow> bytes \<Rightarrow> pystr \<Rightarrow> disk \<Rightarrow> bool" where
  "staged d0 target payload temp d \<longleftrightarrow>
     untouched d0 target temp d \<and> dk_entries d temp = Some (dk_next d0) \<and> dk_stream d = [] \<and>
     dk_content d (dk_next d0) = payload \<and> dk_synced d (dk_next d0) = Some payload"

lemma temp_name_neq [simp]: "temp_name target random \<noteq> target" "target \<noteq> temp_name target random"
proof -
  have "length (temp_name target random) \<noteq> length target" by (simp add: temp_name_def)
  then show "temp_name target random \<noteq> target" "target \<noteq> temp_name target random" by metis+
qed

lemma write_temp_triple:
  assumes "temp \<noteq> target"
  shows "triple (\<lambda>d. untouched d0 target temp d \<and> dk_entries d temp = Some (dk_next d0) \<and> dk_stream d = [] \<and>
      dk_content d (dk_next d0) = []) (write_temp hook (dk_next d0) payload)
    (\<lambda>_. staged d0 target payload temp) (untouched d0 target temp)"
proof -
  let ?i = "dk_next d0"
  define U where "U = (\<lambda>stream content d. untouched d0 target temp d \<and> dk_entries d temp = Some ?i \<and>
    dk_stream d = stream \<and> dk_content d ?i = content)"
  let ?E = "untouched d0 target temp"
  have E: "U s c d \<Longrightarrow> ?E d" "staged d0 target payload temp d \<Longrightarrow> ?E d" for s c d
    by (simp_all add: U_def staged_def)
  have steps: "triple (U [] []) (syscall (write_stream payload)) (\<lambda>_. U payload []) ?E"
    "triple (U payload []) (syscall (flush_stream ?i)) (\<lambda>_. U [] payload) ?E"
    "triple (U [] payload) (syscall (sync_file ?i)) (\<lambda>_. staged d0 target payload temp) ?E"
    "triple (staged d0 target payload temp) (syscall (flush_stream ?i)) (\<lambda>_. staged d0 target payload temp) ?E"
    "triple ?E (syscall (flush_stream ?i)) (\<lambda>_. ?E) ?E"
    by (rule triple_syscall; auto simp: U_def staged_def untouched_def disk_defs)+
  have "triple (U [] []) (write_temp hook ?i payload) (\<lambda>_. staged d0 target payload temp) ?E"
    unfolding write_temp_def
    by (intro triple_finally [OF _ steps(4,5)] triple_sbind [OF steps(1)] triple_sbind [OF steps(2)]
        triple_sbind [OF steps(3)] triple_sbind [OF triple_hook] triple_hook E)
  then show ?thesis by (simp add: U_def)
qed

lemma publish_temp_triple:
  assumes "at_rest d0" and "temp \<noteq> target"
  shows "triple (staged d0 target payload temp) (publish_temp hook temp target)
    (\<lambda>_ d. between d0 target payload temp d \<and> dk_entries d target = Some (dk_next d0) \<and>
       dk_durable d = dk_entries d \<and> dk_entries d temp = None \<and> dk_next d = Suc (dk_next d0))
    (between d0 target payload temp)"
proof -
  let ?i = "dk_next d0" and ?B = "between d0 target payload temp"
  have rest: "dk_durable d0 = dk_entries d0" "dk_entries d0 target \<noteq> Some ?i"
    using assms(1) by (auto simp: at_rest_def)
  define R where "R = (\<lambda>d. ?B d \<and> dk_entries d target = Some ?i \<and> dk_entries d temp = None \<and>
    dk_next d = Suc ?i)"
  define S where "S = (\<lambda>d. ?B d \<and> dk_entries d target = Some ?i \<and> dk_durable d = dk_entries d \<and>
    dk_entries d temp = None \<and> dk_next d = Suc ?i)"
  have B: "staged d0 target payload temp d \<Longrightarrow> ?B d" "R d \<Longrightarrow> ?B d" "S d \<Longrightarrow> ?B d" for d
    using rest assms(2) by (auto simp: staged_def untouched_def between_def R_def S_def)
  have steps: "triple (staged d0 target payload temp) (syscall (replace_entry temp target)) (\<lambda>_. R) ?B"
    "triple R (syscall sync_directory) (\<lambda>_. S) ?B"
    using rest assms(2)
    by (rule_tac triple_syscall; auto simp: staged_def untouched_def between_def R_def S_def disk_defs)+
  have "triple (staged d0 target payload temp) (publish_temp hook temp target) (\<lambda>_. S) ?B"
    unfolding publish_temp_def
    by (intro triple_sbind [OF steps(1)] triple_sbind [OF steps(2)] triple_sbind [OF triple_hook] triple_hook B)
  then show ?thesis by (simp add: S_def)
qed

lemma remove_temp_triple:
  assumes "\<And>d n. P d \<Longrightarrow> P (d\<lparr>dk_budget := n\<rparr>)" and "\<And>d n. P d \<Longrightarrow> P ((unlink_entry temp d)\<lparr>dk_budget := n\<rparr>)"
  shows "triple P (remove_temp hook temp) (\<lambda>_ d. P d \<and> (hook = None \<longrightarrow> dk_entries d temp = None)) P"
proof -
  have "triple P (syscall (unlink_entry temp)) (\<lambda>_ d. P d \<and> dk_entries d temp = None) P"
    by (rule triple_syscall) (use assms in \<open>auto simp: unlink_entry_def\<close>)
  then show ?thesis
    by (auto simp: triple_def remove_temp_def split: prod.splits sum.splits)
qed


lemma atomic_write_triple:
  assumes "at_rest d0" and "dk_entries d0 (temp_name target random) = None"
    and "atomic_write hook random payload target d0 = (r, d')"
  shows "between d0 target payload (temp_name target random) d' \<and>
    (r = Inr () \<longrightarrow> dk_entries d' target = Some (dk_next d0) \<and> dk_durable d' = dk_entries d' \<and>
       dk_entries d' (temp_name target random) = None \<and> dk_next d' = Suc (dk_next d0))"
proof -
  let ?temp = "temp_name target random" and ?i = "dk_next d0"
  let ?B = "between d0 target payload ?temp"
  have rest: "dk_durable d0 = dk_entries d0" "dk_entries d0 target \<noteq> Some ?i"
    using assms(1) by (auto simp: at_rest_def)
  have U: "untouched d0 target ?temp d \<Longrightarrow> ?B d" for d
    using rest by (auto simp: untouched_def between_def)
  define P where "P = (\<lambda>d. untouched d0 target ?temp d \<and> dk_entries d ?temp = Some ?i \<and> dk_stream d = [] \<and>
    dk_content d ?i = [])"
  define S where "S = (\<lambda>d. ?B d \<and> dk_entries d target = Some ?i \<and> dk_durable d = dk_entries d \<and>
    dk_entries d ?temp = None \<and> dk_next d = Suc ?i)"
  have make: "triple (\<lambda>d. d = d0) (syscall (make_temp ?temp)) (\<lambda>_. P) ?B"
    by (rule triple_syscall) (use rest assms(2) in \<open>auto simp: P_def untouched_def between_def disk_defs\<close>)
  have "triple P (write_temp hook ?i payload) (\<lambda>_. staged d0 target payload ?temp) ?B"
    unfolding P_def by (rule triple_weaken [OF write_temp_triple]) (use U in simp_all)
  moreover have "triple (staged d0 target payload ?temp) (publish_temp hook ?temp target) (\<lambda>_. S) ?B"
    unfolding S_def by (rule publish_temp_triple [OF assms(1)]) simp
  ultimately have body: "triple P (sbind (write_temp hook ?i payload) (\<lambda>_. publish_temp hook ?temp target)) (\<lambda>_. S) ?B"
    by (rule triple_sbind)
  have gone: "triple S (remove_temp hook ?temp) (\<lambda>_. S) ?B"
    by (rule triple_weaken [OF remove_temp_triple [of S]]) (auto simp: S_def between_def unlink_entry_def)
  have cleaned: "triple ?B (remove_temp hook ?temp) (\<lambda>_. ?B) ?B"
    by (rule triple_weaken [OF remove_temp_triple [of ?B]]) (auto simp: between_def unlink_entry_def)
  define m where "m = sbind (syscall (make_temp ?temp)) (\<lambda>_. sbind (call_hook hook ''temp_created'') (\<lambda>_.
    finally_op (sbind (write_temp hook ?i payload) (\<lambda>_. publish_temp hook ?temp target)) (remove_temp hook ?temp)))"
  have P: "P d \<Longrightarrow> ?B d" for d using U by (simp add: P_def)
  have "triple (\<lambda>d. d = d0) m (\<lambda>_. S) ?B"
    unfolding m_def
    by (rule triple_sbind [OF make triple_sbind [OF triple_hook triple_finally [OF body gone cleaned]]]) (rule P)
  moreover have "m d0 = (r, d')" using assms(3) by (simp add: m_def atomic_write_def)
  ultimately show ?thesis
    using tripleD [of "\<lambda>d. d = d0" m "\<lambda>_. S" ?B d0] by (cases r) (auto simp: S_def)
qed

text \<open>
  C34. An atomic write is all or nothing. Starting from a directory at rest, however the write ends (every
  operation of the system may fail or be the last one the process makes, and a failure hook may raise
  anywhere), a reader finds the old or the new content, also after a power failure, and no other file but the
  temporary one is affected. When the write returns, the new content is there for good, the directory is at
  rest again and the temporary name is free.
\<close>

theorem atomic_write_all_or_nothing:
  assumes "at_rest d" and "dk_entries d (temp_name target random) = None"
    and "atomic_write hook random payload target d = (r, d')"
  shows "file_of d' target \<in> {file_of d target, Some payload} \<and>
    (\<forall>d''. after_power_loss d' d'' \<longrightarrow> file_of d'' target \<in> {file_of d target, Some payload}) \<and>
    (\<forall>name. name \<noteq> target \<and> name \<noteq> temp_name target random \<longrightarrow>
       file_of d' name = file_of d name \<and> (\<forall>d''. after_power_loss d' d'' \<longrightarrow> file_of d'' name = file_of d name)) \<and>
    (r = Inr () \<longrightarrow> file_of d' target = Some payload \<and>
       (\<forall>d''. after_power_loss d' d'' \<longrightarrow> file_of d'' target = Some payload) \<and>
       at_rest d' \<and> dk_entries d' (temp_name target random) = None)"
proof -
  let ?temp = "temp_name target random" and ?i = "dk_next d"
  note w = atomic_write_triple [OF assms]
  have rest: "dk_durable d = dk_entries d"
    "\<And>name i. dk_entries d name = Some i \<Longrightarrow> i < ?i \<and> dk_synced d i = Some (dk_content d i)"
    using assms(1) by (auto simp: at_rest_def)
  have old: "dk_content e i = dk_content d i" if "dk_entries d name = Some i" "after_power_loss d' e \<or> e = d'" for name i e
    using that rest(2) [OF that(1)] w by (auto simp: between_def after_power_loss_def)
  have new: "dk_content e ?i = payload" if "Some ?i \<in> {dk_entries d' target, dk_durable d' target}"
      "after_power_loss d' e \<or> e = d'" for e
    using that w by (auto simp: between_def after_power_loss_def)
  have same: "file_of e name = file_of d name" if "dk_entries e name = dk_entries d name" "after_power_loss d' e \<or> e = d'"
    for e name using that old [OF _ that(2)] by (auto simp: file_of_def map_option_case split: option.splits)
  have target: "file_of e target \<in> {file_of d target, Some payload}" if e: "after_power_loss d' e \<or> e = d'" for e
  proof -
    have "dk_entries e target \<in> {dk_entries d' target, dk_durable d' target}"
      using e by (auto simp: after_power_loss_def)
    then consider "dk_entries e target = dk_entries d target"
      | "dk_entries e target = Some ?i" "Some ?i \<in> {dk_entries d' target, dk_durable d' target}"
      using w rest(1) by (auto simp: between_def)
    then show ?thesis using same [OF _ e] new [OF _ e] by cases (auto simp: file_of_def)
  qed
  have others: "file_of e name = file_of d name" if "name \<noteq> target" "name \<noteq> ?temp" "after_power_loss d' e \<or> e = d'"
    for e name
  proof (rule same [OF _ that(3)])
    have "dk_entries d' name = dk_entries d name" "dk_durable d' name = dk_entries d name"
      using that(1,2) w rest(1) by (auto simp: between_def)
    moreover have "dk_entries e name \<in> {dk_entries d' name, dk_durable d' name}"
      using that(3) by (auto simp: after_power_loss_def)
    ultimately show "dk_entries e name = dk_entries d name" by simp
  qed
  have success: "file_of d' target = Some payload \<and> (\<forall>d''. after_power_loss d' d'' \<longrightarrow> file_of d'' target = Some payload) \<and>
      at_rest d' \<and> dk_entries d' ?temp = None" if "r = Inr ()"
  proof -
    have ends: "dk_entries d' target = Some ?i" "dk_durable d' = dk_entries d'" "dk_entries d' ?temp = None"
      "dk_next d' = Suc ?i" using w that by auto
    have "file_of e target = Some payload" if e: "after_power_loss d' e \<or> e = d'" for e
    proof -
      have "dk_entries e target = Some ?i" using e ends by (auto simp: after_power_loss_def)
      then show ?thesis using new [OF _ e] ends by (simp add: file_of_def)
    qed
    moreover have "j < dk_next d' \<and> dk_synced d' j = Some (dk_content d' j)" if j: "dk_entries d' name = Some j" for name j
    proof (cases "name = target")
      case True
      then show ?thesis using j ends w by (auto simp: between_def)
    next
      case False
      then have "dk_entries d name = Some j" using j ends(3) w by (cases "name = ?temp") (auto simp: between_def)
      from rest(2) [OF this] show ?thesis using w ends(4) by (auto simp: between_def)
    qed
    ultimately show ?thesis using ends by (auto simp: at_rest_def)
  qed
  from target others success show ?thesis by blast
qed

text \<open>A directory that holds one file.\<close>

definition sample_disk :: disk where
  "sample_disk =
     \<lparr>dk_entries = (\<lambda>n. if n = u ''a'' then Some 0 else None), dk_durable = (\<lambda>n. if n = u ''a'' then Some 0 else None),
      dk_content = (\<lambda>_. u ''old''), dk_synced = (\<lambda>_. Some (u ''old'')), dk_stream = [], dk_next = 1, dk_budget = 9,
      dk_faulty = (\<lambda>_. False)\<rparr>"

theorem atomic_write_all_or_nothing_witness:
  "\<exists>d. atomic_write None (u ''x'') (u ''new'') (u ''a'') sample_disk = (Inr (), d) \<and>
     file_of sample_disk (u ''a'') = Some (u ''old'') \<and> file_of d (u ''a'') = Some (u ''new'') \<and> at_rest d"
proof -
  have rest: "at_rest sample_disk" by (simp add: at_rest_def sample_disk_def)
  have fresh: "dk_entries sample_disk (temp_name (u ''a'') (u ''x'')) = None"
    by (simp add: sample_disk_def temp_name_def u_Cons)
  obtain r d where run: "atomic_write None (u ''x'') (u ''new'') (u ''a'') sample_disk = (r, d)" by fastforce
  then have "r = Inr ()"
    by (auto simp: atomic_write_def sbind_def syscall_def call_hook_def sret_def finally_op_def write_temp_def publish_temp_def
        remove_temp_def disk_defs sample_disk_def u_Cons)
  with atomic_write_all_or_nothing [OF rest fresh run] run show ?thesis
    by (simp add: file_of_def sample_disk_def)
qed

end
