(* ===== verification/Input.thy ===== *)
theory Input
  imports Codecs Runtime_Models
begin

text \<open>
  \<open>runtime/input_reader.py\<close>: standard input as the lines it delivers, and the reader that joins lines to one
  input action. The answers of the operating system (what a read returns, whether more is waiting) are
  arguments, in the order they are asked for; waiting for an answer that never comes ends in a cancellation.
\<close>

subsection \<open>\<open>decode("utf-8", errors="replace")\<close>\<close>

text \<open>The second byte a lead byte allows: no overlong form, no surrogate, nothing above the last code point.\<close>

definition second_byte :: "nat \<Rightarrow> nat \<Rightarrow> bool" where
  "second_byte a b \<longleftrightarrow>
     cont_byte b \<and> (a = 224 \<longrightarrow> 160 \<le> b) \<and> (a = 237 \<longrightarrow> b < 160) \<and> (a = 240 \<longrightarrow> 144 \<le> b) \<and> (a = 244 \<longrightarrow> b < 144)"

text \<open>One character; a malformed or cut sequence is one replacement character for what could have been its start.\<close>

definition decode_step :: "nat \<Rightarrow> bytes \<Rightarrow> nat \<times> bytes" where
  "decode_step a bs =
     (if a < 128 then (a, bs)
      else if 194 \<le> a \<and> a < 224 then
        (case bs of b # r \<Rightarrow> if cont_byte b then ((a - 192) * 64 + (b - 128), r) else (65533, bs) | [] \<Rightarrow> (65533, []))
      else if 224 \<le> a \<and> a < 240 then
        (case bs of [] \<Rightarrow> (65533, [])
         | b # r \<Rightarrow> if \<not> second_byte a b then (65533, bs)
            else (case r of [] \<Rightarrow> (65533, [])
                  | c # s \<Rightarrow> if cont_byte c then ((a - 224) * 4096 + (b - 128) * 64 + (c - 128), s) else (65533, r)))
      else if 240 \<le> a \<and> a < 245 then
        (case bs of [] \<Rightarrow> (65533, [])
         | b # r \<Rightarrow> if \<not> second_byte a b then (65533, bs)
            else (case r of [] \<Rightarrow> (65533, [])
                  | c # s \<Rightarrow> if \<not> cont_byte c then (65533, r)
                     else (case s of [] \<Rightarrow> (65533, [])
                           | d # t \<Rightarrow> if cont_byte d
                               then ((a - 240) * 262144 + (b - 128) * 4096 + (c - 128) * 64 + (d - 128), t)
                               else (65533, s))))
      else (65533, bs))"

lemma decode_step_shorter: "(c, r) = decode_step a bs \<Longrightarrow> length r \<le> length bs"
  by (auto simp: decode_step_def split: list.splits if_splits)

function decode_replace :: "bytes \<Rightarrow> pystr" where
  "decode_replace [] = []"
| "decode_replace (a # bs) = (case decode_step a bs of (c, r) \<Rightarrow> c # decode_replace r)"
  by pat_completeness auto
termination
  by (relation "measure length") (auto simp: less_Suc_eq_le dest: decode_step_shorter)

subsection \<open>Standard input\<close>

definition paste_start :: bytes where
  "paste_start = [27, 91, 50, 48, 48, 126]"

definition paste_end :: bytes where
  "paste_end = [27, 91, 50, 48, 49, 126]"

record stdin_source =
  ns_tty :: bool
  ns_buffer :: bytes
  ns_eof :: bool
  ns_paste :: bool

function strip_loop :: "bool \<Rightarrow> bytes \<Rightarrow> bytes \<times> bool" where
  "strip_loop paste buf =
     (if buf = [] then ([], paste)
      else if startswith buf paste_start then strip_loop True (drop (length paste_start) buf)
      else if startswith buf paste_end then strip_loop False (drop (length paste_end) buf)
      else (case strip_loop paste (tl buf) of (out, p) \<Rightarrow> (hd buf # out, p)))"
  by pat_completeness auto
termination
  by (relation "measure (\<lambda>(p, b). length b)") (auto simp: paste_start_def paste_end_def)

declare strip_loop.simps [simp del]

definition strip_markers :: "stdin_source \<Rightarrow> stdin_source" where
  "strip_markers s =
     (case strip_loop (ns_paste s) (ns_buffer s) of (out, p) \<Rightarrow> s\<lparr>ns_buffer := out, ns_paste := p\<rparr>)"

definition append_chunk :: "bytes \<Rightarrow> stdin_source \<Rightarrow> stdin_source" where
  "append_chunk chunk s = strip_markers (s\<lparr>ns_buffer := ns_buffer s @ chunk\<rparr>)"

text \<open>
  What ends one wait: bytes, the end of the file, a read that found nothing or raised, a pause that was
  resumed, or an event loop without readers, where a blocking \<open>readline\<close> takes over.
\<close>

datatype read_event = ReadChunk bytes | ReadEnd | ReadNothing | ReadFailed | ReadPaused | ReadBlocking pystr

fun take_line :: "bytes \<Rightarrow> (bytes \<times> bytes) option" where
  "take_line [] = None"
| "take_line (b # bs) =
     (if b = 10 then Some ([10], bs)
      else (case take_line bs of None \<Rightarrow> None | Some (line, rest) \<Rightarrow> Some (b # line, rest)))"

definition read_at_end :: "(stdin_source, pystr option) op" where
  "read_at_end s =
     (let s = strip_markers s
      in if ns_buffer s = [] then (Inr None, s)
         else (Inr (Some (decode_replace (ns_buffer s))), s\<lparr>ns_buffer := []\<rparr>))"

fun read_fd_line :: "read_event list \<Rightarrow> stdin_source \<Rightarrow> pystr option result \<times> read_event list \<times> stdin_source" where
  "read_fd_line es s =
     (case take_line (ns_buffer s) of
        Some (line, rest) \<Rightarrow> (Inr (Some (decode_replace line)), es, s\<lparr>ns_buffer := rest\<rparr>)
      | None \<Rightarrow>
          if ns_eof s then (case read_at_end s of (r, s') \<Rightarrow> (r, es, s'))
          else (case es of
                  [] \<Rightarrow> (Inl CancelledExn, [], s)
                | e # es' \<Rightarrow>
                    (case e of
                       ReadChunk chunk \<Rightarrow>
                         read_fd_line es' (if chunk = [] then s\<lparr>ns_eof := True\<rparr> else append_chunk chunk s)
                     | ReadEnd \<Rightarrow> read_fd_line es' (s\<lparr>ns_eof := True\<rparr>)
                     | ReadNothing \<Rightarrow> read_fd_line es' s
                     | ReadPaused \<Rightarrow> read_fd_line es' s
                     | ReadFailed \<Rightarrow> (Inl OSExn, es', s)
                     | ReadBlocking line \<Rightarrow> (Inr (if line = [] then None else Some line), es', s))))"

declare read_fd_line.simps [simp del]

definition source_buffered :: "bool \<Rightarrow> stdin_source \<Rightarrow> bool" where
  "source_buffered readable s \<longleftrightarrow> ns_buffer s \<noteq> [] \<or> ns_paste s \<or> readable"

subsection \<open>The reader\<close>

definition reader_emit :: "(conversation_action \<Rightarrow> ('s, unit) op) \<Rightarrow> pystr \<Rightarrow> pystr list \<Rightarrow> input_boundary \<Rightarrow> ('s, unit) op"
where
  "reader_emit on_action uuid lines boundary =
     sbind (slift (validated conversation_action_ok
       \<lparr>ca_action_id = u ''action-'' @ uuid, ca_lines = lines, ca_boundary = boundary\<rparr>)) on_action"

text \<open>
  The body of one pass, for the line that was read; \<open>waiting\<close> is what \<open>buffered\<close> answers. \<open>Inl\<close> when the reader
  returns, \<open>Inr\<close> the lines collected so far.
\<close>

definition reader_pass ::
  "(conversation_action \<Rightarrow> ('s, unit) op) \<Rightarrow> bool \<Rightarrow> pystr \<Rightarrow> pystr option \<Rightarrow> bool \<Rightarrow> pystr list \<Rightarrow>
   ('s, unit + pystr list) op"
where
  "reader_pass on_action tty uuid line waiting lines =
     (case line of
        None \<Rightarrow>
          sbind (if lines \<noteq> [] \<and> strip (concat lines) \<noteq> []
                 then reader_emit on_action uuid lines (if \<not> tty then PipeEof else BufferEmpty)
                 else sret ()) (\<lambda>_. sret (Inl ()))
      | Some l \<Rightarrow>
          (let lines = lines @ [rstrip_chars [13, 10] l]
           in if tty \<and> \<not> waiting
              then sbind (if strip (concat lines) \<noteq> [] then reader_emit on_action uuid lines BufferEmpty else sret ())
                     (\<lambda>_. sret (Inr []))
              else sret (Inr lines)))"


fun event_weight :: "read_event \<Rightarrow> nat" where
  "event_weight (ReadChunk c) = Suc (length c)"
| "event_weight _ = 1"

definition read_weight :: "read_event list \<Rightarrow> stdin_source \<Rightarrow> nat" where
  "read_weight es s = sum_list (map event_weight es) + length (ns_buffer s)"

lemma strip_loop_shorter: "length (fst (strip_loop paste buf)) \<le> length buf"
proof (induction paste buf rule: strip_loop.induct)
  case (1 paste buf)
  show ?case
  proof (cases "buf = [] \<or> startswith buf paste_start \<or> startswith buf paste_end")
    case True
    then show ?thesis using 1(1,2) by (subst strip_loop.simps) auto
  next
    case False
    then have "fst (strip_loop paste buf) = hd buf # fst (strip_loop paste (tl buf))"
      by (simp add: strip_loop.simps [of paste buf] split: prod.split)
    then show ?thesis using 1(3) False by (cases buf) auto
  qed
qed

lemma strip_markers_shorter: "length (ns_buffer (strip_markers s)) \<le> length (ns_buffer s)"
  using strip_loop_shorter [of "ns_paste s" "ns_buffer s"] by (auto simp: strip_markers_def split: prod.split)

lemma take_line_Some: "take_line bs = Some (line, rest) \<Longrightarrow> bs = line @ rest \<and> line \<noteq> []"
  by (induction bs arbitrary: line rest) (auto split: if_splits option.splits)

lemma read_fd_line_event:
  assumes "take_line (ns_buffer s) = None" and "\<not> ns_eof s"
  shows "read_fd_line [] s = (Inl CancelledExn, [], s)"
    "read_fd_line (ReadChunk c # es) s = read_fd_line es (if c = [] then s\<lparr>ns_eof := True\<rparr> else append_chunk c s)"
    "read_fd_line (ReadEnd # es) s = read_fd_line es (s\<lparr>ns_eof := True\<rparr>)"
    "read_fd_line (ReadNothing # es) s = read_fd_line es s" "read_fd_line (ReadPaused # es) s = read_fd_line es s"
    "read_fd_line (ReadFailed # es) s = (Inl OSExn, es, s)"
    "read_fd_line (ReadBlocking l # es) s = (Inr (if l = [] then None else Some l), es, s)"
  using assms by (simp_all add: read_fd_line.simps)

lemma read_fd_line_weight:
  "read_fd_line es s = (Inr (Some line), es', s') \<Longrightarrow> read_weight es' s' < read_weight es s"
proof (induction es s rule: read_fd_line.induct)
  case (1 es s)
  show ?case
  proof (cases "take_line (ns_buffer s)")
    case (Some x)
    then obtain l rest where "take_line (ns_buffer s) = Some (l, rest)" by (cases x) auto
    then show ?thesis using 1(5) take_line_Some [of "ns_buffer s" l rest]
      by (auto simp: read_fd_line.simps [of es s] read_weight_def)
  next
    case None
    show ?thesis
    proof (cases "ns_eof s")
      case True
      then show ?thesis using 1(5) None strip_markers_shorter [of s]
        by (auto simp: read_fd_line.simps [of es s] read_at_end_def read_weight_def Let_def split: if_splits)
    next
      case more: False
      show ?thesis
      proof (cases es)
        case Nil
        then show ?thesis using 1(5) None more by (auto simp: read_fd_line.simps [of "[]" s])
      next
        case (Cons e es1)
        have weight: "read_weight es1 (append_chunk c s) < read_weight (ReadChunk c # es1) s" for c
          using strip_markers_shorter [of "s\<lparr>ns_buffer := ns_buffer s @ c\<rparr>"]
          by (simp add: read_weight_def append_chunk_def)
        have eof: "read_weight es1 (s\<lparr>ns_eof := True\<rparr>) < read_weight (e # es1) s"
          "read_weight es1 s < read_weight (e # es1) s" for e
          by (cases e; simp add: read_weight_def)+
        note ev = read_fd_line_event [OF None more]
        show ?thesis
        proof (cases e)
          case (ReadChunk c)
          have "read_weight es' s' < read_weight es1 (if c = [] then s\<lparr>ns_eof := True\<rparr> else append_chunk c s)"
            by (rule 1(1) [OF None more Cons ReadChunk]) (use 1(5) Cons ReadChunk ev in simp)
          then show ?thesis using weight [of c] eof(1) [of e] Cons ReadChunk by (auto split: if_splits)
        next
          case ReadEnd
          have "read_weight es' s' < read_weight es1 (s\<lparr>ns_eof := True\<rparr>)"
            by (rule 1(2) [OF None more Cons ReadEnd]) (use 1(5) Cons ReadEnd ev in simp)
          then show ?thesis using eof(1) [of e] Cons by simp
        next
          case ReadNothing
          have "read_weight es' s' < read_weight es1 s"
            by (rule 1(3) [OF None more Cons ReadNothing]) (use 1(5) Cons ReadNothing ev in simp)
          then show ?thesis using eof(2) [of e] Cons by simp
        next
          case ReadPaused
          have "read_weight es' s' < read_weight es1 s"
            by (rule 1(4) [OF None more Cons ReadPaused]) (use 1(5) Cons ReadPaused ev in simp)
          then show ?thesis using eof(2) [of e] Cons by simp
        next
          case ReadFailed
          then show ?thesis using 1(5) Cons ev by simp
        next
          case (ReadBlocking l)
          then show ?thesis using 1(5) Cons ev eof(2) [of e] by (auto split: if_splits)
        qed
      qed
    qed
  qed
qed

lemma reader_pass_more: "(Inr (Inr lines'), s') = reader_pass on_action tty uuid line waiting lines s \<Longrightarrow> line \<noteq> None"
  by (cases line) (auto simp: reader_pass_def sbind_def sret_def split: prod.splits sum.splits)

function reader_loop ::
  "(conversation_action \<Rightarrow> ('s, unit) op) \<Rightarrow> (nat \<Rightarrow> pystr) \<Rightarrow> (nat \<Rightarrow> bool) \<Rightarrow> nat \<Rightarrow> read_event list \<Rightarrow>
   stdin_source \<Rightarrow> pystr list \<Rightarrow> ('s, unit) op"
where
  "reader_loop on_action uuids readable n es src lines s =
     (case read_fd_line es src of
        (Inl e, es', src') \<Rightarrow> (Inl e, s)
      | (Inr line, es', src') \<Rightarrow>
          (case reader_pass on_action (ns_tty src) (uuids n) line (source_buffered (readable n) src') lines s of
             (Inl e, s') \<Rightarrow> (Inl e, s')
           | (Inr (Inl _), s') \<Rightarrow> (Inr (), s')
           | (Inr (Inr lines'), s') \<Rightarrow>
               reader_loop on_action uuids readable (Suc n) es' src' lines' s'))"
  by pat_completeness auto
termination
proof (relation "measure (\<lambda>(_, _, _, _, es, src, _, _). read_weight es src)")
qed (auto dest!: reader_pass_more read_fd_line_weight [OF sym])

declare reader_loop.simps [simp del]

text \<open>\<open>run\<close>: whatever ends the loop, \<open>on_eof\<close> is called.\<close>

definition reader_run ::
  "(conversation_action \<Rightarrow> ('s, unit) op) \<Rightarrow> (('s, unit) op) option \<Rightarrow> (nat \<Rightarrow> pystr) \<Rightarrow> (nat \<Rightarrow> bool) \<Rightarrow>
   read_event list \<Rightarrow> stdin_source \<Rightarrow> ('s, unit) op"
where
  "reader_run on_action on_eof uuids readable es src s =
     (case reader_loop on_action uuids readable 0 es src [] s of
        (r, s') \<Rightarrow> (case on_eof of
           None \<Rightarrow> (r, s')
         | Some f \<Rightarrow> (case f s' of (Inl e, s'') \<Rightarrow> (Inl e, s'') | (Inr _, s'') \<Rightarrow> (r, s''))))"


subsection \<open>Decoding text\<close>

lemma second_byte_strict:
  assumes "cont_byte b" and "cont_byte c" and "cont_byte d"
  shows "2048 \<le> (a - 224) * 4096 + (b - 128) * 64 + (c - 128) \<Longrightarrow>
      \<not> surrogate ((a - 224) * 4096 + (b - 128) * 64 + (c - 128)) \<Longrightarrow> 224 \<le> a \<Longrightarrow> a < 240 \<Longrightarrow> second_byte a b"
    and "65536 \<le> (a - 240) * 262144 + (b - 128) * 4096 + (c - 128) * 64 + (d - 128) \<Longrightarrow>
      (a - 240) * 262144 + (b - 128) * 4096 + (c - 128) * 64 + (d - 128) < 1114112 \<Longrightarrow>
      240 \<le> a \<Longrightarrow> second_byte a b"
  using assms by (auto simp: second_byte_def cont_byte_def surrogate_def)

lemma decode_step_strict:
  "utf8_decode (a # bs) = Some s \<Longrightarrow> \<exists>c r s'. decode_step a bs = (c, r) \<and> utf8_decode r = Some s' \<and> s = c # s'"
proof -
  assume s: "utf8_decode (a # bs) = Some s"
  then consider "a < 128" | "194 \<le> a" "a < 224" | "224 \<le> a" "a < 240" | "240 \<le> a" "a < 245"
    by (fastforce split: if_splits)
  then show ?thesis
  proof cases
    case 1
    with s show ?thesis by (auto simp: decode_step_def)
  next
    case 2
    with s show ?thesis by (cases bs) (auto simp: decode_step_def split: if_splits)
  next
    case 3
    with s obtain b c r where bs: "bs = b # c # r" by (auto split: list.splits)
    with 3 s have "cont_byte b \<and> cont_byte c \<and> 2048 \<le> (a - 224) * 4096 + (b - 128) * 64 + (c - 128) \<and>
      \<not> surrogate ((a - 224) * 4096 + (b - 128) * 64 + (c - 128))" by (simp add: Let_def split: if_splits)
    with 3 s bs second_byte_strict(1) [of b c c a] show ?thesis by (auto simp: decode_step_def Let_def)
  next
    case 4
    with s obtain b c d r where bs: "bs = b # c # d # r" by (auto split: list.splits)
    with 4 s have "cont_byte b \<and> cont_byte c \<and> cont_byte d \<and>
      65536 \<le> (a - 240) * 262144 + (b - 128) * 4096 + (c - 128) * 64 + (d - 128) \<and>
      (a - 240) * 262144 + (b - 128) * 4096 + (c - 128) * 64 + (d - 128) < 1114112"
      by (simp add: Let_def split: if_splits)
    with 4 s bs second_byte_strict(2) [of b c d a] show ?thesis by (auto simp: decode_step_def Let_def)
  qed
qed

lemma decode_replace_strict: "utf8_decode bs = Some s \<Longrightarrow> decode_replace bs = s"
proof (induction bs arbitrary: s rule: decode_replace.induct)
  case (2 a bs)
  from decode_step_strict [OF 2(2)] obtain c r s' where
    "decode_step a bs = (c, r)" "utf8_decode r = Some s'" "s = c # s'" by blast
  with 2(1) show ?case by simp
qed simp

lemma decode_replace_utf8: "encodable s \<Longrightarrow> decode_replace (utf8 s) = s"
  by (simp add: decode_replace_strict utf8_round_trip)

subsection \<open>What is read\<close>

text \<open>Input in which every escape character begins a whole paste marker.\<close>

datatype input_token = Plain nat | PasteStart | PasteEnd

fun token_bytes :: "input_token \<Rightarrow> bytes" where
  "token_bytes (Plain b) = [b]"
| "token_bytes PasteStart = paste_start"
| "token_bytes PasteEnd = paste_end"

fun token_plain :: "input_token \<Rightarrow> bytes" where
  "token_plain (Plain b) = [b]"
| "token_plain _ = []"

definition bytes_of :: "input_token list \<Rightarrow> bytes" where
  "bytes_of ts = concat (map token_bytes ts)"

definition plain_of :: "input_token list \<Rightarrow> bytes" where
  "plain_of ts = concat (map token_plain ts)"

text \<open>The beginning of a marker that a chunk may cut off.\<close>

definition cut_marker :: "bytes \<Rightarrow> bool" where
  "cut_marker p \<longleftrightarrow> p \<in> {[], [27], [27, 91], [27, 91, 50], [27, 91, 50, 48], [27, 91, 50, 48, 48], [27, 91, 50, 48, 49]}"

lemma token_simps [simp]:
  "bytes_of [] = []" "bytes_of (t # ts) = token_bytes t @ bytes_of ts" "bytes_of (xs @ ys) = bytes_of xs @ bytes_of ys"
  "plain_of [] = []" "plain_of (t # ts) = token_plain t @ plain_of ts" "plain_of (xs @ ys) = plain_of xs @ plain_of ys"
  by (simp_all add: bytes_of_def plain_of_def)

lemma strip_loop_plain:
  "27 \<notin> set xs \<Longrightarrow> strip_loop p (xs @ ys) = (case strip_loop p ys of (out, q) \<Rightarrow> (xs @ out, q))"
proof (induction xs)
  case (Cons x xs)
  then have "\<not> startswith (x # xs @ ys) paste_start" "\<not> startswith (x # xs @ ys) paste_end"
    by (auto simp: startswith_def paste_start_def paste_end_def)
  then have "strip_loop p (x # xs @ ys) = (case strip_loop p (xs @ ys) of (out, q) \<Rightarrow> (x # out, q))"
    by (simp add: strip_loop.simps [of p "x # xs @ ys"])
  then show ?case using Cons by (simp split: prod.splits)
qed (simp split: prod.split)

lemma strip_loop_cut: "cut_marker part \<Longrightarrow> strip_loop p part = (part, p)"
  unfolding cut_marker_def
  by (elim insertE emptyE; simp add: strip_loop.simps startswith_def paste_start_def paste_end_def)

lemma strip_loop_tokens:
  "Plain 27 \<notin> set ts \<Longrightarrow> cut_marker part \<Longrightarrow> \<exists>q. strip_loop p (bytes_of ts @ part) = (plain_of ts @ part, q)"
proof (induction ts arbitrary: p)
  case Nil
  then show ?case using strip_loop_cut by auto
next
  case (Cons t ts)
  show ?case
  proof (cases t)
    case (Plain b)
    obtain q where "strip_loop p (bytes_of ts @ part) = (plain_of ts @ part, q)" using Cons by auto
    then show ?thesis using Plain Cons.prems strip_loop_plain [of "[b]" p "bytes_of ts @ part"] by auto
  next
    case PasteStart
    obtain q where "strip_loop True (bytes_of ts @ part) = (plain_of ts @ part, q)" using Cons by auto
    then show ?thesis using PasteStart
      by (simp add: strip_loop.simps [of p "paste_start @ bytes_of ts @ part"]) (simp add: paste_start_def)
  next
    case PasteEnd
    obtain q where q: "strip_loop False (bytes_of ts @ part) = (plain_of ts @ part, q)" using Cons by auto
    have "\<not> startswith (paste_end @ bytes_of ts @ part) paste_start"
      by (simp add: startswith_def paste_start_def paste_end_def)
    then show ?thesis using q PasteEnd
      by (simp add: strip_loop.simps [of p "paste_end @ bytes_of ts @ part"]) (simp add: paste_end_def)
  qed
qed

lemma split_tokens:
  "xs @ ys = bytes_of ts \<Longrightarrow> \<exists>ts1 ts2 part. ts = ts1 @ ts2 \<and> xs = bytes_of ts1 @ part \<and> cut_marker part \<and> part @ ys = bytes_of ts2"
proof (induction ts arbitrary: xs)
  case Nil
  then show ?case by (auto simp: cut_marker_def)
next
  case (Cons t ts)
  show ?case
  proof (cases "length (token_bytes t) \<le> length xs")
    case True
    define xs' where "xs' = drop (length (token_bytes t)) xs"
    have "take (length (token_bytes t)) (xs @ ys) = token_bytes t" "drop (length (token_bytes t)) (xs @ ys) = bytes_of ts"
      using Cons.prems by simp_all
    then have xs: "xs = token_bytes t @ xs'" "xs' @ ys = bytes_of ts"
      using True unfolding xs'_def by (simp_all add: append_eq_conv_conj) (metis append_take_drop_id)
    from Cons.IH [OF xs(2)] obtain ts1 ts2 part where
      "ts = ts1 @ ts2" "xs' = bytes_of ts1 @ part" "cut_marker part" "part @ ys = bytes_of ts2" by blast
    then show ?thesis using xs(1) by (intro exI [of _ "t # ts1"] exI [of _ ts2] exI [of _ part]) simp
  next
    case False
    then have "xs = take (length xs) (token_bytes t)"
      using Cons.prems by (metis append_eq_append_conv_if bytes_of_def concat.simps(2) list.simps(9) nat_le_linear)
    then have "cut_marker xs"
      using False by (cases t) (auto simp: cut_marker_def paste_start_def paste_end_def take_Cons split: nat.splits)
    then show ?thesis using Cons.prems by (intro exI [of _ "[]"] exI [of _ "t # ts"] exI [of _ xs]) simp
  qed
qed

lemma whole_tokens: "cut_marker part \<Longrightarrow> part = bytes_of ts \<Longrightarrow> Plain 27 \<notin> set ts \<Longrightarrow> part = [] \<and> ts = []"
  by (cases ts; cases "hd ts") (auto simp: cut_marker_def paste_start_def paste_end_def)


text \<open>The lines of a text, each with its newline.\<close>

function input_lines :: "bytes \<Rightarrow> bytes list" where
  "input_lines l =
     (case take_line l of Some (line, rest) \<Rightarrow> line # input_lines rest | None \<Rightarrow> if l = [] then [] else [l])"
  by pat_completeness auto
termination
  by (relation "measure length") (auto dest!: take_line_Some)

declare input_lines.simps [simp del]

lemma take_line_append:
  "take_line (xs @ ys) =
     (case take_line xs of Some (line, rest) \<Rightarrow> Some (line, rest @ ys)
      | None \<Rightarrow> (case take_line ys of None \<Rightarrow> None | Some (line, rest) \<Rightarrow> Some (xs @ line, rest)))"
  by (induction xs) (auto split: option.splits)

lemma take_line_None: "10 \<notin> set xs \<Longrightarrow> take_line xs = None"
  by (induction xs) auto

lemma take_line_utf8:
  "take_line (utf8 t) = map_option (\<lambda>(line, rest). (utf8 line, utf8 rest)) (take_line t)"
proof (induction t)
  case (Cons c t)
  show ?case
  proof (cases "c = 10")
    case False
    then have "10 \<notin> set (utf8_char c)" by auto
    then have "take_line (utf8_char c @ utf8 t) = (case take_line (utf8 t) of None \<Rightarrow> None
        | Some (line, rest) \<Rightarrow> Some (utf8_char c @ line, rest))"
      using take_line_None [of "utf8_char c"] by (simp add: take_line_append del: utf8_char.simps)
    then show ?thesis using Cons False by (auto simp del: utf8_char.simps split: option.splits)
  qed simp
qed simp

lemma utf8_Nil_iff [simp]: "utf8 t = [] \<longleftrightarrow> t = []"
  using utf8_inj [of t "[]"] by simp

lemma input_lines_utf8: "input_lines (utf8 t) = map utf8 (input_lines t)"
  by (induction t rule: input_lines.induct)
    (auto simp: input_lines.simps [of "utf8 _"] input_lines.simps take_line_utf8 split: option.splits)

text \<open>What is still to be read of an input without loose escape characters, however it is cut into chunks.\<close>

fun input_event :: "read_event \<Rightarrow> bool" where
  "input_event (ReadChunk c) = (c \<noteq> [])"
| "input_event ReadNothing = True"
| "input_event ReadPaused = True"
| "input_event _ = False"

fun event_bytes :: "read_event \<Rightarrow> bytes" where
  "event_bytes (ReadChunk c) = c"
| "event_bytes _ = []"

definition input_left :: "bytes \<Rightarrow> read_event list \<Rightarrow> stdin_source \<Rightarrow> bool" where
  "input_left l es s \<longleftrightarrow>
     27 \<notin> set l \<and>
     (if ns_eof s then es = [] \<and> ns_buffer s = l
      else \<exists>pre xs part ts. es = pre @ [ReadEnd] \<and> list_all input_event pre \<and> ns_buffer s = xs @ part \<and>
             cut_marker part \<and> part @ concat (map event_bytes pre) = bytes_of ts \<and> Plain 27 \<notin> set ts \<and>
             l = xs @ plain_of ts)"

lemma input_leftI:
  assumes "\<not> ns_eof s" and "list_all input_event pre" and "ns_buffer s = xs @ part" and "cut_marker part"
    and "part @ concat (map event_bytes pre) = bytes_of ts" and "Plain 27 \<notin> set ts" and "27 \<notin> set (xs @ plain_of ts)"
  shows "input_left (xs @ plain_of ts) (pre @ [ReadEnd]) s"
  using assms unfolding input_left_def by auto

definition reads :: "bytes \<Rightarrow> read_event list \<Rightarrow> stdin_source \<Rightarrow> bool" where
  "reads l es s \<longleftrightarrow>
     (case take_line l of
        Some (line, rest) \<Rightarrow>
          \<exists>es' s'. read_fd_line es s = (Inr (Some (decode_replace line)), es', s') \<and> input_left rest es' s' \<and> ns_tty s' = ns_tty s
      | None \<Rightarrow>
          \<exists>es' s'. read_fd_line es s = (Inr (if l = [] then None else Some (decode_replace l)), es', s') \<and>
            input_left [] es' s' \<and> ns_tty s' = ns_tty s)"

lemma strip_markers_plain: "27 \<notin> set (ns_buffer s) \<Longrightarrow> strip_markers s = s"
  using strip_loop_plain [of "ns_buffer s" "ns_paste s" "[]"] strip_loop_cut [of "[]" "ns_paste s"]
  by (simp add: strip_markers_def cut_marker_def)

lemma reads_at_end: "ns_eof s \<Longrightarrow> 27 \<notin> set (ns_buffer s) \<Longrightarrow> reads (ns_buffer s) [] s"
  using strip_markers_plain [of s] take_line_Some [of "ns_buffer s"]
  by (auto simp: reads_def read_fd_line.simps read_at_end_def input_left_def split: option.splits)

lemma plain_of_no_escape: "Plain 27 \<notin> set ts \<Longrightarrow> 27 \<notin> set (plain_of ts)"
proof (induction ts)
  case (Cons t ts)
  then show ?case by (cases t) auto
qed simp

lemma cut_marker_no_newline: "cut_marker part \<Longrightarrow> 10 \<notin> set part"
  by (auto simp: cut_marker_def)

lemma append_chunk_tokens:
  assumes "ns_buffer s = xs @ part" and "27 \<notin> set xs" and "part @ c = bytes_of ts @ part'" and "Plain 27 \<notin> set ts"
    and "cut_marker part'"
  obtains q where "append_chunk c s = s\<lparr>ns_buffer := xs @ plain_of ts @ part', ns_paste := q\<rparr>"
proof -
  obtain q where "strip_loop (ns_paste s) (bytes_of ts @ part') = (plain_of ts @ part', q)"
    using strip_loop_tokens [OF assms(4,5)] by blast
  then have "strip_loop (ns_paste s) (xs @ part @ c) = (xs @ plain_of ts @ part', q)"
    using strip_loop_plain [OF assms(2), of "ns_paste s" "part @ c"] assms(3) by simp
  then show ?thesis using that assms(1) by (simp add: append_chunk_def strip_markers_def)
qed

lemma reads_step: "read_fd_line es s = read_fd_line es' s' \<Longrightarrow> ns_tty s' = ns_tty s \<Longrightarrow> reads l es' s' \<Longrightarrow> reads l es s"
  by (simp only: reads_def)

lemma reads_buffered:
  assumes "input_left l es s" and "\<not> ns_eof s" and "ns_buffer s = xs @ part" and "es = pre @ [ReadEnd]"
    and "list_all input_event pre" and "cut_marker part" and "part @ concat (map event_bytes pre) = bytes_of ts"
    and "Plain 27 \<notin> set ts" and "l = xs @ plain_of ts" and "take_line xs = Some (line, rest)"
  shows "reads l es s"
proof -
  have "27 \<notin> set (rest @ plain_of ts)"
    using assms(1,9) take_line_Some [OF assms(10)] by (auto simp: input_left_def)
  then have "input_left (rest @ plain_of ts) es (s\<lparr>ns_buffer := rest @ part\<rparr>)"
    using assms(2-8) by (auto simp: input_left_def)
  then show ?thesis
    using assms(3,9,10) by (simp add: reads_def take_line_append read_fd_line.simps [of es s])
qed

lemma input_left_reads:
  assumes "input_left l es s"
  shows "reads l es s"
proof (cases "ns_eof s")
  case True
  with assms show ?thesis using reads_at_end by (auto simp: input_left_def)
next
  case False
  with assms obtain pre xs part ts where a: "es = pre @ [ReadEnd]" "list_all input_event pre" "ns_buffer s = xs @ part"
    "cut_marker part" "part @ concat (map event_bytes pre) = bytes_of ts" "Plain 27 \<notin> set ts" "l = xs @ plain_of ts"
    "27 \<notin> set l" by (auto simp: input_left_def)
  then show ?thesis using False
  proof (induction pre arbitrary: es s xs part ts)
    case Nil
    have left: "input_left l es s" using Nil input_leftI [of s "[]" xs part ts] by simp
    show ?case
    proof (cases "take_line xs")
      case None
      then have none: "take_line (ns_buffer s) = None"
        using Nil take_line_None [OF cut_marker_no_newline] by (simp add: take_line_append)
      have "part = [] \<and> ts = []" using Nil whole_tokens by simp
      then have "reads l [] (s\<lparr>ns_eof := True\<rparr>)"
        using Nil reads_at_end [of "s\<lparr>ns_eof := True\<rparr>"] by simp
      then show ?thesis
        using Nil read_fd_line_event(3) [OF none] by (intro reads_step [of es s "[]" "s\<lparr>ns_eof := True\<rparr>"]) simp_all
    next
      case (Some x)
      then show ?thesis
        using Nil reads_buffered [OF left _ _ Nil(1,2) _ Nil(5,6,7)] by (cases x) auto
    qed
  next
    case (Cons e pre)
    have left: "input_left l es s" unfolding input_left_def using Cons.prems by auto
    show ?case
    proof (cases "take_line xs")
      case (Some x)
      then show ?thesis
        using Cons.prems reads_buffered [OF left _ _ Cons.prems(1,2) _ Cons.prems(5,6,7)] by (cases x) auto
    next
      case None
      then have none: "take_line (ns_buffer s) = None"
        using Cons.prems take_line_None [OF cut_marker_no_newline] by (simp add: take_line_append)
      note ev = read_fd_line_event [OF none Cons.prems(9)]
      have skip: "reads l es s" if "e = ReadNothing \<or> e = ReadPaused"
      proof (rule reads_step)
        show "read_fd_line es s = read_fd_line (pre @ [ReadEnd]) s" using that ev Cons.prems(1) by auto
        show "reads l (pre @ [ReadEnd]) s"
          by (rule Cons.IH [OF refl _ Cons.prems(3,4) _ Cons.prems(6,7,8,9)]) (use Cons.prems that in auto)
      qed simp
      show ?thesis
      proof (cases e)
        case (ReadChunk c)
        then have "(part @ c) @ concat (map event_bytes pre) = bytes_of ts" "c \<noteq> []" using Cons.prems by simp_all
        from split_tokens [OF this(1)] obtain ts1 ts2 part' where sp: "ts = ts1 @ ts2" "part @ c = bytes_of ts1 @ part'"
          "cut_marker part'" "part' @ concat (map event_bytes pre) = bytes_of ts2" by blast
        have "27 \<notin> set xs" "Plain 27 \<notin> set ts1" using Cons.prems sp(1) by auto
        from append_chunk_tokens [OF Cons.prems(3) this(1) sp(2) this(2) sp(3)]
        obtain q where q: "append_chunk c s = s\<lparr>ns_buffer := xs @ plain_of ts1 @ part', ns_paste := q\<rparr>" by blast
        show ?thesis
        proof (rule reads_step)
          show "read_fd_line es s = read_fd_line (pre @ [ReadEnd]) (append_chunk c s)"
            using ReadChunk \<open>c \<noteq> []\<close> ev Cons.prems(1) by simp
          show "reads l (pre @ [ReadEnd]) (append_chunk c s)"
            by (rule Cons.IH [where xs = "xs @ plain_of ts1" and part = part' and ts = ts2]) (use Cons.prems sp q in auto)
        qed (simp add: q)
      qed (use skip Cons.prems in auto)
    qed
  qed
qed


lemma reader_loop_pipe:
  assumes "input_left l es src" and "\<not> ns_tty src"
  shows "reader_loop on_action uuids readable n es src lines s =
    (let all = lines @ map (\<lambda>line. rstrip_chars [13, 10] (decode_replace line)) (input_lines l)
     in if all \<noteq> [] \<and> strip (concat all) \<noteq> []
        then reader_emit on_action (uuids (n + length (input_lines l))) all PipeEof s else (Inr (), s))"
  using assms
proof (induction "length l" arbitrary: l es src n lines rule: less_induct)
  case less
  have reads: "reads l es src" by (rule input_left_reads [OF less.prems(1)])
  have pass: "reader_pass on_action False uuid (Some line) waiting lines s = (Inr (Inr (lines @ [rstrip_chars [13, 10] line])), s)"
    for uuid waiting line by (simp add: reader_pass_def sret_def)
  have finish: "reader_loop on_action uuids readable n es src lines s =
      (if lines \<noteq> [] \<and> strip (concat lines) \<noteq> [] then reader_emit on_action (uuids n) lines PipeEof s else (Inr (), s))"
    if "read_fd_line es src = (Inr None, es', src')" "\<not> ns_tty src" for n es src lines es' src'
    using that by (simp add: reader_loop.simps [of _ _ _ n es] reader_pass_def sbind_def sret_def split: prod.split sum.split)
  show ?case
  proof (cases "l = []")
    case True
    with reads obtain es' src' where "read_fd_line es src = (Inr None, es', src')" by (auto simp: reads_def)
    from finish [OF this less.prems(2)] show ?thesis using True by (simp add: input_lines.simps)
  next
    case False
    obtain line rest where next': "input_lines l = line # input_lines rest" "length rest < length l"
      and "\<exists>es' src'. read_fd_line es src = (Inr (Some (decode_replace line)), es', src') \<and> input_left rest es' src' \<and>
        ns_tty src' = ns_tty src"
    proof (cases "take_line l")
      case None
      with that [of l "[]"] reads False show ?thesis
        by (simp add: reads_def input_lines.simps [of l] input_lines.simps [of "[]"])
    next
      case (Some x)
      obtain line rest where x: "x = (line, rest)" by (cases x)
      with Some take_line_Some [of l line rest] have "length rest < length l" by auto
      with that [of line rest] reads Some x show ?thesis by (simp add: reads_def input_lines.simps [of l])
    qed
    then obtain es' src' where r: "read_fd_line es src = (Inr (Some (decode_replace line)), es', src')"
      "input_left rest es' src'" "ns_tty src' = ns_tty src" by blast
    have "reader_loop on_action uuids readable n es src lines s =
        reader_loop on_action uuids readable (Suc n) es' src' (lines @ [rstrip_chars [13, 10] (decode_replace line)]) s"
      using r(1) less.prems(2) pass by (simp add: reader_loop.simps [of _ _ _ n es])
    also note less.hyps [OF next'(2) r(2)]
    finally show ?thesis using r(3) less.prems(2) by (simp add: next'(1))
  qed
qed

definition pipe_source :: stdin_source where
  "pipe_source = \<lparr>ns_tty = False, ns_buffer = [], ns_eof = False, ns_paste = False\<rparr>"

text \<open>
  C33. A pipe is one input, however the system delivers it. When the bytes of a text, with whole paste
  markers anywhere between them and no other escape character, arrive in chunks of any size, cut inside
  characters, lines or markers, between empty reads and pauses, then the reader makes exactly one action of
  it: the lines of the text without their line ends and without the markers. A blank text makes none. Then
  the end of the input is reported.
\<close>

theorem pipe_input_exact:
  assumes "list_all input_event es" and "concat (map event_bytes es) = bytes_of ts" and "Plain 27 \<notin> set ts"
    and "plain_of ts = utf8 t" and "encodable t"
  shows "reader_run on_action (Some on_eof) uuids readable (es @ [ReadEnd]) pipe_source s =
    (case (if strip (concat (map (rstrip_chars [13, 10]) (input_lines t))) \<noteq> []
           then reader_emit on_action (uuids (length (input_lines t))) (map (rstrip_chars [13, 10]) (input_lines t)) PipeEof s
           else (Inr (), s)) of
       (r, s') \<Rightarrow> (case on_eof s' of (Inl e, s'') \<Rightarrow> (Inl e, s'') | (Inr _, s'') \<Rightarrow> (r, s'')))"
proof -
  have "input_left (plain_of ts) (es @ [ReadEnd]) pipe_source"
    using assms(1-3) plain_of_no_escape [OF assms(3)] input_leftI [of pipe_source es "[]" "[]" ts]
    by (simp add: pipe_source_def cut_marker_def)
  note loop = reader_loop_pipe [OF this]
  have "encodable line" if "line \<in> set (input_lines t)" for line
    using that assms(5)
  proof (induction t rule: input_lines.induct)
    case (1 l)
    then show ?case
      using take_line_Some [of l] by (fastforce simp: input_lines.simps [of l] encodable_def split: option.splits if_splits)
  qed
  then have "map (\<lambda>line. rstrip_chars [13, 10] (decode_replace line)) (input_lines (plain_of ts)) =
      map (rstrip_chars [13, 10]) (input_lines t)"
    by (simp add: assms(4) input_lines_utf8 decode_replace_utf8)
  moreover have "length (input_lines (plain_of ts)) = length (input_lines t)" by (simp add: assms(4) input_lines_utf8)
  moreover have "strip [] = []" by (simp add: strip_eq_Nil)
  ultimately show ?thesis
    using loop [of on_action uuids readable 0 "[]" s]
    by (auto simp: reader_run_def pipe_source_def Let_def split: prod.split)
qed


text \<open>Two lines in a paste, cut inside both markers and before the newline of the first.\<close>

definition sample_reads :: "read_event list" where
  "sample_reads =
     [ReadChunk [27, 91], ReadNothing, ReadChunk [50, 48, 48, 126, 104, 13], ReadPaused, ReadChunk [10, 105, 27],
      ReadChunk [91, 50, 48, 49, 126, 10]]"

theorem pipe_input_exact_witness:
  "reader_run (\<lambda>a log. (Inr (), log @ [action_text a])) (Some (\<lambda>log. (Inr (), log @ [u ''eof''])))
     (\<lambda>_. replicate 32 48) (\<lambda>_. False) (sample_reads @ [ReadEnd]) pipe_source [] =
     (Inr (), [[104, 10, 105], u ''eof''])"
proof -
  let ?ts = "[PasteStart, Plain 104, Plain 13, Plain 10, Plain 105, PasteEnd, Plain 10]"
  have bytes: "concat (map event_bytes sample_reads) = bytes_of ?ts"
    by (simp add: sample_reads_def paste_start_def paste_end_def)
  have lines: "input_lines [104, 13, 10, 105, 10] = [[104, 13, 10], [105, 10]]"
    by (simp add: input_lines.simps)
  have trim: "rstrip_chars [13, 10] [104, 13, 10] = [104]" "rstrip_chars [13, 10] [105, 10] = [105]"
    by (simp_all add: rstrip_chars_def)
  have "strip [104, 105] \<noteq> []" by (simp add: strip_eq_Nil is_space_def)
  moreover have "validate_prefixed_uuid (u ''action'' @ 45 # replicate 32 48) (u ''action'')"
    by (rule validate_prefixed_uuid_hex) (simp_all add: is_hex_def list_all_iff)
  then have "conversation_action_ok \<lparr>ca_action_id = u ''action-'' @ replicate 32 48, ca_lines = [[104], [105]], ca_boundary = PipeEof\<rparr>"
    by (simp add: conversation_action_ok_def u_Cons)
  ultimately show ?thesis
    using pipe_input_exact [OF _ bytes, of "[104, 13, 10, 105, 10]" "\<lambda>a log. (Inr (), log @ [action_text a])"
      "\<lambda>log. (Inr (), log @ [u ''eof''])" "\<lambda>_. replicate 32 48" "\<lambda>_. False" "[]"]
    by (simp add: sample_reads_def lines trim utf8_ascii encodable_def surrogate_def reader_emit_def validated_def action_text_def
        del: replicate.simps)
qed

text \<open>Removing a marker can make a new one of what was around it, which is removed or not by where the chunks end.\<close>

lemma nested_marker_depends_on_chunks:
  defines "bytes \<equiv> [27, 91, 50, 48] @ paste_start @ [48, 126]"
  shows "ns_buffer (append_chunk bytes pipe_source) = paste_start"
    and "ns_buffer (append_chunk [126] (append_chunk (butlast bytes) pipe_source)) = []"
  unfolding bytes_def
  by (simp_all add: append_chunk_def strip_markers_def pipe_source_def strip_loop.simps startswith_def paste_start_def
      paste_end_def)

end
