(* ===== verification/Editor.thy ===== *)
theory Editor
  imports Input
begin

text \<open>
  \<open>runtime/tty_input.py\<close>: the line editor of the terminal. Its buffer is a list of strings, as in the code: a
  malformed byte sequence becomes one entry of several characters. The width tables of Rich, the character
  tables of \<open>str.isprintable\<close> and \<open>unicodedata.category\<close> and the size of the terminal are arguments; what is
  written to the terminal is collected in order.
\<close>

subsection \<open>The editor\<close>

record editor_env =
  tt_cell_len :: "pystr \<Rightarrow> int"
  tt_graphemes :: "pystr \<Rightarrow> (nat \<times> nat) list"
  tt_printable :: "nat \<Rightarrow> bool"
  tt_format :: "nat \<Rightarrow> bool"
  tt_columns :: "int option"

record line_editor =
  le_buffer :: "pystr list"
  le_pending :: bytes
  le_paste :: bool
  le_results :: "pystr option list"
  le_output :: pystr
  le_raw :: bool
  le_saved :: bool
  le_paused :: bool
  le_closed :: bool

definition new_editor :: line_editor where
  "new_editor =
     \<lparr>le_buffer = [], le_pending = [], le_paste = False, le_results = [], le_output = [], le_raw = False,
      le_saved = False, le_paused = False, le_closed = False\<rparr>"

definition enable_protocols :: pystr where
  "enable_protocols = 27 # u ''[?2004h'' @ 27 # u ''[>1;4u''"

definition disable_protocols :: pystr where
  "disable_protocols = 27 # u ''[?2004l'' @ 27 # u ''[<1u''"

definition kitty_shift_enter :: pystr where
  "kitty_shift_enter = 27 # u ''[13;2u''"

definition legacy_shift_enter :: pystr where
  "legacy_shift_enter = [27, 13]"

definition echo :: "pystr \<Rightarrow> line_editor \<Rightarrow> line_editor" where
  "echo s ed = ed\<lparr>le_output := le_output ed @ s\<rparr>"

subsection \<open>Widths\<close>

definition terminal_width :: "editor_env \<Rightarrow> int" where
  "terminal_width env = (case tt_columns env of None \<Rightarrow> 80 | Some n \<Rightarrow> if n > 0 then n else 80)"

definition regional_indicator :: "nat \<Rightarrow> bool" where
  "regional_indicator c \<longleftrightarrow> 127462 \<le> c \<and> c \<le> 127487"

definition last_grapheme_span :: "editor_env \<Rightarrow> pystr \<Rightarrow> (nat \<times> nat \<times> int) option" where
  "last_grapheme_span env s =
     (if s = [] then None
      else if last s = 9 then Some (length s - 1, length s, 1)
      else if 2 \<le> length s \<and> regional_indicator (s ! (length s - 1)) \<and> regional_indicator (s ! (length s - 2))
      then Some (length s - 2, length s, 2)
      else if tt_graphemes env s = [] then None
      else (case last (tt_graphemes env s) of (a, b) \<Rightarrow> Some (a, b, tt_cell_len env (slice s (int a) (int b)))))"

text \<open>The rows and the column a run of graphemes reaches, from where the cursor is.\<close>

fun layout_spans :: "editor_env \<Rightarrow> int \<Rightarrow> pystr \<Rightarrow> (nat \<times> nat) list \<Rightarrow> int \<times> int \<Rightarrow> int \<times> int" where
  "layout_spans env width s [] (rows, column) = (rows, column)"
| "layout_spans env width s ((a, b) # spans) (rows, column) =
     (let chunk = slice s (int a) (int b);
          w = (if endswith chunk [9] then 1 else tt_cell_len env chunk)
      in layout_spans env width s spans
           (if w \<le> 0 then (rows, column) else if column + w \<le> width then (rows, column + w) else (rows + 1, w)))"

definition line_layout :: "editor_env \<Rightarrow> pystr \<Rightarrow> int \<Rightarrow> int \<times> int \<times> int" where
  "line_layout env s width =
     (if width \<le> 0 then (1, 0, tt_cell_len env s)
      else (case layout_spans env width s (tt_graphemes env s) (0, 0) of (rows, column) \<Rightarrow> (rows + 1, rows, column)))"

subsection \<open>Keys\<close>

definition redraw_current_line :: "int \<Rightarrow> pystr \<Rightarrow> line_editor \<Rightarrow> line_editor" where
  "redraw_current_line old_row new_line ed =
     echo new_line (echo (27 # u ''[J'')
       (if old_row > 0 then echo (27 # u ''['' @ int_str old_row @ u ''A'') (echo [13] ed) else echo [13] ed))"

definition insert_newline :: "line_editor \<Rightarrow> line_editor" where
  "insert_newline ed = echo [13, 10] (ed\<lparr>le_buffer := le_buffer ed @ [[10]]\<rparr>)"

definition submit :: "line_editor \<Rightarrow> line_editor" where
  "submit ed = echo [13, 10] (ed\<lparr>le_results := le_results ed @ [Some (concat (le_buffer ed))], le_buffer := []\<rparr>)"

text \<open>The entries after the last newline entry.\<close>

definition line_start :: "pystr list \<Rightarrow> nat" where
  "line_start buffer = length buffer - length (takeWhile (\<lambda>e. e \<noteq> [10]) (rev buffer))"

definition delete_newline :: "editor_env \<Rightarrow> line_editor \<Rightarrow> line_editor" where
  "delete_newline env ed =
     (let kept = butlast (le_buffer ed);
          start = line_start kept;
          line = concat (drop start kept);
          prev_rows = fst (line_layout env line (terminal_width env))
      in redraw_current_line prev_rows line (ed\<lparr>le_buffer := kept\<rparr>))"

definition backspace :: "editor_env \<Rightarrow> line_editor \<Rightarrow> line_editor" where
  "backspace env ed =
     (if le_buffer ed = [] then ed
      else if last (le_buffer ed) = [10] then delete_newline env ed
      else (let start = line_start (le_buffer ed);
                line = concat (drop start (le_buffer ed))
            in case last_grapheme_span env line of
                 None \<Rightarrow> ed
               | Some (a, b, _) \<Rightarrow>
                   (let old_row = fst (snd (line_layout env line (terminal_width env)));
                        kept = take (start + a) (le_buffer ed) @ drop (start + b) (le_buffer ed)
                    in redraw_current_line old_row (concat (drop start kept)) (ed\<lparr>le_buffer := kept\<rparr>))))"

definition add_char :: "pystr \<Rightarrow> line_editor \<Rightarrow> line_editor" where
  "add_char char ed = echo char (ed\<lparr>le_buffer := le_buffer ed @ [char]\<rparr>)"

definition handle_char :: "editor_env \<Rightarrow> pystr \<Rightarrow> (line_editor, unit) op" where
  "handle_char env char ed =
     (if le_paste ed then (Inr (), if char = [13] \<or> char = [10] then insert_newline ed else add_char char ed)
      else if char = [13] then (Inr (), submit ed)
      else if char = [10] then (Inr (), insert_newline ed)
      else if char = [127] \<or> char = [8] then (Inr (), backspace env ed)
      else if char = [4]
      then (Inr (), if le_buffer ed \<noteq> [] then submit ed else ed\<lparr>le_results := le_results ed @ [None]\<rparr>)
      else if list_all (tt_printable env) char \<or> char = [9] \<or> char = [32] then (Inr (), add_char char ed)
      else if length char \<noteq> 1 then (Inl TypeExn, ed)
      else (Inr (), if tt_format env (hd char) then add_char char ed else ed))"

definition handle_escape :: "pystr \<Rightarrow> line_editor \<Rightarrow> line_editor" where
  "handle_escape sequence ed =
     (if sequence = paste_start then ed\<lparr>le_paste := True\<rparr>
      else if sequence = paste_end then ed\<lparr>le_paste := False\<rparr>
      else if sequence \<in> {kitty_shift_enter, legacy_shift_enter} \<and> \<not> le_paste ed then insert_newline ed
      else ed)"

subsection \<open>Bytes\<close>

definition consume_utf8 :: "bytes \<Rightarrow> (pystr \<times> bytes) option" where
  "consume_utf8 pending =
     (let first = hd pending;
          n = (if first < 192 then 1 else if first < 224 then 2 else if first < 240 then 3 else 4)
      in if length pending < n then None else Some (decode_replace (take n pending), drop n pending))"

fun final_byte :: "bytes \<Rightarrow> nat option" where
  "final_byte [] = None"
| "final_byte (b # bs) = (if 64 \<le> b \<and> b \<le> 126 then Some 0 else map_option Suc (final_byte bs))"

definition consume_escape :: "bytes \<Rightarrow> (bytes \<times> bytes) option" where
  "consume_escape pending =
     (if length pending < 2 then None
      else if pending ! 1 \<noteq> 91 then Some (take 2 pending, drop 2 pending)
      else (case final_byte (drop 2 pending) of
              Some i \<Rightarrow> Some (take (i + 3) pending, drop (i + 3) pending)
            | None \<Rightarrow> if length pending > 64 then Some (take 2 pending, drop 2 pending) else None))"

lemma consume_shorter:
  "consume_escape p = Some (s, r) \<Longrightarrow> length r < length p" "p \<noteq> [] \<Longrightarrow> consume_utf8 p = Some (c, r) \<Longrightarrow> length r < length p"
  by (auto simp: consume_escape_def consume_utf8_def Let_def split: if_splits option.splits)

function feed_loop :: "editor_env \<Rightarrow> bytes \<Rightarrow> (line_editor, unit) op" where
  "feed_loop env pending ed =
     (if pending = [] then (Inr (), ed\<lparr>le_pending := []\<rparr>)
      else if hd pending = 27 then
        (case consume_escape pending of
           None \<Rightarrow> (Inr (), ed\<lparr>le_pending := pending\<rparr>)
         | Some (sequence, rest) \<Rightarrow> feed_loop env rest (handle_escape sequence ed))
      else
        (case consume_utf8 pending of
           None \<Rightarrow> (Inr (), ed\<lparr>le_pending := pending\<rparr>)
         | Some (char, rest) \<Rightarrow>
             (case handle_char env char ed of
                (Inl e, ed') \<Rightarrow> (Inl e, ed'\<lparr>le_pending := rest\<rparr>)
              | (Inr _, ed') \<Rightarrow> feed_loop env rest ed')))"
  by pat_completeness auto
termination
  by (relation "measure (\<lambda>(env, p, ed). length p)") (auto dest: consume_shorter)

declare feed_loop.simps [simp del]

definition feed :: "editor_env \<Rightarrow> bytes \<Rightarrow> (line_editor, unit) op" where
  "feed env chunk ed = feed_loop env (le_pending ed @ chunk) ed"


text \<open>One message after the other, as the operating system delivers them.\<close>

fun feed_all :: "editor_env \<Rightarrow> bytes list \<Rightarrow> (line_editor, unit) op" where
  "feed_all env [] = sret ()"
| "feed_all env (c # cs) = sbind (feed env c) (\<lambda>_. feed_all env cs)"

subsection \<open>Reading a line\<close>

definition enter_raw :: "line_editor \<Rightarrow> line_editor" where
  "enter_raw ed = (if le_raw ed then ed else echo enable_protocols (ed\<lparr>le_saved := True, le_raw := True\<rparr>))"

definition restore_terminal :: "line_editor \<Rightarrow> line_editor" where
  "restore_terminal ed = (if le_raw ed \<and> le_saved ed then (echo disable_protocols ed)\<lparr>le_raw := False\<rparr> else ed)"

definition editor_close :: "line_editor \<Rightarrow> line_editor" where
  "editor_close ed = restore_terminal (ed\<lparr>le_closed := True\<rparr>)"

definition editor_pause :: "line_editor \<Rightarrow> line_editor" where
  "editor_pause ed = restore_terminal (ed\<lparr>le_paused := True\<rparr>)"

definition editor_resume :: "line_editor \<Rightarrow> line_editor" where
  "editor_resume ed = enter_raw (ed\<lparr>le_paused := False\<rparr>)"

text \<open>
  What can happen while \<open>read_line\<close> waits, and where it waits: at the head of its loop, for the keys or for the
  end of a pause. An exception of \<open>feed\<close> ends the callback without completing the wait.
\<close>

datatype key_event = KeyBytes bytes | KeyFailed | KeyNothing | KeyPause | KeyResume | KeyClose

datatype editor_wait = AtHead | AwaitKeys | AwaitResume

definition loop_head :: "editor_wait \<Rightarrow> line_editor \<Rightarrow> editor_wait \<times> line_editor" where
  "loop_head wait ed =
     (if wait \<noteq> AtHead then (wait, ed) else if le_paused ed then (AwaitResume, ed) else (AwaitKeys, enter_raw ed))"

definition on_key :: "editor_env \<Rightarrow> key_event \<Rightarrow> line_editor \<Rightarrow> editor_wait \<times> line_editor" where
  "on_key env e ed =
     (case e of
        KeyBytes [] \<Rightarrow> (AtHead, ed\<lparr>le_results := le_results ed @ [None]\<rparr>)
      | KeyBytes c \<Rightarrow> (case feed env c ed of (Inl _, ed') \<Rightarrow> (AwaitKeys, ed') | (Inr _, ed') \<Rightarrow> (AtHead, ed'))
      | KeyFailed \<Rightarrow> (AtHead, ed\<lparr>le_results := le_results ed @ [None]\<rparr>)
      | KeyNothing \<Rightarrow> (AwaitKeys, ed)
      | KeyPause \<Rightarrow> (AtHead, editor_pause ed)
      | KeyResume \<Rightarrow> (AwaitKeys, editor_resume ed)
      | KeyClose \<Rightarrow> (AtHead, editor_close ed))"

definition on_paused :: "key_event \<Rightarrow> line_editor \<Rightarrow> editor_wait \<times> line_editor" where
  "on_paused e ed =
     (case e of
        KeyPause \<Rightarrow> (AwaitResume, editor_pause ed)
      | KeyResume \<Rightarrow> (AtHead, editor_resume ed)
      | KeyClose \<Rightarrow> (AwaitResume, editor_close ed)
      | _ \<Rightarrow> (AwaitResume, ed))"

fun editor_read_line ::
  "editor_env \<Rightarrow> editor_wait \<Rightarrow> key_event list \<Rightarrow> line_editor \<Rightarrow> pystr option result \<times> key_event list \<times> line_editor"
where
  "editor_read_line env wait es ed =
     (if wait = AtHead \<and> le_results ed \<noteq> []
      then (Inr (hd (le_results ed)), es, ed\<lparr>le_results := tl (le_results ed)\<rparr>)
      else if wait = AtHead \<and> le_closed ed then (Inr None, es, ed)
      else (case loop_head wait ed of
              (wait', ed') \<Rightarrow>
                (case es of
                   [] \<Rightarrow> (Inl CancelledExn, [], ed')
                 | e # es' \<Rightarrow>
                     (case (if wait' = AwaitResume then on_paused e ed' else on_key env e ed') of
                        (w, ed'') \<Rightarrow> editor_read_line env w es' ed''))))"

declare editor_read_line.simps [simp del]

subsection \<open>Bytes in any chunks\<close>

text \<open>The pending bytes do not matter to the keys.\<close>

lemma pending_escape: "handle_escape s (ed\<lparr>le_pending := q\<rparr>) = (handle_escape s ed)\<lparr>le_pending := q\<rparr>"
  by (simp add: handle_escape_def insert_newline_def echo_def)

lemma pending_char:
  "handle_char env c (ed\<lparr>le_pending := q\<rparr>) =
     (case handle_char env c ed of (r, ed') \<Rightarrow> (r, ed'\<lparr>le_pending := q\<rparr>))"
  by (simp add: handle_char_def insert_newline_def echo_def submit_def add_char_def backspace_def delete_newline_def
      redraw_current_line_def Let_def split: option.split prod.split)

lemma pending_feed: "feed_loop env p (ed\<lparr>le_pending := q\<rparr>) = feed_loop env p ed"
proof (induction env p ed arbitrary: q rule: feed_loop.induct)
  case (1 env p ed)
  show ?case
    using 1 unfolding feed_loop.simps [of env p "ed\<lparr>le_pending := q\<rparr>"] feed_loop.simps [of env p ed] pending_escape pending_char
    by (auto split: option.split prod.split sum.split)
qed

text \<open>An unfinished control sequence of more than 64 bytes, which the editor gives up.\<close>

definition long_escape :: "bytes \<Rightarrow> bool" where
  "long_escape p \<longleftrightarrow> 64 < length p \<and> p ! 0 = 27 \<and> p ! 1 = 91 \<and> final_byte (drop 2 p) = None"

definition no_long_escape :: "bytes \<Rightarrow> bool" where
  "no_long_escape p \<longleftrightarrow> (\<forall>xs ys zs. p = xs @ ys @ zs \<longrightarrow> \<not> long_escape ys)"

lemma final_byte_append: "final_byte xs = Some i \<Longrightarrow> final_byte (xs @ ys) = Some i \<and> i < length xs"
  by (induction xs arbitrary: i) (auto split: if_splits)

lemma consume_escape_append:
  assumes "consume_escape p = Some (s, r)" and "\<not> long_escape p" and "hd p = 27"
  shows "consume_escape (p @ b) = Some (s, r @ b)"
proof -
  have "p \<noteq> []" "2 \<le> length p" using assms(1) by (auto simp: consume_escape_def split: if_splits)
  then have "p ! 0 = 27" using assms(3) by (simp add: hd_conv_nth)
  then show ?thesis
    using assms(1,2) \<open>2 \<le> length p\<close> final_byte_append [of "drop 2 p" _ b]
    by (auto simp: consume_escape_def nth_append long_escape_def split: if_splits option.splits)
qed

lemma consume_utf8_append:
  "p \<noteq> [] \<Longrightarrow> consume_utf8 p = Some (c, r) \<Longrightarrow> consume_utf8 (p @ b) = Some (c, r @ b)"
proof -
  assume a: "p \<noteq> []" "consume_utf8 p = Some (c, r)"
  define n :: nat where "n = (if hd p < 192 then 1 else if hd p < 224 then 2 else if hd p < 240 then 3 else 4)"
  have "consume_utf8 p = (if length p < n then None else Some (decode_replace (take n p), drop n p))"
    "consume_utf8 (p @ b) = (if length (p @ b) < n then None else Some (decode_replace (take n (p @ b)), drop n (p @ b)))"
    using a(1) by (simp_all add: consume_utf8_def n_def Let_def)
  with a(2) show ?thesis by (auto split: if_splits)
qed

lemma consume_suffix:
  "consume_escape p = Some (s, r) \<Longrightarrow> \<exists>xs. p = xs @ r" "consume_utf8 p = Some (c, r) \<Longrightarrow> \<exists>xs. p = xs @ r"
  unfolding consume_escape_def consume_utf8_def Let_def
  by (auto split: if_splits option.splits) (metis append_take_drop_id)+

lemma no_long_escape_suffix: "no_long_escape (xs @ r) \<Longrightarrow> no_long_escape r"
  unfolding no_long_escape_def by (metis append.assoc)

lemma no_long_escape_self: "no_long_escape p \<Longrightarrow> \<not> long_escape p"
  unfolding no_long_escape_def by (metis append_Nil append_Nil2)

lemma feed_loop_append:
  assumes "no_long_escape p"
  shows "feed_loop env (p @ b) ed =
    (case feed_loop env p ed of
       (Inl e, ed') \<Rightarrow> (Inl e, ed'\<lparr>le_pending := le_pending ed' @ b\<rparr>)
     | (Inr _, ed') \<Rightarrow> feed_loop env (le_pending ed' @ b) ed')"
  using assms
proof (induction env p ed rule: feed_loop.induct)
  case (1 env p ed)
  show ?case
  proof (cases "p = []")
    case True
    then show ?thesis using pending_feed [of env b "[]" ed] by (simp add: feed_loop.simps [of env "[]" ed])
  next
    case False
    note wait = pending_feed [of env "p @ b" p ed]
    show ?thesis
    proof (cases "hd p = 27")
      case esc: True
      show ?thesis
      proof (cases "consume_escape p")
        case None
        then show ?thesis using False esc wait by (simp add: feed_loop.simps [of env p ed])
      next
        case (Some x)
        obtain s r where x: "x = (s, r)" by (cases x)
        note more = consume_escape_append [OF Some [unfolded x] no_long_escape_self [OF 1(3)] esc]
        have "no_long_escape r" using 1(3) consume_suffix(1) [OF Some [unfolded x]] no_long_escape_suffix by metis
        from 1(1) [OF False esc Some x [symmetric] this] show ?thesis
          using False esc Some x more by (simp add: feed_loop.simps [of env p ed] feed_loop.simps [of env "p @ b" ed])
      qed
    next
      case key: False
      show ?thesis
      proof (cases "consume_utf8 p")
        case None
        then show ?thesis using False key wait by (simp add: feed_loop.simps [of env p ed])
      next
        case (Some x)
        obtain c r where x: "x = (c, r)" by (cases x)
        note more = consume_utf8_append [OF False Some [unfolded x], of b]
        have rest: "no_long_escape r" using 1(3) consume_suffix(2) [OF Some [unfolded x]] no_long_escape_suffix by metis
        obtain q ed' where h: "handle_char env c ed = (q, ed')" by fastforce
        show ?thesis
        proof (cases q)
          case (Inl e)
          then show ?thesis
            using False key Some x more h by (simp add: feed_loop.simps [of env p ed] feed_loop.simps [of env "p @ b" ed])
        next
          case (Inr v)
          from 1(2) [OF False key Some x [symmetric] h [symmetric] Inr rest] show ?thesis
            using False key Some x more Inr h by (simp add: feed_loop.simps [of env p ed] feed_loop.simps [of env "p @ b" ed])
        qed
      qed
    qed
  qed
qed

text \<open>Chunks that together go through do so one after the other.\<close>

lemma feed_loop_left:
  "feed_loop env p ed = (Inr (), ed') \<Longrightarrow>
     (\<exists>xs. p = xs @ le_pending ed') \<and> feed_loop env (le_pending ed') ed' = (Inr (), ed')"
proof (induction env p ed rule: feed_loop.induct)
  case (1 env p ed)
  have step: "(\<exists>xs. p = xs @ le_pending ed') \<and> feed_loop env (le_pending ed') ed' = (Inr (), ed')"
    if "(\<exists>xs. r = xs @ le_pending ed') \<and> feed_loop env (le_pending ed') ed' = (Inr (), ed')" "\<exists>ys. p = ys @ r" for r
    using that by (metis append.assoc)
  have stop: "(\<exists>xs. p = xs @ le_pending ed') \<and> feed_loop env (le_pending ed') ed' = (Inr (), ed')"
    if "feed_loop env p ed = (Inr (), ed\<lparr>le_pending := p\<rparr>)"
    using that 1(3) pending_feed [of env p p ed] by auto
  show ?case
  proof (cases "p = []")
    case True
    then have "feed_loop env p ed = (Inr (), ed\<lparr>le_pending := p\<rparr>)" by (simp add: feed_loop.simps)
    then show ?thesis by (rule stop)
  next
    case False
    show ?thesis
    proof (cases "hd p = 27")
      case esc: True
      show ?thesis
      proof (cases "consume_escape p")
        case None
        then show ?thesis using False esc stop by (simp add: feed_loop.simps [of env p ed])
      next
        case (Some x)
        obtain s r where x: "x = (s, r)" by (cases x)
        have "feed_loop env r (handle_escape s ed) = (Inr (), ed')"
          using 1(3) False esc Some x by (simp add: feed_loop.simps [of env p ed])
        from step [OF 1(1) [OF False esc Some x [symmetric] this] consume_suffix(1) [OF Some [unfolded x]]] show ?thesis .
      qed
    next
      case key: False
      show ?thesis
      proof (cases "consume_utf8 p")
        case None
        then show ?thesis using False key stop by (simp add: feed_loop.simps [of env p ed])
      next
        case (Some x)
        obtain c r where x: "x = (c, r)" by (cases x)
        obtain q ed1 where h: "handle_char env c ed = (q, ed1)" by fastforce
        have "q = Inr () \<and> feed_loop env r ed1 = (Inr (), ed')"
          using 1(3) False key Some x h by (cases q) (simp_all add: feed_loop.simps [of env p ed])
        then show ?thesis
          using step [OF 1(2) [OF False key Some x [symmetric] h [symmetric]] consume_suffix(2) [OF Some [unfolded x]]] by simp
      qed
    qed
  qed
qed

lemma feed_all_concat:
  assumes "no_long_escape (le_pending ed @ concat cs)" and "feed env [] ed = (Inr (), ed)"
    and "feed env (concat cs) ed = (Inr (), ed')"
  shows "feed_all env cs ed = (Inr (), ed')"
  using assms
proof (induction cs arbitrary: ed)
  case Nil
  then show ?case by (simp add: sret_def)
next
  case (Cons c cs)
  let ?p = "le_pending ed @ c"
  have "no_long_escape ?p"
    using Cons.prems(1) unfolding no_long_escape_def by (metis append.assoc concat.simps(2))
  note split = feed_loop_append [OF this, of env "concat cs" ed]
  obtain r ed1 where first: "feed_loop env ?p ed = (r, ed1)" by fastforce
  have go: "r = Inr ()" "feed env (concat cs) ed1 = (Inr (), ed')"
    using split Cons.prems(3) first by (cases r; simp add: feed_def)+
  note left = feed_loop_left [OF first [unfolded go(1)]]
  then have "no_long_escape (le_pending ed1 @ concat cs)"
    using Cons.prems(1) no_long_escape_suffix by (metis append.assoc concat.simps(2))
  from Cons.IH [OF this _ go(2)] left first go(1) show ?case
    by (simp add: feed_def sbind_def)
qed

subsection \<open>Pasted text\<close>

lemma consume_utf8_char:
  assumes "\<not> surrogate c" and "c < 1114112"
  shows "consume_utf8 (utf8_char c @ rest) = Some ([c], rest)"
proof -
  define n :: nat where "n = (if hd (utf8_char c) < 192 then 1 else if hd (utf8_char c) < 224 then 2
    else if hd (utf8_char c) < 240 then 3 else 4)"
  have "c div 64 < 32" if "c < 2048" using that by (simp add: less_mult_imp_div_less)
  moreover have "c div 4096 < 16" if "c < 65536" using that by (simp add: less_mult_imp_div_less)
  ultimately have n: "length (utf8_char c) = n" by (auto simp: n_def)
  have "consume_utf8 (utf8_char c) = (if length (utf8_char c) < n then None
      else Some (decode_replace (take n (utf8_char c)), drop n (utf8_char c)))"
    by (simp add: consume_utf8_def n_def Let_def del: utf8_char.simps)
  moreover have "decode_replace (utf8_char c) = [c]"
    using decode_replace_utf8 [of "[c]"] assms by (simp add: encodable_def del: utf8_char.simps)
  ultimately have "consume_utf8 (utf8_char c) = Some ([c], [])" using n by (simp del: utf8_char.simps)
  from consume_utf8_append [OF _ this, of rest] show ?thesis by simp
qed

lemma hd_utf8_char: "hd (utf8_char c @ rest) = 27 \<longleftrightarrow> c = 27" "utf8_char c \<noteq> []"
  by auto

definition paste_char :: "line_editor \<Rightarrow> nat \<Rightarrow> line_editor" where
  "paste_char ed c = (if c = 13 \<or> c = 10 then insert_newline ed else add_char [c] ed)"

lemma paste_fold [simp]:
  "le_paste (foldl paste_char ed t) = le_paste ed" "le_results (foldl paste_char ed t) = le_results ed"
  "concat (le_buffer (foldl paste_char ed t)) = concat (le_buffer ed) @ map (\<lambda>c. if c = 13 then 10 else c) t"
  by (induction t arbitrary: ed) (simp_all add: paste_char_def insert_newline_def add_char_def echo_def)

lemma feed_pasted_text:
  assumes "encodable t" and "27 \<notin> set t" and "le_paste ed"
  shows "feed_loop env (utf8 t @ rest) ed = feed_loop env rest (foldl paste_char ed t)"
  using assms
proof (induction t arbitrary: ed)
  case (Cons c t)
  have c: "\<not> surrogate c" "c < 1114112" "c \<noteq> 27" "encodable t" using Cons.prems by (auto simp: encodable_def)
  have "le_paste (paste_char ed c)" using Cons.prems by (simp add: paste_char_def insert_newline_def add_char_def echo_def)
  note IH = Cons.IH [OF c(4) _ this]
  have "handle_char env [c] ed = (Inr (), paste_char ed c)"
    using Cons.prems by (simp add: handle_char_def paste_char_def)
  then have "feed_loop env (utf8_char c @ utf8 t @ rest) ed = feed_loop env (utf8 t @ rest) (paste_char ed c)"
    using c consume_utf8_char [OF c(1,2), of "utf8 t @ rest"] hd_utf8_char(1) [of c "utf8 t @ rest"] hd_utf8_char(2) [of c]
    by (simp add: feed_loop.simps [of env "utf8_char c @ utf8 t @ rest"] del: utf8_char.simps)
  with IH Cons.prems show ?case by (simp del: utf8_char.simps)
qed simp

lemma feed_marker:
  "feed_loop env (paste_start @ rest) ed = feed_loop env rest (ed\<lparr>le_paste := True\<rparr>)"
  "feed_loop env (paste_end @ rest) ed = feed_loop env rest (ed\<lparr>le_paste := False\<rparr>)"
  by (simp_all add: feed_loop.simps [of env "_ # _"] consume_escape_def handle_escape_def paste_start_def paste_end_def)

lemma no_long_escape_paste:
  assumes "27 \<notin> set t"
  shows "no_long_escape (paste_start @ utf8 t @ paste_end @ [13])"
  unfolding no_long_escape_def
proof (intro allI impI notI)
  fix xs ys zs
  assume split: "paste_start @ utf8 t @ paste_end @ [13] = xs @ ys @ zs" and long: "long_escape ys"
  have U: "27 \<notin> set (utf8 t)" using assms utf8_low_byte [of 27 t] by auto
  obtain b bs where ys: "ys = 27 # 91 # bs" "62 < length bs" "final_byte bs = None"
    using long by (cases ys; cases "tl ys") (auto simp: long_escape_def)
  show False
  proof (cases "xs = []")
    case True
    then have "50 # 48 # 48 # 126 # utf8 t @ paste_end @ [13] = bs @ zs"
      using split ys(1) by (simp add: paste_start_def)
    then obtain w where "bs = 50 # 48 # 48 # 126 # w" using ys(2) by (cases bs; cases "tl bs"; cases "tl (tl bs)"; cases "tl (tl (tl bs))") auto
    then show False using ys(3) by simp
  next
    case False
    have "27 \<notin> set (tl paste_start @ utf8 t)" using U by (simp add: paste_start_def)
    moreover have "(tl paste_start @ utf8 t) @ paste_end @ [13] = tl xs @ 27 # 91 # bs @ zs"
      using split False ys(1) by (cases xs) (auto simp: paste_start_def)
    ultimately have "length (tl paste_start @ utf8 t) \<le> length (tl xs)"
      by (metis append_eq_append_conv_if hd_drop_conv_nth in_set_conv_nth list.sel(1) not_le nth_append nth_append_length)
    then have "length (27 # 91 # bs @ zs) \<le> length (paste_end @ [13])"
      using arg_cong [OF \<open>(tl paste_start @ utf8 t) @ paste_end @ [13] = tl xs @ 27 # 91 # bs @ zs\<close>, of length] by simp
    then show False using ys(2) by (simp add: paste_end_def)
  qed
qed

text \<open>
  C32. Pasted text arrives whole. A text is pasted between the terminal's markers and Enter is pressed after
  it; the bytes come in chunks of any size, cut inside characters or markers. Then exactly one message is
  submitted, and only by that Enter: what had been typed before, followed by the pasted text with its carriage
  returns as newlines.
\<close>

theorem pasted_text_exact:
  assumes "concat chunks = paste_start @ utf8 t @ paste_end @ [13]" and "encodable t" and "27 \<notin> set t"
    and "le_pending ed = []"
  shows "\<exists>ed'. feed_all env chunks ed = (Inr (), ed') \<and> le_pending ed' = [] \<and> \<not> le_paste ed' \<and> le_buffer ed' = [] \<and>
    le_results ed' = le_results ed @ [Some (concat (le_buffer ed) @ map (\<lambda>c. if c = 13 then 10 else c) t)]"
proof -
  define ed1 where "ed1 = (foldl paste_char (ed\<lparr>le_paste := True\<rparr>) t)\<lparr>le_paste := False\<rparr>"
  have "feed_loop env (paste_start @ utf8 t @ paste_end @ [13]) ed = feed_loop env [13] ed1"
    using feed_pasted_text [OF assms(2,3), of "ed\<lparr>le_paste := True\<rparr>" env "paste_end @ [13]"]
    by (simp add: feed_marker ed1_def)
  also have "\<dots> = (Inr (), (submit ed1)\<lparr>le_pending := []\<rparr>)"
    by (simp add: feed_loop.simps [of env "[13]"] feed_loop.simps [of env "[]"] consume_utf8_def handle_char_def ed1_def
        decode_step_def)
  finally have "feed env (concat chunks) ed = (Inr (), (submit ed1)\<lparr>le_pending := []\<rparr>)"
    using assms(1,4) by (simp add: feed_def)
  moreover have "feed env [] ed = (Inr (), ed)" using assms(4) by (simp add: feed_def feed_loop.simps)
  moreover have "no_long_escape (le_pending ed @ concat chunks)" using assms no_long_escape_paste by simp
  ultimately have "feed_all env chunks ed = (Inr (), (submit ed1)\<lparr>le_pending := []\<rparr>)" by (metis feed_all_concat)
  then show ?thesis by (simp add: submit_def echo_def ed1_def)
qed

text \<open>A terminal of one-column characters.\<close>

definition plain_terminal :: editor_env where
  "plain_terminal =
     \<lparr>tt_cell_len = (\<lambda>s. int (length s)), tt_graphemes = (\<lambda>s. map (\<lambda>i. (i, Suc i)) [0..<length s]),
      tt_printable = (\<lambda>c. 32 \<le> c \<and> c \<noteq> 127), tt_format = (\<lambda>_. False), tt_columns = None\<rparr>"

theorem pasted_text_exact_witness:
  "\<exists>ed. feed_all plain_terminal [[27, 91, 50], [48, 48, 126, 104, 13, 229], [165, 189, 27], [91, 50, 48, 49, 126, 13]]
     new_editor = (Inr (), ed) \<and> le_results ed = [Some [104, 10, 22909]] \<and> le_buffer ed = []"
proof -
  have bytes: "concat [[27, 91, 50], [48, 48, 126, 104, 13, 229], [165, 189, 27], [91, 50, 48, 49, 126, 13]] =
      paste_start @ utf8 [104, 13, 22909] @ paste_end @ [13]"
    by (simp add: paste_start_def paste_end_def)
  from pasted_text_exact [OF bytes, of new_editor plain_terminal] show ?thesis
    by (auto simp: encodable_def surrogate_def new_editor_def)
qed

text \<open>
  A byte that begins a longer character takes the following keys with it: Enter is not seen, and unless the
  terminal counts a carriage return as printable the callback raises and drops both.
\<close>

lemma lead_byte_swallows_enter:
  assumes "\<not> tt_printable env 13"
  shows "\<exists>ed. feed env [195, 13] new_editor = (Inl TypeExn, ed) \<and> le_results ed = [] \<and> le_buffer ed = [] \<and> le_pending ed = []"
  using assms
  by (simp add: feed_def new_editor_def feed_loop.simps [of env "_ # _"] consume_utf8_def decode_step_def cont_byte_def
      handle_char_def)

end
