(* ===== verification/Shell.thy ===== *)
theory Shell
  imports Pipeline Background Incidents Journal_Models Input
begin

text \<open>
  \<open>runtime/shell.py\<close>: the session around the pipeline, the background tasks and the application. The
  application is an argument over a state of its own. \<open>shell_step\<close> is the interleaving of everything that can
  happen between two awaits: each of its steps is one of the pipeline or of the executor, or one of the shell.
\<close>

subsection \<open>The shell\<close>

datatype shell_output = ShellOut pystr | ShellWarning pystr

record shell =
  sh_session :: session_state
  sh_last_reload :: reload_status
  sh_counters :: "(pystr \<times> int) list"
  sh_stopped :: bool
  sh_reason :: pystr
  sh_error :: "exn option"
  sh_log :: "shell_output list"

definition new_shell :: shell where
  "new_shell =
     \<lparr>sh_session = SessionIdle, sh_last_reload = \<lparr>rl_revision = [], rl_ok = True, rl_error = None\<rparr>,
      sh_counters = [(u ''chat_turns'', 0), (u ''events'', 0), (u ''events_failed'', 0), (u ''tasks_succeeded'', 0),
                     (u ''tasks_failed'', 0)],
      sh_stopped = False, sh_reason = u ''eof'', sh_error = None, sh_log = []\<rparr>"

record 'a app_ports =
  ap_pending :: "('a \<Rightarrow> pystr option result) option"
  ap_reload :: "('a, reload_status) op option"
  ap_run_turn :: "pystr \<Rightarrow> bool \<Rightarrow> pystr option \<Rightarrow> ('a, unit) op"
  ap_handlers :: "(pystr \<times> ((pystr \<times> json) list \<Rightarrow> ('a, unit) op)) list"
  ap_str :: "json \<Rightarrow> pystr"

definition request_stop :: "pystr \<Rightarrow> shell \<Rightarrow> shell" where
  "request_stop reason sh = sh\<lparr>sh_reason := reason, sh_stopped := True\<rparr>"

definition request_abort :: "shell \<Rightarrow> shell" where
  "request_abort sh = sh\<lparr>sh_reason := u ''sigint'', sh_stopped := True\<rparr>"

definition on_input_eof :: "shell \<Rightarrow> shell" where
  "on_input_eof sh = (if \<not> sh_stopped sh then request_stop (u ''eof'') sh else sh)"

definition count_up :: "string \<Rightarrow> shell \<Rightarrow> shell" where
  "count_up name sh =
     sh\<lparr>sh_counters := dict_set (u name)
          ((case dict_get (sh_counters sh) (u name) of None \<Rightarrow> 0 | Some n \<Rightarrow> n) + 1) (sh_counters sh)\<rparr>"

fun boundary_value :: "input_boundary \<Rightarrow> pystr" where
  "boundary_value PipeEof = u ''pipe_eof''"
| "boundary_value BufferEmpty = u ''buffer_empty''"

definition chat_payload :: "pystr \<Rightarrow> bool \<Rightarrow> pystr option \<Rightarrow> input_boundary \<Rightarrow> (pystr \<times> json) list" where
  "chat_payload text' resume_pending turn_id boundary =
     [(u ''text'', JStr text'), (u ''source_boundary'', JStr (boundary_value boundary)),
      (u ''resume_pending'', JBool resume_pending),
      (u ''turn_id'', case turn_id of None \<Rightarrow> JNull | Some i \<Rightarrow> JStr i)]"

definition submit_chat ::
  "pystr \<Rightarrow> bool \<Rightarrow> pystr option \<Rightarrow> input_boundary \<Rightarrow> pystr \<Rightarrow> py_datetime \<Rightarrow> (pipeline, pipeline_item) op"
where
  "submit_chat text' resume_pending turn_id boundary =
     pipeline_submit ChatInput (chat_payload text' resume_pending turn_id boundary)"

definition on_input_action :: "conversation_action \<Rightarrow> pystr \<Rightarrow> py_datetime \<Rightarrow> (pipeline, pipeline_item) op" where
  "on_input_action a = submit_chat (action_text a) False None (ca_boundary a)"

subsection \<open>The status\<close>

definition status_counters :: "shell \<Rightarrow> task_record list \<Rightarrow> (pystr \<times> int) list" where
  "status_counters sh tasks =
     dict_set (u ''tasks_failed'') (int (length (filter (\<lambda>t. bt_status t = TaskFailure) tasks)))
       (dict_set (u ''tasks_succeeded'') (int (length (filter (\<lambda>t. bt_status t = TaskSuccess) tasks))) (sh_counters sh))"

definition status_snapshot ::
  "pystr option result option \<Rightarrow> rat \<Rightarrow> task_record list \<Rightarrow> pipeline \<Rightarrow> shell \<Rightarrow> runtime_status result"
where
  "status_snapshot pending uptime tasks p sh =
     rbind (case pending of None \<Rightarrow> Inr None | Some r \<Rightarrow> r) (\<lambda>pending_id.
     validated runtime_status_ok
       \<lparr>rs_session = sh_session sh, rs_queue_depth = int (queue_depth p),
        rs_current_item = (if sh_session sh = SessionProcessing then pl_current p else None), rs_tasks = tasks,
        rs_health = (if \<not> rl_ok (sh_last_reload sh) \<or> (\<exists>t\<in>set tasks. bt_status t = TaskFailure)
                     then HealthWarning else HealthOk),
        rs_last_reload = sh_last_reload sh, rs_pending_turn = pending_id, rs_counters = status_counters sh tasks,
        rs_uptime = uptime\<rparr>)"

fun task_status_value :: "task_status \<Rightarrow> pystr" where
  "task_status_value TaskWaiting = u ''waiting''"
| "task_status_value TaskRunning = u ''running''"
| "task_status_value TaskSuccess = u ''success''"
| "task_status_value TaskFailure = u ''failure''"

fun session_value :: "session_state \<Rightarrow> pystr" where
  "session_value SessionIdle = u ''idle''"
| "session_value SessionProcessing = u ''processing''"
| "session_value SessionStopping = u ''stopping''"

fun health_value :: "health_state \<Rightarrow> pystr" where
  "health_value HealthOk = u ''ok''"
| "health_value HealthWarning = u ''warning''"

definition dump_task :: "time_ser \<Rightarrow> task_record \<Rightarrow> json" where
  "dump_task ser t = JObj
     [(u ''task_id'', JStr (bt_task_id t)), (u ''name'', JStr (bt_name t)),
      (u ''status'', JStr (task_status_value (bt_status t))), (u ''created_at'', JStr (ser (bt_created_at t))),
      (u ''started_at'', opt_json (\<lambda>d. JStr (ser d)) (bt_started_at t)),
      (u ''finished_at'', opt_json (\<lambda>d. JStr (ser d)) (bt_finished_at t)),
      (u ''error'', opt_json JStr (bt_error t))]"

definition dump_reload :: "reload_status \<Rightarrow> json" where
  "dump_reload r = JObj
     [(u ''revision'', JStr (rl_revision r)), (u ''ok'', JBool (rl_ok r)),
      (u ''error'', opt_json (\<lambda>d. JObj (map (\<lambda>(k, v). (k, JStr v)) d)) (rl_error r))]"

definition dump_status :: "time_ser \<Rightarrow> (rat \<Rightarrow> pystr) \<Rightarrow> runtime_status \<Rightarrow> (pystr \<times> json) list" where
  "dump_status ser float_repr s =
     [(u ''session_state'', JStr (session_value (rs_session s))), (u ''queue_depth'', JInt (rs_queue_depth s)),
      (u ''current_item_id'', opt_json JStr (rs_current_item s)), (u ''tasks'', JArr (map (dump_task ser) (rs_tasks s))),
      (u ''health'', JStr (health_value (rs_health s))), (u ''last_reload'', dump_reload (rs_last_reload s)),
      (u ''pending_turn_id'', opt_json JStr (rs_pending_turn s)),
      (u ''counters'', JObj (map (\<lambda>(k, v). (k, JInt v)) (rs_counters s))),
      (u ''uptime_seconds'', JFloat (float_repr (rs_uptime s)))]"

definition status_text :: "time_ser \<Rightarrow> (rat \<Rightarrow> pystr) \<Rightarrow> runtime_status \<Rightarrow> pystr" where
  "status_text ser float_repr s = canonical_json (JObj (dump_status ser float_repr s @ [(u ''ok'', JBool True)]))"

subsection \<open>Handling an item\<close>

text \<open>What the shell reads while it handles an item: the writers, the clock, the tasks and the pipeline.\<close>

record shell_view =
  vw_ser :: time_ser
  vw_float :: "rat \<Rightarrow> pystr"
  vw_uptime :: rat
  vw_tasks :: "task_record list"
  vw_pipeline :: pipeline

definition reload_warning :: "reload_status \<Rightarrow> pystr" where
  "reload_warning r =
     (let detail = (case rl_error r of None \<Rightarrow> [] | Some d \<Rightarrow> d);
          field = (\<lambda>name. case dict_get detail (u name) of None \<Rightarrow> u ''?'' | Some x \<Rightarrow> x)
      in [91, 35686, 21578, 93, 32, 37197, 32622, 37325, 36733, 22833, 36133, 65292, 32487, 32493, 20351, 29992, 32] @
         u ''config_revision='' @ rl_revision r @
         [10, 32, 32, 20998, 32452, 58, 32] @ field ''group'' @
         [10, 32, 32, 23383, 27573, 58, 32] @ field ''field'' @
         [10, 32, 32, 21407, 22240, 58, 32] @ field ''reason'')"

definition reload_with_visibility :: "('a, reload_status) op \<Rightarrow> (shell \<times> 'a, unit) op" where
  "reload_with_visibility reload = (\<lambda>(sh, a).
     (case reload a of
        (Inl e, a') \<Rightarrow> (Inl e, (sh, a'))
      | (Inr status, a') \<Rightarrow>
          (Inr (), (sh\<lparr>sh_last_reload := status,
                      sh_log := sh_log sh @ (if rl_ok status then [] else [ShellWarning (reload_warning status)])\<rparr>, a'))))"

definition run_chat_text :: "'a app_ports \<Rightarrow> pystr \<Rightarrow> (pystr \<times> json) list \<Rightarrow> (shell \<times> 'a, unit) op" where
  "run_chat_text ports text' payload =
     (let resume = json_truthy (dict_get payload (u ''resume_pending''));
          turn_id = (if resume \<and> json_truthy (dict_get payload (u ''turn_id''))
                     then map_option (ap_str ports) (dict_get payload (u ''turn_id'')) else None);
          turn = (\<lambda>(sh, a). case ap_run_turn ports text' resume turn_id a of (r, a') \<Rightarrow> (r, (sh, a')))
      in case ap_reload ports of
           None \<Rightarrow> turn
         | Some reload \<Rightarrow> sbind (reload_with_visibility reload) (\<lambda>_. turn))"

definition emit_status :: "'a app_ports \<Rightarrow> shell_view \<Rightarrow> (shell \<times> 'a, unit) op" where
  "emit_status ports view = (\<lambda>(sh, a).
     (case status_snapshot (map_option (\<lambda>f. f a) (ap_pending ports)) (vw_uptime view) (vw_tasks view) (vw_pipeline view) sh of
        Inl e \<Rightarrow> (Inl e, (sh, a))
      | Inr s \<Rightarrow> (Inr (), (sh\<lparr>sh_log := sh_log sh @ [ShellOut (status_text (vw_ser view) (vw_float view) s)]\<rparr>, a))))"

definition begin_chat :: "shell \<Rightarrow> shell" where
  "begin_chat sh = sh\<lparr>sh_session := SessionProcessing\<rparr>"

text \<open>The \<open>except\<close> and \<open>finally\<close> clauses of \<open>_handle_chat\<close>.\<close>

definition is_interrupted :: "exn \<Rightarrow> bool" where
  "is_interrupted e \<longleftrightarrow> is_bai e \<and> bai_class_of e = TurnInterruptedClass"

definition end_chat :: "unit result \<Rightarrow> shell \<Rightarrow> unit result \<times> shell" where
  "end_chat r sh =
     (case (case r of
              Inl e \<Rightarrow> if \<not> is_turn_rejected e then (Inl e, sh)
                       else if is_interrupted e then (Inl e, request_stop (u ''sigint'') sh) else (Inr (), sh)
            | Inr _ \<Rightarrow> (Inr (), sh)) of
        (r', sh') \<Rightarrow> (r', sh'\<lparr>sh_session := (if sh_stopped sh' then SessionStopping else SessionIdle)\<rparr>))"

definition chat_text :: "'a app_ports \<Rightarrow> pipeline_item \<Rightarrow> pystr" where
  "chat_text ports item =
     (case dict_get (pi_payload item) (u ''text'') of None \<Rightarrow> [] | Some x \<Rightarrow> ap_str ports x)"

definition handle_chat :: "'a app_ports \<Rightarrow> shell_view \<Rightarrow> pipeline_item \<Rightarrow> (shell \<times> 'a, unit) op" where
  "handle_chat ports view item = (\<lambda>(sh, a).
     (case (if chat_text ports item = u '':status'' then emit_status ports view
            else sbind (run_chat_text ports (chat_text ports item) (pi_payload item))
                   (\<lambda>_ (sh, a). (Inr (), (count_up ''chat_turns'' sh, a)))) (begin_chat sh, a) of
        (r, (sh', a')) \<Rightarrow> (case end_chat r sh' of (r', sh'') \<Rightarrow> (r', (sh'', a')))))"

definition handle_event :: "'a app_ports \<Rightarrow> pipeline_item \<Rightarrow> (shell \<times> 'a, unit) op" where
  "handle_event ports item = (\<lambda>(sh, a).
     (let sh = count_up ''events'' sh;
          kind = (case dict_get (pi_payload item) (u ''event_kind'') of None \<Rightarrow> [] | Some x \<Rightarrow> ap_str ports x)
      in case dict_get (ap_handlers ports) kind of
           None \<Rightarrow> (Inr (), (sh, a))
         | Some h \<Rightarrow>
             (case h (pi_payload item) a of
                (Inl e, a') \<Rightarrow> if is_exception e then (Inr (), (count_up ''events_failed'' sh, a')) else (Inl e, (sh, a'))
              | (Inr _, a') \<Rightarrow> (Inr (), (sh, a')))))"

definition handle_item :: "'a app_ports \<Rightarrow> shell_view \<Rightarrow> pipeline_item \<Rightarrow> (shell \<times> 'a, unit) op" where
  "handle_item ports view item =
     (if pi_kind item = ChatInput then handle_chat ports view item else handle_event ports item)"

definition register_event_handler :: "pystr \<Rightarrow> ((pystr \<times> json) list \<Rightarrow> ('a, unit) op) \<Rightarrow> 'a app_ports \<Rightarrow> 'a app_ports" where
  "register_event_handler kind h ports = ports\<lparr>ap_handlers := dict_set kind h (ap_handlers ports)\<rparr>"

subsection \<open>The end of a session\<close>

text \<open>\<open>_watch_worker\<close>, once the worker of the pipeline has ended.\<close>

definition watch_worker :: "pipeline_worker \<Rightarrow> shell \<Rightarrow> shell" where
  "watch_worker w sh =
     (case w of
        WorkerRaised e \<Rightarrow> sh\<lparr>sh_error := (if e = CancelledExn then sh_error sh else Some e), sh_stopped := True\<rparr>
      | _ \<Rightarrow> sh\<lparr>sh_stopped := True\<rparr>)"

definition exit_code :: "shell \<Rightarrow> int result" where
  "exit_code sh = (case sh_error sh of Some e \<Rightarrow> Inl e | None \<Rightarrow> Inr (if sh_reason sh = u ''sigint'' then 130 else 0))"

subsection \<open>The interleaving\<close>

record 'f shell_run =
  sr_pipe :: pipeline_run
  sr_tasks :: "'f executor_state"
  sr_shell :: shell

definition shell_start :: "'f shell_run" where
  "shell_start = \<lparr>sr_pipe = pipeline_start, sr_tasks = executor_start, sr_shell = new_shell\<rparr>"

definition run_tasks :: "'f shell_run \<Rightarrow> task_record list" where
  "run_tasks s = executor_records (es_executor (sr_tasks s))"

definition run_view :: "time_ser \<Rightarrow> (rat \<Rightarrow> pystr) \<Rightarrow> rat \<Rightarrow> 'f shell_run \<Rightarrow> shell_view" where
  "run_view ser float_repr uptime s =
     \<lparr>vw_ser = ser, vw_float = float_repr, vw_uptime = uptime, vw_tasks = run_tasks s, vw_pipeline = pr_pipeline (sr_pipe s)\<rparr>"

text \<open>
  Items may be submitted and the pipeline stopped at any time (\<open>queue\<close>); the worker takes an item and the
  handler runs to its first await (\<open>begin_chat_item\<close>, \<open>begin_event_item\<close>); a chat reloads the configuration
  (\<open>reload\<close>); the handler ends with a result and the worker goes on or ends (\<open>end_chat_item\<close>,
  \<open>end_event_item\<close>, \<open>leave\<close>); a background task moves (\<open>task\<close>); the session is asked to stop or aborted
  (\<open>stop\<close>, \<open>abort\<close>), and \<open>run\<close> begins to close it (\<open>closing\<close>).
\<close>

inductive shell_step :: "'f shell_run \<Rightarrow> 'f shell_run \<Rightarrow> bool" where
  queue: "pipeline_step (sr_pipe s) q \<Longrightarrow> pr_worker q = pr_worker (sr_pipe s) \<Longrightarrow> shell_step s (s\<lparr>sr_pipe := q\<rparr>)"
| begin_chat_item: "pipeline_step (sr_pipe s) q \<Longrightarrow> pr_worker (sr_pipe s) = WorkerWaiting \<Longrightarrow> pr_worker q = WorkerBusy i \<Longrightarrow>
    pi_kind i = ChatInput \<Longrightarrow> shell_step s (s\<lparr>sr_pipe := q, sr_shell := begin_chat (sr_shell s)\<rparr>)"
| begin_event_item: "pipeline_step (sr_pipe s) q \<Longrightarrow> pr_worker (sr_pipe s) = WorkerWaiting \<Longrightarrow> pr_worker q = WorkerBusy i \<Longrightarrow>
    pi_kind i \<noteq> ChatInput \<Longrightarrow> shell_step s (s\<lparr>sr_pipe := q, sr_shell := count_up ''events'' (sr_shell s)\<rparr>)"
| reload: "pr_worker (sr_pipe s) = WorkerBusy i \<Longrightarrow> pi_kind i = ChatInput \<Longrightarrow>
    reload_with_visibility (\<lambda>_ :: unit. (result, ())) (sr_shell s, ()) = (r, (sh, none)) \<Longrightarrow> shell_step s (s\<lparr>sr_shell := sh\<rparr>)"
| end_chat_item: "pr_worker (sr_pipe s) = WorkerBusy i \<Longrightarrow> pi_kind i = ChatInput \<Longrightarrow>
    end_chat r (if counted then count_up ''chat_turns'' (sr_shell s) else sr_shell s) = (r', sh) \<Longrightarrow>
    worker_finish r' (pr_pipeline (sr_pipe s)) = (x, p) \<Longrightarrow>
    shell_step s (s\<lparr>sr_pipe := (sr_pipe s)\<lparr>pr_pipeline := p, pr_worker := x\<rparr>, sr_shell := sh\<rparr>)"
| end_event_item: "pr_worker (sr_pipe s) = WorkerBusy i \<Longrightarrow> pi_kind i \<noteq> ChatInput \<Longrightarrow>
    worker_finish r (pr_pipeline (sr_pipe s)) = (x, p) \<Longrightarrow>
    sh = (if failed then count_up ''events_failed'' (sr_shell s) else sr_shell s) \<Longrightarrow>
    shell_step s (s\<lparr>sr_pipe := (sr_pipe s)\<lparr>pr_pipeline := p, pr_worker := x\<rparr>, sr_shell := sh\<rparr>)"
| leave: "pipeline_step (sr_pipe s) q \<Longrightarrow> pr_worker (sr_pipe s) = WorkerWaiting \<Longrightarrow> ended (pr_worker q) \<Longrightarrow>
    shell_step s (s\<lparr>sr_pipe := q\<rparr>)"
| watch: "ended (pr_worker (sr_pipe s)) \<Longrightarrow>
    shell_step s (s\<lparr>sr_shell := watch_worker (pr_worker (sr_pipe s)) (sr_shell s)\<rparr>)"
| task: "executor_step (sr_tasks s) e \<Longrightarrow> shell_step s (s\<lparr>sr_tasks := e\<rparr>)"
| stop: "shell_step s (s\<lparr>sr_shell := request_stop reason (sr_shell s)\<rparr>)"
| abort: "shell_step s (s\<lparr>sr_shell := request_abort (sr_shell s)\<rparr>)"
| closing: "sh_stopped (sr_shell s) \<Longrightarrow> shell_step s (s\<lparr>sr_shell := (sr_shell s)\<lparr>sh_session := SessionStopping\<rparr>\<rparr>)"

text \<open>What every reachable state satisfies: the pipeline's own invariant, and a chat while it is processing.\<close>

definition shell_ok :: "'f shell_run \<Rightarrow> bool" where
  "shell_ok s \<longleftrightarrow>
     pipeline_step\<^sup>*\<^sup>* pipeline_start (sr_pipe s) \<and>
     (sh_session (sr_shell s) = SessionProcessing \<longrightarrow>
        (\<exists>i. pr_worker (sr_pipe s) = WorkerBusy i \<and> pi_kind i = ChatInput))"

lemma session_simps [simp]:
  "sh_session (count_up name sh) = sh_session sh" "sh_session (request_stop reason sh) = sh_session sh"
  "sh_session (request_abort sh) = sh_session sh" "sh_session (begin_chat sh) = SessionProcessing"
  "sh_session (watch_worker w sh) = sh_session sh"
  by (simp_all add: count_up_def request_stop_def request_abort_def begin_chat_def watch_worker_def
      split: pipeline_worker.split)

lemma reload_session: "reload_with_visibility f (sh, a) = (r, (sh', a')) \<Longrightarrow> sh_session sh' = sh_session sh"
  by (auto simp: reload_with_visibility_def split: prod.splits sum.splits)

lemma end_chat_session: "end_chat r sh = (r', sh') \<Longrightarrow> sh_session sh' \<noteq> SessionProcessing"
  by (auto simp: end_chat_def split: sum.splits if_splits)

lemma worker_finish_idle: "worker_finish r p = (x, p') \<Longrightarrow> x \<noteq> WorkerBusy i"
  by (auto simp: worker_finish_def finally_done_def split: prod.splits sum.splits)

lemma busy_item_id:
  assumes "pipeline_step\<^sup>*\<^sup>* pipeline_start p" and "pr_worker p = WorkerBusy i"
  shows "pi_item_id i \<noteq> []" "pl_current (pr_pipeline p) = Some (pi_item_id i)"
proof -
  have ok: "pipeline_ok p" by (rule pipeline_ok_reachable [OF assms(1)])
  have "prefix (pr_started p @ queued (aq_items (pl_queue (pr_pipeline p)))) (pr_accepted p)"
    using pipeline.started_in_order [OF good_steps [OF assms(1)]]
    by (simp add: pipeline_view_def pipeline_start_def new_pipeline_def)
  moreover have "i \<in> set (pr_started p)" using ok assms(2) by (auto simp: pipeline_ok_def)
  ultimately have "i \<in> set (pr_accepted p)" by (auto simp: prefix_def)
  then have "pipeline_item_ok i" using ok by (simp add: pipeline_ok_def)
  then show "pi_item_id i \<noteq> []" by (auto simp: pipeline_item_ok_def validate_prefixed_uuid_def startswith_def u_Cons)
  show "pl_current (pr_pipeline p) = Some (pi_item_id i)" using ok assms(2) by (simp add: pipeline_ok_def)
qed

lemma pipe_step: "shell_step s s' \<Longrightarrow> sr_pipe s' = sr_pipe s \<or> pipeline_step (sr_pipe s) (sr_pipe s')"
  by (induction rule: shell_step.induct) (auto intro: pipeline_step.finish)

lemma shell_ok_step: "shell_step s s' \<Longrightarrow> shell_ok s \<Longrightarrow> shell_ok s'"
proof -
  assume step: "shell_step s s'" and ok: "shell_ok s"
  have "pipeline_step\<^sup>*\<^sup>* pipeline_start (sr_pipe s')"
    using pipe_step [OF step] ok by (auto simp: shell_ok_def intro: rtranclp.rtrancl_into_rtrancl)
  moreover have "sh_session (sr_shell s') = SessionProcessing \<longrightarrow>
      (\<exists>i. pr_worker (sr_pipe s') = WorkerBusy i \<and> pi_kind i = ChatInput)"
    using step ok reload_session end_chat_session
    by (induction rule: shell_step.induct) (auto simp: shell_ok_def)
  ultimately show ?thesis by (simp add: shell_ok_def)
qed

lemma shell_ok_reachable: "shell_step\<^sup>*\<^sup>* shell_start s \<Longrightarrow> shell_ok s"
  by (induction rule: rtranclp_induct)
    (simp add: shell_ok_def shell_start_def new_shell_def, erule shell_ok_step)


text \<open>Once the pipeline is stopping, nothing is accepted and nothing more is started.\<close>

lemma stopping_step:
  assumes "pipeline_ok p" and "pl_stopping (pr_pipeline p)" and "pipeline_step p q"
  shows "pl_stopping (pr_pipeline q) \<and> pr_started q = pr_started p \<and> pr_accepted q = pr_accepted p"
  using assms(3)
proof (cases rule: pipeline_step.cases)
  case (submit kind payload uuid now r p')
  then show ?thesis using assms(2) by (auto simp: pipeline_submit_def)
next
  case (stop r p')
  then show ?thesis by (auto simp: pipeline_stop_def split: prod.splits sum.splits)
next
  case (get x p')
  then show ?thesis using assms(1,2)
    by (auto simp: pipeline_ok_def worker_get_def queue_get_def finally_done_def split: prod.splits sum.splits)
next
  case (finish i r x p')
  then show ?thesis using assms(2) by (auto simp: worker_finish_def finally_done_def split: prod.splits sum.splits)
qed (use assms(2) in simp)

text \<open>
  What waits when the session ends is lost. Once \<open>run\<close> has stopped the pipeline, because of the end of the
  input as much as because of a signal, no state that can follow accepts an item or starts one: an input that
  was accepted while an earlier turn was being processed is never handled.
\<close>

theorem stop_drops_waiting:
  assumes "shell_step\<^sup>*\<^sup>* shell_start s" and "pl_stopping (pr_pipeline (sr_pipe s))" and "shell_step\<^sup>*\<^sup>* s s'"
  shows "pr_started (sr_pipe s') = pr_started (sr_pipe s) \<and> pr_accepted (sr_pipe s') = pr_accepted (sr_pipe s)"
proof -
  have "shell_step\<^sup>*\<^sup>* shell_start s' \<and> pl_stopping (pr_pipeline (sr_pipe s')) \<and>
    pr_started (sr_pipe s') = pr_started (sr_pipe s) \<and> pr_accepted (sr_pipe s') = pr_accepted (sr_pipe s)"
    using assms(3)
  proof (induction rule: rtranclp_induct)
    case (step t t')
    have ok: "pipeline_ok (sr_pipe t)"
      using step.IH shell_ok_reachable pipeline_ok_reachable by (auto simp: shell_ok_def)
    have "shell_step\<^sup>*\<^sup>* shell_start t'" using step.IH step.hyps(2) by (meson rtranclp.rtrancl_into_rtrancl)
    then show ?case
      using step.IH pipe_step [OF step.hyps(2)] stopping_step [OF ok] by auto
  qed (use assms in simp)
  then show ?thesis by simp
qed

text \<open>A chat is taken while a status is asked for.\<close>

definition sample_chat :: pipeline_item where
  "sample_chat =
     \<lparr>pi_item_id = u ''item-'' @ replicate 32 48, pi_kind = ChatInput, pi_payload = [(u ''text'', JStr (u '':status''))],
      pi_submitted_at = Aware 0 0, pi_sequence = 1\<rparr>"

definition sample_shell_run :: "unit shell_run" where
  "sample_shell_run =
     \<lparr>sr_pipe = \<lparr>pr_pipeline = \<lparr>pl_queue = \<lparr>aq_items = [], aq_unfinished = 1\<rparr>, pl_sequence = 1,
                   pl_current = Some (u ''item-'' @ replicate 32 48), pl_stopping = False\<rparr>,
                 pr_worker = WorkerBusy sample_chat, pr_accepted = [sample_chat], pr_started = [sample_chat]\<rparr>,
      sr_tasks = executor_start, sr_shell = begin_chat new_shell\<rparr>"

lemma sample_shell_reachable: "shell_step\<^sup>*\<^sup>* shell_start sample_shell_run"
proof -
  define s1 :: "unit shell_run" where "s1 = shell_start\<lparr>sr_pipe := pipeline_start\<lparr>pr_pipeline :=
    \<lparr>pl_queue = \<lparr>aq_items = [Some sample_chat], aq_unfinished = 1\<rparr>, pl_sequence = 1, pl_current = None, pl_stopping = False\<rparr>,
    pr_accepted := [sample_chat]\<rparr>\<rparr>"
  have uuid: "validate_prefixed_uuid (u ''item'' @ 45 # replicate 32 48) (u ''item'')"
    by (rule validate_prefixed_uuid_hex) (simp_all add: is_hex_def list_all_iff)
  have "strip (u '':status'') \<noteq> []" by (simp add: strip_eq_Nil is_space_def u_Cons)
  with uuid have "create_pipeline_item (u ''item-'' @ replicate 32 48) ChatInput [(u ''text'', JStr (u '':status''))] (Aware 0 0) 1 =
      Inr sample_chat"
    by (simp add: create_pipeline_item_def sample_chat_def pipeline_item_ok_def validated_def u_Cons del: replicate.simps)
  then have "pipeline_submit ChatInput [(u ''text'', JStr (u '':status''))] (replicate 32 48) (Aware 0 0) new_pipeline =
      (Inr sample_chat, pr_pipeline (sr_pipe s1))"
    by (simp add: pipeline_submit_def new_pipeline_def s1_def queue_put_def empty_queue_def)
  from pipeline_step.submit [of _ _ _ _ pipeline_start, simplified pipeline_start_def pipeline_run.simps, OF this]
  have "pipeline_step pipeline_start (sr_pipe s1)" by (simp add: pipeline_start_def s1_def)
  then have 1: "shell_step shell_start s1"
    using shell_step.queue [of shell_start "sr_pipe s1"] by (simp add: s1_def shell_start_def)
  have "worker_get (pr_pipeline (sr_pipe s1)) = Some (WorkerBusy sample_chat, pr_pipeline (sr_pipe sample_shell_run))"
    by (simp add: worker_get_def queue_get_def s1_def sample_shell_run_def) (simp add: sample_chat_def)
  from pipeline_step.get [OF _ this] have "pipeline_step (sr_pipe s1) (sr_pipe sample_shell_run)"
    by (simp add: s1_def sample_shell_run_def pipeline_start_def)
  then have "shell_step s1 sample_shell_run"
    using shell_step.begin_chat_item [of s1 "sr_pipe sample_shell_run" sample_chat]
    by (simp add: s1_def sample_shell_run_def shell_start_def pipeline_start_def) (simp add: sample_chat_def)
  with 1 show ?thesis by (meson converse_rtranclp_into_rtranclp rtranclp.rtrancl_refl)
qed


text \<open>A message is piped in while an earlier turn is resumed, and the input ends.\<close>

definition piped_chat :: pipeline_item where
  "piped_chat =
     \<lparr>pi_item_id = u ''item-'' @ replicate 32 48, pi_kind = ChatInput, pi_payload = [(u ''text'', JStr (u ''hello''))],
      pi_submitted_at = Aware 0 0, pi_sequence = 2\<rparr>"

definition ended_run :: "unit shell_run" where
  "ended_run = sample_shell_run\<lparr>
     sr_pipe := (sr_pipe sample_shell_run)\<lparr>pr_pipeline :=
       \<lparr>pl_queue = \<lparr>aq_items = [None], aq_unfinished = 2\<rparr>, pl_sequence = 2,
        pl_current = Some (u ''item-'' @ replicate 32 48), pl_stopping = True\<rparr>, pr_accepted := [sample_chat, piped_chat]\<rparr>,
     sr_shell := request_stop (u ''eof'') (begin_chat new_shell)\<rparr>"

lemma ended_run_reachable: "shell_step\<^sup>*\<^sup>* shell_start ended_run"
proof -
  define p1 where "p1 = \<lparr>pl_queue = \<lparr>aq_items = [Some piped_chat], aq_unfinished = 2\<rparr>, pl_sequence = 2,
    pl_current = Some (u ''item-'' @ replicate 32 48), pl_stopping = False\<rparr>"
  define s1 where "s1 = sample_shell_run\<lparr>sr_pipe := (sr_pipe sample_shell_run)\<lparr>pr_pipeline := p1,
    pr_accepted := [sample_chat, piped_chat]\<rparr>\<rparr>"
  define s2 where "s2 = s1\<lparr>sr_shell := request_stop (u ''eof'') (sr_shell s1)\<rparr>"
  have uuid: "validate_prefixed_uuid (u ''item'' @ 45 # replicate 32 48) (u ''item'')"
    by (rule validate_prefixed_uuid_hex) (simp_all add: is_hex_def list_all_iff)
  have "strip (u ''hello'') \<noteq> []" by (simp add: strip_eq_Nil is_space_def u_Cons)
  with uuid have "create_pipeline_item (u ''item-'' @ replicate 32 48) ChatInput [(u ''text'', JStr (u ''hello''))] (Aware 0 0) 2 =
      Inr piped_chat"
    by (simp add: create_pipeline_item_def piped_chat_def pipeline_item_ok_def validated_def u_Cons del: replicate.simps)
  then have submit: "pipeline_submit ChatInput [(u ''text'', JStr (u ''hello''))] (replicate 32 48) (Aware 0 0)
      (pr_pipeline (sr_pipe sample_shell_run)) = (Inr piped_chat, p1)"
    by (simp add: pipeline_submit_def sample_shell_run_def p1_def queue_put_def)
  from pipeline_step.submit [OF submit] have "pipeline_step (sr_pipe sample_shell_run) (sr_pipe s1)"
    by (simp add: s1_def) (simp add: sample_shell_run_def)
  from shell_step.queue [OF this] have 1: "shell_step sample_shell_run s1" by (simp add: s1_def)
  have 2: "shell_step s1 s2" unfolding s2_def by (rule shell_step.stop)
  have "pipeline_stop (pr_pipeline (sr_pipe s2)) = (Inr (), pr_pipeline (sr_pipe ended_run))"
    by (simp add: s2_def s1_def p1_def pipeline_stop_def drain_queue_all ended_run_def queue_put_def)
  from pipeline_step.stop [OF this] have "pipeline_step (sr_pipe s2) (sr_pipe ended_run)"
    by (simp add: s2_def s1_def ended_run_def sample_shell_run_def)
  from shell_step.queue [OF this] have 3: "shell_step s2 ended_run"
    by (simp add: s2_def s1_def ended_run_def) (simp add: sample_shell_run_def)
  from sample_shell_reachable 1 2 3 show ?thesis
    by (meson rtranclp.rtrancl_into_rtrancl)
qed

theorem stop_drops_waiting_witness:
  "\<exists>s. shell_step ended_run s \<and> pr_worker (sr_pipe s) = WorkerWaiting \<and>
     pr_accepted (sr_pipe s) = [sample_chat, piped_chat] \<and> pr_started (sr_pipe s) = [sample_chat]"
proof -
  obtain x p where finish: "worker_finish (Inr ()) (pr_pipeline (sr_pipe ended_run)) = (x, p)" "x = WorkerWaiting"
    by (simp add: worker_finish_def finally_done_def task_done_def ended_run_def)
  define s where "s = ended_run\<lparr>sr_pipe := (sr_pipe ended_run)\<lparr>pr_pipeline := p, pr_worker := x\<rparr>,
    sr_shell := snd (end_chat (Inr ()) (count_up ''chat_turns'' (sr_shell ended_run)))\<rparr>"
  have "end_chat (Inr ()) (if True then count_up ''chat_turns'' (sr_shell ended_run) else sr_shell ended_run) =
      (Inr (), snd (end_chat (Inr ()) (count_up ''chat_turns'' (sr_shell ended_run))))"
    by (simp add: end_chat_def)
  from shell_step.end_chat_item [OF _ _ this finish(1), of sample_chat] have step: "shell_step ended_run s"
    by (simp add: s_def) (simp add: ended_run_def sample_shell_run_def sample_chat_def)
  have "pr_started (sr_pipe s) = pr_started (sr_pipe ended_run) \<and> pr_accepted (sr_pipe s) = pr_accepted (sr_pipe ended_run)"
    by (rule stop_drops_waiting [OF ended_run_reachable]) (use step in \<open>auto simp: ended_run_def\<close>)
  then show ?thesis
    using step finish(2) by (intro exI [of _ s]) (simp add: s_def ended_run_def sample_shell_run_def)
qed

end
