(* ===== verification/Config_Checks.thy ===== *)
theory Config_Checks
  imports Curate Codecs
begin

text \<open>
  \<open>config/validation.py\<close>: the checks of the configuration. A TOML value is a Python value; asking it for
  something its type does not have is a value of the model too (\<open>AttributeError\<close>, \<open>TypeError\<close>,
  \<open>KeyError\<close>), because some of the checks catch such an error and others let it pass. What Python says of a
  float and of a time zone name, and the facts of the file system, are arguments.
\<close>

subsection \<open>Python values\<close>

record py_tables =
  py_float_trunc :: "pystr \<Rightarrow> int result"
  py_float_int :: "pystr \<Rightarrow> int option"
  py_str_other :: "pyval \<Rightarrow> pystr"
  py_float_of :: "pyval \<Rightarrow> pystr result"

abbreviation AttributeExn :: exn where
  "AttributeExn \<equiv> OtherExn ''AttributeError''"

fun py_dict :: "pyval \<Rightarrow> (pystr \<times> pyval) list option" where
  "py_dict (PDict d) = Some d"
| "py_dict (PProxy d) = Some d"
| "py_dict v = None"

definition py_get :: "pyval \<Rightarrow> string \<Rightarrow> pyval \<Rightarrow> pyval result" where
  "py_get v k default' =
     (case py_dict v of Some d \<Rightarrow> Inr (case dict_get d (u k) of None \<Rightarrow> default' | Some x \<Rightarrow> x) | None \<Rightarrow> Inl AttributeExn)"

definition py_item :: "pyval \<Rightarrow> string \<Rightarrow> pyval result" where
  "py_item v k =
     (case py_dict v of Some d \<Rightarrow> (case dict_get d (u k) of None \<Rightarrow> Inl KeyExn | Some x \<Rightarrow> Inr x) | None \<Rightarrow> Inl TypeExn)"

fun py_iter :: "pyval \<Rightarrow> pyval list result" where
  "py_iter (PList xs) = Inr xs"
| "py_iter (PTuple xs) = Inr xs"
| "py_iter (PDict d) = Inr (map (\<lambda>(k, v). PStr k) d)"
| "py_iter (PProxy d) = Inr (map (\<lambda>(k, v). PStr k) d)"
| "py_iter (PStr s) = Inr (map (\<lambda>c. PStr [c]) s)"
| "py_iter v = Inl TypeExn"

definition py_text :: "py_tables \<Rightarrow> pyval \<Rightarrow> pystr" where
  "py_text t v = (case v of PStr s \<Rightarrow> s | _ \<Rightarrow> py_str_other t v)"

text \<open>Equality takes \<open>1\<close>, \<open>True\<close> and \<open>1.0\<close> for the same; a list or a table cannot be looked up in a set.\<close>

definition py_norm :: "py_tables \<Rightarrow> pyval \<Rightarrow> pyval" where
  "py_norm t v =
     (case v of PBool b \<Rightarrow> PInt (if b then 1 else 0)
      | PFloat r \<Rightarrow> (case py_float_int t r of None \<Rightarrow> v | Some i \<Rightarrow> PInt i) | _ \<Rightarrow> v)"

definition py_eq :: "py_tables \<Rightarrow> pyval \<Rightarrow> pyval \<Rightarrow> bool" where
  "py_eq t a b \<longleftrightarrow> py_norm t a = py_norm t b"

fun py_hashable :: "pyval \<Rightarrow> bool" where
  "py_hashable (PList xs) = False"
| "py_hashable (PDict d) = False"
| "py_hashable (PProxy d) = False"
| "py_hashable v = True"

text \<open>\<open>int(text)\<close>: white space around, a sign, decimal digits with single underscores between them.\<close>

fun digits_value :: "bool \<Rightarrow> int \<Rightarrow> pystr \<Rightarrow> int option" where
  "digits_value after_digit n [] = (if after_digit then Some n else None)"
| "digits_value after_digit n (c # cs) =
     (if c = 95 then (if after_digit \<and> cs \<noteq> [] then digits_value False n cs else None)
      else (case decimal_value c of
              None \<Rightarrow> None | Some d \<Rightarrow> digits_value True (10 * n + int d) cs))"

definition int_of_text :: "pystr \<Rightarrow> int result" where
  "int_of_text s =
     (let t = strip s;
          negative = (take 1 t = [45]);
          body = (if negative \<or> take 1 t = [43] then drop 1 t else t)
      in case digits_value False 0 body of
           None \<Rightarrow> Inl ValueExn | Some n \<Rightarrow> Inr (if negative then - n else n))"

definition py_int :: "py_tables \<Rightarrow> pyval \<Rightarrow> int result" where
  "py_int t v =
     (case v of PInt i \<Rightarrow> Inr i | PBool b \<Rightarrow> Inr (if b then 1 else 0) | PFloat r \<Rightarrow> py_float_trunc t r
      | PStr s \<Rightarrow> int_of_text s | _ \<Rightarrow> Inl TypeExn)"

definition py_truth :: "py_tables \<Rightarrow> pyval \<Rightarrow> bool" where
  "py_truth t v =
     (case v of PNone \<Rightarrow> False | PBool b \<Rightarrow> b | PInt i \<Rightarrow> i \<noteq> 0 | PFloat r \<Rightarrow> py_float_int t r \<noteq> Some 0
      | PStr s \<Rightarrow> s \<noteq> [] | PList xs \<Rightarrow> xs \<noteq> [] | PTuple xs \<Rightarrow> xs \<noteq> [] | PDict d \<Rightarrow> d \<noteq> [] | PProxy d \<Rightarrow> d \<noteq> []
      | POther _ \<Rightarrow> True)"

text \<open>\<open>isinstance(item, int)\<close> without \<open>bool\<close>.\<close>

definition plain_int :: "pyval \<Rightarrow> int option" where
  "plain_int v = (case v of PInt i \<Rightarrow> Some i | _ \<Rightarrow> None)"

text \<open>\<open>except (KeyError, TypeError, ValueError)\<close> around a check.\<close>

definition recast :: "string \<Rightarrow> 'a result \<Rightarrow> 'a result" where
  "recast code r =
     (case r of Inl e \<Rightarrow> Inl (if e \<in> {KeyExn, TypeExn, ValueExn} then BaiError code else e) | Inr x \<Rightarrow> Inr x)"

subsection \<open>The checks\<close>

definition require_mapping :: "pyval \<Rightarrow> (pystr \<times> pyval) list result" where
  "require_mapping v = (case v of PDict d \<Rightarrow> Inr d | _ \<Rightarrow> Inl (BaiError ''CONFIG_INVALID''))"

definition timestamp_fields :: "pystr list" where
  "timestamp_fields =
     [u ''schema_version'', u ''display_timezone'', u ''long_gap_minutes'', u ''continuous_segment_refresh_minutes'',
      u ''split_on_local_date_change'']"

definition validate_history_timestamps :: "(pystr \<Rightarrow> unit result) \<Rightarrow> pyval \<Rightarrow> (pystr \<times> pyval) list result" where
  "validate_history_timestamps zone v =
     rbind (require_mapping v) (\<lambda>raw.
     if set timestamp_fields \<noteq> fst ` set raw then Inl (BaiError ''CONFIG_INVALID'')
     else (let field = (\<lambda>k. the (dict_get raw (u k)));
               gap = plain_int (field ''long_gap_minutes'');
               refresh = plain_int (field ''continuous_segment_refresh_minutes'')
           in if field ''schema_version'' \<noteq> PInt 1 then Inl (BaiError ''CONFIG_INVALID'')
              else (case field ''display_timezone'' of
                      PStr name \<Rightarrow>
                        if strip name = [] then Inl (BaiError ''CONFIG_INVALID'')
                        else if \<not> pred_option (\<lambda>g. 1 \<le> g \<and> g \<le> 1440) gap \<or> gap = None then Inl (BaiError ''CONFIG_INVALID'')
                        else if \<not> pred_option (\<lambda>r. 1 \<le> r \<and> r \<le> 10080) refresh \<or> refresh = None
                        then Inl (BaiError ''CONFIG_INVALID'')
                        else if the refresh < the gap then Inl (BaiError ''CONFIG_INVALID'')
                        else (case field ''split_on_local_date_change'' of
                                PBool _ \<Rightarrow>
                                  (case zone name of
                                     Inl e \<Rightarrow> Inl (if e = KeyExn then BaiError ''CONFIG_INVALID'' else e)
                                   | Inr _ \<Rightarrow> Inr raw)
                              | _ \<Rightarrow> Inl (BaiError ''CONFIG_INVALID''))
                    | _ \<Rightarrow> Inl (BaiError ''CONFIG_INVALID''))))"

definition debug_defaults :: "(pystr \<times> pyval) list" where
  "debug_defaults =
     [(u ''color'', PStr (u ''auto'')), (u ''high_context_percent'', PInt 80), (u ''critical_context_percent'', PInt 95),
      (u ''estimate_safety_margin_percent'', PInt 10)]"

definition validate_debug_prompt :: "pyval \<Rightarrow> (pystr \<times> pyval) list result" where
  "validate_debug_prompt v =
     rbind (if v = PNone then Inr [] else require_mapping v) (\<lambda>raw.
       let result = fold (\<lambda>(k, x). dict_set k x) raw debug_defaults;
           field = (\<lambda>k. the (dict_get result (u k)))
       in case (plain_int (field ''high_context_percent''), plain_int (field ''critical_context_percent''),
                plain_int (field ''estimate_safety_margin_percent'')) of
            (Some high, Some critical, Some margin) \<Rightarrow>
              if field ''color'' \<in> {PStr (u ''auto''), PStr (u ''always''), PStr (u ''never'')} \<and>
                 0 < high \<and> high < critical \<and> critical \<le> 100 \<and> 0 \<le> margin \<and> margin \<le> 50 \<and>
                 dict_get raw (u ''enabled'') = None \<and> dict_get raw (u ''debug_prompts'') = None
              then Inr result else Inl (BaiError ''CONFIG_INVALID'')
          | _ \<Rightarrow> Inl (BaiError ''CONFIG_INVALID''))"

definition validate_provider_capabilities :: "pyval \<Rightarrow> pyval \<Rightarrow> unit result" where
  "validate_provider_capabilities provider profile =
     recast ''PROVIDER_CAPABILITY_INVALID''
       (rbind (py_item provider ''max_output_cap'') (\<lambda>cap.
        rbind (py_item provider ''token_estimator'') (\<lambda>estimator.
        rbind (py_item profile ''max_output_tokens'') (\<lambda>output.
        rbind (py_get profile ''context_window_tokens'' PNone) (\<lambda>capacity.
        case (plain_int cap, plain_int output) of
          (Some c, Some n) \<Rightarrow>
            if c \<le> 0 \<or> n \<le> 0 \<or> n > c then Inl ValueExn
            else if capacity \<noteq> PNone \<and> (plain_int capacity = None \<or> \<not> pred_option (\<lambda>w. 0 < w \<and> n \<le> w) (plain_int capacity)) then Inl ValueExn
            else if estimator \<noteq> PStr (u ''deepseek_character_v1'') then Inl ValueExn
            else Inr ()
        | _ \<Rightarrow> Inl ValueExn)))))"

definition py_int_at :: "py_tables \<Rightarrow> pyval \<Rightarrow> string \<Rightarrow> int result" where
  "py_int_at t v k = rbind (py_item v k) (py_int t)"

definition at_most :: "py_tables \<Rightarrow> bool \<Rightarrow> pyval \<Rightarrow> string \<Rightarrow> string \<Rightarrow> unit result" where
  "at_most t strict v a b =
     rbind (py_int_at t v a) (\<lambda>x. rbind (py_int_at t v b) (\<lambda>y.
       if (if strict then x \<ge> y else x > y) then Inl ValueExn else Inr ()))"

definition validate_agent :: "py_tables \<Rightarrow> pyval \<Rightarrow> unit result" where
  "validate_agent t agent =
     recast ''CONFIG_INVALID''
       (rbind (rbind (py_item agent ''archive'') require_mapping) (\<lambda>archive.
        rbind (rbind (py_item agent ''short_term'') require_mapping) (\<lambda>short.
        rbind (rbind (py_item agent ''context_budget'') require_mapping) (\<lambda>budget.
        rbind (at_most t False (PDict archive) ''max_record_bytes'' ''segment_max_bytes'') (\<lambda>_.
        rbind (at_most t True (PDict short) ''reserved_records'' ''max_records'') (\<lambda>_.
        rbind (at_most t False (PDict short) ''curation_batch_min_records'' ''curation_batch_max_records'') (\<lambda>_.
        rbind (rmap (py_int_at t (PDict budget))
                 [''trusted_instruction_tokens'', ''long_term_tokens'', ''short_term_tokens'', ''tool_result_tokens'']) (\<lambda>parts.
        rbind (py_int_at t (PDict budget) ''max_input_tokens'') (\<lambda>total'.
        if sum_list parts > total' then Inl ValueExn
        else rbind (py_get agent ''debug_prompt'' PNone) (\<lambda>debug.
             rbind (validate_debug_prompt debug) (\<lambda>_. Inr ())))))))))))"

text \<open>What the file system says of a reference below the configuration root.\<close>

record config_path =
  pt_symlink :: bool
  pt_resolved :: "pystr list"
  pt_resolved_symlink :: bool

definition resolve_inside :: "pystr list \<Rightarrow> (pystr \<Rightarrow> config_path) \<Rightarrow> pystr \<Rightarrow> pystr list result" where
  "resolve_inside root facts reference =
     (if pt_symlink (facts reference) then Inl (BaiError ''CONFIG_PATH_ESCAPE'')
      else if startswith reference [47] \<or> \<not> startswith (pt_resolved (facts reference)) root
      then Inl (BaiError ''CONFIG_PATH_ESCAPE'')
      else if pt_resolved_symlink (facts reference) then Inl (BaiError ''CONFIG_PATH_ESCAPE'')
      else Inr (pt_resolved (facts reference)))"

text \<open>\<open>decode("utf-8-sig")\<close>\<close>

definition decode_sig :: "bytes \<Rightarrow> pystr option" where
  "decode_sig b = utf8_decode (if startswith b [239, 187, 191] then drop 3 b else b)"

definition read_utf8_nonempty :: "(pystr list \<Rightarrow> bytes option) \<Rightarrow> nat \<Rightarrow> pystr list \<Rightarrow> pystr result" where
  "read_utf8_nonempty disk max_bytes path =
     (case disk path of
        None \<Rightarrow> Inl (BaiError ''CONFIG_REFERENCE_MISSING'')
      | Some payload \<Rightarrow>
          if payload = [] \<or> length payload > max_bytes then Inl (BaiError ''CONFIG_INVALID'')
          else (case decode_sig payload of
                  None \<Rightarrow> Inl (BaiError ''CONFIG_INVALID'')
                | Some s \<Rightarrow> if strip s = [] then Inl (BaiError ''CONFIG_INVALID'') else Inr s))"

text \<open>\<open>Template.pattern.finditer\<close>: the names found before the first malformed placeholder, and whether there is one.\<close>

function template_names :: "pystr \<Rightarrow> pystr list option" where
  "template_names s =
     (case dropWhile (\<lambda>c. c \<noteq> 36) s of
        [] \<Rightarrow> Some []
      | _ # after \<Rightarrow>
          (case match_placeholder after of
             (PhEscaped, n) \<Rightarrow> template_names (drop n after)
           | (PhNamed name, n) \<Rightarrow> map_option (Cons name) (template_names (drop n after))
           | (PhInvalid, _) \<Rightarrow> None))"
  by pat_completeness auto
termination
proof (relation "measure length", goal_cases)
  case (2 s x after)
  then have "length (x # after) \<le> length s" by (metis length_dropWhile_le)
  then show ?case by simp
next
  case (3 s x after)
  then have "length (x # after) \<le> length s" by (metis length_dropWhile_le)
  then show ?case by simp
qed simp

declare template_names.simps [simp del]

definition trusted_only :: "pystr list" where
  "trusted_only = [u ''trusted_personas'', u ''curator_persona'', u ''untrusted_boundary'', u ''output_schema'']"

definition validate_template :: "pystr \<Rightarrow> pystr list \<Rightarrow> pystr list \<Rightarrow> unit result" where
  "validate_template template allowed untrusted =
     (case template_names template of
        None \<Rightarrow> Inl (BaiError ''PROMPT_TEMPLATE_INVALID'')
      | Some found \<Rightarrow>
          if set found \<noteq> set allowed \<or> \<not> distinct found then Inl (BaiError ''PROMPT_TEMPLATE_INVALID'')
          else if \<not> set untrusted \<subseteq> set allowed then Inl (BaiError ''PROMPT_TEMPLATE_INVALID'')
          else if set trusted_only \<inter> set untrusted \<noteq> {} then Inl (BaiError ''PROMPT_TEMPLATE_INVALID'')
          else if template_substitute (\<lambda>name. if name \<in> set allowed then Some (u ''fixture'') else None) template = None
          then Inl (BaiError ''PROMPT_TEMPLATE_INVALID'')
          else Inr ())"


subsection \<open>What an accepted template does\<close>

text \<open>Literals with the values between them.\<close>

fun weave :: "pystr list \<Rightarrow> pystr list \<Rightarrow> pystr" where
  "weave (l # ls) (v # vs) = l @ v @ weave ls vs"
| "weave ls [] = concat ls"
| "weave [] vs = concat vs"

lemma weave_prepend: "weave ((x @ l) # ls) vs = x @ weave (l # ls) vs"
  by (cases vs) simp_all

text \<open>A template without a malformed placeholder is its literals with the values of its names between them.\<close>

definition weaves :: "pystr list \<Rightarrow> pystr list \<Rightarrow> pystr \<Rightarrow> bool" where
  "weaves lits found s \<longleftrightarrow>
     length lits = Suc (length found) \<and>
     (\<forall>m. template_substitute m s =
        (if \<exists>name \<in> set found. m name = None then None else Some (weave lits (map (the \<circ> m) found))))"

lemma weaves_literal:
  assumes "weaves lits found s" and "\<And>m. template_substitute m s' = map_option (append x) (template_substitute m s)"
  shows "weaves ((x @ hd lits) # tl lits) found s'"
  using assms by (cases lits) (simp_all add: weaves_def weave_prepend del: weave.simps)

lemma weaves_named:
  assumes "weaves lits found s"
    and "\<And>m. template_substitute m s' = Option.bind (m name) (\<lambda>v. map_option (append v) (template_substitute m s))"
  shows "weaves ([] # lits) (name # found) s'"
proof -
  have "template_substitute m s' =
      (if \<exists>n \<in> set (name # found). m n = None then None else Some (weave ([] # lits) (map (the \<circ> m) (name # found))))" for m
    using assms by (cases "m name") (auto simp: weaves_def)
  then show ?thesis using assms(1) by (simp add: weaves_def)
qed

lemma template_names_weaves: "template_names s = Some found \<Longrightarrow> \<exists>lits. weaves lits found s"
proof (induction s arbitrary: found rule: template_names.induct)
  case (1 s)
  define lit where "lit = takeWhile (\<lambda>c. c \<noteq> 36) s"
  have lit: "36 \<notin> set lit" by (auto simp: lit_def dest: set_takeWhileD)
  show ?case
  proof (cases "dropWhile (\<lambda>c. c \<noteq> 36) s")
    case Nil
    then have s: "s = lit" by (metis append_Nil2 lit_def takeWhile_dropWhile_id)
    have "template_substitute m s = Some s" for m
      using substitute_literal [OF lit, of m "[]"] by (simp add: s template_substitute.simps)
    moreover have "found = []" using "1.prems" Nil by (subst (asm) template_names.simps) simp
    ultimately have "weaves [s] found s" by (simp add: weaves_def)
    then show ?thesis ..
  next
    case (Cons d after)
    then have d: "d = 36" using hd_dropWhile [of "\<lambda>c. c \<noteq> 36" s] by simp
    have s: "s = lit @ 36 # after"
      using takeWhile_dropWhile_id [of "\<lambda>c. c \<noteq> 36" s] unfolding Cons d lit_def by (rule sym)
    obtain ph n where ph: "match_placeholder after = (ph, n)" by (cases "match_placeholder after")
    note names = "1.prems" [unfolded template_names.simps [of s] Cons list.case ph prod.case]
    note head = substitute_dollar [OF ph]
    note IH = "1.IH" [OF Cons ph [symmetric]]
    have "\<exists>lits. weaves lits found (36 # after)"
    proof (cases ph)
      case PhEscaped
      then obtain lits where "weaves lits found (drop n after)" using names IH(1) by auto
      from weaves_literal [OF this] show ?thesis by (metis head PhEscaped placeholder.case(1))
    next
      case (PhNamed name)
      with names obtain rest where rest: "template_names (drop n after) = Some rest" "found = name # rest"
        by auto
      then obtain lits where "weaves lits rest (drop n after)" using PhNamed IH(2) by blast
      from weaves_named [OF this] show ?thesis using rest(2) by (metis head PhNamed placeholder.case(2))
    qed (use names in simp)
    then obtain lits where "weaves lits found (36 # after)" ..
    from weaves_literal [OF this] show ?thesis unfolding s by (metis lit substitute_literal)
  qed
qed

lemma validate_template_iff:
  "validate_template template allowed untrusted = Inr () \<longleftrightarrow>
     (\<exists>found. template_names template = Some found \<and> distinct found \<and> set found = set allowed) \<and>
     set untrusted \<subseteq> set allowed - set trusted_only"
proof (cases "template_names template")
  case (Some found)
  obtain lits where "weaves lits found template" using template_names_weaves [OF Some] ..
  then have "set found = set allowed \<Longrightarrow>
      template_substitute (\<lambda>name. if name \<in> set allowed then Some (u ''fixture'') else None) template \<noteq> None"
    by (auto simp: weaves_def)
  then show ?thesis by (auto simp: validate_template_def Some)
qed (simp add: validate_template_def)

text \<open>
  C37. An accepted prompt template always expands. A template the configuration check accepts names each
  declared variable exactly once; there are fixed pieces of text such that, whatever the values are, the
  prompt is these pieces with the values of the variables, unchanged, in between, so a value cannot alter the
  text around it; and if a value is missing the expansion is an error and never a prompt with a hole.
\<close>

theorem accepted_template_expands:
  assumes "validate_template template allowed untrusted = Inr ()"
  shows "\<exists>lits found. distinct found \<and> set found = set allowed \<and> length lits = Suc (length found) \<and>
    (\<forall>values' src.
       if set allowed \<subseteq> fst ` set values'
       then \<exists>ps. expand_prompt template values' src = Inr (weave lits (map (the \<circ> values_text values') found), ps)
       else expand_prompt template values' src \<in> {Inl KeyExn, Inl ValueExn})"
proof -
  obtain found where found: "template_names template = Some found" "distinct found" "set found = set allowed"
    using assms by (auto simp: validate_template_iff)
  obtain lits where lits: "weaves lits found template" using template_names_weaves [OF found(1)] ..
  let ?b = "\<lparr>pb_text = [], pb_positioned = [], pb_cursor = 0\<rparr>"
  have expands: "if set allowed \<subseteq> fst ` set values'
      then \<exists>ps. expand_prompt template values' src = Inr (weave lits (map (the \<circ> values_text values') found), ps)
      else expand_prompt template values' src \<in> {Inl KeyExn, Inl ValueExn}" for values' src
  proof -
    have loop: "expands_to values' src (template_substitute (values_text values') template) ?b
        (expand_loop values' src 0 template ?b)"
      by (rule expand_loop_expands) (simp add: pb_ok_def located_text_def pieces_text_def)
    have miss: "values_text values' name = None \<longleftrightarrow> name \<notin> fst ` set values'" for name
      by (simp add: values_text_def dict_get_None_iff)
    have "template_substitute (values_text values') template =
        (if set allowed \<subseteq> fst ` set values' then Some (weave lits (map (the \<circ> values_text values') found)) else None)"
      using lits by (auto simp: weaves_def found(3) miss)
    with loop show ?thesis by (auto simp: expands_to_def expand_prompt_def split: if_splits)
  qed
  have "length lits = Suc (length found)" using lits by (simp add: weaves_def)
  then show ?thesis using found(2,3) expands by blast
qed

lemma sample_template: "validate_template (u ''a$x$$'') [u ''x''] [u ''x''] = Inr ()"
  by (simp add: validate_template_iff template_names.simps trusted_only_def id_start_def id_char_def u_Cons)

theorem accepted_template_expands_witness:
  "\<exists>lits. length lits = 2 \<and> (\<forall>src. \<exists>ps.
     expand_prompt (u ''a$x$$'') [(u ''x'', [])] src = Inr (weave lits [[]], ps))"
proof -
  obtain lits found where l: "distinct found" "set found = {u ''x''}" "length lits = Suc (length found)"
    "\<And>src. \<exists>ps. expand_prompt (u ''a$x$$'') [(u ''x'', [])] src =
       Inr (weave lits (map (the \<circ> values_text [(u ''x'', [])]) found), ps)"
    using accepted_template_expands [OF sample_template] by fastforce
  have "length found = 1" using distinct_card [OF l(1)] by (simp add: l(2))
  then obtain y where "found = [y]" by (auto simp: length_Suc_conv)
  with l(2) have "found = [u ''x'']" by simp
  with l show ?thesis
    by (intro exI [of _ lits]) (simp add: values_text_def pieces_text_def)
qed

end
