(* ===== verification/Config_Load.thy ===== *)
theory Config_Load
  imports Config_Checks Assembler
begin

text \<open>
  \<open>config/loader.py\<close>: one load of the configuration. The five manifests, the prompt files the personas, the
  states and the templates name, all the checks in the order of the source, and the snapshot with its
  revision and its assets. The TOML parser, the time zone data, the environment variables and the facts of
  the file system are arguments; the files do not change while they are read.
\<close>

subsection \<open>What a load reads\<close>

record config_env =
  ce_root :: "pystr list"
  ce_facts :: "pystr \<Rightarrow> config_path"
  ce_files :: "pystr list \<Rightarrow> bytes option"
  ce_toml :: "bytes \<Rightarrow> (pystr \<times> pyval) list result"
  ce_zone :: "pystr \<Rightarrow> unit result"
  ce_tables :: py_tables
  ce_environ :: "pystr \<Rightarrow> pystr option"

record config_snapshot =
  cs_revision :: pystr
  cs_config_root :: pystr
  cs_data_root :: pystr
  cs_default_state_id :: pystr
  cs_personas :: "persona_profile list"
  cs_prompts :: "(pystr \<times> pystr) list"
  cs_settings :: "(pystr \<times> pyval) list"
  cs_assets :: "config_asset list"

fun freeze_setting :: "pyval \<Rightarrow> pyval" where
  "freeze_setting (PDict d) = PProxy (map (\<lambda>(k, v). (k, freeze_setting v)) d)"
| "freeze_setting (PList xs) = PTuple (map freeze_setting xs)"
| "freeze_setting v = v"

text \<open>\<open>ConfigSnapshot.create\<close>: the values of \<open>settings\<close> are frozen; prompt texts are immutable already.\<close>

definition create_snapshot :: "config_snapshot \<Rightarrow> config_snapshot" where
  "create_snapshot s = s\<lparr>cs_settings := map (\<lambda>(k, v). (k, freeze_setting v)) (cs_settings s)\<rparr>"

definition manifests :: "pystr list" where
  "manifests =
     [u ''agent.toml'', u ''providers.toml'', u ''states.toml'', u ''tools.toml'', u ''history_timestamps.toml'']"

definition path_text :: "pystr list \<Rightarrow> pystr" where
  "path_text parts = 47 # join [47] parts"

subsection \<open>Errors for the user\<close>

text \<open>The group and the field a message names; \<open>word\<close> is the character class \<open>\w\<close>.\<close>

definition contains :: "pystr \<Rightarrow> pystr \<Rightarrow> bool" where
  "contains part s \<longleftrightarrow> (\<exists>i \<in> set [0..<Suc (length s)]. startswith (drop i s) part)"

fun find_field :: "(nat \<Rightarrow> bool) \<Rightarrow> pystr \<Rightarrow> pystr" where
  "find_field word [] = []"
| "find_field word (c # cs) =
     (let after = drop 2 (c # cs);
          name = takeWhile (\<lambda>x. word x \<or> x = 46) (dropWhile is_space after)
      in if startswith (c # cs) [23383, 27573] \<and> takeWhile is_space after \<noteq> [] \<and> name \<noteq> []
         then name else find_field word cs)"

definition config_group_by_file :: "(pystr \<times> pystr) list" where
  "config_group_by_file =
     [(u ''agent.toml'', u ''agent''), (u ''providers.toml'', u ''providers''), (u ''states.toml'', u ''states''),
      (u ''tools.toml'', u ''tools''), (u ''history_timestamps.toml'', u ''history_timestamps'')]"

definition describe_config_error :: "(nat \<Rightarrow> bool) \<Rightarrow> pystr \<Rightarrow> (pystr \<times> pystr) list" where
  "describe_config_error word message =
     (let group =
        (case filter (\<lambda>(name, g). contains name message) config_group_by_file of
           (_, g) # _ \<Rightarrow> g
         | [] \<Rightarrow>
             if contains [20154, 26684] message then u ''personas''
             else if contains [25552, 31034] message \<or> contains [27169, 26495] message then u ''prompts''
             else u ''config'')
      in [(u ''group'', group), (u ''field'', find_field word message), (u ''reason'', message)])"

definition default_config_dir :: "'p option \<Rightarrow> 'p option \<Rightarrow> 'p result" where
  "default_config_dir packaged development =
     (case packaged of
        Some d \<Rightarrow> Inr d
      | None \<Rightarrow> (case development of Some d \<Rightarrow> Inr d | None \<Rightarrow> Inl (BaiError ''CONFIG_DEFAULT_NOT_FOUND'')))"

subsection \<open>Manifests and credentials\<close>

definition read_toml :: "config_env \<Rightarrow> pystr \<Rightarrow> (pystr \<times> pyval) list result" where
  "read_toml env name =
     (case ce_files env (ce_root env @ [name]) of
        None \<Rightarrow> Inl (BaiError ''CONFIG_INVALID'')
      | Some payload \<Rightarrow>
          (case ce_toml env payload of
             Inl e \<Rightarrow> Inl (if e = OtherExn ''TOMLDecodeError'' then BaiError ''CONFIG_INVALID'' else e)
           | Inr d \<Rightarrow>
               if case dict_get d (u ''schema_version'') of None \<Rightarrow> False | Some v \<Rightarrow> py_eq (ce_tables env) v (PInt 1)
               then Inr d else Inl (BaiError ''CONFIG_SCHEMA_UNSUPPORTED'')))"

definition read_manifests :: "config_env \<Rightarrow> (pystr \<times> (pystr \<times> pyval) list) list result" where
  "read_manifests env = rmap (\<lambda>name. rbind (read_toml env name) (\<lambda>d. Inr (name, d))) manifests"

definition check_manifests ::
  "config_env \<Rightarrow> (pystr \<times> (pystr \<times> pyval) list) list \<Rightarrow> (pystr \<times> (pystr \<times> pyval) list) list result"
where
  "check_manifests env documents =
     (let agent = the (dict_get documents (u ''agent.toml'')) in
      rbind (validate_agent (ce_tables env) (PDict agent)) (\<lambda>_.
      rbind (py_get (PDict agent) ''debug_prompt'' PNone) (\<lambda>v.
      rbind (validate_debug_prompt v) (\<lambda>debug.
      rbind (validate_history_timestamps (ce_zone env)
               (PDict (the (dict_get documents (u ''history_timestamps.toml''))))) (\<lambda>history.
      Inr (dict_set (u ''history_timestamps.toml'') history
             (dict_set (u ''agent.toml'') (dict_set (u ''debug_prompt'') (PDict debug) agent) documents)))))))"

definition data_root :: "config_env \<Rightarrow> pystr \<Rightarrow> pystr result" where
  "data_root env reference =
     (let candidate = pt_resolved (ce_facts env reference) in
      if candidate = ce_root env \<or> candidate = butlast (ce_root env) \<or> candidate = []
      then Inl (BaiError ''CONFIG_INVALID'') else Inr (path_text candidate))"

definition check_credential :: "config_env \<Rightarrow> bool \<Rightarrow> pyval \<Rightarrow> unit result" where
  "check_credential env required provider =
     rbind (py_get provider ''api_key_env'' PNone) (\<lambda>v.
       case v of
         PStr variable \<Rightarrow>
           if variable = [] then Inl (BaiError ''CONFIG_INVALID'')
           else if required \<and> (case ce_environ env variable of None \<Rightarrow> True | Some key \<Rightarrow> key = [])
           then Inl (BaiError ''CREDENTIAL_MISSING'')
           else Inr ()
       | _ \<Rightarrow> Inl (BaiError ''CONFIG_INVALID''))"

definition check_providers :: "config_env \<Rightarrow> bool \<Rightarrow> (pystr \<times> pyval) list \<Rightarrow> pyval list result" where
  "check_providers env required document =
     rbind (py_get (PDict document) ''providers'' (PList [])) (\<lambda>v.
       case v of
         PList (p # ps) \<Rightarrow> rbind (rmap (check_credential env required) (p # ps)) (\<lambda>_. Inr (p # ps))
       | _ \<Rightarrow> Inl (BaiError ''CONFIG_INVALID''))"

subsection \<open>Prompt files\<close>

text \<open>What the load has collected: the files by logical name, their asset identifiers, the personas.\<close>

record loading =
  ld_paths :: "(pystr \<times> pystr list) list"
  ld_ids :: "(pystr \<times> pystr \<times> pystr) list"
  ld_personas :: "persona_profile list"
  ld_persona_paths :: "pystr list list"
  ld_state_ids :: "pystr list"

text \<open>\<open>Path(name).stem\<close> of the manifests, which all end in \<open>.toml\<close>.\<close>

definition manifest_id :: "pystr \<Rightarrow> pystr \<times> pystr" where
  "manifest_id name =
     (u ''config:'' @ take (length name - 5) name,
      if name = u ''history_timestamps.toml'' then u ''history_timestamp_policy''
      else if name = u ''agent.toml'' then u ''agent_config''
      else if name = u ''providers.toml'' then u ''provider_config''
      else if name = u ''tools.toml'' then u ''tool_config''
      else u ''state_prompt'')"

definition start_loading :: "config_env \<Rightarrow> loading" where
  "start_loading env =
     \<lparr>ld_paths = map (\<lambda>name. (name, ce_root env @ [name])) manifests,
      ld_ids = map (\<lambda>name. (name, manifest_id name)) manifests,
      ld_personas = [], ld_persona_paths = [], ld_state_ids = []\<rparr>"

definition prompt_limit :: nat where
  "prompt_limit = 262144"

text \<open>\<open>role\<close> and \<open>kind\<close> tell the two fixed personas from those of the states.\<close>

definition add_persona ::
  "config_env \<Rightarrow> pystr \<Rightarrow> string \<Rightarrow> string \<Rightarrow> pystr \<Rightarrow> pystr \<Rightarrow> loading \<Rightarrow> loading result"
where
  "add_persona env persona_id role kind profile reference ld =
     rbind (resolve_inside (ce_root env) (ce_facts env) reference) (\<lambda>path.
     if path \<in> set (ld_persona_paths ld) then Inl (BaiError ''CONFIG_INVALID'')
     else rbind (read_utf8_nonempty (ce_files env) prompt_limit path) (\<lambda>prompt.
       Inr (ld\<lparr>ld_persona_paths := ld_persona_paths ld @ [path],
               ld_paths := dict_set reference path (ld_paths ld),
               ld_ids := dict_set reference (u ''persona:'' @ persona_id, u kind) (ld_ids ld),
               ld_personas := ld_personas ld @
                 [\<lparr>pf_persona_id = persona_id, pf_role = u role, pf_prompt_path = reference, pf_prompt = prompt,
                   pf_model_profile_id = profile, pf_allowed_tool_ids = [], pf_allowed_template_variables = [],
                   pf_prompt_sha256 = content_hash prompt\<rparr>]\<rparr>)))"

definition load_fixed_persona ::
  "config_env \<Rightarrow> (pystr \<times> pyval) list \<Rightarrow> string \<Rightarrow> loading \<Rightarrow> loading result"
where
  "load_fixed_persona env agent persona_id ld =
     rbind (py_get (PDict agent) ''personas'' (PDict [])) (\<lambda>personas.
     rbind (py_get personas persona_id PNone) (\<lambda>reference.
       case reference of
         PStr r \<Rightarrow> add_persona env (u persona_id) persona_id ''persona'' (u persona_id) r ld
       | _ \<Rightarrow> Inl (BaiError ''CONFIG_INVALID'')))"

definition load_state_persona :: "config_env \<Rightarrow> pyval \<Rightarrow> loading \<Rightarrow> loading result" where
  "load_state_persona env item ld =
     rbind (py_get item ''id'' PNone) (\<lambda>v.
       case v of
         PStr persona_id \<Rightarrow>
           if persona_id \<in> set (ld_state_ids ld) then Inl (BaiError ''CONFIG_INVALID'')
           else rbind (py_get item ''prompt'' PNone) (\<lambda>w.
             case w of
               PStr reference \<Rightarrow>
                 rbind (py_get item ''model_profile'' (PStr (u ''chat''))) (\<lambda>profile.
                   add_persona env persona_id ''state'' ''state_prompt'' (py_text (ce_tables env) profile) reference
                     (ld\<lparr>ld_state_ids := ld_state_ids ld @ [persona_id]\<rparr>))
             | _ \<Rightarrow> Inl (BaiError ''CONFIG_INVALID''))
       | _ \<Rightarrow> Inl (BaiError ''CONFIG_INVALID''))"

fun each :: "('a \<Rightarrow> 's \<Rightarrow> 's result) \<Rightarrow> 'a list \<Rightarrow> 's \<Rightarrow> 's result" where
  "each f [] s = Inr s"
| "each f (x # xs) s = rbind (f x s) (each f xs)"

definition load_personas ::
  "config_env \<Rightarrow> (pystr \<times> pyval) list \<Rightarrow> (pystr \<times> pyval) list \<Rightarrow> loading result"
where
  "load_personas env agent states =
     rbind (each (load_fixed_persona env agent) [''chat'', ''memory_curator''] (start_loading env)) (\<lambda>ld.
     rbind (py_get (PDict states) ''personas'' (PList [])) (\<lambda>v.
     rbind (py_iter v) (\<lambda>items. each (load_state_persona env) items ld)))"

subsection \<open>References between the documents\<close>

text \<open>\<open>set(refs)\<close> needs every element to be hashable.\<close>

definition check_state_refs :: "py_tables \<Rightarrow> pystr list \<Rightarrow> pyval \<Rightarrow> unit result" where
  "check_state_refs t known state =
     rbind (py_get state ''ordered_persona_ids'' (PList [])) (\<lambda>v.
     rbind (py_iter v) (\<lambda>refs.
       if \<not> list_all py_hashable refs then Inl TypeExn
       else if length refs \<noteq> length (remdups (map (py_norm t) refs)) \<or> \<not> set refs \<subseteq> PStr ` set known
       then Inl (BaiError ''CONFIG_INVALID'') else Inr ()))"

definition check_states :: "config_env \<Rightarrow> (pystr \<times> pyval) list \<Rightarrow> persona_profile list \<Rightarrow> unit result" where
  "check_states env states personas =
     rbind (py_get (PDict states) ''states'' (PList [])) (\<lambda>v.
     rbind (py_iter v) (\<lambda>items.
     rbind (rmap (check_state_refs (ce_tables env) (map pf_persona_id personas)) items) (\<lambda>_. Inr ())))"

definition migrated_profiles :: "pystr list" where
  "migrated_profiles = [u ''chat'', u ''memory_curator'']"

definition check_model_profile :: "py_tables \<Rightarrow> (pyval \<times> pyval) list \<Rightarrow> pystr \<times> pyval \<Rightarrow> unit result" where
  "check_model_profile t providers = (\<lambda>(profile_id, profile).
     case profile of
       PDict d \<Rightarrow>
         (let field = (\<lambda>k. case dict_get d (u k) of None \<Rightarrow> PNone | Some v \<Rightarrow> v);
              wanted = field ''provider''
          in if \<not> py_hashable wanted then Inl TypeExn
             else case filter (\<lambda>(i, p). py_eq t i wanted) providers of
                    [] \<Rightarrow> Inl (BaiError ''CONFIG_INVALID'')
                  | (_, provider) # _ \<Rightarrow>
                      rbind (validate_provider_capabilities provider profile) (\<lambda>_.
                        if profile_id \<in> set migrated_profiles \<and>
                           (field ''model'' \<noteq> PStr (u ''deepseek-v4-flash'') \<or>
                            field ''thinking_enabled'' \<noteq> PBool False \<or>
                            \<not> py_eq t (field ''max_output_tokens'') (PInt 8192))
                        then Inl (BaiError ''PROVIDER_CAPABILITY_INVALID'') else Inr ()))
     | _ \<Rightarrow> Inl (BaiError ''CONFIG_INVALID''))"

definition check_model_profiles ::
  "config_env \<Rightarrow> (pystr \<times> pyval) list \<Rightarrow> pyval list \<Rightarrow> persona_profile list \<Rightarrow> unit result"
where
  "check_model_profiles env document providers personas =
     rbind (py_get (PDict document) ''model_profiles'' (PDict [])) (\<lambda>v.
       case v of
         PDict profiles \<Rightarrow>
           rbind (rmap (\<lambda>p. rbind (py_get p ''id'' PNone) (\<lambda>i.
                    if py_hashable i then Inr (i, p) else Inl TypeExn)) providers) (\<lambda>named.
           rbind (rmap (check_model_profile (ce_tables env) named) profiles) (\<lambda>_.
             if list_all (\<lambda>p. dict_get profiles (pf_model_profile_id p) \<noteq> None) personas
             then Inr () else Inl (BaiError ''CONFIG_INVALID'')))
       | _ \<Rightarrow> Inl (BaiError ''CONFIG_INVALID''))"

subsection \<open>Prompt templates\<close>

definition text_items :: "pyval list \<Rightarrow> pystr list option" where
  "text_items vs =
     those (map (\<lambda>v. case v of PStr s \<Rightarrow> Some s | _ \<Rightarrow> None) vs)"

definition load_prompt ::
  "config_env \<Rightarrow> pyval \<Rightarrow> pystr \<times> pyval \<Rightarrow> loading \<times> (pystr \<times> pystr) list \<Rightarrow> (loading \<times> (pystr \<times> pystr) list) result"
where
  "load_prompt env definitions = (\<lambda>(prompt_id, v) (ld, prompts).
     case v of
       PStr reference \<Rightarrow>
         rbind (resolve_inside (ce_root env) (ce_facts env) reference) (\<lambda>path.
         rbind (read_utf8_nonempty (ce_files env) prompt_limit path) (\<lambda>prompt.
         case definitions of
           PDict ds \<Rightarrow>
             (case dict_get ds prompt_id of
                Some (PDict d) \<Rightarrow>
                  rbind (rbind (py_get (PDict d) ''allowed'' (PTuple [])) py_iter) (\<lambda>allowed.
                  rbind (rbind (py_get (PDict d) ''untrusted'' (PTuple [])) py_iter) (\<lambda>untrusted.
                  case (text_items allowed, text_items untrusted) of
                    (Some names, Some data) \<Rightarrow>
                      rbind (validate_template prompt names data) (\<lambda>_.
                        Inr (ld\<lparr>ld_paths := dict_set reference path (ld_paths ld),
                                ld_ids := dict_set reference (u ''prompt:'' @ prompt_id, u ''prompt_template'') (ld_ids ld)\<rparr>,
                             dict_set prompt_id prompt prompts))
                  | _ \<Rightarrow> Inl (BaiError ''CONFIG_INVALID'')))
              | _ \<Rightarrow> Inl (BaiError ''CONFIG_INVALID''))
         | _ \<Rightarrow> Inl AttributeExn))
     | _ \<Rightarrow> Inl (BaiError ''CONFIG_INVALID''))"

definition load_prompts ::
  "config_env \<Rightarrow> (pystr \<times> pyval) list \<Rightarrow> loading \<Rightarrow> (loading \<times> (pystr \<times> pystr) list) result"
where
  "load_prompts env agent ld =
     rbind (py_get (PDict agent) ''template_variables'' (PDict [])) (\<lambda>definitions.
     rbind (py_get (PDict agent) ''prompts'' (PDict [])) (\<lambda>v.
       case v of PDict prompts \<Rightarrow> each (load_prompt env definitions) prompts (ld, []) | _ \<Rightarrow> Inl AttributeExn))"

subsection \<open>Revision and assets\<close>

definition sorted_paths :: "loading \<Rightarrow> (pystr \<times> pystr list) list" where
  "sorted_paths ld = sort_key fst (ld_paths ld)"

definition read_file :: "config_env \<Rightarrow> pystr list \<Rightarrow> bytes result" where
  "read_file env path = (case ce_files env path of None \<Rightarrow> Inl OSExn | Some b \<Rightarrow> Inr b)"

definition digest_input :: "(pystr \<times> bytes) list \<Rightarrow> bytes" where
  "digest_input named = concat (map (\<lambda>(name, payload). utf8 name @ [0] @ payload @ [0]) named)"

definition config_revision :: "config_env \<Rightarrow> loading \<Rightarrow> pystr result" where
  "config_revision env ld =
     rbind (rmap (\<lambda>(name, path). rbind (read_file env path) (\<lambda>b. Inr (name, b))) (sorted_paths ld)) (\<lambda>named.
       Inr (u ''sha256:'' @ hexdigest (sha256 (digest_input named))))"

text \<open>Reading as text also turns every line ending into a newline.\<close>

fun universal_newlines :: "pystr \<Rightarrow> pystr" where
  "universal_newlines (c # d # cs) =
     (if c = 13 \<and> d = 10 then 10 # universal_newlines cs
      else (if c = 13 then 10 else c) # universal_newlines (d # cs))"
| "universal_newlines [c] = [if c = 13 then 10 else c]"
| "universal_newlines [] = []"

definition read_asset_text :: "config_env \<Rightarrow> pystr list \<Rightarrow> pystr result" where
  "read_asset_text env path =
     rbind (read_file env path) (\<lambda>b.
       case decode_sig b of None \<Rightarrow> Inl ValueExn | Some s \<Rightarrow> Inr (universal_newlines s))"

definition make_asset :: "config_env \<Rightarrow> loading \<Rightarrow> pystr \<Rightarrow> pystr \<times> pystr list \<Rightarrow> config_asset result" where
  "make_asset env ld revision = (\<lambda>(name, path).
     rbind (read_asset_text env path) (\<lambda>content.
       let i = the (dict_get (ld_ids ld) name) in
       validated config_asset_ok
         \<lparr>ca_asset_id = fst i, ca_kind = snd i, ca_path = map (\<lambda>c. if c = 92 then 47 else c) name,
          ca_content = content, ca_content_sha256 = content_hash content, ca_revision = revision\<rparr>))"

subsection \<open>The load\<close>

definition load_config :: "config_env \<Rightarrow> bool \<Rightarrow> config_snapshot result" where
  "load_config env require_credentials =
     rbind (read_manifests env) (\<lambda>raw.
     rbind (check_manifests env raw) (\<lambda>documents.
     let document = (\<lambda>name. the (dict_get documents (u name)));
         agent = document ''agent.toml''; states = document ''states.toml'' in
     rbind (check_providers env require_credentials (document ''providers.toml'')) (\<lambda>providers.
     rbind (load_personas env agent states) (\<lambda>ld.
     rbind (check_states env states (ld_personas ld)) (\<lambda>_.
     rbind (check_model_profiles env (document ''providers.toml'') providers (ld_personas ld)) (\<lambda>_.
     rbind (load_prompts env agent ld) (\<lambda>(loaded, prompts).
     rbind (config_revision env loaded) (\<lambda>revision.
     rbind (rmap (make_asset env loaded revision) (sorted_paths loaded)) (\<lambda>assets.
     rbind (py_item (PDict agent) ''data_root'') (\<lambda>reference.
     rbind (data_root env (py_text (ce_tables env) reference)) (\<lambda>data.
     rbind (py_get (PDict states) ''default_state_id'' (PStr [])) (\<lambda>default_id.
       Inr (create_snapshot
         \<lparr>cs_revision = revision, cs_config_root = path_text (ce_root env), cs_data_root = data,
          cs_default_state_id = py_text (ce_tables env) default_id, cs_personas = ld_personas loaded,
          cs_prompts = prompts, cs_settings = map (\<lambda>(k, d). (k, PDict d)) documents, cs_assets = assets\<rparr>)))))))))))))"


subsection \<open>What holds while the configuration is collected\<close>

lemma resolve_inside_iff:
  "resolve_inside root facts reference = Inr path \<longleftrightarrow>
     path = pt_resolved (facts reference) \<and> \<not> pt_symlink (facts reference) \<and> \<not> pt_resolved_symlink (facts reference) \<and>
     \<not> startswith reference [47] \<and> startswith path root"
  by (auto simp: resolve_inside_def)

lemma each_invariant:
  "each f xs s = Inr s' \<Longrightarrow> I s \<Longrightarrow> (\<And>x a b. x \<in> set xs \<Longrightarrow> I a \<Longrightarrow> f x a = Inr b \<Longrightarrow> I b) \<Longrightarrow> I s'"
  by (induction xs arbitrary: s) (auto simp: rbind_Inr_iff)

text \<open>The prompt of a persona is what its file says, and the file is among those the load has recorded.\<close>

definition persona_from_file :: "config_env \<Rightarrow> (pystr \<times> pystr list) list \<Rightarrow> persona_profile \<Rightarrow> bool" where
  "persona_from_file env paths p \<longleftrightarrow>
     (\<exists>path. resolve_inside (ce_root env) (ce_facts env) (pf_prompt_path p) = Inr path \<and>
        read_utf8_nonempty (ce_files env) prompt_limit path = Inr (pf_prompt p) \<and>
        pf_prompt_sha256 p = content_hash (pf_prompt p) \<and> dict_get paths (pf_prompt_path p) = Some path)"

definition persona_path :: "config_env \<Rightarrow> persona_profile \<Rightarrow> pystr list" where
  "persona_path env p = pt_resolved (ce_facts env (pf_prompt_path p))"

definition paths_inside :: "config_env \<Rightarrow> (pystr \<times> pystr list) list \<Rightarrow> bool" where
  "paths_inside env paths \<longleftrightarrow> distinct (map fst paths) \<and>
     (\<forall>(name, path) \<in> set paths. path = ce_root env @ [name] \<and> name \<in> set manifests \<or>
        resolve_inside (ce_root env) (ce_facts env) name = Inr path)"

definition loading_ok :: "config_env \<Rightarrow> loading \<Rightarrow> bool" where
  "loading_ok env ld \<longleftrightarrow> paths_inside env (ld_paths ld) \<and>
     (\<forall>p \<in> set (ld_personas ld). persona_from_file env (ld_paths ld) p) \<and>
     map (persona_path env) (ld_personas ld) = ld_persona_paths ld \<and> distinct (ld_persona_paths ld)"

lemma loading_ok_start: "loading_ok env (start_loading env)"
  by (simp add: loading_ok_def paths_inside_def start_loading_def manifests_def u_inj)

lemma paths_inside_set:
  assumes "paths_inside env paths" and "resolve_inside (ce_root env) (ce_facts env) reference = Inr path"
  shows "paths_inside env (dict_set reference path paths)"
  using assms by (auto simp: paths_inside_def set_dict_set dict_keys_set)

lemma persona_from_file_set:
  assumes "persona_from_file env paths p" and "resolve_inside (ce_root env) (ce_facts env) reference = Inr path"
  shows "persona_from_file env (dict_set reference path paths) p"
  using assms by (auto simp: persona_from_file_def dict_get_set)

lemma add_persona_ok:
  assumes "add_persona env i role kind profile reference ld = Inr ld'" and "loading_ok env ld"
  shows "loading_ok env ld' \<and> map pf_role (ld_personas ld') = map pf_role (ld_personas ld) @ [u role]"
proof -
  obtain path prompt where r: "resolve_inside (ce_root env) (ce_facts env) reference = Inr path"
    "path \<notin> set (ld_persona_paths ld)" "read_utf8_nonempty (ce_files env) prompt_limit path = Inr prompt"
    using assms(1) by (auto simp: add_persona_def rbind_Inr_iff split: if_splits)
  with assms(1) have ld': "ld' = ld\<lparr>ld_persona_paths := ld_persona_paths ld @ [path],
      ld_paths := dict_set reference path (ld_paths ld),
      ld_ids := dict_set reference (u ''persona:'' @ i, u kind) (ld_ids ld),
      ld_personas := ld_personas ld @
        [\<lparr>pf_persona_id = i, pf_role = u role, pf_prompt_path = reference, pf_prompt = prompt,
          pf_model_profile_id = profile, pf_allowed_tool_ids = [], pf_allowed_template_variables = [],
          pf_prompt_sha256 = content_hash prompt\<rparr>]\<rparr>"
    by (simp add: add_persona_def)
  have "path = pt_resolved (ce_facts env reference)" using r(1) by (simp add: resolve_inside_iff)
  with assms(2) r show ?thesis
    by (auto simp: ld' loading_ok_def persona_path_def paths_inside_set persona_from_file_set)
      (simp add: persona_from_file_def dict_get_set)
qed


text \<open>A value that has to be a string, or a table.\<close>

lemma case_PStr_iff:
  "(case v of PStr s \<Rightarrow> f s | _ \<Rightarrow> Inl e) = Inr x \<longleftrightarrow> (\<exists>s. v = PStr s \<and> f s = Inr x)"
  by (cases v) simp_all

lemma case_PDict_iff:
  "(case v of PDict d \<Rightarrow> f d | _ \<Rightarrow> Inl e) = Inr x \<longleftrightarrow> (\<exists>d. v = PDict d \<and> f d = Inr x)"
  by (cases v) simp_all

lemma set_dict_set_subset: "set (dict_set k v d) \<subseteq> insert (k, v) (set d)"
  by (induction d) (auto split: if_splits)

lemma load_fixed_persona_add:
  "load_fixed_persona env agent i ld = Inr ld' \<Longrightarrow>
     \<exists>r. add_persona env (u i) i ''persona'' (u i) r ld = Inr ld'"
  by (auto simp: load_fixed_persona_def rbind_Inr_iff case_PStr_iff)

lemma load_state_persona_add:
  "load_state_persona env item ld = Inr ld' \<Longrightarrow>
     \<exists>i r m. add_persona env i ''state'' ''state_prompt'' m r (ld\<lparr>ld_state_ids := ld_state_ids ld @ [i]\<rparr>) = Inr ld'"
  by (auto simp: load_state_persona_def rbind_Inr_iff case_PStr_iff split: if_splits)

definition loaded_roles :: "loading \<Rightarrow> bool" where
  "loaded_roles ld \<longleftrightarrow>
     (\<exists>n. map pf_role (ld_personas ld) = [u ''chat'', u ''memory_curator''] @ replicate n (u ''state''))"

lemma load_personas_ok:
  assumes "load_personas env agent states = Inr ld"
  shows "loading_ok env ld \<and> loaded_roles ld"
proof -
  obtain ld0 items where ld0: "each (load_fixed_persona env agent) [''chat'', ''memory_curator''] (start_loading env) = Inr ld0"
    "each (load_state_persona env) items ld0 = Inr ld"
    using assms by (auto simp: load_personas_def rbind_Inr_iff)
  then obtain ld1 where ld1: "load_fixed_persona env agent ''chat'' (start_loading env) = Inr ld1"
    "load_fixed_persona env agent ''memory_curator'' ld1 = Inr ld0"
    by (auto simp: rbind_Inr_iff)
  have fixed: "loading_ok env b \<and> map pf_role (ld_personas b) = map pf_role (ld_personas a) @ [u i]"
    if "load_fixed_persona env agent i a = Inr b" and "loading_ok env a" for i a b
    using load_fixed_persona_add [OF that(1)] add_persona_ok [OF _ that(2)] by blast
  have "map pf_role (ld_personas ld0) = [u ''chat'', u ''memory_curator'']" and ok: "loading_ok env ld0"
    using fixed [OF ld1(1) loading_ok_start] fixed [OF ld1(2)] by (simp_all add: start_loading_def)
  then have "loaded_roles ld0" by (simp add: loaded_roles_def)
  with ok show ?thesis
  proof (rule each_invariant [OF ld0(2), of "\<lambda>ld. loading_ok env ld \<and> loaded_roles ld", OF conjI])
    fix item a b
    assume a: "loading_ok env a \<and> loaded_roles a" and "load_state_persona env item a = Inr b"
    then obtain i r m where
      "add_persona env i ''state'' ''state_prompt'' m r (a\<lparr>ld_state_ids := ld_state_ids a @ [i]\<rparr>) = Inr b"
      using load_state_persona_add by blast
    from add_persona_ok [OF this] a obtain n where "loading_ok env b"
      "map pf_role (ld_personas b) = [u ''chat'', u ''memory_curator''] @ replicate n (u ''state'') @ [u ''state'']"
      by (auto simp: loading_ok_def loaded_roles_def)
    then show "loading_ok env b \<and> loaded_roles b"
      unfolding loaded_roles_def by (metis append_assoc replicate_append_same replicate_Suc)
  qed
qed

lemma load_prompt_ok:
  assumes "load_prompt env definitions (i, v) (ld, prompts) = Inr (ld', prompts')" and "loading_ok env ld"
    and "\<forall>template \<in> snd ` set prompts. \<exists>allowed untrusted. validate_template template allowed untrusted = Inr ()"
  shows "loading_ok env ld' \<and> ld_personas ld' = ld_personas ld \<and>
    (\<forall>template \<in> snd ` set prompts'. \<exists>allowed untrusted. validate_template template allowed untrusted = Inr ())"
proof -
  obtain reference path prompt names data where r: "resolve_inside (ce_root env) (ce_facts env) reference = Inr path"
    "validate_template prompt names data = Inr ()"
    "ld' = ld\<lparr>ld_paths := dict_set reference path (ld_paths ld),
      ld_ids := dict_set reference (u ''prompt:'' @ i, u ''prompt_template'') (ld_ids ld)\<rparr>"
    "prompts' = dict_set i prompt prompts"
    using assms(1) unfolding load_prompt_def prod.case case_PStr_iff rbind_Inr_iff case_PDict_iff
    by (clarsimp simp: case_PDict_iff rbind_Inr_iff split: option.splits) blast
  have "set prompts' \<subseteq> insert (i, prompt) (set prompts)" unfolding r(4) by (rule set_dict_set_subset)
  then have "\<forall>template \<in> snd ` set prompts'. template \<in> snd ` set prompts \<or> template = prompt" by force
  then have "\<forall>template \<in> snd ` set prompts'. \<exists>allowed untrusted. validate_template template allowed untrusted = Inr ()"
    using assms(3) r(2) by blast
  with assms(2) r(1) show ?thesis
    by (auto simp: r(3) loading_ok_def paths_inside_set persona_from_file_set)
qed

lemma load_prompts_ok:
  assumes "load_prompts env agent ld = Inr (ld', prompts)" and "loading_ok env ld"
  shows "loading_ok env ld' \<and> ld_personas ld' = ld_personas ld \<and>
    (\<forall>template \<in> snd ` set prompts. \<exists>allowed untrusted. validate_template template allowed untrusted = Inr ())"
proof -
  let ?I = "\<lambda>(l, ps). loading_ok env l \<and> ld_personas l = ld_personas ld \<and>
    (\<forall>template \<in> snd ` set ps. \<exists>allowed untrusted. validate_template template allowed untrusted = Inr ())"
  obtain definitions items where "each (load_prompt env definitions) items (ld, []) = Inr (ld', prompts)"
    using assms(1) by (auto simp: load_prompts_def rbind_Inr_iff case_PDict_iff)
  then have "?I (ld', prompts)"
  proof (rule each_invariant [where I = ?I])
    fix x a b
    assume "?I a" and "load_prompt env definitions x a = Inr b"
    moreover obtain i v l ps l' ps' where "x = (i, v)" "a = (l, ps)" "b = (l', ps')"
      by (cases x, cases a, cases b)
    ultimately show "?I b" using load_prompt_ok [of env definitions i v l ps l' ps'] by simp
  qed (use assms(2) in simp)
  then show ?thesis by simp
qed

subsection \<open>Properties\<close>

lemma read_utf8_nonemptyD:
  assumes "read_utf8_nonempty disk n path = Inr s"
  obtains payload where "disk path = Some payload" and "decode_sig payload = Some s"
  using assms by (auto simp: read_utf8_nonempty_def split: option.splits if_splits)

lemma make_asset_facts:
  assumes "make_asset env ld revision (name, path) = Inr a"
  obtains content where "read_asset_text env path = Inr content" and "ca_content a = content"
    and "ca_path a = map (\<lambda>c. if c = 92 then 47 else c) name" and "ca_revision a = revision" and "config_asset_ok a"
  using assms by (auto simp: make_asset_def rbind_Inr_iff validated_iff Let_def)

text \<open>What an accepted configuration is built from: its personas, its files and what the assets say of them.\<close>

definition persona_trusted :: "config_env \<Rightarrow> config_snapshot \<Rightarrow> persona_profile \<Rightarrow> bool" where
  "persona_trusted env s p \<longleftrightarrow>
     startswith (persona_path env p) (ce_root env) \<and> \<not> pt_symlink (ce_facts env (pf_prompt_path p)) \<and>
     read_utf8_nonempty (ce_files env) prompt_limit (persona_path env p) = Inr (pf_prompt p) \<and>
     (\<exists>a \<in> set (cs_assets s). ca_path a = map (\<lambda>c. if c = 92 then 47 else c) (pf_prompt_path p) \<and>
        ca_content a = universal_newlines (pf_prompt p))"

lemma persona_trusted_loaded:
  assumes "persona_from_file env (ld_paths ld) p"
    and "rmap (make_asset env ld revision) (sorted_paths ld) = Inr (cs_assets s)"
  shows "persona_trusted env s p"
proof -
  let ?path = "persona_path env p"
  have p: "startswith ?path (ce_root env)" "\<not> pt_symlink (ce_facts env (pf_prompt_path p))"
    "read_utf8_nonempty (ce_files env) prompt_limit ?path = Inr (pf_prompt p)"
    "dict_get (ld_paths ld) (pf_prompt_path p) = Some ?path"
    using assms(1) by (auto simp: persona_from_file_def resolve_inside_iff persona_path_def)
  then have "(pf_prompt_path p, ?path) \<in> set (sorted_paths ld)"
    by (auto simp: sorted_paths_def dest: map_of_SomeD)
  then obtain a where a: "a \<in> set (cs_assets s)" "make_asset env ld revision (pf_prompt_path p, ?path) = Inr a"
    using assms(2) unfolding rmap_Inr_conv list_all2_conv_all_nth by (metis in_set_conv_nth)
  obtain payload where "ce_files env ?path = Some payload" "decode_sig payload = Some (pf_prompt p)"
    using p(3) by (rule read_utf8_nonemptyD)
  then have "read_asset_text env ?path = Inr (universal_newlines (pf_prompt p))"
    by (simp add: read_asset_text_def read_file_def)
  with make_asset_facts [OF a(2)] have "ca_path a = map (\<lambda>c. if c = 92 then 47 else c) (pf_prompt_path p)"
    "ca_content a = universal_newlines (pf_prompt p)"
    by auto
  with a(1) p(1-3) show ?thesis unfolding persona_trusted_def by blast
qed


text \<open>A file of the configuration and the asset that stands for it.\<close>

definition asset_of_file :: "config_env \<Rightarrow> pystr \<times> bytes \<Rightarrow> config_asset \<Rightarrow> bool" where
  "asset_of_file env = (\<lambda>(name, payload) a.
     (\<exists>path. ce_files env path = Some payload \<and>
        (path = ce_root env @ [name] \<and> name \<in> set manifests \<or>
         resolve_inside (ce_root env) (ce_facts env) name = Inr path)) \<and>
     ca_path a = map (\<lambda>c. if c = 92 then 47 else c) name \<and>
     map_option universal_newlines (decode_sig payload) = Some (ca_content a) \<and>
     ca_content_sha256 a = content_hash (ca_content a))"

lemma read_fileD: "read_file env path = Inr b \<Longrightarrow> ce_files env path = Some b"
  by (simp add: read_file_def split: option.splits)

lemma asset_of_file_loaded:
  assumes "make_asset env ld revision (name, path) = Inr a" and "read_file env path = Inr payload"
    and "path = ce_root env @ [name] \<and> name \<in> set manifests \<or>
      resolve_inside (ce_root env) (ce_facts env) name = Inr path"
  shows "asset_of_file env (name, payload) a \<and> ca_revision a = revision"
proof -
  obtain content where c: "read_asset_text env path = Inr content" "ca_content a = content"
    "ca_path a = map (\<lambda>c. if c = 92 then 47 else c) name" "ca_revision a = revision" "config_asset_ok a"
    using assms(1) by (rule make_asset_facts)
  from c(1) have "map_option universal_newlines (decode_sig payload) = Some content"
    by (simp add: read_asset_text_def assms(2) split: option.splits)
  with c assms(3) read_fileD [OF assms(2)] show ?thesis
    unfolding asset_of_file_def prod.case by (auto simp: config_asset_ok_def)
qed

lemma config_revision_assets:
  assumes "config_revision env ld = Inr revision" and "rmap (make_asset env ld revision) (sorted_paths ld) = Inr assets"
    and "paths_inside env (ld_paths ld)"
  shows "\<exists>named. distinct (map fst named) \<and> sorted (map fst named) \<and>
    revision = u ''sha256:'' @ hexdigest (sha256 (digest_input named)) \<and>
    list_all2 (\<lambda>f a. asset_of_file env f a \<and> ca_revision a = revision) named assets"
proof -
  let ?read = "\<lambda>(name, path) f. \<exists>b. read_file env path = Inr b \<and> f = (name, b)"
  obtain named where n: "rmap (\<lambda>(name, path). rbind (read_file env path) (\<lambda>b. Inr (name, b))) (sorted_paths ld) = Inr named"
    "revision = u ''sha256:'' @ hexdigest (sha256 (digest_input named))"
    using assms(1) by (auto simp: config_revision_def rbind_Inr_iff)
  have named: "list_all2 ?read (sorted_paths ld) named"
    using n(1) unfolding rmap_Inr_conv by (rule list_all2_mono) (auto simp: rbind_Inr_iff)
  have names: "map fst named = map fst (sorted_paths ld)"
    using named by (induction rule: list_all2_induct) auto
  have "distinct (map fst named) \<and> sorted (map fst named)"
    using assms(3) unfolding names sorted_paths_def by (simp add: paths_inside_def distinct_map)
  moreover have "list_all2 (\<lambda>f a. asset_of_file env f a \<and> ca_revision a = revision) named assets"
  proof (rule list_all2_all_nthI)
    show "length named = length assets"
      using list_all2_lengthD [OF named] rmap_Inr_length [OF assms(2)] by simp
    fix k
    assume k: "k < length named"
    obtain name path where np: "sorted_paths ld ! k = (name, path)" by (cases "sorted_paths ld ! k")
    have len: "k < length (sorted_paths ld)" using k list_all2_lengthD [OF named] by simp
    obtain b where b: "read_file env path = Inr b" "named ! k = (name, b)"
      using list_all2_nthD [OF named len] np by auto
    have "make_asset env ld revision (name, path) = Inr (assets ! k)"
      using list_all2_nthD [OF assms(2) [unfolded rmap_Inr_conv] len] np by simp
    moreover have "(name, path) \<in> set (ld_paths ld)"
      using nth_mem [OF len] np by (simp add: sorted_paths_def)
    ultimately show "asset_of_file env (named ! k) (assets ! k) \<and> ca_revision (assets ! k) = revision"
      unfolding b(2) using asset_of_file_loaded [OF _ b(1)] assms(3) by (auto simp: paths_inside_def)
  qed
  ultimately show ?thesis using n(2) by blast
qed

text \<open>
  C36. An accepted configuration is what its files say. When a load succeeds there is exactly one chat and one
  curator persona; every persona's prompt is the decoded content of a file that lies below the configuration
  root and was not reached through a link, no two personas share a file, and an asset of the snapshot holds the
  same text up to line endings; every template is one the template check accepts; the assets stand, in the
  order of the names, for the manifests and the referenced files, hold their text with its hash, and carry the
  revision of the snapshot, which is the digest of the names and bytes of exactly these files.
\<close>

theorem accepted_configuration:
  assumes "load_config env require_credentials = Inr s"
  shows "length (with_role ''chat'' (cs_personas s)) = 1 \<and> length (with_role ''memory_curator'' (cs_personas s)) = 1 \<and>
    (\<forall>p \<in> set (cs_personas s). persona_trusted env s p) \<and> distinct (map (persona_path env) (cs_personas s)) \<and>
    (\<forall>template \<in> snd ` set (cs_prompts s). \<exists>allowed untrusted. validate_template template allowed untrusted = Inr ()) \<and>
    (\<exists>named. distinct (map fst named) \<and> sorted (map fst named) \<and>
       cs_revision s = u ''sha256:'' @ hexdigest (sha256 (digest_input named)) \<and>
       list_all2 (\<lambda>f a. asset_of_file env f a \<and> ca_revision a = cs_revision s) named (cs_assets s))"
proof -
  obtain agent states ld0 ld where l: "load_personas env agent states = Inr ld0"
    "load_prompts env agent ld0 = Inr (ld, cs_prompts s)" "config_revision env ld = Inr (cs_revision s)"
    "rmap (make_asset env ld (cs_revision s)) (sorted_paths ld) = Inr (cs_assets s)" "cs_personas s = ld_personas ld"
    using assms by (fastforce simp: load_config_def rbind_Inr_iff Let_def create_snapshot_def)
  have ld: "loading_ok env ld" "loaded_roles ld"
    "\<forall>template \<in> snd ` set (cs_prompts s). \<exists>allowed untrusted. validate_template template allowed untrusted = Inr ()"
    using load_personas_ok [OF l(1)] load_prompts_ok [OF l(2)] by (auto simp: loaded_roles_def)
  obtain n where n: "map pf_role (ld_personas ld) = [u ''chat'', u ''memory_curator''] @ replicate n (u ''state'')"
    using ld(2) unfolding loaded_roles_def ..
  have "length (with_role r (cs_personas s)) = length (filter (\<lambda>x. x = u r) (map pf_role (ld_personas ld)))" for r
    by (simp add: with_role_def filter_map o_def l(5))
  note roles = this [unfolded n]
  have "persona_trusted env s p" if "p \<in> set (cs_personas s)" for p
    using ld(1) persona_trusted_loaded [OF _ l(4)] that by (simp add: loading_ok_def l(5))
  moreover have "length (with_role ''chat'' (cs_personas s)) = 1 \<and> length (with_role ''memory_curator'' (cs_personas s)) = 1"
    by (simp add: roles u_inj)
  moreover have "distinct (map (persona_path env) (cs_personas s))" using ld(1) by (simp add: loading_ok_def l(5))
  moreover have "paths_inside env (ld_paths ld)" using ld(1) by (simp add: loading_ok_def)
  ultimately show ?thesis using ld(3) config_revision_assets [OF l(3,4)] by blast
qed

subsection \<open>A concrete configuration\<close>

text \<open>
  The five manifests are one byte each, which stands for their text; the prompt files hold a letter. The
  state persona is called \<open>chat\<close>, like the fixed one.
\<close>

abbreviation tab :: "(string \<times> pyval) list \<Rightarrow> pyval" where
  "tab d \<equiv> PDict (map (\<lambda>(k, v). (u k, v)) d)"

abbreviation txt' :: "string \<Rightarrow> pyval" where
  "txt' s \<equiv> PStr (u s)"

definition sample_agent :: "(string \<times> pyval) list" where
  "sample_agent =
     [(''schema_version'', PInt 1), (''data_root'', txt' ''../d''),
      (''archive'', tab [(''max_record_bytes'', PInt 1), (''segment_max_bytes'', PInt 1)]),
      (''short_term'', tab [(''reserved_records'', PInt 1), (''max_records'', PInt 2),
         (''curation_batch_min_records'', PInt 1), (''curation_batch_max_records'', PInt 1)]),
      (''context_budget'', tab [(''trusted_instruction_tokens'', PInt 1), (''long_term_tokens'', PInt 1),
         (''short_term_tokens'', PInt 1), (''tool_result_tokens'', PInt 1), (''max_input_tokens'', PInt 4)]),
      (''personas'', tab [(''chat'', txt' ''a''), (''memory_curator'', txt' ''b'')]),
      (''prompts'', tab [(''p'', txt' ''t'')]),
      (''template_variables'', tab [(''p'', tab [(''allowed'', PList [])])])]"

definition sample_profile :: pyval where
  "sample_profile =
     tab [(''provider'', txt' ''p''), (''model'', txt' ''deepseek-v4-flash''), (''thinking_enabled'', PBool False),
          (''max_output_tokens'', PInt 8192)]"

definition sample_providers :: "(string \<times> pyval) list" where
  "sample_providers =
     [(''schema_version'', PInt 1),
      (''providers'', PList [tab [(''id'', txt' ''p''), (''api_key_env'', txt' ''K''), (''max_output_cap'', PInt 8192),
         (''token_estimator'', txt' ''deepseek_character_v1'')]]),
      (''model_profiles'', tab [(''chat'', sample_profile), (''memory_curator'', sample_profile)])]"

definition sample_states :: "(string \<times> pyval) list" where
  "sample_states =
     [(''schema_version'', PInt 1), (''default_state_id'', txt' ''d''),
      (''personas'', PList [tab [(''id'', txt' ''chat''), (''prompt'', txt' ''s'')]]),
      (''states'', PList [tab [(''id'', txt' ''d''), (''enabled'', PBool True),
         (''ordered_persona_ids'', PList [txt' ''chat''])]])]"

definition sample_history :: "(string \<times> pyval) list" where
  "sample_history =
     [(''schema_version'', PInt 1), (''display_timezone'', txt' ''Z''), (''long_gap_minutes'', PInt 1),
      (''continuous_segment_refresh_minutes'', PInt 1), (''split_on_local_date_change'', PBool True)]"

definition sample_documents :: "(string \<times> pyval) list list" where
  "sample_documents =
     [sample_agent, sample_providers, sample_states, [(''schema_version'', PInt 1)], sample_history]"

definition sample_config :: config_env where
  "sample_config =
     \<lparr>ce_root = [u ''c''],
      ce_facts = (\<lambda>r. \<lparr>pt_symlink = False,
        pt_resolved = (if r = u ''../d'' then [u ''d''] else [u ''c'', r]), pt_resolved_symlink = False\<rparr>),
      ce_files = (\<lambda>path. case path of
        [_, name] \<Rightarrow> (case map_of (zip manifests [0..<5]) name of Some i \<Rightarrow> Some [i] | None \<Rightarrow> Some (utf8 name))
      | _ \<Rightarrow> None),
      ce_toml = (\<lambda>b. Inr (map (\<lambda>(k, v). (u k, v)) (sample_documents ! hd b))), ce_zone = (\<lambda>_. Inr ()),
      ce_tables = \<lparr>py_float_trunc = (\<lambda>_. Inl ValueExn), py_float_int = (\<lambda>_. None), py_str_other = (\<lambda>_. []),
        py_float_of = (\<lambda>_. Inl ValueExn)\<rparr>,
      ce_environ = (\<lambda>_. Some (u ''k''))\<rparr>"

lemma sample_config_simps [simp]:
  "ce_root sample_config = [u ''c'']"
  "ce_facts sample_config r = \<lparr>pt_symlink = False,
     pt_resolved = (if r = u ''../d'' then [u ''d''] else [u ''c'', r]), pt_resolved_symlink = False\<rparr>"
  "ce_zone sample_config z = Inr ()"
  "ce_environ sample_config v = Some (u ''k'')"
  "py_float_int (ce_tables sample_config) r = None"
  by (simp_all add: sample_config_def)

lemma sample_manifest_files [simp]:
  "ce_files sample_config [u ''c'', u ''agent.toml''] = Some [0]"
  "ce_files sample_config [u ''c'', u ''providers.toml''] = Some [1]"
  "ce_files sample_config [u ''c'', u ''states.toml''] = Some [2]"
  "ce_files sample_config [u ''c'', u ''tools.toml''] = Some [3]"
  "ce_files sample_config [u ''c'', u ''history_timestamps.toml''] = Some [4]"
  by (simp_all add: sample_config_def manifests_def upt_rec u_inj)

lemma sample_prompt_files [simp]:
  "name \<notin> set manifests \<Longrightarrow> ce_files sample_config [d, name] = Some (utf8 name)"
proof -
  assume "name \<notin> set manifests"
  then have "map_of (zip manifests [0..<5]) name = None" by (auto simp: map_of_eq_None_iff dest: set_zip_leftD)
  then show ?thesis by (simp add: sample_config_def)
qed

abbreviation sample_doc :: "(string \<times> pyval) list \<Rightarrow> (pystr \<times> pyval) list" where
  "sample_doc d \<equiv> map (\<lambda>(k, v). (u k, v)) d"

lemma sample_manifests:
  "read_manifests sample_config =
     Inr [(u ''agent.toml'', sample_doc sample_agent), (u ''providers.toml'', sample_doc sample_providers),
          (u ''states.toml'', sample_doc sample_states), (u ''tools.toml'', sample_doc [(''schema_version'', PInt 1)]),
          (u ''history_timestamps.toml'', sample_doc sample_history)]"
proof -
  have toml: "ce_toml sample_config [i] = Inr (sample_doc (sample_documents ! i))" for i
    by (simp add: sample_config_def)
  have version: "dict_get (sample_doc d) (u ''schema_version'') = Some (PInt 1)" if "d \<in> set sample_documents" for d
    using that by (auto simp: sample_documents_def sample_agent_def sample_providers_def sample_states_def sample_history_def)
  have "length sample_documents = 5" by (simp add: sample_documents_def)
  then have "read_toml sample_config name = Inr (sample_doc (sample_documents ! i))"
    if "ce_files sample_config [u ''c'', name] = Some [i]" and "i < 5" for name i
    using that version [OF nth_mem] by (simp add: read_toml_def toml py_eq_def)
  then show ?thesis by (simp add: read_manifests_def manifests_def) (simp add: sample_documents_def)
qed

definition sample_checked :: "(pystr \<times> (pystr \<times> pyval) list) list" where
  "sample_checked =
     [(u ''agent.toml'', sample_doc (sample_agent @ [(''debug_prompt'', PDict debug_defaults)])),
      (u ''providers.toml'', sample_doc sample_providers),
      (u ''states.toml'', sample_doc sample_states), (u ''tools.toml'', sample_doc [(''schema_version'', PInt 1)]),
      (u ''history_timestamps.toml'', sample_doc sample_history)]"

lemma sample_agent_valid: "validate_agent t (PDict (sample_doc sample_agent)) = Inr ()"
  by (simp add: validate_agent_def sample_agent_def py_item_def py_get_def require_mapping_def at_most_def
      py_int_at_def py_int_def recast_def validate_debug_prompt_def debug_defaults_def plain_int_def u_inj)

lemma sample_debug_valid: "validate_debug_prompt PNone = Inr debug_defaults"
  by (simp add: validate_debug_prompt_def debug_defaults_def plain_int_def u_inj)

lemma sample_history_valid:
  "validate_history_timestamps (ce_zone sample_config) (PDict (sample_doc sample_history)) = Inr (sample_doc sample_history)"
  by (simp add: validate_history_timestamps_def sample_history_def require_mapping_def timestamp_fields_def
      plain_int_def strip_eq_Nil is_space_def u_Cons Let_def)

lemma sample_check:
  "read_manifests sample_config = Inr raw \<Longrightarrow> check_manifests sample_config raw = Inr sample_checked"
  unfolding sample_manifests sum.inject
  by (drule sym, simp add: check_manifests_def sample_agent_valid sample_history_valid py_get_def u_inj Let_def)
     (simp add: sample_agent_def sample_debug_valid sample_checked_def u_inj)


definition sample_provider :: pyval where
  "sample_provider =
     tab [(''id'', txt' ''p''), (''api_key_env'', txt' ''K''), (''max_output_cap'', PInt 8192),
          (''token_estimator'', txt' ''deepseek_character_v1'')]"

lemma sample_providers_valid:
  "check_providers sample_config True (sample_doc sample_providers) = Inr [sample_provider]"
  by (simp add: check_providers_def py_get_def sample_providers_def sample_provider_def check_credential_def u_inj)

definition sample_persona :: "string \<Rightarrow> string \<Rightarrow> string \<Rightarrow> persona_profile" where
  "sample_persona i role r =
     \<lparr>pf_persona_id = u i, pf_role = u role, pf_prompt_path = u r, pf_prompt = u r,
      pf_model_profile_id = (if role = ''memory_curator'' then u role else u ''chat''), pf_allowed_tool_ids = [],
      pf_allowed_template_variables = [], pf_prompt_sha256 = content_hash (u r)\<rparr>"

definition sample_personas :: "persona_profile list" where
  "sample_personas =
     [sample_persona ''chat'' ''chat'' ''a'', sample_persona ''memory_curator'' ''memory_curator'' ''b'',
      sample_persona ''chat'' ''state'' ''s'']"

definition sample_ids :: "(string \<times> string \<times> string) list" where
  "sample_ids = [(''a'', ''persona:chat'', ''persona''), (''b'', ''persona:memory_curator'', ''persona''),
     (''s'', ''persona:chat'', ''state_prompt'')]"

definition sample_loaded :: "string list \<Rightarrow> (string \<times> string \<times> string) list \<Rightarrow> loading" where
  "sample_loaded names ids =
     \<lparr>ld_paths = ld_paths (start_loading sample_config) @ map (\<lambda>r. (u r, [u ''c'', u r])) names,
      ld_ids = ld_ids (start_loading sample_config) @ map (\<lambda>(r, i, k). (u r, u i, u k)) ids,
      ld_personas = sample_personas, ld_persona_paths = [[u ''c'', u ''a''], [u ''c'', u ''b''], [u ''c'', u ''s'']],
      ld_state_ids = [u ''chat'']\<rparr>"

lemma dict_set_start:
  "k \<notin> set manifests \<Longrightarrow> dict_set k v (map (\<lambda>name. (name, f name)) manifests @ d) =
     map (\<lambda>name. (name, f name)) manifests @ dict_set k v d"
  by (simp add: manifests_def)

lemma sample_read:
  assumes "r \<in> {''a'', ''b'', ''s'', ''t''}"
  shows "read_utf8_nonempty (ce_files sample_config) prompt_limit [d, u r] = Inr (u r)"
proof -
  have "u r \<notin> set manifests" using assms by (auto simp: manifests_def u_inj)
  moreover have "utf8_decode (utf8 (u r)) = Some (u r)" and "utf8 (u r) = u r" and "length (u r) = 1" and "strip (u r) \<noteq> []"
    using assms by (auto simp: u_Cons utf8_def strip_eq_Nil is_space_def)
  ultimately show ?thesis
    using assms by (auto simp: read_utf8_nonempty_def prompt_limit_def decode_sig_def startswith_def u_Cons)
qed

lemma sample_add:
  assumes "r \<in> {''a'', ''b'', ''s''}" and "[u ''c'', u r] \<notin> set (ld_persona_paths ld)"
  shows "add_persona sample_config i role kind profile (u r) ld =
    Inr (ld\<lparr>ld_persona_paths := ld_persona_paths ld @ [[u ''c'', u r]],
            ld_paths := dict_set (u r) [u ''c'', u r] (ld_paths ld),
            ld_ids := dict_set (u r) (u ''persona:'' @ i, u kind) (ld_ids ld),
            ld_personas := ld_personas ld @
              [\<lparr>pf_persona_id = i, pf_role = u role, pf_prompt_path = u r, pf_prompt = u r,
                pf_model_profile_id = profile, pf_allowed_tool_ids = [], pf_allowed_template_variables = [],
                pf_prompt_sha256 = content_hash (u r)\<rparr>]\<rparr>)"
proof -
  have "u r \<noteq> u ''../d''" and "startswith (u r) [47] = False" using assms(1) by (auto simp: u_Cons startswith_def)
  then have "resolve_inside [u ''c''] (ce_facts sample_config) (u r) = Inr [u ''c'', u r]"
    by (simp add: resolve_inside_iff startswith_def)
  with assms sample_read show ?thesis by (auto simp: add_persona_def)
qed

lemma sample_fixed:
  "load_fixed_persona sample_config (sample_doc (sample_agent @ d)) ''chat'' ld =
     add_persona sample_config (u ''chat'') ''chat'' ''persona'' (u ''chat'') (u ''a'') ld"
  "load_fixed_persona sample_config (sample_doc (sample_agent @ d)) ''memory_curator'' ld =
     add_persona sample_config (u ''memory_curator'') ''memory_curator'' ''persona'' (u ''memory_curator'') (u ''b'') ld"
  by (simp_all add: load_fixed_persona_def py_get_def sample_agent_def u_inj)

lemma sample_state_item:
  "py_get (PDict (sample_doc sample_states)) ''personas'' (PList []) =
     Inr (PList [tab [(''id'', txt' ''chat''), (''prompt'', txt' ''s'')]])"
  "u ''chat'' \<notin> set (ld_state_ids ld) \<Longrightarrow>
     load_state_persona sample_config (tab [(''id'', txt' ''chat''), (''prompt'', txt' ''s'')]) ld =
       add_persona sample_config (u ''chat'') ''state'' ''state_prompt'' (u ''chat'') (u ''s'')
         (ld\<lparr>ld_state_ids := ld_state_ids ld @ [u ''chat'']\<rparr>)"
  by (simp_all add: load_state_persona_def py_get_def sample_states_def py_text_def u_inj)

lemma sample_personas_loaded:
  "load_personas sample_config (sample_doc (sample_agent @ d)) (sample_doc sample_states) =
     Inr (sample_loaded [''a'', ''b'', ''s''] sample_ids)"
proof -
  have new: "u r \<notin> set manifests" if "r \<in> {''a'', ''b'', ''s''}" for r
    using that by (auto simp: manifests_def u_inj)
  show ?thesis
    by (simp add: load_personas_def sample_fixed [simplified] sample_state_item(1) [simplified] sample_add start_loading_def u_inj)
      (simp add: sample_state_item(2) [simplified] sample_add sample_loaded_def start_loading_def sample_personas_def
        sample_persona_def sample_ids_def dict_set_start [of _ _ _ "[]", simplified] dict_set_start new u_inj
        u_append [symmetric])
qed


lemma sample_states_valid: "check_states sample_config (sample_doc sample_states) sample_personas = Inr ()"
  by (simp add: check_states_def py_get_def sample_states_def u_inj check_state_refs_def sample_personas_def
      sample_persona_def)

lemma sample_profile_valid:
  "check_model_profile (ce_tables sample_config) [(txt' ''p'', sample_provider)] (i, sample_profile) = Inr ()"
  by (simp add: check_model_profile_def sample_profile_def Let_def py_eq_def py_norm_def u_inj
      validate_provider_capabilities_def recast_def sample_provider_def py_item_def py_get_def plain_int_def)

lemma sample_profiles_valid:
  "check_model_profiles sample_config (sample_doc sample_providers) [sample_provider] sample_personas = Inr ()"
proof -
  have "dict_get (sample_doc sample_providers) (u ''model_profiles'') =
      Some (tab [(''chat'', sample_profile), (''memory_curator'', sample_profile)])"
    by (simp add: sample_providers_def u_inj)
  moreover have "py_get sample_provider ''id'' PNone = Inr (txt' ''p'')"
    by (simp add: sample_provider_def py_get_def u_inj)
  ultimately show ?thesis
    by (simp add: check_model_profiles_def py_get_def [of "PDict _"] sample_profile_valid)
      (simp add: sample_personas_def sample_persona_def u_inj)
qed

definition sample_all :: loading where
  "sample_all =
     sample_loaded [''a'', ''b'', ''s'', ''t''] (sample_ids @ [(''t'', ''prompt:p'', ''prompt_template'')])"

lemma sample_prompt_item:
  "load_prompt sample_config (tab [(''p'', tab [(''allowed'', PList [])])]) (u ''p'', txt' ''t'') (ld, []) =
     Inr (ld\<lparr>ld_paths := dict_set (u ''t'') [u ''c'', u ''t''] (ld_paths ld),
             ld_ids := dict_set (u ''t'') (u ''prompt:'' @ u ''p'', u ''prompt_template'') (ld_ids ld)\<rparr>,
          [(u ''p'', u ''t'')])"
proof -
  have "resolve_inside [u ''c''] (ce_facts sample_config) (u ''t'') = Inr [u ''c'', u ''t'']"
    by (simp add: resolve_inside_iff startswith_def u_Cons)
  moreover have "validate_template (u ''t'') [] [] = Inr ()"
    by (simp add: validate_template_iff template_names.simps u_Cons)
  ultimately show ?thesis
    by (simp add: load_prompt_def sample_read py_get_def text_items_def u_inj)
qed

lemma sample_prompt_loaded:
  "load_prompts sample_config (sample_doc (sample_agent @ d)) (sample_loaded [''a'', ''b'', ''s''] sample_ids) =
     Inr (sample_all, [(u ''p'', u ''t'')])"
proof -
  have "dict_get (sample_doc (sample_agent @ d)) (u ''template_variables'') =
      Some (tab [(''p'', tab [(''allowed'', PList [])])])"
    "dict_get (sample_doc (sample_agent @ d)) (u ''prompts'') = Some (tab [(''p'', txt' ''t'')])"
    by (simp_all add: sample_agent_def u_inj)
  then have "load_prompts sample_config (sample_doc (sample_agent @ d)) ld =
      load_prompt sample_config (tab [(''p'', tab [(''allowed'', PList [])])]) (u ''p'', txt' ''t'') (ld, [])" for ld
    by (cases "load_prompt sample_config (tab [(''p'', tab [(''allowed'', PList [])])]) (u ''p'', txt' ''t'') (ld, [])")
      (simp_all add: load_prompts_def py_get_def del: map_append)
  moreover have "u ''t'' \<notin> set manifests" by (simp add: manifests_def u_inj)
  ultimately show ?thesis
    unfolding sample_prompt_item
    by (simp add: sample_all_def sample_loaded_def start_loading_def dict_set_start sample_ids_def u_inj
        u_append [symmetric])
qed

definition sample_file_names :: "string list" where
  "sample_file_names =
     [''agent.toml'', ''providers.toml'', ''states.toml'', ''tools.toml'', ''history_timestamps.toml'', ''a'', ''b'', ''s'', ''t'']"

lemma sample_file_text: "(name, path) \<in> set (ld_paths sample_all) \<Longrightarrow> \<exists>s. read_asset_text sample_config path = Inr s"
proof -
  have "\<exists>s. read_asset_text sample_config [u ''c'', u r] = Inr s" if r: "r \<in> {''a'', ''b'', ''s'', ''t''}" for r
  proof -
    obtain payload where "ce_files sample_config [u ''c'', u r] = Some payload" "decode_sig payload = Some (u r)"
      using sample_read [OF r, of "u ''c''"] by (rule read_utf8_nonemptyD)
    then show ?thesis by (simp add: read_asset_text_def read_file_def)
  qed
  moreover have "\<exists>s. read_asset_text sample_config [u ''c'', name] = Inr s" if "name \<in> set manifests" for name
    using that by (auto simp: manifests_def read_asset_text_def read_file_def decode_sig_def startswith_def)
  ultimately show "(name, path) \<in> set (ld_paths sample_all) \<Longrightarrow> \<exists>s. read_asset_text sample_config path = Inr s"
    by (auto simp: sample_all_def sample_loaded_def start_loading_def)
qed

lemma sample_asset:
  assumes "(name, path) \<in> set (ld_paths sample_all)" and "length revision = 71" and "startswith revision (u ''sha256:'')"
  shows "\<exists>a. make_asset sample_config sample_all revision (name, path) = Inr a"
proof -
  obtain s where "read_asset_text sample_config path = Inr s" using sample_file_text [OF assms(1)] ..
  moreover have names: "name \<in> u ` set sample_file_names"
    using assms(1)
    by (auto simp: sample_all_def sample_loaded_def start_loading_def manifests_def sample_file_names_def)
  moreover have "\<exists>i k. dict_get (ld_ids sample_all) name = Some (i, k) \<and> i \<noteq> [] \<and> k \<noteq> []"
    using names unfolding sample_file_names_def
    by (elim imageE) (auto simp: sample_all_def sample_loaded_def start_loading_def manifests_def sample_ids_def manifest_id_def u_inj)
  moreover have "project_relative (map (\<lambda>c. if c = 92 then 47 else c) name) \<and>
      take 1 (map (\<lambda>c. if c = 92 then 47 else c) name) \<notin> {[47], [92]}" and "name \<noteq> []"
    using names
    by (auto simp: sample_file_names_def u_Cons project_relative_def posix_path_def path_is_absolute_def path_parts_def)
  ultimately show ?thesis
    using assms(2,3) by (auto simp: make_asset_def validated_def config_asset_ok_def)
qed


lemma rmap_all_Inr: "(\<And>x. x \<in> set xs \<Longrightarrow> \<exists>y. f x = Inr y) \<Longrightarrow> \<exists>ys. rmap f xs = Inr ys"
proof (induction xs)
  case (Cons x xs)
  then obtain y ys where "f x = Inr y" "rmap f xs = Inr ys" by (meson list.set_intros)
  then show ?case by simp
qed simp

lemma sample_revision: "\<exists>r. config_revision sample_config sample_all = Inr r \<and> length r = 71 \<and> startswith r (u ''sha256:'')"
proof -
  have "\<exists>f. (\<lambda>(name, path). rbind (read_file sample_config path) (\<lambda>b. Inr (name, b))) np = Inr f"
    if "np \<in> set (sorted_paths sample_all)" for np
  proof -
    obtain name path where np: "np = (name, path)" by (cases np)
    with that obtain s where "read_asset_text sample_config path = Inr s"
      using sample_file_text by (auto simp: sorted_paths_def)
    then show ?thesis unfolding np by (auto simp: read_asset_text_def rbind_Inr_iff)
  qed
  then obtain named where "rmap (\<lambda>(name, path). rbind (read_file sample_config path) (\<lambda>b. Inr (name, b)))
      (sorted_paths sample_all) = Inr named"
    using rmap_all_Inr [of "sorted_paths sample_all"] by blast
  then show ?thesis
    by (auto simp: config_revision_def length_hexdigest startswith_append length_u)
qed

lemma sample_loads:
  "\<exists>s. load_config sample_config True = Inr s \<and> cs_personas s = sample_personas"
proof -
  obtain revision where r: "config_revision sample_config sample_all = Inr revision" "length revision = 71"
    "startswith revision (u ''sha256:'')"
    using sample_revision by blast
  have "\<exists>a. make_asset sample_config sample_all revision np = Inr a" if "np \<in> set (sorted_paths sample_all)" for np
    using sample_asset [OF _ r(2,3)] that by (cases np) (simp add: sorted_paths_def)
  then obtain assets where a: "rmap (make_asset sample_config sample_all revision) (sorted_paths sample_all) = Inr assets"
    using rmap_all_Inr by blast
  have checked: "check_manifests sample_config raw = Inr sample_checked" if "read_manifests sample_config = Inr raw" for raw
    using that by (rule sample_check)
  obtain raw where raw: "read_manifests sample_config = Inr raw" using sample_manifests by blast
  have docs: "dict_get sample_checked (u ''agent.toml'') = Some (sample_doc (sample_agent @ [(''debug_prompt'', PDict debug_defaults)]))"
    "dict_get sample_checked (u ''providers.toml'') = Some (sample_doc sample_providers)"
    "dict_get sample_checked (u ''states.toml'') = Some (sample_doc sample_states)"
    by (simp_all add: sample_checked_def u_inj)
  have root: "py_item (PDict (sample_doc (sample_agent @ d))) ''data_root'' = Inr (txt' ''../d'')"
    "py_get (PDict (sample_doc sample_states)) ''default_state_id'' (PStr []) = Inr (txt' ''d'')" for d
    by (simp_all add: py_item_def py_get_def sample_agent_def sample_states_def u_inj)
  have data: "data_root sample_config (u ''../d'') = Inr (path_text [u ''d''])"
    by (simp add: data_root_def u_inj)
  have personas: "ld_personas sample_all = sample_personas"
    "ld_personas (sample_loaded [''a'', ''b'', ''s''] sample_ids) = sample_personas"
    by (simp_all add: sample_all_def sample_loaded_def)
  show ?thesis
    unfolding load_config_def
    by (simp add: raw checked [OF raw] docs sample_providers_valid sample_personas_loaded personas sample_states_valid
        sample_profiles_valid sample_prompt_loaded r(1) a root data py_text_def create_snapshot_def Let_def del: map_append)
qed

theorem accepted_configuration_witness:
  "\<exists>s. load_config sample_config True = Inr s \<and> length (with_role ''chat'' (cs_personas s)) = 1 \<and>
     (\<forall>a \<in> set (cs_assets s). ca_revision a = cs_revision s)"
proof -
  obtain s where s: "load_config sample_config True = Inr s" using sample_loads by blast
  from accepted_configuration [OF s] obtain named where "length (with_role ''chat'' (cs_personas s)) = 1"
    and named: "list_all2 (\<lambda>f a. asset_of_file sample_config f a \<and> ca_revision a = cs_revision s) named (cs_assets s)"
    by blast
  moreover from named have "\<forall>a \<in> set (cs_assets s). ca_revision a = cs_revision s"
    by (auto simp: list_all2_conv_all_nth in_set_conv_nth)
  ultimately show ?thesis using s by blast
qed

text \<open>
  The identifiers of the personas are not compared across roles: a state persona may be called \<open>chat\<close>, and
  then two personas and two assets share an identifier.
\<close>

theorem state_persona_may_be_chat:
  "\<exists>s. load_config sample_config True = Inr s \<and> \<not> distinct (map pf_persona_id (cs_personas s))"
  using sample_loads by (auto simp: sample_personas_def sample_persona_def)

end
