(* ===== verification/Application.thy ===== *)
theory Application
  imports Config_Load Estimation Provider Turns Memory_Source Atomic_Files Runtime_Models Reset
begin

text \<open>
  \<open>application.py\<close>, \<open>providers/registry.py\<close> and the estimator registry: the parts of the agent are built from
  one configuration snapshot, at the start of the process and again whenever the files have changed; the new
  parts replace the old ones in one step. The SDK client, the time zone data and the objects of the interface
  are arguments.
\<close>

subsection \<open>Settings\<close>

fun look :: "pyval \<Rightarrow> string list \<Rightarrow> pyval result" where
  "look v [] = Inr v"
| "look v (k # ks) = rbind (py_item v k) (\<lambda>x. look x ks)"

definition setting :: "config_snapshot \<Rightarrow> string \<Rightarrow> string list \<Rightarrow> pyval result" where
  "setting s name path = (case dict_get (cs_settings s) (u name) of None \<Rightarrow> Inl KeyExn | Some v \<Rightarrow> look v path)"

definition int_setting :: "py_tables \<Rightarrow> config_snapshot \<Rightarrow> string \<Rightarrow> string list \<Rightarrow> int result" where
  "int_setting t s name path = rbind (setting s name path) (py_int t)"

abbreviation StopIterationExn :: exn where
  "StopIterationExn \<equiv> OtherExn ''StopIteration''"

text \<open>\<open>next(item for item in items if ...)\<close>\<close>

fun next_item :: "(pyval \<Rightarrow> bool result) \<Rightarrow> pyval list \<Rightarrow> pyval result" where
  "next_item f [] = Inl StopIterationExn"
| "next_item f (x # xs) = rbind (f x) (\<lambda>b. if b then Inr x else next_item f xs)"

definition find_asset :: "pystr \<Rightarrow> config_snapshot \<Rightarrow> config_asset option" where
  "find_asset i s = dict_get (dict_of (map (\<lambda>a. (ca_asset_id a, a)) (cs_assets s))) i"

record ('w, 'p) app_env =
  ax_tables :: py_tables
  ax_zone :: "pystr \<Rightarrow> (int \<Rightarrow> int) result"
  ax_environ :: "pystr \<Rightarrow> pystr option"
  ax_memory :: "(pystr \<times> pyval) list \<Rightarrow> store_config \<Rightarrow> memory_env"
  ax_query :: "memory_env \<Rightarrow> int \<Rightarrow> ('w, 'p) tool_impl"

subsection \<open>The parts\<close>

definition minutes :: "int \<Rightarrow> int" where
  "minutes n = n * 60000000"

definition temporal_policy_from :: "('w, 'p) app_env \<Rightarrow> config_snapshot \<Rightarrow> temporal_policy result" where
  "temporal_policy_from ax s =
     (let name = ''history_timestamps.toml''; t = ax_tables ax in
      rbind (setting s name []) (\<lambda>settings.
      rbind (case List.find (\<lambda>a. ca_asset_id a = u ''config:history_timestamps'') (cs_assets s) of
               None \<Rightarrow> Inl StopIterationExn | Some a \<Rightarrow> Inr a) (\<lambda>asset.
      rbind (validated source_ref_ok
          \<lparr>sf_source_kind = SrcConfigFile, sf_source_id = ca_asset_id asset,
           sf_path = Some (u ''config/'' @ ca_path asset), sf_content_sha256 = Some (ca_content_sha256 asset),
           sf_revision = Some (cs_revision s), sf_entity_ids = [], sf_producer = u ''config_loader''\<rparr>) (\<lambda>source.
      rbind (py_item settings ''display_timezone'') (\<lambda>zone.
      rbind (ax_zone ax (py_text t zone)) (\<lambda>offset.
      rbind (int_setting t s name [''long_gap_minutes'']) (\<lambda>gap.
      rbind (int_setting t s name [''continuous_segment_refresh_minutes'']) (\<lambda>refresh.
      rbind (py_item settings ''split_on_local_date_change'') (\<lambda>split.
      validated temporal_policy_ok
        \<lparr>tp_zone = offset, tp_zone_key = py_text t zone, tp_zone_name = py_text t zone,
         tp_long_gap = minutes gap, tp_refresh = minutes refresh, tp_split_on_date = py_truth t split,
         tp_source = source\<rparr>)))))))))"

text \<open>\<open>{str(item["id"]): tuple(item["ordered_persona_ids"]) ... if item.get("enabled", False)}\<close>\<close>

definition enabled_state :: "py_tables \<Rightarrow> pyval \<Rightarrow> (pystr \<times> pyval list) list result" where
  "enabled_state t item =
     rbind (py_get item ''enabled'' (PBool False)) (\<lambda>e.
       if py_truth t e
       then rbind (py_item item ''id'') (\<lambda>i.
            rbind (rbind (py_item item ''ordered_persona_ids'') py_iter) (\<lambda>ids. Inr [(py_text t i, ids)]))
       else Inr [])"

definition enabled_states :: "py_tables \<Rightarrow> config_snapshot \<Rightarrow> (pystr \<times> pyval list) list result" where
  "enabled_states t s =
     rbind (rbind (setting s ''states.toml'' [''states'']) py_iter) (\<lambda>items.
     rbind (rmap (enabled_state t) items) (\<lambda>found. Inr (dict_of (concat found))))"

text \<open>\<open>AgentStateDefinition\<close> refuses an identifier that is not a string.\<close>

definition state_names :: "pystr \<times> pyval list \<Rightarrow> (pystr \<times> pystr list) result" where
  "state_names = (\<lambda>(i, ids). case text_items ids of None \<Rightarrow> Inl ValidationExn | Some names \<Rightarrow> Inr (i, names))"

definition build_resolver :: "py_tables \<Rightarrow> config_snapshot \<Rightarrow> (state_resolver \<times> pystr list) result" where
  "build_resolver t s =
     rbind (enabled_states t s) (\<lambda>states.
     if dict_get states (cs_default_state_id s) = None then Inl (BaiError ''STATE_REFERENCE_MISSING'')
     else rbind (rmap state_names states) (\<lambda>named.
          rbind (make_resolver (cs_default_state_id s) named) (\<lambda>r.
          case dict_get named (cs_default_state_id s) of None \<Rightarrow> Inl KeyExn | Some ids \<Rightarrow> Inr (r, ids))))"

definition state_asset_values :: "pystr list \<Rightarrow> config_snapshot \<Rightarrow> config_asset list" where
  "state_asset_values ids s = concat (map (\<lambda>i. case find_asset (u ''persona:'' @ i) s of None \<Rightarrow> [] | Some a \<Rightarrow> [a]) ids)"

definition build_renderer :: "config_snapshot \<Rightarrow> boundary_renderer result" where
  "build_renderer s =
     (case find_asset (u ''prompt:untrusted_memory_boundary'') s of None \<Rightarrow> Inl KeyExn | Some a \<Rightarrow> make_boundary_renderer a)"

record prompting =
  pg_resolver :: state_resolver
  pg_personas :: persona_prompt_set
  pg_policy :: temporal_policy
  pg_renderer :: boundary_renderer
  pg_assembler :: prompt_assembler

definition build_prompting :: "('w, 'p) app_env \<Rightarrow> config_snapshot \<Rightarrow> prompting result" where
  "build_prompting ax s =
     rbind (build_resolver (ax_tables ax) s) (\<lambda>(resolver, ids).
     rbind (personas_from_snapshot (cs_personas s) (cs_prompts s)) (\<lambda>personas.
     rbind (temporal_policy_from ax s) (\<lambda>policy.
     rbind (build_renderer s) (\<lambda>renderer.
     rbind (state_prompts personas ids) (\<lambda>texts.
     rbind (mvp_assembler (pr_chat personas) texts (find_asset (u ''persona:chat'') s) (state_asset_values ids s)
              (Some policy) (Some renderer)) (\<lambda>assembler.
       Inr \<lparr>pg_resolver = resolver, pg_personas = personas, pg_policy = policy, pg_renderer = renderer,
            pg_assembler = assembler\<rparr>))))))"

text \<open>
  The start builds the same parts; it only asks for the prompts of the default state before the policy.
\<close>

definition build_prompting_first :: "('w, 'p) app_env \<Rightarrow> config_snapshot \<Rightarrow> prompting result" where
  "build_prompting_first ax s =
     rbind (build_resolver (ax_tables ax) s) (\<lambda>(resolver, ids).
     rbind (personas_from_snapshot (cs_personas s) (cs_prompts s)) (\<lambda>personas.
     rbind (state_prompts personas ids) (\<lambda>texts.
     rbind (temporal_policy_from ax s) (\<lambda>policy.
     rbind (build_renderer s) (\<lambda>renderer.
     rbind (mvp_assembler (pr_chat personas) texts (find_asset (u ''persona:chat'') s) (state_asset_values ids s)
              (Some policy) (Some renderer)) (\<lambda>assembler.
       Inr \<lparr>pg_resolver = resolver, pg_personas = personas, pg_policy = policy, pg_renderer = renderer,
            pg_assembler = assembler\<rparr>))))))"

subsection \<open>Providers and gateways\<close>

record adapter_config =
  ad_api_key :: pystr
  ad_base_url :: pystr
  ad_profile :: "(pystr \<times> pyval) list"
  ad_retryable :: "int list"

definition check_statuses :: "pyval \<Rightarrow> int list result" where
  "check_statuses v =
     (case (case v of PList xs \<Rightarrow> Some xs | PTuple xs \<Rightarrow> Some xs | _ \<Rightarrow> None) of
        None \<Rightarrow> Inl (BaiError ''PROVIDER_CAPABILITY_INVALID'')
      | Some xs \<Rightarrow>
          (case those (map plain_int xs) of
             None \<Rightarrow> Inl (BaiError ''PROVIDER_CAPABILITY_INVALID'')
           | Some ns \<Rightarrow> if list_all (\<lambda>n. 100 \<le> n \<and> n \<le> 599) ns then Inr (remdups ns)
                        else Inl (BaiError ''PROVIDER_CAPABILITY_INVALID'')))"

definition create_provider :: "('w, 'p) app_env \<Rightarrow> pyval \<Rightarrow> pyval \<Rightarrow> adapter_config result" where
  "create_provider ax provider profile =
     (let t = ax_tables ax in
      rbind (py_get provider ''adapter'' PNone) (\<lambda>adapter.
      if adapter \<noteq> PStr (u ''deepseek_openai_compatible'') then Inl (BaiError ''PROVIDER_ADAPTER_UNKNOWN'')
      else rbind (py_get profile ''stream'' (PBool False)) (\<lambda>stream.
      if py_truth t stream then Inl (BaiError ''PROVIDER_CAPABILITY_INVALID'')
      else rbind (py_item provider ''api_key_env'') (\<lambda>variable.
      rbind (read_secret (ax_environ ax (py_text t variable))) (\<lambda>secret.
      rbind (py_item provider ''base_url'') (\<lambda>url.
      rbind (case py_dict profile of None \<Rightarrow> Inl TypeExn | Some d \<Rightarrow> Inr d) (\<lambda>merged.
      rbind (py_item provider ''id'') (\<lambda>i.
      rbind (rbind (py_get provider ''retry'' (PDict [])) (\<lambda>r.
               py_get r ''retryable_statuses'' (PTuple [PInt 429, PInt 500, PInt 503]))) (\<lambda>v.
      rbind (py_iter v) (\<lambda>statuses.
      rbind (check_statuses (PTuple statuses)) (\<lambda>retryable.
        Inr \<lparr>ad_api_key = secret, ad_base_url = py_text t url,
             ad_profile = dict_set (u ''retryable_statuses'') (PTuple statuses)
               (dict_set (u ''provider_id'') (PStr (py_text t i)) merged),
             ad_retryable = retryable\<rparr>)))))))))))"

definition create_estimator :: "py_tables \<Rightarrow> pyval \<Rightarrow> pyval \<Rightarrow> pyval \<Rightarrow> estimator result" where
  "create_estimator t provider profile policy =
     rbind (py_item provider ''token_estimator'') (\<lambda>kind.
     rbind (rbind (py_get profile ''context_window_tokens'' PNone) (\<lambda>v.
              if v = PNone then Inr None
              else rbind (py_item profile ''context_window_tokens'') (\<lambda>w. rbind (py_int t w) (\<lambda>n. Inr (Some n))))) (\<lambda>capacity.
     rbind (rbind (py_item policy ''estimate_safety_margin_percent'') (py_int t)) (\<lambda>margin.
     rbind (rbind (py_item policy ''high_context_percent'') (py_int t)) (\<lambda>high.
     rbind (rbind (py_item policy ''critical_context_percent'') (py_int t)) (\<lambda>critical.
       if py_text t kind \<noteq> u ''deepseek_character_v1'' then Inl (BaiError ''PROVIDER_CAPABILITY_INVALID'')
       else Inr \<lparr>es_capacity = capacity, es_margin = margin, es_high = high, es_critical = critical\<rparr>)))))"


text \<open>A presenter and an adapter are made from the configuration or given by the caller.\<close>

datatype app_presenter = NoPresenter | TextPresenter pystr | GivenPresenter

datatype app_adapter = SdkAdapter adapter_config | GivenAdapter

record gateway_config =
  gc_adapter :: app_adapter
  gc_debug :: bool
  gc_presenter :: app_presenter
  gc_max_attempts :: nat
  gc_estimator :: "estimator option"

record provider_parts =
  pp_config :: pyval
  pp_adapter :: app_adapter
  pp_estimator :: "estimator option"

definition retry_attempts :: "py_tables \<Rightarrow> pyval \<Rightarrow> int result" where
  "retry_attempts t config =
     rbind (py_get config ''retry'' (PDict [])) (\<lambda>r. rbind (py_get r ''max_attempts'' (PInt 1)) (py_int t))"

definition managed_parts :: "('w, 'p) app_env \<Rightarrow> config_snapshot \<Rightarrow> string \<Rightarrow> provider_parts result" where
  "managed_parts ax s profile_id =
     (let t = ax_tables ax in
      rbind (setting s ''providers.toml'' [''model_profiles'', profile_id]) (\<lambda>profile.
      rbind (rbind (setting s ''providers.toml'' [''providers'']) py_iter) (\<lambda>providers.
      rbind (next_item (\<lambda>item. rbind (py_item item ''id'') (\<lambda>i. rbind (py_item profile ''provider'') (\<lambda>w.
               Inr (py_eq t i w)))) providers) (\<lambda>config.
      rbind (create_provider ax config profile) (\<lambda>adapter.
      rbind (setting s ''agent.toml'' [''debug_prompt'']) (\<lambda>policy.
      rbind (create_estimator t config profile policy) (\<lambda>estimator.
        Inr \<lparr>pp_config = config, pp_adapter = SdkAdapter adapter, pp_estimator = Some estimator\<rparr>)))))))"

definition given_parts :: provider_parts where
  "given_parts =
     \<lparr>pp_config = PDict [(u ''retry'', PDict [(u ''max_attempts'', PInt 1)])], pp_adapter = GivenAdapter, pp_estimator = None\<rparr>"

definition color_policy :: "py_tables \<Rightarrow> config_snapshot \<Rightarrow> pystr result" where
  "color_policy t s = rbind (setting s ''agent.toml'' [''debug_prompt'', ''color'']) (\<lambda>c. Inr (py_text t c))"

definition make_gateway :: "py_tables \<Rightarrow> bool \<Rightarrow> app_presenter \<Rightarrow> provider_parts \<Rightarrow> gateway_config result" where
  "make_gateway t debug presenter p =
     rbind (retry_attempts t (pp_config p)) (\<lambda>n.
     if debug \<and> presenter = NoPresenter then Inl DebugPresentationError
     else Inr \<lparr>gc_adapter = pp_adapter p, gc_debug = debug, gc_presenter = presenter,
               gc_max_attempts = gateway_attempts n, gc_estimator = pp_estimator p\<rparr>)"

definition reload_gateway :: "('w, 'p) app_env \<Rightarrow> bool \<Rightarrow> config_snapshot \<Rightarrow> string \<Rightarrow> gateway_config result" where
  "reload_gateway ax debug s profile_id =
     rbind (managed_parts ax s profile_id) (\<lambda>p.
     rbind (if debug then rbind (color_policy (ax_tables ax) s) (\<lambda>c. Inr (TextPresenter c)) else Inr NoPresenter) (\<lambda>presenter.
       make_gateway (ax_tables ax) debug presenter p))"

subsection \<open>The controller\<close>

record ('w, 'p) app_controller =
  ct_chat :: gateway_config
  ct_curator :: gateway_config
  ct_resolver :: state_resolver
  ct_assembler :: prompt_assembler
  ct_curation :: curation_service
  ct_tools :: "('w, 'p) registry"
  ct_deadline :: pystr
  ct_max_result_bytes :: int
  ct_max_tool_rounds :: int
  ct_budgets :: "(pystr \<times> int) list"
  ct_tool_definitions :: "tool_definition list"
  ct_policy :: temporal_policy

definition curation_service_from :: "py_tables \<Rightarrow> memory_env \<Rightarrow> config_snapshot \<Rightarrow> prompting \<Rightarrow> curation_service result" where
  "curation_service_from t env s pg =
     (let short = (\<lambda>k. int_setting t s ''agent.toml'' [''short_term'', k]) in
      rbind (short ''max_records'') (\<lambda>max_records.
      rbind (short ''reserved_records'') (\<lambda>reserved.
      rbind (short ''curation_batch_min_records'') (\<lambda>min_batch.
      rbind (short ''curation_batch_max_records'') (\<lambda>max_batch.
      case dict_get (cs_prompts s) (u ''memory_curation'') of
        None \<Rightarrow> Inl KeyExn
      | Some template \<Rightarrow>
          Inr \<lparr>cv_env = env,
               cv_policy = \<lparr>cu_max_records = max_records, cu_reserved_records = reserved,
                 cu_min_batch_records = min_batch, cu_max_batch_records = max_batch\<rparr>,
               cv_is_gateway = True, cv_curator_persona = pr_memory_curator (pg_personas pg),
               cv_prompt_template = template, cv_config_revision = cs_revision s,
               cv_temporal_policy = Some (pg_policy pg), cv_renderer = Some (pg_renderer pg),
               cv_curator_asset = find_asset (u ''persona:memory_curator'') s,
               cv_prompt_asset = find_asset (u ''prompt:memory_curation'') s, cv_max_attempts = 1\<rparr>)))))"

definition tool_personas :: "pyval list \<Rightarrow> pystr list" where
  "tool_personas vs = concat (map (\<lambda>v. case v of PStr s \<Rightarrow> [s] | _ \<Rightarrow> []) vs)"

text \<open>The one tool, registered as \<open>tools.toml\<close> says; a persona that is not a string never matches.\<close>

definition build_tools ::
  "('w, 'p) app_env \<Rightarrow> memory_env \<Rightarrow> config_snapshot \<Rightarrow> (('w, 'p) registry \<times> pystr \<times> int) result"
where
  "build_tools ax env s =
     (let t = ax_tables ax in
      rbind (rbind (setting s ''tools.toml'' [''tools'']) py_iter) (\<lambda>items.
      rbind (next_item (\<lambda>item. rbind (py_item item ''id'') (\<lambda>i. Inr (i = PStr (u ''memory_source_query'')))) items) (\<lambda>config.
      rbind (rbind (py_item config ''page_size'') (py_int t)) (\<lambda>page_size.
      rbind (py_item config ''enabled'') (\<lambda>enabled.
      rbind (rbind (py_item config ''allowed_personas'') py_iter) (\<lambda>personas.
      rbind (py_item config ''read_only'') (\<lambda>read_only.
      rbind (case find_asset (u ''config:tools'') s of None \<Rightarrow> Inl KeyExn | Some a \<Rightarrow> Inr a) (\<lambda>asset.
      rbind (validated source_ref_ok
          \<lparr>sf_source_kind = SrcConfigFile, sf_source_id = u ''config:tools'', sf_path = Some (u ''config/tools.toml''),
           sf_content_sha256 = Some (ca_content_sha256 asset), sf_revision = Some (cs_revision s),
           sf_entity_ids = [td_tool_id query_definition], sf_producer = u ''config_loader''\<rparr>) (\<lambda>source.
      rbind (register_tool [] query_definition (ax_query ax env page_size) (py_truth t enabled) (tool_personas personas)
               (py_truth t read_only) None [source]) (\<lambda>registry.
      rbind (rbind (setting s ''agent.toml'' [''runtime'', ''tool_deadline_seconds'']) (py_float_of t)) (\<lambda>deadline.
      rbind (rbind (py_item config ''max_result_bytes'') (py_int t)) (\<lambda>max_bytes.
        Inr (registry, deadline, max_bytes)))))))))))))"

definition memory_budgets :: "py_tables \<Rightarrow> config_snapshot \<Rightarrow> (pystr \<times> int) list result" where
  "memory_budgets t s =
     rbind (int_setting t s ''agent.toml'' [''memory_overview'', ''max_chars'']) (\<lambda>overview.
     rbind (int_setting t s ''agent.toml'' [''context_budget'', ''long_term_tokens'']) (\<lambda>long.
     rbind (int_setting t s ''agent.toml'' [''context_budget'', ''short_term_tokens'']) (\<lambda>short.
       Inr [(u ''overview_chars'', overview), (u ''long_term_chars'', long * 4), (u ''recent_chars'', short * 4)])))"

definition make_controller ::
  "gateway_config \<Rightarrow> gateway_config \<Rightarrow> prompting \<Rightarrow> curation_service \<Rightarrow> ('w, 'p) registry \<Rightarrow> pystr \<Rightarrow> int \<Rightarrow> int \<Rightarrow>
   (pystr \<times> int) list \<Rightarrow> ('w, 'p) app_controller"
where
  "make_controller chat curator pg curation tools deadline max_bytes rounds budgets =
     \<lparr>ct_chat = chat, ct_curator = curator, ct_resolver = pg_resolver pg, ct_assembler = pg_assembler pg,
      ct_curation = curation, ct_tools = tools, ct_deadline = deadline, ct_max_result_bytes = max_bytes,
      ct_max_tool_rounds = rounds, ct_budgets = budgets, ct_tool_definitions = definitions_for tools (u ''chat''),
      ct_policy = pg_policy pg\<rparr>"

definition rebuild ::
  "('w, 'p) app_env \<Rightarrow> memory_env \<Rightarrow> bool \<Rightarrow> bool \<Rightarrow> gateway_config \<Rightarrow> gateway_config \<Rightarrow> config_snapshot \<Rightarrow> ('w, 'p) app_controller result"
where
  "rebuild ax env managed debug chat0 curator0 s =
     (let t = ax_tables ax in
      rbind (build_prompting ax s) (\<lambda>pg.
      rbind (if managed then reload_gateway ax debug s ''chat'' else Inr chat0) (\<lambda>chat.
      rbind (if managed then reload_gateway ax debug s ''memory_curator'' else Inr curator0) (\<lambda>curator.
      rbind (curation_service_from t env s pg) (\<lambda>curation.
      rbind (build_tools ax env s) (\<lambda>(tools, deadline, max_bytes).
      rbind (memory_budgets t s) (\<lambda>budgets.
      rbind (int_setting t s ''agent.toml'' [''runtime'', ''max_tool_rounds'']) (\<lambda>rounds.
        Inr (make_controller chat curator pg curation tools deadline max_bytes rounds budgets)))))))))"

subsection \<open>The application\<close>

record ('w, 'p) application =
  ap_snapshot :: config_snapshot
  ap_controller :: "('w, 'p) app_controller"
  ap_env :: memory_env
  ap_managed :: bool
  ap_debug :: bool
  ap_reload_required :: bool

definition reload_config ::
  "('w, 'p) app_env \<Rightarrow> config_snapshot result \<Rightarrow> (('w, 'p) application, unit) op"
where
  "reload_config ax loaded app =
     (case loaded of
        Inl e \<Rightarrow> (Inl e, app\<lparr>ap_reload_required := True\<rparr>)
      | Inr fresh \<Rightarrow>
          if cs_revision fresh = cs_revision (ap_snapshot app) \<and> \<not> ap_reload_required app then (Inr (), app)
          else
            (let app' = app\<lparr>ap_reload_required := True\<rparr>;
                 c = ap_controller app
             in case rebuild ax (ap_env app) (ap_managed app) (ap_debug app) (ct_chat c) (ct_curator c) fresh of
                  Inl e \<Rightarrow> (Inl e, app')
                | Inr new \<Rightarrow> (Inr (), app'\<lparr>ap_controller := new, ap_snapshot := fresh, ap_reload_required := False\<rparr>)))"

text \<open>\<open>message\<close> is \<open>safe_message\<close>.\<close>

definition reload_config_with_status ::
  "('w, 'p) app_env \<Rightarrow> (nat \<Rightarrow> bool) \<Rightarrow> (exn \<Rightarrow> pystr) \<Rightarrow> config_snapshot result \<Rightarrow> (('w, 'p) application, reload_status) op"
where
  "reload_config_with_status ax word message loaded app =
     (case reload_config ax loaded app of
        (Inr (), app') \<Rightarrow> (Inr \<lparr>rl_revision = cs_revision (ap_snapshot app'), rl_ok = True, rl_error = None\<rparr>, app')
      | (Inl e, app') \<Rightarrow>
          if is_bai e
          then (Inr \<lparr>rl_revision = cs_revision (ap_snapshot app), rl_ok = False,
                     rl_error = Some (describe_config_error word (message e))\<rparr>, app')
          else (Inl e, app'))"


subsection \<open>Start\<close>

definition archive_keys :: "pystr set" where
  "archive_keys =
     {u ''segment_max_records'', u ''segment_max_bytes'', u ''max_record_bytes'', u ''credential_guard'', u ''failure_hook''}"

text \<open>\<open>RawRecordArchive(memory_root, **archive_settings)\<close>: a key that is no parameter is a \<open>TypeError\<close>.\<close>

definition archive_arguments :: "config_snapshot \<Rightarrow> (pystr \<times> pyval) list result" where
  "archive_arguments s =
     rbind (setting s ''agent.toml'' [''archive'']) (\<lambda>v.
       case py_dict v of
         None \<Rightarrow> Inl TypeExn
       | Some d \<Rightarrow> if fst ` set d \<subseteq> archive_keys then Inr d else Inl TypeExn)"

definition build_store :: "('w, 'p) app_env \<Rightarrow> config_snapshot \<Rightarrow> (pystr \<times> pyval) list \<Rightarrow> memory_env result" where
  "build_store ax s archive =
     (let t = ax_tables ax in
      rbind (int_setting t s ''agent.toml'' [''manual_memory'', ''max_document_bytes'']) (\<lambda>bytes.
      rbind (int_setting t s ''agent.toml'' [''manual_memory'', ''max_items'']) (\<lambda>items.
      rbind (int_setting t s ''agent.toml'' [''memory_overview'', ''max_chars'']) (\<lambda>chars.
        Inr (ax_memory ax archive
          \<lparr>sc_max_document_bytes = nat bytes, sc_max_items = nat items, sc_max_overview_chars = nat chars\<rparr>)))))"

text \<open>The stores come up, and a turn left over by a dead process is settled before anything else.\<close>

definition open_memory ::
  "('w, 'p) app_env \<Rightarrow> config_snapshot \<Rightarrow> int \<Rightarrow> permission_result list \<Rightarrow> permission_result list \<Rightarrow> (world, memory_env) op"
where
  "open_memory ax s now archive_perms store_perms =
     sbind (slift (archive_arguments s)) (\<lambda>archive.
     sbind (slift (require_private archive_perms)) (\<lambda>_.
     sbind (slift (build_store ax s archive)) (\<lambda>env.
     sbind (ls_initialize env now) (\<lambda>_.
     sbind (slift (require_private store_perms)) (\<lambda>_.
     sbind (tx_recover env now) (\<lambda>_. sret env))))))"

definition first_parts ::
  "('w, 'p) app_env \<Rightarrow> bool \<Rightarrow> config_snapshot \<Rightarrow> (provider_parts \<times> provider_parts) result"
where
  "first_parts ax managed s =
     (if managed
      then rbind (managed_parts ax s ''chat'') (\<lambda>chat.
           rbind (managed_parts ax s ''memory_curator'') (\<lambda>curator. Inr (chat, curator)))
      else Inr (given_parts, given_parts))"

definition first_presenter :: "bool \<Rightarrow> app_presenter \<Rightarrow> pystr \<Rightarrow> app_presenter" where
  "first_presenter debug presenter color =
     (if presenter \<noteq> NoPresenter then presenter else if debug then TextPresenter color else NoPresenter)"

definition build_controller ::
  "('w, 'p) app_env \<Rightarrow> memory_env \<Rightarrow> bool \<Rightarrow> bool \<Rightarrow> app_presenter \<Rightarrow> config_snapshot \<Rightarrow> ('w, 'p) app_controller result"
where
  "build_controller ax env managed debug presenter s =
     (let t = ax_tables ax in
      rbind (build_prompting_first ax s) (\<lambda>pg.
      rbind (first_parts ax managed s) (\<lambda>(chat_parts, curator_parts).
      rbind (color_policy t s) (\<lambda>color.
      rbind (make_gateway t debug (first_presenter debug presenter color) chat_parts) (\<lambda>chat.
      rbind (make_gateway t debug (first_presenter debug presenter color) curator_parts) (\<lambda>curator.
      rbind (curation_service_from t env s pg) (\<lambda>curation.
      rbind (build_tools ax env s) (\<lambda>(tools, deadline, max_bytes).
      rbind (int_setting t s ''agent.toml'' [''runtime'', ''max_tool_rounds'']) (\<lambda>rounds.
      rbind (memory_budgets t s) (\<lambda>budgets.
        Inr (make_controller chat curator pg curation tools deadline max_bytes rounds budgets)))))))))))"

definition on_lease :: "(writer_lease, 'a) op \<Rightarrow> (writer_lease \<times> world, 'a) op" where
  "on_lease m = (\<lambda>(l, w). case m l of (r, l') \<Rightarrow> (r, (l', w)))"

definition on_store :: "(world, 'a) op \<Rightarrow> (writer_lease \<times> world, 'a) op" where
  "on_store m = (\<lambda>(l, w). case m w of (r, w') \<Rightarrow> (r, (l, w')))"

text \<open>\<open>except Exception: lease.release(); raise\<close>\<close>

definition releasing :: "(writer_lease \<times> world, 'a) op \<Rightarrow> (writer_lease \<times> world, 'a) op" where
  "releasing m st =
     (case m st of
        (Inl e, st') \<Rightarrow> if is_exception e then (Inl e, snd (on_lease lease_release st')) else (Inl e, st')
      | (Inr x, st') \<Rightarrow> (Inr x, st'))"

definition build_application ::
  "('w, 'p) app_env \<Rightarrow> config_snapshot result \<Rightarrow> bool \<Rightarrow> int \<Rightarrow> permission_result list \<Rightarrow> permission_result list \<Rightarrow>
   bool \<Rightarrow> bool \<Rightarrow> app_presenter \<Rightarrow> (writer_lease \<times> world, ('w, 'p) application) op"
where
  "build_application ax loaded granted now archive_perms store_perms managed debug presenter =
     sbind (slift loaded) (\<lambda>s.
     sbind (slift (rbind (setting s ''agent.toml'' [''runtime'', ''writer_lock_timeout_seconds'']) (py_float_of (ax_tables ax)))) (\<lambda>_.
     sbind (on_lease (lease_acquire granted)) (\<lambda>_.
     releasing
       (sbind (on_store (open_memory ax s now archive_perms store_perms)) (\<lambda>env.
        sbind (slift (build_controller ax env managed debug presenter s)) (\<lambda>c.
        sret \<lparr>ap_snapshot = s, ap_controller = c, ap_env = env, ap_managed = managed, ap_debug = debug,
              ap_reload_required = False\<rparr>))))))"

definition app_close :: "(writer_lease \<times> world, unit) op" where
  "app_close = on_lease lease_release"

subsection \<open>Turns\<close>

definition dump_tool_definition :: "tool_definition \<Rightarrow> jdict" where
  "dump_tool_definition d =
     [(u ''tool_id'', JStr (td_tool_id d)), (u ''name'', JStr (td_name d)), (u ''description'', JStr (td_description d)),
      (u ''input_schema'', JObj (td_input_schema d)), (u ''output_schema'', JObj (td_output_schema d)),
      (u ''safety'', JObj (td_safety d))]"

text \<open>The controller of \<open>runtime/controller.py\<close>; how the gateways and the tools are called is an argument.\<close>

record ('w, 'p) turn_wiring =
  wr_ports :: "('w, 'p) app_controller \<Rightarrow> 'p turn_ports"
  wr_str_item :: "memory_item \<Rightarrow> pystr"
  wr_tables :: text_tables

definition turn_controller :: "('w, 'p) turn_wiring \<Rightarrow> ('w, 'p) application \<Rightarrow> 'p controller" where
  "turn_controller wr app =
     (let c = ap_controller app in
      \<lparr>cn_env = ap_env app, cn_ports = wr_ports wr c, cn_resolver = ct_resolver c, cn_assembler = ct_assembler c,
       cn_str_item = wr_str_item wr, cn_tables = wr_tables wr, cn_max_tool_rounds = ct_max_tool_rounds c,
       cn_budgets = ct_budgets c, cn_tool_definitions = map dump_tool_definition (ct_tool_definitions c),
       cn_transactional = True, cn_policy = controller_policy (Some (ct_policy c)) (ct_assembler c)\<rparr>)"

definition on_app :: "('a, 'x) op \<Rightarrow> ('a \<times> 's, 'x) op" where
  "on_app m = (\<lambda>(a, s). case m a of (r, a') \<Rightarrow> (r, (a', s)))"

definition app_run_turn ::
  "('w, 'p) app_env \<Rightarrow> ('w, 'p) turn_wiring \<Rightarrow> config_snapshot result \<Rightarrow> bool \<Rightarrow> turn_draws \<Rightarrow> pystr \<Rightarrow> pystr option \<Rightarrow> bool \<Rightarrow>
   (('w, 'p) application \<times> world \<times> 'p, pystr) op"
where
  "app_run_turn ax wr loaded reload dw content turn_id resume =
     sbind (if reload then on_app (reload_config ax loaded) else sret ()) (\<lambda>_ (app, s).
       case run_turn (turn_controller wr app) dw content turn_id resume (cs_revision (ap_snapshot app)) s of
         (r, s') \<Rightarrow> (r, (app, s')))"

definition app_discard_pending :: "('w, 'p) application \<Rightarrow> pystr option \<Rightarrow> (world, pystr option) op" where
  "app_discard_pending app = discard_pending (ap_env app)"


subsection \<open>The controller always fits the snapshot\<close>

text \<open>The parts in use are the parts one gets from the published snapshot.\<close>

definition app_serves :: "('w, 'p) app_env \<Rightarrow> ('w, 'p) application \<Rightarrow> bool" where
  "app_serves ax app \<longleftrightarrow>
     rebuild ax (ap_env app) (ap_managed app) (ap_debug app) (ct_chat (ap_controller app)) (ct_curator (ap_controller app))
       (ap_snapshot app) = Inr (ap_controller app)"

lemma rebuild_gateways:
  assumes "rebuild ax env managed debug chat curator s = Inr c"
  shows "rebuild ax env managed debug (ct_chat c) (ct_curator c) s = Inr c"
proof (cases managed)
  case True
  then show ?thesis using assms by (simp add: rebuild_def)
next
  case False
  then have "ct_chat c = chat" and "ct_curator c = curator"
    using assms by (auto simp: rebuild_def rbind_Inr_iff make_controller_def Let_def)
  then show ?thesis using assms by simp
qed

lemma reload_config_outcome:
  assumes "app_serves ax app" and "reload_config ax loaded app = (r, app')"
  shows "app_serves ax app' \<and>
    (case r of
       Inl e \<Rightarrow> ap_snapshot app' = ap_snapshot app \<and> ap_controller app' = ap_controller app \<and> ap_reload_required app'
     | Inr _ \<Rightarrow> \<exists>fresh. loaded = Inr fresh \<and> \<not> ap_reload_required app' \<and>
         (ap_snapshot app' = fresh \<or> app' = app \<and> cs_revision fresh = cs_revision (ap_snapshot app)))"
proof (cases loaded)
  case (Inl e)
  then show ?thesis using assms by (auto simp: reload_config_def app_serves_def)
next
  case (Inr fresh)
  let ?c = "ap_controller app"
  note run = assms(2) [unfolded reload_config_def Inr sum.case]
  show ?thesis
  proof (cases "cs_revision fresh = cs_revision (ap_snapshot app) \<and> \<not> ap_reload_required app")
    case True
    then show ?thesis using run assms(1) Inr by auto
  next
    case False
    note run = run [unfolded if_not_P [OF False] Let_def]
    show ?thesis
    proof (cases "rebuild ax (ap_env app) (ap_managed app) (ap_debug app) (ct_chat ?c) (ct_curator ?c) fresh")
      case (Inl e)
      then show ?thesis using run assms(1) by (auto simp: app_serves_def)
    next
      case new: (Inr c)
      then show ?thesis using run Inr rebuild_gateways [OF new] by (auto simp: app_serves_def)
    qed
  qed
qed



subsection \<open>A start that fails leaves the lock free\<close>

lemma build_prompting_first: "build_prompting_first ax s = Inr pg \<Longrightarrow> build_prompting ax s = Inr pg"
  by (fastforce simp: build_prompting_first_def build_prompting_def rbind_Inr_iff)

lemma first_gateway:
  assumes "managed_parts ax s i = Inr parts" and "color_policy (ax_tables ax) s = Inr color"
    and "make_gateway (ax_tables ax) debug (first_presenter debug NoPresenter color) parts = Inr g"
  shows "reload_gateway ax debug s i = Inr g"
  using assms by (auto simp: reload_gateway_def first_presenter_def)

lemma build_controller_serves:
  assumes "build_controller ax env managed debug presenter s = Inr c" and "managed \<longrightarrow> presenter = NoPresenter"
  shows "rebuild ax env managed debug (ct_chat c) (ct_curator c) s = Inr c"
proof -
  let ?t = "ax_tables ax"
  obtain pg chat_parts curator_parts color chat curator curation tools deadline max_bytes rounds budgets where b:
    "build_prompting_first ax s = Inr pg" "first_parts ax managed s = Inr (chat_parts, curator_parts)"
    "color_policy ?t s = Inr color"
    "make_gateway ?t debug (first_presenter debug presenter color) chat_parts = Inr chat"
    "make_gateway ?t debug (first_presenter debug presenter color) curator_parts = Inr curator"
    "curation_service_from ?t env s pg = Inr curation" "build_tools ax env s = Inr (tools, deadline, max_bytes)"
    "int_setting ?t s ''agent.toml'' [''runtime'', ''max_tool_rounds''] = Inr rounds" "memory_budgets ?t s = Inr budgets"
    "c = make_controller chat curator pg curation tools deadline max_bytes rounds budgets"
    using assms(1) by (auto simp: build_controller_def rbind_Inr_iff Let_def)
  have "reload_gateway ax debug s ''chat'' = Inr chat \<and> reload_gateway ax debug s ''memory_curator'' = Inr curator" if managed
  proof -
    have "managed_parts ax s ''chat'' = Inr chat_parts" "managed_parts ax s ''memory_curator'' = Inr curator_parts"
      using b(2) that by (auto simp: first_parts_def rbind_Inr_iff)
    then show ?thesis using first_gateway b(3-5) assms(2) that by auto
  qed
  moreover have "ct_chat c = chat" "ct_curator c = curator" by (simp_all add: b(10) make_controller_def)
  ultimately show ?thesis using b build_prompting_first [OF b(1)] by (simp add: rebuild_def Let_def)
qed

lemma tx_load_None: "tx_load env False w = Inr None \<Longrightarrow> w_journal w = None"
  by (auto simp: tx_load_def split: option.splits if_splits)

lemma tx_commit_unlinks: "tx_commit env now w = (Inr x, w') \<Longrightarrow> w_journal w' = None"
  by (auto simp: tx_commit_def tx_unlink_def durable_def sbind_def tx_load_None
      split: prod.splits sum.splits option.splits if_splits)

lemma tx_recover_no_journal:
  assumes "tx_recover env now w = (Inr x, w')"
  shows "w_journal w' = None"
proof (cases "tx_load env False w")
  case (Inr journal)
  show ?thesis
  proof (cases journal)
    case None
    then have "w_journal w = None" using Inr tx_load_None by simp
    then show ?thesis using assms by (simp add: tx_recover_def Inr None sret_def)
  next
    case (Some j)
    then show ?thesis
      using assms tx_commit_unlinks [of env now w x w']
      by (auto simp: tx_recover_def Inr tx_unlink_def durable_def split: if_splits)
  qed
qed (use assms in \<open>simp add: tx_recover_def\<close>)


lemma start_outcome:
  assumes "build_application ax loaded granted now archive_perms store_perms managed debug presenter (l, w) = (r, (l', w'))"
    and "\<not> wl_held l"
  shows "case r of
      Inr app \<Rightarrow> wl_held l' \<and> w_journal w' = None \<and> loaded = Inr (ap_snapshot app) \<and>
        ((managed \<longrightarrow> presenter = NoPresenter) \<longrightarrow> app_serves ax app)
    | Inl e \<Rightarrow> (is_exception e \<longrightarrow> \<not> wl_held l') \<and> (\<not> granted \<or> \<not> is_ok loaded \<longrightarrow> w' = w \<and> l' = l)"
proof (cases "is_ok loaded \<and> granted")
  case False
  then show ?thesis
    using assms
    by (auto simp: build_application_def sbind_def slift_def on_lease_def lease_acquire_def split: sum.splits prod.splits)
next
  case True
  then obtain s where s: "loaded = Inr s" by (cases loaded) auto
  let ?body = "sbind (on_store (open_memory ax s now archive_perms store_perms)) (\<lambda>env.
    sbind (slift (build_controller ax env managed debug presenter s)) (\<lambda>c.
    sret \<lparr>ap_snapshot = s, ap_controller = c, ap_env = env, ap_managed = managed, ap_debug = debug,
          ap_reload_required = False\<rparr>))"
  let ?l = "l\<lparr>wl_acquired := True, wl_held := True\<rparr>"
  let ?timeout = "rbind (setting s ''agent.toml'' [''runtime'', ''writer_lock_timeout_seconds'']) (py_float_of (ax_tables ax))"
  show ?thesis
  proof (cases ?timeout)
    case (Inl e)
    then show ?thesis using assms True by (auto simp: build_application_def s)
  next
    case (Inr t)
    obtain q l1 w1 where body: "?body (?l, w) = (q, (l1, w1))" by (cases "?body (?l, w)") auto
    have run: "releasing ?body (?l, w) = (r, (l', w'))"
      using assms(1) True by (simp add: build_application_def s Inr on_lease_def lease_acquire_def)
    have "l1 = ?l"
      using body by (auto simp: sbind_def on_store_def slift_def sret_def split: prod.splits sum.splits)
    show ?thesis
    proof (cases q)
      case (Inl e)
      then show ?thesis
        using run True by (auto simp: releasing_def body \<open>l1 = ?l\<close> on_lease_def lease_release_def s split: if_splits)
    next
      case (Inr app)
      then have same: "r = Inr app" "l' = l1" "w' = w1" using run by (simp_all add: releasing_def body)
      obtain env c where o: "open_memory ax s now archive_perms store_perms w = (Inr env, w1)"
        "build_controller ax env managed debug presenter s = Inr c" "l1 = ?l"
        "app = \<lparr>ap_snapshot = s, ap_controller = c, ap_env = env, ap_managed = managed, ap_debug = debug,
           ap_reload_required = False\<rparr>"
        using body Inr by (auto simp: sbind_Inr_iff on_store_def sret_def slift_def split: prod.splits sum.splits)
      have "w_journal w1 = None"
        using o(1) tx_recover_no_journal by (fastforce simp: open_memory_def sbind_Inr_iff sret_def)
      then show ?thesis
        using build_controller_serves [OF o(2)] by (auto simp: same o(3,4) s app_serves_def)
    qed
  qed
qed

text \<open>
  A start is all or nothing for the lock. When it succeeds the process holds the writer's lock, no turn of an
  earlier process is left over, and the parts are those of the configuration just read; when the lock is not
  granted or the configuration is refused the stores are not touched; and when anything after the lock fails,
  short of the death of the process, the lock is free again.
\<close>

theorem start_holds_or_frees_lock:
  assumes "build_application ax loaded granted now archive_perms store_perms managed debug presenter (l, w) = (r, (l', w'))"
    and "\<not> wl_held l"
  shows "case r of
      Inr app \<Rightarrow> wl_held l' \<and> w_journal w' = None \<and> loaded = Inr (ap_snapshot app) \<and>
        ((managed \<longrightarrow> presenter = NoPresenter) \<longrightarrow> app_serves ax app)
    | Inl e \<Rightarrow> (is_exception e \<longrightarrow> \<not> wl_held l') \<and> (\<not> granted \<or> \<not> is_ok loaded \<longrightarrow> w' = w \<and> l' = l)"
  using assms by (rule start_outcome)

subsection \<open>A concrete application\<close>

definition proxy :: "(string \<times> pyval) list \<Rightarrow> pyval" where
  "proxy d = PProxy (map (\<lambda>(k, v). (u k, v)) d)"

lemma look_proxy [simp]:
  "look (proxy d) (k # ks) =
     (case map_of d k of None \<Rightarrow> Inl KeyExn | Some v \<Rightarrow> look v ks)"
proof -
  have "dict_get (map (\<lambda>(k, v). (u k, v)) d) (u k) = map_of d k" by (induction d) (auto simp: u_inj)
  then show ?thesis by (simp add: proxy_def py_item_def split: option.split)
qed

lemma proxy_item [simp]: "py_item (proxy d) k = (case map_of d k of None \<Rightarrow> Inl KeyExn | Some v \<Rightarrow> Inr v)"
  using look_proxy [of d k "[]"] by (cases "py_item (proxy d) k") (simp_all split: option.split)

lemma proxy_get [simp]: "py_get (proxy d) k z = Inr (case map_of d k of None \<Rightarrow> z | Some v \<Rightarrow> v)"
proof -
  have "dict_get (map (\<lambda>(k, v). (u k, v)) d) (u k) = map_of d k" by (induction d) (auto simp: u_inj)
  then show ?thesis by (simp add: proxy_def py_get_def split: option.split)
qed

definition sample_app_settings :: "(string \<times> pyval) list" where
  "sample_app_settings =
     [(''agent.toml'', proxy
        [(''short_term'', proxy [(''max_records'', PInt 4), (''reserved_records'', PInt 2),
            (''curation_batch_min_records'', PInt 2), (''curation_batch_max_records'', PInt 2)]),
         (''runtime'', proxy [(''tool_deadline_seconds'', PInt 1), (''max_tool_rounds'', PInt 1),
            (''writer_lock_timeout_seconds'', PInt 0)]),
         (''context_budget'', proxy [(''long_term_tokens'', PInt 1), (''short_term_tokens'', PInt 1)]),
         (''memory_overview'', proxy [(''max_chars'', PInt 1)])]),
      (''states.toml'', proxy [(''states'', PTuple [proxy [(''id'', txt' ''d''), (''enabled'', PBool True),
         (''ordered_persona_ids'', PTuple [txt' ''s''])]])]),
      (''history_timestamps.toml'', proxy [(''display_timezone'', txt' ''Z''), (''long_gap_minutes'', PInt 1),
         (''continuous_segment_refresh_minutes'', PInt 1), (''split_on_local_date_change'', PBool True)]),
      (''tools.toml'', proxy [(''tools'', PTuple [proxy [(''id'', txt' ''memory_source_query''), (''page_size'', PInt 1),
         (''enabled'', PBool True), (''allowed_personas'', PTuple [txt' ''chat'']), (''read_only'', PBool True),
         (''max_result_bytes'', PInt 9)]])])]"

definition sample_app_asset :: "string \<Rightarrow> config_asset" where
  "sample_app_asset i =
     \<lparr>ca_asset_id = u i, ca_kind = u ''k'', ca_path = u ''f'', ca_content = u ''x'',
      ca_content_sha256 = content_hash (u ''x''), ca_revision = content_hash (u ''x'')\<rparr>"

definition sample_app_snapshot :: "pystr \<Rightarrow> config_snapshot" where
  "sample_app_snapshot revision =
     \<lparr>cs_revision = revision, cs_config_root = u ''/c'', cs_data_root = u ''/d'', cs_default_state_id = u ''d'',
      cs_personas = [sample_persona ''chat'' ''chat'' ''a'', sample_persona ''memory_curator'' ''memory_curator'' ''b'',
        sample_persona ''s'' ''state'' ''s''],
      cs_prompts = [(u ''memory_curation'', u ''m''), (u ''untrusted_memory_boundary'', u ''b'')],
      cs_settings = map (\<lambda>(k, v). (u k, v)) sample_app_settings,
      cs_assets = map sample_app_asset [''config:history_timestamps'', ''prompt:untrusted_memory_boundary'', ''config:tools'']\<rparr>"

definition sample_app_env :: "(nat, nat) app_env" where
  "sample_app_env =
     \<lparr>ax_tables = (ce_tables sample_config)\<lparr>py_float_of := (\<lambda>_. Inr (u ''1.0''))\<rparr>, ax_zone = (\<lambda>_. Inr (\<lambda>_. 0)), ax_environ = (\<lambda>_. None),
      ax_memory = (\<lambda>_ _. sample_env None),
      ax_query = (\<lambda>_ _. \<lparr>im_execute = (\<lambda>_ _. sfail KeyExn), im_prepare = None, im_commit = None, im_rollback = None,
        im_compensate = None\<rparr>)\<rparr>"

lemma sample_setting:
  "setting (sample_app_snapshot r) name path =
     (case map_of sample_app_settings name of None \<Rightarrow> Inl KeyExn | Some v \<Rightarrow> look v path)"
proof -
  have "dict_get (map (\<lambda>(k, v). (u k, v)) d) (u k) = map_of d k" for d :: "(string \<times> pyval) list" and k
    by (induction d) (auto simp: u_inj)
  then show ?thesis by (simp add: setting_def sample_app_snapshot_def)
qed

lemma sample_asset_found:
  "find_asset (u i) (sample_app_snapshot r) =
     (if i \<in> {''config:history_timestamps'', ''prompt:untrusted_memory_boundary'', ''config:tools''}
      then Some (sample_app_asset i) else None)"
  by (auto simp: find_asset_def sample_app_snapshot_def dict_of_def sample_app_asset_def u_inj)

lemma sample_source_from: "source_ref_ok
    \<lparr>sf_source_kind = SrcConfigFile, sf_source_id = u (c # i), sf_path = Some (u ''config/'' @ u ''f''),
     sf_content_sha256 = Some (content_hash (u ''x'')), sf_revision = v, sf_entity_ids = e, sf_producer = u ''config_loader''\<rparr>"
  by (simp add: source_ref_ok_def content_hash_def content_hash_bytes_def project_relative_def posix_path_def
      path_is_absolute_def path_parts_def u_Cons)


lemma sample_app_tables [simp]:
  "py_text (ax_tables sample_app_env) (PStr s) = s" "py_int (ax_tables sample_app_env) (PInt i) = Inr i"
  "py_truth (ax_tables sample_app_env) (PBool b) = b" "py_float_of (ax_tables sample_app_env) v = Inr (u ''1.0'')"
  by (simp_all add: py_text_def py_int_def py_truth_def sample_app_env_def)

lemma sample_resolver:
  "\<exists>r. build_resolver (ax_tables sample_app_env) (sample_app_snapshot v) = Inr (r, [u ''s''])"
  by (simp add: build_resolver_def enabled_states_def sample_setting sample_app_settings_def enabled_state_def
      dict_of_def state_names_def text_items_def make_resolver_def validated_def agent_state_definition_ok_def)
    (simp add: sample_app_snapshot_def)

lemma sample_temporal:
  "\<exists>p. temporal_policy_from sample_app_env (sample_app_snapshot v) = Inr p"
proof -
  have "List.find (\<lambda>a. ca_asset_id a = u ''config:history_timestamps'') (cs_assets (sample_app_snapshot v)) =
      Some (sample_app_asset ''config:history_timestamps'')"
    by (simp add: sample_app_snapshot_def sample_app_asset_def)
  moreover have "ax_zone sample_app_env z = Inr (\<lambda>_. 0)" for z by (simp add: sample_app_env_def)
  ultimately show ?thesis
    by (simp add: temporal_policy_from_def sample_setting int_setting_def sample_app_settings_def validated_def
        temporal_policy_ok_def minutes_def sample_app_asset_def sample_source_from)
qed

lemma sample_prompting: "\<exists>pg. build_prompting sample_app_env (sample_app_snapshot v) = Inr pg"
proof -
  obtain r p where "build_resolver (ax_tables sample_app_env) (sample_app_snapshot v) = Inr (r, [u ''s''])"
    "temporal_policy_from sample_app_env (sample_app_snapshot v) = Inr p"
    using sample_resolver sample_temporal by blast
  moreover have "\<exists>b. build_renderer (sample_app_snapshot v) = Inr b"
    by (simp add: build_renderer_def sample_asset_found make_boundary_renderer_def source_from_asset_def validated_def
        sample_app_asset_def sample_source_from)
  moreover have "\<exists>pr. personas_from_snapshot (cs_personas (sample_app_snapshot v)) (cs_prompts (sample_app_snapshot v)) = Inr pr \<and>
      pr_chat pr = u ''a'' \<and> state_prompts pr [u ''s''] = Inr [u ''s'']"
    by (simp add: personas_from_snapshot_def sample_app_snapshot_def sample_persona_def with_role_def u_inj falsy_def
        state_prompts_def dict_of_def)
  ultimately show ?thesis
    by (auto simp: build_prompting_def mvp_assembler_def strip_eq_Nil u_Cons is_space_def)
qed

lemma sample_tools: "\<exists>x. build_tools sample_app_env env (sample_app_snapshot v) = Inr x"
proof -
  have "source_ref_ok
    \<lparr>sf_source_kind = SrcConfigFile, sf_source_id = u ''config:tools'', sf_path = Some (u ''config/tools.toml''),
     sf_content_sha256 = Some (content_hash (u ''x'')), sf_revision = Some r,
     sf_entity_ids = [td_tool_id query_definition], sf_producer = u ''config_loader''\<rparr>" for r
    by (simp add: source_ref_ok_def content_hash_def content_hash_bytes_def project_relative_def posix_path_def
        path_is_absolute_def path_parts_def u_Cons)
  moreover have "ca_content_sha256 (sample_app_asset i) = content_hash (u ''x'')" for i
    by (simp add: sample_app_asset_def)
  ultimately show ?thesis
    by (simp add: build_tools_def sample_setting sample_app_settings_def sample_asset_found register_tool_def
        validated_def u_inj Let_def)
qed

lemma sample_rebuild:
  "\<exists>c. rebuild sample_app_env env False False g g (sample_app_snapshot v) = Inr c"
proof -
  obtain pg where "build_prompting sample_app_env (sample_app_snapshot v) = Inr pg" using sample_prompting by blast
  moreover obtain tools where "build_tools sample_app_env env (sample_app_snapshot v) = Inr tools"
    using sample_tools by blast
  moreover have "\<exists>cv. curation_service_from (ax_tables sample_app_env) env (sample_app_snapshot v) pg = Inr cv" for pg
    by (simp add: curation_service_from_def int_setting_def sample_setting sample_app_settings_def)
      (simp add: sample_app_snapshot_def)
  moreover have "\<exists>b. memory_budgets (ax_tables sample_app_env) (sample_app_snapshot v) = Inr b"
    by (simp add: memory_budgets_def int_setting_def sample_setting sample_app_settings_def)
  moreover have "int_setting (ax_tables sample_app_env) (sample_app_snapshot v) ''agent.toml'' [''runtime'', ''max_tool_rounds''] = Inr 1"
    by (simp add: int_setting_def sample_setting sample_app_settings_def)
  ultimately show ?thesis by (cases tools) (auto simp: rebuild_def rbind_Inr_iff Let_def)
qed


definition sample_gateway_config :: gateway_config where
  "sample_gateway_config =
     \<lparr>gc_adapter = GivenAdapter, gc_debug = False, gc_presenter = NoPresenter, gc_max_attempts = 1, gc_estimator = None\<rparr>"

lemma sample_application:
  "\<exists>app. app_serves sample_app_env app \<and> ap_snapshot app = sample_app_snapshot (u ''r1'') \<and> ap_env app = sample_env None \<and>
     \<not> ap_managed app \<and> \<not> ap_debug app \<and> ct_chat (ap_controller app) = ct_curator (ap_controller app)"
proof -
  let ?g = sample_gateway_config
  obtain c where c: "rebuild sample_app_env (sample_env None) False False ?g ?g (sample_app_snapshot (u ''r1'')) = Inr c"
    using sample_rebuild by blast
  then have "ct_chat c = ct_curator c"
    by (auto simp: rebuild_def rbind_Inr_iff make_controller_def Let_def)
  then show ?thesis
    using rebuild_gateways [OF c]
    by (intro exI [of _ "\<lparr>ap_snapshot = sample_app_snapshot (u ''r1''), ap_controller = c, ap_env = sample_env None,
      ap_managed = False, ap_debug = False, ap_reload_required = False\<rparr>"]) (simp add: app_serves_def)
qed


theorem start_holds_or_frees_lock_witness:
  "\<exists>l' w'. build_application sample_app_env (Inr (sample_app_snapshot (u ''r1''))) True 0 [] [] False False NoPresenter
       (\<lparr>wl_acquired = False, wl_held = False\<rparr>, stranded_world) = (Inl KeyExn, (l', w')) \<and> \<not> wl_held l'"
proof -
  let ?l = "\<lparr>wl_acquired = False, wl_held = False\<rparr>"
  obtain r l' w' where run: "build_application sample_app_env (Inr (sample_app_snapshot (u ''r1''))) True 0 [] [] False
      False NoPresenter (?l, stranded_world) = (r, (l', w'))"
    by (metis prod.exhaust)
  have "r = Inl KeyExn"
    using run
    by (simp add: build_application_def sample_setting sample_app_settings_def on_lease_def lease_acquire_def
        releasing_def on_store_def open_memory_def archive_arguments_def is_exception_def split: prod.splits)
  with start_holds_or_frees_lock [OF run] run show ?thesis by (auto simp: is_exception_def)
qed

end
