(* ===== verification/Cli.thy ===== *)
theory Cli
  imports Application Incidents Shell
begin

text \<open>
  \<open>cli.py\<close>: the commands, what they print, and the exit codes. The arguments have been parsed; the
  configuration on disk, the permissions of the paths, the lock and the runtime shell are arguments. What a
  command prints is the JSON object given to \<open>_print\<close>.
\<close>

subsection \<open>Commands\<close>

datatype cli_command =
    ConfigValidate
  | SecurityCheck
  | SecurityAcknowledge "pystr option" "pystr option" "pystr option" "pystr option"
  | MemoryValidate
  | MemoryReset reset_scope
  | MemorySource pystr "pystr option"
  | Doctor
  | Chat bool bool

record cli_state =
  cl_lease :: writer_lease
  cl_world :: world
  cl_incident :: incident_file

record ('w, 'p) cli_env =
  cx_app :: "('w, 'p) app_env"
  cx_load :: "bool \<Rightarrow> config_snapshot result"
  cx_memory :: memory_env
  cx_private :: bool
  cx_archive_perms :: "permission_result list"
  cx_store_perms :: "permission_result list"
  cx_lock_free :: bool
  cx_now :: int
  cx_reset_env :: "archive_config \<Rightarrow> store_config \<Rightarrow> memory_env"
  cx_query :: "int \<Rightarrow> source_query"
  cx_preflight :: "unit result"
  cx_shell :: "('w, 'p) application \<Rightarrow> (pystr \<times> pystr) option \<Rightarrow> (world, int) op"
  cx_message :: "exn \<Rightarrow> pystr"

type_synonym printed = "(pystr \<times> json) list list"

definition on_cli_world :: "(world, 'a) op \<Rightarrow> (cli_state, 'a) op" where
  "on_cli_world m st = (case m (cl_world st) of (r, w) \<Rightarrow> (r, st\<lparr>cl_world := w\<rparr>))"

definition on_incident :: "(incident_file, 'a) op \<Rightarrow> (cli_state, 'a) op" where
  "on_incident m st = (case m (cl_incident st) of (r, f) \<Rightarrow> (r, st\<lparr>cl_incident := f\<rparr>))"

definition on_locked :: "(writer_lease \<times> world, 'a) op \<Rightarrow> (cli_state, 'a) op" where
  "on_locked m st =
     (case m (cl_lease st, cl_world st) of (r, (l, w)) \<Rightarrow> (r, st\<lparr>cl_lease := l, cl_world := w\<rparr>))"

subsection \<open>Values\<close>

text \<open>\<open>sorted(...)\<close> over texts, or over numbers; anything mixed cannot be compared.\<close>

definition py_sorted :: "pyval list \<Rightarrow> pyval list result" where
  "py_sorted vs =
     (case text_items vs of
        Some names \<Rightarrow> Inr (map PStr (sort names))
      | None \<Rightarrow>
          (case those (map plain_int vs) of
             Some ns \<Rightarrow> Inr (map PInt (sort ns))
           | None \<Rightarrow> if length vs \<le> 1 then Inr vs else Inl TypeExn))"

definition enabled_tools :: "py_tables \<Rightarrow> config_snapshot \<Rightarrow> json result" where
  "enabled_tools t s =
     rbind (rbind (setting s ''tools.toml'' [''tools'']) py_iter) (\<lambda>items.
     rbind (rmap (\<lambda>item. rbind (py_item item ''enabled'') (\<lambda>e.
              if py_truth t e then rbind (py_item item ''id'') (\<lambda>i. Inr [i]) else Inr [])) items) (\<lambda>ids.
     rbind (py_sorted (concat ids)) (\<lambda>names.
     rbind (rmap json_of_pyval names) (\<lambda>js. Inr (JArr js)))))"

definition sorted_roles :: "config_snapshot \<Rightarrow> json" where
  "sorted_roles s = JArr (map JStr (sorted_set (map pf_role (cs_personas s))))"

definition sorted_prompts :: "config_snapshot \<Rightarrow> json" where
  "sorted_prompts s = JArr (map JStr (sort (map fst (cs_prompts s))))"

definition config_groups :: "pystr list" where
  "config_groups =
     [u ''agent'', u ''providers'', u ''states'', u ''tools'', u ''history_timestamps'', u ''personas'', u ''prompts'']"

subsection \<open>\<open>config validate\<close>\<close>

text \<open>\<open>{item["id"]: item for item in providers}\<close>: the later of two equal identifiers counts.\<close>

definition provider_by_id :: "py_tables \<Rightarrow> pyval list \<Rightarrow> (pyval \<times> pyval) list result" where
  "provider_by_id t providers =
     rbind (rmap (\<lambda>item. rbind (py_item item ''id'') (\<lambda>i.
              if py_hashable i then Inr (py_norm t i, item) else Inl TypeExn)) providers) (\<lambda>ps. Inr (dict_of ps))"

definition provider_field :: "py_tables \<Rightarrow> (pyval \<times> pyval) list \<Rightarrow> pyval \<Rightarrow> string \<Rightarrow> pyval result" where
  "provider_field t by_id profile k =
     rbind (py_item profile ''provider'') (\<lambda>i.
       if \<not> py_hashable i then Inl TypeExn
       else case dict_get by_id (py_norm t i) of None \<Rightarrow> Inl KeyExn | Some p \<Rightarrow> py_item p k)"

definition model_capability ::
  "py_tables \<Rightarrow> (pyval \<times> pyval) list \<Rightarrow> pystr \<times> pyval \<Rightarrow> (pystr \<times> json) result"
where
  "model_capability t by_id = (\<lambda>(profile_id, profile).
     rbind (rmap (\<lambda>r. rbind r json_of_pyval)
       [py_item profile ''model'', py_item profile ''thinking_enabled'', py_item profile ''max_output_tokens'',
        py_get profile ''context_window_tokens'' PNone, provider_field t by_id profile ''max_output_cap'',
        provider_field t by_id profile ''token_estimator'']) (\<lambda>js.
     Inr (profile_id, JObj (zip [u ''model'', u ''thinking_enabled'', u ''max_output_tokens'', u ''context_window_tokens'',
       u ''max_output_cap'', u ''token_estimator''] js))))"

definition config_validate :: "py_tables \<Rightarrow> config_snapshot \<Rightarrow> (pystr \<times> json) list result" where
  "config_validate t s =
     rbind (setting s ''providers.toml'' []) (\<lambda>document.
     rbind (rbind (py_item document ''providers'') py_iter) (\<lambda>providers.
     rbind (provider_by_id t providers) (\<lambda>by_id.
     rbind (py_item document ''model_profiles'') (\<lambda>v.
     rbind (case py_dict v of None \<Rightarrow> Inl AttributeExn | Some d \<Rightarrow> Inr (sort_key fst d)) (\<lambda>profiles.
     rbind (rmap (model_capability t by_id) profiles) (\<lambda>capabilities.
     rbind (enabled_tools t s) (\<lambda>tools.
       Inr [(u ''ok'', JBool True), (u ''config_revision'', JStr (cs_revision s)),
            (u ''groups'', JObj (map (\<lambda>g. (g, JStr (u ''ok''))) config_groups)),
            (u ''personas'', JArr (map (\<lambda>p. JStr (pf_persona_id p)) (cs_personas s))),
            (u ''roles'', sorted_roles s), (u ''prompts'', sorted_prompts s),
            (u ''provider_profiles'', JArr (map (\<lambda>(k, v). JStr k) profiles)),
            (u ''model_capabilities'', JObj capabilities),
            (u ''states'', JArr [JStr (cs_default_state_id s)]), (u ''tools'', tools)])))))))"


subsection \<open>\<open>security\<close>\<close>

text \<open>\<open>IncidentReport.model_dump\<close>: a report that is not open has only defaults.\<close>

definition dump_incident_report :: "incident_file \<Rightarrow> (pystr \<times> json) list" where
  "dump_incident_report f =
     (let report = check_incident f; payload = (if ir_open report then load_incident f else []);
          field = (\<lambda>k. (k, case dict_get payload k of None \<Rightarrow> JNull | Some j \<Rightarrow> j))
      in [(u ''open'', JBool (ir_open report)), field (u ''fingerprint''),
          (u ''artifacts'', case dict_get payload (u ''artifacts'') of None \<Rightarrow> JArr [] | Some j \<Rightarrow> j)] @
         map field evidence_fields @
         [(u ''cleared'', JBool (ir_cleared report)), (u ''missing'', JArr (map JStr (ir_missing report)))])"

definition security_report :: "(incident_file, printed \<times> int) op" where
  "security_report f =
     (Inr ([(u ''ok'', JBool (ir_cleared (check_incident f))) # dump_incident_report f],
           if ir_cleared (check_incident f) then 0 else 7), f)"

definition security_acknowledge ::
  "bool \<Rightarrow> pystr option \<Rightarrow> pystr option \<Rightarrow> pystr option \<Rightarrow> pystr option \<Rightarrow> (incident_file, printed \<times> int) op"
where
  "security_acknowledge private rotation repository runtime disposition =
     sbind (acknowledge_incident private (zip evidence_fields [rotation, repository, runtime, disposition]))
       (\<lambda>_. security_report)"

subsection \<open>\<open>memory\<close> and \<open>doctor\<close>\<close>

definition memory_validate :: "('w, 'p) cli_env \<Rightarrow> (world, printed \<times> int) op" where
  "memory_validate cx =
     sbind (slift (cx_load cx False)) (\<lambda>s.
     let env = cx_memory cx in
     sbind (\<lambda>w. (read_all (me_codec env) (w_segments w), w)) (\<lambda>records.
     sbind (slift (require_private (cx_archive_perms cx))) (\<lambda>_.
     sbind (ls_initialize env (cx_now cx)) (\<lambda>d.
     sbind (slift (require_private (cx_store_perms cx))) (\<lambda>_.
     let through = ck_curated_through_sequence (md_curation d) in
     sbind (slift (validate_complete_coverage records (md_coverage_overview d) through
              (filter (\<lambda>r. rr_global_sequence r > through) records) None)) (\<lambda>coverage.
     sret ([[(u ''ok'', JBool True), (u ''raw_records'', JInt (int (length records))),
             (u ''long_term_items'', JInt (int (length (md_memories d)))),
             (u ''curated_through_sequence'', JInt through),
             (u ''coverage_spans'', JInt (int (length (co_spans (md_coverage_overview d))))),
             (u ''coverage_gaps'', JInt 0), (u ''dangling_sources'', JInt 0), (u ''config_revision'', JStr (cs_revision s)),
             (u ''direct_range'', JArr (case cr_direct_range coverage of None \<Rightarrow> [] | Some (a, b) \<Rightarrow> [JInt a, JInt b]))]],
           0)))))))"

definition scope_value :: "reset_scope \<Rightarrow> pystr" where
  "scope_value scope = (case scope of ScopeAll \<Rightarrow> u ''all'' | ScopeLongTerm \<Rightarrow> u ''long-term'' | ScopeOther s \<Rightarrow> s)"

definition dump_reset_report :: "reset_report \<Rightarrow> (pystr \<times> json) list" where
  "dump_reset_report r =
     [(u ''scope'', JStr (scope_value (rp_scope r))), (u ''raw_records_before'', JInt (rp_raw_before r)),
      (u ''raw_records_after'', JInt (rp_raw_after r)), (u ''long_term_items_before'', JInt (rp_items_before r)),
      (u ''long_term_items_after'', JInt (rp_items_after r)), (u ''coverage_spans_before'', JInt (rp_spans_before r)),
      (u ''coverage_spans_after'', JInt (rp_spans_after r)), (u ''curated_through_sequence'', JInt (rp_curated_through r))]"

definition reset_options :: "py_tables \<Rightarrow> config_snapshot \<Rightarrow> (archive_config \<times> store_config) result" where
  "reset_options t s =
     (let agent = (\<lambda>path. int_setting t s ''agent.toml'' path) in
      rbind (agent [''archive'', ''segment_max_records'']) (\<lambda>records.
      rbind (agent [''archive'', ''segment_max_bytes'']) (\<lambda>segment_bytes.
      rbind (agent [''archive'', ''max_record_bytes'']) (\<lambda>record_bytes.
      rbind (agent [''manual_memory'', ''max_document_bytes'']) (\<lambda>document_bytes.
      rbind (agent [''manual_memory'', ''max_items'']) (\<lambda>items.
      rbind (agent [''memory_overview'', ''max_chars'']) (\<lambda>chars.
      rbind (rbind (setting s ''agent.toml'' [''runtime'', ''writer_lock_timeout_seconds'']) (py_float_of t)) (\<lambda>_.
        Inr (\<lparr>ac_segment_max_records = nat records, ac_segment_max_bytes = nat segment_bytes,
              ac_max_record_bytes = nat record_bytes\<rparr>,
             \<lparr>sc_max_document_bytes = nat document_bytes, sc_max_items = nat items,
              sc_max_overview_chars = nat chars\<rparr>)))))))))"

definition memory_reset :: "('w, 'p) cli_env \<Rightarrow> reset_scope \<Rightarrow> (world, printed \<times> int) op" where
  "memory_reset cx scope =
     sbind (slift (cx_load cx False)) (\<lambda>s.
     sbind (slift (reset_options (ax_tables (cx_app cx)) s)) (\<lambda>(archive, store).
     sbind (reset_memory (cx_reset_env cx archive store) (cx_now cx) (cx_lock_free cx) (cx_archive_perms cx)
              (cx_store_perms cx) scope) (\<lambda>report.
     sret ([(u ''ok'', JBool True) # dump_reset_report report], 0))))"

definition memory_source :: "('w, 'p) cli_env \<Rightarrow> pystr \<Rightarrow> pystr option \<Rightarrow> (world, printed \<times> int) op" where
  "memory_source cx memory_id cursor =
     (let t = ax_tables (cx_app cx) in
      sbind (slift (cx_load cx False)) (\<lambda>s.
      sbind (ls_initialize (cx_memory cx) (cx_now cx)) (\<lambda>_.
      sbind (slift (rbind (rbind (setting s ''tools.toml'' [''tools'']) py_iter) (\<lambda>items.
               rbind (next_item (\<lambda>item. rbind (py_item item ''id'') (\<lambda>i.
                 Inr (i = PStr (u ''memory_source_query'')))) items) (\<lambda>config.
               rbind (py_item config ''page_size'') (py_int t))))) (\<lambda>page_size.
      sbind (execute_sync (cx_query cx page_size) (cx_now cx)
               ((u ''memory_id'', JStr memory_id) # (if falsy cursor then [] else [(u ''cursor'', JStr (the cursor))]))
               \<lparr>tx_flow_id = u ''cli-memory-source'', tx_turn_id = u ''cli-memory-source'', tx_persona_id = u ''chat'',
                tx_state_id = cs_default_state_id s, tx_config_revision = cs_revision s, tx_trigger_record_id = None\<rparr>)
        (\<lambda>result.
      sret ([(u ''ok'', JBool (tr_outcome result = ToolSuccess)) #
             (case dump_tool_result result of JObj kvs \<Rightarrow> kvs | _ \<Rightarrow> [])],
            if tr_outcome result = ToolSuccess then 0 else 5))))))"

definition doctor :: "('w, 'p) cli_env \<Rightarrow> (world, printed \<times> int) op" where
  "doctor cx =
     sbind (slift (cx_load cx False)) (\<lambda>s.
     let env = cx_memory cx in
     sbind (\<lambda>w. (read_all (me_codec env) (w_segments w), w)) (\<lambda>_.
     sbind (slift (require_private (cx_archive_perms cx))) (\<lambda>_.
     sbind (ls_initialize env (cx_now cx)) (\<lambda>d.
     sbind (slift (require_private (cx_store_perms cx))) (\<lambda>_.
     sbind (slift (enabled_tools (ax_tables (cx_app cx)) s)) (\<lambda>tools.
     sret ([[(u ''ok'', JBool True), (u ''config_revision'', JStr (cs_revision s)),
             (u ''state'', JStr (cs_default_state_id s)), (u ''network_probe'', JBool False),
             (u ''roles'', sorted_roles s), (u ''prompts'', sorted_prompts s), (u ''tools'', tools),
             (u ''long_term_revision'', JInt (md_revision d))]], 0)))))))"

subsection \<open>\<open>chat\<close>\<close>

text \<open>\<open>finally\<close>: the application is closed however the session ends.\<close>

definition closing :: "(writer_lease \<times> world, 'a) op \<Rightarrow> (writer_lease \<times> world, 'a) op" where
  "closing m st = (case m st of (r, st') \<Rightarrow> (r, snd (app_close st')))"

text \<open>What happens to an input without an answer before the shell starts.\<close>

definition settle_pending ::
  "('w, 'p) application \<Rightarrow> bool \<Rightarrow> (world, printed \<times> (pystr \<times> pystr) option) op"
where
  "settle_pending app resume =
     sbind (\<lambda>w. (pending_turn (me_codec (ap_env app)) (w_segments w), w)) (\<lambda>pending.
       case pending of
         None \<Rightarrow> sret ([], None)
       | Some r \<Rightarrow>
           if resume then sret ([], Some (rr_content r, rr_turn_id r))
           else sbind (app_discard_pending app (Some (rr_turn_id r))) (\<lambda>discarded.
             sret (case discarded of
                     None \<Rightarrow> ([], None)
                   | Some i \<Rightarrow> ([[(u ''ok'', JBool True), (u ''pending_discarded'', JBool True),
                                 (u ''pending_turn_id'', JStr i)]], None))))"

definition chat_session ::
  "('w, 'p) cli_env \<Rightarrow> bool \<Rightarrow> ('w, 'p) application \<Rightarrow> (writer_lease \<times> world, printed \<times> int) op"
where
  "chat_session cx resume app =
     on_store (sbind (settle_pending app resume) (\<lambda>(out, resumed).
       sbind (cx_shell cx app resumed) (\<lambda>code. sret (out, code))))"

definition chat :: "('w, 'p) cli_env \<Rightarrow> bool \<Rightarrow> bool \<Rightarrow> (writer_lease \<times> world, printed \<times> int) op" where
  "chat cx resume debug =
     sbind (slift (if debug then cx_preflight cx else Inr ())) (\<lambda>_.
     sbind (build_application (cx_app cx) (cx_load cx True) (cx_lock_free cx) (cx_now cx) (cx_archive_perms cx)
              (cx_store_perms cx) True debug NoPresenter) (\<lambda>app.
     closing (chat_session cx resume app)))"

subsection \<open>\<open>main\<close>\<close>

definition run_command :: "('w, 'p) cli_env \<Rightarrow> cli_command \<Rightarrow> (cli_state, printed \<times> int) op" where
  "run_command cx command =
     (case command of
        ConfigValidate \<Rightarrow>
          slift (rbind (cx_load cx True) (\<lambda>s. rbind (config_validate (ax_tables (cx_app cx)) s) (\<lambda>p. Inr ([p], 0))))
      | SecurityCheck \<Rightarrow> on_incident security_report
      | SecurityAcknowledge a b c d \<Rightarrow> on_incident (security_acknowledge (cx_private cx) a b c d)
      | MemoryValidate \<Rightarrow> on_cli_world (memory_validate cx)
      | MemoryReset scope \<Rightarrow> on_cli_world (memory_reset cx scope)
      | MemorySource i cursor \<Rightarrow> on_cli_world (memory_source cx i cursor)
      | Doctor \<Rightarrow> on_cli_world (doctor cx)
      | Chat resume debug \<Rightarrow> on_locked (chat cx resume debug))"

definition has_prefix :: "string \<Rightarrow> string \<Rightarrow> bool" where
  "has_prefix p code \<longleftrightarrow> take (length p) code = p"

definition error_exit_code :: "string \<Rightarrow> int" where
  "error_exit_code code =
     (if code = ''TURN_INTERRUPTED'' then 130
      else if code = ''WRITER_LOCKED'' then 4
      else if has_prefix ''RAW_'' code \<or> has_prefix ''MEMORY_'' code then 5
      else if has_prefix ''PROVIDER_'' code then 6
      else if has_prefix ''CREDENTIAL'' code then 3 else 2)"

definition dump_error :: "('w, 'p) cli_env \<Rightarrow> exn \<Rightarrow> json" where
  "dump_error cx e =
     JObj [(u ''code'', JStr (u (bai_code e))), (u ''message'', JStr (cx_message cx e)),
           (u ''retryable'', JBool (bai_retryable e))]"

text \<open>What was printed before an error is not part of the value; the error object is.\<close>

definition cli_main :: "('w, 'p) cli_env \<Rightarrow> cli_command \<Rightarrow> (cli_state, printed \<times> int) op" where
  "cli_main cx command st =
     (case run_command cx command st of
        (Inr x, st') \<Rightarrow> (Inr x, st')
      | (Inl e, st') \<Rightarrow>
          if is_bai e then (Inr ([[(u ''ok'', JBool False), (u ''error'', dump_error cx e)]], error_exit_code (bai_code e)), st')
          else if e = OtherExn ''KeyboardInterrupt'' then (Inr ([], 130), st')
          else (Inl e, st'))"

text \<open>The first Ctrl+C stops the shell, the second aborts it.\<close>

definition sigint_handler :: "bool \<Rightarrow> shell \<Rightarrow> bool \<times> shell" where
  "sigint_handler armed sh = (if armed then (True, request_abort sh) else (True, request_stop (u ''sigint'') sh))"

definition sigterm_handler :: "shell \<Rightarrow> shell" where
  "sigterm_handler = request_stop (u ''sigterm'')"


subsection \<open>What the commands guarantee\<close>

lemma complete_turns_last: "complete_turns rs \<Longrightarrow> rs \<noteq> [] \<Longrightarrow> rr_role (last rs) = RoleAssistant"
  by (induction rs rule: complete_turns.induct) auto

lemma discarded_tail:
  assumes "archive_discard_tail env (Some tid) w = (Inr discarded, w')" and "no_cr (w_segments w)"
    and "read_all (me_codec env) (w_segments w) = Inr records"
  shows "discarded = Some tid \<and> read_all (me_codec env) (w_segments w') = Inr (butlast records) \<and>
    pending_turn (me_codec env) (w_segments w') = Inr None"
proof (cases "discard_pending_tail (me_codec env) (Some tid) (w_segments w)")
  case (Inr found)
  have "found \<noteq> None"
    using Inr assms(3) by (auto simp: discard_pending_tail_def rbind_Inr_iff Let_def split: if_splits option.splits prod.splits)
  then obtain i n p where f: "discard_pending_tail (me_codec env) (Some tid) (w_segments w) = Inr (Some (i, n, p))"
    using Inr by auto
  obtain rs r where rs: "read_all (me_codec env) (w_segments w) = Inr (rs @ [r])" "complete_turns rs" "tid = i"
    "read_all (me_codec env) (write_segment n p (w_segments w)) = Inr rs"
    using discard_pending_tail_Some [OF f assms(2)] by (metis option.distinct(1) option.inject)
  have w': "discarded = Some i" "w_segments w' = write_segment n p (w_segments w)"
    using assms(1) by (auto simp: archive_discard_tail_def f durable_def sbind_def sret_def split: if_splits)
  show ?thesis
    using rs assms(3) complete_turns_last [OF rs(2)] by (auto simp: w' pending_turn_def)
qed (use assms(1) in \<open>simp add: archive_discard_tail_def\<close>)

text \<open>
  C38. An unanswered input never slips into a new session. Before the shell starts, the input an earlier process
  left without an answer is handed to the shell when the user asked to resume it, and nothing is changed;
  otherwise it is taken out of the archive, with every earlier turn kept, no pending turn is left, and only its
  turn identifier is printed. Without such an input nothing happens.
\<close>

theorem pending_settled_before_shell:
  assumes "settle_pending app resume w = (Inr (out, resumed), w')" and "no_cr (w_segments w)"
  shows "\<exists>records. read_all (me_codec (ap_env app)) (w_segments w) = Inr records \<and>
    (if records \<noteq> [] \<and> rr_role (last records) = RoleUser
     then if resume
       then resumed = Some (rr_content (last records), rr_turn_id (last records)) \<and> out = [] \<and> w' = w
       else resumed = None \<and> read_all (me_codec (ap_env app)) (w_segments w') = Inr (butlast records) \<and>
         pending_turn (me_codec (ap_env app)) (w_segments w') = Inr None \<and>
         out = [[(u ''ok'', JBool True), (u ''pending_discarded'', JBool True),
                 (u ''pending_turn_id'', JStr (rr_turn_id (last records)))]]
     else resumed = None \<and> out = [] \<and> w' = w)"
proof -
  let ?cd = "me_codec (ap_env app)"
  obtain pending where pending: "pending_turn ?cd (w_segments w) = Inr pending"
    using assms(1) by (auto simp: settle_pending_def sbind_Inr_iff)
  then obtain records where records: "read_all ?cd (w_segments w) = Inr records"
    "pending = (if records \<noteq> [] \<and> rr_role (last records) = RoleUser then Some (last records) else None)"
    by (auto simp: pending_turn_def rbind_Inr_iff)
  show ?thesis
  proof (cases "records \<noteq> [] \<and> rr_role (last records) = RoleUser \<and> \<not> resume")
    case False
    then show ?thesis
      using assms(1) records by (auto simp: settle_pending_def sbind_def pending sret_def split: if_splits)
  next
    case True
    let ?tid = "rr_turn_id (last records)"
    obtain discarded where d: "app_discard_pending app (Some ?tid) w = (Inr discarded, w')" "resumed = None"
      "out = (case discarded of None \<Rightarrow> [] | Some i \<Rightarrow> [[(u ''ok'', JBool True), (u ''pending_discarded'', JBool True),
                 (u ''pending_turn_id'', JStr i)]])"
      using assms(1) True records(2)
      by (auto simp: settle_pending_def sbind_def pending sret_def split: prod.splits sum.splits option.splits)
    then have tail: "archive_discard_tail (ap_env app) (Some ?tid) w = (Inr discarded, w')"
      using True records(2) by (auto simp: app_discard_pending_def discard_pending_def sbind_def pending sret_def split: if_splits prod.splits sum.splits)
    show ?thesis
      using discarded_tail [OF tail assms(2) records(1)] True records(1) d(2,3) by simp
  qed
qed


lemma snd_on_store: "fst (snd (on_store m st)) = fst st"
  by (cases st) (simp add: on_store_def split: prod.split)

lemma closing_frees:
  assumes "closing (chat_session cx resume app) st = (r, (l', w'))" and "wl_acquired (fst st)"
  shows "\<not> wl_held l'"
proof -
  obtain q l w where s: "chat_session cx resume app st = (q, (l, w))" by (cases "chat_session cx resume app st") auto
  have "fst (snd (chat_session cx resume app st)) = fst st" by (simp add: chat_session_def snd_on_store)
  then have "l = fst st" by (simp add: s)
  then show ?thesis
    using assms by (auto simp: closing_def s app_close_def on_lease_def lease_release_def split: if_splits)
qed

lemma build_acquires:
  assumes "build_application ax loaded granted now ap sp managed debug presenter (l, w) = (Inr app, (l', w'))"
  shows "wl_acquired l'"
  using assms
  by (auto simp: build_application_def sbind_def slift_def on_lease_def lease_acquire_def releasing_def on_store_def sret_def
      split: prod.splits sum.splits if_splits)



definition refusal :: "('w, 'p) cli_env \<Rightarrow> exn \<Rightarrow> printed" where
  "refusal cx e = [[(u ''ok'', JBool False), (u ''error'', dump_error cx e)]]"

lemma security_codes:
  "security_report f = (Inr (out, code), f') \<Longrightarrow>
     f' = f \<and> code = (if ir_cleared (check_incident f) then 0 else 7)"
  by (auto simp: security_report_def)

lemma acknowledge_codes:
  "security_acknowledge private a b c d f = (Inr (out, code), f') \<Longrightarrow>
     code = (if ir_cleared (check_incident f') then 0 else 7)"
  by (auto simp: security_acknowledge_def sbind_Inr_iff dest: security_codes)

lemma store_command_codes:
  "memory_validate cx w = (Inr (out, code), w') \<Longrightarrow> code = 0"
  "memory_reset cx scope w = (Inr (out, code), w') \<Longrightarrow> code = 0"
  "memory_source cx i cursor w = (Inr (out, code), w') \<Longrightarrow> code \<in> {0, 5}"
  "doctor cx w = (Inr (out, code), w') \<Longrightarrow> code = 0"
  by (auto simp: memory_validate_def memory_reset_def memory_source_def doctor_def sbind_Inr_iff sret_def Let_def
      split: prod.splits if_splits)

lemma chat_codes:
  assumes "chat cx resume debug st = (Inr (out, code), st')"
  shows "\<exists>app x w w'. cx_shell cx app x w = (Inr code, w')"
  using assms
  by (fastforce simp: chat_def sbind_Inr_iff closing_def chat_session_def on_store_def sret_def split: prod.splits)

lemma command_codes:
  assumes "run_command cx command st = (Inr (out, code), st')"
    and "\<And>app x w c w'. cx_shell cx app x w = (Inr c, w') \<Longrightarrow> c \<in> {0, 130}"
  shows "code \<in> {0, 5, 7, 130} \<and>
    (code = 7 \<longrightarrow> (command = SecurityCheck \<or> (\<exists>a b c d. command = SecurityAcknowledge a b c d)) \<and>
      \<not> ir_cleared (check_incident (cl_incident st')))"
proof (cases command)
  case ConfigValidate
  then show ?thesis using assms(1) by (auto simp: run_command_def slift_def rbind_Inr_iff)
next
  case SecurityCheck
  then show ?thesis
    using assms(1) by (auto simp: run_command_def on_incident_def dest!: security_codes split: prod.splits)
next
  case (SecurityAcknowledge a b c d)
  then show ?thesis
    using assms(1) by (auto simp: run_command_def on_incident_def dest!: acknowledge_codes split: prod.splits)
next
  case MemoryValidate
  then show ?thesis
    using assms(1) by (auto simp: run_command_def on_cli_world_def dest!: store_command_codes split: prod.splits)
next
  case (MemoryReset scope)
  then show ?thesis
    using assms(1) by (auto simp: run_command_def on_cli_world_def dest!: store_command_codes split: prod.splits)
next
  case (MemorySource i cursor)
  then show ?thesis
    using assms(1) by (auto simp: run_command_def on_cli_world_def dest!: store_command_codes split: prod.splits)
next
  case Doctor
  then show ?thesis
    using assms(1) by (auto simp: run_command_def on_cli_world_def dest!: store_command_codes split: prod.splits)
next
  case (Chat resume debug)
  then obtain s' where "chat cx resume debug (cl_lease st, cl_world st) = (Inr (out, code), s')"
    using assms(1) by (auto simp: run_command_def on_locked_def split: prod.splits)
  from chat_codes [OF this] assms(2) have "code \<in> {0, 130}" by blast
  then show ?thesis by auto
qed

lemma error_exit_code_range: "error_exit_code code \<in> {2, 3, 4, 5, 6, 130}"
  by (simp add: error_exit_code_def)


subsection \<open>Concrete commands\<close>

definition sample_cli :: "(nat, nat) cli_env" where
  "sample_cli =
     \<lparr>cx_app = sample_app_env, cx_load = (\<lambda>_. Inl (BaiError ''CONFIG_INVALID'')), cx_memory = sample_env None,
      cx_private = True, cx_archive_perms = [], cx_store_perms = [], cx_lock_free = True, cx_now = 0,
      cx_reset_env = (\<lambda>_ _. sample_env None),
      cx_query = (\<lambda>n. \<lparr>sq_env = sample_env None, sq_page_size = n, sq_float = id, sq_float_is = (\<lambda>_ _. False)\<rparr>),
      cx_preflight = Inr (), cx_shell = (\<lambda>_ _ w. (Inr 0, w)), cx_message = (\<lambda>_. u ''m'')\<rparr>"

definition sample_cli_state :: cli_state where
  "sample_cli_state =
     \<lparr>cl_lease = \<lparr>wl_acquired = False, wl_held = False\<rparr>, cl_world = stranded_world, cl_incident = UnreadableFile\<rparr>"




theorem pending_settled_before_shell_witness:
  "\<exists>app :: (nat, nat) application. settle_pending app True (stranded_world\<lparr>w_segments := sample_segments None\<rparr>) =
     (Inr ([], Some (rr_content sample_user, rr_turn_id sample_user)), stranded_world\<lparr>w_segments := sample_segments None\<rparr>)"
proof -
  let ?w = "stranded_world\<lparr>w_segments := sample_segments None\<rparr>"
  obtain app :: "(nat, nat) application" where env: "ap_env app = sample_env None" using sample_application by blast
  have user: "rr_role sample_user = RoleUser" by (simp add: sample_user_def sample_record_def)
  obtain out resumed w' where run: "settle_pending app True ?w = (Inr (out, resumed), w')"
    by (auto simp: settle_pending_def env pending_turn_def sbind_def sret_def user)
  have "no_cr (w_segments ?w)" using sample_no_cr by simp
  from pending_settled_before_shell [OF run this] obtain records where r:
    "read_all (me_codec (ap_env app)) (w_segments ?w) = Inr records"
    "records \<noteq> [] \<and> rr_role (last records) = RoleUser \<longrightarrow>
       resumed = Some (rr_content (last records), rr_turn_id (last records)) \<and> out = [] \<and> w' = ?w"
    by auto
  then have "records = [sample_user]" by (simp add: env)
  with r(2) run user show ?thesis by auto
qed

end
