(* ===== verification/Spec2Isabelle.thy ===== *)
theory Spec2Isabelle
  imports Memory_Properties Incidents Boundaries Gateway Estimation Provider Projection Curate Assembler Memory_Source Pipeline Background Loops Reset Turns Atomic_Files Editor Shell Config_Load Cli
begin

text \<open>
  A verification development for \<open>bai_agent\<close> (\<open>src/src/bai_agent\<close>), a single-process conversational
  agent with a permanent raw record archive, a curated long-term memory, a prompt builder with located
  sources and an approval step before every model call.

  Theories and the code they model:

  \<^item> \<open>Prelude\<close>, \<open>PyText\<close>: exceptions (\<open>domain/errors.py\<close>), fallible results and state-passing operations,
    insertion-ordered dictionaries, the \<open>str\<close> operations and UTF-8 of Python. A \<open>str\<close> is the list of its
    code points; an \<open>int\<close> is an \<open>int\<close>.
  \<^item> \<open>Sha256\<close>, \<open>PyJson\<close>: \<open>content_hash\<close>, \<open>canonical_json\<close>, \<open>freeze_json\<close> and \<open>thaw_json\<close> of
    \<open>domain/models.py\<close>, with the facts that canonical JSON is printable and injective.
  \<^item> \<open>Records\<close>, \<open>Memory_Models\<close>, \<open>Journal_Models\<close>, \<open>Call_Models\<close>: the validated data of
    \<open>domain/models.py\<close>; one record per class and one predicate \<open><name>_ok\<close> per set of validators.
  \<^item> \<open>Credentials\<close>, \<open>Incidents\<close>: \<open>security/\<close>, the credential guard as three exact matchers and the
    incident file as a JSON value.
  \<^item> \<open>Archive\<close>, \<open>LongTerm\<close>, \<open>Transaction\<close>, \<open>Memory_Properties\<close>: \<open>memory/archive.py\<close>,
    \<open>memory/long_term.py\<close>, \<open>memory/transaction.py\<close> over one explicit world that holds the segments, the
    YAML files, the journal and a budget of durable writes; a process dies when the budget is spent.
  \<^item> \<open>Annotate\<close>, \<open>Boundaries\<close>: \<open>prompting/temporal.py\<close> and \<open>prompting/boundaries.py\<close>.

  Parameters. Pydantic, ruamel.yaml and the time zone data are arguments: \<open>codec\<close> collects the readers and
  writers, and a property that needs one to read back what was written names it (\<open>codec_record\<close>).
\<close>

end
